(* ===== verification/Prelude.thy ===== *)
theory Prelude
  imports
    Main
    "HOL-Library.Word"
    "HOL-Library.Monad_Syntax"
    "HOL-Library.Char_ord"
    "HOL-Library.List_Lexorder"
begin

text \<open>
  Shared vocabulary of the development.

  \<^item> Machine types: \<open>u8\<close>, \<open>u32\<close>, \<open>u64\<close> are words; C's \<open>int\<close> and \<open>int64_t\<close> are \<open>int\<close> with the
    range checks \<open>int_ok\<close> and \<open>int64_ok\<close> written where the code can leave the range.
  \<^item> A C function that may fail an \<open>assert\<close>, dereference NULL, free a block twice, relock a held
    mutex or otherwise have no defined continuation returns an \<open>option\<close>: \<open>None\<close> is "execution does
    not continue normally".  \<open>c_assert\<close> is C's \<open>assert\<close> (assertions are enabled in the default
    build of \<open>CMakeLists.txt\<close>, which never defines NDEBUG).
  \<^item> A C string is a \<open>string\<close> without NUL bytes; \<open>c_str\<close> reads a NUL-terminated buffer.
  \<^item> The collections \<open>own_simps\<close> (ownership of heap blocks), \<open>c_simps\<close> (the option monad and
    \<open>assert\<close>) and \<open>abs_simps\<close> (abstraction functions) carry the component proofs.
\<close>

named_theorems c_simps \<open>rewriting in the option monad\<close>
named_theorems own_simps \<open>pointers owned by a data structure\<close>
named_theorems abs_simps \<open>abstraction functions\<close>

unbundle bit_operations_syntax

type_synonym u8 = "8 word"
type_synonym u32 = "32 word"
type_synonym u64 = "64 word"

type_synonym ptr = nat

text \<open>An owned \<open>char*\<close> is the block that holds the characters and the characters.\<close>

type_synonym cstring = "ptr \<times> string"

definition INT_MAX :: int where
  "INT_MAX = 2147483647"

definition USHRT_MAX :: int where
  "USHRT_MAX = 65535"

definition int_ok :: "int \<Rightarrow> bool" where
  "int_ok i \<longleftrightarrow> - INT_MAX - 1 \<le> i \<and> i \<le> INT_MAX"

definition int64_ok :: "int \<Rightarrow> bool" where
  "int64_ok i \<longleftrightarrow> - (2 ^ 63) \<le> i \<and> i < 2 ^ 63"

definition c_assert :: "bool \<Rightarrow> unit option" where
  "c_assert P = (if P then Some () else None)"

definition c_str :: "string \<Rightarrow> string" where
  "c_str bytes = takeWhile (\<lambda>c. c \<noteq> CHR 0x00) bytes"

definition nul_free :: "string \<Rightarrow> bool" where
  "nul_free s \<longleftrightarrow> CHR 0x00 \<notin> set s"

section \<open>The option monad\<close>

lemma ex_bool [simp]: "\<exists>b. b" "\<exists>b. \<not> b"
  by (rule exI [of _ True], simp) (rule exI [of _ False], simp)

lemma c_assert_True [simp, c_simps]: "c_assert True = Some ()"
  by (simp add: c_assert_def)

lemma c_assert_False [simp, c_simps]: "c_assert False = None"
  by (simp add: c_assert_def)

lemma c_assert_eq_Some [simp, c_simps]: "c_assert P = Some u \<longleftrightarrow> P"
  by (simp add: c_assert_def)

lemma c_assert_eq_None [simp, c_simps]: "c_assert P = None \<longleftrightarrow> \<not> P"
  by (simp add: c_assert_def)

lemma bind_assert [simp, c_simps]: "P \<Longrightarrow> Option.bind (c_assert P) f = f ()"
  by (simp add: c_assert_def)

lemma bind_assert_False [simp, c_simps]: "\<not> P \<Longrightarrow> Option.bind (c_assert P) f = None"
  by (simp add: c_assert_def)

lemma bind_assertE [elim!]:
  assumes "Option.bind (c_assert P) f = Some y"
  obtains "P" and "f () = Some y"
  using assms by (cases P) auto

lemmas bind_Some_iff [c_simps] = bind_eq_Some_conv

lemma bind_SomeE [elim]:
  assumes "Option.bind a f = Some y"
  obtains x where "a = Some x" and "f x = Some y"
  using assms by (cases a) auto

section \<open>Strings\<close>

lemma c_str_nul_free [simp]: "nul_free s \<Longrightarrow> c_str s = s"
  by (induction s) (auto simp: c_str_def nul_free_def)

lemma c_str_terminated [simp]: "nul_free s \<Longrightarrow> c_str (s @ CHR 0x00 # t) = s"
  by (induction s) (auto simp: c_str_def nul_free_def)

lemma nul_free_c_str [simp]: "nul_free (c_str s)"
  by (induction s) (auto simp: c_str_def nul_free_def)

lemma nul_free_Nil [simp]: "nul_free []"
  by (simp add: nul_free_def)

lemma nul_free_Cons [simp]: "nul_free (c # s) \<longleftrightarrow> c \<noteq> CHR 0x00 \<and> nul_free s"
  by (auto simp: nul_free_def)

lemma nul_free_append [simp]: "nul_free (s @ t) \<longleftrightarrow> nul_free s \<and> nul_free t"
  by (auto simp: nul_free_def)

section \<open>Lists\<close>

lemma map_of_append_notin: "k \<notin> fst ` set xs \<Longrightarrow> map_of (xs @ ys) k = map_of ys k"
  by (induction xs) auto

lemma concat_update_split:
  assumes "i < length xss"
  shows "concat (xss[i := ys]) = concat (take i xss) @ ys @ concat (drop (Suc i) xss)"
  using assms by (simp add: upd_conv_take_nth_drop)

lemma concat_split:
  assumes "i < length xss"
  shows "concat xss = concat (take i xss) @ xss ! i @ concat (drop (Suc i) xss)"
  using concat_update_split [OF assms, of "xss ! i"] by simp

lemma list_all2_set2:
  assumes "list_all2 P xs ys" and "y \<in> set ys"
  obtains x where "x \<in> set xs" "P x y"
  using assms by (metis in_set_conv_nth list_all2_conv_all_nth)

end
