(* ===== verification/Intrusive_List.thy ===== *)
theory Intrusive_List
  imports Prelude
begin

text \<open>
  The intrusive doubly linked list: \<open>src/jaegertracingc/list.c\<close>, \<open>list.h\<close>.

  Nodes live in a heap, a map from addresses to nodes with their \<open>prev\<close> and \<open>next\<close> pointers; every
  pointer assignment of the code is one heap update, in the code's order.  Reading through NULL or
  through an address that holds no node is \<open>None\<close>, so is a failed \<open>assert\<close>.
  \<open>list_rep h l xs\<close> says that the list \<open>l\<close> holds the nodes \<open>xs\<close>, in this order, with correct back
  pointers and size.  The lemmas of this theory show that each operation implements the operation
  of the same name on the sequence \<open>xs\<close> and touches no other node; the locale \<open>node_list\<close> is that
  contract, and its interpretation at the end discharges it for the code.
\<close>

record 'd list_node =
  node_prev :: "ptr option"
  node_next :: "ptr option"
  node_data :: 'd

type_synonym 'd node_heap = "ptr \<rightharpoonup> 'd list_node"

record jaeger_list =
  list_head :: "ptr option"
  list_size :: nat

definition JAEGERTRACINGC_LIST_INIT :: jaeger_list where
  "JAEGERTRACINGC_LIST_INIT = \<lparr>list_head = None, list_size = 0\<rparr>"

definition deref :: "'d node_heap \<Rightarrow> ptr option \<Rightarrow> 'd list_node option" where
  "deref h p = Option.bind p h"

definition set_next :: "ptr \<Rightarrow> ptr option \<Rightarrow> 'd node_heap \<Rightarrow> 'd node_heap option" where
  "set_next p v h = do { nd \<leftarrow> h p; Some (h(p \<mapsto> nd\<lparr>node_next := v\<rparr>)) }"

definition set_prev :: "ptr \<Rightarrow> ptr option \<Rightarrow> 'd node_heap \<Rightarrow> 'd node_heap option" where
  "set_prev p v h = do { nd \<leftarrow> h p; Some (h(p \<mapsto> nd\<lparr>node_prev := v\<rparr>)) }"

text \<open>\<open>for (size_t i = 0; i < index; i++) node = node->next;\<close>\<close>

primrec list_walk :: "'d node_heap \<Rightarrow> ptr option \<Rightarrow> nat \<Rightarrow> ptr option option" where
  "list_walk h node 0 = Some node"
| "list_walk h node (Suc n) = do { nd \<leftarrow> deref h node; list_walk h (node_next nd) n }"

definition jaeger_list_get :: "'d node_heap \<Rightarrow> jaeger_list \<Rightarrow> nat \<Rightarrow> ptr option option" where
  "jaeger_list_get h l index =
     (if index \<ge> list_size l then Some None else list_walk h (list_head l) index)"

definition jaeger_list_insert ::
  "'d node_heap \<Rightarrow> jaeger_list \<Rightarrow> nat \<Rightarrow> ptr \<Rightarrow> ('d node_heap \<times> jaeger_list) option" where
  "jaeger_list_insert h l index elem = do {
     c_assert (index \<le> list_size l);
     if index = 0 then
       (case list_head l of
          None \<Rightarrow> do {
            h \<leftarrow> set_next elem None h;
            h \<leftarrow> set_prev elem None h;
            Some (h, \<lparr>list_head = Some elem, list_size = list_size l + 1\<rparr>)
          }
        | Some hp \<Rightarrow> do {
            nd \<leftarrow> h hp;
            c_assert (node_prev nd = None);
            h \<leftarrow> set_prev elem None h;
            h \<leftarrow> set_next elem (Some hp) h;
            h \<leftarrow> set_prev hp (Some elem) h;
            Some (h, \<lparr>list_head = Some elem, list_size = list_size l + 1\<rparr>)
          })
     else do {
       node \<leftarrow> jaeger_list_get h l (index - 1);
       c_assert (node \<noteq> None);
       let n = the node;
       nd \<leftarrow> h n;
       h \<leftarrow> set_next elem (node_next nd) h;
       h \<leftarrow> (case node_next nd of None \<Rightarrow> Some h | Some nx \<Rightarrow> set_prev nx (Some elem) h);
       h \<leftarrow> set_next n (Some elem) h;
       h \<leftarrow> set_prev elem (Some n) h;
       Some (h, l\<lparr>list_size := list_size l + 1\<rparr>)
     }
   }"

definition jaeger_list_append ::
  "'d node_heap \<Rightarrow> jaeger_list \<Rightarrow> ptr \<Rightarrow> ('d node_heap \<times> jaeger_list) option" where
  "jaeger_list_append h l elem = jaeger_list_insert h l (list_size l) elem"

definition jaeger_list_node_remove ::
  "'d node_heap \<Rightarrow> jaeger_list \<Rightarrow> ptr \<Rightarrow> ('d node_heap \<times> jaeger_list) option" where
  "jaeger_list_node_remove h l node = do {
     nd \<leftarrow> h node;
     let l = (if list_head l = Some node
              then l\<lparr>list_head := (case node_next nd of Some nx \<Rightarrow> Some nx | None \<Rightarrow> None)\<rparr> else l);
     h \<leftarrow> (case node_next nd of None \<Rightarrow> Some h | Some nx \<Rightarrow> set_prev nx (node_prev nd) h);
     h \<leftarrow> (case node_prev nd of None \<Rightarrow> Some h | Some pv \<Rightarrow> set_next pv (node_next nd) h);
     h \<leftarrow> set_next node None h;
     h \<leftarrow> set_prev node None h;
     Some (h, l\<lparr>list_size := list_size l - 1\<rparr>)
   }"

text \<open>
  \<open>jaeger_list_clear\<close>: the node's own destructor is an argument; it returns the state after the node
  is gone.  The loop reads \<open>next\<close> before it destroys, and returns only if the chain ends.
\<close>

partial_function (option) list_clear_loop ::
  "(ptr \<Rightarrow> 'd node_heap \<times> 's \<Rightarrow> ('d node_heap \<times> 's) option) \<Rightarrow> ptr option \<Rightarrow>
   'd node_heap \<times> 's \<Rightarrow> ('d node_heap \<times> 's) option" where
  "list_clear_loop destroy node hs =
     (case node of
        None \<Rightarrow> Some hs
      | Some p \<Rightarrow>
          Option.bind (fst hs p) (\<lambda>nd.
          Option.bind (destroy p hs) (\<lambda>hs'. list_clear_loop destroy (node_next nd) hs')))"

definition jaeger_list_clear ::
  "(ptr \<Rightarrow> 'd node_heap \<times> 's \<Rightarrow> ('d node_heap \<times> 's) option) \<Rightarrow> jaeger_list \<Rightarrow>
   'd node_heap \<times> 's \<Rightarrow> (('d node_heap \<times> 's) \<times> jaeger_list) option" where
  "jaeger_list_clear destroy l hs = do {
     hs \<leftarrow> list_clear_loop destroy (list_head l) hs;
     Some (hs, \<lparr>list_head = None, list_size = 0\<rparr>)
   }"

section \<open>Segments of a doubly linked list\<close>

text \<open>
  \<open>seg h p c xs c' p'\<close>: following \<open>next\<close> from \<open>c\<close> visits exactly \<open>xs\<close> and arrives at \<open>c'\<close>; the back
  pointer of the first node is \<open>p\<close> and \<open>p'\<close> is the last node (\<open>p\<close> if there is none).
\<close>

primrec seg ::
  "'d node_heap \<Rightarrow> ptr option \<Rightarrow> ptr option \<Rightarrow> ptr list \<Rightarrow> ptr option \<Rightarrow> ptr option \<Rightarrow> bool" where
  "seg h p c [] c' p' \<longleftrightarrow> c = c' \<and> p = p'"
| "seg h p c (x # xs) c' p' \<longleftrightarrow>
     c = Some x \<and> (\<exists>nd. h x = Some nd \<and> node_prev nd = p \<and> seg h (Some x) (node_next nd) xs c' p')"

definition list_rep :: "'d node_heap \<Rightarrow> jaeger_list \<Rightarrow> ptr list \<Rightarrow> bool" where
  "list_rep h l xs \<longleftrightarrow>
     (\<exists>p'. seg h None (list_head l) xs None p') \<and> distinct xs \<and> list_size l = length xs"

definition same_data :: "'d node_heap \<Rightarrow> 'd node_heap \<Rightarrow> bool" where
  "same_data h h' \<longleftrightarrow> (\<forall>p. map_option node_data (h' p) = map_option node_data (h p))"

lemma seg_append:
  "seg h p c (xs @ ys) c' p' \<longleftrightarrow> (\<exists>d q. seg h p c xs d q \<and> seg h q d ys c' p')"
  by (induction xs arbitrary: p c) auto

lemma seg_upd [simp]: "x \<notin> set xs \<Longrightarrow> seg (h(x := v)) p c xs c' p' = seg h p c xs c' p'"
  by (induction xs arbitrary: p c) auto

lemma seg_cong:
  assumes "\<And>x. x \<in> set xs \<Longrightarrow> h' x = h x"
  shows "seg h' p c xs c' p' = seg h p c xs c' p'"
  using assms by (induction xs arbitrary: p c) auto

lemma seg_dom: "seg h p c xs c' p' \<Longrightarrow> set xs \<subseteq> dom h"
  by (induction xs arbitrary: p c) auto

text \<open>The last node of a segment carries the outgoing \<open>next\<close> pointer.\<close>

lemma seg_snoc:
  "seg h p c (xs @ [y]) c' p' \<longleftrightarrow>
     p' = Some y \<and> (\<exists>nd. h y = Some nd \<and> node_next nd = c' \<and> seg h p c xs (Some y) (node_prev nd))"
  by (auto simp: seg_append)

text \<open>Redirecting the outgoing pointer of a non-empty segment, and the back pointer into one.\<close>

lemma seg_set_out:
  assumes "seg h p c xs c' (Some y)" and "xs \<noteq> []" and "distinct xs" and "h y = Some nd"
  shows "seg (h(y \<mapsto> nd\<lparr>node_next := d\<rparr>)) p c xs d (Some y)"
  using assms by (cases xs rule: rev_cases) (auto simp: seg_snoc)

lemma seg_set_in:
  assumes "seg h p (Some x) (x # xs) c' p'" and "h x = Some nd" and "x \<notin> set xs"
  shows "seg (h(x \<mapsto> nd\<lparr>node_prev := q\<rparr>)) q (Some x) (x # xs) c' p'"
  using assms by auto

lemma list_walk_seg:
  "seg h p c xs c' p' \<Longrightarrow> n < length xs \<Longrightarrow> list_walk h c n = Some (Some (xs ! n))"
proof (induction n arbitrary: p c xs)
  case 0
  then show ?case by (cases xs) auto
next
  case (Suc n)
  then show ?case by (cases xs) (auto simp: deref_def)
qed

lemmas list_unfold = list_rep_def set_next_def set_prev_def

section \<open>Each operation implements the sequence operation\<close>

lemma list_rep_init: "list_rep h JAEGERTRACINGC_LIST_INIT []"
  by (simp add: list_rep_def JAEGERTRACINGC_LIST_INIT_def)

lemma list_get_rep:
  assumes "list_rep h l xs"
  shows "jaeger_list_get h l i = Some (if i < length xs then Some (xs ! i) else None)"
  using assms list_walk_seg by (fastforce simp: list_rep_def jaeger_list_get_def)

lemma list_insert_head:
  assumes "list_rep h l xs" and "e \<in> dom h" and "e \<notin> set xs"
  obtains h' l' where "jaeger_list_insert h l 0 e = Some (h', l')" and "list_rep h' l' (e # xs)"
    and "same_data h h'" and "\<And>p. p \<notin> insert e (set xs) \<Longrightarrow> h' p = h p"
proof (cases xs)
  case Nil
  with assms that show ?thesis
    by (fastforce simp: jaeger_list_insert_def list_unfold same_data_def)
next
  case (Cons x ys)
  from assms(2) obtain ne where e: "h e = Some ne" by auto
  from assms(1) Cons obtain nx where x: "h x = Some nx" "node_prev nx = None" and hp: "list_head l = Some x"
    by (auto simp: list_rep_def)
  let ?h = "h(e \<mapsto> ne\<lparr>node_prev := None, node_next := Some x\<rparr>, x \<mapsto> nx\<lparr>node_prev := Some e\<rparr>)"
  let ?l = "\<lparr>list_head = Some e, list_size = list_size l + 1\<rparr>"
  have ne: "e \<noteq> x" "x \<notin> set ys" using assms(1,3) Cons by (auto simp: list_rep_def)
  have "jaeger_list_insert h l 0 e = Some (?h, ?l)"
    using x hp e ne by (simp add: jaeger_list_insert_def set_next_def set_prev_def)
  moreover have "list_rep ?h ?l (e # xs)"
    using assms Cons x ne by (auto simp: list_rep_def)
  moreover have "same_data h ?h" using x e by (simp add: same_data_def)
  ultimately show ?thesis using that Cons by fastforce
qed

lemma list_insert_after:
  assumes rep: "list_rep h l (as @ y # bs)" and e: "h e = Some ne" and ne: "e \<notin> set (as @ y # bs)"
  obtains h' where
    "jaeger_list_insert h l (Suc (length as)) e = Some (h', l\<lparr>list_size := list_size l + 1\<rparr>)"
    and "list_rep h' (l\<lparr>list_size := list_size l + 1\<rparr>) (as @ y # e # bs)"
    and "same_data h h'" and "\<And>p. p \<notin> insert e (set (as @ y # bs)) \<Longrightarrow> h' p = h p"
proof -
  from rep obtain ny q where y: "h y = Some ny"
    and s1: "seg h None (list_head l) as (Some y) (node_prev ny)"
    and s2: "seg h (Some y) (node_next ny) bs None q"
    and d: "distinct (as @ y # bs)" and sz: "list_size l = length (as @ y # bs)"
    by (auto simp: list_rep_def seg_append)
  have get: "jaeger_list_get h l (length as) = Some (Some y)"
    using list_get_rep [OF rep, of "length as"] by simp
  show ?thesis
  proof (cases bs)
    case Nil
    let ?h = "h(e \<mapsto> ne\<lparr>node_next := None, node_prev := Some y\<rparr>, y \<mapsto> ny\<lparr>node_next := Some e\<rparr>)"
    have nn: "node_next ny = None" using s2 Nil by simp
    have "jaeger_list_insert h l (Suc (length as)) e = Some (?h, l\<lparr>list_size := list_size l + 1\<rparr>)"
      using get y e ne nn sz Nil
      by (simp add: jaeger_list_insert_def set_next_def set_prev_def fun_upd_twist)
    moreover have "list_rep ?h (l\<lparr>list_size := list_size l + 1\<rparr>) (as @ y # e # bs)"
      using s1 y ne d sz Nil by (auto simp: list_rep_def seg_append)
    moreover have "same_data h ?h" using y e by (simp add: same_data_def)
    moreover have "\<And>p. p \<notin> insert e (set (as @ y # bs)) \<Longrightarrow> ?h p = h p" by auto
    ultimately show ?thesis using that by blast
  next
    case (Cons b cs)
    with s2 obtain nb where b: "h b = Some nb" "node_prev nb = Some y" "node_next ny = Some b"
      and s3: "seg h (Some b) (node_next nb) cs None q" by auto
    have neqs: "e \<noteq> y" "e \<noteq> b" "y \<noteq> b" "b \<notin> set cs" "y \<notin> set cs" "e \<notin> set cs"
        "y \<notin> set as" "b \<notin> set as" "e \<notin> set as"
      using ne d Cons by auto
    let ?h = "h(e \<mapsto> ne\<lparr>node_next := Some b, node_prev := Some y\<rparr>, b \<mapsto> nb\<lparr>node_prev := Some e\<rparr>,
                y \<mapsto> ny\<lparr>node_next := Some e\<rparr>)"
    have "jaeger_list_insert h l (Suc (length as)) e = Some (?h, l\<lparr>list_size := list_size l + 1\<rparr>)"
      using get y e b neqs sz Cons
      by (simp add: jaeger_list_insert_def set_next_def set_prev_def fun_upd_twist)
    moreover have "list_rep ?h (l\<lparr>list_size := list_size l + 1\<rparr>) (as @ y # e # bs)"
      using s1 s3 neqs d ne sz Cons by (auto simp: list_rep_def seg_append)
    moreover have "same_data h ?h" using y e b by (simp add: same_data_def)
    moreover have "\<And>p. p \<notin> insert e (set (as @ y # bs)) \<Longrightarrow> ?h p = h p" using Cons by auto
    ultimately show ?thesis using that by blast
  qed
qed

lemma list_insert_rep:
  assumes "list_rep h l xs" and "e \<in> dom h" and "e \<notin> set xs" and "i \<le> length xs"
  obtains h' l' where "jaeger_list_insert h l i e = Some (h', l')"
    and "list_rep h' l' (take i xs @ e # drop i xs)"
    and "same_data h h'" and "\<And>p. p \<notin> insert e (set xs) \<Longrightarrow> h' p = h p"
proof (cases i)
  case 0
  with list_insert_head [OF assms(1-3)] that show ?thesis by auto
next
  case (Suc j)
  with assms(4) have xs: "xs = take j xs @ xs ! j # drop i xs"
    by (metis Suc_le_lessD id_take_nth_drop)
  have j: "length (take j xs) = j" using Suc assms(4) by simp
  have i: "take i xs = take j xs @ [xs ! j]"
    using Suc assms(4) by (simp add: take_Suc_conv_app_nth)
  from assms(2) obtain ne where "h e = Some ne" by auto
  from list_insert_after [of h l "take j xs" "xs ! j" "drop i xs", OF _ this] assms(1,3) xs
  obtain h' where "jaeger_list_insert h l (Suc (length (take j xs))) e = Some (h', l\<lparr>list_size := list_size l + 1\<rparr>)"
    "list_rep h' (l\<lparr>list_size := list_size l + 1\<rparr>) (take j xs @ xs ! j # e # drop i xs)"
    "same_data h h'" "\<And>p. p \<notin> insert e (set xs) \<Longrightarrow> h' p = h p"
    by metis
  with that j i Suc show ?thesis by fastforce
qed

lemma list_append_rep:
  assumes "list_rep h l xs" and "e \<in> dom h" and "e \<notin> set xs"
  obtains h' l' where "jaeger_list_append h l e = Some (h', l')" and "list_rep h' l' (xs @ [e])"
    and "same_data h h'" and "\<And>p. p \<notin> insert e (set xs) \<Longrightarrow> h' p = h p"
proof -
  have "list_size l = length xs" using assms(1) by (simp add: list_rep_def)
  with list_insert_rep [OF assms, of "length xs"] that show ?thesis
    by (auto simp: jaeger_list_append_def)
qed

lemma list_remove_rep:
  assumes rep: "list_rep h l (as @ x # bs)"
  obtains h' l' nd where "jaeger_list_node_remove h l x = Some (h', l')"
    and "list_rep h' l' (as @ bs)" and "same_data h h'"
    and "\<And>p. p \<notin> set (as @ x # bs) \<Longrightarrow> h' p = h p"
    and "h' x = Some nd" and "node_prev nd = None" and "node_next nd = None"
proof -
  from rep obtain nx q where x: "h x = Some nx"
    and s1: "seg h None (list_head l) as (Some x) (node_prev nx)"
    and s2: "seg h (Some x) (node_next nx) bs None q"
    and d: "distinct (as @ x # bs)" and sz: "list_size l = length (as @ x # bs)"
    by (auto simp: list_rep_def seg_append)
  define h1 where "h1 = (case node_next nx of None \<Rightarrow> h
     | Some b \<Rightarrow> h(b \<mapsto> (the (h b))\<lparr>node_prev := node_prev nx\<rparr>))"
  define h2 where "h2 = (case node_prev nx of None \<Rightarrow> h1
     | Some a \<Rightarrow> h1(a \<mapsto> (the (h1 a))\<lparr>node_next := node_next nx\<rparr>))"
  define h3 where "h3 = h2(x \<mapsto> nx\<lparr>node_next := None, node_prev := None\<rparr>)"
  define l' where "l' = (if list_head l = Some x then l\<lparr>list_head := node_next nx\<rparr> else l)
     \<lparr>list_size := list_size l - 1\<rparr>"
  have s2': "seg h1 (node_prev nx) (node_next nx) bs None (if bs = [] then node_prev nx else q)"
    using s2 d by (cases bs) (auto simp: h1_def)
  have s1h1: "seg h1 None (list_head l) as (Some x) (node_prev nx)"
    using s1 s2 d by (cases bs) (auto simp: h1_def)
  have "seg h2 None (list_head l') as (node_next nx) (node_prev nx) \<and>
        seg h2 (node_prev nx) (node_next nx) bs None (if bs = [] then node_prev nx else q)"
  proof (cases as rule: rev_cases)
    case Nil
    with s1 s2' show ?thesis by (auto simp: h2_def l'_def)
  next
    case (snoc as' a)
    then have pv: "node_prev nx = Some a" using s1 by (auto simp: seg_snoc)
    have "list_head l \<noteq> Some x" using s1 d snoc by (cases as') (auto simp: seg_append)
    moreover have "seg h2 None (list_head l) as (node_next nx) (Some a)"
      using s1h1 d snoc pv by (auto simp: h2_def seg_snoc)
    moreover have "seg h2 (Some a) (node_next nx) bs None (if bs = [] then node_prev nx else q)"
      using s2' d snoc pv by (auto simp: h2_def)
    ultimately show ?thesis using pv by (simp add: l'_def)
  qed
  then have rep': "list_rep h3 l' (as @ bs)"
    using d sz by (auto simp: list_rep_def seg_append h3_def l'_def)
  have xh: "h2 x = Some nx" and h1b: "\<And>b. node_next nx = Some b \<Longrightarrow> b \<in> dom h"
    and h1a: "\<And>a. node_prev nx = Some a \<Longrightarrow> a \<in> dom h1"
    using x s1h1 s2 d seg_dom [OF s1h1]
    by (cases as rule: rev_cases; cases bs; auto simp: h1_def h2_def seg_snoc)+
  have run: "jaeger_list_node_remove h l x = Some (h3, l')"
    using x xh h1b h1a
    by (auto simp: jaeger_list_node_remove_def set_prev_def set_next_def h1_def h2_def h3_def l'_def
        Let_def split: option.splits)
  have data: "same_data h h3"
    using x xh h1b h1a
    by (auto simp: same_data_def h1_def h2_def h3_def split: option.splits)
  have frame: "h3 p = h p" if "p \<notin> set (as @ x # bs)" for p
    using that s1 s2
    by (cases as rule: rev_cases; cases bs; auto simp: h1_def h2_def h3_def seg_snoc)
  from that [OF run rep' data frame] show ?thesis by (simp add: h3_def)
qed

text \<open>
  Clearing destroys every node exactly once, front to back, and leaves the heap without them.  The
  destructor may change the rest of the state (\<open>g\<close>) but no other node.
\<close>

lemma list_clear_loop_seg:
  assumes "\<And>p h s. p \<in> dom h \<Longrightarrow> destroy p (h, s) = Some (h(p := None), g p s)"
    and "seg h q c xs None q'" and "distinct xs"
  shows "list_clear_loop destroy c (h, s) = Some (h |` (- set xs), fold g xs s)"
  using assms(2,3)
proof (induction xs arbitrary: h q c s)
  case Nil
  then show ?case by (subst list_clear_loop.simps) (simp add: restrict_map_def fun_eq_iff)
next
  case (Cons x xs)
  from Cons.prems obtain nd where c: "c = Some x" and nd: "h x = Some nd"
    and rest: "seg h (Some x) (node_next nd) xs None q'" and x: "x \<notin> set xs" "distinct xs" by auto
  then have "seg (h(x := None)) (Some x) (node_next nd) xs None q'" by simp
  from Cons.IH [OF this x(2)]
  have "list_clear_loop destroy (node_next nd) (h(x := None), g x s) =
      Some (h(x := None) |` (- set xs), fold g xs (g x s))" .
  moreover have "h(x := None) |` (- set xs) = h |` (- set (x # xs))"
    by (auto simp: restrict_map_def fun_eq_iff)
  ultimately show ?case
    using c nd assms(1) [of x h s] by (subst list_clear_loop.simps) (simp add: domI)
qed

lemma list_clear_rep:
  assumes "\<And>p h s. p \<in> dom h \<Longrightarrow> destroy p (h, s) = Some (h(p := None), g p s)"
    and "list_rep h l xs"
  shows "jaeger_list_clear destroy l (h, s) =
    Some ((h |` (- set xs), fold g xs s), JAEGERTRACINGC_LIST_INIT)"
  using list_clear_loop_seg [of destroy g, OF assms(1)] assms(2)
  by (fastforce simp: jaeger_list_clear_def list_rep_def JAEGERTRACINGC_LIST_INIT_def)

section \<open>The contract of a node list\<close>

text \<open>
  What the hashtable relies on: \<open>rep h l xs\<close> relates a list to the sequence of its nodes, appending
  adds at the end, removing takes out one node, both keep the payloads and every foreign node.
\<close>

locale node_list =
  fixes rep :: "'h \<Rightarrow> 'l \<Rightarrow> ptr list \<Rightarrow> bool"
    and node :: "'h \<Rightarrow> ptr \<Rightarrow> 'n option"
    and payload :: "'n \<Rightarrow> 'd"
    and empty :: 'l
    and get :: "'h \<Rightarrow> 'l \<Rightarrow> nat \<Rightarrow> ptr option option"
    and append :: "'h \<Rightarrow> 'l \<Rightarrow> ptr \<Rightarrow> ('h \<times> 'l) option"
    and remove :: "'h \<Rightarrow> 'l \<Rightarrow> ptr \<Rightarrow> ('h \<times> 'l) option"
  assumes rep_empty: "rep h empty []"
    and rep_distinct: "rep h l xs \<Longrightarrow> distinct xs"
    and get_nth: "rep h l xs \<Longrightarrow> get h l i = Some (if i < length xs then Some (xs ! i) else None)"
    and append_spec: "rep h l xs \<Longrightarrow> node h e \<noteq> None \<Longrightarrow> e \<notin> set xs \<Longrightarrow>
      \<exists>h' l'. append h l e = Some (h', l') \<and> rep h' l' (xs @ [e]) \<and>
        (\<forall>p. map_option payload (node h' p) = map_option payload (node h p)) \<and>
        (\<forall>p. p \<notin> insert e (set xs) \<longrightarrow> node h' p = node h p)"
    and remove_spec: "rep h l (xs @ e # ys) \<Longrightarrow>
      \<exists>h' l'. remove h l e = Some (h', l') \<and> rep h' l' (xs @ ys) \<and>
        (\<forall>p. map_option payload (node h' p) = map_option payload (node h p)) \<and>
        (\<forall>p. p \<notin> set (xs @ e # ys) \<longrightarrow> node h' p = node h p)"
    and rep_cong: "rep h l xs \<Longrightarrow> (\<And>p. p \<in> set xs \<Longrightarrow> node h' p = node h p) \<Longrightarrow> rep h' l xs"
begin

text \<open>
  Moving the front node of one list to the end of a disjoint one, the step of rehashing: the
  sequences change accordingly and the payload of every node is kept.
\<close>

lemma move_front:
  assumes a: "rep h a (x # xs)" and b: "rep h b ys" and disj: "set (x # xs) \<inter> set ys = {}"
    and x: "node h x \<noteq> None"
  shows "\<exists>h1 a' h2 b'. remove h a x = Some (h1, a') \<and> append h1 b x = Some (h2, b') \<and>
    rep h2 a' xs \<and> rep h2 b' (ys @ [x]) \<and>
    (\<forall>p. map_option payload (node h2 p) = map_option payload (node h p)) \<and>
    (\<forall>p. p \<notin> set (x # xs) \<union> set ys \<longrightarrow> node h2 p = node h p)"
proof -
  from remove_spec [of h a "[]" x xs] a obtain h1 a' where r: "remove h a x = Some (h1, a')"
    and ra: "rep h1 a' xs" and rd: "\<And>p. map_option payload (node h1 p) = map_option payload (node h p)"
    and rf: "\<And>p. p \<notin> set (x # xs) \<Longrightarrow> node h1 p = node h p" by auto
  have x1: "node h1 x \<noteq> None" using rd [of x] x by (cases "node h1 x") auto
  have b1: "rep h1 b ys" by (rule rep_cong [OF b], rule rf) (use disj in auto)
  have "x \<notin> set ys" using disj by auto
  from append_spec [OF b1 x1 this] obtain h2 b' where ap: "append h1 b x = Some (h2, b')"
    and rb: "rep h2 b' (ys @ [x])"
    and ad: "\<And>p. map_option payload (node h2 p) = map_option payload (node h1 p)"
    and af: "\<And>p. p \<notin> insert x (set ys) \<Longrightarrow> node h2 p = node h1 p" by auto
  have "x \<notin> set xs" using rep_distinct [OF a] by simp
  then have "rep h2 a' xs" by (intro rep_cong [OF ra] af) (use disj in auto)
  with r ap rb rd ad rf af show ?thesis by auto
qed

text \<open>Filling an empty list by repeated appends yields the appended nodes in order.\<close>

lemma append_all:
  assumes "distinct es" and "\<And>e. e \<in> set es \<Longrightarrow> node h e \<noteq> None" and "rep h l xs"
    and "set es \<inter> set xs = {}"
  shows "\<exists>h' l'. fold (\<lambda>e hl. Option.bind hl (\<lambda>(h, l). append h l e)) es (Some (h, l)) = Some (h', l') \<and>
    rep h' l' (xs @ es)"
  using assms
proof (induction es arbitrary: h l xs)
  case Nil
  then show ?case by simp
next
  case (Cons e es)
  from append_spec [OF Cons.prems(3), of e] Cons.prems obtain h1 l1 where
    1: "append h l e = Some (h1, l1)" "rep h1 l1 (xs @ [e])"
    and d: "\<And>p. map_option payload (node h1 p) = map_option payload (node h p)" by auto
  have "node h1 p \<noteq> None" if "p \<in> set es" for p
    using d [of p] Cons.prems(2) [of p] that by (cases "node h1 p") auto
  from Cons.IH [OF _ this 1(2)] Cons.prems 1(1) show ?case by auto
qed

end

interpretation jl: node_list list_rep "\<lambda>h. h" node_data JAEGERTRACINGC_LIST_INIT
  jaeger_list_get jaeger_list_append jaeger_list_node_remove
proof
  fix h :: "'a node_heap" and l xs e
  assume "list_rep h l xs" "h e \<noteq> None" "e \<notin> set xs"
  then obtain h' l' where "jaeger_list_append h l e = Some (h', l')" "list_rep h' l' (xs @ [e])"
    "same_data h h'" "\<And>p. p \<notin> insert e (set xs) \<Longrightarrow> h' p = h p"
    using list_append_rep [of h l xs e] by auto
  then show "\<exists>h' l'. jaeger_list_append h l e = Some (h', l') \<and>
      list_rep h' l' (xs @ [e]) \<and>
      (\<forall>p. map_option node_data (h' p) = map_option node_data (h p)) \<and>
      (\<forall>p. p \<notin> insert e (set xs) \<longrightarrow> h' p = h p)"
    unfolding same_data_def by blast
next
  fix h :: "'a node_heap" and l xs e ys
  assume "list_rep h l (xs @ e # ys)"
  from list_remove_rep [OF this] obtain h' l' where "jaeger_list_node_remove h l e = Some (h', l')"
    "list_rep h' l' (xs @ ys)" "same_data h h'" "\<And>p. p \<notin> set (xs @ e # ys) \<Longrightarrow> h' p = h p"
    by metis
  then show "\<exists>h' l'. jaeger_list_node_remove h l e = Some (h', l') \<and>
      list_rep h' l' (xs @ ys) \<and>
      (\<forall>p. map_option node_data (h' p) = map_option node_data (h p)) \<and>
      (\<forall>p. p \<notin> set (xs @ e # ys) \<longrightarrow> h' p = h p)"
    unfolding same_data_def by blast
next
  fix h h' :: "'a node_heap" and l xs
  assume "list_rep h l xs" "\<And>p. p \<in> set xs \<Longrightarrow> h' p = h p"
  then show "list_rep h' l xs" using seg_cong [of xs h' h] by (auto simp: list_rep_def)
qed (simp_all add: list_get_rep, simp_all add: list_rep_def JAEGERTRACINGC_LIST_INIT_def)

text \<open>
  C30: the linked list of \<open>list.c\<close> implements a sequence.  Inserting a node that is not in the list at a
  position, in a heap where the list is well linked, relinks the nodes so that they represent the
  sequence with the node inserted there, keeps every payload and does not touch any other node;
  removing a node of the list gives the sequence without it, with the same guarantees.
\<close>

theorem list_implements_sequence:
  assumes "list_rep h l xs"
  shows "(e \<in> dom h \<and> e \<notin> set xs \<and> i \<le> length xs \<longrightarrow>
      (\<exists>h' l'. jaeger_list_insert h l i e = Some (h', l') \<and> list_rep h' l' (take i xs @ e # drop i xs) \<and>
        same_data h h' \<and> (\<forall>p. p \<notin> insert e (set xs) \<longrightarrow> h' p = h p))) \<and>
    (j < length xs \<longrightarrow>
      (\<exists>h' l'. jaeger_list_node_remove h l (xs ! j) = Some (h', l') \<and>
        list_rep h' l' (take j xs @ drop (Suc j) xs) \<and>
        same_data h h' \<and> (\<forall>p. p \<notin> set xs \<longrightarrow> h' p = h p)))"
proof (intro conjI impI)
  assume "e \<in> dom h \<and> e \<notin> set xs \<and> i \<le> length xs"
  with list_insert_rep [OF assms, of e i] show "\<exists>h' l'. jaeger_list_insert h l i e = Some (h', l') \<and>
      list_rep h' l' (take i xs @ e # drop i xs) \<and> same_data h h' \<and> (\<forall>p. p \<notin> insert e (set xs) \<longrightarrow> h' p = h p)"
    by metis
next
  assume "j < length xs"
  then have "xs = take j xs @ xs ! j # drop (Suc j) xs" by (rule id_take_nth_drop)
  with list_remove_rep [of h l "take j xs" "xs ! j" "drop (Suc j) xs"] assms
  show "\<exists>h' l'. jaeger_list_node_remove h l (xs ! j) = Some (h', l') \<and>
      list_rep h' l' (take j xs @ drop (Suc j) xs) \<and> same_data h h' \<and> (\<forall>p. p \<notin> set xs \<longrightarrow> h' p = h p)"
    by metis
qed

theorem list_implements_sequence_witness:
  "\<exists>h' l'. jaeger_list_insert [7 \<mapsto> \<lparr>node_prev = None, node_next = None, node_data = ()\<rparr>]
      JAEGERTRACINGC_LIST_INIT 0 7 = Some (h', l') \<and> list_rep h' l' [7]"
  using list_implements_sequence [OF list_rep_init, of 7 "[7 \<mapsto> \<lparr>node_prev = None, node_next = None, node_data = ()\<rparr>]" 0]
  by auto

end
