(* ===== verification/Clock.thy ===== *)
theory Clock
  imports Prelude "HOL-Library.Signed_Division"
begin

text \<open>
  Timestamps and durations: \<open>src/jaegertracingc/clock.c\<close>.

  \<open>opentracing_time_value\<close> is a pair of signed 64-bit fields.  The readings of the two system
  clocks are arguments of the functions that take them; \<open>jaeger_time_subtract\<close> is pure and its
  arithmetic is C's: \<open>sdiv\<close> truncates towards zero, and an intermediate value that leaves the
  64-bit range is undefined (\<open>None\<close>).
\<close>

definition JAEGERTRACINGC_NANOSECONDS_PER_SECOND :: int where
  "JAEGERTRACINGC_NANOSECONDS_PER_SECOND = 1000000000"

record opentracing_time_value =
  tv_sec :: int
  tv_nsec :: int

text \<open>\<open>jaeger_timestamp_now\<close> and \<open>jaeger_duration_now\<close> store what \<open>clock_gettime\<close> returned.\<close>

definition jaeger_timestamp_now :: "int \<times> int \<Rightarrow> opentracing_time_value" where
  "jaeger_timestamp_now t = \<lparr>tv_sec = fst t, tv_nsec = snd t\<rparr>"

definition jaeger_duration_now :: "int \<times> int \<Rightarrow> opentracing_time_value" where
  "jaeger_duration_now t = \<lparr>tv_sec = fst t, tv_nsec = snd t\<rparr>"

definition chk64 :: "int \<Rightarrow> int option" where
  "chk64 i = (if int64_ok i then Some i else None)"

definition borrow_step :: "opentracing_time_value \<Rightarrow> opentracing_time_value \<Rightarrow> opentracing_time_value option" where
  "borrow_step lhs rhs =
     (if tv_nsec lhs < tv_nsec rhs then do {
        d \<leftarrow> chk64 (tv_nsec rhs - tv_nsec lhs);
        nsec \<leftarrow> chk64 (d sdiv JAEGERTRACINGC_NANOSECONDS_PER_SECOND + 1);
        k \<leftarrow> chk64 (JAEGERTRACINGC_NANOSECONDS_PER_SECOND * nsec);
        ns \<leftarrow> chk64 (tv_nsec rhs - k);
        sec \<leftarrow> chk64 (tv_sec rhs + nsec);
        Some (rhs\<lparr>tv_nsec := ns, tv_sec := sec\<rparr>)
      } else Some rhs)"

definition carry_step :: "opentracing_time_value \<Rightarrow> opentracing_time_value \<Rightarrow> opentracing_time_value option" where
  "carry_step lhs rhs = do {
     d \<leftarrow> chk64 (tv_nsec lhs - tv_nsec rhs);
     if d > JAEGERTRACINGC_NANOSECONDS_PER_SECOND then do {
       nsec \<leftarrow> chk64 (d sdiv JAEGERTRACINGC_NANOSECONDS_PER_SECOND);
       k \<leftarrow> chk64 (JAEGERTRACINGC_NANOSECONDS_PER_SECOND * nsec);
       ns \<leftarrow> chk64 (tv_nsec rhs + k);
       sec \<leftarrow> chk64 (tv_sec rhs - nsec);
       Some (rhs\<lparr>tv_nsec := ns, tv_sec := sec\<rparr>)
     } else Some rhs
   }"

definition jaeger_time_subtract ::
  "opentracing_time_value \<Rightarrow> opentracing_time_value \<Rightarrow> (bool \<times> opentracing_time_value) option" where
  "jaeger_time_subtract lhs rhs = do {
     rhs \<leftarrow> borrow_step lhs rhs;
     rhs \<leftarrow> carry_step lhs rhs;
     sec \<leftarrow> chk64 (tv_sec lhs - tv_sec rhs);
     nsec \<leftarrow> chk64 (tv_nsec lhs - tv_nsec rhs);
     Some (tv_sec rhs \<le> tv_sec lhs, \<lparr>tv_sec = sec, tv_nsec = nsec\<rparr>)
   }"

text \<open>The value of a time in nanoseconds; a reading of a clock is normalised.\<close>

definition time_ns :: "opentracing_time_value \<Rightarrow> int" where
  "time_ns t = tv_sec t * JAEGERTRACINGC_NANOSECONDS_PER_SECOND + tv_nsec t"

definition time_norm :: "opentracing_time_value \<Rightarrow> bool" where
  "time_norm t \<longleftrightarrow> 0 \<le> tv_nsec t \<and> tv_nsec t < JAEGERTRACINGC_NANOSECONDS_PER_SECOND"

text \<open>Seconds that leave room for a borrow; a clock reading is far inside.\<close>

definition sec_ok :: "opentracing_time_value \<Rightarrow> bool" where
  "sec_ok t \<longleftrightarrow> \<bar>tv_sec t\<bar> \<le> 2 ^ 61"

lemma chk64_eq_Some [simp]: "chk64 i = Some j \<longleftrightarrow> int64_ok i \<and> j = i"
  by (auto simp: chk64_def)

lemma chk64_ok [simp]: "int64_ok i \<Longrightarrow> chk64 i = Some i"
  by (simp add: chk64_def)

lemmas clock_unfold =
  borrow_step_def carry_step_def time_norm_def sec_ok_def time_ns_def
  JAEGERTRACINGC_NANOSECONDS_PER_SECOND_def

lemma sdiv_small: "0 \<le> d \<Longrightarrow> d < n \<Longrightarrow> (d::int) sdiv n = 0"
  by (simp add: signed_divide_int_def)

lemma borrow_step_norm:
  assumes "time_norm lhs" and "time_norm rhs" and "sec_ok rhs"
  shows "borrow_step lhs rhs =
    Some (if tv_nsec lhs < tv_nsec rhs
          then rhs\<lparr>tv_nsec := tv_nsec rhs - 1000000000, tv_sec := tv_sec rhs + 1\<rparr> else rhs)"
proof (cases "tv_nsec lhs < tv_nsec rhs")
  case True
  have "(tv_nsec rhs - tv_nsec lhs) sdiv 1000000000 = 0"
    using assms True by (intro sdiv_small) (auto simp: clock_unfold)
  then show ?thesis
    using assms True by (auto simp: clock_unfold chk64_def int64_ok_def abs_le_iff)
qed (simp add: borrow_step_def)

lemma carry_step_id:
  assumes "0 \<le> tv_nsec lhs - tv_nsec rhs" and "tv_nsec lhs - tv_nsec rhs < 1000000000"
  shows "carry_step lhs rhs = Some rhs"
  using assms by (simp add: clock_unfold chk64_def int64_ok_def)

text \<open>On clock readings the subtraction is exact, normalised and reports the sign.\<close>

lemma time_subtract_norm:
  assumes "time_norm lhs" and "time_norm rhs" and "sec_ok lhs" and "sec_ok rhs"
  obtains r where "jaeger_time_subtract lhs rhs = Some (time_ns rhs \<le> time_ns lhs, r)"
    and "time_norm r" and "time_ns r = time_ns lhs - time_ns rhs"
proof -
  define rhs' where "rhs' = (if tv_nsec lhs < tv_nsec rhs
     then rhs\<lparr>tv_nsec := tv_nsec rhs - 1000000000, tv_sec := tv_sec rhs + 1\<rparr> else rhs)"
  have b: "borrow_step lhs rhs = Some rhs'"
    using borrow_step_norm [OF assms(1,2,4)] by (simp add: rhs'_def)
  have c: "carry_step lhs rhs' = Some rhs'"
    using assms by (intro carry_step_id) (auto simp: rhs'_def clock_unfold)
  have ok: "int64_ok (tv_sec lhs - tv_sec rhs')" "int64_ok (tv_nsec lhs - tv_nsec rhs')"
    using assms by (auto simp: rhs'_def clock_unfold int64_ok_def)
  define r where "r = \<lparr>tv_sec = tv_sec lhs - tv_sec rhs', tv_nsec = tv_nsec lhs - tv_nsec rhs'\<rparr>"
  have "jaeger_time_subtract lhs rhs = Some (tv_sec rhs' \<le> tv_sec lhs, r)"
    using ok by (simp add: jaeger_time_subtract_def b c r_def)
  moreover have "(tv_sec rhs' \<le> tv_sec lhs) = (time_ns rhs \<le> time_ns lhs)"
    using assms(1,2) by (auto simp: rhs'_def clock_unfold)
  moreover have "time_norm r" and "time_ns r = time_ns lhs - time_ns rhs"
    using assms(1,2) by (auto simp: r_def rhs'_def clock_unfold)
  ultimately show ?thesis using that by simp
qed

text \<open>
  \<open>jaeger_time_subtract\<close> of two clock readings is exact.  For normalised readings (nanoseconds in
  one second) it returns, the result is normalised, its value in nanoseconds is the difference of the
  two values, and the reported flag says whether the difference is not negative.
\<close>

theorem time_subtract_exact:
  assumes "time_norm lhs" and "time_norm rhs" and "sec_ok lhs" and "sec_ok rhs"
  shows "\<exists>r. jaeger_time_subtract lhs rhs = Some (time_ns rhs \<le> time_ns lhs, r) \<and>
    time_norm r \<and> time_ns r = time_ns lhs - time_ns rhs"
  using time_subtract_norm [OF assms] by blast

theorem time_subtract_exact_witness:
  "\<exists>r. jaeger_time_subtract \<lparr>tv_sec = 5, tv_nsec = 100\<rparr> \<lparr>tv_sec = 3, tv_nsec = 200\<rparr> = Some (True, r) \<and>
    time_norm r \<and> time_ns r = 1999999900"
  using time_subtract_exact [of "\<lparr>tv_sec = 5, tv_nsec = 100\<rparr>" "\<lparr>tv_sec = 3, tv_nsec = 200\<rparr>"]
  by (simp add: clock_unfold)

end
