(* ===== verification/Double.thy ===== *)
theory Double
  imports Complex_Main
begin

text \<open>
  Arithmetic of C's \<open>double\<close>.

  A \<open>double\<close> is a real number, and every arithmetic operation of the code is followed by a rounding
  function \<open>rnd\<close>, an argument of the definitions that compute with doubles.  The locale
  \<open>double_rounding\<close> states what the code relies on: rounding is monotone and keeps the integers that
  fit into the significand.  \<open>rnd53\<close> is such a rounding, to the nearest number with a significand of 53
  bits (binary64 without overflow, subnormal numbers and NaN, ties away from zero).
\<close>

definition powi2 :: "int \<Rightarrow> real" where
  "powi2 e = 2 powr (of_int e)"

definition exponent :: "real \<Rightarrow> int" where
  "exponent x = \<lfloor>log 2 \<bar>x\<bar>\<rfloor> - 52"

definition rnd53_pos :: "real \<Rightarrow> real" where
  "rnd53_pos x = of_int (round (x / powi2 (exponent x))) * powi2 (exponent x)"

definition rnd53 :: "real \<Rightarrow> real" where
  "rnd53 x = (if x = 0 then 0 else if 0 < x then rnd53_pos x else - rnd53_pos (- x))"

locale double_rounding =
  fixes rnd :: "real \<Rightarrow> real"
  assumes rnd_mono: "x \<le> y \<Longrightarrow> rnd x \<le> rnd y"
    and rnd_int: "\<bar>i\<bar> \<le> 2 ^ 53 \<Longrightarrow> rnd (of_int i) = of_int i"
begin

lemma rnd_0 [simp]: "rnd 0 = 0"
  using rnd_int [of 0] by simp

lemma rnd_1 [simp]: "rnd 1 = 1"
  using rnd_int [of 1] by simp

lemma rnd_nonneg: "0 \<le> x \<Longrightarrow> 0 \<le> rnd x"
  using rnd_mono [of 0 x] by simp

lemma rnd_le_1: "x \<le> 1 \<Longrightarrow> rnd x \<le> 1"
  using rnd_mono [of x 1] by simp

lemma rnd_le_int: "x \<le> of_int i \<Longrightarrow> \<bar>i\<bar> \<le> 2 ^ 53 \<Longrightarrow> rnd x \<le> of_int i"
  using rnd_mono [of x "of_int i"] rnd_int [of i] by simp

end

section \<open>Rounding to 53 bits\<close>

lemma powi2_pos [simp]: "0 < powi2 e"
  by (simp add: powi2_def)

lemma powi2_add: "powi2 (a + b) = powi2 a * powi2 b"
  by (simp add: powi2_def powr_add)

lemma powi2_nat: "powi2 (int n) = 2 ^ n"
  by (simp add: powi2_def powr_realpow)

lemma powi2_mono: "a \<le> b \<Longrightarrow> powi2 a \<le> powi2 b"
  by (simp add: powi2_def)

text \<open>The scaled significand lies between \<open>2^52\<close> and \<open>2^53\<close>.\<close>

lemma significand_bounds:
  assumes "0 < x"
  shows "2 ^ 52 \<le> x / powi2 (exponent x)" and "x / powi2 (exponent x) < 2 ^ 53"
proof -
  let ?k = "\<lfloor>log 2 x\<rfloor>"
  have "of_int ?k \<le> log 2 x" "log 2 x < of_int ?k + 1" by linarith+
  then have lo: "powi2 ?k \<le> x" and hi: "x < powi2 (?k + 1)"
    using assms by (auto simp: powi2_def powr_le_iff less_powr_iff)
  have e: "exponent x = ?k - 52" using assms by (simp add: exponent_def)
  have k: "powi2 ?k = 2 ^ 52 * powi2 (exponent x)" "powi2 (?k + 1) = 2 ^ 53 * powi2 (exponent x)"
    using powi2_add [of 52 "exponent x"] powi2_add [of 53 "exponent x"] powi2_nat [of 52] powi2_nat [of 53]
    by (simp_all add: e add.commute)
  show "2 ^ 52 \<le> x / powi2 (exponent x)" using lo k(1) by (simp add: pos_le_divide_eq)
  show "x / powi2 (exponent x) < 2 ^ 53" using hi k(2) by (simp add: pos_divide_less_eq)
qed

lemma round_bounds: "of_int a \<le> (y :: real) \<Longrightarrow> a \<le> round y" "(y :: real) \<le> of_int b \<Longrightarrow> round y \<le> b"
  using round_mono [of "of_int a" y] round_mono [of y "of_int b"] by simp_all

lemma rnd53_bounds:
  assumes "0 < x"
  shows "2 ^ 52 * powi2 (exponent x) \<le> rnd53_pos x" and "rnd53_pos x \<le> 2 ^ 53 * powi2 (exponent x)"
proof -
  let ?y = "x / powi2 (exponent x)"
  have "2 ^ 52 \<le> round ?y" "round ?y \<le> 2 ^ 53"
    using round_bounds(1) [of "2 ^ 52" ?y] round_bounds(2) [of ?y "2 ^ 53"] significand_bounds [OF assms] by auto
  then have "2 ^ 52 \<le> (of_int (round ?y) :: real)" "(of_int (round ?y) :: real) \<le> 2 ^ 53"
    by (metis of_int_le_iff of_int_numeral of_int_power)+
  with assms show "2 ^ 52 * powi2 (exponent x) \<le> rnd53_pos x" "rnd53_pos x \<le> 2 ^ 53 * powi2 (exponent x)"
    by (simp_all add: rnd53_pos_def less_imp_le)
qed

lemma rnd53_pos_mono:
  assumes "0 < x" and "x \<le> y"
  shows "rnd53_pos x \<le> rnd53_pos y"
proof -
  have "log 2 x \<le> log 2 y" using assms by simp
  then have e: "exponent x \<le> exponent y" using assms by (simp add: exponent_def floor_mono)
  show ?thesis
  proof (cases "exponent x = exponent y")
    case True
    have "round (x / powi2 (exponent x)) \<le> round (y / powi2 (exponent x))"
      using assms(2) by (intro round_mono divide_right_mono) (simp_all add: less_imp_le)
    with True assms show ?thesis by (simp add: rnd53_pos_def mult_right_mono less_imp_le)
  next
    case False
    with e have "powi2 (exponent x + 53) \<le> powi2 (exponent y + 52)" by (intro powi2_mono) simp
    then have "2 ^ 53 * powi2 (exponent x) \<le> 2 ^ 52 * powi2 (exponent y)"
      using powi2_nat [of 53] powi2_nat [of 52] by (simp add: powi2_add)
    with rnd53_bounds(2) [OF assms(1)] rnd53_bounds(1) [of y] assms show ?thesis by linarith
  qed
qed

lemma rnd53_pos_pos: "0 < x \<Longrightarrow> 0 < rnd53_pos x"
  using rnd53_bounds(1) [of x] powi2_pos [of "exponent x"] by (meson less_le_trans mult_pos_pos zero_less_numeral zero_less_power)

lemma rnd53_mono: "x \<le> y \<Longrightarrow> rnd53 x \<le> rnd53 y"
proof -
  assume xy: "x \<le> y"
  consider "0 < x" | "x \<le> 0" "0 \<le> y" | "y < 0" by linarith
  then show ?thesis
  proof cases
    case 1
    with rnd53_pos_mono [of x y] xy show ?thesis by (simp add: rnd53_def)
  next
    case 2
    have "rnd53 x \<le> 0" using 2 rnd53_pos_pos [of "- x"] by (auto simp: rnd53_def)
    moreover have "0 \<le> rnd53 y" using 2 rnd53_pos_pos [of y] by (auto simp: rnd53_def)
    ultimately show ?thesis by linarith
  next
    case 3
    with rnd53_pos_mono [of "- y" "- x"] xy show ?thesis by (simp add: rnd53_def)
  qed
qed

text \<open>An integer below \<open>2^53\<close> has a scaled significand that is an integer.\<close>

lemma rnd53_pos_int:
  assumes "0 < i" and "i \<le> 2 ^ 53"
  shows "rnd53_pos (of_int i) = of_int i"
proof (cases "exponent (of_int i) \<le> 0")
  case True
  then obtain n where n: "exponent (of_int i) = - int n" by (metis neg_0_le_iff_le nonneg_int_cases minus_minus)
  have "of_int i / powi2 (- int n) = (of_int (i * 2 ^ n) :: real)"
    using powi2_add [of "- int n" "int n"] powi2_nat [of n] by (simp add: powi2_def field_simps)
  then have "round (of_int i / powi2 (exponent (of_int i :: real))) = i * 2 ^ n"
    unfolding n by (simp only: round_of_int)
  with powi2_add [of "- int n" "int n"] powi2_nat [of n] show ?thesis
    by (simp add: rnd53_pos_def n powi2_def mult.commute)
next
  case False
  have "exponent (of_int i) \<le> 1"
  proof -
    have "(of_int i :: real) \<le> of_int (2 ^ 53)" using assms(2) by (simp only: of_int_le_iff)
    then have "log 2 (of_int i :: real) \<le> 53" using assms(1) by (simp add: log_le_iff)
    then have "\<lfloor>log 2 (of_int i :: real)\<rfloor> \<le> 53" by (simp add: floor_le_iff)
    then show ?thesis using assms(1) by (simp add: exponent_def)
  qed
  with False have e: "exponent (of_int i) = 1" by simp
  then have "53 \<le> log 2 (of_int i :: real)" using assms(1) by (simp add: exponent_def) linarith
  then have "2 powr 53 \<le> (of_int i :: real)" using assms(1) by (simp add: le_log_iff)
  then have "(2 ^ 53 :: real) \<le> of_int i" by (simp add: powr_realpow [of 2 53, simplified])
  then have "2 ^ 53 \<le> i" by (metis of_int_le_iff of_int_numeral of_int_power)
  with assms(2) have "i = 2 ^ 53" by simp
  then show ?thesis using e by (simp add: rnd53_pos_def powi2_def)
qed

interpretation dbl: double_rounding rnd53
proof
  fix i :: int
  assume i: "\<bar>i\<bar> \<le> 2 ^ 53"
  show "rnd53 (of_int i) = of_int i"
    using i rnd53_pos_int [of i] rnd53_pos_int [of "- i"] by (auto simp: rnd53_def)
qed (rule rnd53_mono)

text \<open>A binary rounding also commutes with halving.\<close>

locale binary_rounding = double_rounding +
  assumes rnd_half: "rnd (x / 2) = rnd x / 2"
begin

lemma rnd_one_half [simp]: "rnd (1 / 2) = 1 / 2"
  by (simp add: rnd_half)

lemma ratio_le_half:
  assumes "x \<le> y / 2" and "0 < rnd y"
  shows "rnd (rnd x / rnd y) \<le> 1 / 2"
proof -
  have "rnd x \<le> rnd y / 2" using rnd_mono [OF assms(1)] by (simp add: rnd_half)
  then have "rnd x / rnd y \<le> 1 / 2" using assms(2) by (simp add: field_simps)
  from rnd_mono [OF this] show ?thesis by simp
qed

end

lemma exponent_half: "0 < x \<Longrightarrow> exponent (x / 2) = exponent x - 1"
  by (simp add: exponent_def log_divide)

interpretation dbl2: binary_rounding rnd53
proof
  fix x :: real
  have h: "rnd53_pos (y / 2) = rnd53_pos y / 2" if "0 < y" for y
  proof -
    have p: "powi2 (exponent (y / 2)) = powi2 (exponent y) / 2"
      using powi2_add [of "exponent y" "- 1"] by (simp add: exponent_half [OF that] powi2_def)
    show ?thesis unfolding rnd53_pos_def p by simp
  qed
  show "rnd53 (x / 2) = rnd53 x / 2"
    using h [of x] h [of "- x"] by (auto simp: rnd53_def)
qed

end
