(* ===== verification/Token_Bucket.thy ===== *)
theory Token_Bucket
  imports Clock Double
begin

text \<open>
  The token bucket behind the rate limiter: \<open>src/jaegertracingc/token_bucket.c\<close>.

  The fields are the struct's; \<open>now\<close> is the reading of the monotonic clock that \<open>jaeger_duration_now\<close>
  returns during the call, and \<open>rnd\<close> the rounding of double arithmetic.
\<close>

record jaeger_token_bucket =
  tb_credits_per_second :: real
  tb_max_balance :: real
  tb_balance :: real
  tb_last_tick :: opentracing_time_value

definition jaeger_token_bucket_init :: "real \<Rightarrow> real \<Rightarrow> opentracing_time_value \<Rightarrow> jaeger_token_bucket" where
  "jaeger_token_bucket_init credits_per_second max_balance now =
     \<lparr>tb_credits_per_second = credits_per_second, tb_max_balance = max_balance,
      tb_balance = max_balance, tb_last_tick = now\<rparr>"

definition jaeger_token_bucket_check_credit ::
  "(real \<Rightarrow> real) \<Rightarrow> jaeger_token_bucket \<Rightarrow> real \<Rightarrow> opentracing_time_value \<Rightarrow>
   (bool \<times> jaeger_token_bucket) option" where
  "jaeger_token_bucket_check_credit rnd tok cost current_time = do {
     (result, interval) \<leftarrow> jaeger_time_subtract current_time (tb_last_tick tok);
     c_assert result;
     let diff = rnd (rnd (rnd (of_int (tv_nsec interval) / of_int JAEGERTRACINGC_NANOSECONDS_PER_SECOND)
                          + of_int (tv_sec interval)) * tb_credits_per_second tok);
     let new_balance = rnd (tb_balance tok + diff);
     let tok = tok\<lparr>tb_balance := (if tb_max_balance tok < new_balance then tb_max_balance tok else new_balance),
                   tb_last_tick := current_time\<rparr>;
     if tb_balance tok < cost then Some (False, tok)
     else Some (True, tok\<lparr>tb_balance := rnd (tb_balance tok - cost)\<rparr>)
   }"

section \<open>Invariant\<close>

definition tb_ok :: "jaeger_token_bucket \<Rightarrow> bool" where
  "tb_ok tok \<longleftrightarrow> 0 \<le> tb_balance tok \<and> tb_balance tok \<le> tb_max_balance tok \<and> 0 \<le> tb_credits_per_second tok \<and>
     time_norm (tb_last_tick tok) \<and> sec_ok (tb_last_tick tok)"

definition clock_ok :: "opentracing_time_value \<Rightarrow> bool" where
  "clock_ok t \<longleftrightarrow> time_norm t \<and> sec_ok t"

text \<open>The call on a clock that has not gone back: the interval is the elapsed time.\<close>

lemma check_credit_eq:
  assumes "tb_ok tok" and "clock_ok now" and "time_ns (tb_last_tick tok) \<le> time_ns now"
  obtains i where "jaeger_token_bucket_check_credit rnd tok cost now =
      (let diff = rnd (rnd (rnd (of_int (tv_nsec i) / 1000000000) + of_int (tv_sec i)) * tb_credits_per_second tok);
           b = min (tb_max_balance tok) (rnd (tb_balance tok + diff));
           tok' = tok\<lparr>tb_balance := b, tb_last_tick := now\<rparr>
       in Some (if b < cost then (False, tok') else (True, tok'\<lparr>tb_balance := rnd (b - cost)\<rparr>)))"
    and "time_norm i" and "0 \<le> tv_sec i" and "time_ns i = time_ns now - time_ns (tb_last_tick tok)"
proof -
  have o: "time_norm now" "time_norm (tb_last_tick tok)" "sec_ok now" "sec_ok (tb_last_tick tok)"
    using assms by (auto simp: tb_ok_def clock_ok_def)
  from time_subtract_norm [OF o] obtain i where i:
    "jaeger_time_subtract now (tb_last_tick tok) = Some (True, i)" "time_norm i"
    "time_ns i = time_ns now - time_ns (tb_last_tick tok)" using assms(3) by auto
  have "0 \<le> time_ns i" using i(3) assms(3) by simp
  then have "0 \<le> tv_sec i" using i(2) by (simp add: clock_unfold)
  show thesis
    by (rule that [OF _ i(2) \<open>0 \<le> tv_sec i\<close> i(3)])
      (simp add: jaeger_token_bucket_check_credit_def i(1) Let_def min_def JAEGERTRACINGC_NANOSECONDS_PER_SECOND_def)
qed



section \<open>The rate bound\<close>

text \<open>A sequence of requests, each a cost and the clock reading: the sum of the granted costs.\<close>

fun tb_run ::
  "(real \<Rightarrow> real) \<Rightarrow> jaeger_token_bucket \<Rightarrow> (real \<times> opentracing_time_value) list \<Rightarrow>
   (real \<times> jaeger_token_bucket) option" where
  "tb_run rnd tok [] = Some (0, tok)"
| "tb_run rnd tok ((cost, now) # reqs) = do {
     (granted, tok) \<leftarrow> jaeger_token_bucket_check_credit rnd tok cost now;
     (total, tok) \<leftarrow> tb_run rnd tok reqs;
     Some ((if granted then cost else 0) + total, tok)
   }"

fun clock_increases :: "opentracing_time_value \<Rightarrow> (real \<times> opentracing_time_value) list \<Rightarrow> bool" where
  "clock_increases t [] = True"
| "clock_increases t ((cost, now) # reqs) \<longleftrightarrow>
     0 \<le> cost \<and> clock_ok now \<and> time_ns t \<le> time_ns now \<and> clock_increases now reqs"

definition seconds :: "opentracing_time_value \<Rightarrow> real" where
  "seconds t = of_int (time_ns t) / 1000000000"

lemma seconds_parts: "of_int (tv_nsec i) / 1000000000 + of_int (tv_sec i) = seconds i"
  by (simp add: seconds_def clock_unfold field_simps)

text \<open>One call in exact arithmetic: what is granted and kept comes out of what was there and the refill.\<close>

lemma check_credit_exact:
  assumes "tb_ok tok" and "0 \<le> cost" and "clock_ok now" and "time_ns (tb_last_tick tok) \<le> time_ns now"
  obtains g tok' where "jaeger_token_bucket_check_credit (\<lambda>x. x) tok cost now = Some (g, tok')"
    and "tb_ok tok'" and "tb_last_tick tok' = now" and "tb_credits_per_second tok' = tb_credits_per_second tok"
    and "(if g then cost else 0) + tb_balance tok' \<le>
      tb_balance tok + tb_credits_per_second tok * (seconds now - seconds (tb_last_tick tok))"
proof -
  from check_credit_eq [OF assms(1,3,4), of "\<lambda>x. x" cost] obtain i where
    run: "jaeger_token_bucket_check_credit (\<lambda>x. x) tok cost now =
      (let diff = (of_int (tv_nsec i) / 1000000000 + of_int (tv_sec i)) * tb_credits_per_second tok;
           b = min (tb_max_balance tok) (tb_balance tok + diff);
           tok' = tok\<lparr>tb_balance := b, tb_last_tick := now\<rparr>
       in Some (if b < cost then (False, tok') else (True, tok'\<lparr>tb_balance := b - cost\<rparr>)))"
    and i: "time_norm i" "0 \<le> tv_sec i" "time_ns i = time_ns now - time_ns (tb_last_tick tok)" by metis
  define d where "d = seconds i * tb_credits_per_second tok"
  have sec: "seconds i = seconds now - seconds (tb_last_tick tok)" using i(3) by (simp add: seconds_def field_simps)
  have "0 \<le> seconds i" using i assms(4) by (simp add: seconds_def)
  then have d: "0 \<le> d" using assms(1) by (simp add: d_def tb_ok_def)
  define b where "b = min (tb_max_balance tok) (tb_balance tok + d)"
  have b: "0 \<le> b" "b \<le> tb_max_balance tok" "b \<le> tb_balance tok + d"
    using assms(1) d by (auto simp: b_def tb_ok_def)
  have run': "jaeger_token_bucket_check_credit (\<lambda>x. x) tok cost now =
      Some (if b < cost then (False, tok\<lparr>tb_balance := b, tb_last_tick := now\<rparr>)
            else (True, tok\<lparr>tb_balance := b - cost, tb_last_tick := now\<rparr>))"
    using run by (simp add: Let_def seconds_parts d_def b_def)
  have rate: "tb_balance tok + d = tb_balance tok + tb_credits_per_second tok * (seconds now - seconds (tb_last_tick tok))"
    by (simp add: d_def sec)
  show thesis
  proof (cases "b < cost")
    case True
    with run' b assms(1-3) rate show thesis
      by (intro that [of False "tok\<lparr>tb_balance := b, tb_last_tick := now\<rparr>"]) (auto simp: tb_ok_def clock_ok_def)
  next
    case False
    with run' b assms(1-3) rate show thesis
      by (intro that [of True "tok\<lparr>tb_balance := b - cost, tb_last_tick := now\<rparr>"]) (auto simp: tb_ok_def clock_ok_def)
  qed
qed

lemma tb_run_exact:
  assumes "tb_ok tok" and "clock_increases (tb_last_tick tok) reqs"
  shows "\<exists>total tok'. tb_run (\<lambda>x. x) tok reqs = Some (total, tok') \<and> tb_ok tok' \<and>
    total + tb_balance tok' \<le> tb_balance tok +
      tb_credits_per_second tok * (seconds (tb_last_tick tok') - seconds (tb_last_tick tok))"
  using assms
proof (induction reqs arbitrary: tok)
  case (Cons req reqs)
  obtain cost now where req: "req = (cost, now)" by fastforce
  have p: "0 \<le> cost" "clock_ok now" "time_ns (tb_last_tick tok) \<le> time_ns now" "clock_increases now reqs"
    using Cons.prems(2) by (auto simp: req)
  from check_credit_exact [OF Cons.prems(1) p(1-3)] obtain g tok1 where
    c: "jaeger_token_bucket_check_credit (\<lambda>x. x) tok cost now = Some (g, tok1)" "tb_ok tok1" "tb_last_tick tok1 = now"
    "tb_credits_per_second tok1 = tb_credits_per_second tok"
    "(if g then cost else 0) + tb_balance tok1 \<le>
      tb_balance tok + tb_credits_per_second tok * (seconds now - seconds (tb_last_tick tok))" .
  from Cons.IH [OF c(2)] c(3) p(4) obtain total tok2 where ih: "tb_run (\<lambda>x. x) tok1 reqs = Some (total, tok2)" "tb_ok tok2"
    "total + tb_balance tok2 \<le> tb_balance tok1 + tb_credits_per_second tok * (seconds (tb_last_tick tok2) - seconds now)"
    using c(4) by auto
  have "(if g then cost else 0) + total + tb_balance tok2 \<le>
      tb_balance tok + tb_credits_per_second tok * (seconds (tb_last_tick tok2) - seconds (tb_last_tick tok))"
    using c(5) ih(3) by (simp add: algebra_simps)
  with c(1) ih(1,2) req show ?case by auto
qed simp



end
