(* ===== verification/Alloc.thy ===== *)
theory Alloc
  imports Prelude
begin

text \<open>
  Memory allocation: \<open>src/jaegertracingc/alloc.c\<close>.

  The heap is a set of live blocks with their sizes.  Requests are numbered; \<open>mem_oracle\<close> says
  which of them the system's \<open>malloc\<close> serves, so every theorem that does not constrain it holds
  for every pattern of allocation failures.  A block is named by the number of its request, hence a
  block number is never used twice.  The installed allocator is the built-in one or the null
  allocator, which never allocates and never frees; an allocator written by a client shows as a
  pattern of failures.
\<close>

datatype jaeger_allocator = Built_in_allocator | Null_allocator

record mem =
  mem_oracle :: "nat \<Rightarrow> bool"
  mem_next :: nat
  mem_blocks :: "ptr \<rightharpoonup> nat"
  mem_allocator :: jaeger_allocator

definition built_in_malloc :: "nat \<Rightarrow> mem \<Rightarrow> ptr option \<times> mem" where
  "built_in_malloc sz m =
     (if mem_oracle m (mem_next m)
      then (Some (mem_next m),
            m\<lparr>mem_next := Suc (mem_next m), mem_blocks := (mem_blocks m)(mem_next m \<mapsto> sz)\<rparr>)
      else (None, m\<lparr>mem_next := Suc (mem_next m)\<rparr>))"

definition built_in_free :: "ptr option \<Rightarrow> mem \<Rightarrow> mem option" where
  "built_in_free p m =
     (case p of
        None \<Rightarrow> Some m
      | Some a \<Rightarrow>
          (if mem_blocks m a = None then None
           else Some (m\<lparr>mem_blocks := (mem_blocks m)(a := None)\<rparr>)))"

definition built_in_realloc :: "ptr option \<Rightarrow> nat \<Rightarrow> mem \<Rightarrow> (ptr option \<times> mem) option" where
  "built_in_realloc p sz m =
     (case p of
        None \<Rightarrow> Some (built_in_malloc sz m)
      | Some a \<Rightarrow>
          (if mem_blocks m a = None then None
           else
             (case built_in_malloc sz m of
                (None, m') \<Rightarrow> Some (None, m')
              | (Some b, m') \<Rightarrow> Some (Some b, m'\<lparr>mem_blocks := (mem_blocks m')(a := None)\<rparr>))))"

definition null_malloc :: "nat \<Rightarrow> mem \<Rightarrow> ptr option \<times> mem" where
  "null_malloc sz m = (None, m)"

definition null_realloc :: "ptr option \<Rightarrow> nat \<Rightarrow> mem \<Rightarrow> (ptr option \<times> mem) option" where
  "null_realloc p sz m = Some (None, m)"

definition null_free :: "ptr option \<Rightarrow> mem \<Rightarrow> mem option" where
  "null_free p m = Some m"

definition jaeger_set_allocator :: "jaeger_allocator \<Rightarrow> mem \<Rightarrow> mem" where
  "jaeger_set_allocator alloc m = m\<lparr>mem_allocator := alloc\<rparr>"

definition jaeger_get_allocator :: "mem \<Rightarrow> jaeger_allocator" where
  "jaeger_get_allocator m = mem_allocator m"

definition jaeger_malloc :: "nat \<Rightarrow> mem \<Rightarrow> ptr option \<times> mem" where
  "jaeger_malloc sz m =
     (case jaeger_get_allocator m of
        Built_in_allocator \<Rightarrow> built_in_malloc sz m
      | Null_allocator \<Rightarrow> null_malloc sz m)"

definition jaeger_realloc :: "ptr option \<Rightarrow> nat \<Rightarrow> mem \<Rightarrow> (ptr option \<times> mem) option" where
  "jaeger_realloc p sz m =
     (case jaeger_get_allocator m of
        Built_in_allocator \<Rightarrow> built_in_realloc p sz m
      | Null_allocator \<Rightarrow> null_realloc p sz m)"

definition jaeger_free :: "ptr option \<Rightarrow> mem \<Rightarrow> mem option" where
  "jaeger_free p m =
     (case jaeger_get_allocator m of
        Built_in_allocator \<Rightarrow> built_in_free p m
      | Null_allocator \<Rightarrow> null_free p m)"

text \<open>\<open>jaeger_strdup\<close>: the argument is the pointee, \<open>None\<close> for a NULL pointer.\<close>

definition jaeger_strdup :: "string option \<Rightarrow> mem \<Rightarrow> (cstring option \<times> mem) option" where
  "jaeger_strdup str m =
     (case str of
        None \<Rightarrow> None
      | Some s \<Rightarrow>
          (case jaeger_malloc (length s + 1) m of
             (None, m') \<Rightarrow> Some (None, m')
           | (Some p, m') \<Rightarrow> Some (Some (p, s), m')))"

section \<open>Ownership\<close>

text \<open>
  \<open>mem_ok\<close> says that the next block number is fresh and that freeing frees.
  \<open>mem_trans A B m m'\<close> is the contract of an operation that consumes the blocks \<open>A\<close> and
  hands back the blocks \<open>B\<close>: every other live block is untouched, nothing else is live afterwards
  (no leak), and \<open>B\<close> is disjoint from what was live and not consumed.
\<close>

definition mem_ok :: "mem \<Rightarrow> bool" where
  "mem_ok m \<longleftrightarrow> (\<forall>p y. mem_blocks m p = Some y \<longrightarrow> p < mem_next m) \<and> mem_allocator m = Built_in_allocator"

definition mem_trans :: "ptr set \<Rightarrow> ptr set \<Rightarrow> mem \<Rightarrow> mem \<Rightarrow> bool" where
  "mem_trans A B m m' \<longleftrightarrow>
     mem_ok m' \<and> mem_next m \<le> mem_next m' \<and> mem_oracle m' = mem_oracle m \<and>
     dom (mem_blocks m') = (dom (mem_blocks m) - A) \<union> B \<and>
     (\<forall>p\<in>dom (mem_blocks m) - A. mem_blocks m' p = mem_blocks m p) \<and>
     B \<inter> (dom (mem_blocks m) - A) = {} \<and>
     (\<forall>p\<in>B - A. mem_next m \<le> p)"

text \<open>The blocks \<open>ps\<close> are live and owned once.\<close>

definition owns :: "mem \<Rightarrow> ptr list \<Rightarrow> bool" where
  "owns m ps \<longleftrightarrow> distinct ps \<and> set ps \<subseteq> dom (mem_blocks m)"

text \<open>The block of an owned \<open>char*\<close>, or of any pointer to one block.\<close>

definition cs_ptrs :: "(ptr \<times> 'a) option \<Rightarrow> ptr list" where
  "cs_ptrs s = (case s of None \<Rightarrow> [] | Some (p, _) \<Rightarrow> [p])"

lemma cs_ptrs_simps [simp]: "cs_ptrs None = []" "cs_ptrs (Some q) = [fst q]"
  by (auto simp: cs_ptrs_def split: prod.split)

text \<open>A heap with one live block, number 0, in which every later request is served.\<close>

definition mem_one :: mem where
  "mem_one = \<lparr>mem_oracle = (\<lambda>_. True), mem_next = 1, mem_blocks = [0 \<mapsto> 256], mem_allocator = Built_in_allocator\<rparr>"

lemma mem_one_simps [simp]: "mem_ok mem_one" "dom (mem_blocks mem_one) = {0}" "owns mem_one [0]"
  "mem_oracle mem_one = (\<lambda>_. True)"
  by (auto simp: mem_one_def mem_ok_def owns_def)

lemma mem_trans_ok: "mem_trans A B m m' \<Longrightarrow> mem_ok m'"
  by (simp add: mem_trans_def)

lemma mem_trans_oracle: "mem_trans A B m m' \<Longrightarrow> mem_oracle m' = mem_oracle m"
  by (simp add: mem_trans_def)

lemma mem_trans_next: "mem_trans A B m m' \<Longrightarrow> mem_next m \<le> mem_next m'"
  by (simp add: mem_trans_def)

lemma mem_trans_dom: "mem_trans A B m m' \<Longrightarrow> dom (mem_blocks m') = (dom (mem_blocks m) - A) \<union> B"
  by (simp add: mem_trans_def)

lemma mem_trans_disj: "mem_trans A B m m' \<Longrightarrow> B \<inter> (dom (mem_blocks m) - A) = {}"
  by (simp add: mem_trans_def)

lemma mem_trans_refl [simp]: "mem_ok m \<Longrightarrow> mem_trans {} {} m m"
  by (simp add: mem_trans_def)

lemma mem_trans_keep: "mem_ok m \<Longrightarrow> A \<subseteq> dom (mem_blocks m) \<Longrightarrow> mem_trans A A m m"
  by (auto simp: mem_trans_def)

text \<open>Framing: blocks that an operation neither takes nor makes can be added to both sides.\<close>

lemma mem_trans_frame:
  assumes "mem_trans A B m m'" and "C \<subseteq> dom (mem_blocks m)" and "C \<inter> A = {}"
  shows "mem_trans (A \<union> C) (B \<union> C) m m'"
  using assms unfolding mem_trans_def by auto

text \<open>Sequencing: the second operation takes what the first one made.\<close>

lemma mem_trans_trans:
  assumes ab: "mem_trans A B m m'" and bc: "mem_trans B C m' m''" and "mem_ok m"
  shows "mem_trans A C m m''"
proof -
  have d: "dom (mem_blocks m') - B = dom (mem_blocks m) - A"
    using ab by (auto simp: mem_trans_def)
  have fresh: "mem_next m \<le> p" if p: "p \<in> C - A" for p
  proof (cases "p \<in> B")
    case True
    with ab p show ?thesis by (auto simp: mem_trans_def)
  next
    case False
    with bc p have "mem_next m' \<le> p" by (auto simp: mem_trans_def)
    with ab show ?thesis by (auto simp: mem_trans_def)
  qed
  show ?thesis
    unfolding mem_trans_def
  proof (intro conjI ballI)
    show "mem_ok m''" "mem_oracle m'' = mem_oracle m"
      using ab bc by (auto simp: mem_trans_def)
    show "mem_next m \<le> mem_next m''"
      using ab bc by (auto simp: mem_trans_def)
    show "dom (mem_blocks m'') = dom (mem_blocks m) - A \<union> C"
      using bc d by (auto simp: mem_trans_def)
    show "C \<inter> (dom (mem_blocks m) - A) = {}"
      using bc d by (auto simp: mem_trans_def)
  next
    fix p assume p: "p \<in> dom (mem_blocks m) - A"
    with ab have "mem_blocks m' p = mem_blocks m p" by (simp add: mem_trans_def)
    moreover from p d bc have "mem_blocks m'' p = mem_blocks m' p"
      by (auto simp: mem_trans_def)
    ultimately show "mem_blocks m'' p = mem_blocks m p" by simp
  next
    fix p assume "p \<in> C - A" then show "mem_next m \<le> p" by (rule fresh)
  qed
qed

text \<open>Two allocations after one another.\<close>

lemma mem_trans_alloc2:
  assumes "mem_trans {} A m m1" and "mem_trans {} B m1 m2" and "mem_ok m"
  shows "mem_trans {} (A \<union> B) m m2" and "A \<inter> B = {}"
proof -
  have A: "A \<subseteq> dom (mem_blocks m1)" using assms(1) by (auto simp: mem_trans_def)
  then have "mem_trans A (B \<union> A) m1 m2" using mem_trans_frame [OF assms(2), of A] by simp
  from mem_trans_trans [OF assms(1) this assms(3)] show "mem_trans {} (A \<union> B) m m2"
    by (simp add: Un_commute)
  show "A \<inter> B = {}" using mem_trans_disj [OF assms(2)] A by auto
qed

lemma alloc_append:
  assumes "mem_trans {} (set ps) m m1" and "mem_trans {} (set qs) m1 m2" and "distinct ps" and "distinct qs" and "mem_ok m"
  shows "mem_trans {} (set (ps @ qs)) m m2 \<and> distinct (ps @ qs)"
  using mem_trans_alloc2 [OF assms(1,2,5)] assms(3,4) by simp

text \<open>An operation that touches part of what a structure owns, seen from the structure.\<close>

lemma mem_trans_local:
  assumes "mem_trans A B m m'" and "P \<subseteq> dom (mem_blocks m)" and "A \<subseteq> P"
  shows "mem_trans P ((P - A) \<union> B) m m'" and "B \<inter> (P - A) = {}"
proof -
  have "A \<union> (P - A) = P" "(P - A) \<inter> A = {}" "P - A \<subseteq> dom (mem_blocks m)" using assms(2,3) by auto
  with mem_trans_frame [OF assms(1), of "P - A"] show "mem_trans P ((P - A) \<union> B) m m'"
    by (simp only: Un_commute)
  show "B \<inter> (P - A) = {}" using mem_trans_disj [OF assms(1)] assms(2) by auto
qed

text \<open>Allocating a replacement, then releasing the old block.\<close>

lemma mem_trans_swap:
  assumes a: "mem_trans {} B m m1" and f: "mem_trans A {} m1 m2" and A: "A \<subseteq> dom (mem_blocks m)" and m: "mem_ok m"
  shows "mem_trans A B m m2"
proof -
  have "mem_trans A (B \<union> A) m m1" using mem_trans_frame [OF a A] by simp
  moreover have "B \<subseteq> dom (mem_blocks m1)" "B \<inter> A = {}"
    using mem_trans_dom [OF a] mem_trans_disj [OF a] A by auto
  then have "mem_trans (B \<union> A) B m1 m2" using mem_trans_frame [OF f, of B] by (simp add: Un_commute)
  ultimately show ?thesis using m by (rule mem_trans_trans)
qed

lemma owns_Nil [simp]: "owns m []"
  by (simp add: owns_def)

lemma owns_append [own_simps]:
  "owns m (ps @ qs) \<longleftrightarrow> owns m ps \<and> owns m qs \<and> set ps \<inter> set qs = {}"
  by (auto simp: owns_def)

lemma owns_head: "owns m (ps @ qs) \<Longrightarrow> owns m ps"
  by (simp add: owns_append)

lemma owns_Cons [own_simps]:
  "owns m (p # ps) \<longleftrightarrow> p \<in> dom (mem_blocks m) \<and> p \<notin> set ps \<and> owns m ps"
  by (auto simp: owns_def)

lemma owns_frame:
  assumes "mem_trans A B m m'" and "owns m ps" and "set ps \<inter> A = {}"
  shows "owns m' ps" and "set ps \<inter> B = {}"
  using assms by (auto simp: mem_trans_def owns_def)

lemma owns_trans:
  assumes "mem_trans A (set ps) m m'" and "distinct ps"
  shows "owns m' ps"
  using assms by (auto simp: mem_trans_def owns_def)

section \<open>Laws of the allocator\<close>

text \<open>Every request is served.\<close>

definition mem_plenty :: "mem \<Rightarrow> bool" where
  "mem_plenty m \<longleftrightarrow> mem_oracle m = (\<lambda>_. True)"

lemma mem_plenty_trans: "mem_trans A B m m' \<Longrightarrow> mem_plenty m' = mem_plenty m"
  by (simp add: mem_plenty_def mem_trans_def)

lemma jaeger_malloc_plenty: "mem_ok m \<Longrightarrow> mem_plenty m \<Longrightarrow> jaeger_malloc sz m \<noteq> (None, m')"
  by (simp add: jaeger_malloc_def jaeger_get_allocator_def mem_ok_def built_in_malloc_def mem_plenty_def)

lemma jaeger_malloc_SomeD:
  assumes "jaeger_malloc sz m = (Some p, m')" and "mem_ok m"
  shows "mem_trans {} {p} m m'" and "p \<notin> dom (mem_blocks m)" and "p = mem_next m"
    and "mem_blocks m' p = Some sz"
  using assms
  by (auto simp: jaeger_malloc_def jaeger_get_allocator_def built_in_malloc_def mem_trans_def
      mem_ok_def less_Suc_eq split: if_splits)

lemma jaeger_malloc_NoneD:
  assumes "jaeger_malloc sz m = (None, m')" and "mem_ok m"
  shows "mem_trans {} {} m m'"
  using assms
  by (auto simp: jaeger_malloc_def jaeger_get_allocator_def built_in_malloc_def mem_trans_def
      mem_ok_def less_Suc_eq split: if_splits)

lemma malloc_served:
  assumes "mem_ok m" and "mem_oracle m (mem_next m)"
  obtains m' where "jaeger_malloc sz m = (Some (mem_next m), m')" and "mem_trans {} {mem_next m} m m'" and "mem_next m' = Suc (mem_next m)"
proof -
  let ?m' = "m\<lparr>mem_next := Suc (mem_next m), mem_blocks := (mem_blocks m)(mem_next m \<mapsto> sz)\<rparr>"
  have r: "jaeger_malloc sz m = (Some (mem_next m), ?m')"
    using assms by (simp add: jaeger_malloc_def jaeger_get_allocator_def built_in_malloc_def mem_ok_def)
  from that [OF r jaeger_malloc_SomeD(1) [OF r assms(1)]] show thesis by simp
qed

lemma malloc_refused:
  assumes "mem_ok m" and "\<not> mem_oracle m (mem_next m)"
  obtains m' where "jaeger_malloc sz m = (None, m')"
  using assms that by (auto simp: jaeger_malloc_def jaeger_get_allocator_def built_in_malloc_def mem_ok_def)

lemma jaeger_realloc_SomeD:
  assumes "jaeger_realloc (Some p) sz m = Some (Some q, m')" and "mem_ok m"
  shows "mem_trans {p} {q} m m'" and "q \<notin> dom (mem_blocks m)" and "mem_blocks m' q = Some sz"
  using assms
  by (auto simp: jaeger_realloc_def jaeger_get_allocator_def built_in_realloc_def
      built_in_malloc_def mem_trans_def mem_ok_def less_Suc_eq split: if_splits)

lemma jaeger_realloc_NoneD:
  assumes "jaeger_realloc (Some p) sz m = Some (None, m')" and "mem_ok m"
  shows "mem_trans {} {} m m'"
  using assms
  by (auto simp: jaeger_realloc_def jaeger_get_allocator_def built_in_realloc_def
      built_in_malloc_def mem_trans_def mem_ok_def less_Suc_eq split: if_splits)

lemma jaeger_realloc_total:
  assumes "mem_ok m" and "p \<in> dom (mem_blocks m)"
  shows "\<exists>r m'. jaeger_realloc (Some p) sz m = Some (r, m')"
  using assms
  by (auto simp: jaeger_realloc_def jaeger_get_allocator_def built_in_realloc_def
      built_in_malloc_def mem_ok_def split: if_splits)

lemma jaeger_realloc_plenty: "jaeger_realloc p sz m = Some (None, m') \<Longrightarrow> mem_ok m \<Longrightarrow> \<not> mem_plenty m"
  by (auto simp: jaeger_realloc_def jaeger_get_allocator_def built_in_realloc_def built_in_malloc_def mem_ok_def
      mem_plenty_def split: option.splits if_splits)

lemma jaeger_free_live:
  assumes "mem_ok m" and "p \<in> dom (mem_blocks m)"
  obtains m' where "jaeger_free (Some p) m = Some m'" and "mem_trans {p} {} m m'"
proof
  let ?m' = "m\<lparr>mem_blocks := (mem_blocks m)(p := None)\<rparr>"
  from assms show "jaeger_free (Some p) m = Some ?m'"
    by (auto simp: jaeger_free_def jaeger_get_allocator_def built_in_free_def mem_ok_def)
  from assms show "mem_trans {p} {} m ?m'"
    by (auto simp: mem_trans_def mem_ok_def)
qed

lemma jaeger_free_SomeD:
  assumes "jaeger_free (Some p) m = Some m'" and "mem_ok m"
  shows "p \<in> dom (mem_blocks m)" and "mem_trans {p} {} m m'"
  using assms
  by (auto simp: jaeger_free_def jaeger_get_allocator_def built_in_free_def mem_ok_def mem_trans_def
      split: if_splits)

lemma jaeger_free_NULL [simp]: "jaeger_free None m = Some m"
  by (simp add: jaeger_free_def built_in_free_def null_free_def split: jaeger_allocator.split)

lemma free_owned:
  assumes "mem_ok m" and "owns m (cs_ptrs s)"
  obtains m' where "jaeger_free (map_option fst s) m = Some m'" and "mem_trans (set (cs_ptrs s)) {} m m'"
proof (cases s)
  case None
  with that [of m] assms show thesis by simp
next
  case (Some q)
  with assms have "fst q \<in> dom (mem_blocks m)" by (simp add: own_simps)
  from jaeger_free_live [OF assms(1) this] Some that show thesis by auto
qed

text \<open>Releasing one owned part after another.\<close>

lemma mem_trans_release:
  assumes "mem_trans A {} m m1" and "mem_trans B {} m1 m2" and "B \<subseteq> dom (mem_blocks m)" and "B \<inter> A = {}" and "mem_ok m"
  shows "mem_trans (A \<union> B) {} m m2"
  using mem_trans_trans [OF mem_trans_frame [OF assms(1,3,4)] _ assms(5)] assms(2) by simp

lemma release_append:
  assumes "mem_trans (set ps) {} m m1" and "mem_trans (set qs) {} m1 m2" and "owns m (ps @ qs)" and "mem_ok m"
  shows "mem_trans (set (ps @ qs)) {} m m2"
  using mem_trans_release [OF assms(1,2) _ _ assms(4)] assms(3) by (auto simp: owns_def)

lemma release_rest:
  assumes "mem_trans (set ps) {} m m1" and "owns m (ps @ qs)"
  shows "owns m1 qs" and "mem_ok m1"
  using assms by (auto simp: owns_def mem_trans_def)

lemma jaeger_free_twice:
  assumes "jaeger_free (Some p) m = Some m'" and "mem_ok m"
  shows "jaeger_free (Some p) m' = None"
  using assms
  by (auto simp: jaeger_free_def jaeger_get_allocator_def built_in_free_def mem_ok_def
      split: if_splits)

lemma jaeger_strdup_NULL [simp]: "jaeger_strdup None m = None"
  by (simp add: jaeger_strdup_def)

lemma jaeger_strdup_total: "\<exists>r m'. jaeger_strdup (Some s) m = Some (r, m')"
  by (auto simp: jaeger_strdup_def split: prod.split option.split)

lemma jaeger_strdup_SomeD:
  assumes "jaeger_strdup (Some s) m = Some (Some q, m')" and "mem_ok m"
  shows "snd q = s" and "mem_trans {} {fst q} m m'" and "fst q \<notin> dom (mem_blocks m)"
  using assms jaeger_malloc_SomeD [of "length s + 1" m "fst q" m']
  by (auto simp: jaeger_strdup_def split: prod.splits option.splits)

lemma jaeger_strdup_plenty: "mem_ok m \<Longrightarrow> mem_plenty m \<Longrightarrow> jaeger_strdup (Some s) m \<noteq> Some (None, m')"
  using jaeger_malloc_plenty [of m "length s + 1" m']
  by (auto simp: jaeger_strdup_def split: prod.splits option.splits)

lemma jaeger_strdup_NoneD:
  assumes "jaeger_strdup (Some s) m = Some (None, m')" and "mem_ok m"
  shows "mem_trans {} {} m m'"
  using assms jaeger_malloc_NoneD [of "length s + 1" m m']
  by (auto simp: jaeger_strdup_def split: prod.splits option.splits)

end
