(* ===== verification/Vector.thy ===== *)
theory Vector
  imports Alloc
begin

text \<open>
  The generic vector: \<open>src/jaegertracingc/vector.c\<close>, \<open>vector.h\<close>.

  A vector is a record of the C struct's fields.  \<open>vec_data\<close> is the block and the contents of its
  slots, all of them, also those beyond \<open>vec_len\<close>: the code hands out pointers to slots whose old
  bytes it does not clear.  A slot pointer returned to the caller is the slot's index, \<open>None\<close> for
  NULL; the caller writes through it with \<open>vec_write\<close>.  An all-zero slot is an argument (\<open>z\<close>) of the
  functions that clear memory.  Comparators are \<open>'a \<Rightarrow> 'a \<Rightarrow> int\<close>, and \<open>qsort\<close> is an argument.
  A write outside the block, signed overflow and failed assertions are \<open>None\<close>.

  \<open>vec_ok\<close> is the type invariant and \<open>vec_list\<close> the abstraction to a list.
\<close>

definition JAEGERTRACINGC_VECTOR_RESIZE_FACTOR :: int where
  "JAEGERTRACINGC_VECTOR_RESIZE_FACTOR = 2"

definition JAEGERTRACINGC_VECTOR_INIT_CAPACITY :: int where
  "JAEGERTRACINGC_VECTOR_INIT_CAPACITY = 10"

record 'a jaeger_vector =
  vec_len :: int
  vec_capacity :: int
  vec_data :: "(ptr \<times> 'a list) option"
  vec_type_size :: int

definition JAEGERTRACINGC_VECTOR_INIT :: "'a jaeger_vector" where
  "JAEGERTRACINGC_VECTOR_INIT = \<lparr>vec_len = 0, vec_capacity = 0, vec_data = None, vec_type_size = 0\<rparr>"

definition chk_int :: "int \<Rightarrow> int option" where
  "chk_int i = (if int_ok i then Some i else None)"

definition jaeger_vector_length :: "'a jaeger_vector \<Rightarrow> int" where
  "jaeger_vector_length vec = vec_len vec"

definition jaeger_vector_init ::
  "'a \<Rightarrow> int \<Rightarrow> 'a jaeger_vector \<Rightarrow> mem \<Rightarrow> (bool \<times> 'a jaeger_vector \<times> mem) option" where
  "jaeger_vector_init z type_size vec m = do {
     c_assert (type_size > 0);
     allocated_size \<leftarrow> chk_int (type_size * JAEGERTRACINGC_VECTOR_INIT_CAPACITY);
     case jaeger_malloc (nat allocated_size) m of
       (None, m) \<Rightarrow> Some (False, vec, m)
     | (Some p, m) \<Rightarrow>
         Some (True,
               \<lparr>vec_len = 0,
                vec_capacity = JAEGERTRACINGC_VECTOR_INIT_CAPACITY,
                vec_data = Some (p, replicate (nat JAEGERTRACINGC_VECTOR_INIT_CAPACITY) z),
                vec_type_size = type_size\<rparr>, m)
   }"

text \<open>\<open>jaeger_vector_offset\<close>: a pointer before the block is not defined.\<close>

definition jaeger_vector_offset :: "'a jaeger_vector \<Rightarrow> int \<Rightarrow> nat option option" where
  "jaeger_vector_offset vec index =
     (if index < 0 then None
      else Some (case vec_data vec of None \<Rightarrow> None | Some _ \<Rightarrow> Some (nat index)))"

definition jaeger_vector_get :: "'a jaeger_vector \<Rightarrow> int \<Rightarrow> nat option option" where
  "jaeger_vector_get vec index = do {
     c_assert (index \<ge> 0);
     if index \<ge> jaeger_vector_length vec then Some None
     else jaeger_vector_offset vec index
   }"

text \<open>Reading and writing the slot behind a pointer.\<close>

definition vec_read :: "'a jaeger_vector \<Rightarrow> nat option \<Rightarrow> 'a option" where
  "vec_read vec p = do {
     i \<leftarrow> p;
     (b, slots) \<leftarrow> vec_data vec;
     if i < length slots then Some (slots ! i) else None
   }"

definition vec_write :: "'a jaeger_vector \<Rightarrow> nat option \<Rightarrow> 'a \<Rightarrow> 'a jaeger_vector option" where
  "vec_write vec p x = do {
     i \<leftarrow> p;
     (b, slots) \<leftarrow> vec_data vec;
     if i < length slots then Some (vec\<lparr>vec_data := Some (b, slots[i := x])\<rparr>) else None
   }"

text \<open>\<open>while (aligned_capacity < new_capacity) aligned_capacity *= 2;\<close>\<close>

partial_function (option) align_capacity :: "int \<Rightarrow> int \<Rightarrow> int option" where
  "align_capacity aligned_capacity new_capacity =
     (if aligned_capacity < new_capacity
      then Option.bind (chk_int (aligned_capacity * JAEGERTRACINGC_VECTOR_RESIZE_FACTOR))
             (\<lambda>c. align_capacity c new_capacity)
      else Some aligned_capacity)"

definition jaeger_vector_reserve ::
  "'a \<Rightarrow> 'a jaeger_vector \<Rightarrow> int \<Rightarrow> mem \<Rightarrow> (bool \<times> 'a jaeger_vector \<times> mem) option" where
  "jaeger_vector_reserve z vec new_capacity m = do {
     c_assert (vec_capacity vec > 0);
     if vec_capacity vec \<ge> new_capacity then Some (True, vec, m)
     else do {
       aligned_capacity \<leftarrow> align_capacity (vec_capacity vec) new_capacity;
       bytes \<leftarrow> chk_int (vec_type_size vec * aligned_capacity);
       (new_data, m) \<leftarrow> jaeger_realloc (map_option fst (vec_data vec)) (nat bytes) m;
       case new_data of
         None \<Rightarrow> Some (False, vec, m)
       | Some p \<Rightarrow>
           let old = (case vec_data vec of None \<Rightarrow> [] | Some (_, slots) \<Rightarrow> slots);
               cap = nat (vec_capacity vec);
               slots = take cap old @ replicate (nat aligned_capacity - cap) z
           in Some (True, vec\<lparr>vec_data := Some (p, slots), vec_capacity := aligned_capacity\<rparr>, m)
     }
   }"

text \<open>\<open>memmove\<close> of the \<open>k\<close> slots from \<open>src\<close> on to \<open>dst\<close>; outside the block it is undefined.\<close>

definition vec_memmove :: "'a jaeger_vector \<Rightarrow> nat \<Rightarrow> nat \<Rightarrow> nat \<Rightarrow> 'a jaeger_vector option" where
  "vec_memmove vec dst src k = do {
     (b, slots) \<leftarrow> vec_data vec;
     if dst + k \<le> length slots \<and> src + k \<le> length slots
     then Some (vec\<lparr>vec_data := Some (b, take dst slots @ take k (drop src slots) @ drop (dst + k) slots)\<rparr>)
     else None
   }"

definition jaeger_vector_extend ::
  "'a \<Rightarrow> 'a jaeger_vector \<Rightarrow> int \<Rightarrow> int \<Rightarrow> mem \<Rightarrow> (nat option \<times> 'a jaeger_vector \<times> mem) option" where
  "jaeger_vector_extend z vec insertion_pos num_elements m = do {
     c_assert (num_elements \<ge> 0);
     c_assert (jaeger_vector_length vec \<le> vec_capacity vec);
     new_len \<leftarrow> chk_int (jaeger_vector_length vec + num_elements);
     (ok, vec, m) \<leftarrow>
       (if new_len > vec_capacity vec
        then do {
          new_capacity \<leftarrow> chk_int (vec_capacity vec + num_elements);
          jaeger_vector_reserve z vec new_capacity m
        }
        else Some (True, vec, m));
     if \<not> ok then Some (None, vec, m)
     else do {
       offset \<leftarrow> jaeger_vector_offset vec insertion_pos;
       vec \<leftarrow> (if insertion_pos < vec_len vec
              then vec_memmove vec (nat (insertion_pos + num_elements)) (nat insertion_pos)
                     (nat (vec_len vec - insertion_pos))
              else Some vec);
       Some (offset, vec\<lparr>vec_len := vec_len vec + num_elements\<rparr>, m)
     }
   }"

definition jaeger_vector_remove :: "'a jaeger_vector \<Rightarrow> int \<Rightarrow> 'a jaeger_vector option" where
  "jaeger_vector_remove vec index =
     (let len = jaeger_vector_length vec
      in if index < 0 \<or> index \<ge> len then Some vec
         else do {
           vec \<leftarrow> (if index < len - 1
                  then vec_memmove vec (nat index) (nat (index + 1)) (nat (len - (index + 1)))
                  else Some vec);
           Some (vec\<lparr>vec_len := vec_len vec - 1\<rparr>)
         })"

definition jaeger_vector_insert ::
  "'a \<Rightarrow> 'a jaeger_vector \<Rightarrow> int \<Rightarrow> mem \<Rightarrow> (nat option \<times> 'a jaeger_vector \<times> mem) option" where
  "jaeger_vector_insert z vec index m = jaeger_vector_extend z vec index 1 m"

definition jaeger_vector_append ::
  "'a \<Rightarrow> 'a jaeger_vector \<Rightarrow> mem \<Rightarrow> (nat option \<times> 'a jaeger_vector \<times> mem) option" where
  "jaeger_vector_append z vec m = jaeger_vector_insert z vec (jaeger_vector_length vec) m"

definition jaeger_vector_clear :: "'a jaeger_vector \<Rightarrow> 'a jaeger_vector" where
  "jaeger_vector_clear vec = vec\<lparr>vec_len := 0\<rparr>"

definition jaeger_vector_destroy :: "'a jaeger_vector \<Rightarrow> mem \<Rightarrow> ('a jaeger_vector \<times> mem) option" where
  "jaeger_vector_destroy vec m = do {
     m \<leftarrow> jaeger_free (map_option fst (vec_data vec)) m;
     Some (\<lparr>vec_len = 0, vec_capacity = 0, vec_data = None, vec_type_size = 0\<rparr>, m)
   }"

text \<open>\<open>qsort(vec->data, len, ...)\<close>: \<open>qsort\<close> is the library's sorting of the first \<open>len\<close> slots.\<close>

definition jaeger_vector_sort :: "('a list \<Rightarrow> 'a list) \<Rightarrow> 'a jaeger_vector \<Rightarrow> 'a jaeger_vector" where
  "jaeger_vector_sort qsort vec =
     (case vec_data vec of
        None \<Rightarrow> vec
      | Some (b, slots) \<Rightarrow>
          let n = nat (jaeger_vector_length vec)
          in vec\<lparr>vec_data := Some (b, qsort (take n slots) @ drop n slots)\<rparr>)"

text \<open>The C library's \<open>bsearch\<close> on the slots \<open>[l, u)\<close>.\<close>

function bsearch_loop :: "('a \<Rightarrow> int) \<Rightarrow> 'a list \<Rightarrow> nat \<Rightarrow> nat \<Rightarrow> nat option" where
  "bsearch_loop cmpkey xs l u =
     (if l < u then
        (let idx = (l + u) div 2; c = cmpkey (xs ! idx)
         in if c < 0 then bsearch_loop cmpkey xs l idx
            else if c > 0 then bsearch_loop cmpkey xs (idx + 1) u
            else Some idx)
      else None)"
  by pat_completeness auto
termination
  by (relation "measure (\<lambda>(c, xs, l, u). u - l)") auto

declare bsearch_loop.simps [simp del]

definition jaeger_vector_bsearch ::
  "'a jaeger_vector \<Rightarrow> 'a \<Rightarrow> ('a \<Rightarrow> 'a \<Rightarrow> int) \<Rightarrow> nat option option" where
  "jaeger_vector_bsearch vec key cmp =
     (case vec_data vec of
        None \<Rightarrow> (if jaeger_vector_length vec = 0 then Some None else None)
      | Some (b, slots) \<Rightarrow>
          if nat (jaeger_vector_length vec) \<le> length slots
          then Some (bsearch_loop (cmp key) slots 0 (nat (jaeger_vector_length vec)))
          else None)"

text \<open>The loop of \<open>jaeger_vector_lower_bound\<close>, with its two variables; reading outside the block is \<open>None\<close>.\<close>

function lower_bound_loop :: "('a \<Rightarrow> int) \<Rightarrow> 'a list \<Rightarrow> nat \<Rightarrow> nat \<Rightarrow> nat option" where
  "lower_bound_loop cmpkey xs count pos =
     (if count > 0 then
        (let step = count div 2; pos = pos + step
         in if pos \<ge> length xs then None
            else if cmpkey (xs ! pos) < 0
            then lower_bound_loop cmpkey xs (count - (step + 1)) (pos + 1)
            else lower_bound_loop cmpkey xs step pos)
      else Some pos)"
  by pat_completeness auto
termination
  by (relation "measure (\<lambda>(c, xs, count, pos). count)") auto

declare lower_bound_loop.simps [simp del]

definition jaeger_vector_lower_bound ::
  "'a jaeger_vector \<Rightarrow> 'a \<Rightarrow> ('a \<Rightarrow> 'a \<Rightarrow> int) \<Rightarrow> int option" where
  "jaeger_vector_lower_bound vec key cmp =
     (let count = nat (jaeger_vector_length vec)
      in if count = 0 then Some 0
         else do {
           (b, slots) \<leftarrow> vec_data vec;
           pos \<leftarrow> lower_bound_loop (\<lambda>x. cmp x key) slots count 0;
           Some (int pos)
         })"

text \<open>
  \<open>jaeger_vector_copy\<close>: \<open>copy\<close> gets the destination slot's old contents and the source element and
  returns whether it succeeded and what it left in the slot.  The loop runs over the source
  elements; a failing copy gives the slot back.
\<close>

fun vector_copy_loop ::
  "'a \<Rightarrow> ('a \<Rightarrow> 'b \<Rightarrow> mem \<Rightarrow> (bool \<times> 'a \<times> mem) option) \<Rightarrow> 'b list \<Rightarrow> 'a jaeger_vector \<Rightarrow> mem \<Rightarrow>
   (bool \<times> 'a jaeger_vector \<times> mem) option" where
  "vector_copy_loop z copy [] dst m = Some (True, dst, m)"
| "vector_copy_loop z copy (src_elem # rest) dst m = do {
     (dst_elem, dst, m) \<leftarrow> jaeger_vector_append z dst m;
     c_assert (dst_elem \<noteq> None);
     old \<leftarrow> vec_read dst dst_elem;
     (ok, x, m) \<leftarrow> copy old src_elem m;
     dst \<leftarrow> vec_write dst dst_elem x;
     if ok then vector_copy_loop z copy rest dst m
     else Some (False, dst\<lparr>vec_len := vec_len dst - 1\<rparr>, m)
   }"

definition vec_list :: "'a jaeger_vector \<Rightarrow> 'a list" where
  "vec_list vec =
     (case vec_data vec of None \<Rightarrow> [] | Some (_, slots) \<Rightarrow> take (nat (vec_len vec)) slots)"

definition jaeger_vector_copy ::
  "'a \<Rightarrow> 'a jaeger_vector \<Rightarrow> 'b jaeger_vector \<Rightarrow>
   ('a \<Rightarrow> 'b \<Rightarrow> mem \<Rightarrow> (bool \<times> 'a \<times> mem) option) \<Rightarrow> mem \<Rightarrow>
   (bool \<times> 'a jaeger_vector \<times> mem) option" where
  "jaeger_vector_copy z dst src copy m = do {
     c_assert (jaeger_vector_length dst = 0);
     (ok, dst, m) \<leftarrow> jaeger_vector_reserve z dst (jaeger_vector_length src) m;
     if \<not> ok then Some (False, dst, m)
     else do {
       c_assert (jaeger_vector_length src \<le> 0 \<or> vec_data src \<noteq> None);
       vector_copy_loop z copy (vec_list src) dst m
     }
   }"

text \<open>
  Vectors of pointers: a slot is NULL or a block with the pointed-to value.  \<open>copy\<close> fills the fresh
  block (its old contents are indeterminate: \<open>z\<close>).
\<close>

definition jaeger_vector_ptr_copy_helper ::
  "nat \<Rightarrow> 'a \<Rightarrow> ('a \<Rightarrow> 'b \<Rightarrow> mem \<Rightarrow> (bool \<times> 'a \<times> mem) option) \<Rightarrow>
   (ptr \<times> 'a) option \<Rightarrow> 'b \<Rightarrow> mem \<Rightarrow> (bool \<times> (ptr \<times> 'a) option \<times> mem) option" where
  "jaeger_vector_ptr_copy_helper type_size z copy dst src m =
     (case jaeger_malloc type_size m of
        (None, m) \<Rightarrow> Some (False, None, m)
      | (Some p, m) \<Rightarrow> do {
          (ok, x, m) \<leftarrow> copy z src m;
          if ok then Some (True, Some (p, x), m)
          else do { m \<leftarrow> jaeger_free (Some p) m; Some (False, None, m) }
        })"

text \<open>
  \<open>JAEGERTRACINGC_VECTOR_FOR_EACH\<close> with a destructor, on the elements.  What is left in the slots is
  not kept: every caller destroys the vector next.
\<close>

fun vector_for_each_destroy ::
  "('a \<Rightarrow> mem \<Rightarrow> ('a \<times> mem) option) \<Rightarrow> 'a list \<Rightarrow> mem \<Rightarrow> mem option" where
  "vector_for_each_destroy destroy [] m = Some m"
| "vector_for_each_destroy destroy (x # xs) m = do {
     (x', m) \<leftarrow> destroy x m;
     vector_for_each_destroy destroy xs m
   }"

text \<open>\<open>JAEGERTRACINGC_DST_VECTOR_ALLOC_FREE\<close>; the slot keeps its pointer.\<close>

definition dst_vector_alloc_free ::
  "('a \<Rightarrow> mem \<Rightarrow> ('a \<times> mem) option) \<Rightarrow> (ptr \<times> 'a) option \<Rightarrow> mem \<Rightarrow> ((ptr \<times> 'a) option \<times> mem) option" where
  "dst_vector_alloc_free destroy ptr m =
     (case ptr of
        None \<Rightarrow> Some (None, m)
      | Some (p, x) \<Rightarrow> do {
          (x', m) \<leftarrow> destroy x m;
          m \<leftarrow> jaeger_free (Some p) m;
          Some (Some (p, x'), m)
        })"

definition SIZEOF_PTR :: int where
  "SIZEOF_PTR = 8"

definition jaeger_vector_ptr_copy ::
  "(ptr \<times> 'a) option jaeger_vector \<Rightarrow> 'b jaeger_vector \<Rightarrow> nat \<Rightarrow> 'a \<Rightarrow>
   ('a \<Rightarrow> 'b \<Rightarrow> mem \<Rightarrow> (bool \<times> 'a \<times> mem) option) \<Rightarrow> ('a \<Rightarrow> mem \<Rightarrow> ('a \<times> mem) option) \<Rightarrow> mem \<Rightarrow>
   (bool \<times> (ptr \<times> 'a) option jaeger_vector \<times> mem) option" where
  "jaeger_vector_ptr_copy dst src value_size z copy destroy m =
     (if vec_type_size dst \<noteq> SIZEOF_PTR then Some (False, dst, m)
      else do {
        (ok, dst, m) \<leftarrow> jaeger_vector_copy None dst src
                         (jaeger_vector_ptr_copy_helper value_size z copy) m;
        if ok then Some (True, dst, m)
        else do {
          m \<leftarrow> vector_for_each_destroy (dst_vector_alloc_free destroy) (vec_list dst) m;
          Some (False, dst, m)
        }
      })"

text \<open>
  \<open>jaeger_vector_protobuf_copy\<close>: the result is what \<open>*dst\<close> and \<open>*n_dst\<close> receive, the array block and
  the pointers in it (\<open>None\<close> for a NULL array); on failure both keep their old values.
\<close>

definition jaeger_vector_protobuf_copy ::
  "(ptr \<times> (ptr \<times> 'a) option list) option \<times> nat \<Rightarrow> 'b jaeger_vector \<Rightarrow> nat \<Rightarrow> 'a \<Rightarrow>
   ('a \<Rightarrow> 'b \<Rightarrow> mem \<Rightarrow> (bool \<times> 'a \<times> mem) option) \<Rightarrow> ('a \<Rightarrow> mem \<Rightarrow> ('a \<times> mem) option) \<Rightarrow> mem \<Rightarrow>
   (bool \<times> ((ptr \<times> (ptr \<times> 'a) option list) option \<times> nat) \<times> mem) option" where
  "jaeger_vector_protobuf_copy out src value_size z copy destroy m =
     (if jaeger_vector_length src = 0 then Some (True, (None, 0), m)
      else do {
        (ok, vec, m) \<leftarrow> jaeger_vector_init None SIZEOF_PTR JAEGERTRACINGC_VECTOR_INIT m;
        if \<not> ok then Some (False, out, m)
        else do {
          (ok, vec, m) \<leftarrow> jaeger_vector_ptr_copy vec src value_size z copy destroy m;
          if ok then Some (True, (vec_data vec, nat (jaeger_vector_length vec)), m)
          else do {
            (vec, m) \<leftarrow> jaeger_vector_destroy vec m;
            Some (False, out, m)
          }
        }
      })"

text \<open>The pointers of a message's array that a loop up to \<open>n\<close> dereferences.\<close>

definition array_elems :: "(ptr \<times> 'a list) option \<Rightarrow> nat \<Rightarrow> 'a list option" where
  "array_elems arr n =
     (case arr of
        None \<Rightarrow> (if n = 0 then Some [] else None)
      | Some (p, xs) \<Rightarrow> if n \<le> length xs then Some (take n xs) else None)"

section \<open>Invariant and abstraction\<close>

definition vec_ok :: "'a jaeger_vector \<Rightarrow> bool" where
  "vec_ok v \<longleftrightarrow>
     0 \<le> vec_len v \<and> vec_len v \<le> vec_capacity v \<and> 0 < vec_capacity v \<and> 0 < vec_type_size v \<and>
     vec_type_size v * vec_capacity v \<le> INT_MAX \<and>
     (case vec_data v of None \<Rightarrow> False | Some (p, slots) \<Rightarrow> length slots = nat (vec_capacity v))"

definition vec_ptrs :: "'a jaeger_vector \<Rightarrow> ptr list" where
  "vec_ptrs v = (case vec_data v of None \<Rightarrow> [] | Some (p, _) \<Rightarrow> [p])"

text \<open>Growing to \<open>n\<close> elements cannot overflow an \<open>int\<close>.\<close>

definition vec_room :: "'a jaeger_vector \<Rightarrow> int \<Rightarrow> bool" where
  "vec_room v n \<longleftrightarrow> vec_type_size v * (2 * n) \<le> INT_MAX \<and> 2 * n \<le> INT_MAX"

lemma distinct_vec_ptrs [simp]: "distinct (vec_ptrs v)"
  by (auto simp: vec_ptrs_def split: option.split)

lemma vec_okE:
  assumes "vec_ok v"
  obtains p slots where "vec_data v = Some (p, slots)" and "length slots = nat (vec_capacity v)"
    and "0 \<le> vec_len v" and "vec_len v \<le> vec_capacity v" and "0 < vec_capacity v"
    and "0 < vec_type_size v" and "vec_type_size v * vec_capacity v \<le> INT_MAX"
  using assms by (auto simp: vec_ok_def split: option.splits)

lemma length_vec_list: "vec_ok v \<Longrightarrow> int (length (vec_list v)) = vec_len v"
  by (auto elim!: vec_okE simp: vec_list_def)

lemma vec_list_clear [simp]: "vec_list (jaeger_vector_clear v) = []"
  by (auto simp: vec_list_def jaeger_vector_clear_def split: option.split)

lemma vec_ok_clear: "vec_ok v \<Longrightarrow> vec_ok (jaeger_vector_clear v)"
  by (auto simp: vec_ok_def jaeger_vector_clear_def split: option.splits)

lemma vec_ptrs_clear [simp]: "vec_ptrs (jaeger_vector_clear v) = vec_ptrs v"
  by (simp add: vec_ptrs_def jaeger_vector_clear_def)

lemma chk_int_eq_Some [simp]: "chk_int i = Some j \<longleftrightarrow> int_ok i \<and> j = i"
  by (auto simp: chk_int_def)

lemma chk_int_ok [simp]: "int_ok i \<Longrightarrow> chk_int i = Some i"
  by (simp add: chk_int_def)

lemma vec_init_spec:
  assumes "jaeger_vector_init z ts v m = Some (ok, v', m')" and "mem_ok m"
  shows "ok \<Longrightarrow> vec_ok v' \<and> vec_list v' = [] \<and> vec_len v' = 0 \<and> vec_capacity v' = 10 \<and>
      vec_type_size v' = ts \<and> mem_trans {} (set (vec_ptrs v')) m m'"
    and "\<not> ok \<Longrightarrow> v' = v \<and> mem_trans {} {} m m'"
proof -
  from assms(1) obtain r where r: "jaeger_malloc (nat (ts * 10)) m = (r, m')" and "0 < ts" "int_ok (ts * 10)"
    and "(r = None \<and> \<not> ok \<and> v' = v) \<or> (\<exists>p. r = Some p \<and> ok \<and>
      v' = \<lparr>vec_len = 0, vec_capacity = 10, vec_data = Some (p, replicate 10 z), vec_type_size = ts\<rparr>)"
    by (auto simp: jaeger_vector_init_def JAEGERTRACINGC_VECTOR_INIT_CAPACITY_def bind_eq_Some_conv
        split: prod.splits option.splits)
  with jaeger_malloc_SomeD(1) [of "nat (ts * 10)" m _ m'] jaeger_malloc_NoneD [of "nat (ts * 10)" m m'] assms(2)
  show "ok \<Longrightarrow> vec_ok v' \<and> vec_list v' = [] \<and> vec_len v' = 0 \<and> vec_capacity v' = 10 \<and>
      vec_type_size v' = ts \<and> mem_trans {} (set (vec_ptrs v')) m m'"
    and "\<not> ok \<Longrightarrow> v' = v \<and> mem_trans {} {} m m'"
    by (auto simp: vec_ok_def vec_list_def vec_ptrs_def int_ok_def)
qed

lemma vec_init_total:
  assumes "0 < ts" and "ts * 10 \<le> INT_MAX"
  shows "\<exists>ok v' m'. jaeger_vector_init z ts v m = Some (ok, v', m')"
  using assms
  by (cases "jaeger_malloc (nat (ts * 10)) m"; cases "fst (jaeger_malloc (nat (ts * 10)) m)")
    (auto simp: jaeger_vector_init_def JAEGERTRACINGC_VECTOR_INIT_CAPACITY_def chk_int_def int_ok_def INT_MAX_def)

lemma vec_init_plenty:
  "jaeger_vector_init z ts v m = Some (ok, v', m') \<Longrightarrow> mem_ok m \<Longrightarrow> mem_plenty m \<Longrightarrow> ok"
  by (auto simp: jaeger_vector_init_def bind_eq_Some_conv dest: jaeger_malloc_plenty split: prod.splits option.splits)

section \<open>Growing\<close>

lemma align_capacity_ge:
  assumes ret: "align_capacity c n = Some a"
  shows "n \<le> a \<and> (0 < c \<longrightarrow> c \<le> a) \<and> (c \<le> INT_MAX \<longrightarrow> a \<le> INT_MAX)"
proof (rule align_capacity.raw_induct
    [where P = "\<lambda>c n a. n \<le> a \<and> (0 < c \<longrightarrow> c \<le> a) \<and> (c \<le> INT_MAX \<longrightarrow> a \<le> INT_MAX)", OF _ ret])
  fix f c n a
  assume IH: "\<And>c n a. f c n = Some a \<Longrightarrow> n \<le> a \<and> (0 < c \<longrightarrow> c \<le> a) \<and> (c \<le> INT_MAX \<longrightarrow> a \<le> INT_MAX)"
    and eq: "(if c < n then Option.bind (chk_int (c * JAEGERTRACINGC_VECTOR_RESIZE_FACTOR)) (\<lambda>c. f c n)
      else Some c) = Some a"
  show "n \<le> a \<and> (0 < c \<longrightarrow> c \<le> a) \<and> (c \<le> INT_MAX \<longrightarrow> a \<le> INT_MAX)"
  proof (cases "c < n")
    case True
    with eq have "f (c * 2) n = Some a" and "c * 2 \<le> INT_MAX"
      by (auto simp: bind_eq_Some_conv JAEGERTRACINGC_VECTOR_RESIZE_FACTOR_def int_ok_def)
    with IH [of "c * 2" n a] show ?thesis by auto
  next
    case False
    with eq show ?thesis by simp
  qed
qed

text \<open>The loop ends, below twice the request.\<close>

lemma align_capacity_total:
  assumes "0 < c" and "2 * n \<le> INT_MAX"
  shows "\<exists>a. align_capacity c n = Some a \<and> (c < n \<longrightarrow> a < 2 * n)"
  using assms
proof (induction "nat (n - c)" arbitrary: c rule: less_induct)
  case less
  show ?case
  proof (cases "c < n")
    case True
    then have "nat (n - c * 2) < nat (n - c)" using less.prems(1) by simp
    with less obtain a where a: "align_capacity (c * 2) n = Some a" "c * 2 < n \<longrightarrow> a < 2 * n"
      by (meson mult_pos_pos zero_less_numeral)
    have "chk_int (c * 2) = Some (c * 2)"
      using True less.prems by (auto simp: chk_int_def int_ok_def INT_MAX_def)
    then have "align_capacity c n = Some a"
      using True a(1) by (subst align_capacity.simps) (simp add: JAEGERTRACINGC_VECTOR_RESIZE_FACTOR_def)
    moreover have "a < 2 * n"
    proof (cases "c * 2 < n")
      case False
      then have "a = c * 2" using a(1) by (subst (asm) align_capacity.simps) simp
      with True show ?thesis by simp
    qed (use a in simp)
    ultimately show ?thesis by blast
  next
    case False
    then show ?thesis by (subst align_capacity.simps) simp
  qed
qed

text \<open>
  Reserving keeps the contents, makes the capacity sufficient or reports failure with the vector
  unchanged, and owns one block before and after.
\<close>

lemma vec_reserve_spec:
  assumes r: "jaeger_vector_reserve z v n m = Some (ok, v', m')" and v: "vec_ok v" and "mem_ok m"
  shows "vec_ok v'" and "vec_list v' = vec_list v" and "vec_len v' = vec_len v"
    and "vec_type_size v' = vec_type_size v"
    and "ok \<Longrightarrow> n \<le> vec_capacity v'" and "\<not> ok \<Longrightarrow> v' = v"
    and "set (vec_ptrs v) \<subseteq> dom (mem_blocks m) \<Longrightarrow>
      mem_trans (set (vec_ptrs v)) (set (vec_ptrs v')) m m'"
proof -
  from v obtain p slots where d: "vec_data v = Some (p, slots)" "length slots = nat (vec_capacity v)"
    "0 \<le> vec_len v" "vec_len v \<le> vec_capacity v" "0 < vec_capacity v" "0 < vec_type_size v"
    by (rule vec_okE)
  have "vec_ok v' \<and> vec_list v' = vec_list v \<and> vec_len v' = vec_len v \<and>
    vec_type_size v' = vec_type_size v \<and> (ok \<longrightarrow> n \<le> vec_capacity v') \<and> (\<not> ok \<longrightarrow> v' = v) \<and>
    (set (vec_ptrs v) \<subseteq> dom (mem_blocks m) \<longrightarrow> mem_trans (set (vec_ptrs v)) (set (vec_ptrs v')) m m')"
  proof (cases "n \<le> vec_capacity v")
    case True
    with r d v \<open>mem_ok m\<close> show ?thesis
      by (auto simp: jaeger_vector_reserve_def mem_trans_keep)
  next
    case False
    with r d obtain a q where a: "align_capacity (vec_capacity v) n = Some a"
      and b: "int_ok (vec_type_size v * a)"
      and q: "jaeger_realloc (Some p) (nat (vec_type_size v * a)) m = Some (q, m')"
      and res: "(q = None \<and> \<not> ok \<and> v' = v) \<or> (\<exists>p'. q = Some p' \<and> ok \<and>
        v' = v\<lparr>vec_data := Some (p', take (nat (vec_capacity v)) slots @ replicate (nat a - nat (vec_capacity v)) z),
               vec_capacity := a\<rparr>)"
      by (auto simp: jaeger_vector_reserve_def Let_def bind_eq_Some_conv split: option.splits)
    from align_capacity_ge [OF a] d(5) have ge: "n \<le> a" "vec_capacity v \<le> a" by auto
    from res show ?thesis
    proof
      assume "q = None \<and> \<not> ok \<and> v' = v"
      with jaeger_realloc_NoneD [of p _ m m'] q \<open>mem_ok m\<close> v d(1) show ?thesis
        using mem_trans_frame [of "{}" "{}" m m' "set (vec_ptrs v)"] by auto
    next
      assume "\<exists>p'. q = Some p' \<and> ok \<and>
        v' = v\<lparr>vec_data := Some (p', take (nat (vec_capacity v)) slots @ replicate (nat a - nat (vec_capacity v)) z),
               vec_capacity := a\<rparr>"
      then obtain p' where p': "q = Some p'" "ok" "v' = v\<lparr>vec_data := Some (p', take (nat (vec_capacity v)) slots
          @ replicate (nat a - nat (vec_capacity v)) z), vec_capacity := a\<rparr>" by blast
      have "mem_trans {p} {p'} m m'"
        using jaeger_realloc_SomeD(1) q p'(1) \<open>mem_ok m\<close> by blast
      with p' d ge b show ?thesis
        by (auto simp: vec_ok_def vec_list_def vec_ptrs_def int_ok_def)
    qed
  qed
  then show "vec_ok v'" "vec_list v' = vec_list v" "vec_len v' = vec_len v"
    "vec_type_size v' = vec_type_size v" "ok \<Longrightarrow> n \<le> vec_capacity v'" "\<not> ok \<Longrightarrow> v' = v"
    "set (vec_ptrs v) \<subseteq> dom (mem_blocks m) \<Longrightarrow> mem_trans (set (vec_ptrs v)) (set (vec_ptrs v')) m m'"
    by auto
qed

lemma vec_reserve_total:
  assumes "vec_ok v" and "mem_ok m" and "set (vec_ptrs v) \<subseteq> dom (mem_blocks m)" and "vec_room v n"
  shows "\<exists>ok v' m'. jaeger_vector_reserve z v n m = Some (ok, v', m')"
proof (cases "n \<le> vec_capacity v")
  case True
  with assms show ?thesis by (auto simp: jaeger_vector_reserve_def vec_ok_def)
next
  case False
  from assms(1) obtain p slots where d: "vec_data v = Some (p, slots)" "0 < vec_capacity v" "0 < vec_type_size v"
    by (rule vec_okE)
  from align_capacity_total [OF d(2), of n] assms(4) False obtain a where
    a: "align_capacity (vec_capacity v) n = Some a" "a < 2 * n" by (auto simp: vec_room_def)
  have "0 < a" using align_capacity_ge [OF a(1)] d(2) by linarith
  moreover have "vec_type_size v * a \<le> vec_type_size v * (2 * n)"
    using a(2) d(3) by (intro mult_left_mono) auto
  moreover have "0 < vec_type_size v * a" using \<open>0 < a\<close> d(3) by simp
  ultimately have b: "int_ok (vec_type_size v * a)"
    using assms(4) unfolding vec_room_def int_ok_def INT_MAX_def by linarith
  from jaeger_realloc_total [OF assms(2), of p] assms(3) d(1) obtain r m' where
    "jaeger_realloc (Some p) (nat (vec_type_size v * a)) m = Some (r, m')" by (fastforce simp: vec_ptrs_def)
  with a(1) b d False show ?thesis
    by (cases r) (auto simp: jaeger_vector_reserve_def chk_int_def Let_def)
qed

lemma vec_reserve_plenty:
  "jaeger_vector_reserve z v n m = Some (ok, v', m') \<Longrightarrow> mem_ok m \<Longrightarrow> mem_plenty m \<Longrightarrow> ok"
  by (auto simp: jaeger_vector_reserve_def bind_eq_Some_conv Let_def dest!: jaeger_realloc_plenty
      split: if_splits option.splits)

section \<open>Inserting, appending, removing\<close>

lemma take_insert_slot:
  assumes "n \<le> k" and "Suc k \<le> length s"
  shows "take (Suc k) ((take (Suc n) s @ take (k - n) (drop n s) @ drop (Suc k) s)[n := x]) =
    take n (take k s) @ x # drop n (take k s)"
proof -
  have "take (Suc n) s = take n s @ [s ! n]" using assms by (simp add: take_Suc_conv_app_nth)
  then have "(take (Suc n) s @ take (k - n) (drop n s) @ drop (Suc k) s)[n := x] =
      take n s @ x # take (k - n) (drop n s) @ drop (Suc k) s"
    using assms by (simp add: list_update_append)
  then show ?thesis using assms by (auto simp: drop_take min_def Suc_diff_le)
qed

text \<open>The two ways an extension by one slot ends.\<close>

definition vec_grow :: "'a \<Rightarrow> 'a jaeger_vector \<Rightarrow> mem \<Rightarrow> (bool \<times> 'a jaeger_vector \<times> mem) option" where
  "vec_grow z v m =
     (if vec_len v + 1 > vec_capacity v
      then Option.bind (chk_int (vec_capacity v + 1)) (\<lambda>n. jaeger_vector_reserve z v n m)
      else Some (True, v, m))"

lemma insertE:
  assumes "jaeger_vector_insert z v (int n) m = Some (r, v', m')"
  obtains (fail) "vec_grow z v m = Some (False, v', m')" and "r = None"
  | (ok) v1 v2 where "vec_grow z v m = Some (True, v1, m')"
      and "jaeger_vector_offset v1 (int n) = Some r"
      and "(if int n < vec_len v1 then vec_memmove v1 (nat (int n + 1)) n (nat (vec_len v1 - int n))
            else Some v1) = Some v2"
      and "v' = v2\<lparr>vec_len := vec_len v2 + 1\<rparr>"
proof -
  from assms obtain ok v1 m1 where g: "vec_grow z v m = Some (ok, v1, m1)"
    and rest: "(if \<not> ok then Some (None, v1, m1)
     else do {
       offset \<leftarrow> jaeger_vector_offset v1 (int n);
       vec \<leftarrow> (if int n < vec_len v1 then vec_memmove v1 (nat (int n + 1)) (nat (int n))
                     (nat (vec_len v1 - int n)) else Some v1);
       Some (offset, vec\<lparr>vec_len := vec_len vec + 1\<rparr>, m1)
     }) = Some (r, v', m')"
    unfolding jaeger_vector_insert_def jaeger_vector_extend_def jaeger_vector_length_def vec_grow_def
    by (elim bind_assertE bind_SomeE) (simp split: prod.splits)
  show thesis
  proof (cases ok)
    case False
    with g rest show thesis by (intro fail) auto
  next
    case True
    with rest [unfolded nat_int] obtain offset v2 where "jaeger_vector_offset v1 (int n) = Some offset"
      and "(if int n < vec_len v1 then vec_memmove v1 (nat (int n + 1)) n
                     (nat (vec_len v1 - int n)) else Some v1) = Some v2"
      and "r = offset" "v' = v2\<lparr>vec_len := vec_len v2 + 1\<rparr>" "m1 = m'"
      by (simp add: bind_eq_Some_conv) blast
    with g True show thesis by (intro ok) auto
  qed
qed

text \<open>
  \<open>jaeger_vector_insert\<close> returns NULL and leaves the vector alone, or returns the slot at the
  requested position; writing \<open>x\<close> there makes the vector the list with \<open>x\<close> inserted.
\<close>

lemma vec_grow_spec:
  assumes g: "vec_grow z v m = Some (ok, v1, m')" and v: "vec_ok v" and m: "mem_ok m"
  shows "vec_ok v1" and "vec_list v1 = vec_list v" and "vec_len v1 = vec_len v"
    and "vec_type_size v1 = vec_type_size v" and "ok \<Longrightarrow> vec_len v + 1 \<le> vec_capacity v1"
    and "\<not> ok \<Longrightarrow> v1 = v"
    and "set (vec_ptrs v) \<subseteq> dom (mem_blocks m) \<Longrightarrow>
      mem_trans (set (vec_ptrs v)) (set (vec_ptrs v1)) m m'"
proof -
  note rs = vec_reserve_spec [of z v "vec_capacity v + 1" m ok v1 m', OF _ v m]
  have cases: "jaeger_vector_reserve z v (vec_capacity v + 1) m = Some (ok, v1, m') \<or>
      ok \<and> v1 = v \<and> m' = m \<and> vec_len v + 1 \<le> vec_capacity v"
    using g unfolding vec_grow_def by (auto simp: bind_eq_Some_conv split: if_splits)
  have c: "vec_len v \<le> vec_capacity v" using v by (simp add: vec_ok_def)
  show "vec_ok v1" "vec_list v1 = vec_list v" "vec_len v1 = vec_len v" "vec_type_size v1 = vec_type_size v"
    using cases rs v by blast+
  show "vec_len v + 1 \<le> vec_capacity v1" if ok using cases rs(5) c that by fastforce
  show "\<not> ok \<Longrightarrow> v1 = v" using cases rs(6) by blast
  show "mem_trans (set (vec_ptrs v)) (set (vec_ptrs v1)) m m'" if "set (vec_ptrs v) \<subseteq> dom (mem_blocks m)"
    using cases rs(7) that m mem_trans_keep by blast
qed

text \<open>The shape of the result of a successful insertion.\<close>

lemma vec_insert_shape:
  assumes v1: "vec_ok v1" and n: "int n \<le> vec_len v1" and c: "vec_len v1 + 1 \<le> vec_capacity v1"
    and mv: "(if int n < vec_len v1 then vec_memmove v1 (nat (int n + 1)) n (nat (vec_len v1 - int n))
            else Some v1) = Some v2"
    and k: "k = nat (vec_len v1)" and d: "vec_data v1 = Some (p, s)"
  shows "v2 = v1\<lparr>vec_data := Some (p, take (Suc n) s @ take (k - n) (drop n s) @ drop (Suc k) s)\<rparr>"
    and "Suc k \<le> length s" and "n \<le> k"
proof -
  have s: "length s = nat (vec_capacity v1)" and "0 \<le> vec_len v1" using v1 d by (auto simp: vec_ok_def)
  then show "Suc k \<le> length s" and "n \<le> k" using n c k by auto
  then show "v2 = v1\<lparr>vec_data := Some (p, take (Suc n) s @ take (k - n) (drop n s) @ drop (Suc k) s)\<rparr>"
  proof (cases "int n < vec_len v1")
    case True
    then have "nat (vec_len v1 - int n) = k - n" "nat (int n + 1) = Suc n" "Suc n + (k - n) = Suc k"
      using k by auto
    with mv True d show ?thesis by (auto simp: vec_memmove_def split: if_splits)
  next
    case False
    then have "n = k" using n k by simp
    with \<open>Suc k \<le> length s\<close> mv False d show ?thesis by simp
  qed
qed

lemma vec_insert_spec:
  assumes ins: "jaeger_vector_insert z v (int n) m = Some (r, v', m')"
    and v: "vec_ok v" and m: "mem_ok m" and n: "int n \<le> vec_len v"
  shows "r = None \<Longrightarrow> v' = v"
    and "r \<noteq> None \<Longrightarrow> r = Some n \<and> vec_ok v' \<and> vec_len v' = vec_len v + 1 \<and>
      vec_type_size v' = vec_type_size v"
    and "r \<noteq> None \<Longrightarrow> \<exists>w. vec_write v' r x = Some w \<and> vec_ok w \<and> vec_ptrs w = vec_ptrs v' \<and>
        vec_len w = vec_len v' \<and> vec_capacity w = vec_capacity v' \<and> vec_type_size w = vec_type_size v' \<and>
        vec_list w = take n (vec_list v) @ x # drop n (vec_list v)"
    and "set (vec_ptrs v) \<subseteq> dom (mem_blocks m) \<Longrightarrow>
      mem_trans (set (vec_ptrs v)) (set (vec_ptrs v')) m m'"
proof -
  have "(r = None \<longrightarrow> v' = v) \<and>
    (r \<noteq> None \<longrightarrow> r = Some n \<and> vec_ok v' \<and> vec_len v' = vec_len v + 1 \<and> vec_type_size v' = vec_type_size v \<and>
      (\<exists>w. vec_write v' r x = Some w \<and> vec_ok w \<and> vec_ptrs w = vec_ptrs v' \<and>
        vec_len w = vec_len v' \<and> vec_capacity w = vec_capacity v' \<and> vec_type_size w = vec_type_size v' \<and>
        vec_list w = take n (vec_list v) @ x # drop n (vec_list v))) \<and>
    (set (vec_ptrs v) \<subseteq> dom (mem_blocks m) \<longrightarrow> mem_trans (set (vec_ptrs v)) (set (vec_ptrs v')) m m')"
    using ins
  proof (cases rule: insertE)
    case fail
    with vec_grow_spec [OF fail(1) v m] show ?thesis by auto
  next
    case (ok v1 v2)
    note g = vec_grow_spec [OF ok(1) v m]
    from g(1) obtain p s where d: "vec_data v1 = Some (p, s)" "length s = nat (vec_capacity v1)"
      "0 \<le> vec_len v1" by (rule vec_okE)
    define k where "k = nat (vec_len v1)"
    define s' where "s' = take (Suc n) s @ take (k - n) (drop n s) @ drop (Suc k) s"
    note sh = vec_insert_shape [OF g(1) _ _ ok(3) k_def d(1), folded s'_def]
    have k: "Suc k \<le> length s" "n \<le> k" and v2: "v2 = v1\<lparr>vec_data := Some (p, s')\<rparr>"
      using sh n g(3,5) by auto
    have ls: "length s' = length s" using k by (simp add: s'_def)
    have r: "r = Some n" using ok(2) d(1) by (simp add: jaeger_vector_offset_def)
    have v': "v' = v1\<lparr>vec_data := Some (p, s'), vec_len := vec_len v + 1\<rparr>"
      using ok(4) v2 g(3) by simp
    have okv: "vec_ok v'" using g(1,3,5) d ls by (auto simp: v' vec_ok_def)
    define w where "w = v'\<lparr>vec_data := Some (p, s'[n := x])\<rparr>"
    have "vec_write v' r x = Some w" using r k ls by (simp add: vec_write_def v' w_def)
    moreover have "vec_ok w" using okv by (simp add: vec_ok_def w_def v')
    moreover have "vec_list w = take n (vec_list v) @ x # drop n (vec_list v)"
    proof -
      have "vec_list v = take k s" using g(2) d(1) by (simp add: vec_list_def k_def)
      moreover have "nat (vec_len v + 1) = Suc k" using d(3) g(3) by (simp add: k_def)
      ultimately show ?thesis
        using take_insert_slot [OF k(2,1), of x] by (simp add: vec_list_def w_def v' s'_def)
    qed
    ultimately have "\<exists>w. vec_write v' r x = Some w \<and> vec_ok w \<and> vec_ptrs w = vec_ptrs v' \<and>
        vec_len w = vec_len v' \<and> vec_capacity w = vec_capacity v' \<and> vec_type_size w = vec_type_size v' \<and>
        vec_list w = take n (vec_list v) @ x # drop n (vec_list v)"
      by (intro exI [of _ w]) (simp add: w_def v' vec_ptrs_def)
    moreover have "vec_ptrs v' = vec_ptrs v1" using d(1) by (simp add: v' vec_ptrs_def)
    ultimately show ?thesis using r okv g(4,7) by (simp add: v')
  qed
  then show "r = None \<Longrightarrow> v' = v"
    and "r \<noteq> None \<Longrightarrow> r = Some n \<and> vec_ok v' \<and> vec_len v' = vec_len v + 1 \<and>
      vec_type_size v' = vec_type_size v"
    and "r \<noteq> None \<Longrightarrow> \<exists>w. vec_write v' r x = Some w \<and> vec_ok w \<and> vec_ptrs w = vec_ptrs v' \<and>
        vec_len w = vec_len v' \<and> vec_capacity w = vec_capacity v' \<and> vec_type_size w = vec_type_size v' \<and>
        vec_list w = take n (vec_list v) @ x # drop n (vec_list v)"
    and "set (vec_ptrs v) \<subseteq> dom (mem_blocks m) \<Longrightarrow>
      mem_trans (set (vec_ptrs v)) (set (vec_ptrs v')) m m'"
    by blast+
qed

lemma append_eq_insert:
  "vec_ok v \<Longrightarrow> jaeger_vector_append z v m = jaeger_vector_insert z v (int (nat (vec_len v))) m"
  by (simp add: jaeger_vector_append_def jaeger_vector_length_def vec_ok_def)

lemma vec_append_spec:
  assumes app: "jaeger_vector_append z v m = Some (r, v', m')" and v: "vec_ok v" and m: "mem_ok m"
  shows "r = None \<Longrightarrow> v' = v"
    and "r \<noteq> None \<Longrightarrow> r = Some (nat (vec_len v)) \<and> vec_ok v' \<and> vec_len v' = vec_len v + 1 \<and>
      vec_type_size v' = vec_type_size v"
    and "r \<noteq> None \<Longrightarrow> \<exists>w. vec_write v' r x = Some w \<and> vec_ok w \<and> vec_ptrs w = vec_ptrs v' \<and>
        vec_len w = vec_len v' \<and> vec_capacity w = vec_capacity v' \<and> vec_type_size w = vec_type_size v' \<and>
        vec_list w = vec_list v @ [x]"
    and "set (vec_ptrs v) \<subseteq> dom (mem_blocks m) \<Longrightarrow>
      mem_trans (set (vec_ptrs v)) (set (vec_ptrs v')) m m'"
proof -
  have l: "int (nat (vec_len v)) \<le> vec_len v" using v by (auto simp: vec_ok_def)
  have ll: "length (vec_list v) = nat (vec_len v)" using length_vec_list [OF v] by simp
  note spec = vec_insert_spec [OF app [unfolded append_eq_insert [OF v]] v m l]
  show "r = None \<Longrightarrow> v' = v" by (rule spec(1))
  show "r \<noteq> None \<Longrightarrow> r = Some (nat (vec_len v)) \<and> vec_ok v' \<and> vec_len v' = vec_len v + 1 \<and>
      vec_type_size v' = vec_type_size v" by (rule spec(2))
  show "r \<noteq> None \<Longrightarrow> \<exists>w. vec_write v' r x = Some w \<and> vec_ok w \<and> vec_ptrs w = vec_ptrs v' \<and>
        vec_len w = vec_len v' \<and> vec_capacity w = vec_capacity v' \<and> vec_type_size w = vec_type_size v' \<and>
        vec_list w = vec_list v @ [x]"
    using spec(3) [of x] ll by simp
  show "set (vec_ptrs v) \<subseteq> dom (mem_blocks m) \<Longrightarrow>
      mem_trans (set (vec_ptrs v)) (set (vec_ptrs v')) m m'" by (rule spec(4))
qed

text \<open>With a free slot, appending only moves the length: no allocation, no copying.\<close>

lemma vec_append_room:
  assumes v: "vec_ok v" and r: "vec_len v < vec_capacity v"
  shows "jaeger_vector_append z v m = Some (Some (nat (vec_len v)), v\<lparr>vec_len := vec_len v + 1\<rparr>, m)"
proof -
  from v obtain p s where d: "vec_data v = Some (p, s)" "0 \<le> vec_len v" "vec_len v \<le> vec_capacity v"
    "0 < vec_type_size v" "vec_type_size v * vec_capacity v \<le> INT_MAX" "0 < vec_capacity v" by (rule vec_okE)
  have "vec_capacity v \<le> vec_type_size v * vec_capacity v"
    using d mult_right_mono [of 1 "vec_type_size v" "vec_capacity v"] by simp
  with d(2,5) r have "int_ok (vec_len v + 1)" unfolding int_ok_def INT_MAX_def by linarith
  with d r show ?thesis
    by (simp add: jaeger_vector_append_def jaeger_vector_insert_def jaeger_vector_extend_def
        jaeger_vector_length_def jaeger_vector_offset_def)
qed

lemma vec_append_total:
  assumes v: "vec_ok v" and m: "mem_ok m" and b: "set (vec_ptrs v) \<subseteq> dom (mem_blocks m)"
    and r: "vec_room v (vec_capacity v + 1)"
  shows "\<exists>r v' m'. jaeger_vector_append z v m = Some (r, v', m')"
proof (cases "vec_len v < vec_capacity v")
  case True
  with v show ?thesis by (simp add: vec_append_room)
next
  case False
  from vec_reserve_total [OF v m b r] obtain ok v' m' where
    res: "jaeger_vector_reserve z v (vec_capacity v + 1) m = Some (ok, v', m')" by blast
  have c: "vec_len v = vec_capacity v" "0 < vec_capacity v" using v False by (auto simp: vec_ok_def)
  have "int_ok (vec_capacity v + 1)" using r c by (simp add: vec_room_def int_ok_def INT_MAX_def)
  with res c vec_reserve_spec(3) [OF res v m] show ?thesis
    by (cases ok) (simp_all add: jaeger_vector_append_def jaeger_vector_insert_def jaeger_vector_extend_def
        jaeger_vector_length_def jaeger_vector_offset_def)
qed

lemma vec_append_plenty:
  assumes "jaeger_vector_append z v m = Some (r, v', m')" and v: "vec_ok v" and m: "mem_ok m" "mem_plenty m"
  shows "r \<noteq> None"
proof (cases "vec_len v < vec_capacity v")
  case True
  with vec_append_room [OF v True, of z m] assms(1) show ?thesis by simp
next
  case False
  have c: "vec_len v = vec_capacity v" using v False by (auto simp: vec_ok_def)
  from assms(1) obtain ok w m1 where res: "jaeger_vector_reserve z v (vec_capacity v + 1) m = Some (ok, w, m1)"
    by (auto simp: jaeger_vector_append_def jaeger_vector_insert_def jaeger_vector_extend_def jaeger_vector_length_def c
        bind_eq_Some_conv)
  have ok by (rule vec_reserve_plenty [OF res m])
  note rs = vec_reserve_spec(1,3) [OF res v m(1)]
  have "0 \<le> vec_len v" "vec_data w \<noteq> None" using v rs(1) by (auto simp: vec_ok_def split: option.splits)
  with res \<open>ok\<close> c rs(2) assms(1) show ?thesis
    by (auto simp: jaeger_vector_append_def jaeger_vector_insert_def jaeger_vector_extend_def jaeger_vector_length_def
        jaeger_vector_offset_def bind_eq_Some_conv)
qed

lemma vec_grow_total:
  assumes "vec_ok v" and "mem_ok m" and "set (vec_ptrs v) \<subseteq> dom (mem_blocks m)" and "vec_room v (vec_capacity v + 1)"
  shows "\<exists>ok v1 m1. vec_grow z v m = Some (ok, v1, m1) \<and> (mem_plenty m \<longrightarrow> ok)"
proof -
  from vec_reserve_total [OF assms] obtain ok v1 m1 where r: "jaeger_vector_reserve z v (vec_capacity v + 1) m = Some (ok, v1, m1)" by blast
  have "0 < vec_capacity v" using assms(1) by (simp add: vec_ok_def)
  with assms(4) have "int_ok (vec_capacity v + 1)" by (simp add: vec_room_def int_ok_def INT_MAX_def)
  with r vec_reserve_plenty [OF r assms(2)] show ?thesis by (auto simp: vec_grow_def)
qed

lemma vec_insert_total:
  assumes "vec_ok v" and "mem_ok m" and "set (vec_ptrs v) \<subseteq> dom (mem_blocks m)" and "vec_room v (vec_capacity v + 1)"
    and "int n \<le> vec_len v"
  shows "\<exists>r v' m'. jaeger_vector_insert z v (int n) m = Some (r, v', m') \<and> (mem_plenty m \<longrightarrow> r \<noteq> None)"
proof -
  from vec_grow_total [OF assms(1-4)] obtain ok v1 m1 where
    g: "vec_grow z v m = Some (ok, v1, m1)" "mem_plenty m \<longrightarrow> ok" by blast
  note gs = vec_grow_spec [OF g(1) assms(1,2)]
  have c: "vec_len v \<le> vec_capacity v" "0 < vec_capacity v" "0 \<le> vec_len v" using assms(1) by (auto simp: vec_ok_def)
  with assms(4) have i: "int_ok (vec_len v + 1)" by (simp add: vec_room_def int_ok_def INT_MAX_def)
  from gs(1) obtain p sl where d: "vec_data v1 = Some (p, sl)" "length sl = nat (vec_capacity v1)" by (rule vec_okE)
  have mm: "\<exists>w. vec_memmove v1 (nat (int n + 1)) n (nat (vec_len v1 - int n)) = Some w" if ok "int n < vec_len v1"
    using that gs(3,5) d by (auto simp: vec_memmove_def)
  show ?thesis
    using g c i d(1) mm gs(3) unfolding jaeger_vector_insert_def jaeger_vector_extend_def vec_grow_def jaeger_vector_length_def jaeger_vector_offset_def
    by (cases ok) (auto simp: bind_eq_Some_conv)
qed

lemma vec_read_at: "vec_ok v \<Longrightarrow> i < length (vec_list v) \<Longrightarrow> vec_read v (Some i) = Some (vec_list v ! i)"
  by (auto simp: vec_read_def vec_list_def elim!: vec_okE)

lemma vec_write_at:
  assumes "vec_ok v" and "i < length (vec_list v)"
  shows "\<exists>w. vec_write v (Some i) x = Some w \<and> vec_ok w \<and> vec_ptrs w = vec_ptrs v \<and> vec_len w = vec_len v \<and>
    vec_capacity w = vec_capacity v \<and> vec_list w = (vec_list v)[i := x]"
  using assms by (auto simp: vec_write_def vec_list_def vec_ok_def vec_ptrs_def take_update_swap elim!: vec_okE split: option.splits)

text \<open>Giving back the last slot: \<open>vec->len--\<close>.\<close>

lemma vec_pop:
  assumes "vec_ok v" and "0 < vec_len v"
  shows "vec_ok (v\<lparr>vec_len := vec_len v - 1\<rparr>)" and "vec_list (v\<lparr>vec_len := vec_len v - 1\<rparr>) = butlast (vec_list v)"
    and "vec_ptrs (v\<lparr>vec_len := vec_len v - 1\<rparr>) = vec_ptrs v"
proof -
  from assms(1) obtain p s where d: "vec_data v = Some (p, s)" "length s = nat (vec_capacity v)" "vec_len v \<le> vec_capacity v"
    by (rule vec_okE)
  show "vec_ok (v\<lparr>vec_len := vec_len v - 1\<rparr>)" using assms by (auto simp: vec_ok_def split: option.splits)
  show "vec_ptrs (v\<lparr>vec_len := vec_len v - 1\<rparr>) = vec_ptrs v" by (simp add: vec_ptrs_def)
  have "nat (vec_len v) \<le> length s" using d by simp
  then show "vec_list (v\<lparr>vec_len := vec_len v - 1\<rparr>) = butlast (vec_list v)"
    using d assms(2) by (simp add: vec_list_def butlast_take nat_diff_distrib)
qed

lemma vec_append_giveback:
  assumes a: "jaeger_vector_append z v m = Some (r, v', m')" and v: "vec_ok v" "mem_ok m" "r \<noteq> None"
    and w: "w = v' \<or> vec_write v' r x = Some w"
  shows "vec_ok (w\<lparr>vec_len := vec_len w - 1\<rparr>)" and "vec_list (w\<lparr>vec_len := vec_len w - 1\<rparr>) = vec_list v"
    and "vec_ptrs (w\<lparr>vec_len := vec_len w - 1\<rparr>) = vec_ptrs v'"
proof -
  note sp = vec_append_spec [OF a v(1,2)]
  from sp(2) v(3) have r: "r = Some (nat (vec_len v))" "vec_ok v'" "vec_len v' = vec_len v + 1" by auto
  from sp(3) [OF v(3), of x] obtain u where u: "vec_write v' r x = Some u" "vec_ok u" "vec_ptrs u = vec_ptrs v'"
    "vec_len u = vec_len v'" "vec_list u = vec_list v @ [x]" by blast
  have l: "0 \<le> vec_len v" using v(1) by (simp add: vec_ok_def)
  have "butlast (vec_list v') = butlast (vec_list u)"
    using u(1) r l by (auto simp: vec_write_def vec_list_def bind_eq_Some_conv nat_add_distrib take_update_swap butlast_list_update
        split: if_splits option.splits)
  with u(5) have bl: "butlast (vec_list v') = vec_list v" by simp
  have pos: "0 < vec_len v'" "0 < vec_len u" using l r(3) u(4) by simp_all
  show "vec_ok (w\<lparr>vec_len := vec_len w - 1\<rparr>)" "vec_list (w\<lparr>vec_len := vec_len w - 1\<rparr>) = vec_list v"
    "vec_ptrs (w\<lparr>vec_len := vec_len w - 1\<rparr>) = vec_ptrs v'"
    using w vec_pop [OF r(2) pos(1)] vec_pop [OF u(2) pos(2)] bl u by auto
qed

text \<open>Reading back the slot a write went to.\<close>

lemma vec_read_write: "vec_write v p x = Some w \<Longrightarrow> vec_read w p = Some x"
  by (cases "vec_data v"; cases p) (auto simp: vec_write_def vec_read_def split: if_splits)

lemma take_remove_slot:
  assumes "n < k" and "k \<le> length s"
  shows "take (k - 1) (take n s @ take (k - Suc n) (drop (Suc n) s) @ drop (k - 1) s) =
    take n (take k s) @ drop (Suc n) (take k s)"
proof -
  have "k - 1 - n = k - Suc n" "n \<le> k - 1" using assms by auto
  with assms show ?thesis by (auto simp: drop_take min_def)
qed

lemma vec_remove_spec:
  assumes v: "vec_ok v"
  shows "\<exists>v'. jaeger_vector_remove v i = Some v' \<and> vec_ok v' \<and> vec_ptrs v' = vec_ptrs v \<and>
    vec_list v' = (if 0 \<le> i \<and> i < vec_len v
                   then take (nat i) (vec_list v) @ drop (Suc (nat i)) (vec_list v) else vec_list v)"
proof (cases "0 \<le> i \<and> i < vec_len v")
  case False
  with v show ?thesis by (auto simp: jaeger_vector_remove_def jaeger_vector_length_def)
next
  case True
  from v obtain p s where d: "vec_data v = Some (p, s)" "length s = nat (vec_capacity v)"
    "0 \<le> vec_len v" "vec_len v \<le> vec_capacity v" "0 < vec_capacity v" "0 < vec_type_size v"
    "vec_type_size v * vec_capacity v \<le> INT_MAX" by (rule vec_okE)
  define n k where "n = nat i" and "k = nat (vec_len v)"
  have k: "n < k" "k \<le> length s" using True d by (auto simp: n_def k_def)
  define s' where "s' = take n s @ take (k - Suc n) (drop (Suc n) s) @ drop (k - 1) s"
  have nats: "nat (i + 1) = Suc n" "nat (vec_len v - (i + 1)) = k - Suc n" "nat i = n"
    using True by (auto simp: n_def k_def)
  have ls: "length s' = length s" using k by (simp add: s'_def)
  have "jaeger_vector_remove v i = Some (v\<lparr>vec_data := Some (p, s'), vec_len := vec_len v - 1\<rparr>)"
  proof (cases "i < vec_len v - 1")
    case more: True
    have "n + (k - Suc n) = k - 1" "Suc n + (k - Suc n) \<le> length s" "n + (k - Suc n) \<le> length s"
      using k by auto
    with True more d show ?thesis
      by (simp add: jaeger_vector_remove_def jaeger_vector_length_def vec_memmove_def nats s'_def)
  next
    case False
    then have "k = Suc n" using True by (auto simp: n_def k_def)
    then have "s' = s" by (simp add: s'_def)
    with True False d show ?thesis by (simp add: jaeger_vector_remove_def jaeger_vector_length_def Let_def)
  qed
  moreover have "vec_list (v\<lparr>vec_data := Some (p, s'), vec_len := vec_len v - 1\<rparr>) =
      take n (vec_list v) @ drop (Suc n) (vec_list v)"
    using take_remove_slot [OF k] d(1) True by (simp add: vec_list_def s'_def k_def nat_diff_distrib)
  ultimately show ?thesis
    using True d ls by (auto simp: vec_ok_def vec_ptrs_def n_def)
qed

lemma vec_destroy_spec:
  assumes "mem_ok m" and "set (vec_ptrs v) \<subseteq> dom (mem_blocks m)"
  obtains m' where "jaeger_vector_destroy v m = Some (JAEGERTRACINGC_VECTOR_INIT, m')"
    and "mem_trans (set (vec_ptrs v)) {} m m'"
proof (cases "vec_data v")
  case None
  with assms that [of m] show thesis
    by (simp add: jaeger_vector_destroy_def JAEGERTRACINGC_VECTOR_INIT_def vec_ptrs_def)
next
  case (Some a)
  then obtain p s where d: "vec_data v = Some (p, s)" by (cases a) auto
  then have "p \<in> dom (mem_blocks m)" using assms(2) by (simp add: vec_ptrs_def)
  with assms(1) obtain m' where "jaeger_free (Some p) m = Some m'" "mem_trans {p} {} m m'"
    by (rule jaeger_free_live)
  with d that [of m'] show thesis
    by (simp add: jaeger_vector_destroy_def JAEGERTRACINGC_VECTOR_INIT_def vec_ptrs_def)
qed

section \<open>Copying\<close>

text \<open>The slots behind the last element.\<close>

definition vec_free :: "'a jaeger_vector \<Rightarrow> 'a list" where
  "vec_free v = (case vec_data v of None \<Rightarrow> [] | Some (_, s) \<Rightarrow> drop (nat (vec_len v)) s)"

lemma vec_reserve_free:
  assumes "jaeger_vector_reserve z v n m = Some (True, v', m')" and "vec_ok v"
  shows "set (vec_free v') \<subseteq> insert z (set (vec_free v))"
proof -
  from assms(2) obtain p s where d: "vec_data v = Some (p, s)" "length s = nat (vec_capacity v)"
    "0 \<le> vec_len v" "vec_len v \<le> vec_capacity v" by (rule vec_okE)
  with assms(1) show ?thesis
    by (auto simp: jaeger_vector_reserve_def vec_free_def Let_def bind_eq_Some_conv
        split: if_splits option.splits)
qed

lemma vec_init_free:
  "jaeger_vector_init z ts v m = Some (True, v', m') \<Longrightarrow> vec_free v' = replicate 10 z"
  by (auto simp: jaeger_vector_init_def vec_free_def bind_eq_Some_conv JAEGERTRACINGC_VECTOR_INIT_CAPACITY_def
      split: prod.splits option.splits)

text \<open>Appending an element: claim a slot, write through the returned pointer.\<close>

lemma vec_append_write:
  assumes v: "vec_ok v" and r: "vec_len v < vec_capacity v"
  obtains old rest where "vec_free v = old # rest"
    and "vec_read (v\<lparr>vec_len := vec_len v + 1\<rparr>) (Some (nat (vec_len v))) = Some old"
    and "\<And>x. \<exists>w. vec_write (v\<lparr>vec_len := vec_len v + 1\<rparr>) (Some (nat (vec_len v))) x = Some w \<and> vec_ok w \<and>
      vec_ptrs w = vec_ptrs v \<and> vec_len w = vec_len v + 1 \<and> vec_capacity w = vec_capacity v \<and>
      vec_type_size w = vec_type_size v \<and> vec_list w = vec_list v @ [x] \<and> vec_free w = rest \<and>
      vec_ok (w\<lparr>vec_len := vec_len w - 1\<rparr>) \<and> vec_list (w\<lparr>vec_len := vec_len w - 1\<rparr>) = vec_list v \<and>
      vec_ptrs (w\<lparr>vec_len := vec_len w - 1\<rparr>) = vec_ptrs v"
proof -
  from v obtain p s where d: "vec_data v = Some (p, s)" "length s = nat (vec_capacity v)"
    "0 \<le> vec_len v" "0 < vec_type_size v" "vec_type_size v * vec_capacity v \<le> INT_MAX" by (rule vec_okE)
  define n where "n = nat (vec_len v)"
  have n: "n < length s" "nat (vec_len v + 1) = Suc n" using d r by (auto simp: n_def)
  show thesis
  proof (rule that [of "s ! n" "drop (Suc n) s"])
    show "vec_free v = s ! n # drop (Suc n) s"
      using d n by (simp add: vec_free_def Cons_nth_drop_Suc flip: n_def)
    show "vec_read (v\<lparr>vec_len := vec_len v + 1\<rparr>) (Some (nat (vec_len v))) = Some (s ! n)"
      using d n by (simp add: vec_read_def flip: n_def)
    show "\<exists>w. vec_write (v\<lparr>vec_len := vec_len v + 1\<rparr>) (Some (nat (vec_len v))) x = Some w \<and> vec_ok w \<and>
      vec_ptrs w = vec_ptrs v \<and> vec_len w = vec_len v + 1 \<and> vec_capacity w = vec_capacity v \<and>
      vec_type_size w = vec_type_size v \<and> vec_list w = vec_list v @ [x] \<and> vec_free w = drop (Suc n) s \<and>
      vec_ok (w\<lparr>vec_len := vec_len w - 1\<rparr>) \<and> vec_list (w\<lparr>vec_len := vec_len w - 1\<rparr>) = vec_list v \<and>
      vec_ptrs (w\<lparr>vec_len := vec_len w - 1\<rparr>) = vec_ptrs v" for x
      using d n r v
      by (intro exI [of _ "v\<lparr>vec_len := vec_len v + 1, vec_data := Some (p, s[n := x])\<rparr>"])
        (auto simp: vec_write_def vec_ok_def vec_ptrs_def vec_list_def vec_free_def take_Suc_conv_app_nth
          n_def)
  qed
qed

lemma vec_append_slot:
  assumes "vec_ok v" and "vec_len v < vec_capacity v"
  shows "\<exists>old. vec_read (v\<lparr>vec_len := vec_len v + 1\<rparr>) (Some (nat (vec_len v))) = Some old"
    and "\<exists>w. vec_write (v\<lparr>vec_len := vec_len v + 1\<rparr>) (Some (nat (vec_len v))) x = Some w \<and> vec_ok w \<and>
      vec_ptrs w = vec_ptrs v \<and> vec_len w = vec_len v + 1 \<and> vec_capacity w = vec_capacity v \<and> vec_list w = vec_list v @ [x]"
  by (rule vec_append_write [OF assms], blast)+

lemma vec_sort_spec:
  assumes "vec_ok v" and "length (f (vec_list v)) = length (vec_list v)"
  shows "vec_ok (jaeger_vector_sort f v)" and "vec_list (jaeger_vector_sort f v) = f (vec_list v)" and "vec_ptrs (jaeger_vector_sort f v) = vec_ptrs v"
proof -
  from assms(1) obtain p slots where d: "vec_data v = Some (p, slots)" "length slots = nat (vec_capacity v)" "vec_len v \<le> vec_capacity v"
    "0 \<le> vec_len v" by (rule vec_okE)
  have l: "vec_list v = take (nat (vec_len v)) slots" "length (f (take (nat (vec_len v)) slots)) = nat (vec_len v)"
    using assms(2) d by (simp_all add: vec_list_def)
  have s: "jaeger_vector_sort f v = v\<lparr>vec_data := Some (p, f (take (nat (vec_len v)) slots) @ drop (nat (vec_len v)) slots)\<rparr>"
    using d(1) by (simp add: jaeger_vector_sort_def jaeger_vector_length_def Let_def)
  show "vec_ok (jaeger_vector_sort f v)" using assms(1) d l(2) unfolding s by (simp add: vec_ok_def)
  show "vec_list (jaeger_vector_sort f v) = f (vec_list v)" using l unfolding s by (simp add: vec_list_def)
  show "vec_ptrs (jaeger_vector_sort f v) = vec_ptrs v" using d(1) unfolding s by (simp add: vec_ptrs_def)
qed

text \<open>What the loops over a vector's elements rely on: a destructor that releases what an element owns.\<close>

locale element_destroy =
  fixes destroy :: "'a \<Rightarrow> mem \<Rightarrow> ('a \<times> mem) option"
    and ptrs :: "'a \<Rightarrow> ptr list"
    and elem_ok :: "'a \<Rightarrow> bool"
  assumes destroy_law: "mem_ok m \<Longrightarrow> elem_ok x \<Longrightarrow> owns m (ptrs x) \<Longrightarrow>
      \<exists>x' m'. destroy x m = Some (x', m') \<and> mem_trans (set (ptrs x)) {} m m'"
begin

definition list_ptrs :: "'a list \<Rightarrow> ptr list" where
  "list_ptrs xs = concat (map ptrs xs)"

lemma for_each_destroy:
  assumes "mem_ok m" and "owns m (list_ptrs xs)" and "\<forall>x\<in>set xs. elem_ok x"
  shows "\<exists>m'. vector_for_each_destroy destroy xs m = Some m' \<and> mem_trans (set (list_ptrs xs)) {} m m'"
  using assms
proof (induction xs arbitrary: m)
  case Nil
  then show ?case by (simp add: list_ptrs_def)
next
  case (Cons x xs)
  have o: "owns m (ptrs x)" "owns m (list_ptrs xs)" "set (list_ptrs xs) \<inter> set (ptrs x) = {}"
    using Cons.prems(2) by (auto simp: list_ptrs_def own_simps)
  from destroy_law [OF Cons.prems(1) _ o(1)] Cons.prems(3) obtain x' m1 where
    d: "destroy x m = Some (x', m1)" "mem_trans (set (ptrs x)) {} m m1" by auto
  from Cons.IH [OF mem_trans_ok [OF d(2)] owns_frame(1) [OF d(2) o(2,3)]] Cons.prems(3) obtain m' where
    ih: "vector_for_each_destroy destroy xs m1 = Some m'" "mem_trans (set (list_ptrs xs)) {} m1 m'" by auto
  have "mem_trans (set (ptrs x) \<union> set (list_ptrs xs)) (set (list_ptrs xs)) m m1"
    using mem_trans_frame [OF d(2), of "set (list_ptrs xs)"] o by (simp add: owns_def)
  from mem_trans_trans [OF this ih(2) Cons.prems(1)] d(1) ih(1) show ?case
    by (auto simp: list_ptrs_def)
qed

lemma destroy_vector_elements:
  assumes "mem_ok m" and "owns m (vec_ptrs v @ list_ptrs (vec_list v))" and "\<forall>x\<in>set (vec_list v). elem_ok x"
  shows "\<exists>m1 m2. vector_for_each_destroy destroy (vec_list v) m = Some m1 \<and>
    jaeger_vector_destroy v m1 = Some (JAEGERTRACINGC_VECTOR_INIT, m2) \<and>
    mem_trans (set (vec_ptrs v @ list_ptrs (vec_list v))) {} m m2"
proof -
  have o: "owns m (list_ptrs (vec_list v))" "owns m (vec_ptrs v)"
    "set (vec_ptrs v) \<inter> set (list_ptrs (vec_list v)) = {}" using assms(2) by (auto simp: own_simps)
  from for_each_destroy [OF assms(1) o(1) assms(3)] obtain m1 where
    f: "vector_for_each_destroy destroy (vec_list v) m = Some m1"
    "mem_trans (set (list_ptrs (vec_list v))) {} m m1" by blast
  have "owns m1 (vec_ptrs v)" using owns_frame(1) [OF f(2) o(2)] o(3) by blast
  then obtain m2 where d: "jaeger_vector_destroy v m1 = Some (JAEGERTRACINGC_VECTOR_INIT, m2)"
    "mem_trans (set (vec_ptrs v)) {} m1 m2"
    using vec_destroy_spec [OF mem_trans_ok [OF f(2)]] by (metis owns_def)
  have "mem_trans (set (list_ptrs (vec_list v)) \<union> set (vec_ptrs v)) (set (vec_ptrs v)) m m1"
    using mem_trans_frame [OF f(2), of "set (vec_ptrs v)"] o by (auto simp: owns_def)
  from mem_trans_trans [OF this d(2) assms(1)] f(1) d(1) show ?thesis by (auto simp: Un_commute)
qed

end

text \<open>
  What the vector's copying functions rely on: an element copier that, on a slot holding \<open>blank\<close>
  bytes, either makes a faithful copy that owns new blocks only, or fails without leaking, and only
  when an allocation failed; and a destructor that releases what an element owns.  \<open>good\<close> is the set of
  heaps the copier promises this for: every heap, or only those where no allocation fails.
\<close>

locale element_copy =
  fixes good :: "mem \<Rightarrow> bool"
    and copy :: "'a \<Rightarrow> 'b \<Rightarrow> mem \<Rightarrow> (bool \<times> 'a \<times> mem) option"
    and destroy :: "'a \<Rightarrow> mem \<Rightarrow> ('a \<times> mem) option"
    and ptrs :: "'a \<Rightarrow> ptr list"
    and elem_ok :: "'a \<Rightarrow> bool"
    and src_ok :: "'b \<Rightarrow> bool"
    and blank :: "'a \<Rightarrow> bool"
    and same :: "'b \<Rightarrow> 'a \<Rightarrow> bool"
  assumes good_ok: "good m \<Longrightarrow> mem_ok m"
    and good_trans: "good m \<Longrightarrow> mem_trans A B m m' \<Longrightarrow> good m'"
    and copy_total: "good m \<Longrightarrow> src_ok s \<Longrightarrow> blank old \<Longrightarrow> \<exists>ok x m'. copy old s m = Some (ok, x, m')"
    and copy_True: "copy old s m = Some (True, x, m') \<Longrightarrow> good m \<Longrightarrow> src_ok s \<Longrightarrow> blank old \<Longrightarrow>
      same s x \<and> elem_ok x \<and> distinct (ptrs x) \<and> mem_trans {} (set (ptrs x)) m m'"
    and copy_False: "copy old s m = Some (False, x, m') \<Longrightarrow> good m \<Longrightarrow> src_ok s \<Longrightarrow> blank old \<Longrightarrow>
      mem_trans {} {} m m' \<and> \<not> mem_plenty m"
    and destroy_ok: "mem_ok m \<Longrightarrow> elem_ok x \<Longrightarrow> owns m (ptrs x) \<Longrightarrow>
      \<exists>x' m'. destroy x m = Some (x', m') \<and> mem_trans (set (ptrs x)) {} m m'"

sublocale element_copy \<subseteq> element_destroy destroy ptrs elem_ok
  using destroy_ok by unfold_locales

context element_copy
begin

lemma copy_loop:
  assumes "vec_ok dst" and "good m" and "\<forall>x\<in>set (vec_free dst). blank x" and "\<forall>s\<in>set srcs. src_ok s"
    and "vec_len dst + int (length srcs) \<le> vec_capacity dst"
  shows "\<exists>ok dst' m' xs. vector_copy_loop z copy srcs dst m = Some (ok, dst', m') \<and> vec_ok dst' \<and>
    vec_ptrs dst' = vec_ptrs dst \<and> vec_list dst' = vec_list dst @ xs \<and>
    list_all2 same (take (length xs) srcs) xs \<and> (ok \<longleftrightarrow> length xs = length srcs) \<and>
    distinct (list_ptrs xs) \<and> mem_trans {} (set (list_ptrs xs)) m m' \<and> vec_type_size dst' = vec_type_size dst \<and>
    (\<forall>x\<in>set xs. elem_ok x) \<and> (mem_plenty m \<longrightarrow> ok)"
  using assms
proof (induction srcs arbitrary: dst m)
  case Nil
  then show ?case using good_ok by (auto simp: list_ptrs_def intro!: exI [of _ "[]"])
next
  case (Cons s srcs)
  have r: "vec_len dst < vec_capacity dst" using Cons.prems(5) by simp
  from vec_append_write [OF Cons.prems(1) r] obtain old rest where
    fr: "vec_free dst = old # rest"
    and rd: "vec_read (dst\<lparr>vec_len := vec_len dst + 1\<rparr>) (Some (nat (vec_len dst))) = Some old"
    and wr: "\<And>x. \<exists>w. vec_write (dst\<lparr>vec_len := vec_len dst + 1\<rparr>) (Some (nat (vec_len dst))) x = Some w \<and> vec_ok w \<and>
      vec_ptrs w = vec_ptrs dst \<and> vec_len w = vec_len dst + 1 \<and> vec_capacity w = vec_capacity dst \<and>
      vec_type_size w = vec_type_size dst \<and> vec_list w = vec_list dst @ [x] \<and> vec_free w = rest \<and>
      vec_ok (w\<lparr>vec_len := vec_len w - 1\<rparr>) \<and> vec_list (w\<lparr>vec_len := vec_len w - 1\<rparr>) = vec_list dst \<and>
      vec_ptrs (w\<lparr>vec_len := vec_len w - 1\<rparr>) = vec_ptrs dst" by blast
  have b: "blank old" "src_ok s" using Cons.prems(3,4) fr by auto
  from copy_total [OF Cons.prems(2) b(2,1)] obtain ok x m1 where c: "copy old s m = Some (ok, x, m1)" by blast
  from wr [of x] obtain w where w: "vec_write (dst\<lparr>vec_len := vec_len dst + 1\<rparr>) (Some (nat (vec_len dst))) x = Some w"
    "vec_ok w" "vec_ptrs w = vec_ptrs dst" "vec_len w = vec_len dst + 1" "vec_capacity w = vec_capacity dst"
    "vec_type_size w = vec_type_size dst"
    "vec_list w = vec_list dst @ [x]" "vec_free w = rest"
    "vec_ok (w\<lparr>vec_len := vec_len w - 1\<rparr>)" "vec_list (w\<lparr>vec_len := vec_len w - 1\<rparr>) = vec_list dst"
    "vec_ptrs (w\<lparr>vec_len := vec_len w - 1\<rparr>) = vec_ptrs dst" by blast
  have step: "vector_copy_loop z copy (s # srcs) dst m =
      (if ok then vector_copy_loop z copy srcs w m1 else Some (False, w\<lparr>vec_len := vec_len w - 1\<rparr>, m1))"
    using vec_append_room [OF Cons.prems(1) r, of z m] rd c w(1) by simp
  show ?case
  proof (cases ok)
    case False
    then have "mem_trans {} {} m m1 \<and> \<not> mem_plenty m" using copy_False c Cons.prems(2) b by auto
    with False step w(6) w(9-11) show ?thesis
      by (intro exI [of _ False] exI [of _ "w\<lparr>vec_len := vec_len w - 1\<rparr>"] exI [of _ m1] exI [of _ "[]"])
        (simp add: list_ptrs_def)
  next
    case True
    then have x: "same s x" "distinct (ptrs x)" "mem_trans {} (set (ptrs x)) m m1" "elem_ok x"
      using copy_True [of old s m x m1] c Cons.prems(2) b by auto
    have "\<forall>x\<in>set (vec_free w). blank x" using Cons.prems(3) fr w(8) by simp
    moreover have "vec_len w + int (length srcs) \<le> vec_capacity w" using Cons.prems(5) w(4,5) by simp
    ultimately obtain ok' dst' m' xs where ih: "vector_copy_loop z copy srcs w m1 = Some (ok', dst', m')"
      "vec_ok dst'" "vec_ptrs dst' = vec_ptrs w" "vec_list dst' = vec_list w @ xs"
      "list_all2 same (take (length xs) srcs) xs" "ok' \<longleftrightarrow> length xs = length srcs"
      "distinct (list_ptrs xs)" "mem_trans {} (set (list_ptrs xs)) m1 m'" "vec_type_size dst' = vec_type_size w"
      "\<forall>x\<in>set xs. elem_ok x" "mem_plenty m1 \<longrightarrow> ok'"
      using Cons.IH [OF w(2) good_trans [OF Cons.prems(2) x(3)]] Cons.prems(4) by auto
    note two = mem_trans_alloc2 [OF x(3) ih(8) good_ok [OF Cons.prems(2)]] mem_plenty_trans [OF x(3)]
    show ?thesis
      by (intro exI [of _ ok'] exI [of _ dst'] exI [of _ m'] exI [of _ "x # xs"])
        (use True step ih two x w in \<open>simp add: list_ptrs_def\<close>)
  qed
qed

text \<open>A whole vector: faithful copy, or a shorter prefix and no leak beyond it.\<close>

lemma vector_copy:
  assumes dst: "vec_ok dst" "vec_len dst = 0" "\<forall>x\<in>set (vec_free dst). blank x" "blank z"
    and src: "vec_ok src" "\<forall>s\<in>set (vec_list src). src_ok s"
    and g: "good m" and m: "set (vec_ptrs dst) \<subseteq> dom (mem_blocks m)" "vec_room dst (vec_len src)"
  shows "\<exists>ok dst' m' xs. jaeger_vector_copy z dst src copy m = Some (ok, dst', m') \<and> vec_ok dst' \<and>
    vec_type_size dst' = vec_type_size dst \<and> vec_list dst' = xs \<and> list_all2 same (take (length xs) (vec_list src)) xs \<and>
    (ok \<longrightarrow> length xs = length (vec_list src)) \<and> distinct (list_ptrs xs) \<and> (\<forall>x\<in>set xs. elem_ok x) \<and>
    set (vec_ptrs dst') \<inter> set (list_ptrs xs) = {} \<and>
    mem_trans (set (vec_ptrs dst)) (set (vec_ptrs dst') \<union> set (list_ptrs xs)) m m' \<and> (mem_plenty m \<longrightarrow> ok)"
proof -
  note m = good_ok [OF g] m
  from vec_reserve_total [OF dst(1) m] obtain ok v1 m1 where
    r: "jaeger_vector_reserve z dst (vec_len src) m = Some (ok, v1, m1)" by blast
  note rs = vec_reserve_spec [OF r dst(1) m(1)]
  have mt: "mem_trans (set (vec_ptrs dst)) (set (vec_ptrs v1)) m m1" using rs(7) m(2) by blast
  have e: "vec_list dst = []" using dst(1,2) by (auto simp: vec_list_def split: option.split)
  have ls: "int (length (vec_list src)) = vec_len src" by (rule length_vec_list [OF src(1)])
  show ?thesis
  proof (cases ok)
    case False
    with r rs(2) e dst(2) have "jaeger_vector_copy z dst src copy m = Some (False, v1, m1)"
      by (simp add: jaeger_vector_copy_def jaeger_vector_length_def)
    with rs e mt False vec_reserve_plenty [OF r m(1)] show ?thesis
      by (intro exI [of _ False] exI [of _ v1] exI [of _ m1] exI [of _ "[]"]) (auto simp: list_ptrs_def)
  next
    case True
    have "\<forall>x\<in>set (vec_free v1). blank x"
      using vec_reserve_free [OF r [unfolded True [THEN eqTrueI]] dst(1)] dst(3,4) by auto
    moreover have "vec_len v1 + int (length (vec_list src)) \<le> vec_capacity v1"
      using rs(3,5) True dst(2) ls by simp
    ultimately obtain ok' dst' m' xs where c: "vector_copy_loop z copy (vec_list src) v1 m1 = Some (ok', dst', m')"
      "vec_ok dst'" "vec_ptrs dst' = vec_ptrs v1" "vec_list dst' = vec_list v1 @ xs"
      "list_all2 same (take (length xs) (vec_list src)) xs" "ok' \<longleftrightarrow> length xs = length (vec_list src)"
      "distinct (list_ptrs xs)" "mem_trans {} (set (list_ptrs xs)) m1 m'" "vec_type_size dst' = vec_type_size v1"
      "\<forall>x\<in>set xs. elem_ok x" "mem_plenty m1 \<longrightarrow> ok'"
      using copy_loop [OF rs(1) good_trans [OF g mt] _ src(2)] by blast
    have sub: "set (vec_ptrs v1) \<subseteq> dom (mem_blocks m1)" using mem_trans_dom [OF mt] by auto
    then have fr: "mem_trans (set (vec_ptrs v1)) (set (list_ptrs xs) \<union> set (vec_ptrs v1)) m1 m'"
      using mem_trans_frame [OF c(8)] by simp
    have d: "set (vec_ptrs v1) \<inter> set (list_ptrs xs) = {}" using mem_trans_disj [OF c(8)] sub by auto
    have ts: "vec_type_size dst' = vec_type_size dst"
      using c(9) rs(4) by simp
    have "vec_data src \<noteq> None" using src(1) by (auto elim!: vec_okE)
    with r True c(1) dst(2) have "jaeger_vector_copy z dst src copy m = Some (ok', dst', m')"
      by (simp add: jaeger_vector_copy_def jaeger_vector_length_def)
    with c d ts rs(2) e mem_trans_trans [OF mt fr m(1)] mem_plenty_trans [OF mt] show ?thesis
      by (intro exI [of _ ok'] exI [of _ dst'] exI [of _ m'] exI [of _ xs]) (simp add: Un_commute)
  qed
qed

lemma vector_copy_plenty:
  assumes dst: "vec_ok dst" "vec_len dst = 0" "vec_free dst = replicate k z" "blank z"
    and src: "vec_ok src" "\<forall>s\<in>set (vec_list src). src_ok s"
    and g: "good m" and m: "owns m (vec_ptrs dst)" "vec_room dst (vec_len src)" "mem_plenty m"
  obtains dst' m' where "jaeger_vector_copy z dst src copy m = Some (True, dst', m')" and "vec_ok dst'"
    and "list_all2 same (vec_list src) (vec_list dst')" and "\<forall>x\<in>set (vec_list dst'). elem_ok x"
    and "distinct (vec_ptrs dst' @ concat (map ptrs (vec_list dst')))"
    and "mem_trans (set (vec_ptrs dst)) (set (vec_ptrs dst' @ concat (map ptrs (vec_list dst')))) m m'"
proof -
  have "\<forall>x\<in>set (vec_free dst). blank x" "set (vec_ptrs dst) \<subseteq> dom (mem_blocks m)"
    using dst(3,4) m(1) by (auto simp: owns_def)
  from vector_copy [OF dst(1,2) this(1) dst(4) src g this(2) m(2)] m(3) obtain dst' m' where
    c: "jaeger_vector_copy z dst src copy m = Some (True, dst', m')" "vec_ok dst'"
    "list_all2 same (take (length (vec_list dst')) (vec_list src)) (vec_list dst')"
    "length (vec_list dst') = length (vec_list src)" "distinct (list_ptrs (vec_list dst'))" "\<forall>x\<in>set (vec_list dst'). elem_ok x"
    "set (vec_ptrs dst') \<inter> set (list_ptrs (vec_list dst')) = {}"
    "mem_trans (set (vec_ptrs dst)) (set (vec_ptrs dst') \<union> set (list_ptrs (vec_list dst'))) m m'" by auto
  have "distinct (vec_ptrs dst')" by (auto simp: vec_ptrs_def split: option.split)
  with c that [of dst' m'] show thesis by (simp add: list_ptrs_def)
qed

end

text \<open>
  Vectors of pointers: the helper that allocates a block for the copy is itself an element copier,
  so everything proved of copying and destroying holds for vectors of pointers too.
\<close>

definition slot_ptrs :: "('a \<Rightarrow> ptr list) \<Rightarrow> (ptr \<times> 'a) option \<Rightarrow> ptr list" where
  "slot_ptrs ptrs s = (case s of None \<Rightarrow> [] | Some (p, x) \<Rightarrow> p # ptrs x)"

definition slot_ok :: "('a \<Rightarrow> bool) \<Rightarrow> (ptr \<times> 'a) option \<Rightarrow> bool" where
  "slot_ok elem_ok s = (case s of None \<Rightarrow> True | Some (p, x) \<Rightarrow> elem_ok x)"

definition slot_same :: "('b \<Rightarrow> 'a \<Rightarrow> bool) \<Rightarrow> 'b \<Rightarrow> (ptr \<times> 'a) option \<Rightarrow> bool" where
  "slot_same same b s = (case s of None \<Rightarrow> False | Some (p, x) \<Rightarrow> same b x)"

text \<open>The blocks of a message's array of \<open>n\<close> pointers.\<close>

definition array_ptrs :: "('a \<Rightarrow> ptr list) \<Rightarrow> (ptr \<times> (ptr \<times> 'a) option list) option \<Rightarrow> nat \<Rightarrow> ptr list" where
  "array_ptrs ptrs arr n =
     (case arr of None \<Rightarrow> [] | Some (p, slots) \<Rightarrow> p # concat (map (slot_ptrs ptrs) (take n slots)))"

lemma array_ptrs_None [simp]: "array_ptrs ptrs None n = []"
  by (simp add: array_ptrs_def)

context element_destroy
begin

lemma ptr_destroy:
  assumes "mem_ok m" and "owns m (slot_ptrs ptrs s)" and "slot_ok elem_ok s"
  shows "\<exists>s' m'. dst_vector_alloc_free destroy s m = Some (s', m') \<and> mem_trans (set (slot_ptrs ptrs s)) {} m m'"
proof (cases s)
  case None
  with assms show ?thesis by (simp add: dst_vector_alloc_free_def slot_ptrs_def)
next
  case (Some a)
  then obtain p x where s: "s = Some (p, x)" by (cases a) auto
  then have o: "p \<in> dom (mem_blocks m)" "p \<notin> set (ptrs x)" "owns m (ptrs x)"
    using assms(2) by (auto simp: slot_ptrs_def own_simps)
  have "elem_ok x" using assms(3) s by (simp add: slot_ok_def)
  from destroy_law [OF assms(1) this o(3)] obtain x' m1 where
    d: "destroy x m = Some (x', m1)" "mem_trans (set (ptrs x)) {} m m1" by blast
  have fr: "mem_trans (set (ptrs x) \<union> {p}) {p} m m1" using mem_trans_frame [OF d(2), of "{p}"] o by auto
  then have "p \<in> dom (mem_blocks m1)" using mem_trans_dom by blast
  then obtain m2 where f: "jaeger_free (Some p) m1 = Some m2" "mem_trans {p} {} m1 m2"
    using jaeger_free_live [OF mem_trans_ok [OF d(2)]] by blast
  from mem_trans_trans [OF fr f(2) assms(1)] s d(1) f(1) show ?thesis
    by (auto simp: dst_vector_alloc_free_def slot_ptrs_def)
qed

end

locale element_ptr_copy = element_copy good copy destroy ptrs elem_ok src_ok blank same
  for good and copy :: "'a \<Rightarrow> 'b \<Rightarrow> mem \<Rightarrow> (bool \<times> 'a \<times> mem) option" and destroy and ptrs and elem_ok and src_ok and blank and same +
  fixes value_size :: nat and z :: 'a
  assumes blank_z: "blank z"
begin

lemma ptr_copy_total:
  assumes g: "good m" and "src_ok b"
  shows "\<exists>ok s m'. jaeger_vector_ptr_copy_helper value_size z copy old b m = Some (ok, s, m') \<and>
    (ok \<longrightarrow> slot_same same b s \<and> slot_ok elem_ok s \<and> distinct (slot_ptrs ptrs s) \<and> mem_trans {} (set (slot_ptrs ptrs s)) m m') \<and>
    (\<not> ok \<longrightarrow> mem_trans {} {} m m' \<and> \<not> mem_plenty m)"
proof (cases "jaeger_malloc value_size m")
  case (Pair r m1)
  note m = good_ok [OF g]
  show ?thesis
  proof (cases r)
    case None
    with Pair m jaeger_malloc_plenty [OF m] show ?thesis
      by (auto simp: jaeger_vector_ptr_copy_helper_def dest: jaeger_malloc_NoneD)
  next
    case (Some p)
    have a: "mem_trans {} {p} m m1" using Pair Some jaeger_malloc_SomeD(1) m by blast
    note ok1 = good_trans [OF g a]
    from copy_total [OF ok1 assms(2) blank_z] obtain ok x m2 where
      c: "copy z b m1 = Some (ok, x, m2)" by blast
    have p1: "p \<in> dom (mem_blocks m1)" using mem_trans_dom [OF a] by auto
    show ?thesis
    proof (cases ok)
      case True
      with c have x: "same b x" "distinct (ptrs x)" "mem_trans {} (set (ptrs x)) m1 m2" "elem_ok x"
        using copy_True [OF _ ok1 assms(2) blank_z] by auto
      note two = mem_trans_alloc2 [OF a x(3) m]
      have "jaeger_vector_ptr_copy_helper value_size z copy old b m = Some (True, Some (p, x), m2)"
        using Pair Some c True by (simp add: jaeger_vector_ptr_copy_helper_def)
      then show ?thesis
        by (intro exI [of _ True] exI [of _ "Some (p, x)"] exI [of _ m2])
          (use two x in \<open>simp add: slot_same_def slot_ok_def slot_ptrs_def\<close>)
    next
      case False
      with c have n: "mem_trans {} {} m1 m2" and np: "\<not> mem_plenty m"
        using copy_False [OF _ ok1 assms(2) blank_z] mem_plenty_trans [OF a] by auto
      then have "p \<in> dom (mem_blocks m2)" using mem_trans_dom p1 by auto
      then obtain m3 where f: "jaeger_free (Some p) m2 = Some m3" "mem_trans {p} {} m2 m3"
        using jaeger_free_live [OF mem_trans_ok [OF n]] by blast
      have "mem_trans {} {p} m m2" using mem_trans_alloc2 [OF a n m] by simp
      from mem_trans_trans [OF this f(2) m] np Pair Some c False f(1) show ?thesis
        by (intro exI [of _ False]) (simp add: jaeger_vector_ptr_copy_helper_def)
    qed
  qed
qed

end

sublocale element_ptr_copy \<subseteq> slot: element_copy good "jaeger_vector_ptr_copy_helper value_size z copy"
  "dst_vector_alloc_free destroy" "slot_ptrs ptrs" "slot_ok elem_ok" src_ok "\<lambda>_. True" "slot_same same"
proof
  fix m :: mem and b and s x :: "(ptr \<times> 'a) option" and old and m' A B
  show "good m \<Longrightarrow> mem_ok m" "good m \<Longrightarrow> mem_trans A B m m' \<Longrightarrow> good m'" using good_ok good_trans by auto
  show "\<exists>ok x m'. jaeger_vector_ptr_copy_helper value_size z copy old b m = Some (ok, x, m')" if "good m" and "src_ok b"
    using ptr_copy_total [OF that] by blast
  show "slot_same same b x \<and> slot_ok elem_ok x \<and> distinct (slot_ptrs ptrs x) \<and> mem_trans {} (set (slot_ptrs ptrs x)) m m'"
    if "jaeger_vector_ptr_copy_helper value_size z copy old b m = Some (True, x, m')" and "good m" and "src_ok b"
    using ptr_copy_total [OF that(2,3), of old] that(1) by auto
  show "mem_trans {} {} m m' \<and> \<not> mem_plenty m"
    if "jaeger_vector_ptr_copy_helper value_size z copy old b m = Some (False, x, m')" and "good m" and "src_ok b"
    using ptr_copy_total [OF that(2,3), of old] that(1) by auto
  show "\<exists>s' m'. dst_vector_alloc_free destroy s m = Some (s', m') \<and> mem_trans (set (slot_ptrs ptrs s)) {} m m'"
    if "mem_ok m" and "slot_ok elem_ok s" and "owns m (slot_ptrs ptrs s)"
    using ptr_destroy [OF that(1,3,2)] .
qed

context element_ptr_copy
begin

text \<open>
  \<open>jaeger_vector_ptr_copy\<close>: on success every source element has its own block with a faithful copy; on
  failure every block made on the way has been released.
\<close>

lemma vector_ptr_copy:
  assumes dst: "vec_ok dst" "vec_len dst = 0" "vec_type_size dst = SIZEOF_PTR"
    and src: "vec_ok src" "\<forall>s\<in>set (vec_list src). src_ok s"
    and g: "good m" and m: "set (vec_ptrs dst) \<subseteq> dom (mem_blocks m)" "vec_room dst (vec_len src)"
  shows "\<exists>ok dst' m'. jaeger_vector_ptr_copy dst src value_size z copy destroy m = Some (ok, dst', m') \<and> vec_ok dst' \<and>
    (ok \<longrightarrow> list_all2 (slot_same same) (vec_list src) (vec_list dst') \<and> (\<forall>x\<in>set (vec_list dst'). slot_ok elem_ok x) \<and>
      distinct (vec_ptrs dst' @ slot.list_ptrs (vec_list dst')) \<and>
      mem_trans (set (vec_ptrs dst)) (set (vec_ptrs dst' @ slot.list_ptrs (vec_list dst'))) m m') \<and>
    (\<not> ok \<longrightarrow> mem_trans (set (vec_ptrs dst)) (set (vec_ptrs dst')) m m' \<and> \<not> mem_plenty m)"
proof -
  from slot.vector_copy [OF dst(1,2) _ _ src g m, of None] obtain ok dst' m1 where
    c: "jaeger_vector_copy None dst src (jaeger_vector_ptr_copy_helper value_size z copy) m = Some (ok, dst', m1)"
    "vec_ok dst'" "list_all2 (slot_same same) (take (length (vec_list dst')) (vec_list src)) (vec_list dst')"
    "ok \<longrightarrow> length (vec_list dst') = length (vec_list src)" "distinct (slot.list_ptrs (vec_list dst'))"
    "\<forall>x\<in>set (vec_list dst'). slot_ok elem_ok x" "set (vec_ptrs dst') \<inter> set (slot.list_ptrs (vec_list dst')) = {}"
    "mem_trans (set (vec_ptrs dst)) (set (vec_ptrs dst') \<union> set (slot.list_ptrs (vec_list dst'))) m m1"
    "mem_plenty m \<longrightarrow> ok" by auto
  have dv: "distinct (vec_ptrs dst')" by (auto simp: vec_ptrs_def split: option.split)
  show ?thesis
  proof (cases ok)
    case True
    then show ?thesis
      by (intro exI [of _ True] exI [of _ dst'] exI [of _ m1])
        (use c dv dst(3) in \<open>simp add: jaeger_vector_ptr_copy_def\<close>)
  next
    case False
    have o: "owns m1 (slot.list_ptrs (vec_list dst'))" using c(5,8) by (auto simp: owns_def mem_trans_def)
    from slot.for_each_destroy [OF mem_trans_ok [OF c(8)] o c(6)] obtain m2 where
      f: "vector_for_each_destroy (dst_vector_alloc_free destroy) (vec_list dst') m1 = Some m2"
      "mem_trans (set (slot.list_ptrs (vec_list dst'))) {} m1 m2" by blast
    have "set (vec_ptrs dst') \<subseteq> dom (mem_blocks m1)" using mem_trans_dom [OF c(8)] by auto
    with mem_trans_frame [OF f(2), of "set (vec_ptrs dst')"] c(7)
    have "mem_trans (set (vec_ptrs dst') \<union> set (slot.list_ptrs (vec_list dst'))) (set (vec_ptrs dst')) m1 m2"
      by (simp add: Un_commute)
    from mem_trans_trans [OF c(8) this good_ok [OF g]] False c f(1) dst(3) show ?thesis
      by (intro exI [of _ False]) (simp add: jaeger_vector_ptr_copy_def)
  qed
qed

lemma vector_protobuf_copy:
  assumes src: "vec_ok src" "\<forall>s\<in>set (vec_list src). src_ok s" and g: "good m"
    and len: "vec_len src * 16 \<le> INT_MAX"
  shows "\<exists>ok arr n m'. jaeger_vector_protobuf_copy out src value_size z copy destroy m = Some (ok, (arr, n), m') \<and>
    (\<not> ok \<longrightarrow> (arr, n) = out \<and> mem_trans {} {} m m' \<and> \<not> mem_plenty m) \<and>
    (ok \<longrightarrow> n = length (vec_list src) \<and>
      (case arr of None \<Rightarrow> n = 0 \<and> mem_trans {} {} m m'
       | Some (p, slots) \<Rightarrow> n \<le> length slots \<and> list_all2 (slot_same same) (vec_list src) (take n slots) \<and>
           (\<forall>x\<in>set (take n slots). slot_ok elem_ok x) \<and> distinct (p # slot.list_ptrs (take n slots)) \<and>
           mem_trans {} (set (p # slot.list_ptrs (take n slots))) m m'))"
proof (cases "vec_len src = 0")
  case True
  with src(1) good_ok [OF g] show ?thesis
    by (auto simp: jaeger_vector_protobuf_copy_def jaeger_vector_length_def vec_list_def split: option.split)
next
  case False
  note m = good_ok [OF g]
  from vec_init_total [of SIZEOF_PTR None JAEGERTRACINGC_VECTOR_INIT m] obtain ok0 v0 m0 where
    i: "jaeger_vector_init (None :: (nat \<times> 'a) option) SIZEOF_PTR JAEGERTRACINGC_VECTOR_INIT m = Some (ok0, v0, m0)"
    by (auto simp: SIZEOF_PTR_def INT_MAX_def)
  note ini = vec_init_spec [OF i m]
  show ?thesis
  proof (cases ok0)
    case False
    with ini(2) i \<open>vec_len src \<noteq> 0\<close> vec_init_plenty [OF i m] show ?thesis
      by (cases out) (auto simp: jaeger_vector_protobuf_copy_def jaeger_vector_length_def)
  next
    case True
    with ini(1) have v0: "vec_ok v0" "vec_len v0 = 0" "vec_type_size v0 = SIZEOF_PTR"
      "mem_trans {} (set (vec_ptrs v0)) m m0" by auto
    have "set (vec_ptrs v0) \<subseteq> dom (mem_blocks m0)" using mem_trans_dom [OF v0(4)] by auto
    moreover have "vec_room v0 (vec_len src)"
      using len v0(3) src(1) by (simp add: vec_room_def SIZEOF_PTR_def vec_ok_def)
    ultimately obtain ok v1 m1 where c: "jaeger_vector_ptr_copy v0 src value_size z copy destroy m0 = Some (ok, v1, m1)"
      "vec_ok v1" "ok \<longrightarrow> list_all2 (slot_same same) (vec_list src) (vec_list v1) \<and> (\<forall>x\<in>set (vec_list v1). slot_ok elem_ok x) \<and>
      distinct (vec_ptrs v1 @ slot.list_ptrs (vec_list v1)) \<and>
      mem_trans (set (vec_ptrs v0)) (set (vec_ptrs v1 @ slot.list_ptrs (vec_list v1))) m0 m1"
      "\<not> ok \<longrightarrow> mem_trans (set (vec_ptrs v0)) (set (vec_ptrs v1)) m0 m1 \<and> \<not> mem_plenty m0"
      using vector_ptr_copy [OF v0(1-3) src good_trans [OF g v0(4)]] by blast
    show ?thesis
    proof (cases ok)
      case True
      from c(2) obtain p s where d: "vec_data v1 = Some (p, s)" "length s = nat (vec_capacity v1)"
        "0 \<le> vec_len v1" "vec_len v1 \<le> vec_capacity v1" by (rule vec_okE)
      have vl: "vec_list v1 = take (nat (vec_len v1)) s" "vec_ptrs v1 = [p]" by (simp_all add: vec_list_def vec_ptrs_def d(1))
      have n: "nat (vec_len v1) = length (vec_list src)"
        using c(3) True length_vec_list [OF c(2)] by (auto dest: list_all2_lengthD)
      have res: "jaeger_vector_protobuf_copy out src value_size z copy destroy m =
          Some (True, (Some (p, s), nat (vec_len v1)), m1)"
        using i \<open>ok0\<close> \<open>vec_len src \<noteq> 0\<close> c(1) True d(1)
        by (simp add: jaeger_vector_protobuf_copy_def jaeger_vector_length_def)
      have mt: "mem_trans {} (set (vec_ptrs v1 @ slot.list_ptrs (vec_list v1))) m m1"
        using mem_trans_trans [OF v0(4) _ m] c(3) True by blast
      show ?thesis
        by (intro exI conjI, rule res) (use mt c(3) True n vl d in \<open>simp_all add: nat_le_iff\<close>)
    next
      case False
      with c(4) have mt: "mem_trans {} (set (vec_ptrs v1)) m m1" and np: "\<not> mem_plenty m"
        using mem_trans_trans [OF v0(4) _ m] mem_plenty_trans [OF v0(4)] by blast+
      then have "set (vec_ptrs v1) \<subseteq> dom (mem_blocks m1)" using mem_trans_dom by blast
      from vec_destroy_spec [OF mem_trans_ok [OF mt] this] obtain m2 where
        d: "jaeger_vector_destroy v1 m1 = Some (JAEGERTRACINGC_VECTOR_INIT, m2)" "mem_trans (set (vec_ptrs v1)) {} m1 m2" .
      have res: "jaeger_vector_protobuf_copy out src value_size z copy destroy m = Some (False, (fst out, snd out), m2)"
        using i \<open>ok0\<close> \<open>vec_len src \<noteq> 0\<close> c(1) False d(1)
        by (simp add: jaeger_vector_protobuf_copy_def jaeger_vector_length_def)
      show ?thesis
        by (intro exI conjI, rule res) (use mem_trans_trans [OF mt d(2) m] np in simp_all)
    qed
  qed
qed

lemma protobuf_copy_array:
  assumes src: "vec_ok src" "\<forall>s\<in>set (vec_list src). src_ok s" and g: "good m"
    and len: "vec_len src * 16 \<le> INT_MAX"
  shows "\<exists>ok arr n m'. jaeger_vector_protobuf_copy out src value_size z copy destroy m = Some (ok, (arr, n), m') \<and>
    (\<not> ok \<longrightarrow> (arr, n) = out \<and> mem_trans {} {} m m' \<and> \<not> mem_plenty m) \<and>
    (ok \<longrightarrow> (n = 0 \<longrightarrow> arr = None) \<and> (\<exists>elems. array_elems arr n = Some elems \<and>
      list_all2 (slot_same same) (vec_list src) elems \<and> (\<forall>x\<in>set elems. slot_ok elem_ok x)) \<and>
      distinct (array_ptrs ptrs arr n) \<and> mem_trans {} (set (array_ptrs ptrs arr n)) m m')"
proof -
  from vector_protobuf_copy [OF assms, of out] obtain ok arr n m' where
    c: "jaeger_vector_protobuf_copy out src value_size z copy destroy m = Some (ok, (arr, n), m')"
    "\<not> ok \<longrightarrow> (arr, n) = out \<and> mem_trans {} {} m m' \<and> \<not> mem_plenty m"
    "ok \<longrightarrow> n = length (vec_list src) \<and>
      (case arr of None \<Rightarrow> n = 0 \<and> mem_trans {} {} m m'
       | Some (p, slots) \<Rightarrow> n \<le> length slots \<and> list_all2 (slot_same same) (vec_list src) (take n slots) \<and>
           (\<forall>x\<in>set (take n slots). slot_ok elem_ok x) \<and> distinct (p # slot.list_ptrs (take n slots)) \<and>
           mem_trans {} (set (p # slot.list_ptrs (take n slots))) m m')" by blast
  show ?thesis
  proof (cases ok)
    case True
    have "arr = None" if "n = 0"
    proof -
      from that c(3) True length_vec_list [OF src(1)] have "vec_len src = 0" by simp
      with c(1) show ?thesis by (simp add: jaeger_vector_protobuf_copy_def jaeger_vector_length_def)
    qed
    moreover have "array_ptrs ptrs (Some (p, slots)) n = p # slot.list_ptrs (take n slots)" for p slots
      by (simp add: array_ptrs_def slot.list_ptrs_def)
    ultimately show ?thesis using True c(1,3)
      by (intro exI [of _ True] exI [of _ arr] exI [of _ n] exI [of _ m'])
        (auto simp: array_elems_def split: option.splits)
  qed (use c(1,2) in blast)
qed

lemma array_destroy:
  assumes m: "mem_ok m" and o: "owns m (array_ptrs ptrs arr n)"
    and e: "array_elems arr n = Some elems" "\<forall>x\<in>set elems. slot_ok elem_ok x"
  shows "\<exists>m1 m2. vector_for_each_destroy (dst_vector_alloc_free destroy) elems m = Some m1 \<and>
    jaeger_free (map_option fst arr) m1 = Some m2 \<and> mem_trans (set (array_ptrs ptrs arr n)) {} m m2"
proof (cases arr)
  case None
  with m e show ?thesis by (auto simp: array_elems_def split: if_splits)
next
  case (Some a)
  then obtain p slots where a: "arr = Some (p, slots)" by (cases a) auto
  with e have el: "elems = take n slots" by (auto simp: array_elems_def split: if_splits)
  have ap: "array_ptrs ptrs arr n = [p] @ slot.list_ptrs elems" by (simp add: a el array_ptrs_def slot.list_ptrs_def)
  then have ow: "owns m [p]" "owns m (slot.list_ptrs elems)" "p \<notin> set (slot.list_ptrs elems)"
    using o by (auto simp: own_simps)
  from slot.for_each_destroy [OF m ow(2) e(2)] obtain m1 where
    f: "vector_for_each_destroy (dst_vector_alloc_free destroy) elems m = Some m1"
    "mem_trans (set (slot.list_ptrs elems)) {} m m1" by blast
  have fr: "mem_trans (set (slot.list_ptrs elems) \<union> {p}) {p} m m1"
    using mem_trans_frame [OF f(2), of "{p}"] ow by (simp add: owns_def)
  then have "p \<in> dom (mem_blocks m1)" using mem_trans_dom by blast
  from jaeger_free_live [OF mem_trans_ok [OF f(2)] this] obtain m2 where
    g: "jaeger_free (Some p) m1 = Some m2" "mem_trans {p} {} m1 m2" .
  from mem_trans_trans [OF fr g(2) m] f(1) g(1) a ap show ?thesis by (simp add: insert_commute Un_commute)
qed

end

section \<open>Searching\<close>

text \<open>
  \<open>bsearch\<close> on slots that are ordered for the comparator (\<open>f x = cmp key x\<close> never rises from "key is
  smaller" back up): it finds an equal element exactly when there is one.
\<close>

definition cmp_sorted :: "('a \<Rightarrow> int) \<Rightarrow> 'a list \<Rightarrow> bool" where
  "cmp_sorted f xs \<longleftrightarrow> sorted_wrt (\<lambda>x y. (f x < 0 \<longrightarrow> f y < 0) \<and> (f y > 0 \<longrightarrow> f x > 0)) xs"

lemma cmp_sorted_nth:
  assumes "cmp_sorted f xs" and "i \<le> j" and "j < length xs"
  shows "f (xs ! i) < 0 \<Longrightarrow> f (xs ! j) < 0" and "f (xs ! j) > 0 \<Longrightarrow> f (xs ! i) > 0"
proof -
  have "i \<noteq> j \<Longrightarrow> (f (xs ! i) < 0 \<longrightarrow> f (xs ! j) < 0) \<and> (f (xs ! j) > 0 \<longrightarrow> f (xs ! i) > 0)"
    using assms sorted_wrt_nth_less [of "\<lambda>x y. (f x < 0 \<longrightarrow> f y < 0) \<and> (f y > 0 \<longrightarrow> f x > 0)" xs i j]
    by (simp add: cmp_sorted_def)
  then show "f (xs ! i) < 0 \<Longrightarrow> f (xs ! j) < 0" and "f (xs ! j) > 0 \<Longrightarrow> f (xs ! i) > 0" by blast+
qed

lemma bsearch_loop_Some:
  "bsearch_loop f xs l u = Some i \<Longrightarrow> l \<le> i \<and> i < u \<and> f (xs ! i) = 0"
proof (induction f xs l u rule: bsearch_loop.induct)
  case (1 f xs l u)
  from 1(3) have lu: "l < u" by (subst (asm) bsearch_loop.simps) (simp split: if_splits)
  let ?i = "(l + u) div 2"
  have mid: "l \<le> ?i" "?i < u" using lu by auto
  have eq: "(if f (xs ! ?i) < 0 then bsearch_loop f xs l ?i
      else if f (xs ! ?i) > 0 then bsearch_loop f xs (?i + 1) u else Some ?i) = Some i"
    using 1(3) lu by (subst (asm) bsearch_loop.simps) (simp add: Let_def)
  show ?case
  proof (cases "f (xs ! ?i) < 0")
    case True
    with eq 1(1) [OF lu refl refl True] mid show ?thesis by auto
  next
    case False
    show ?thesis
    proof (cases "f (xs ! ?i) > 0")
      case True
      with eq False 1(2) [OF lu refl refl False True] mid show ?thesis by auto
    next
      case ge: False
      with eq False mid show ?thesis by auto
    qed
  qed
qed

lemma bsearch_loop_None:
  assumes "bsearch_loop f xs l u = None" and "cmp_sorted f xs" and "u \<le> length xs" and "l \<le> i" and "i < u"
  shows "f (xs ! i) \<noteq> 0"
  using assms
proof (induction f xs l u rule: bsearch_loop.induct)
  case (1 f xs l u)
  then have lu: "l < u" by simp
  let ?i = "(l + u) div 2"
  have mid: "l \<le> ?i" "?i < u" "?i < length xs" using lu 1 by auto
  have eq: "(if f (xs ! ?i) < 0 then bsearch_loop f xs l ?i
      else if f (xs ! ?i) > 0 then bsearch_loop f xs (?i + 1) u else Some ?i) = None"
    using 1(3) lu by (subst (asm) bsearch_loop.simps) (simp add: Let_def)
  show ?case
  proof (cases "f (xs ! ?i) < 0")
    case lt: True
    show ?thesis
    proof (cases "i < ?i")
      case True
      with 1(1) [OF lu refl refl lt] eq lt 1(4-6) mid show ?thesis by auto
    next
      case False
      with cmp_sorted_nth(1) [OF 1(4), of ?i i] lt 1(5,7) show ?thesis by auto
    qed
  next
    case ge: False
    with eq have gt: "f (xs ! ?i) > 0" by (auto split: if_splits)
    show ?thesis
    proof (cases "i \<le> ?i")
      case True
      with cmp_sorted_nth(2) [OF 1(4), of i ?i] gt mid show ?thesis by auto
    next
      case False
      with 1(2) [OF lu refl refl ge gt] eq ge gt 1(4,5,7) show ?thesis by auto
    qed
  qed
qed

lemma bsearch_loop_take: "n \<le> length xs \<Longrightarrow> u \<le> n \<Longrightarrow> bsearch_loop f xs l u = bsearch_loop f (take n xs) l u"
proof (induction f xs l u rule: bsearch_loop.induct)
  case (1 f xs l u)
  show ?case
  proof (cases "l < u")
    case True
    have "(l + u) div 2 < n" "(l + u) div 2 \<le> n" using True 1(4) by auto
    with True 1 show ?thesis
      by (subst (1 2) bsearch_loop.simps) (simp add: Let_def)
  next
    case False
    then show ?thesis by (subst (1 2) bsearch_loop.simps) simp
  qed
qed

text \<open>The loop of \<open>jaeger_vector_lower_bound\<close> ends, reads inside the vector and stays within its bounds.\<close>

lemma lower_bound_loop_bounds:
  assumes "pos + count \<le> length xs"
  shows "\<exists>r. lower_bound_loop f xs count pos = Some r \<and> pos \<le> r \<and> r \<le> pos + count"
  using assms
proof (induction f xs count pos rule: lower_bound_loop.induct)
  case (1 f xs count pos)
  show ?case
  proof (cases "count > 0")
    case True
    let ?p = "pos + count div 2"
    have p: "?p < length xs" "count div 2 < count" using 1(3) True by auto
    show ?thesis
    proof (cases "f (xs ! ?p) < 0")
      case lt: True
      have "?p + 1 + (count - (count div 2 + 1)) \<le> length xs" using p 1(3) by auto
      with 1(1) [OF True refl refl _ lt] p obtain r where
        "lower_bound_loop f xs (count - (count div 2 + 1)) (?p + 1) = Some r"
        "?p + 1 \<le> r" "r \<le> ?p + 1 + (count - (count div 2 + 1))" by auto
      with True lt p show ?thesis by (subst lower_bound_loop.simps) (auto simp: Let_def)
    next
      case ge: False
      have "?p + count div 2 \<le> length xs" using p 1(3) by linarith
      with 1(2) [OF True refl refl _ ge] p obtain r where
        r: "lower_bound_loop f xs (count div 2) ?p = Some r" "?p \<le> r" "r \<le> ?p + count div 2" by auto
      then have "r \<le> pos + count" by linarith
      with True ge p r show ?thesis by (subst lower_bound_loop.simps) (auto simp: Let_def)
    qed
  next
    case False
    then show ?thesis by (subst lower_bound_loop.simps) simp
  qed
qed

lemma lower_bound_spec:
  assumes "vec_ok v"
  shows "\<exists>i. jaeger_vector_lower_bound v key cmp = Some i \<and> 0 \<le> i \<and> i \<le> vec_len v"
proof (cases "vec_len v = 0")
  case True
  then show ?thesis by (simp add: jaeger_vector_lower_bound_def jaeger_vector_length_def)
next
  case False
  from assms obtain p s where d: "vec_data v = Some (p, s)" "length s = nat (vec_capacity v)"
    "0 \<le> vec_len v" "vec_len v \<le> vec_capacity v" by (rule vec_okE)
  then have "0 + nat (vec_len v) \<le> length s" by simp
  from lower_bound_loop_bounds [OF this] obtain r where
    "lower_bound_loop (\<lambda>x. cmp x key) s (nat (vec_len v)) 0 = Some r" "r \<le> nat (vec_len v)" by auto
  with d False show ?thesis
    by (auto simp: jaeger_vector_lower_bound_def jaeger_vector_length_def Let_def)
qed

section \<open>Properties\<close>

text \<open>The vector of the witnesses: \<open>b\<close>, \<open>c\<close> and eight free slots, in block 0.\<close>

definition vector_one :: "nat jaeger_vector" where
  "vector_one = \<lparr>vec_len = 2, vec_capacity = 10, vec_data = Some (0, [20, 30] @ replicate 8 0), vec_type_size = 8\<rparr>"

lemma vector_one_simps [simp]: "vec_ok vector_one" "vec_list vector_one = [20, 30]" "vec_ptrs vector_one = [0]"
  "vec_len vector_one = 2" "vec_capacity vector_one = 10" "vec_type_size vector_one = 8"
  by (simp_all add: vector_one_def vec_ok_def vec_list_def vec_ptrs_def INT_MAX_def)

text \<open>
  C24: \<open>jaeger_vector_insert\<close> implements insertion into a list.  On a well-formed vector, if the call
  returns a slot, it is the slot of the requested position, and writing an element there makes the
  vector the list with the element inserted; if it returns NULL the vector is unchanged.  In both cases
  the vector is well formed and owns exactly one block, and the old block is freed if a new one was made.
\<close>

theorem insert_implements_list_insert:
  assumes "jaeger_vector_insert z v (int n) m = Some (r, v', m')" and "vec_ok v" and "mem_ok m"
    and "int n \<le> vec_len v" and "set (vec_ptrs v) \<subseteq> dom (mem_blocks m)"
  shows "(case r of
        None \<Rightarrow> v' = v
      | Some i \<Rightarrow> i = n \<and> vec_ok v' \<and> (\<forall>x. \<exists>w. vec_write v' r x = Some w \<and> vec_ok w \<and> vec_ptrs w = vec_ptrs v' \<and>
          vec_list w = take n (vec_list v) @ x # drop n (vec_list v))) \<and>
    mem_trans (set (vec_ptrs v)) (set (vec_ptrs v')) m m'"
proof (cases r)
  case None
  with vec_insert_spec(1,4) [OF assms(1-4)] assms(5) show ?thesis by simp
next
  case (Some i)
  with vec_insert_spec(2-4) [OF assms(1-4)] assms(5) show ?thesis by fastforce
qed

theorem insert_implements_list_insert_witness:
  "\<exists>v' m'. jaeger_vector_insert 0 vector_one (int 1) mem_one = Some (Some 1, v', m') \<and> vec_ok v' \<and>
    (\<exists>w. vec_write v' (Some 1) 25 = Some w \<and> vec_list w = [20, 25, 30])"
proof -
  obtain v' where r: "jaeger_vector_insert 0 vector_one (int 1) mem_one = Some (Some 1, v', mem_one)"
    by (simp add: jaeger_vector_insert_def jaeger_vector_extend_def jaeger_vector_length_def jaeger_vector_offset_def
        vec_memmove_def vector_one_def chk_int_def int_ok_def INT_MAX_def)
  from insert_implements_list_insert [OF r] have "vec_ok v'"
    "\<forall>x. \<exists>w. vec_write v' (Some 1) x = Some w \<and> vec_ok w \<and> vec_ptrs w = vec_ptrs v' \<and>
          vec_list w = take 1 (vec_list vector_one) @ x # drop 1 (vec_list vector_one)" by auto
  with r show ?thesis by fastforce
qed

text \<open>
  \<open>jaeger_vector_append\<close> returns on every well-formed vector that can grow without overflowing an
  \<open>int\<close>, and does not allocate while there is a free slot.
\<close>

theorem append_returns:
  assumes "vec_ok v" and "mem_ok m" and "set (vec_ptrs v) \<subseteq> dom (mem_blocks m)"
    and "vec_room v (vec_capacity v + 1)"
  shows "\<exists>r v' m'. jaeger_vector_append z v m = Some (r, v', m') \<and>
    (vec_len v < vec_capacity v \<longrightarrow> r = Some (nat (vec_len v)) \<and> m' = m \<and> vec_data v' = vec_data v)"
  using vec_append_total [OF assms] vec_append_room [OF assms(1)] by (cases "vec_len v < vec_capacity v") auto

theorem append_returns_witness:
  "\<exists>r v' m'. jaeger_vector_append 0 vector_one mem_one = Some (r, v', m') \<and> r = Some 2 \<and> m' = mem_one"
  using append_returns [of vector_one mem_one 0] by (auto simp: vec_room_def INT_MAX_def)

text \<open>
  \<open>jaeger_vector_bsearch\<close> on a vector ordered for the comparator finds an equal element exactly when
  there is one.
\<close>

theorem bsearch_finds:
  assumes "vec_ok v" and "cmp_sorted (cmp key) (vec_list v)"
  shows "\<exists>r. jaeger_vector_bsearch v key cmp = Some r \<and>
    (case r of
       None \<Rightarrow> \<forall>x\<in>set (vec_list v). cmp key x \<noteq> 0
     | Some i \<Rightarrow> i < length (vec_list v) \<and> cmp key (vec_list v ! i) = 0)"
proof -
  from assms(1) obtain p s where d: "vec_data v = Some (p, s)" "length s = nat (vec_capacity v)"
    "0 \<le> vec_len v" "vec_len v \<le> vec_capacity v" by (rule vec_okE)
  let ?n = "nat (vec_len v)"
  have n: "?n \<le> length s" and vl: "vec_list v = take ?n s" using d by (simp_all add: vec_list_def)
  let ?r = "bsearch_loop (cmp key) s 0 ?n"
  have same: "?r = bsearch_loop (cmp key) (take ?n s) 0 ?n" by (rule bsearch_loop_take [OF n order_refl])
  have run: "jaeger_vector_bsearch v key cmp = Some ?r"
    using d(1) n by (simp add: jaeger_vector_bsearch_def jaeger_vector_length_def)
  show ?thesis
  proof (cases ?r)
    case None
    have "cmp key (take ?n s ! i) \<noteq> 0" if "i < ?n" for i
      using bsearch_loop_None [of "cmp key" "take ?n s" 0 ?n i] None same assms(2) vl n that by simp
    then have "\<forall>x\<in>set (vec_list v). cmp key x \<noteq> 0" using vl n by (auto simp: in_set_conv_nth)
    with run None show ?thesis by auto
  next
    case (Some i)
    with bsearch_loop_Some [of "cmp key" s 0 ?n i] vl n run show ?thesis by auto
  qed
qed

theorem bsearch_finds_witness:
  "\<exists>r. jaeger_vector_bsearch vector_one 30 (\<lambda>x y. int x - int y) = Some r \<and>
    (case r of None \<Rightarrow> \<forall>x\<in>set (vec_list vector_one). int 30 - int x \<noteq> 0
     | Some i \<Rightarrow> i < length (vec_list vector_one) \<and> int 30 - int (vec_list vector_one ! i) = 0)"
  using bsearch_finds [of vector_one "\<lambda>x y. int x - int y" 30] by (simp add: cmp_sorted_def)

text \<open>
  \<open>jaeger_vector_lower_bound\<close> is memory safe and ends, but is not a lower bound.  On every
  well-formed vector it reads only elements of the vector and returns a position between 0 and the
  length.  On the ordered vector \<open>[20, 30]\<close> and the key 10, which is below both elements, it returns 1,
  so inserting the key at the returned position breaks the order: the loop advances \<open>pos\<close> by \<open>step\<close>
  also when it goes on in the lower half.
\<close>

theorem lower_bound_safe_but_wrong:
  "(vec_ok v \<longrightarrow> (\<exists>i. jaeger_vector_lower_bound v key cmp = Some i \<and> 0 \<le> i \<and> i \<le> vec_len v)) \<and>
   jaeger_vector_lower_bound vector_one 10 (\<lambda>x y. int x - int y) = Some 1 \<and>
   \<not> sorted (take 1 (vec_list vector_one) @ 10 # drop 1 (vec_list vector_one))"
proof -
  have "lower_bound_loop (\<lambda>x. int x - int 10) ([20, 30] @ replicate 8 0) 2 0 = Some 1"
    by (simp add: lower_bound_loop.simps)
  then have "jaeger_vector_lower_bound vector_one 10 (\<lambda>x y. int x - int y) = Some 1"
    by (simp add: jaeger_vector_lower_bound_def jaeger_vector_length_def vector_one_def)
  with lower_bound_spec [of v key cmp] show ?thesis by simp
qed

theorem lower_bound_safe_but_wrong_witness:
  "\<exists>i. jaeger_vector_lower_bound vector_one 25 (\<lambda>x y. int x - int y) = Some i \<and> 0 \<le> i \<and> i \<le> 2"
  using lower_bound_safe_but_wrong [of vector_one 25 "\<lambda>x y. int x - int y"] by simp

end
