(* ===== verification/Tag.thy ===== *)
theory Tag
  imports Vector Clock Double
begin

text \<open>
  Tags and log records: \<open>src/jaegertracingc/tag.c\<close>, \<open>log_record.c\<close>.

  A tag is the message \<open>KeyValue\<close> of \<open>idl/model.proto\<close>; the initialiser of the message is generated by
  the protobuf compiler and is the argument \<open>tag_init\<close>; the code relies on its pointers being NULL
  (\<open>tag_blank\<close>).  A destination that the code overwrites is an argument only where its old bytes matter.
  A borrowed \<open>char*\<close> is passed as a string; inside a tag it stands with block number 0, which the
  functions that get such a tag never free.
\<close>

section \<open>Tags\<close>

datatype value_type = VT_STRING | VT_BOOL | VT_INT64 | VT_FLOAT64 | VT_BINARY

record jaeger_tag =
  tag_key :: "cstring option"
  tag_v_type :: value_type
  tag_v_str :: "cstring option"
  tag_v_bool :: bool
  tag_v_int64 :: int
  tag_v_float64 :: real
  tag_binary_len :: nat
  tag_binary_data :: "(ptr \<times> u8 list) option"

text \<open>A tag of zero bytes, as in fresh slots of a vector.\<close>

definition TAG_ZERO :: jaeger_tag where
  "TAG_ZERO = \<lparr>tag_key = None, tag_v_type = VT_STRING, tag_v_str = None, tag_v_bool = False, tag_v_int64 = 0,
     tag_v_float64 = 0, tag_binary_len = 0, tag_binary_data = None\<rparr>"

datatype opentracing_value =
    OTV_null
  | OTV_bool bool
  | OTV_uint64 u64
  | OTV_int64 int
  | OTV_double real
  | OTV_string string
  | OTV_invalid

definition jaeger_tag_destroy :: "jaeger_tag \<Rightarrow> mem \<Rightarrow> (jaeger_tag \<times> mem) option" where
  "jaeger_tag_destroy tag m = do {
     m \<leftarrow> jaeger_free (map_option fst (tag_key tag)) m;
     let tag = tag\<lparr>tag_key := None\<rparr>;
     case tag_v_type tag of
       VT_STRING \<Rightarrow> do {
         m \<leftarrow> jaeger_free (map_option fst (tag_v_str tag)) m;
         Some (tag\<lparr>tag_v_str := None\<rparr>, m)
       }
     | VT_BINARY \<Rightarrow> do {
         m \<leftarrow> jaeger_free (map_option fst (tag_binary_data tag)) m;
         Some (tag\<lparr>tag_binary_data := None\<rparr>, m)
       }
     | _ \<Rightarrow> Some (tag, m)
   }"

definition jaeger_tag_init :: "jaeger_tag \<Rightarrow> string option \<Rightarrow> mem \<Rightarrow> (bool \<times> jaeger_tag \<times> mem) option" where
  "jaeger_tag_init tag key m = do {
     (k, m) \<leftarrow> jaeger_strdup key m;
     Some (k \<noteq> None, tag\<lparr>tag_key := k\<rparr>, m)
   }"

text \<open>\<open>jaeger_tag_copy\<close>: the switch on the type, then the function; \<open>v_binary.len\<close> is not assigned.\<close>

definition tag_copy_value ::
  "jaeger_tag \<Rightarrow> jaeger_tag \<Rightarrow> mem \<Rightarrow> (bool \<times> jaeger_tag \<times> mem) option" where
  "tag_copy_value dst src m =
     (case tag_v_type src of
        VT_STRING \<Rightarrow>
          (case tag_v_str src of
             None \<Rightarrow> Some (True, dst, m)
           | Some s \<Rightarrow> do {
               (v, m) \<leftarrow> jaeger_strdup (Some (snd s)) m;
               Some (v \<noteq> None, dst\<lparr>tag_v_str := v\<rparr>, m)
             })
      | VT_BINARY \<Rightarrow>
          (case tag_binary_data src of
             None \<Rightarrow> Some (True, dst, m)
           | Some (q, bytes) \<Rightarrow>
               if tag_binary_len src > 0 then
                 (case jaeger_malloc (tag_binary_len src) m of
                    (None, m) \<Rightarrow> Some (False, dst\<lparr>tag_binary_data := None\<rparr>, m)
                  | (Some p, m) \<Rightarrow> do {
                      c_assert (tag_binary_len src \<le> length bytes);
                      Some (True, dst\<lparr>tag_binary_data := Some (p, take (tag_binary_len src) bytes)\<rparr>, m)
                    })
               else Some (True, dst, m))
      | VT_FLOAT64 \<Rightarrow> Some (True, dst\<lparr>tag_v_float64 := tag_v_float64 src\<rparr>, m)
      | VT_BOOL \<Rightarrow> Some (True, dst\<lparr>tag_v_bool := tag_v_bool src\<rparr>, m)
      | VT_INT64 \<Rightarrow> Some (True, dst\<lparr>tag_v_int64 := tag_v_int64 src\<rparr>, m))"

definition jaeger_tag_copy ::
  "jaeger_tag \<Rightarrow> jaeger_tag \<Rightarrow> mem \<Rightarrow> (bool \<times> jaeger_tag \<times> mem) option" where
  "jaeger_tag_copy tag_init src m = do {
     let dst = tag_init;
     (ok, dst, m) \<leftarrow> jaeger_tag_init dst (map_option snd (tag_key src)) m;
     if \<not> ok then Some (False, dst, m)
     else do {
       let dst = dst\<lparr>tag_v_type := tag_v_type src\<rparr>;
       (ok, dst, m) \<leftarrow> tag_copy_value dst src m;
       if ok then Some (True, dst, m)
       else do {
         (dst, m) \<leftarrow> jaeger_tag_destroy dst m;
         Some (False, tag_init, m)
       }
     }
   }"

text \<open>The conversion of \<open>uint64_t\<close> to \<open>int64_t\<close> wraps.\<close>

definition to_int64 :: "u64 \<Rightarrow> int" where
  "to_int64 w = sint w"

definition jaeger_tag_from_key_value ::
  "jaeger_tag \<Rightarrow> string option \<Rightarrow> opentracing_value \<Rightarrow> mem \<Rightarrow> (bool \<times> jaeger_tag option \<times> mem) option" where
  "jaeger_tag_from_key_value tag_init key value m =
     (case key of
        None \<Rightarrow> Some (False, None, m)
      | Some k \<Rightarrow> do {
          let src = tag_init\<lparr>tag_key := Some (0, k)\<rparr>;
          (r, m) \<leftarrow>
            (case value of
               OTV_null \<Rightarrow> Some (Some src, m)
             | OTV_bool b \<Rightarrow> Some (Some (src\<lparr>tag_v_type := VT_BOOL, tag_v_bool := b\<rparr>), m)
             | OTV_uint64 w \<Rightarrow> Some (Some (src\<lparr>tag_v_type := VT_INT64, tag_v_int64 := to_int64 w\<rparr>), m)
             | OTV_int64 i \<Rightarrow> Some (Some (src\<lparr>tag_v_type := VT_INT64, tag_v_int64 := i\<rparr>), m)
             | OTV_double d \<Rightarrow> Some (Some (src\<lparr>tag_v_type := VT_FLOAT64, tag_v_float64 := d\<rparr>), m)
             | OTV_string s \<Rightarrow> do {
                 (v, m) \<leftarrow> jaeger_strdup (Some s) m;
                 Some (map_option (\<lambda>v. src\<lparr>tag_v_type := VT_STRING, tag_v_str := Some v\<rparr>) v, m)
               }
             | OTV_invalid \<Rightarrow> Some (None, m));
          case r of
            None \<Rightarrow> Some (False, None, m)
          | Some src \<Rightarrow> do {
              (ok, dst, m) \<leftarrow> jaeger_tag_copy tag_init src m;
              Some (ok, Some dst, m)
            }
        })"

definition jaeger_tag_vector_append ::
  "jaeger_tag \<Rightarrow> jaeger_tag jaeger_vector \<Rightarrow> jaeger_tag \<Rightarrow> mem \<Rightarrow> (bool \<times> jaeger_tag jaeger_vector \<times> mem) option" where
  "jaeger_tag_vector_append tag_init vec tag m = do {
     (slot, vec, m) \<leftarrow> jaeger_vector_append TAG_ZERO vec m;
     if slot = None then Some (False, vec, m)
     else do {
       (ok, tag_copy, m) \<leftarrow> jaeger_tag_copy tag_init tag m;
       vec \<leftarrow> vec_write vec slot tag_copy;
       if ok then Some (True, vec, m)
       else Some (False, vec\<lparr>vec_len := vec_len vec - 1\<rparr>, m)
     }
   }"

section \<open>Log records\<close>

definition SIZEOF_TAG :: int where
  "SIZEOF_TAG = 88"

record jaeger_log_record =
  log_timestamp :: opentracing_time_value
  log_fields :: "jaeger_tag jaeger_vector"

text \<open>\<open>JAEGERTRACINGC_VECTOR_FOR_EACH\<close> on a vector: with elements but no block it dereferences NULL.\<close>

definition vec_for_each_destroy ::
  "('a \<Rightarrow> mem \<Rightarrow> ('a \<times> mem) option) \<Rightarrow> 'a jaeger_vector \<Rightarrow> mem \<Rightarrow> mem option" where
  "vec_for_each_destroy destroy vec m = do {
     c_assert (vec_data vec \<noteq> None \<or> vec_len vec \<le> 0);
     vector_for_each_destroy destroy (vec_list vec) m
   }"

definition jaeger_log_record_destroy :: "jaeger_log_record \<Rightarrow> mem \<Rightarrow> (jaeger_log_record \<times> mem) option" where
  "jaeger_log_record_destroy log_record m = do {
     m \<leftarrow> vec_for_each_destroy jaeger_tag_destroy (log_fields log_record) m;
     (fields, m) \<leftarrow> jaeger_vector_destroy (log_fields log_record) m;
     Some (log_record\<lparr>log_fields := fields\<rparr>, m)
   }"

definition jaeger_log_record_init ::
  "opentracing_time_value \<Rightarrow> jaeger_log_record \<Rightarrow> mem \<Rightarrow> (bool \<times> jaeger_log_record \<times> mem) option" where
  "jaeger_log_record_init now log_record m = do {
     let log_record = log_record\<lparr>log_timestamp := now\<rparr>;
     (ok, fields, m) \<leftarrow> jaeger_vector_init TAG_ZERO SIZEOF_TAG (log_fields log_record) m;
     Some (ok, log_record\<lparr>log_fields := fields\<rparr>, m)
   }"

definition jaeger_log_record_copy ::
  "jaeger_tag \<Rightarrow> opentracing_time_value \<Rightarrow> jaeger_log_record \<Rightarrow> jaeger_log_record \<Rightarrow> mem \<Rightarrow>
   (bool \<times> jaeger_log_record \<times> mem) option" where
  "jaeger_log_record_copy tag_init now dst src m = do {
     (ok, dst, m) \<leftarrow> jaeger_log_record_init now dst m;
     (ok, dst, m) \<leftarrow>
       (if \<not> ok then Some (False, dst, m)
        else do {
          (ok, fields, m) \<leftarrow> jaeger_vector_copy TAG_ZERO (log_fields dst) (log_fields src)
                              (\<lambda>old. jaeger_tag_copy tag_init) m;
          Some (ok, dst\<lparr>log_fields := fields\<rparr>, m)
        });
     if \<not> ok then do {
       (dst, m) \<leftarrow> jaeger_log_record_destroy dst m;
       Some (False, dst, m)
     } else Some (True, dst\<lparr>log_timestamp := log_timestamp src\<rparr>, m)
   }"

text \<open>The loop of \<open>jaeger_log_record_from_opentracing\<close>: fields that cannot be converted are dropped.\<close>

fun log_fields_loop ::
  "jaeger_tag \<Rightarrow> (string option \<times> opentracing_value) list \<Rightarrow> jaeger_tag jaeger_vector \<Rightarrow> mem \<Rightarrow>
   (jaeger_tag jaeger_vector \<times> mem) option" where
  "log_fields_loop tag_init [] vec m = Some (vec, m)"
| "log_fields_loop tag_init ((key, value) # rest) vec m = do {
     (slot, vec, m) \<leftarrow> jaeger_vector_append TAG_ZERO vec m;
     c_assert (slot \<noteq> None);
     (ok, t, m) \<leftarrow> jaeger_tag_from_key_value tag_init key value m;
     vec \<leftarrow> (case t of None \<Rightarrow> Some vec | Some t \<Rightarrow> vec_write vec slot t);
     let vec = (if ok then vec else vec\<lparr>vec_len := vec_len vec - 1\<rparr>);
     log_fields_loop tag_init rest vec m
   }"

definition jaeger_log_record_from_opentracing ::
  "jaeger_tag \<Rightarrow> opentracing_time_value \<Rightarrow> jaeger_log_record \<Rightarrow> opentracing_time_value \<Rightarrow>
   (string option \<times> opentracing_value) list \<Rightarrow> mem \<Rightarrow> (bool \<times> jaeger_log_record \<times> mem) option" where
  "jaeger_log_record_from_opentracing tag_init now dst src_timestamp src_fields m = do {
     (ok, dst, m) \<leftarrow> jaeger_log_record_init now dst m;
     (ok, dst, m) \<leftarrow>
       (if \<not> ok then Some (False, dst, m)
        else do {
          (ok, fields, m) \<leftarrow> jaeger_vector_reserve TAG_ZERO (log_fields dst) (int (length src_fields)) m;
          Some (ok, dst\<lparr>log_fields := fields\<rparr>, m)
        });
     if \<not> ok then do {
       (dst, m) \<leftarrow> jaeger_log_record_destroy dst m;
       Some (False, dst, m)
     } else do {
       (fields, m) \<leftarrow> log_fields_loop tag_init src_fields (log_fields dst) m;
       Some (True, dst\<lparr>log_fields := fields, log_timestamp := src_timestamp\<rparr>, m)
     }
   }"

text \<open>The generated message \<open>Log\<close>: its timestamp block, and the array of tag pointers with its count.\<close>

record pb_log =
  pl_timestamp :: "(ptr \<times> int \<times> int) option"
  pl_fields :: "(ptr \<times> (ptr \<times> jaeger_tag) option list) option"
  pl_n_fields :: nat

definition PB_LOG_INIT :: pb_log where
  "PB_LOG_INIT = \<lparr>pl_timestamp = None, pl_fields = None, pl_n_fields = 0\<rparr>"

text \<open>Sizes of the generated messages on a 64-bit platform, asked of the allocator.\<close>

definition SIZEOF_PB_LOG :: nat where
  "SIZEOF_PB_LOG = 48"

definition SIZEOF_PB_TIMESTAMP :: nat where
  "SIZEOF_PB_TIMESTAMP = 40"

definition jaeger_log_record_protobuf_destroy :: "pb_log \<Rightarrow> mem \<Rightarrow> (pb_log \<times> mem) option" where
  "jaeger_log_record_protobuf_destroy log_record m = do {
     elems \<leftarrow> array_elems (pl_fields log_record) (pl_n_fields log_record);
     m \<leftarrow> vector_for_each_destroy (dst_vector_alloc_free jaeger_tag_destroy) elems m;
     m \<leftarrow> jaeger_free (map_option fst (pl_fields log_record)) m;
     m \<leftarrow> jaeger_free (map_option fst (pl_timestamp log_record)) m;
     Some (PB_LOG_INIT, m)
   }"

definition jaeger_log_record_to_protobuf ::
  "jaeger_tag \<Rightarrow> jaeger_log_record \<Rightarrow> mem \<Rightarrow> (bool \<times> pb_log \<times> mem) option" where
  "jaeger_log_record_to_protobuf tag_init src m = do {
     let dst = PB_LOG_INIT;
     (ok, dst, m) \<leftarrow>
       (case jaeger_malloc SIZEOF_PB_TIMESTAMP m of
          (None, m) \<Rightarrow> Some (False, dst, m)
        | (Some p, m) \<Rightarrow> do {
            let dst = dst\<lparr>pl_timestamp := Some (p, tv_sec (log_timestamp src), tv_nsec (log_timestamp src))\<rparr>;
            (ok, (arr, n), m) \<leftarrow> jaeger_vector_protobuf_copy (pl_fields dst, pl_n_fields dst) (log_fields src)
              (nat SIZEOF_TAG) TAG_ZERO (\<lambda>old. jaeger_tag_copy tag_init) jaeger_tag_destroy m;
            Some (ok, dst\<lparr>pl_fields := arr, pl_n_fields := n\<rparr>, m)
          });
     if ok then Some (True, dst, m)
     else do {
       (dst, m) \<leftarrow> jaeger_log_record_protobuf_destroy dst m;
       Some (False, PB_LOG_INIT, m)
     }
   }"

section \<open>Ownership and copies of tags\<close>

definition tag_ptrs :: "jaeger_tag \<Rightarrow> ptr list" where
  "tag_ptrs t = cs_ptrs (tag_key t) @
     (case tag_v_type t of VT_STRING \<Rightarrow> cs_ptrs (tag_v_str t) | VT_BINARY \<Rightarrow> cs_ptrs (tag_binary_data t) | _ \<Rightarrow> [])"

definition tag_blank :: "jaeger_tag \<Rightarrow> bool" where
  "tag_blank t \<longleftrightarrow> tag_key t = None \<and> tag_v_str t = None \<and> tag_binary_data t = None"

definition tag_src_ok :: "jaeger_tag \<Rightarrow> bool" where
  "tag_src_ok t \<longleftrightarrow> tag_key t \<noteq> None \<and>
     (tag_v_type t = VT_BINARY \<longrightarrow> (\<forall>q bytes. tag_binary_data t = Some (q, bytes) \<longrightarrow> tag_binary_len t \<le> length bytes))"

text \<open>The same key and the same value, up to the length of a binary value, which a copy does not carry.\<close>

definition tag_same :: "jaeger_tag \<Rightarrow> jaeger_tag \<Rightarrow> bool" where
  "tag_same s t \<longleftrightarrow>
     map_option snd (tag_key t) = map_option snd (tag_key s) \<and> tag_v_type t = tag_v_type s \<and>
     (case tag_v_type s of
        VT_STRING \<Rightarrow> map_option snd (tag_v_str t) = map_option snd (tag_v_str s)
      | VT_BINARY \<Rightarrow> map_option snd (tag_binary_data t) =
          (if tag_binary_len s > 0 then map_option (take (tag_binary_len s) \<circ> snd) (tag_binary_data s) else None)
      | VT_FLOAT64 \<Rightarrow> tag_v_float64 t = tag_v_float64 s
      | VT_BOOL \<Rightarrow> tag_v_bool t = tag_v_bool s
      | VT_INT64 \<Rightarrow> tag_v_int64 t = tag_v_int64 s)"

lemma tag_destroy_spec:
  assumes m: "mem_ok m" and o: "owns m (tag_ptrs t)"
  shows "\<exists>t' m'. jaeger_tag_destroy t m = Some (t', m') \<and> mem_trans (set (tag_ptrs t)) {} m m'"
proof -
  define vs where "vs = (case tag_v_type t of VT_STRING \<Rightarrow> cs_ptrs (tag_v_str t) | VT_BINARY \<Rightarrow> cs_ptrs (tag_binary_data t) | _ \<Rightarrow> [])"
  have ptrs: "tag_ptrs t = cs_ptrs (tag_key t) @ vs" by (simp add: tag_ptrs_def vs_def)
  have ow: "owns m (cs_ptrs (tag_key t))" "owns m vs" "set vs \<inter> set (cs_ptrs (tag_key t)) = {}"
    using o by (auto simp: ptrs own_simps)
  from free_owned [OF m ow(1)] obtain m1 where f: "jaeger_free (map_option fst (tag_key t)) m = Some m1"
    "mem_trans (set (cs_ptrs (tag_key t))) {} m m1" .
  have o1: "owns m1 vs" using owns_frame(1) [OF f(2) ow(2,3)] .
  have rel: "mem_trans (set (tag_ptrs t)) {} m m2" if "mem_trans (set vs) {} m1 m2" for m2
    using mem_trans_release [OF f(2) that _ ow(3) m] ow(2) by (simp add: ptrs owns_def)
  show ?thesis
  proof (cases "tag_v_type t")
    case VT_STRING
    with o1 have "owns m1 (cs_ptrs (tag_v_str t))" by (simp add: vs_def)
    from free_owned [OF mem_trans_ok [OF f(2)] this] obtain m2 where
      "jaeger_free (map_option fst (tag_v_str t)) m1 = Some m2" "mem_trans (set (cs_ptrs (tag_v_str t))) {} m1 m2" .
    with VT_STRING f(1) rel [of m2] show ?thesis by (simp add: jaeger_tag_destroy_def vs_def)
  next
    case VT_BINARY
    with o1 have "owns m1 (cs_ptrs (tag_binary_data t))" by (simp add: vs_def)
    from free_owned [OF mem_trans_ok [OF f(2)] this] obtain m2 where
      "jaeger_free (map_option fst (tag_binary_data t)) m1 = Some m2" "mem_trans (set (cs_ptrs (tag_binary_data t))) {} m1 m2" .
    with VT_BINARY f(1) rel [of m2] show ?thesis by (simp add: jaeger_tag_destroy_def vs_def)
  qed (use f rel [of m1] mem_trans_ok [OF f(2)] in \<open>simp_all add: jaeger_tag_destroy_def vs_def\<close>)
qed

text \<open>The tag that a key and an OpenTracing value stand for.\<close>

definition tag_of :: "jaeger_tag \<Rightarrow> string \<Rightarrow> opentracing_value \<Rightarrow> jaeger_tag option" where
  "tag_of tag_init k value =
     (let t = tag_init\<lparr>tag_key := Some (0, k)\<rparr>
      in case value of
           OTV_null \<Rightarrow> Some t
         | OTV_bool b \<Rightarrow> Some (t\<lparr>tag_v_type := VT_BOOL, tag_v_bool := b\<rparr>)
         | OTV_uint64 w \<Rightarrow> Some (t\<lparr>tag_v_type := VT_INT64, tag_v_int64 := to_int64 w\<rparr>)
         | OTV_int64 i \<Rightarrow> Some (t\<lparr>tag_v_type := VT_INT64, tag_v_int64 := i\<rparr>)
         | OTV_double d \<Rightarrow> Some (t\<lparr>tag_v_type := VT_FLOAT64, tag_v_float64 := d\<rparr>)
         | OTV_string s \<Rightarrow> Some (t\<lparr>tag_v_type := VT_STRING, tag_v_str := Some (0, s)\<rparr>)
         | OTV_invalid \<Rightarrow> None)"

text \<open>The generated initialiser of a tag, as the code relies on it.\<close>

locale tag_initialiser =
  fixes tag_init :: jaeger_tag
  assumes blank_init: "tag_blank tag_init"
begin

text \<open>The value part of a copy: \<open>dst\<close> has the key and the type, and blank values.\<close>

lemma copy_value:
  assumes m: "mem_ok m" and s: "tag_src_ok s"
    and d: "dst = tag_init\<lparr>tag_key := k, tag_v_type := tag_v_type s\<rparr>"
  shows "\<exists>ok t m' vs. tag_copy_value dst s m = Some (ok, t, m') \<and> tag_ptrs t = cs_ptrs k @ vs \<and> distinct vs \<and>
    tag_key t = k \<and> mem_trans {} (set vs) m m' \<and> (ok \<longrightarrow> map_option snd k = map_option snd (tag_key s) \<longrightarrow> tag_same s t) \<and>
    (mem_plenty m \<longrightarrow> ok)"
proof -
  have b: "tag_v_str tag_init = None" "tag_binary_data tag_init = None" using blank_init by (auto simp: tag_blank_def)
  show ?thesis
  proof (cases "tag_v_type s")
    case VT_STRING
    show ?thesis
    proof (cases "tag_v_str s")
      case None
      with VT_STRING d b m show ?thesis
        by (intro exI [of _ True] exI [of _ dst] exI [of _ m] exI [of _ "[]"])
          (simp add: tag_copy_value_def tag_ptrs_def tag_same_def)
    next
      case (Some str)
      from jaeger_strdup_total obtain r m' where r: "jaeger_strdup (Some (snd str)) m = Some (r, m')" by blast
      have "mem_trans {} (set (cs_ptrs r)) m m' \<and> (r \<noteq> None \<longrightarrow> map_option snd r = Some (snd str))"
        using r m jaeger_strdup_NoneD [of "snd str" m m'] jaeger_strdup_SomeD [of "snd str" m _ m'] by (cases r) auto
      moreover have "mem_plenty m \<longrightarrow> r \<noteq> None" using r jaeger_strdup_plenty [OF m] by (cases r) auto
      ultimately show ?thesis using VT_STRING Some d r
        by (intro exI [of _ "r \<noteq> None"] exI [of _ "dst\<lparr>tag_v_str := r\<rparr>"] exI [of _ m'] exI [of _ "cs_ptrs r"])
          (auto simp: tag_copy_value_def tag_ptrs_def tag_same_def cs_ptrs_def split: option.split)
    qed
  next
    case VT_BINARY
    show ?thesis
    proof (cases "tag_binary_data s = None \<or> tag_binary_len s = 0")
      case True
      with VT_BINARY d b m show ?thesis
        by (intro exI [of _ True] exI [of _ dst] exI [of _ m] exI [of _ "[]"])
          (auto simp: tag_copy_value_def tag_ptrs_def tag_same_def split: option.split)
    next
      case False
      then obtain q bytes where q: "tag_binary_data s = Some (q, bytes)" "tag_binary_len s > 0" by auto
      have len: "tag_binary_len s \<le> length bytes" using s VT_BINARY q by (auto simp: tag_src_ok_def)
      obtain r m' where r: "jaeger_malloc (tag_binary_len s) m = (r, m')" by fastforce
      show ?thesis
      proof (cases r)
        case None
        with r m VT_BINARY d q jaeger_malloc_NoneD [of _ m m'] jaeger_malloc_plenty [OF m] show ?thesis
          by (intro exI [of _ False] exI [of _ "dst\<lparr>tag_binary_data := None\<rparr>"] exI [of _ m'] exI [of _ "[]"])
            (auto simp: tag_copy_value_def tag_ptrs_def)
      next
        case (Some p)
        with r m have "mem_trans {} {p} m m'" using jaeger_malloc_SomeD(1) by blast
        with r Some VT_BINARY d q len show ?thesis
          by (intro exI [of _ True] exI [of _ "dst\<lparr>tag_binary_data := Some (p, take (tag_binary_len s) bytes)\<rparr>"]
              exI [of _ m'] exI [of _ "[p]"])
            (simp add: tag_copy_value_def tag_ptrs_def tag_same_def)
      qed
    qed
  next
    case VT_BOOL
    with d m show ?thesis
      by (intro exI [of _ True] exI [of _ "dst\<lparr>tag_v_bool := tag_v_bool s\<rparr>"] exI [of _ m] exI [of _ "[]"])
        (simp add: tag_copy_value_def tag_ptrs_def tag_same_def)
  next
    case VT_INT64
    with d m show ?thesis
      by (intro exI [of _ True] exI [of _ "dst\<lparr>tag_v_int64 := tag_v_int64 s\<rparr>"] exI [of _ m] exI [of _ "[]"])
        (simp add: tag_copy_value_def tag_ptrs_def tag_same_def)
  next
    case VT_FLOAT64
    with d m show ?thesis
      by (intro exI [of _ True] exI [of _ "dst\<lparr>tag_v_float64 := tag_v_float64 s\<rparr>"] exI [of _ m] exI [of _ "[]"])
        (simp add: tag_copy_value_def tag_ptrs_def tag_same_def)
  qed
qed

text \<open>\<open>jaeger_tag_copy\<close>: a faithful copy in fresh blocks, or nothing left allocated.\<close>

lemma tag_copy_spec:
  assumes m: "mem_ok m" and s: "tag_src_ok s"
  shows "\<exists>ok t m'. jaeger_tag_copy tag_init s m = Some (ok, t, m') \<and>
    (ok \<longrightarrow> tag_same s t \<and> distinct (tag_ptrs t) \<and> mem_trans {} (set (tag_ptrs t)) m m') \<and>
    (\<not> ok \<longrightarrow> mem_trans {} {} m m') \<and> (mem_plenty m \<longrightarrow> ok)"
proof -
  from s obtain sk where sk: "tag_key s = Some sk" by (auto simp: tag_src_ok_def)
  from jaeger_strdup_total obtain r m1 where r: "jaeger_strdup (Some (snd sk)) m = Some (r, m1)" by blast
  show ?thesis
  proof (cases r)
    case None
    with r m sk jaeger_strdup_NoneD [of "snd sk" m m1] jaeger_strdup_plenty [OF m] show ?thesis
      by (intro exI [of _ False]) (auto simp: jaeger_tag_copy_def jaeger_tag_init_def)
  next
    case (Some kp)
    have a: "snd kp = snd sk" "mem_trans {} {fst kp} m m1" using jaeger_strdup_SomeD [of "snd sk" m kp m1] r Some m by auto
    let ?dst = "tag_init\<lparr>tag_key := Some kp, tag_v_type := tag_v_type s\<rparr>"
    from copy_value [OF mem_trans_ok [OF a(2)] s refl, of "Some kp"] obtain ok t m2 vs where
      c: "tag_copy_value ?dst s m1 = Some (ok, t, m2)" "tag_ptrs t = fst kp # vs" "distinct vs"
      "mem_trans {} (set vs) m1 m2" "ok \<longrightarrow> tag_same s t" "mem_plenty m1 \<longrightarrow> ok"
      using a(1) sk by auto
    note two = mem_trans_alloc2 [OF a(2) c(4) m]
    have d: "distinct (tag_ptrs t)" using c(2,3) two(2) by auto
    have mt: "mem_trans {} (set (tag_ptrs t)) m m2" using two(1) c(2) by simp
    show ?thesis
    proof (cases ok)
      case True
      with r Some sk c d mt show ?thesis
        by (intro exI [of _ True] exI [of _ t] exI [of _ m2]) (simp add: jaeger_tag_copy_def jaeger_tag_init_def)
    next
      case False
      from tag_destroy_spec [OF mem_trans_ok [OF mt] owns_trans [OF mt d]] obtain t' m3 where
        f: "jaeger_tag_destroy t m2 = Some (t', m3)" "mem_trans (set (tag_ptrs t)) {} m2 m3" by blast
      from mem_trans_trans [OF mt f(2) m] False r Some sk c f(1) mem_plenty_trans [OF a(2)] show ?thesis
        by (intro exI [of _ False] exI [of _ tag_init] exI [of _ m3]) (simp add: jaeger_tag_copy_def jaeger_tag_init_def)
    qed
  qed
qed

text \<open>The tag a key and a value stand for.\<close>

lemma tag_from_key_value_spec:
  assumes m: "mem_ok m"
  shows "\<exists>ok t m'. jaeger_tag_from_key_value tag_init (Some k) value m = Some (ok, t, m') \<and>
    (ok \<longrightarrow> (\<exists>src x. tag_of tag_init k value = Some src \<and> t = Some x \<and> tag_same src x)) \<and>
    (mem_plenty m \<and> value \<noteq> OTV_invalid \<longrightarrow> ok) \<and> (\<exists>A. mem_trans {} A m m')"
proof -
  have copied: "\<exists>ok t m'. (do { (ok, dst, m) \<leftarrow> jaeger_tag_copy tag_init s m1; Some (ok, Some dst, m) }) = Some (ok, t, m') \<and>
    (ok \<longrightarrow> (\<exists>src x. tag_of tag_init k value = Some src \<and> t = Some x \<and> tag_same src x)) \<and>
    (mem_plenty m \<and> value \<noteq> OTV_invalid \<longrightarrow> ok) \<and> (\<exists>A. mem_trans {} A m m')"
    if s: "tag_src_ok s" and m1: "mem_trans {} B m m1"
      and eq: "\<exists>src. tag_of tag_init k value = Some src \<and> (\<forall>x. tag_same s x \<longrightarrow> tag_same src x)" for s m1 B
  proof -
    from tag_copy_spec [OF mem_trans_ok [OF m1] s] obtain ok t m2 where
      c: "jaeger_tag_copy tag_init s m1 = Some (ok, t, m2)" "ok \<longrightarrow> tag_same s t \<and> mem_trans {} (set (tag_ptrs t)) m1 m2"
      "\<not> ok \<longrightarrow> mem_trans {} {} m1 m2" "mem_plenty m1 \<longrightarrow> ok" by blast
    have "\<exists>A. mem_trans {} A m m2" using mem_trans_alloc2(1) [OF m1 _ m] c(2,3) by (cases ok) blast+
    with c eq mem_plenty_trans [OF m1] show ?thesis by (intro exI [of _ ok] exI [of _ "Some t"] exI [of _ m2]) auto
  qed
  have id: "mem_trans {} {} m m" using m by simp
  have src: "tag_src_ok (tag_init\<lparr>tag_key := Some (0, k)\<rparr>)"
    using blank_init by (simp add: tag_src_ok_def tag_blank_def split: value_type.split)
  show ?thesis
  proof (cases "value")
    case (OTV_string s)
    from jaeger_strdup_total obtain r m1 where r: "jaeger_strdup (Some s) m = Some (r, m1)" by blast
    show ?thesis
    proof (cases r)
      case None
      with r OTV_string m jaeger_strdup_NoneD [of s m m1] jaeger_strdup_plenty [OF m] show ?thesis
        by (intro exI [of _ False]) (auto simp: jaeger_tag_from_key_value_def)
    next
      case (Some q)
      have q: "snd q = s" "mem_trans {} {fst q} m m1" using jaeger_strdup_SomeD [of s m q m1] r Some m by auto
      have "tag_src_ok (tag_init\<lparr>tag_key := Some (0, k), tag_v_type := VT_STRING, tag_v_str := Some q\<rparr>)"
        by (simp add: tag_src_ok_def)
      from copied [OF this q(2)] r Some OTV_string q(1) show ?thesis
        by (simp add: jaeger_tag_from_key_value_def tag_of_def tag_same_def)
    qed
  next
    case OTV_null
    with copied [OF src id] show ?thesis by (simp add: jaeger_tag_from_key_value_def tag_of_def)
  next
    case (OTV_bool b)
    with copied [of "tag_init\<lparr>tag_key := Some (0, k), tag_v_type := VT_BOOL, tag_v_bool := b\<rparr>", OF _ id]
    show ?thesis by (simp add: jaeger_tag_from_key_value_def tag_of_def tag_src_ok_def)
  next
    case (OTV_uint64 u)
    with copied [of "tag_init\<lparr>tag_key := Some (0, k), tag_v_type := VT_INT64, tag_v_int64 := to_int64 u\<rparr>", OF _ id]
    show ?thesis by (simp add: jaeger_tag_from_key_value_def tag_of_def tag_src_ok_def)
  next
    case (OTV_int64 i)
    with copied [of "tag_init\<lparr>tag_key := Some (0, k), tag_v_type := VT_INT64, tag_v_int64 := i\<rparr>", OF _ id]
    show ?thesis by (simp add: jaeger_tag_from_key_value_def tag_of_def tag_src_ok_def)
  next
    case (OTV_double d)
    with copied [of "tag_init\<lparr>tag_key := Some (0, k), tag_v_type := VT_FLOAT64, tag_v_float64 := d\<rparr>", OF _ id]
    show ?thesis by (simp add: jaeger_tag_from_key_value_def tag_of_def tag_src_ok_def)
  next
    case OTV_invalid
    with m show ?thesis by (auto simp: jaeger_tag_from_key_value_def intro!: exI [of _ False] exI [of _ "{}"])
  qed
qed

end

sublocale tag_initialiser \<subseteq> tag: element_ptr_copy mem_ok "\<lambda>old. jaeger_tag_copy tag_init" jaeger_tag_destroy tag_ptrs
  "\<lambda>_. True" tag_src_ok "\<lambda>_. True" tag_same "nat SIZEOF_TAG" TAG_ZERO
proof
  fix m :: mem and s t :: jaeger_tag and m' A B
  show "mem_trans A B m m' \<Longrightarrow> mem_ok m'" by (rule mem_trans_ok)
  assume m: "mem_ok m"
  show "mem_ok m" by (rule m)
  show "\<exists>ok x m'. jaeger_tag_copy tag_init s m = Some (ok, x, m')" if "tag_src_ok s"
    using tag_copy_spec [OF m that] by blast
  show "tag_same s t \<and> True \<and> distinct (tag_ptrs t) \<and> mem_trans {} (set (tag_ptrs t)) m m'"
    if "jaeger_tag_copy tag_init s m = Some (True, t, m')" and "tag_src_ok s"
    using tag_copy_spec [OF m that(2)] that(1) by auto
  show "mem_trans {} {} m m' \<and> \<not> mem_plenty m" if "jaeger_tag_copy tag_init s m = Some (False, t, m')" and "tag_src_ok s"
    using tag_copy_spec [OF m that(2)] that(1) by auto
  show "\<exists>t' m'. jaeger_tag_destroy t m = Some (t', m') \<and> mem_trans (set (tag_ptrs t)) {} m m'" if "owns m (tag_ptrs t)"
    by (rule tag_destroy_spec [OF m that])
qed simp

section \<open>Ownership and copies of log records\<close>

definition log_ptrs :: "jaeger_log_record \<Rightarrow> ptr list" where
  "log_ptrs l = vec_ptrs (log_fields l) @ concat (map tag_ptrs (vec_list (log_fields l)))"

definition log_blank :: "jaeger_log_record \<Rightarrow> bool" where
  "log_blank l \<longleftrightarrow> vec_data (log_fields l) = None \<and> vec_len (log_fields l) = 0"

definition log_src_ok :: "jaeger_log_record \<Rightarrow> bool" where
  "log_src_ok l \<longleftrightarrow> vec_ok (log_fields l) \<and> (\<forall>t\<in>set (vec_list (log_fields l)). tag_src_ok t) \<and>
     SIZEOF_TAG * (2 * vec_len (log_fields l)) \<le> INT_MAX"

definition log_same :: "jaeger_log_record \<Rightarrow> jaeger_log_record \<Rightarrow> bool" where
  "log_same s l \<longleftrightarrow> log_timestamp l = log_timestamp s \<and>
     list_all2 tag_same (vec_list (log_fields s)) (vec_list (log_fields l))"

definition pb_log_ptrs :: "pb_log \<Rightarrow> ptr list" where
  "pb_log_ptrs l = cs_ptrs (pl_timestamp l) @ array_ptrs tag_ptrs (pl_fields l) (pl_n_fields l)"

definition pb_log_ok :: "pb_log \<Rightarrow> bool" where
  "pb_log_ok l \<longleftrightarrow> array_elems (pl_fields l) (pl_n_fields l) \<noteq> None"

definition pb_log_same :: "jaeger_log_record \<Rightarrow> pb_log \<Rightarrow> bool" where
  "pb_log_same s l \<longleftrightarrow>
     map_option snd (pl_timestamp l) = Some (tv_sec (log_timestamp s), tv_nsec (log_timestamp s)) \<and>
     (\<exists>elems. array_elems (pl_fields l) (pl_n_fields l) = Some elems \<and>
        list_all2 (slot_same tag_same) (vec_list (log_fields s)) elems)"

context tag_initialiser
begin

lemma log_ptrs_eq: "log_ptrs l = vec_ptrs (log_fields l) @ tag.list_ptrs (vec_list (log_fields l))"
  by (simp add: log_ptrs_def tag.list_ptrs_def)

lemma log_destroy_spec:
  assumes m: "mem_ok m" and o: "owns m (log_ptrs l)" and v: "vec_data (log_fields l) \<noteq> None \<or> vec_len (log_fields l) \<le> 0"
  shows "\<exists>l' m'. jaeger_log_record_destroy l m = Some (l', m') \<and> mem_trans (set (log_ptrs l)) {} m m'"
proof -
  from tag.destroy_vector_elements [OF m, of "log_fields l"] o obtain m1 m2 where
    "vector_for_each_destroy jaeger_tag_destroy (vec_list (log_fields l)) m = Some m1"
    "jaeger_vector_destroy (log_fields l) m1 = Some (JAEGERTRACINGC_VECTOR_INIT, m2)"
    "mem_trans (set (log_ptrs l)) {} m m2" by (auto simp: log_ptrs_eq)
  with v show ?thesis by (simp add: jaeger_log_record_destroy_def vec_for_each_destroy_def)
qed

lemma log_destroy_blank: "log_blank l \<Longrightarrow> mem_ok m \<Longrightarrow> \<exists>l'. jaeger_log_record_destroy l m = Some (l', m)"
  by (simp add: jaeger_log_record_destroy_def vec_for_each_destroy_def log_blank_def vec_list_def jaeger_vector_destroy_def)

lemma log_copy_spec:
  assumes m: "mem_ok m" and s: "log_src_ok s" and b: "log_blank old"
  shows "\<exists>ok l m'. jaeger_log_record_copy tag_init now old s m = Some (ok, l, m') \<and>
    (ok \<longrightarrow> log_same s l \<and> vec_ok (log_fields l) \<and> distinct (log_ptrs l) \<and> mem_trans {} (set (log_ptrs l)) m m') \<and>
    (\<not> ok \<longrightarrow> mem_trans {} {} m m' \<and> \<not> mem_plenty m)"
proof -
  have sr: "vec_ok (log_fields s)" "\<forall>t\<in>set (vec_list (log_fields s)). tag_src_ok t" using s by (auto simp: log_src_ok_def)
  from vec_init_total [of SIZEOF_TAG TAG_ZERO "log_fields old" m] obtain ok0 v0 m0 where
    i: "jaeger_vector_init TAG_ZERO SIZEOF_TAG (log_fields old) m = Some (ok0, v0, m0)"
    by (auto simp: SIZEOF_TAG_def INT_MAX_def)
  note ini = vec_init_spec [OF i m]
  show ?thesis
  proof (cases ok0)
    case False
    with ini(2) have v0: "v0 = log_fields old" "mem_trans {} {} m m0" by auto
    have "log_blank (old\<lparr>log_timestamp := now, log_fields := v0\<rparr>)" using b v0(1) by (simp add: log_blank_def)
    from log_destroy_blank [OF this mem_trans_ok [OF v0(2)]] i False v0(2) vec_init_plenty [OF i m] show ?thesis
      by (intro exI [of _ False]) (auto simp: jaeger_log_record_copy_def jaeger_log_record_init_def)
  next
    case True
    with ini(1) have v0: "vec_ok v0" "vec_len v0 = 0" "vec_type_size v0 = SIZEOF_TAG"
      "mem_trans {} (set (vec_ptrs v0)) m m0" by auto
    have "set (vec_ptrs v0) \<subseteq> dom (mem_blocks m0)" using mem_trans_dom [OF v0(4)] by auto
    moreover have "vec_room v0 (vec_len (log_fields s))"
      using s v0(3) sr(1) by (simp add: vec_room_def log_src_ok_def SIZEOF_TAG_def vec_ok_def)
    ultimately obtain ok v1 m1 where
      c: "jaeger_vector_copy TAG_ZERO v0 (log_fields s) (\<lambda>old. jaeger_tag_copy tag_init) m0 = Some (ok, v1, m1)" "vec_ok v1"
      "list_all2 tag_same (take (length (vec_list v1)) (vec_list (log_fields s))) (vec_list v1)"
      "ok \<longrightarrow> length (vec_list v1) = length (vec_list (log_fields s))" "distinct (tag.list_ptrs (vec_list v1))"
      "set (vec_ptrs v1) \<inter> set (tag.list_ptrs (vec_list v1)) = {}"
      "mem_trans (set (vec_ptrs v0)) (set (vec_ptrs v1) \<union> set (tag.list_ptrs (vec_list v1))) m0 m1" "mem_plenty m0 \<longrightarrow> ok"
      using tag.vector_copy [OF v0(1,2) _ _ sr mem_trans_ok [OF v0(4)], of TAG_ZERO] by auto
    let ?l = "old\<lparr>log_timestamp := now, log_fields := v1\<rparr>"
    have ptrs: "log_ptrs (l\<lparr>log_fields := v1\<rparr>) = vec_ptrs v1 @ tag.list_ptrs (vec_list v1)" for l
      by (simp add: log_ptrs_eq)
    have dv: "distinct (vec_ptrs v1)" by (auto simp: vec_ptrs_def split: option.split)
    have mt: "mem_trans {} (set (vec_ptrs v1 @ tag.list_ptrs (vec_list v1))) m m1"
      using mem_trans_trans [OF v0(4) _ m] c(7) by simp
    show ?thesis
    proof (cases ok)
      case ok: True
      let ?r = "?l\<lparr>log_timestamp := log_timestamp s\<rparr>"
      have "log_ptrs ?r = vec_ptrs v1 @ tag.list_ptrs (vec_list v1)" by (simp add: log_ptrs_eq)
      with ok True i c dv mt show ?thesis
        by (intro exI [of _ True] exI [of _ ?r] exI [of _ m1])
          (simp add: jaeger_log_record_copy_def jaeger_log_record_init_def log_same_def)
    next
      case False
      have "owns m1 (log_ptrs ?l)" using owns_trans [OF mt] c(5,6) dv by (simp add: ptrs)
      moreover have "vec_data (log_fields ?l) \<noteq> None" using c(2) by (auto elim!: vec_okE)
      ultimately obtain l' m2 where d: "jaeger_log_record_destroy ?l m1 = Some (l', m2)" "mem_trans (set (log_ptrs ?l)) {} m1 m2"
        using log_destroy_spec [OF mem_trans_ok [OF mt], of ?l] by blast
      from mem_trans_trans [OF mt _ m] d(2) have "mem_trans {} {} m m2" by (simp add: ptrs)
      with False True i c(1,8) d(1) mem_plenty_trans [OF v0(4)] show ?thesis
        by (intro exI [of _ False]) (simp add: jaeger_log_record_copy_def jaeger_log_record_init_def)
    qed
  qed
qed

text \<open>\<open>jaeger_log_record_to_protobuf\<close>: the message holds the time and a copy of every field.\<close>

lemma pb_log_destroy_spec:
  assumes m: "mem_ok m" and l: "pb_log_ok l" and o: "owns m (pb_log_ptrs l)"
  shows "\<exists>m'. jaeger_log_record_protobuf_destroy l m = Some (PB_LOG_INIT, m') \<and> mem_trans (set (pb_log_ptrs l)) {} m m'"
proof -
  from l obtain elems where e: "array_elems (pl_fields l) (pl_n_fields l) = Some elems" by (auto simp: pb_log_ok_def)
  let ?A = "array_ptrs tag_ptrs (pl_fields l) (pl_n_fields l)"
  have ow: "owns m ?A" "owns m (?A @ cs_ptrs (pl_timestamp l))"
    using o by (auto simp: pb_log_ptrs_def own_simps)
  have "slot_ok (\<lambda>_. True) x" for x :: "(ptr \<times> jaeger_tag) option" by (simp add: slot_ok_def split: option.split)
  with tag.array_destroy [OF m ow(1) e] obtain m1 m2 where
    d: "vector_for_each_destroy (dst_vector_alloc_free jaeger_tag_destroy) elems m = Some m1"
    "jaeger_free (map_option fst (pl_fields l)) m1 = Some m2" "mem_trans (set ?A) {} m m2" by blast
  from free_owned [OF mem_trans_ok [OF d(3)] release_rest(1) [OF d(3) ow(2)]] obtain m3 where
    f: "jaeger_free (map_option fst (pl_timestamp l)) m2 = Some m3" "mem_trans (set (cs_ptrs (pl_timestamp l))) {} m2 m3" .
  from release_append [OF d(3) f(2) ow(2) m] e d(1,2) f(1) show ?thesis
    by (simp add: jaeger_log_record_protobuf_destroy_def pb_log_ptrs_def Un_commute)
qed

lemma log_to_protobuf_spec:
  assumes m: "mem_ok m" and s: "log_src_ok s"
  shows "\<exists>ok l m'. jaeger_log_record_to_protobuf tag_init s m = Some (ok, l, m') \<and>
    (ok \<longrightarrow> pb_log_same s l \<and> distinct (pb_log_ptrs l) \<and> mem_trans {} (set (pb_log_ptrs l)) m m') \<and>
    (\<not> ok \<longrightarrow> l = PB_LOG_INIT \<and> mem_trans {} {} m m' \<and> \<not> mem_plenty m)"
proof -
  have sr: "vec_ok (log_fields s)" "\<forall>t\<in>set (vec_list (log_fields s)). tag_src_ok t"
    "vec_len (log_fields s) * 16 \<le> INT_MAX" using s by (auto simp: log_src_ok_def SIZEOF_TAG_def vec_ok_def)
  obtain r m1 where r: "jaeger_malloc SIZEOF_PB_TIMESTAMP m = (r, m1)" by fastforce
  show ?thesis
  proof (cases r)
    case None
    with r m have "mem_trans {} {} m m1" "\<not> mem_plenty m" using jaeger_malloc_NoneD jaeger_malloc_plenty by blast+
    with r None show ?thesis
      by (intro exI [of _ False] exI [of _ PB_LOG_INIT] exI [of _ m1])
        (simp add: jaeger_log_record_to_protobuf_def jaeger_log_record_protobuf_destroy_def PB_LOG_INIT_def array_elems_def)
  next
    case (Some p)
    have a: "mem_trans {} {p} m m1" using r Some m jaeger_malloc_SomeD(1) by blast
    from tag.protobuf_copy_array [OF sr(1,2) mem_trans_ok [OF a] sr(3), of "(None, 0)"] obtain ok arr n m2 where
      c: "jaeger_vector_protobuf_copy (None, 0) (log_fields s) (nat SIZEOF_TAG) TAG_ZERO (\<lambda>old. jaeger_tag_copy tag_init)
        jaeger_tag_destroy m1 = Some (ok, (arr, n), m2)"
      "\<not> ok \<longrightarrow> (arr, n) = (None, 0) \<and> mem_trans {} {} m1 m2 \<and> \<not> mem_plenty m1"
      "ok \<longrightarrow> (\<exists>elems. array_elems arr n = Some elems \<and> list_all2 (slot_same tag_same) (vec_list (log_fields s)) elems)"
      "ok \<longrightarrow> distinct (array_ptrs tag_ptrs arr n) \<and> mem_trans {} (set (array_ptrs tag_ptrs arr n)) m1 m2" by blast
    let ?l = "\<lparr>pl_timestamp = Some (p, tv_sec (log_timestamp s), tv_nsec (log_timestamp s)), pl_fields = arr, pl_n_fields = n\<rparr>"
    show ?thesis
    proof (cases ok)
      case False
      with c(2) have e: "arr = None" "n = 0" "mem_trans {} {} m1 m2" and np: "\<not> mem_plenty m"
        using mem_plenty_trans [OF a] by auto
      have "mem_trans {} {p} m m2" using mem_trans_alloc2(1) [OF a e(3) m] by simp
      then have al: "mem_trans {} {p} m m2" and "p \<in> dom (mem_blocks m2)" using mem_trans_dom by blast+
      from jaeger_free_live [OF mem_trans_ok [OF al] this(2)] obtain m3 where
        f: "jaeger_free (Some p) m2 = Some m3" "mem_trans {p} {} m2 m3" .
      from mem_trans_trans [OF al f(2) m] np False r Some c(1) e(1,2) f(1) show ?thesis
        by (intro exI [of _ False] exI [of _ PB_LOG_INIT] exI [of _ m3])
          (simp add: jaeger_log_record_to_protobuf_def jaeger_log_record_protobuf_destroy_def PB_LOG_INIT_def array_elems_def)
    next
      case True
      note two = mem_trans_alloc2 [OF a _ m, of "set (array_ptrs tag_ptrs arr n)" m2]
      have "jaeger_log_record_to_protobuf tag_init s m = Some (True, ?l, m2)"
        using r Some c(1) True by (simp add: jaeger_log_record_to_protobuf_def PB_LOG_INIT_def)
      then show ?thesis
        by (intro exI [of _ True] exI [of _ ?l] exI [of _ m2])
          (use two True c(3,4) in \<open>auto simp: pb_log_same_def pb_log_ptrs_def\<close>)
    qed
  qed
qed

end

sublocale tag_initialiser \<subseteq> logs: element_copy mem_ok "jaeger_log_record_copy tag_init now" jaeger_log_record_destroy
  log_ptrs "\<lambda>l. vec_ok (log_fields l)" log_src_ok log_blank log_same for now
proof
  fix m :: mem and s l old m' A B
  show "mem_trans A B m m' \<Longrightarrow> mem_ok m'" by (rule mem_trans_ok)
  assume m: "mem_ok m"
  show "mem_ok m" by (rule m)
  show "\<exists>l' m'. jaeger_log_record_destroy l m = Some (l', m') \<and> mem_trans (set (log_ptrs l)) {} m m'"
    if "vec_ok (log_fields l)" and "owns m (log_ptrs l)"
    using log_destroy_spec [OF m that(2)] that(1) by (auto elim!: vec_okE)
  assume s: "log_src_ok s" and o: "log_blank old"
  note spec = log_copy_spec [OF m s o, of now]
  show "\<exists>ok x m'. jaeger_log_record_copy tag_init now old s m = Some (ok, x, m')" using spec by blast
  show "log_same s l \<and> vec_ok (log_fields l) \<and> distinct (log_ptrs l) \<and> mem_trans {} (set (log_ptrs l)) m m'"
    if "jaeger_log_record_copy tag_init now old s m = Some (True, l, m')" using spec that by auto
  show "mem_trans {} {} m m' \<and> \<not> mem_plenty m" if "jaeger_log_record_copy tag_init now old s m = Some (False, l, m')"
    using spec that by auto
qed

sublocale tag_initialiser \<subseteq> pblogs: element_ptr_copy mem_ok "\<lambda>old. jaeger_log_record_to_protobuf tag_init"
  jaeger_log_record_protobuf_destroy pb_log_ptrs pb_log_ok log_src_ok "\<lambda>_. True" pb_log_same SIZEOF_PB_LOG PB_LOG_INIT
proof
  fix m :: mem and s l m' A B
  show "mem_trans A B m m' \<Longrightarrow> mem_ok m'" by (rule mem_trans_ok)
  assume m: "mem_ok m"
  show "mem_ok m" by (rule m)
  show "\<exists>l' m'. jaeger_log_record_protobuf_destroy l m = Some (l', m') \<and> mem_trans (set (pb_log_ptrs l)) {} m m'"
    if "pb_log_ok l" and "owns m (pb_log_ptrs l)"
    using pb_log_destroy_spec [OF m that] by blast
  assume s: "log_src_ok s"
  note spec = log_to_protobuf_spec [OF m s]
  show "\<exists>ok x m'. jaeger_log_record_to_protobuf tag_init s m = Some (ok, x, m')" using spec by blast
  show "pb_log_same s l \<and> pb_log_ok l \<and> distinct (pb_log_ptrs l) \<and> mem_trans {} (set (pb_log_ptrs l)) m m'"
    if "jaeger_log_record_to_protobuf tag_init s m = Some (True, l, m')"
    using spec that by (auto simp: pb_log_ok_def pb_log_same_def)
  show "mem_trans {} {} m m' \<and> \<not> mem_plenty m" if "jaeger_log_record_to_protobuf tag_init s m = Some (False, l, m')"
    using spec that by auto
qed simp

interpretation zero_tag: tag_initialiser TAG_ZERO
  by unfold_locales (simp add: tag_blank_def TAG_ZERO_def)

section \<open>Properties\<close>

lemma tag_initialiserI: "tag_blank t \<Longrightarrow> tag_initialiser t"
  by (simp add: tag_initialiser_def)

text \<open>
  \<open>jaeger_tag_copy\<close> makes a faithful deep copy or leaves nothing behind.  It returns for every
  well-formed tag and every pattern of allocation failures; on success the copy has the same key, type
  and value and owns only new blocks, on failure nothing stays allocated, and it fails only if an
  allocation does.
\<close>

theorem tag_copy_faithful:
  assumes "tag_blank tag_init" and "mem_ok m" and "tag_src_ok src"
  shows "\<exists>ok t m'. jaeger_tag_copy tag_init src m = Some (ok, t, m') \<and> (mem_plenty m \<longrightarrow> ok) \<and>
    (if ok then tag_same src t \<and> distinct (tag_ptrs t) \<and> mem_trans {} (set (tag_ptrs t)) m m'
     else mem_trans {} {} m m')"
  using tag_initialiser.tag_copy_spec [OF tag_initialiserI [OF assms(1)] assms(2,3)] by (metis (no_types))

theorem tag_copy_faithful_witness:
  "\<exists>t m'. jaeger_tag_copy TAG_ZERO (TAG_ZERO\<lparr>tag_key := Some (0, ''k''), tag_v_str := Some (0, ''v'')\<rparr>) mem_one = Some (True, t, m') \<and>
    tag_same (TAG_ZERO\<lparr>tag_key := Some (0, ''k''), tag_v_str := Some (0, ''v'')\<rparr>) t \<and> distinct (tag_ptrs t) \<and>
    mem_trans {} (set (tag_ptrs t)) mem_one m'"
proof -
  have "tag_src_ok (TAG_ZERO\<lparr>tag_key := Some (0, ''k''), tag_v_str := Some (0, ''v'')\<rparr>)" "tag_blank TAG_ZERO"
    by (simp_all add: tag_src_ok_def tag_blank_def TAG_ZERO_def)
  from tag_copy_faithful [OF this(2) mem_one_simps(1) this(1)] show ?thesis by (auto simp: mem_plenty_def)
qed

text \<open>
  A copied binary tag has lost its length.  \<open>jaeger_tag_copy\<close> copies the bytes of a binary value
  but never assigns \<open>v_binary.len\<close>, so the copy keeps the length of the message initialiser.
\<close>

theorem binary_tag_copy_loses_length:
  assumes "tag_v_type src = VT_BINARY" and "jaeger_tag_copy tag_init src m = Some (ok, t, m')"
  shows "tag_binary_len t = tag_binary_len tag_init"
  using assms
  by (auto simp: jaeger_tag_copy_def jaeger_tag_init_def tag_copy_value_def Let_def bind_eq_Some_conv
      split: option.splits prod.splits if_splits)

theorem binary_tag_copy_loses_length_witness:
  "\<exists>t m'. jaeger_tag_copy TAG_ZERO (TAG_ZERO\<lparr>tag_key := Some (0, ''k''), tag_v_type := VT_BINARY, tag_binary_len := 2,
      tag_binary_data := Some (0, [1, 2])\<rparr>) mem_one = Some (True, t, m') \<and> tag_binary_len t = 0 \<and>
    map_option snd (tag_binary_data t) = Some [1, 2]"
proof -
  let ?s = "TAG_ZERO\<lparr>tag_key := Some (0, ''k''), tag_v_type := VT_BINARY, tag_binary_len := 2,
      tag_binary_data := Some (0, [1, 2])\<rparr>"
  have "tag_src_ok ?s" by (simp add: tag_src_ok_def)
  from zero_tag.tag_copy_spec [OF mem_one_simps(1) this] obtain t m' where
    c: "jaeger_tag_copy TAG_ZERO ?s mem_one = Some (True, t, m')" "tag_same ?s t" by (auto simp: mem_plenty_def)
  with binary_tag_copy_loses_length [OF _ c(1)] show ?thesis by (auto simp: tag_same_def TAG_ZERO_def)
qed

text \<open>
  Converting a string value to a tag leaks a block.  With memory to spare,
  \<open>jaeger_tag_from_key_value\<close> of a string succeeds with the key and the string in the tag, but one block
  that the tag does not own stays allocated: the temporary copy in \<open>src.v_str\<close> is never freed.
\<close>

theorem string_tag_leaks:
  assumes "tag_blank tag_init" and "mem_ok m" and "mem_plenty m"
  shows "\<exists>t m' leaked. jaeger_tag_from_key_value tag_init (Some k) (OTV_string s) m = Some (True, Some t, m') \<and>
    map_option snd (tag_key t) = Some k \<and> map_option snd (tag_v_str t) = Some s \<and>
    leaked \<notin> set (tag_ptrs t) \<and> mem_trans {} (insert leaked (set (tag_ptrs t))) m m'"
proof -
  from jaeger_strdup_total obtain r m1 where r: "jaeger_strdup (Some s) m = Some (r, m1)" by blast
  with jaeger_strdup_plenty [OF assms(2,3)] obtain q where q: "r = Some q" by (cases r) auto
  have a: "snd q = s" "mem_trans {} {fst q} m m1" using jaeger_strdup_SomeD [of s m q m1] r q assms(2) by auto
  let ?src = "tag_init\<lparr>tag_key := Some (0, k), tag_v_type := VT_STRING, tag_v_str := Some q\<rparr>"
  have "tag_src_ok ?src" by (simp add: tag_src_ok_def)
  from tag_initialiser.tag_copy_spec [OF tag_initialiserI [OF assms(1)] mem_trans_ok [OF a(2)] this]
  obtain t m' where c: "jaeger_tag_copy tag_init ?src m1 = Some (True, t, m')" "tag_same ?src t"
    "mem_trans {} (set (tag_ptrs t)) m1 m'" using mem_plenty_trans [OF a(2)] assms(3) by auto
  note two = mem_trans_alloc2 [OF a(2) c(3) assms(2)]
  have "jaeger_tag_from_key_value tag_init (Some k) (OTV_string s) m = Some (True, Some t, m')"
    using r q c(1) by (simp add: jaeger_tag_from_key_value_def)
  with c(2) a(1) two show ?thesis
    by (intro exI [of _ t] exI [of _ m'] exI [of _ "fst q"]) (auto simp: tag_same_def)
qed

theorem string_tag_leaks_witness:
  "\<exists>t m' leaked. jaeger_tag_from_key_value TAG_ZERO (Some ''k'') (OTV_string ''v'') mem_one = Some (True, Some t, m') \<and>
    map_option snd (tag_key t) = Some ''k'' \<and> map_option snd (tag_v_str t) = Some ''v'' \<and>
    leaked \<notin> set (tag_ptrs t) \<and> mem_trans {} (insert leaked (set (tag_ptrs t))) mem_one m'"
  by (rule string_tag_leaks) (simp_all add: tag_blank_def TAG_ZERO_def mem_plenty_def)

text \<open>
  \<open>jaeger_log_record_to_protobuf\<close> returns for every well-formed record and every pattern of
  allocation failures.  On success the message has the record's time and a faithful copy of every
  field, each in a block of its own, and owns exactly the new blocks; on failure, which happens only if
  an allocation fails, the message is empty and nothing stays allocated.
\<close>

theorem log_to_protobuf_complete:
  assumes "tag_blank tag_init" and "mem_ok m" and "log_src_ok src"
  shows "\<exists>ok l m'. jaeger_log_record_to_protobuf tag_init src m = Some (ok, l, m') \<and>
    (if ok then map_option snd (pl_timestamp l) = Some (tv_sec (log_timestamp src), tv_nsec (log_timestamp src)) \<and>
        (\<exists>elems. array_elems (pl_fields l) (pl_n_fields l) = Some elems \<and>
          list_all2 (slot_same tag_same) (vec_list (log_fields src)) elems) \<and>
        distinct (pb_log_ptrs l) \<and> mem_trans {} (set (pb_log_ptrs l)) m m'
     else l = PB_LOG_INIT \<and> mem_trans {} {} m m' \<and> \<not> mem_plenty m)"
  using tag_initialiser.log_to_protobuf_spec [OF tag_initialiserI [OF assms(1)] assms(2,3)]
  unfolding pb_log_same_def by (metis (no_types))

theorem log_to_protobuf_complete_witness:
  "\<exists>ok l m'. jaeger_log_record_to_protobuf TAG_ZERO
      \<lparr>log_timestamp = \<lparr>tv_sec = 1, tv_nsec = 2\<rparr>, log_fields = \<lparr>vec_len = 0, vec_capacity = 1, vec_data = Some (0, [TAG_ZERO]), vec_type_size = SIZEOF_TAG\<rparr>\<rparr>
      mem_one = Some (ok, l, m') \<and> (ok \<longrightarrow> map_option snd (pl_timestamp l) = Some (1, 2)) \<and> (ok \<or> mem_trans {} {} mem_one m')"
proof -
  let ?s = "\<lparr>log_timestamp = \<lparr>tv_sec = 1, tv_nsec = 2\<rparr>, log_fields = \<lparr>vec_len = 0, vec_capacity = 1, vec_data = Some (0, [TAG_ZERO]), vec_type_size = SIZEOF_TAG\<rparr>\<rparr>"
  have "log_src_ok ?s" "tag_blank TAG_ZERO"
    by (simp_all add: log_src_ok_def vec_ok_def vec_list_def SIZEOF_TAG_def INT_MAX_def tag_blank_def TAG_ZERO_def)
  from log_to_protobuf_complete [OF this(2) mem_one_simps(1) this(1)] show ?thesis
    by (auto split: if_splits)
qed

end
