(* ===== verification/C_Library.thy ===== *)
theory C_Library
  imports Prelude
begin

text \<open>
  The functions of the C standard library that the program's text handling uses, in the "C" locale and
  with a signed \<open>char\<close>: character classes, \<open>strtoull\<close> in base 16, \<open>snprintf\<close> of hexadecimal numbers
  and \<open>strtok_r\<close> with a single delimiter.
\<close>

section \<open>Characters\<close>

definition code :: "char \<Rightarrow> nat" where
  "code c = of_char c"

text \<open>The value of a (signed) \<open>char\<close>.\<close>

definition schar :: "char \<Rightarrow> int" where
  "schar c = (if code c < 128 then int (code c) else int (code c) - 256)"

definition islower :: "char \<Rightarrow> bool" where
  "islower c \<longleftrightarrow> 97 \<le> code c \<and> code c \<le> 122"

definition isupper :: "char \<Rightarrow> bool" where
  "isupper c \<longleftrightarrow> 65 \<le> code c \<and> code c \<le> 90"

definition isdigit :: "char \<Rightarrow> bool" where
  "isdigit c \<longleftrightarrow> 48 \<le> code c \<and> code c \<le> 57"

definition isalnum :: "char \<Rightarrow> bool" where
  "isalnum c \<longleftrightarrow> islower c \<or> isupper c \<or> isdigit c"

definition isspace :: "char \<Rightarrow> bool" where
  "isspace c \<longleftrightarrow> code c = 32 \<or> 9 \<le> code c \<and> code c \<le> 13"

definition tolower :: "char \<Rightarrow> char" where
  "tolower c = (if isupper c then char_of (code c + 32) else c)"

lemma code_less [simp]: "code c < 256"
  by (simp add: code_def)

lemma code_char_of [simp]: "n < 256 \<Longrightarrow> code (char_of n) = n"
  by (simp add: code_def)

lemma char_of_code [simp]: "char_of (code c) = c"
  by (simp add: code_def)

lemma code_eq_iff [simp]: "code c = code d \<longleftrightarrow> c = d"
  by (metis char_of_code)

section \<open>Hexadecimal numbers\<close>

definition hexdigit :: "nat \<Rightarrow> char" where
  "hexdigit n = char_of (if n < 10 then 48 + n else 87 + n)"

fun hex_of_nat :: "nat \<Rightarrow> string" where
  "hex_of_nat n = (if n < 16 then [hexdigit n] else hex_of_nat (n div 16) @ [hexdigit (n mod 16)])"

declare hex_of_nat.simps [simp del]

text \<open>\<open>%x\<close> and \<open>%016x\<close> of a 64-bit number.\<close>

definition fmt_x :: "u64 \<Rightarrow> string" where
  "fmt_x w = hex_of_nat (unat w)"

definition fmt_016x :: "u64 \<Rightarrow> string" where
  "fmt_016x w = replicate (16 - length (fmt_x w)) CHR ''0'' @ fmt_x w"

text \<open>\<open>snprintf\<close>: the returned length and what the buffer of size \<open>n\<close> holds as a string, \<open>None\<close> if untouched.\<close>

definition snprintf :: "nat \<Rightarrow> string \<Rightarrow> nat \<times> string option" where
  "snprintf n s = (length s, if n = 0 then None else Some (take (n - 1) s))"

definition hexval :: "char \<Rightarrow> nat option" where
  "hexval c =
     (if isdigit c then Some (code c - 48)
      else if 97 \<le> code c \<and> code c \<le> 102 then Some (code c - 87)
      else if 65 \<le> code c \<and> code c \<le> 70 then Some (code c - 55)
      else None)"

definition hex_number :: "string \<Rightarrow> nat" where
  "hex_number ds = foldl (\<lambda>a c. 16 * a + the (hexval c)) 0 ds"

definition ULLONG_MAX :: nat where
  "ULLONG_MAX = 2 ^ 64 - 1"

text \<open>The optional sign and the optional \<open>0x\<close>, which counts only before a digit.\<close>

definition skip_sign :: "string \<Rightarrow> bool \<times> string" where
  "skip_sign s =
     (case s of
        [] \<Rightarrow> (False, s)
      | c # r \<Rightarrow> if c = CHR ''-'' then (True, r) else if c = CHR ''+'' then (False, r) else (False, s))"

definition skip_0x :: "string \<Rightarrow> string" where
  "skip_0x s =
     (case s of
        z # x # d # r \<Rightarrow>
          if z = CHR ''0'' \<and> (x = CHR ''x'' \<or> x = CHR ''X'') \<and> hexval d \<noteq> None then d # r else s
      | _ \<Rightarrow> s)"

text \<open>\<open>strtoull(s, &end, 16)\<close>: the number and the string at \<open>end\<close>.\<close>

definition strtoull_hex :: "string \<Rightarrow> u64 \<times> string" where
  "strtoull_hex s =
     (let (neg, r) = skip_sign (dropWhile isspace s);
          r = skip_0x r;
          ds = takeWhile (\<lambda>c. hexval c \<noteq> None) r;
          v = hex_number ds
      in if ds = [] then (0, s)
         else (if v > ULLONG_MAX then - 1 else if neg then - of_nat v else of_nat v,
               dropWhile (\<lambda>c. hexval c \<noteq> None) r))"

lemma hexval_hexdigit [simp]: "n < 16 \<Longrightarrow> hexval (hexdigit n) = Some n"
  by (auto simp: hexval_def hexdigit_def isdigit_def)

lemma length_hex_of_nat: "n < 16 ^ k \<Longrightarrow> 0 < k \<Longrightarrow> length (hex_of_nat n) \<le> k"
proof (induction n arbitrary: k rule: hex_of_nat.induct)
  case (1 n)
  show ?case
  proof (cases "n < 16")
    case False
    then obtain j where k: "k = Suc j" "0 < j" using 1(2,3) by (cases k; cases "k - 1") auto
    then have "n div 16 < 16 ^ j" using 1(2) by (simp add: less_mult_imp_div_less mult.commute)
    with 1(1) [OF False this k(2)] k False show ?thesis by (subst hex_of_nat.simps) simp
  qed (use 1 in \<open>subst hex_of_nat.simps; simp\<close>)
qed

lemma hex_of_nat_digits: "set (hex_of_nat n) \<subseteq> hexdigit ` {..<16}"
  by (induction n rule: hex_of_nat.induct) (subst hex_of_nat.simps, auto)

lemma hex_of_nat_hexval: "c \<in> set (hex_of_nat n) \<Longrightarrow> hexval c \<noteq> None"
  using hex_of_nat_digits [of n] by auto

lemma hex_of_nat_ne [simp]: "hex_of_nat n \<noteq> []"
  by (subst hex_of_nat.simps) simp

lemma hex_number_append: "hex_number (xs @ [c]) = 16 * hex_number xs + the (hexval c)"
  by (simp add: hex_number_def)

lemma hex_number_of_nat [simp]: "hex_number (hex_of_nat n) = n"
proof (induction n rule: hex_of_nat.induct)
  case (1 n)
  then show ?case
    by (subst hex_of_nat.simps) (auto simp: hex_number_append, simp add: hex_number_def)
qed

lemma hex_number_zeros: "hex_number (replicate k CHR ''0'' @ xs) = hex_number xs"
  by (induction k) (simp_all add: hex_number_def hexval_def isdigit_def code_def)

text \<open>On a non-empty string of hexadecimal digits without overflow, \<open>strtoull\<close> reads all of it.\<close>

lemma hexval_not_special: "hexval c \<noteq> None \<Longrightarrow> \<not> isspace c \<and> c \<noteq> CHR ''-'' \<and> c \<noteq> CHR ''+'' \<and> c \<noteq> CHR ''x'' \<and> c \<noteq> CHR ''X'' \<and> c \<noteq> CHR 0x00"
  by (auto simp: hexval_def isspace_def isdigit_def code_def)

lemma strtoull_hex_digits:
  assumes "ds \<noteq> []" and "\<forall>c\<in>set ds. hexval c \<noteq> None" and "hex_number ds \<le> ULLONG_MAX"
  shows "strtoull_hex ds = (of_nat (hex_number ds), [])"
proof -
  have sp: "dropWhile isspace ds = ds" using assms(1,2) hexval_not_special by (cases ds) auto
  have sg: "skip_sign ds = (False, ds)"
    using assms(1,2) hexval_not_special by (cases ds) (auto simp: skip_sign_def)
  have ox: "skip_0x ds = ds"
    using assms(2) hexval_not_special
    by (auto simp: skip_0x_def split: list.split)
  have tw: "takeWhile (\<lambda>c. hexval c \<noteq> None) ds = ds" and dw: "dropWhile (\<lambda>c. hexval c \<noteq> None) ds = []"
    using assms(2) by (auto simp: takeWhile_eq_all_conv dropWhile_eq_Nil_conv)
  show ?thesis
    unfolding strtoull_hex_def sp sg Let_def prod.case ox tw dw using assms(1,3) by simp
qed

section \<open>Tokens\<close>

text \<open>\<open>strtok_r\<close> with the one delimiter \<open>d\<close>: the token, if any, and the rest for the next call.\<close>

definition strtok :: "char \<Rightarrow> string \<Rightarrow> string option \<times> string" where
  "strtok d s =
     (case dropWhile (\<lambda>c. c = d) s of
        [] \<Rightarrow> (None, [])
      | t \<Rightarrow> (Some (takeWhile (\<lambda>c. c \<noteq> d) t), tl (dropWhile (\<lambda>c. c \<noteq> d) t)))"

lemma strtok_shorter: "strtok d s = (Some tok, rest) \<Longrightarrow> length rest < length s"
proof -
  assume "strtok d s = (Some tok, rest)"
  then obtain x t where "dropWhile (\<lambda>c. c = d) s = x # t" "rest = tl (dropWhile (\<lambda>c. c \<noteq> d) (x # t))"
    by (auto simp: strtok_def split: list.splits)
  moreover have "length (dropWhile (\<lambda>c. c = d) s) \<le> length s" by (rule length_dropWhile_le)
  moreover have "length (dropWhile (\<lambda>c. c \<noteq> d) (x # t)) \<le> length (x # t)" by (rule length_dropWhile_le)
  ultimately show ?thesis by (cases "dropWhile (\<lambda>c. c \<noteq> d) (x # t)") auto
qed

lemma strtok_token:
  assumes "tok \<noteq> []" and "d \<notin> set tok"
  shows "strtok d (tok @ d # rest) = (Some tok, rest)" and "strtok d tok = (Some tok, [])"
proof -
  obtain x t where tok: "tok = x # t" using assms(1) by (cases tok) auto
  have all: "\<forall>c\<in>set tok. c \<noteq> d" using assms(2) by auto
  have "takeWhile (\<lambda>c. c \<noteq> d) (tok @ d # rest) = tok" "dropWhile (\<lambda>c. c \<noteq> d) (tok @ d # rest) = d # rest"
    using all by simp_all
  then show "strtok d (tok @ d # rest) = (Some tok, rest)" using all tok by (simp add: strtok_def)
  have "takeWhile (\<lambda>c. c \<noteq> d) tok = tok" and dw: "dropWhile (\<lambda>c. c \<noteq> d) t = []"
    using all tok by (auto simp: takeWhile_eq_all_conv dropWhile_eq_Nil_conv)
  then show "strtok d tok = (Some tok, [])" using all tok by (simp add: strtok_def dw del: dropWhile_eq_Nil_conv)
qed

lemma strtok_Nil [simp]: "strtok d [] = (None, [])"
  by (simp add: strtok_def)

end
