(* ===== verification/Trace_Id.thy ===== *)
theory Trace_Id
  imports C_Library
begin

text \<open>
  Trace IDs: \<open>src/jaegertracingc/trace_id.c\<close>.

  A buffer argument is its size; the function returns the number \<open>snprintf\<close> returns and the string the
  buffer then holds (\<open>None\<close> if it is not written).  A scan returns \<open>None\<close> for the code's false.
\<close>

record jaeger_trace_id =
  tid_high :: u64
  tid_low :: u64

definition JAEGERTRACINGC_TRACE_ID_INIT :: jaeger_trace_id where
  "JAEGERTRACINGC_TRACE_ID_INIT = \<lparr>tid_high = 0, tid_low = 0\<rparr>"

definition JAEGERTRACINGC_UINT64_MAX_STR_LEN :: nat where
  "JAEGERTRACINGC_UINT64_MAX_STR_LEN = 16"

definition JAEGERTRACINGC_TRACE_ID_MAX_STR_LEN :: nat where
  "JAEGERTRACINGC_TRACE_ID_MAX_STR_LEN = JAEGERTRACINGC_UINT64_MAX_STR_LEN * 2"

text \<open>The bytes of a 64-bit number in memory on a little-endian host.\<close>

definition le_bytes :: "u64 \<Rightarrow> u8 list" where
  "le_bytes w = map (\<lambda>i. ucast (drop_bit (8 * i) w)) [0..<8]"

definition jaeger_trace_id_to_protobuf :: "nat \<Rightarrow> jaeger_trace_id \<Rightarrow> u8 list option" where
  "jaeger_trace_id_to_protobuf dst_len src = do {
     c_assert (dst_len = 16);
     Some (le_bytes (tid_high src) @ le_bytes (tid_low src))
   }"

definition jaeger_trace_id_format :: "jaeger_trace_id \<Rightarrow> nat \<Rightarrow> nat \<times> string option" where
  "jaeger_trace_id_format trace_id buffer_len =
     (if tid_high trace_id = 0 then snprintf buffer_len (fmt_x (tid_low trace_id))
      else snprintf buffer_len (fmt_x (tid_high trace_id) @ fmt_016x (tid_low trace_id)))"

definition jaeger_trace_id_scan :: "string \<Rightarrow> jaeger_trace_id option" where
  "jaeger_trace_id_scan str =
     (let len = length str
      in if len > JAEGERTRACINGC_UINT64_MAX_STR_LEN * 2 then None
         else do {
           (high, str) \<leftarrow>
             (if len > JAEGERTRACINGC_UINT64_MAX_STR_LEN then
                (let high_len = len - JAEGERTRACINGC_UINT64_MAX_STR_LEN;
                     (high, iter) = strtoull_hex (take high_len str)
                 in if iter \<noteq> [] then None else Some (high, drop high_len str))
              else Some (0, str));
           (let (low, iter) = strtoull_hex str
            in if iter \<noteq> [] then None else Some \<lparr>tid_high = high, tid_low = low\<rparr>)
         })"

section \<open>Formatting and scanning\<close>

lemma unat_less_16_16: "unat (w :: u64) < 16 ^ 16"
  using unsigned_less [of w, where ?'a = nat] by simp

lemma unat_le_ULLONG_MAX: "unat (w :: u64) \<le> ULLONG_MAX"
  using unsigned_less [of w, where ?'a = nat] by (simp add: ULLONG_MAX_def)

lemma length_fmt_x: "length (fmt_x w) \<le> 16"
  unfolding fmt_x_def by (rule length_hex_of_nat [OF unat_less_16_16]) simp

lemma length_fmt_016x [simp]: "length (fmt_016x w) = 16"
  using length_fmt_x [of w] by (simp add: fmt_016x_def)

lemma hexval_zero [simp]: "hexval CHR ''0'' = Some 0"
  by (simp add: hexval_def isdigit_def code_def)

lemma strtoull_fmt_x [simp]: "strtoull_hex (fmt_x w) = (w, [])"
  using strtoull_hex_digits [of "fmt_x w"] hex_of_nat_hexval unat_le_ULLONG_MAX [of w]
  by (simp add: fmt_x_def)

lemma strtoull_fmt_016x [simp]: "strtoull_hex (fmt_016x w) = (w, [])"
proof -
  have "hex_number (fmt_016x w) = unat w" by (simp add: fmt_016x_def fmt_x_def hex_number_zeros)
  moreover have "\<forall>c\<in>set (fmt_016x w). hexval c \<noteq> None"
    using hex_of_nat_hexval by (auto simp: fmt_016x_def fmt_x_def)
  moreover have "fmt_016x w \<noteq> []" using length_fmt_016x [of w] by (metis list.size(3) zero_neq_numeral)
  ultimately show ?thesis
    using strtoull_hex_digits [of "fmt_016x w"] unat_le_ULLONG_MAX [of w] by simp
qed

lemma fmt_x_ne [simp]: "fmt_x w \<noteq> []"
  by (simp add: fmt_x_def)

definition trace_id_string :: "jaeger_trace_id \<Rightarrow> string" where
  "trace_id_string t = (if tid_high t = 0 then fmt_x (tid_low t) else fmt_x (tid_high t) @ fmt_016x (tid_low t))"

lemma trace_id_format: "jaeger_trace_id_format t n = snprintf n (trace_id_string t)"
  by (simp add: jaeger_trace_id_format_def trace_id_string_def)

lemma length_trace_id_string: "0 < length (trace_id_string t)" "length (trace_id_string t) \<le> 32"
  using length_fmt_x [of "tid_high t"] length_fmt_x [of "tid_low t"] by (simp_all add: trace_id_string_def)

lemma trace_id_scan_string: "jaeger_trace_id_scan (trace_id_string t) = Some t"
proof (cases "tid_high t = 0")
  case True
  with length_fmt_x [of "tid_low t"] show ?thesis
    by (simp add: trace_id_string_def jaeger_trace_id_scan_def JAEGERTRACINGC_UINT64_MAX_STR_LEN_def)
next
  case False
  have "length (fmt_x (tid_high t)) > 0" by simp
  with False length_fmt_x [of "tid_high t"] show ?thesis
    by (simp add: trace_id_string_def jaeger_trace_id_scan_def JAEGERTRACINGC_UINT64_MAX_STR_LEN_def Let_def)
qed

lemma trace_id_string_chars: "c \<in> set (trace_id_string t) \<Longrightarrow> hexval c \<noteq> None"
  using hex_of_nat_hexval by (auto simp: trace_id_string_def fmt_016x_def fmt_x_def split: if_splits)

text \<open>
  Formatting a trace ID and scanning the result gives the trace ID back, for all 128-bit IDs, in
  any buffer that holds the \<open>JAEGERTRACINGC_TRACE_ID_MAX_STR_LEN\<close> characters and the terminator, and
  the returned count is the length of the string written, which is never more than that.
\<close>

theorem trace_id_roundtrip:
  assumes "JAEGERTRACINGC_TRACE_ID_MAX_STR_LEN < buffer_len"
  shows "\<exists>s. jaeger_trace_id_format t buffer_len = (length s, Some s) \<and>
    length s \<le> JAEGERTRACINGC_TRACE_ID_MAX_STR_LEN \<and> jaeger_trace_id_scan s = Some t"
  using assms length_trace_id_string [of t] trace_id_scan_string [of t]
  by (auto simp: trace_id_format snprintf_def JAEGERTRACINGC_TRACE_ID_MAX_STR_LEN_def
      JAEGERTRACINGC_UINT64_MAX_STR_LEN_def)

theorem trace_id_roundtrip_witness:
  "\<exists>s. jaeger_trace_id_format \<lparr>tid_high = 1, tid_low = 2\<rparr> 33 = (length s, Some s) \<and>
    length s \<le> JAEGERTRACINGC_TRACE_ID_MAX_STR_LEN \<and> jaeger_trace_id_scan s = Some \<lparr>tid_high = 1, tid_low = 2\<rparr>"
  by (rule trace_id_roundtrip)
    (simp add: JAEGERTRACINGC_TRACE_ID_MAX_STR_LEN_def JAEGERTRACINGC_UINT64_MAX_STR_LEN_def)

text \<open>
  A scan accepts more than it prints.  \<open>jaeger_trace_id_scan\<close> never accepts a string longer than 32
  characters, but it accepts the empty string as ID 0, and signs and the prefix \<open>0x\<close> of \<open>strtoull\<close>.
\<close>

theorem trace_id_scan_accepts:
  "(length s > 32 \<longrightarrow> jaeger_trace_id_scan s = None) \<and>
   jaeger_trace_id_scan [] = Some \<lparr>tid_high = 0, tid_low = 0\<rparr> \<and>
   jaeger_trace_id_scan ''-1'' = Some \<lparr>tid_high = 0, tid_low = - 1\<rparr> \<and>
   jaeger_trace_id_scan ''0x1f'' = Some \<lparr>tid_high = 0, tid_low = 31\<rparr>"
  by (simp add: jaeger_trace_id_scan_def JAEGERTRACINGC_UINT64_MAX_STR_LEN_def strtoull_hex_def skip_sign_def
      skip_0x_def isspace_def code_def hexval_def isdigit_def hex_number_def ULLONG_MAX_def)

theorem trace_id_scan_accepts_witness: "jaeger_trace_id_scan (replicate 33 CHR ''0'') = None"
  using trace_id_scan_accepts [of "replicate 33 CHR ''0''"] by simp

end
