(* ===== verification/Siphash.thy ===== *)
theory Siphash
  imports Prelude
begin

text \<open>
  The hash function of the hashtable: \<open>src/jaegertracingc/siphash.c\<close>.

  Byte buffers are lists of \<open>u8\<close>, the state \<open>v[4]\<close> is a quadruple of \<open>u64\<close>.  The loop over whole
  8-byte blocks is \<open>sip_loop\<close>; the fall-through \<open>switch\<close> over the last bytes is \<open>sip_tail\<close>.
  \<open>siphash_2_4\<close> is the published specification: pad the message with zeros up to one byte short of
  a block boundary, append the length modulo 256, compress every little-endian word, finalise.
\<close>

type_synonym sip_state = "u64 \<times> u64 \<times> u64 \<times> u64"

text \<open>\<open>((uint64_t) buffer[i]) << sh\<close>\<close>

definition byte_at :: "u8 list \<Rightarrow> nat \<Rightarrow> nat \<Rightarrow> u64" where
  "byte_at buffer i sh = push_bit sh (ucast (buffer ! i))"

definition unpack64 :: "u8 list \<Rightarrow> u64" where
  "unpack64 buffer =
     byte_at buffer 0 0 OR byte_at buffer 1 8 OR byte_at buffer 2 16 OR byte_at buffer 3 24 OR
     byte_at buffer 4 32 OR byte_at buffer 5 40 OR byte_at buffer 6 48 OR byte_at buffer 7 56"

definition rotl :: "u64 \<Rightarrow> nat \<Rightarrow> u64" where
  "rotl x b = push_bit b x OR drop_bit (64 - b) x"

definition sipround :: "sip_state \<Rightarrow> sip_state" where
  "sipround v = (case v of (v0, v1, v2, v3) \<Rightarrow>
     let v0 = v0 + v1;
         v1 = rotl v1 13;
         v1 = v1 XOR v0;
         v0 = rotl v0 32;
         v2 = v2 + v3;
         v3 = rotl v3 16;
         v3 = v3 XOR v2;
         v0 = v0 + v3;
         v3 = rotl v3 21;
         v3 = v3 XOR v0;
         v2 = v2 + v1;
         v1 = rotl v1 17;
         v1 = v1 XOR v2;
         v2 = rotl v2 32
     in (v0, v1, v2, v3))"

definition C_ROUNDS :: nat where
  "C_ROUNDS = 2"

definition D_ROUNDS :: nat where
  "D_ROUNDS = 4"

text \<open>One iteration of the block loop, and the same for the last word \<open>b\<close>.\<close>

definition sip_absorb :: "sip_state \<Rightarrow> u64 \<Rightarrow> sip_state" where
  "sip_absorb v m =
     (case v of (v0, v1, v2, v3) \<Rightarrow>
        case (sipround ^^ C_ROUNDS) (v0, v1, v2, v3 XOR m) of
          (w0, w1, w2, w3) \<Rightarrow> (w0 XOR m, w1, w2, w3))"

text \<open>\<open>for (; iter != end; iter += 8)\<close>: returns the state and the bytes from \<open>end\<close> on.\<close>

fun sip_loop :: "sip_state \<Rightarrow> u8 list \<Rightarrow> sip_state \<times> u8 list" where
  "sip_loop v iter =
     (if length iter < 8 then (v, iter)
      else sip_loop (sip_absorb v (unpack64 iter)) (drop 8 iter))"

declare sip_loop.simps [simp del]

text \<open>\<open>switch (num_left)\<close> with fall-through from the highest byte down.\<close>

definition sip_tail :: "u64 \<Rightarrow> u8 list \<Rightarrow> u64" where
  "sip_tail b iter =
     (let n = length iter;
          b = (if n \<ge> 7 then b OR byte_at iter 6 48 else b);
          b = (if n \<ge> 6 then b OR byte_at iter 5 40 else b);
          b = (if n \<ge> 5 then b OR byte_at iter 4 32 else b);
          b = (if n \<ge> 4 then b OR byte_at iter 3 24 else b);
          b = (if n \<ge> 3 then b OR byte_at iter 2 16 else b);
          b = (if n \<ge> 2 then b OR byte_at iter 1 8 else b)
      in if n \<ge> 1 then b OR byte_at iter 0 0 else b)"

definition sip_init :: "u8 list \<Rightarrow> sip_state" where
  "sip_init seed =
     (let k0 = unpack64 seed; k1 = unpack64 (drop 8 seed)
      in (0x736f6d6570736575 XOR k0, 0x646f72616e646f6d XOR k1,
          0x6c7967656e657261 XOR k0, 0x7465646279746573 XOR k1))"

definition sip_final :: "sip_state \<Rightarrow> u64" where
  "sip_final v =
     (case v of (v0, v1, v2, v3) \<Rightarrow>
        case (sipround ^^ D_ROUNDS) (v0, v1, v2 XOR 0xff, v3) of
          (w0, w1, w2, w3) \<Rightarrow> w0 XOR w1 XOR w2 XOR w3)"

definition jaeger_siphash :: "u8 list \<Rightarrow> u8 list \<Rightarrow> u64" where
  "jaeger_siphash buffer seed =
     (let b = push_bit 56 (of_nat (length buffer));
          (v, iter) = sip_loop (sip_init seed) buffer;
          b = sip_tail b iter
      in sip_final (sip_absorb v b))"

section \<open>The specification\<close>

definition sip_pad :: "u8 list \<Rightarrow> u8 list" where
  "sip_pad msg = msg @ replicate (7 - length msg mod 8) 0 @ [of_nat (length msg)]"

fun sip_words :: "u8 list \<Rightarrow> u64 list" where
  "sip_words bs = (if length bs < 8 then [] else unpack64 bs # sip_words (drop 8 bs))"

declare sip_words.simps [simp del]

definition siphash_2_4 :: "u8 list \<Rightarrow> u8 list \<Rightarrow> u64" where
  "siphash_2_4 msg seed = sip_final (fold (\<lambda>w v. sip_absorb v w) (sip_words (sip_pad msg)) (sip_init seed))"

section \<open>The code computes the specification\<close>

lemma byte_at_0 [simp]: "i < length b \<Longrightarrow> b ! i = 0 \<Longrightarrow> byte_at b i sh = 0"
  by (simp add: byte_at_def)

lemma byte_at_append1 [simp]: "i < length a \<Longrightarrow> byte_at (a @ b) i sh = byte_at a i sh"
  by (simp add: byte_at_def nth_append)

lemma unpack64_append: "8 \<le> length a \<Longrightarrow> unpack64 (a @ b) = unpack64 a"
  by (auto simp: unpack64_def byte_at_def nth_append)

text \<open>Consuming a prefix of whole blocks.\<close>

lemma sip_loop_rest:
  "snd (sip_loop v bs) = drop (8 * (length bs div 8)) bs"
proof (induction v bs rule: sip_loop.induct)
  case (1 v bs)
  show ?case
  proof (cases "length bs < 8")
    case True
    then show ?thesis by (subst sip_loop.simps) simp
  next
    case False
    then have "length bs div 8 = Suc ((length bs - 8) div 8)" by (simp add: le_div_geq)
    with False "1.IH" [of] show ?thesis
      by (subst sip_loop.simps) (simp add: drop_drop add.commute)
  qed
qed

lemma sip_loop_words:
  assumes "length t = 8"
  shows "fold (\<lambda>w v. sip_absorb v w) (sip_words (bs @ drop (length bs mod 8) t)) v =
    (let (v', r) = sip_loop v bs in sip_absorb v' (unpack64 (r @ drop (length bs mod 8) t)))"
proof (induction v bs rule: sip_loop.induct)
  case (1 v bs)
  show ?case
  proof (cases "length bs < 8")
    case True
    with assms have l: "length (bs @ drop (length bs mod 8) t) = 8" by simp
    then have "sip_words (bs @ drop (length bs mod 8) t) = [unpack64 (bs @ drop (length bs mod 8) t)]"
      by (subst sip_words.simps, simp) (subst sip_words.simps, simp)
    with True show ?thesis by (subst sip_loop.simps) simp
  next
    case False
    let ?t = "drop (length bs mod 8) t"
    have m: "length (drop 8 bs) mod 8 = length bs mod 8"
      using False by (simp add: le_mod_geq)
    have "sip_words (bs @ ?t) = unpack64 bs # sip_words (drop 8 bs @ ?t)"
      using False by (subst sip_words.simps) (simp add: unpack64_append)
    with False "1.IH" m show ?thesis
      by (subst sip_loop.simps) simp
  qed
qed

text \<open>The fall-through \<open>switch\<close> builds the last word of the padded message.\<close>

lemma sip_tail_word:
  assumes "length r < 8"
  shows "sip_tail (push_bit 56 (ucast len)) r = unpack64 (r @ replicate (7 - length r) 0 @ [len])"
proof -
  define p where "p = r @ replicate (7 - length r) 0 @ [len]"
  have last: "byte_at p 7 56 = push_bit 56 (ucast len)"
    using assms by (simp add: p_def byte_at_def nth_append)
  have in_r: "byte_at p i sh = byte_at r i sh" if "i < length r" for i sh
    using that by (simp add: p_def byte_at_def nth_append)
  have in_0: "byte_at p i sh = 0" if "length r \<le> i" "i < 7" for i sh
    using that by (simp add: p_def byte_at_def nth_append)
  from assms consider "length r = 0" | "length r = 1" | "length r = 2" | "length r = 3"
    | "length r = 4" | "length r = 5" | "length r = 6" | "length r = 7"
    by linarith
  then show ?thesis
    unfolding p_def [symmetric] unpack64_def last
    by cases (simp_all add: sip_tail_def Let_def in_r in_0 ac_simps)
qed

lemma push_bit_56_of_nat: "(push_bit 56 (of_nat n) :: u64) = push_bit 56 (ucast (of_nat n :: u8))"
  by (rule bit_word_eqI) (auto simp: bit_simps)

lemma siphash_eq: "jaeger_siphash buffer seed = siphash_2_4 buffer seed"
proof -
  let ?n = "length buffer"
  let ?t = "replicate 7 0 @ [of_nat ?n :: u8]"
  obtain v r where vr: "sip_loop (sip_init seed) buffer = (v, r)" by fastforce
  have r: "r = drop (8 * (?n div 8)) buffer"
    using sip_loop_rest [of "sip_init seed" buffer] vr by simp
  then have lr: "length r = ?n mod 8" by (simp add: minus_mult_div_eq_mod)
  have t: "drop (?n mod 8) ?t = replicate (7 - ?n mod 8) 0 @ [of_nat ?n]"
    by simp
  have "siphash_2_4 buffer seed = sip_final (sip_absorb v (unpack64 (r @ drop (?n mod 8) ?t)))"
    using sip_loop_words [of ?t buffer "sip_init seed"] vr
    by (simp add: siphash_2_4_def sip_pad_def)
  also have "unpack64 (r @ drop (?n mod 8) ?t) = sip_tail (push_bit 56 (of_nat ?n)) r"
    using sip_tail_word [of r "of_nat ?n"] lr by (simp add: push_bit_56_of_nat)
  finally show ?thesis
    by (simp add: jaeger_siphash_def vr)
qed


end
