(* ===== verification/Hashtable.thy ===== *)
theory Hashtable
  imports Alloc Siphash "HOL-Library.Multiset"
begin

text \<open>
  Key-value pairs and the hash table: \<open>src/jaegertracingc/key_value.c\<close>, \<open>hashtable.c\<close>.

  A node is its block and its pair; a bucket is the list of its nodes (the pointer structure of the
  buckets is the subject of \<open>Intrusive_List\<close>).  The 16-byte seed that \<open>hash_seed\<close> fills once from the
  system's random source is the argument \<open>seed\<close>.  A \<open>char*\<close> argument that the code asserts to be
  non-NULL is a \<open>string\<close>.  The load test \<open>((double) size + 1) / bucket_count >= 1.0\<close> divides by a power
  of two and is the comparison of integers written here as long as \<open>size\<close> is below \<open>2^53\<close>.

  \<open>ht_ok\<close> is the type invariant, \<open>ht_map\<close> the abstraction to a finite map from strings to strings and
  \<open>ht_ptrs\<close> the blocks a table owns.
\<close>

section \<open>Key-value pairs\<close>

record jaeger_key_value =
  kv_key :: "cstring option"
  kv_value :: "cstring option"

definition JAEGERTRACINGC_KEY_VALUE_INIT :: jaeger_key_value where
  "JAEGERTRACINGC_KEY_VALUE_INIT = \<lparr>kv_key = None, kv_value = None\<rparr>"

definition jaeger_key_value_destroy :: "jaeger_key_value \<Rightarrow> mem \<Rightarrow> (jaeger_key_value \<times> mem) option" where
  "jaeger_key_value_destroy kv m = do {
     m \<leftarrow> jaeger_free (map_option fst (kv_key kv)) m;
     m \<leftarrow> jaeger_free (map_option fst (kv_value kv)) m;
     Some (\<lparr>kv_key = None, kv_value = None\<rparr>, m)
   }"

definition jaeger_key_value_init ::
  "string \<Rightarrow> string \<Rightarrow> mem \<Rightarrow> (bool \<times> jaeger_key_value \<times> mem) option" where
  "jaeger_key_value_init key value m = do {
     let kv = JAEGERTRACINGC_KEY_VALUE_INIT;
     (k, m) \<leftarrow> jaeger_strdup (Some key) m;
     let kv = kv\<lparr>kv_key := k\<rparr>;
     if k = None then do {
       (kv, m) \<leftarrow> jaeger_key_value_destroy kv m;
       Some (False, kv, m)
     } else do {
       (v, m) \<leftarrow> jaeger_strdup (Some value) m;
       let kv = kv\<lparr>kv_value := v\<rparr>;
       if v = None then do {
         (kv, m) \<leftarrow> jaeger_key_value_destroy kv m;
         Some (False, kv, m)
       } else Some (True, kv, m)
     }
   }"

definition jaeger_key_value_copy ::
  "jaeger_key_value \<Rightarrow> jaeger_key_value \<Rightarrow> mem \<Rightarrow> (bool \<times> jaeger_key_value \<times> mem) option" where
  "jaeger_key_value_copy dst src m = do {
     k \<leftarrow> kv_key src;
     v \<leftarrow> kv_value src;
     jaeger_key_value_init (snd k) (snd v) m
   }"

section \<open>The hash table\<close>

type_synonym kv_node = "ptr \<times> jaeger_key_value"

record jaeger_hashtable =
  ht_size :: nat
  ht_order :: nat
  ht_buckets :: "(ptr \<times> kv_node list list) option"

definition JAEGERTRACINGC_HASHTABLE_INIT_ORDER :: nat where
  "JAEGERTRACINGC_HASHTABLE_INIT_ORDER = 4"

definition JAEGERTRACINGC_HASHTABLE_INIT :: jaeger_hashtable where
  "JAEGERTRACINGC_HASHTABLE_INIT = \<lparr>ht_size = 0, ht_order = 0, ht_buckets = None\<rparr>"

definition SIZEOF_KEY_VALUE_NODE :: nat where
  "SIZEOF_KEY_VALUE_NODE = 40"

definition SIZEOF_LIST :: nat where
  "SIZEOF_LIST = 16"

text \<open>\<open>1u << order\<close>, defined for a shift below the width of \<open>unsigned\<close>.\<close>

definition bucket_count :: "nat \<Rightarrow> nat option" where
  "bucket_count order = (if order < 32 then Some (2 ^ order) else None)"

definition jaeger_key_value_node_dealloc :: "kv_node \<Rightarrow> mem \<Rightarrow> mem option" where
  "jaeger_key_value_node_dealloc d m = do {
     (kv, m) \<leftarrow> jaeger_key_value_destroy (snd d) m;
     jaeger_free (Some (fst d)) m
   }"

definition jaeger_key_value_node_new :: "jaeger_key_value \<Rightarrow> mem \<Rightarrow> kv_node option \<times> mem" where
  "jaeger_key_value_node_new data m =
     (case jaeger_malloc SIZEOF_KEY_VALUE_NODE m of
        (None, m) \<Rightarrow> (None, m)
      | (Some p, m) \<Rightarrow> (Some (p, data), m))"

text \<open>\<open>jaeger_list_clear\<close> on the nodes of the buckets, in order.\<close>

fun dealloc_nodes :: "kv_node list \<Rightarrow> mem \<Rightarrow> mem option" where
  "dealloc_nodes [] m = Some m"
| "dealloc_nodes (n # ns) m = do {
     m \<leftarrow> jaeger_key_value_node_dealloc n m;
     dealloc_nodes ns m
   }"

definition jaeger_hashtable_clear :: "jaeger_hashtable \<Rightarrow> mem \<Rightarrow> (jaeger_hashtable \<times> mem) option" where
  "jaeger_hashtable_clear hashtable m = do {
     n \<leftarrow> bucket_count (ht_order hashtable);
     (p, buckets) \<leftarrow> ht_buckets hashtable;
     c_assert (n \<le> length buckets);
     m \<leftarrow> dealloc_nodes (concat (take n buckets)) m;
     Some (hashtable\<lparr>ht_buckets := Some (p, replicate n [] @ drop n buckets), ht_size := 0\<rparr>, m)
   }"

definition jaeger_hashtable_destroy :: "jaeger_hashtable \<Rightarrow> mem \<Rightarrow> (jaeger_hashtable \<times> mem) option" where
  "jaeger_hashtable_destroy hashtable m = do {
     (hashtable, m) \<leftarrow> jaeger_hashtable_clear hashtable m;
     m \<leftarrow> jaeger_free (map_option fst (ht_buckets hashtable)) m;
     Some (hashtable\<lparr>ht_buckets := None\<rparr>, m)
   }"

definition jaeger_hashtable_init :: "mem \<Rightarrow> (bool \<times> jaeger_hashtable \<times> mem) option" where
  "jaeger_hashtable_init m = do {
     let hashtable = JAEGERTRACINGC_HASHTABLE_INIT;
     n \<leftarrow> bucket_count JAEGERTRACINGC_HASHTABLE_INIT_ORDER;
     case jaeger_malloc (n * SIZEOF_LIST) m of
       (None, m) \<Rightarrow> do {
         (hashtable, m) \<leftarrow> jaeger_hashtable_destroy hashtable m;
         Some (False, hashtable, m)
       }
     | (Some p, m) \<Rightarrow>
         Some (True, \<lparr>ht_size = 0, ht_order = JAEGERTRACINGC_HASHTABLE_INIT_ORDER,
                     ht_buckets = Some (p, replicate n [])\<rparr>, m)
   }"

definition bytes_of :: "string \<Rightarrow> u8 list" where
  "bytes_of s = map (\<lambda>c. of_nat (of_char c)) s"

definition jaeger_hashtable_hash :: "u8 list \<Rightarrow> string \<Rightarrow> u64" where
  "jaeger_hashtable_hash seed key = jaeger_siphash (bytes_of key) seed"

text \<open>\<open>hash_code & (bucket_count - 1)\<close>\<close>

definition bucket_index :: "u64 \<Rightarrow> nat \<Rightarrow> nat" where
  "bucket_index hash_code n = unat (hash_code AND (of_nat n - 1))"

text \<open>The loops of \<open>jaeger_hashtable_rehash\<close>: every node, in order, moves to its new bucket.\<close>

fun rehash_nodes :: "u8 list \<Rightarrow> nat \<Rightarrow> kv_node list \<Rightarrow> kv_node list list \<Rightarrow> kv_node list list option" where
  "rehash_nodes seed n [] new_buckets = Some new_buckets"
| "rehash_nodes seed n (entry # rest) new_buckets = do {
     key \<leftarrow> kv_key (snd entry);
     let index = bucket_index (jaeger_hashtable_hash seed (snd key)) n;
     c_assert (index < length new_buckets);
     rehash_nodes seed n rest (new_buckets[index := new_buckets ! index @ [entry]])
   }"

definition jaeger_hashtable_rehash ::
  "u8 list \<Rightarrow> jaeger_hashtable \<Rightarrow> mem \<Rightarrow> (bool \<times> jaeger_hashtable \<times> mem) option" where
  "jaeger_hashtable_rehash seed hashtable m = do {
     new_bucket_count \<leftarrow> bucket_count (ht_order hashtable + 1);
     case jaeger_malloc (new_bucket_count * SIZEOF_LIST) m of
       (None, m) \<Rightarrow> Some (False, hashtable, m)
     | (Some new_p, m) \<Rightarrow> do {
         old_bucket_count \<leftarrow> bucket_count (ht_order hashtable);
         (p, buckets) \<leftarrow> ht_buckets hashtable;
         c_assert (old_bucket_count \<le> length buckets);
         new_buckets \<leftarrow> rehash_nodes seed new_bucket_count (concat (take old_bucket_count buckets))
                          (replicate new_bucket_count []);
         m \<leftarrow> jaeger_free (Some p) m;
         Some (True, hashtable\<lparr>ht_buckets := Some (new_p, new_buckets), ht_order := ht_order hashtable + 1\<rparr>, m)
       }
   }"

text \<open>The walk over a bucket: the position of the first node whose key equals \<open>key\<close>.\<close>

fun find_node :: "string \<Rightarrow> kv_node list \<Rightarrow> nat \<Rightarrow> nat option option" where
  "find_node key [] i = Some None"
| "find_node key (node # rest) i = do {
     k \<leftarrow> kv_key (snd node);
     if snd k = key then Some (Some i) else find_node key rest (Suc i)
   }"

text \<open>The result names the bucket and, if found, the node's position in it.\<close>

definition jaeger_hashtable_internal_lookup ::
  "u8 list \<Rightarrow> jaeger_hashtable \<Rightarrow> string \<Rightarrow> (nat option \<times> nat) option" where
  "jaeger_hashtable_internal_lookup seed hashtable key = do {
     n \<leftarrow> bucket_count (ht_order hashtable);
     let index = bucket_index (jaeger_hashtable_hash seed key) n;
     (p, buckets) \<leftarrow> ht_buckets hashtable;
     c_assert (index < length buckets);
     node \<leftarrow> find_node key (buckets ! index) 0;
     Some (node, index)
   }"

definition jaeger_hashtable_find ::
  "u8 list \<Rightarrow> jaeger_hashtable \<Rightarrow> string \<Rightarrow> jaeger_key_value option option" where
  "jaeger_hashtable_find seed hashtable key = do {
     (node, bucket) \<leftarrow> jaeger_hashtable_internal_lookup seed hashtable key;
     (p, buckets) \<leftarrow> ht_buckets hashtable;
     Some (map_option (\<lambda>i. snd (buckets ! bucket ! i)) node)
   }"

text \<open>\<open>jaeger_hashtable_put\<close>: the part after the load test, then the whole function.\<close>

definition put_entry ::
  "u8 list \<Rightarrow> jaeger_hashtable \<Rightarrow> string \<Rightarrow> string \<Rightarrow> mem \<Rightarrow> (bool \<times> jaeger_hashtable \<times> mem) option" where
  "put_entry seed hashtable key value m = do {
     (entry, bucket) \<leftarrow> jaeger_hashtable_internal_lookup seed hashtable key;
     (p, buckets) \<leftarrow> ht_buckets hashtable;
     case entry of
       Some i \<Rightarrow> do {
         (value_copy, m) \<leftarrow> jaeger_strdup (Some value) m;
         if value_copy = None then Some (False, hashtable, m)
         else do {
           let node = buckets ! bucket ! i;
           m \<leftarrow> jaeger_free (map_option fst (kv_value (snd node))) m;
           let node' = (fst node, (snd node)\<lparr>kv_value := value_copy\<rparr>);
           Some (True, hashtable\<lparr>ht_buckets := Some (p, buckets[bucket := (buckets ! bucket)[i := node']])\<rparr>, m)
         }
       }
     | None \<Rightarrow> do {
         (ok, kv, m) \<leftarrow> jaeger_key_value_init key value m;
         if \<not> ok then do {
           (kv, m) \<leftarrow> jaeger_key_value_destroy kv m;
           Some (False, hashtable, m)
         } else
           (case jaeger_key_value_node_new kv m of
              (None, m) \<Rightarrow> do {
                (kv, m) \<leftarrow> jaeger_key_value_destroy kv m;
                Some (False, hashtable, m)
              }
            | (Some entry, m) \<Rightarrow>
                Some (True, hashtable\<lparr>ht_buckets := Some (p, buckets[bucket := buckets ! bucket @ [entry]]),
                                      ht_size := ht_size hashtable + 1\<rparr>, m))
       }
   }"

definition jaeger_hashtable_put ::
  "u8 list \<Rightarrow> jaeger_hashtable \<Rightarrow> string \<Rightarrow> string \<Rightarrow> mem \<Rightarrow> (bool \<times> jaeger_hashtable \<times> mem) option" where
  "jaeger_hashtable_put seed hashtable key value m = do {
     n \<leftarrow> bucket_count (ht_order hashtable);
     (ok, hashtable, m) \<leftarrow>
       (if ht_size hashtable + 1 \<ge> n then jaeger_hashtable_rehash seed hashtable m
        else Some (True, hashtable, m));
     if \<not> ok then Some (False, hashtable, m)
     else put_entry seed hashtable key value m
   }"

text \<open>\<open>jaeger_hashtable_remove\<close>; note that \<open>size\<close> keeps its value.\<close>

definition jaeger_hashtable_remove ::
  "u8 list \<Rightarrow> jaeger_hashtable \<Rightarrow> string \<Rightarrow> mem \<Rightarrow> (jaeger_hashtable \<times> mem) option" where
  "jaeger_hashtable_remove seed hashtable key m = do {
     (node, bucket) \<leftarrow> jaeger_hashtable_internal_lookup seed hashtable key;
     (p, buckets) \<leftarrow> ht_buckets hashtable;
     case node of
       None \<Rightarrow> Some (hashtable, m)
     | Some i \<Rightarrow> do {
         let b = buckets ! bucket;
         m \<leftarrow> jaeger_key_value_node_dealloc (b ! i) m;
         Some (hashtable\<lparr>ht_buckets := Some (p, buckets[bucket := take i b @ drop (Suc i) b])\<rparr>, m)
       }
   }"

text \<open>
  \<open>jaeger_hashtable_minimal_order\<close>, in both variants: \<open>32 - clz(size)\<close> is the number of binary digits.
\<close>

fun bit_length :: "nat \<Rightarrow> nat" where
  "bit_length n = (if n = 0 then 0 else Suc (bit_length (n div 2)))"

declare bit_length.simps [simp del]

function minimal_order_loop :: "nat \<Rightarrow> u32 \<Rightarrow> nat option" where
  "minimal_order_loop order sz =
     (if order \<ge> 32 then None
      else if (2 :: u32) ^ order < sz then minimal_order_loop (Suc order) sz
      else Some order)"
  by pat_completeness auto
termination
  by (relation "measure (\<lambda>(order, sz). 32 - order)") auto

declare minimal_order_loop.simps [simp del]

definition jaeger_hashtable_minimal_order :: "bool \<Rightarrow> u32 \<Rightarrow> nat option" where
  "jaeger_hashtable_minimal_order have_builtin sz =
     (if sz < of_nat JAEGERTRACINGC_HASHTABLE_INIT_ORDER then Some JAEGERTRACINGC_HASHTABLE_INIT_ORDER
      else if have_builtin then Some (bit_length (unat sz))
      else minimal_order_loop 0 sz)"

fun copy_nodes ::
  "u8 list \<Rightarrow> kv_node list \<Rightarrow> jaeger_hashtable \<Rightarrow> mem \<Rightarrow> (bool \<times> jaeger_hashtable \<times> mem) option" where
  "copy_nodes seed [] dst m = Some (True, dst, m)"
| "copy_nodes seed (entry # rest) dst m = do {
     k \<leftarrow> kv_key (snd entry);
     v \<leftarrow> kv_value (snd entry);
     (ok, dst, m) \<leftarrow> jaeger_hashtable_put seed dst (snd k) (snd v) m;
     if ok then copy_nodes seed rest dst m else Some (False, dst, m)
   }"

definition jaeger_hashtable_copy ::
  "bool \<Rightarrow> u8 list \<Rightarrow> jaeger_hashtable \<Rightarrow> mem \<Rightarrow> (bool \<times> jaeger_hashtable \<times> mem) option" where
  "jaeger_hashtable_copy have_builtin seed src m =
     (if ht_size src = 0 then jaeger_hashtable_init m
      else do {
        let dst = JAEGERTRACINGC_HASHTABLE_INIT;
        order \<leftarrow> jaeger_hashtable_minimal_order have_builtin (of_nat (ht_size src));
        n \<leftarrow> bucket_count order;
        case jaeger_malloc (n * SIZEOF_LIST) m of
          (None, m) \<Rightarrow> do {
            (dst, m) \<leftarrow> jaeger_hashtable_destroy dst m;
            Some (False, dst, m)
          }
        | (Some p, m) \<Rightarrow> do {
            let dst = dst\<lparr>ht_buckets := Some (p, replicate n []), ht_order := order\<rparr>;
            len \<leftarrow> bucket_count (ht_order src);
            (src_p, src_buckets) \<leftarrow> ht_buckets src;
            c_assert (len \<le> length src_buckets);
            (ok, dst, m) \<leftarrow> copy_nodes seed (concat (take len src_buckets)) dst m;
            if ok then do {
              c_assert (ht_size dst = ht_size src);
              Some (True, dst, m)
            } else do {
              (dst, m) \<leftarrow> jaeger_hashtable_destroy dst m;
              Some (False, dst, m)
            }
          }
      })"

section \<open>Abstraction, invariant, ownership\<close>

definition node_key :: "kv_node \<Rightarrow> string" where
  "node_key n = (case kv_key (snd n) of None \<Rightarrow> [] | Some k \<Rightarrow> snd k)"

definition node_value :: "kv_node \<Rightarrow> string" where
  "node_value n = (case kv_value (snd n) of None \<Rightarrow> [] | Some v \<Rightarrow> snd v)"

definition node_ok :: "kv_node \<Rightarrow> bool" where
  "node_ok n \<longleftrightarrow> kv_key (snd n) \<noteq> None \<and> kv_value (snd n) \<noteq> None"

definition kv_ptrs :: "jaeger_key_value \<Rightarrow> ptr list" where
  "kv_ptrs kv = cs_ptrs (kv_key kv) @ cs_ptrs (kv_value kv)"

definition node_ptrs :: "kv_node \<Rightarrow> ptr list" where
  "node_ptrs n = fst n # kv_ptrs (snd n)"

definition nodes_ptrs :: "kv_node list \<Rightarrow> ptr list" where
  "nodes_ptrs ns = concat (map node_ptrs ns)"

definition nodes_map :: "kv_node list \<Rightarrow> string \<rightharpoonup> string" where
  "nodes_map ns = map_of (map (\<lambda>n. (node_key n, node_value n)) ns)"

definition ht_nodes :: "jaeger_hashtable \<Rightarrow> kv_node list" where
  "ht_nodes ht = (case ht_buckets ht of None \<Rightarrow> [] | Some (_, bs) \<Rightarrow> concat bs)"

definition ht_map :: "jaeger_hashtable \<Rightarrow> string \<rightharpoonup> string" where
  "ht_map ht = nodes_map (ht_nodes ht)"

definition ht_ptrs :: "jaeger_hashtable \<Rightarrow> ptr list" where
  "ht_ptrs ht = (case ht_buckets ht of None \<Rightarrow> [] | Some (p, bs) \<Rightarrow> p # nodes_ptrs (concat bs))"

definition in_bucket :: "u8 list \<Rightarrow> nat \<Rightarrow> nat \<Rightarrow> kv_node \<Rightarrow> bool" where
  "in_bucket seed n i x \<longleftrightarrow> node_ok x \<and> bucket_index (jaeger_hashtable_hash seed (node_key x)) n = i"

definition buckets_ok :: "u8 list \<Rightarrow> nat \<Rightarrow> kv_node list list \<Rightarrow> bool" where
  "buckets_ok seed k bs \<longleftrightarrow>
     k < 32 \<and> length bs = 2 ^ k \<and> (\<forall>i<2 ^ k. \<forall>x\<in>set (bs ! i). in_bucket seed (2 ^ k) i x) \<and>
     distinct (map node_key (concat bs))"

definition ht_ok :: "u8 list \<Rightarrow> jaeger_hashtable \<Rightarrow> bool" where
  "ht_ok seed ht \<longleftrightarrow>
     (case ht_buckets ht of
        None \<Rightarrow> False
      | Some (p, bs) \<Rightarrow> buckets_ok seed (ht_order ht) bs \<and> length (concat bs) \<le> ht_size ht)"

text \<open>The count field is exact; \<open>jaeger_hashtable_remove\<close> loses this.\<close>

definition ht_sized :: "jaeger_hashtable \<Rightarrow> bool" where
  "ht_sized ht \<longleftrightarrow> ht_size ht = length (ht_nodes ht)"

section \<open>Lemmas on nodes\<close>

lemma bucket_index_less: "k < 32 \<Longrightarrow> bucket_index h (2 ^ k) < 2 ^ k"
proof -
  assume k: "k < 32"
  have "of_nat (2 ^ k) - 1 = (mask k :: u64)" by (simp add: mask_eq_exp_minus_1)
  then have "bucket_index h (2 ^ k) = unat (take_bit k h)"
    by (simp add: bucket_index_def take_bit_eq_mask)
  also have "\<dots> = take_bit k (unat h)" by (simp add: unsigned_take_bit_eq)
  also have "\<dots> < 2 ^ k" by (rule take_bit_nat_less_exp)
  finally show ?thesis .
qed

lemma nodes_ptrs_simps [simp]:
  "nodes_ptrs [] = []" "nodes_ptrs (n # ns) = node_ptrs n @ nodes_ptrs ns"
  "nodes_ptrs (ms @ ns) = nodes_ptrs ms @ nodes_ptrs ns"
  by (simp_all add: nodes_ptrs_def)

lemma nodes_ptrs_mset: "mset ns = mset ms \<Longrightarrow> mset (nodes_ptrs ns) = mset (nodes_ptrs ms)"
  by (simp add: nodes_ptrs_def mset_concat flip: sum_mset_sum_list)

lemma nodes_map_mset:
  assumes "mset ns = mset ms" and "distinct (map node_key ms)"
  shows "distinct (map node_key ns)" and "nodes_map ns = nodes_map ms"
proof -
  from assms(1) have "mset (map node_key ns) = mset (map node_key ms)" by simp
  with assms(2) show d: "distinct (map node_key ns)" by (metis mset_eq_imp_distinct_iff)
  have "set ns = set ms" using assms(1) by (rule mset_eq_setD)
  moreover have "map fst (map (\<lambda>n. (node_key n, node_value n)) xs) = map node_key xs" for xs
    by (simp add: comp_def)
  ultimately show "nodes_map ns = nodes_map ms"
    unfolding nodes_map_def using d assms(2) by (subst map_of_inject_set) (simp_all add: comp_def)
qed

lemma nodes_map_insert:
  assumes "node_key n \<notin> node_key ` set (xs @ ys)"
  shows "nodes_map (xs @ n # ys) = (nodes_map (xs @ ys))(node_key n \<mapsto> node_value n)"
    and "nodes_map (xs @ ys) (node_key n) = None"
proof -
  show "nodes_map (xs @ ys) (node_key n) = None"
    using assms by (auto simp: nodes_map_def map_add_def map_of_eq_None_iff split: option.split)
  show "nodes_map (xs @ n # ys) = (nodes_map (xs @ ys))(node_key n \<mapsto> node_value n)"
    using assms
    by (auto simp: nodes_map_def fun_eq_iff map_add_def map_of_eq_None_iff split: option.split)
      (force simp: map_of_eq_None_iff dest: map_of_SomeD)+
qed

lemma nodes_map_None: "k \<notin> node_key ` set ns \<Longrightarrow> nodes_map ns k = None"
  by (auto simp: nodes_map_def map_of_eq_None_iff)

text \<open>Replacing, removing and appending a node, seen on the concatenated buckets.\<close>

lemma nodes_split:
  assumes "i < length bs" and "j < length (bs ! i)"
  obtains xs ys where "concat bs = xs @ (bs ! i ! j) # ys"
    and "\<And>y. concat (bs[i := (bs ! i)[j := y]]) = xs @ y # ys"
    and "concat (bs[i := take j (bs ! i) @ drop (Suc j) (bs ! i)]) = xs @ ys"
proof (rule that [of "concat (take i bs) @ take j (bs ! i)" "drop (Suc j) (bs ! i) @ concat (drop (Suc i) bs)"])
  show "concat bs = (concat (take i bs) @ take j (bs ! i)) @ (bs ! i ! j) # drop (Suc j) (bs ! i) @ concat (drop (Suc i) bs)"
    using assms by (subst concat_split [OF assms(1)]) (simp add: id_take_nth_drop [symmetric])
  show "concat (bs[i := (bs ! i)[j := y]]) = (concat (take i bs) @ take j (bs ! i)) @ y # drop (Suc j) (bs ! i) @ concat (drop (Suc i) bs)" for y
    using assms by (subst concat_update_split [OF assms(1)]) (simp add: upd_conv_take_nth_drop)
  show "concat (bs[i := take j (bs ! i) @ drop (Suc j) (bs ! i)]) =
      (concat (take i bs) @ take j (bs ! i)) @ drop (Suc j) (bs ! i) @ concat (drop (Suc i) bs)"
    by (subst concat_update_split [OF assms(1)]) simp
qed

lemma nodes_append:
  assumes "i < length bs"
  obtains xs ys where "concat bs = xs @ ys" and "\<And>y. concat (bs[i := bs ! i @ [y]]) = xs @ y # ys"
proof (rule that [of "concat (take i bs) @ bs ! i" "concat (drop (Suc i) bs)"])
  show "concat bs = (concat (take i bs) @ bs ! i) @ concat (drop (Suc i) bs)"
    using concat_split [OF assms] by simp
  show "concat (bs[i := bs ! i @ [y]]) = (concat (take i bs) @ bs ! i) @ y # concat (drop (Suc i) bs)" for y
    using concat_update_split [OF assms] by simp
qed

section \<open>Lookup\<close>

lemma find_node_spec:
  assumes "\<forall>x\<in>set b. node_ok x"
  shows "\<exists>r. find_node k b j = Some r \<and>
    (case r of None \<Rightarrow> k \<notin> node_key ` set b
     | Some i \<Rightarrow> j \<le> i \<and> i < j + length b \<and> node_key (b ! (i - j)) = k)"
  using assms
proof (induction b arbitrary: j)
  case (Cons x b)
  then obtain kp where x: "kv_key (snd x) = Some kp" "node_key x = snd kp"
    by (auto simp: node_ok_def node_key_def)
  show ?case
  proof (cases "snd kp = k")
    case True
    with x show ?thesis by auto
  next
    case False
    from Cons obtain r where r: "find_node k b (Suc j) = Some r"
      "case r of None \<Rightarrow> k \<notin> node_key ` set b
       | Some i \<Rightarrow> Suc j \<le> i \<and> i < Suc j + length b \<and> node_key (b ! (i - Suc j)) = k" by fastforce
    with x False show ?thesis
      by (cases r) (auto simp: nth_Cons' Suc_diff_Suc)
  qed
qed auto

lemma ht_okE:
  assumes "ht_ok seed ht"
  obtains p bs where "ht_buckets ht = Some (p, bs)" and "buckets_ok seed (ht_order ht) bs"
    and "length (concat bs) \<le> ht_size ht" and "ht_nodes ht = concat bs"
    and "ht_ptrs ht = p # nodes_ptrs (concat bs)" and "ht_map ht = nodes_map (concat bs)"
  using assms by (auto simp: ht_ok_def ht_nodes_def ht_ptrs_def ht_map_def split: option.splits)

lemma buckets_okD:
  assumes "buckets_ok seed k bs"
  shows "k < 32" and "length bs = 2 ^ k" and "distinct (map node_key (concat bs))"
    and "i < 2 ^ k \<Longrightarrow> x \<in> set (bs ! i) \<Longrightarrow> in_bucket seed (2 ^ k) i x"
  using assms by (auto simp: buckets_ok_def)

text \<open>A key absent from its bucket is absent from the table.\<close>

lemma absent_from_bucket:
  assumes "buckets_ok seed k bs" and "key \<notin> node_key ` set (bs ! bucket_index (jaeger_hashtable_hash seed key) (2 ^ k))"
  shows "key \<notin> node_key ` set (concat bs)"
proof
  assume "key \<in> node_key ` set (concat bs)"
  then obtain i x where i: "i < length bs" "x \<in> set (bs ! i)" "key = node_key x"
    by (auto simp: in_set_conv_nth [of _ bs])
  with buckets_okD(2,4) [OF assms(1)] have "in_bucket seed (2 ^ k) i x" by simp
  with i assms(2) show False by (auto simp: in_bucket_def)
qed

lemma lookup_spec:
  assumes h: "ht_ok seed ht" and b: "ht_buckets ht = Some (p, bs)"
  obtains r i where "jaeger_hashtable_internal_lookup seed ht key = Some (r, i)" and "i < length bs"
    and "i = bucket_index (jaeger_hashtable_hash seed key) (2 ^ ht_order ht)"
    and "r = None \<Longrightarrow> key \<notin> node_key ` set (concat bs)"
    and "\<And>j. r = Some j \<Longrightarrow> j < length (bs ! i) \<and> node_key (bs ! i ! j) = key"
proof -
  have ok: "buckets_ok seed (ht_order ht) bs" using h b by (simp add: ht_ok_def)
  define i where "i = bucket_index (jaeger_hashtable_hash seed key) (2 ^ ht_order ht)"
  have i: "i < length bs" using bucket_index_less buckets_okD(1,2) [OF ok] by (simp add: i_def)
  have "\<forall>x\<in>set (bs ! i). node_ok x" using buckets_okD(2,4) [OF ok] i by (auto simp: in_bucket_def)
  from find_node_spec [OF this, of key 0] obtain r where r: "find_node key (bs ! i) 0 = Some r"
    "case r of None \<Rightarrow> key \<notin> node_key ` set (bs ! i)
     | Some j \<Rightarrow> 0 \<le> j \<and> j < 0 + length (bs ! i) \<and> node_key (bs ! i ! (j - 0)) = key" by blast
  show thesis
  proof (rule that [OF _ i i_def])
    show "jaeger_hashtable_internal_lookup seed ht key = Some (r, i)"
      using b r(1) i buckets_okD(1) [OF ok]
      by (simp add: jaeger_hashtable_internal_lookup_def bucket_count_def Let_def flip: i_def)
    show "key \<notin> node_key ` set (concat bs)" if "r = None"
      using absent_from_bucket [OF ok] r(2) that by (simp add: i_def)
    show "j < length (bs ! i) \<and> node_key (bs ! i ! j) = key" if "r = Some j" for j
      using r(2) that by simp
  qed
qed

lemma nodes_map_nth:
  assumes "distinct (map node_key (concat bs))" and "i < length bs" and "j < length (bs ! i)"
  shows "nodes_map (concat bs) (node_key (bs ! i ! j)) = Some (node_value (bs ! i ! j))"
proof -
  from nodes_split [OF assms(2,3)] obtain xs ys where c: "concat bs = xs @ (bs ! i ! j) # ys" .
  with assms(1) have "node_key (bs ! i ! j) \<notin> node_key ` set (xs @ ys)" by auto
  from nodes_map_insert(1) [OF this] c show ?thesis by simp
qed

text \<open>\<open>jaeger_hashtable_find\<close> returns the pair of the key, or NULL if the key has none.\<close>

definition kv_string :: "jaeger_key_value \<Rightarrow> string" where
  "kv_string kv = (case kv_value kv of None \<Rightarrow> [] | Some v \<Rightarrow> snd v)"

lemma find_spec:
  assumes h: "ht_ok seed ht"
  shows "\<exists>r. jaeger_hashtable_find seed ht key = Some r \<and> map_option kv_string r = ht_map ht key"
proof -
  from h obtain p bs where b: "ht_buckets ht = Some (p, bs)" "buckets_ok seed (ht_order ht) bs"
    "ht_map ht = nodes_map (concat bs)" by (rule ht_okE)
  from lookup_spec [OF h b(1)] obtain r i where l: "jaeger_hashtable_internal_lookup seed ht key = Some (r, i)"
    "i < length bs" "r = None \<Longrightarrow> key \<notin> node_key ` set (concat bs)"
    "\<And>j. r = Some j \<Longrightarrow> j < length (bs ! i) \<and> node_key (bs ! i ! j) = key" by metis
  show ?thesis
  proof (cases r)
    case None
    with l b show ?thesis by (simp add: jaeger_hashtable_find_def nodes_map_None)
  next
    case (Some j)
    with l(4) have j: "j < length (bs ! i)" "node_key (bs ! i ! j) = key" by auto
    from nodes_map_nth [OF buckets_okD(3) [OF b(2)] l(2) j(1)] j(2) l(1) b Some show ?thesis
      by (simp add: jaeger_hashtable_find_def kv_string_def node_value_def)
  qed
qed

lemma find_has_value:
  assumes h: "ht_ok seed ht" and f: "jaeger_hashtable_find seed ht key = Some (Some kv)"
  shows "kv_value kv \<noteq> None"
proof -
  from h obtain p bs where b: "ht_buckets ht = Some (p, bs)" "buckets_ok seed (ht_order ht) bs" by (rule ht_okE)
  from lookup_spec [OF h b(1)] obtain r i where l: "jaeger_hashtable_internal_lookup seed ht key = Some (r, i)"
    "i < length bs" "\<And>j. r = Some j \<Longrightarrow> j < length (bs ! i)" by metis
  from f l(1) b(1) obtain j where j: "r = Some j" "kv = snd (bs ! i ! j)" by (auto simp: jaeger_hashtable_find_def)
  with l(2,3) buckets_okD(2,4) [OF b(2)] have "node_ok (bs ! i ! j)" by (auto simp: in_bucket_def)
  with j(2) show ?thesis by (simp add: node_ok_def)
qed

section \<open>Key-value pairs: ownership\<close>

lemma kv_destroy_spec:
  assumes m: "mem_ok m" and o: "owns m (kv_ptrs kv)"
  obtains m' where "jaeger_key_value_destroy kv m = Some (JAEGERTRACINGC_KEY_VALUE_INIT, m')"
    and "mem_trans (set (kv_ptrs kv)) {} m m'"
proof -
  have ok: "owns m (cs_ptrs (kv_key kv))" "owns m (cs_ptrs (kv_value kv))"
    "set (cs_ptrs (kv_value kv)) \<inter> set (cs_ptrs (kv_key kv)) = {}"
    using o by (auto simp: kv_ptrs_def own_simps)
  from free_owned [OF m ok(1)] obtain m1 where m1: "jaeger_free (map_option fst (kv_key kv)) m = Some m1"
    "mem_trans (set (cs_ptrs (kv_key kv))) {} m m1" .
  from free_owned [OF mem_trans_ok [OF m1(2)] owns_frame(1) [OF m1(2) ok(2,3)]] obtain m2 where
    m2: "jaeger_free (map_option fst (kv_value kv)) m1 = Some m2"
    "mem_trans (set (cs_ptrs (kv_value kv))) {} m1 m2" .
  from mem_trans_release [OF m1(2) m2(2) _ ok(3) m] ok(2) m1(1) m2(1) that show thesis
    by (simp add: jaeger_key_value_destroy_def JAEGERTRACINGC_KEY_VALUE_INIT_def kv_ptrs_def owns_def)
qed

lemma kv_destroy_INIT [simp]:
  "jaeger_key_value_destroy JAEGERTRACINGC_KEY_VALUE_INIT m = Some (JAEGERTRACINGC_KEY_VALUE_INIT, m)"
  by (simp add: jaeger_key_value_destroy_def JAEGERTRACINGC_KEY_VALUE_INIT_def)

text \<open>\<open>jaeger_key_value_init\<close>: two fresh copies, or nothing is left allocated.\<close>

lemma kv_init_spec:
  assumes m: "mem_ok m"
  obtains ok kv m' where "jaeger_key_value_init k v m = Some (ok, kv, m')"
    and "ok \<Longrightarrow> (\<exists>p q. kv = \<lparr>kv_key = Some (p, k), kv_value = Some (q, v)\<rparr> \<and> p \<noteq> q) \<and>
      mem_trans {} (set (kv_ptrs kv)) m m'"
    and "\<not> ok \<Longrightarrow> kv = JAEGERTRACINGC_KEY_VALUE_INIT \<and> mem_trans {} {} m m' \<and> \<not> mem_plenty m"
proof -
  from jaeger_strdup_total obtain r m1 where s1: "jaeger_strdup (Some k) m = Some (r, m1)" by blast
  show thesis
  proof (cases r)
    case None
    with s1 jaeger_strdup_NoneD [of k m m1] jaeger_strdup_plenty [of m k m1] m show thesis
      by (intro that [of False JAEGERTRACINGC_KEY_VALUE_INIT m1])
        (auto simp: jaeger_key_value_init_def JAEGERTRACINGC_KEY_VALUE_INIT_def jaeger_key_value_destroy_def)
  next
    case (Some kp)
    have a1: "snd kp = k" "mem_trans {} {fst kp} m m1"
      using jaeger_strdup_SomeD [of k m kp m1] s1 Some m by auto
    note ok1 = mem_trans_ok [OF a1(2)]
    from jaeger_strdup_total obtain r' m2 where s2: "jaeger_strdup (Some v) m1 = Some (r', m2)" by blast
    show thesis
    proof (cases r')
      case None
      have n: "mem_trans {} {} m1 m2" using jaeger_strdup_NoneD [of v m1 m2] s2 None ok1 by simp
      have al: "mem_trans {} {fst kp} m m2" using mem_trans_alloc2(1) [OF a1(2) n m] by simp
      have np: "\<not> mem_plenty m" using jaeger_strdup_plenty [OF ok1] s2 None mem_plenty_trans [OF a1(2)] by auto
      let ?kv = "\<lparr>kv_key = Some kp, kv_value = None\<rparr>"
      have "owns m2 (kv_ptrs ?kv)" using mem_trans_dom [OF al] by (auto simp: kv_ptrs_def own_simps)
      from kv_destroy_spec [OF mem_trans_ok [OF al] this] obtain m3 where
        d: "jaeger_key_value_destroy ?kv m2 = Some (JAEGERTRACINGC_KEY_VALUE_INIT, m3)"
        "mem_trans (set (kv_ptrs ?kv)) {} m2 m3" .
      have "mem_trans {} {} m m3" using mem_trans_trans [OF al _ m] d(2) by (simp add: kv_ptrs_def)
      with s1 s2 Some None d(1) np show thesis
        by (intro that [of False JAEGERTRACINGC_KEY_VALUE_INIT m3])
          (simp_all add: jaeger_key_value_init_def JAEGERTRACINGC_KEY_VALUE_INIT_def)
    next
      case (Some vp)
      have a2: "snd vp = v" "mem_trans {} {fst vp} m1 m2"
        using jaeger_strdup_SomeD [of v m1 vp m2] s2 Some ok1 by auto
      note two = mem_trans_alloc2 [OF a1(2) a2(2) m]
      show thesis
      proof (rule that [of True "\<lparr>kv_key = Some kp, kv_value = Some vp\<rparr>" m2])
        show "jaeger_key_value_init k v m = Some (True, \<lparr>kv_key = Some kp, kv_value = Some vp\<rparr>, m2)"
          using s1 s2 Some \<open>r = Some kp\<close>
          by (simp add: jaeger_key_value_init_def JAEGERTRACINGC_KEY_VALUE_INIT_def)
        have "kp = (fst kp, k)" "vp = (fst vp, v)" "fst kp \<noteq> fst vp"
          using a1(1) a2(1) two(2) by (simp_all add: prod_eq_iff)
        then show "(\<exists>p q. \<lparr>kv_key = Some kp, kv_value = Some vp\<rparr> = \<lparr>kv_key = Some (p, k), kv_value = Some (q, v)\<rparr> \<and> p \<noteq> q) \<and>
            mem_trans {} (set (kv_ptrs \<lparr>kv_key = Some kp, kv_value = Some vp\<rparr>)) m m2"
          using two(1) by (metis kv_ptrs_def cs_ptrs_simps(2) jaeger_key_value.select_convs set_append list.set
              Un_insert_left sup_bot_left)
      qed simp
    qed
  qed
qed

section \<open>Growing the table\<close>

lemma rehash_nodes_spec:
  assumes "\<forall>x\<in>set ns. node_ok x" and "k < 32" and "length bs = 2 ^ k"
    and "\<forall>i<2 ^ k. \<forall>x\<in>set (bs ! i). in_bucket seed (2 ^ k) i x"
  shows "\<exists>bs'. rehash_nodes seed (2 ^ k) ns bs = Some bs' \<and> length bs' = 2 ^ k \<and>
    mset (concat bs') = mset (concat bs) + mset ns \<and>
    (\<forall>i<2 ^ k. \<forall>x\<in>set (bs' ! i). in_bucket seed (2 ^ k) i x)"
  using assms
proof (induction ns arbitrary: bs)
  case (Cons x ns)
  obtain kp where x: "kv_key (snd x) = Some kp" "node_key x = snd kp"
    using Cons.prems(1) by (auto simp: node_ok_def node_key_def)
  define j where "j = bucket_index (jaeger_hashtable_hash seed (snd kp)) (2 ^ k)"
  have j: "j < length bs" using bucket_index_less [OF Cons.prems(2)] Cons.prems(3) by (simp add: j_def)
  have "in_bucket seed (2 ^ k) j x" using Cons.prems(1) x by (simp add: in_bucket_def j_def)
  then have "\<forall>i<2 ^ k. \<forall>y\<in>set (bs[j := bs ! j @ [x]] ! i). in_bucket seed (2 ^ k) i y"
    using Cons.prems(3,4) j by (auto simp: nth_list_update)
  with Cons obtain bs' where ih: "rehash_nodes seed (2 ^ k) ns (bs[j := bs ! j @ [x]]) = Some bs'" "length bs' = 2 ^ k"
    "mset (concat bs') = mset (concat (bs[j := bs ! j @ [x]])) + mset ns"
    "\<forall>i<2 ^ k. \<forall>x\<in>set (bs' ! i). in_bucket seed (2 ^ k) i x" by (metis length_list_update list.set_intros(2))
  from nodes_append [OF j] obtain xs ys where "concat bs = xs @ ys" "concat (bs[j := bs ! j @ [x]]) = xs @ x # ys" by metis
  with ih(3) have "mset (concat bs') = mset (concat bs) + mset (x # ns)" by simp
  with ih x j show ?case by (auto simp: Let_def simp flip: j_def)
qed auto

text \<open>
  What every operation keeps between a table and its successor: the successor owns its blocks once,
  took over or released all of the old ones, and made the rest.
\<close>

definition ht_step :: "jaeger_hashtable \<Rightarrow> jaeger_hashtable \<Rightarrow> mem \<Rightarrow> mem \<Rightarrow> bool" where
  "ht_step ht ht' m m' \<longleftrightarrow>
     distinct (ht_ptrs ht') \<and> mem_trans (set (ht_ptrs ht)) (set (ht_ptrs ht')) m m'"

lemma ht_step_refl: "mem_ok m \<Longrightarrow> owns m (ht_ptrs ht) \<Longrightarrow> ht_step ht ht m m"
  by (simp add: ht_step_def owns_def mem_trans_keep)

lemma ht_step_trans: "ht_step ht ht' m m' \<Longrightarrow> ht_step ht' ht'' m' m'' \<Longrightarrow> mem_ok m \<Longrightarrow> ht_step ht ht'' m m''"
  unfolding ht_step_def using mem_trans_trans by blast

lemma ht_step_owns: "ht_step ht ht' m m' \<Longrightarrow> owns m' (ht_ptrs ht')"
  by (auto simp: ht_step_def owns_def mem_trans_def)

lemma ht_step_ok: "ht_step ht ht' m m' \<Longrightarrow> mem_ok m'"
  by (auto simp: ht_step_def mem_trans_def)

lemma ht_step_unchanged:
  assumes "mem_trans {} {} m m'" and "owns m (ht_ptrs ht)"
  shows "ht_step ht ht m m'"
  using mem_trans_local(1) [OF assms(1), of "set (ht_ptrs ht)"] assms(2) by (simp add: ht_step_def owns_def)

text \<open>Replacing the blocks \<open>A\<close> of a table by \<open>B\<close>.\<close>

lemma ht_step_replace:
  assumes "mem_trans A B m m'" and "owns m (ht_ptrs ht)" and "A \<subseteq> set (ht_ptrs ht)"
    and "set (ht_ptrs ht') = (set (ht_ptrs ht) - A) \<union> B"
    and "B \<inter> (set (ht_ptrs ht) - A) = {} \<Longrightarrow> distinct (ht_ptrs ht')"
  shows "ht_step ht ht' m m'"
  using mem_trans_local [OF assms(1), of "set (ht_ptrs ht)"] assms(2-5) by (auto simp: ht_step_def owns_def)

lemma rehash_spec:
  assumes h: "ht_ok seed ht" and m: "mem_ok m" and o: "owns m (ht_ptrs ht)" and k: "ht_order ht < 31"
  shows "\<exists>ok ht' m'. jaeger_hashtable_rehash seed ht m = Some (ok, ht', m') \<and> ht_ok seed ht' \<and>
    ht_map ht' = ht_map ht \<and> ht_size ht' = ht_size ht \<and> length (ht_nodes ht') = length (ht_nodes ht) \<and>
    ht_order ht' = ht_order ht + (if ok then 1 else 0) \<and> ht_step ht ht' m m' \<and> (mem_plenty m \<longrightarrow> ok)"
proof -
  from h obtain p bs where b: "ht_buckets ht = Some (p, bs)" "buckets_ok seed (ht_order ht) bs"
    "length (concat bs) \<le> ht_size ht" "ht_nodes ht = concat bs" "ht_ptrs ht = p # nodes_ptrs (concat bs)"
    "ht_map ht = nodes_map (concat bs)" by (rule ht_okE)
  let ?k = "Suc (ht_order ht)"
  have ok: "\<forall>x\<in>set (concat bs). node_ok x"
    using buckets_okD(2,4) [OF b(2)] by (auto simp: in_bucket_def in_set_conv_nth [of _ bs])
  have "\<forall>i<2 ^ ?k. \<forall>x\<in>set (replicate (2 ^ ?k) [] ! i). in_bucket seed (2 ^ ?k) i x" by simp
  from rehash_nodes_spec [OF ok _ _ this] k obtain bs' where
    r: "rehash_nodes seed (2 ^ ?k) (concat bs) (replicate (2 ^ ?k) []) = Some bs'" "length bs' = 2 ^ ?k"
    "mset (concat bs') = mset (concat bs)" "\<forall>i<2 ^ ?k. \<forall>x\<in>set (bs' ! i). in_bucket seed (2 ^ ?k) i x"
    by (auto simp del: power_Suc replicate_Suc)
  note nm = nodes_map_mset [OF r(3) buckets_okD(3) [OF b(2)]]
  have np: "mset (nodes_ptrs (concat bs')) = mset (nodes_ptrs (concat bs))" by (rule nodes_ptrs_mset [OF r(3)])
  have len: "length (concat bs') = length (concat bs)" using r(3) by (metis size_mset)
  obtain q m1 where al: "jaeger_malloc (2 ^ ?k * SIZEOF_LIST) m = (q, m1)" by fastforce
  show ?thesis
  proof (cases q)
    case None
    with al have "mem_trans {} {} m m1" using jaeger_malloc_NoneD m by blast
    from ht_step_unchanged [OF this o] al None k h jaeger_malloc_plenty [OF m] show ?thesis
      by (intro exI [of _ False] exI [of _ ht] exI [of _ m1])
        (auto simp: jaeger_hashtable_rehash_def bucket_count_def del: power_Suc)
  next
    case (Some new_p)
    have a: "mem_trans {} {new_p} m m1" using al Some jaeger_malloc_SomeD(1) m by blast
    have pd: "p \<in> dom (mem_blocks m)" using o b(5) by (simp add: own_simps)
    then have "p \<in> dom (mem_blocks m1)" using mem_trans_dom [OF a] by auto
    from jaeger_free_live [OF mem_trans_ok [OF a] this] obtain m2 where
      f: "jaeger_free (Some p) m1 = Some m2" "mem_trans {p} {} m1 m2" .
    have sw: "mem_trans {p} {new_p} m m2" using mem_trans_swap [OF a f(2) _ m] pd by simp
    let ?ht = "ht\<lparr>ht_buckets := Some (new_p, bs'), ht_order := ht_order ht + 1\<rparr>"
    have ptrs: "ht_ptrs ?ht = new_p # nodes_ptrs (concat bs')" by (simp add: ht_ptrs_def)
    have "ht_step ht ?ht m m2"
    proof (rule ht_step_replace [OF sw o])
      have d: "distinct (nodes_ptrs (concat bs'))" "set (nodes_ptrs (concat bs')) = set (nodes_ptrs (concat bs))"
        "p \<notin> set (nodes_ptrs (concat bs))"
        using o b(5) mset_eq_imp_distinct_iff [OF np] mset_eq_setD [OF np] by (simp_all add: owns_def)
      show "set (ht_ptrs ?ht) = set (ht_ptrs ht) - {p} \<union> {new_p}"
        unfolding ptrs b(5) list.set d(2) using d(3) by blast
      assume "{new_p} \<inter> (set (ht_ptrs ht) - {p}) = {}"
      with d(3) have "new_p \<notin> set (nodes_ptrs (concat bs'))" unfolding b(5) list.set d(2) by blast
      with d(1) show "distinct (ht_ptrs ?ht)" unfolding ptrs distinct.simps by blast
    qed (simp add: b(5))
    moreover have "ht_ok seed ?ht"
      using r(2,4) nm(1) len b(3) k by (simp add: ht_ok_def buckets_ok_def)
    moreover have "jaeger_hashtable_rehash seed ht m = Some (True, ?ht, m2)"
      using al Some k b(1) f(1) r(1) buckets_okD(2) [OF b(2)]
      by (simp add: jaeger_hashtable_rehash_def bucket_count_def)
    ultimately show ?thesis
      by (intro exI [of _ True] exI [of _ ?ht] exI [of _ m2])
        (use len nm(2) b in \<open>simp add: ht_map_def ht_nodes_def\<close>)
  qed
qed

section \<open>Insertion\<close>

text \<open>What a successful or failed insertion leaves behind.\<close>

definition put_post :: "u8 list \<Rightarrow> jaeger_hashtable \<Rightarrow> string \<Rightarrow> string \<Rightarrow> bool \<Rightarrow> jaeger_hashtable \<Rightarrow> bool" where
  "put_post seed ht k v ok ht' \<longleftrightarrow>
     ht_ok seed ht' \<and> ht_map ht' = (if ok then (ht_map ht)(k \<mapsto> v) else ht_map ht) \<and>
     ht_size ht' = ht_size ht + (if ok \<and> ht_map ht k = None then 1 else 0) \<and>
     length (ht_nodes ht') = length (ht_nodes ht) + (if ok \<and> ht_map ht k = None then 1 else 0)"

lemma put_post_fail: "ht_ok seed ht \<Longrightarrow> put_post seed ht k v False ht"
  by (simp add: put_post_def)

lemma put_existing:
  assumes h: "ht_ok seed ht" and m: "mem_ok m" and o: "owns m (ht_ptrs ht)" and b: "ht_buckets ht = Some (p, bs)"
    and l: "jaeger_hashtable_internal_lookup seed ht k = Some (Some j, i)" and i: "i < length bs"
    and j: "j < length (bs ! i)" "node_key (bs ! i ! j) = k"
  shows "\<exists>ok ht' m'. put_entry seed ht k v m = Some (ok, ht', m') \<and> put_post seed ht k v ok ht' \<and> ht_step ht ht' m m' \<and>
    (mem_plenty m \<longrightarrow> ok)"
proof -
  have bo: "buckets_ok seed (ht_order ht) bs" and ptrs: "ht_ptrs ht = p # nodes_ptrs (concat bs)"
    and mp: "ht_map ht = nodes_map (concat bs)" and sz: "length (concat bs) \<le> ht_size ht"
    using h b by (auto simp: ht_ok_def ht_ptrs_def ht_map_def ht_nodes_def)
  from jaeger_strdup_total obtain r m1 where s: "jaeger_strdup (Some v) m = Some (r, m1)" by blast
  show ?thesis
  proof (cases r)
    case None
    with s have "mem_trans {} {} m m1" using jaeger_strdup_NoneD m by blast
    from ht_step_unchanged [OF this o] s None l b put_post_fail [OF h] jaeger_strdup_plenty [OF m] show ?thesis
      by (intro exI [of _ False] exI [of _ ht] exI [of _ m1]) (auto simp: put_entry_def)
  next
    case (Some q)
    have a: "snd q = v" "mem_trans {} {fst q} m m1" using jaeger_strdup_SomeD [of v m q m1] s Some m by auto
    define x where "x = bs ! i ! j"
    define y where "y = (fst x, (snd x)\<lparr>kv_value := Some q\<rparr>)"
    have ib: "in_bucket seed (2 ^ ht_order ht) i x" using buckets_okD(2,4) [OF bo] i j(1) by (simp add: x_def)
    then obtain kp vp where x: "kv_key (snd x) = Some kp" "kv_value (snd x) = Some vp"
      by (auto simp: in_bucket_def node_ok_def)
    have y: "node_key y = k" "node_value y = v" "node_key x = k" "in_bucket seed (2 ^ ht_order ht) i y"
      using a(1) x j(2) ib by (auto simp: y_def node_key_def node_value_def x_def in_bucket_def node_ok_def)
    from nodes_split [OF i j(1)] obtain xs ys where sp: "concat bs = xs @ x # ys"
      "concat (bs[i := (bs ! i)[j := y]]) = xs @ y # ys" unfolding x_def by metis
    have old: "fst vp \<in> set (ht_ptrs ht)" using x sp by (simp add: ptrs node_ptrs_def kv_ptrs_def)
    then have od: "fst vp \<in> dom (mem_blocks m)" using o by (auto simp: owns_def)
    then have "fst vp \<in> dom (mem_blocks m1)" using mem_trans_dom [OF a(2)] by auto
    from jaeger_free_live [OF mem_trans_ok [OF a(2)] this] obtain m2 where
      f: "jaeger_free (Some (fst vp)) m1 = Some m2" "mem_trans {fst vp} {} m1 m2" .
    have sw: "mem_trans {fst vp} {fst q} m m2" using mem_trans_swap [OF a(2) f(2) _ m] od by simp
    define ht' where "ht' = ht\<lparr>ht_buckets := Some (p, bs[i := (bs ! i)[j := y]])\<rparr>"
    have nd: "k \<notin> node_key ` set (xs @ ys)" using buckets_okD(3) [OF bo] sp(1) y(3) by auto
    have "ht_ok seed ht'"
      using bo sz sp i y(4) nd y(1,3) j(1) unfolding ht_ok_def buckets_ok_def ht'_def
      by (auto simp: nth_list_update dest: subsetD [OF set_update_subset_insert])
    moreover have "ht_map ht' = (ht_map ht)(k \<mapsto> v)"
      using nodes_map_insert(1) [of y xs ys] nodes_map_insert(1) [of x xs ys] nd y sp
      by (simp add: b ht'_def ht_map_def ht_nodes_def)
    moreover have "ht_map ht k = Some (node_value x)"
      using nodes_map_insert(1) [of x xs ys] nd y(3) sp(1) by (simp add: mp)
    ultimately have post: "put_post seed ht k v True ht'"
      using sp b by (simp add: put_post_def ht'_def ht_nodes_def)
    have "ht_step ht ht' m m2"
    proof (rule ht_step_replace [OF sw o])
      have d: "distinct (p # nodes_ptrs (concat bs))" using o by (simp add: ptrs owns_def)
      have p': "ht_ptrs ht' = p # nodes_ptrs xs @ (fst x # fst kp # fst q # nodes_ptrs ys)"
        using sp(2) x by (simp add: ht'_def ht_ptrs_def node_ptrs_def kv_ptrs_def y_def)
      have p0: "ht_ptrs ht = p # nodes_ptrs xs @ (fst x # fst kp # fst vp # nodes_ptrs ys)"
        using sp(1) x by (simp add: ptrs node_ptrs_def kv_ptrs_def)
      have d0: "distinct (p # nodes_ptrs xs @ (fst x # fst kp # fst vp # nodes_ptrs ys))" using d p0 ptrs by simp
      then show "set (ht_ptrs ht') = set (ht_ptrs ht) - {fst vp} \<union> {fst q}" by (auto simp: p' p0)
      assume "{fst q} \<inter> (set (ht_ptrs ht) - {fst vp}) = {}"
      with d0 show "distinct (ht_ptrs ht')" by (auto simp: p' p0)
    qed (use old in simp)
    moreover have "put_entry seed ht k v m = Some (True, ht', m2)"
      using l b s Some x(2) f(1) by (simp add: put_entry_def Let_def ht'_def y_def flip: x_def)
    ultimately show ?thesis using post by blast
  qed
qed

lemma node_new_spec:
  assumes "jaeger_key_value_node_new kv m = (r, m')" and "mem_ok m"
  shows "r = None \<Longrightarrow> mem_trans {} {} m m'" and "r = Some n \<Longrightarrow> snd n = kv \<and> mem_trans {} {fst n} m m'"
    and "r = None \<Longrightarrow> \<not> mem_plenty m"
  using assms jaeger_malloc_plenty [of m] jaeger_malloc_NoneD [of SIZEOF_KEY_VALUE_NODE m] jaeger_malloc_SomeD(1) [of SIZEOF_KEY_VALUE_NODE m]
  by (auto simp: jaeger_key_value_node_new_def split: prod.splits option.splits)

lemma put_new:
  assumes h: "ht_ok seed ht" and m: "mem_ok m" and o: "owns m (ht_ptrs ht)" and b: "ht_buckets ht = Some (p, bs)"
    and l: "jaeger_hashtable_internal_lookup seed ht k = Some (None, i)" and i: "i < length bs"
    and ix: "i = bucket_index (jaeger_hashtable_hash seed k) (2 ^ ht_order ht)"
    and abs: "k \<notin> node_key ` set (concat bs)"
  shows "\<exists>ok ht' m'. put_entry seed ht k v m = Some (ok, ht', m') \<and> put_post seed ht k v ok ht' \<and> ht_step ht ht' m m' \<and>
    (mem_plenty m \<longrightarrow> ok)"
proof -
  have bo: "buckets_ok seed (ht_order ht) bs" and ptrs: "ht_ptrs ht = p # nodes_ptrs (concat bs)"
    and sz: "length (concat bs) \<le> ht_size ht"
    using h b by (auto simp: ht_ok_def ht_ptrs_def)
  obtain ok kv m1 where kv: "jaeger_key_value_init k v m = Some (ok, kv, m1)"
    "ok \<Longrightarrow> (\<exists>p q. kv = \<lparr>kv_key = Some (p, k), kv_value = Some (q, v)\<rparr> \<and> p \<noteq> q) \<and> mem_trans {} (set (kv_ptrs kv)) m m1"
    "\<not> ok \<Longrightarrow> kv = JAEGERTRACINGC_KEY_VALUE_INIT \<and> mem_trans {} {} m m1 \<and> \<not> mem_plenty m"
    using kv_init_spec [OF m] by metis
  show ?thesis
  proof (cases ok)
    case False
    with kv ht_step_unchanged [OF _ o] l b put_post_fail [OF h] show ?thesis
      by (intro exI [of _ False] exI [of _ ht] exI [of _ m1]) (simp add: put_entry_def)
  next
    case True
    then obtain kp vp where kvp: "kv = \<lparr>kv_key = Some (kp, k), kv_value = Some (vp, v)\<rparr>" "kp \<noteq> vp"
      and a1: "mem_trans {} (set (kv_ptrs kv)) m m1" using kv(2) by auto
    obtain r m2 where nn: "jaeger_key_value_node_new kv m1 = (r, m2)" by fastforce
    note ns = node_new_spec [OF nn mem_trans_ok [OF a1]]
    show ?thesis
    proof (cases r)
      case None
      have al: "mem_trans {} (set (kv_ptrs kv)) m m2"
        using mem_trans_alloc2(1) [OF a1 ns(1) m] None by simp
      have "owns m2 (kv_ptrs kv)" using owns_trans [OF al] kvp by (simp add: kv_ptrs_def)
      from kv_destroy_spec [OF mem_trans_ok [OF al] this] obtain m3 where
        d: "jaeger_key_value_destroy kv m2 = Some (JAEGERTRACINGC_KEY_VALUE_INIT, m3)"
        "mem_trans (set (kv_ptrs kv)) {} m2 m3" .
      have "ht_step ht ht m m3" using ht_step_unchanged [OF mem_trans_trans [OF al d(2) m] o] .
      with kv(1) True nn None d(1) l b put_post_fail [OF h] ns(3) mem_plenty_trans [OF a1] show ?thesis
        by (intro exI [of _ False] exI [of _ ht] exI [of _ m3]) (simp add: put_entry_def)
    next
      case (Some n)
      with ns(2) have n: "snd n = kv" "mem_trans {} {fst n} m1 m2" by auto
      note al = mem_trans_alloc2 [OF a1 n(2) m]
      have nk: "node_key n = k" "node_value n = v" "in_bucket seed (2 ^ ht_order ht) i n"
        using n(1) kvp(1) ix by (auto simp: node_key_def node_value_def in_bucket_def node_ok_def)
      from nodes_append [OF i] obtain xs ys where sp: "concat bs = xs @ ys"
        "concat (bs[i := bs ! i @ [n]]) = xs @ n # ys" by metis
      define ht' where "ht' = ht\<lparr>ht_buckets := Some (p, bs[i := bs ! i @ [n]]), ht_size := ht_size ht + 1\<rparr>"
      have "ht_ok seed ht'"
        using bo sz sp i nk abs unfolding ht_ok_def buckets_ok_def ht'_def by (auto simp: nth_list_update)
      moreover have "ht_map ht' = (ht_map ht)(k \<mapsto> v)" "ht_map ht k = None"
        using nodes_map_insert [of n xs ys] abs nk sp by (simp_all add: b ht'_def ht_map_def ht_nodes_def)
      ultimately have post: "put_post seed ht k v True ht'"
        using sp b by (simp add: put_post_def ht'_def ht_nodes_def)
      have "ht_step ht ht' m m2"
      proof (rule ht_step_replace [OF al(1) o])
        have p': "ht_ptrs ht' = p # nodes_ptrs xs @ (fst n # kp # vp # nodes_ptrs ys)"
          using sp(2) n(1) kvp(1) by (simp add: ht'_def ht_ptrs_def node_ptrs_def kv_ptrs_def)
        have p0: "ht_ptrs ht = p # nodes_ptrs xs @ nodes_ptrs ys" using sp(1) by (simp add: ptrs)
        have k0: "set (kv_ptrs kv) = {kp, vp}" using kvp(1) by (simp add: kv_ptrs_def)
        have d0: "distinct (p # nodes_ptrs xs @ nodes_ptrs ys)" using o by (simp add: p0 owns_def)
        show "set (ht_ptrs ht') = set (ht_ptrs ht) - {} \<union> (set (kv_ptrs kv) \<union> {fst n})"
          unfolding p' p0 k0 by auto
        assume "(set (kv_ptrs kv) \<union> {fst n}) \<inter> (set (ht_ptrs ht) - {}) = {}"
        with d0 al(2) kvp(2) show "distinct (ht_ptrs ht')" unfolding p' p0 k0 by auto
      qed simp
      moreover have "put_entry seed ht k v m = Some (True, ht', m2)"
        using l b kv(1) True nn Some by (simp add: put_entry_def ht'_def)
      ultimately show ?thesis using post by blast
    qed
  qed
qed

lemma put_entry_spec:
  assumes h: "ht_ok seed ht" and m: "mem_ok m" and o: "owns m (ht_ptrs ht)"
  shows "\<exists>ok ht' m'. put_entry seed ht k v m = Some (ok, ht', m') \<and> put_post seed ht k v ok ht' \<and> ht_step ht ht' m m' \<and>
    (mem_plenty m \<longrightarrow> ok)"
proof -
  from h obtain p bs where b: "ht_buckets ht = Some (p, bs)" by (rule ht_okE)
  from lookup_spec [OF h b] obtain r i where l: "jaeger_hashtable_internal_lookup seed ht k = Some (r, i)"
    "i < length bs" "i = bucket_index (jaeger_hashtable_hash seed k) (2 ^ ht_order ht)"
    "r = None \<Longrightarrow> k \<notin> node_key ` set (concat bs)"
    "\<And>j. r = Some j \<Longrightarrow> j < length (bs ! i) \<and> node_key (bs ! i ! j) = k" by metis
  show ?thesis
  proof (cases r)
    case None
    with l put_new [OF h m o b] show ?thesis by auto
  next
    case (Some j)
    with l put_existing [OF h m o b] show ?thesis by auto
  qed
qed

text \<open>
  \<open>jaeger_hashtable_put\<close> always returns (below \<open>2^30\<close> entries): the map is updated, or, when an
  allocation fails, unchanged; the invariant holds and no block leaks in either case.
\<close>

lemma put_spec:
  assumes h: "ht_ok seed ht" and m: "mem_ok m" and o: "owns m (ht_ptrs ht)" and sz: "ht_size ht < 2 ^ 30"
  shows "\<exists>ok ht' m'. jaeger_hashtable_put seed ht k v m = Some (ok, ht', m') \<and> put_post seed ht k v ok ht' \<and>
    ht_step ht ht' m m' \<and> (mem_plenty m \<longrightarrow> ok)"
proof -
  from h obtain p bs where b: "ht_buckets ht = Some (p, bs)" "buckets_ok seed (ht_order ht) bs" by (rule ht_okE)
  have k: "ht_order ht < 32" by (rule buckets_okD(1) [OF b(2)])
  show ?thesis
  proof (cases "ht_size ht + 1 \<ge> 2 ^ ht_order ht")
    case False
    with k put_entry_spec [OF h m o, of k v] show ?thesis by (simp add: jaeger_hashtable_put_def bucket_count_def)
  next
    case True
    have "ht_order ht < 31"
    proof (rule ccontr)
      assume "\<not> ht_order ht < 31"
      with k have "ht_order ht = 31" by simp
      with True sz show False by simp
    qed
    from rehash_spec [OF h m o this] obtain ok ht1 m1 where
      r: "jaeger_hashtable_rehash seed ht m = Some (ok, ht1, m1)" "ht_ok seed ht1" "ht_map ht1 = ht_map ht"
      "ht_size ht1 = ht_size ht" "length (ht_nodes ht1) = length (ht_nodes ht)" "ht_step ht ht1 m m1" "mem_plenty m \<longrightarrow> ok" by blast
    show ?thesis
    proof (cases ok)
      case False
      with r True k show ?thesis
        by (intro exI [of _ False] exI [of _ ht1] exI [of _ m1])
          (simp add: jaeger_hashtable_put_def bucket_count_def put_post_def)
    next
      case ok: True
      from put_entry_spec [OF r(2) ht_step_ok [OF r(6)] ht_step_owns [OF r(6)]] obtain ok' ht2 m2 where
        e: "put_entry seed ht1 k v m1 = Some (ok', ht2, m2)" "put_post seed ht1 k v ok' ht2" "ht_step ht1 ht2 m1 m2"
        "mem_plenty m1 \<longrightarrow> ok'" by blast
      have "put_post seed ht k v ok' ht2" using e(2) r(3-5) by (simp add: put_post_def)
      moreover have "ht_step ht ht2 m m2" using ht_step_trans [OF r(6) e(3) m] .
      moreover have "mem_plenty m1 = mem_plenty m" using r(6) mem_plenty_trans unfolding ht_step_def by blast
      ultimately show ?thesis using r(1) ok e(1,4) True k
        by (simp add: jaeger_hashtable_put_def bucket_count_def)
    qed
  qed
qed

section \<open>Removal, clearing, construction and destruction\<close>

lemma node_dealloc_spec:
  assumes m: "mem_ok m" and o: "owns m (node_ptrs n)"
  obtains m' where "jaeger_key_value_node_dealloc n m = Some m'" and "mem_trans (set (node_ptrs n)) {} m m'"
proof -
  have o': "owns m (kv_ptrs (snd n))" "fst n \<in> dom (mem_blocks m)" "fst n \<notin> set (kv_ptrs (snd n))"
    using o by (simp_all add: node_ptrs_def own_simps)
  from kv_destroy_spec [OF m o'(1)] obtain m1 where
    d: "jaeger_key_value_destroy (snd n) m = Some (JAEGERTRACINGC_KEY_VALUE_INIT, m1)"
    "mem_trans (set (kv_ptrs (snd n))) {} m m1" .
  have fr: "mem_trans (set (node_ptrs n)) {fst n} m m1"
    using mem_trans_frame [OF d(2), of "{fst n}"] o' by (simp add: node_ptrs_def)
  then have "fst n \<in> dom (mem_blocks m1)" using mem_trans_dom by blast
  from jaeger_free_live [OF mem_trans_ok [OF d(2)] this] obtain m2 where
    f: "jaeger_free (Some (fst n)) m1 = Some m2" "mem_trans {fst n} {} m1 m2" .
  from mem_trans_trans [OF fr f(2) m] d(1) f(1) that show thesis
    by (simp add: jaeger_key_value_node_dealloc_def)
qed

lemma dealloc_nodes_spec:
  assumes "mem_ok m" and "owns m (nodes_ptrs ns)"
  shows "\<exists>m'. dealloc_nodes ns m = Some m' \<and> mem_trans (set (nodes_ptrs ns)) {} m m'"
  using assms
proof (induction ns arbitrary: m)
  case (Cons n ns)
  have o: "owns m (node_ptrs n)" "owns m (nodes_ptrs ns)" "set (nodes_ptrs ns) \<inter> set (node_ptrs n) = {}"
    using Cons.prems(2) by (auto simp: own_simps)
  from node_dealloc_spec [OF Cons.prems(1) o(1)] obtain m1 where
    d: "jaeger_key_value_node_dealloc n m = Some m1" "mem_trans (set (node_ptrs n)) {} m m1" .
  from Cons.IH [OF mem_trans_ok [OF d(2)] owns_frame(1) [OF d(2) o(2,3)]] obtain m2 where
    ih: "dealloc_nodes ns m1 = Some m2" "mem_trans (set (nodes_ptrs ns)) {} m1 m2" by blast
  have "mem_trans (set (nodes_ptrs (n # ns))) (set (nodes_ptrs ns)) m m1"
    using mem_trans_frame [OF d(2), of "set (nodes_ptrs ns)"] o by (simp add: owns_def)
  from mem_trans_trans [OF this ih(2) Cons.prems(1)] d(1) ih(1) show ?case by simp
qed simp

text \<open>
  \<open>jaeger_hashtable_remove\<close> makes the key absent and frees its node and strings.  The \<open>size\<close> field keeps
  counting the removed entry.
\<close>

lemma remove_spec:
  assumes h: "ht_ok seed ht" and m: "mem_ok m" and o: "owns m (ht_ptrs ht)"
  shows "\<exists>ht' m'. jaeger_hashtable_remove seed ht k m = Some (ht', m') \<and> ht_ok seed ht' \<and>
    ht_map ht' = (ht_map ht)(k := None) \<and> ht_size ht' = ht_size ht \<and> ht_step ht ht' m m' \<and>
    length (ht_nodes ht') = length (ht_nodes ht) - (if ht_map ht k = None then 0 else 1)"
proof -
  from h obtain p bs where b: "ht_buckets ht = Some (p, bs)" "buckets_ok seed (ht_order ht) bs"
    "length (concat bs) \<le> ht_size ht" "ht_nodes ht = concat bs" "ht_ptrs ht = p # nodes_ptrs (concat bs)"
    "ht_map ht = nodes_map (concat bs)" by (rule ht_okE)
  from lookup_spec [OF h b(1)] obtain r i where l: "jaeger_hashtable_internal_lookup seed ht k = Some (r, i)"
    "i < length bs" "r = None \<Longrightarrow> k \<notin> node_key ` set (concat bs)"
    "\<And>j. r = Some j \<Longrightarrow> j < length (bs ! i) \<and> node_key (bs ! i ! j) = k" by metis
  show ?thesis
  proof (cases r)
    case None
    with l(3) b(6) have "ht_map ht k = None" by (simp add: nodes_map_None)
    then have "(ht_map ht)(k := None) = ht_map ht" by (simp add: fun_eq_iff)
    with None l(1) b(1) h ht_step_refl [OF m o] \<open>ht_map ht k = None\<close> show ?thesis
      by (simp add: jaeger_hashtable_remove_def)
  next
    case (Some j)
    with l(4) have j: "j < length (bs ! i)" "node_key (bs ! i ! j) = k" by auto
    define x where "x = bs ! i ! j"
    from nodes_split [OF l(2) j(1)] obtain xs ys where sp: "concat bs = xs @ x # ys"
      "concat (bs[i := take j (bs ! i) @ drop (Suc j) (bs ! i)]) = xs @ ys" unfolding x_def by metis
    have d: "distinct (p # nodes_ptrs (concat bs))" "owns m (node_ptrs x)"
      using o sp(1) by (auto simp: b(5) own_simps owns_def)
    from node_dealloc_spec [OF m d(2)] obtain m' where
      f: "jaeger_key_value_node_dealloc x m = Some m'" "mem_trans (set (node_ptrs x)) {} m m'" .
    define ht' where "ht' = ht\<lparr>ht_buckets := Some (p, bs[i := take j (bs ! i) @ drop (Suc j) (bs ! i)])\<rparr>"
    have nd: "node_key x \<notin> node_key ` set (xs @ ys)" using buckets_okD(3) [OF b(2)] sp(1) by auto
    have "ht_ok seed ht'"
      using b(2,3) sp l(2) unfolding ht_ok_def buckets_ok_def ht'_def
      by (auto simp: nth_list_update dest: in_set_takeD in_set_dropD)
    moreover have "ht_map ht' = (ht_map ht)(k := None)"
      using nodes_map_insert [OF nd] sp b(6) j(2) by (auto simp: ht'_def ht_map_def ht_nodes_def x_def fun_eq_iff)
    moreover have "ht_map ht k = Some (node_value x)"
      using nodes_map_insert(1) [OF nd] sp(1) b(6) j(2) by (simp add: x_def)
    moreover have "ht_step ht ht' m m'"
    proof (rule ht_step_replace [OF f(2) o])
      have p': "ht_ptrs ht' = p # nodes_ptrs xs @ nodes_ptrs ys" using sp(2) by (simp add: ht'_def ht_ptrs_def)
      have p0: "ht_ptrs ht = p # nodes_ptrs xs @ node_ptrs x @ nodes_ptrs ys" using sp(1) by (simp add: b(5))
      have d0: "distinct (p # nodes_ptrs xs @ node_ptrs x @ nodes_ptrs ys)" using d(1) sp(1) by simp
      show "set (node_ptrs x) \<subseteq> set (ht_ptrs ht)" by (auto simp: p0)
      show "set (ht_ptrs ht') = set (ht_ptrs ht) - set (node_ptrs x) \<union> {}" using d0 by (auto simp: p0 p')
      show "distinct (ht_ptrs ht')" using d0 by (auto simp: p')
    qed
    moreover have "jaeger_hashtable_remove seed ht k m = Some (ht', m')"
      using l(1) Some b(1) f(1) by (simp add: jaeger_hashtable_remove_def Let_def ht'_def flip: x_def)
    ultimately show ?thesis
      using sp b(4) by (intro exI [of _ ht'] exI [of _ m']) (simp add: ht'_def ht_nodes_def)
  qed
qed

lemma nodes_map_Nil [simp]: "nodes_map [] = Map.empty"
  by (simp add: nodes_map_def)

lemma concat_replicate_Nil [simp]: "concat (replicate n []) = []"
  by (induction n) auto

lemma clear_spec:
  assumes h: "ht_ok seed ht" and m: "mem_ok m" and o: "owns m (ht_ptrs ht)"
  obtains ht' m' where "jaeger_hashtable_clear ht m = Some (ht', m')" and "ht_ok seed ht'" and "ht_sized ht'"
    and "ht_map ht' = Map.empty" and "ht_size ht' = 0" and "ht_ptrs ht' = [hd (ht_ptrs ht)]" and "ht_step ht ht' m m'"
    and "ht_buckets ht' = Some (hd (ht_ptrs ht), replicate (2 ^ ht_order ht) [])"
proof -
  from h obtain p bs where b: "ht_buckets ht = Some (p, bs)" "buckets_ok seed (ht_order ht) bs"
    "ht_ptrs ht = p # nodes_ptrs (concat bs)" by (rule ht_okE)
  have o': "owns m (nodes_ptrs (concat bs))" "p \<notin> set (nodes_ptrs (concat bs))"
    using o by (auto simp: b(3) own_simps)
  from dealloc_nodes_spec [OF m o'(1)] obtain m' where
    d: "dealloc_nodes (concat bs) m = Some m'" "mem_trans (set (nodes_ptrs (concat bs))) {} m m'" by blast
  let ?ht = "ht\<lparr>ht_buckets := Some (p, replicate (2 ^ ht_order ht) []), ht_size := 0\<rparr>"
  show thesis
  proof (rule that [of ?ht m'])
    show "jaeger_hashtable_clear ht m = Some (?ht, m')"
      using b(1) d(1) buckets_okD(1,2) [OF b(2)] by (simp add: jaeger_hashtable_clear_def bucket_count_def)
    show "ht_step ht ?ht m m'"
      by (rule ht_step_replace [OF d(2) o]) (use o'(2) in \<open>auto simp: ht_ptrs_def b(1)\<close>)
  qed (use buckets_okD(1) [OF b(2)] b in
      \<open>simp_all add: ht_ok_def buckets_ok_def ht_sized_def ht_map_def ht_nodes_def ht_ptrs_def\<close>)
qed

lemma destroy_spec:
  assumes h: "ht_ok seed ht" and m: "mem_ok m" and o: "owns m (ht_ptrs ht)"
  obtains ht' m' where "jaeger_hashtable_destroy ht m = Some (ht', m')" and "ht_buckets ht' = None"
    and "mem_trans (set (ht_ptrs ht)) {} m m'"
proof -
  from clear_spec [OF h m o] obtain ht1 m1 where c: "jaeger_hashtable_clear ht m = Some (ht1, m1)"
    "ht_ptrs ht1 = [hd (ht_ptrs ht)]" "ht_step ht ht1 m m1"
    "ht_buckets ht1 = Some (hd (ht_ptrs ht), replicate (2 ^ ht_order ht) [])" by metis
  let ?p = "hd (ht_ptrs ht)"
  have mt: "mem_trans (set (ht_ptrs ht)) {?p} m m1" using c(2,3) by (simp add: ht_step_def)
  then have "?p \<in> dom (mem_blocks m1)" using mem_trans_dom by blast
  from jaeger_free_live [OF mem_trans_ok [OF mt] this] obtain m2 where
    f: "jaeger_free (Some ?p) m1 = Some m2" "mem_trans {?p} {} m1 m2" .
  from mem_trans_trans [OF mt f(2) m] c(1,4) f(1) that show thesis
    by (simp add: jaeger_hashtable_destroy_def)
qed

lemma empty_table_ok:
  assumes "order < 32"
  shows "ht_ok seed \<lparr>ht_size = 0, ht_order = order, ht_buckets = Some (p, replicate (2 ^ order) [])\<rparr>"
    and "ht_sized \<lparr>ht_size = 0, ht_order = order, ht_buckets = Some (p, replicate (2 ^ order) [])\<rparr>"
    and "ht_map \<lparr>ht_size = 0, ht_order = order, ht_buckets = Some (p, replicate (2 ^ order) [])\<rparr> = Map.empty"
    and "ht_ptrs \<lparr>ht_size = 0, ht_order = order, ht_buckets = Some (p, replicate (2 ^ order) [])\<rparr> = [p]"
  using assms by (simp_all add: ht_ok_def buckets_ok_def ht_sized_def ht_map_def ht_nodes_def ht_ptrs_def)

text \<open>
  \<open>jaeger_hashtable_init\<close> returns an empty table when its allocation succeeds.  When it fails, the
  cleanup clears a table without buckets, which runs into the assertion of \<open>jaeger_list_clear\<close>.
\<close>

lemma destroy_unallocated: "ht_buckets ht = None \<Longrightarrow> jaeger_hashtable_destroy ht m = None"
  by (cases "bucket_count (ht_order ht)") (simp_all add: jaeger_hashtable_destroy_def jaeger_hashtable_clear_def)

lemma init_spec:
  assumes m: "mem_ok m"
  shows "if mem_oracle m (mem_next m)
    then \<exists>ht m'. jaeger_hashtable_init m = Some (True, ht, m') \<and> ht_ok seed ht \<and> ht_sized ht \<and>
      ht_map ht = Map.empty \<and> ht_size ht = 0 \<and> distinct (ht_ptrs ht) \<and> mem_trans {} (set (ht_ptrs ht)) m m'
    else jaeger_hashtable_init m = None"
proof -
  obtain r m' where al: "jaeger_malloc (16 * SIZEOF_LIST) m = (r, m')" by fastforce
  have r: "(r = None) = (\<not> mem_oracle m (mem_next m))"
    using al m by (auto simp: jaeger_malloc_def jaeger_get_allocator_def mem_ok_def built_in_malloc_def split: if_splits)
  show ?thesis
  proof (cases r)
    case None
    with r al destroy_unallocated [of JAEGERTRACINGC_HASHTABLE_INIT m'] show ?thesis
      by (simp add: jaeger_hashtable_init_def bucket_count_def JAEGERTRACINGC_HASHTABLE_INIT_ORDER_def
          JAEGERTRACINGC_HASHTABLE_INIT_def)
  next
    case (Some p)
    have a: "mem_trans {} {p} m m'" using al Some jaeger_malloc_SomeD(1) m by blast
    let ?ht = "\<lparr>ht_size = 0, ht_order = 4, ht_buckets = Some (p, replicate (2 ^ 4) [])\<rparr>"
    have "jaeger_hashtable_init m = Some (True, ?ht, m')"
      using al Some by (simp add: jaeger_hashtable_init_def bucket_count_def JAEGERTRACINGC_HASHTABLE_INIT_ORDER_def)
    with r Some a empty_table_ok [of 4] show ?thesis by simp
  qed
qed

section \<open>The interface: a finite map of strings\<close>

text \<open>Inserting the pairs of a list one after the other, stopping at the first failure.\<close>

fun put_all ::
  "('t \<Rightarrow> string \<Rightarrow> string \<Rightarrow> mem \<Rightarrow> (bool \<times> 't \<times> mem) option) \<Rightarrow> (string \<times> string) list \<Rightarrow>
   't \<Rightarrow> mem \<Rightarrow> (bool \<times> 't \<times> mem) option" where
  "put_all put [] t m = Some (True, t, m)"
| "put_all put ((k, v) # kvs) t m = do {
     (ok, t, m) \<leftarrow> put t k v m;
     if ok then put_all put kvs t m else Some (False, t, m)
   }"

text \<open>
  What the clients of the table rely on.  \<open>cap\<close> bounds the number of insertions for which the table
  answers.
\<close>

locale string_map =
  fixes inv :: "'t \<Rightarrow> bool" and abs :: "'t \<Rightarrow> string \<rightharpoonup> string" and ptrs :: "'t \<Rightarrow> ptr list"
    and count :: "'t \<Rightarrow> nat" and cap :: nat
    and put :: "'t \<Rightarrow> string \<Rightarrow> string \<Rightarrow> mem \<Rightarrow> (bool \<times> 't \<times> mem) option"
    and find :: "'t \<Rightarrow> string \<Rightarrow> string option option"
    and remove :: "'t \<Rightarrow> string \<Rightarrow> mem \<Rightarrow> ('t \<times> mem) option"
  assumes put_law: "inv t \<Longrightarrow> mem_ok m \<Longrightarrow> owns m (ptrs t) \<Longrightarrow> count t < cap \<Longrightarrow>
      \<exists>ok t' m'. put t k v m = Some (ok, t', m') \<and> inv t' \<and>
        abs t' = (if ok then (abs t)(k \<mapsto> v) else abs t) \<and>
        count t' = count t + (if ok \<and> abs t k = None then 1 else 0) \<and>
        distinct (ptrs t') \<and> mem_trans (set (ptrs t)) (set (ptrs t')) m m' \<and> (mem_plenty m \<longrightarrow> ok)"
    and find_law: "inv t \<Longrightarrow> find t k = Some (abs t k)"
    and remove_law: "inv t \<Longrightarrow> mem_ok m \<Longrightarrow> owns m (ptrs t) \<Longrightarrow>
      \<exists>t' m'. remove t k m = Some (t', m') \<and> inv t' \<and> abs t' = (abs t)(k := None) \<and>
        distinct (ptrs t') \<and> mem_trans (set (ptrs t)) (set (ptrs t')) m m'"
begin

lemma put_find:
  assumes "inv t" and "mem_ok m" and "owns m (ptrs t)" and "count t < cap"
    and "put t k v m = Some (True, t', m')"
  shows "find t' k = Some (Some v)" and "j \<noteq> k \<Longrightarrow> find t' j = find t j"
  using put_law [OF assms(1-4), of k v] assms(1,5) find_law by auto

lemma remove_find:
  assumes "inv t" and "mem_ok m" and "owns m (ptrs t)" and "remove t k m = Some (t', m')"
  shows "find t' k = Some None" and "j \<noteq> k \<Longrightarrow> find t' j = find t j"
  using remove_law [OF assms(1-3), of k] assms(1,4) find_law by auto

lemma put_all_law:
  assumes "inv t" and "mem_ok m" and "owns m (ptrs t)" and "count t + length kvs < cap"
  shows "\<exists>ok t' m'. put_all put kvs t m = Some (ok, t', m') \<and> inv t' \<and>
    (ok \<longrightarrow> abs t' = abs t ++ map_of (rev kvs)) \<and> distinct (ptrs t') \<and> count t' \<le> count t + length kvs \<and>
    (ok \<and> distinct (map fst kvs) \<and> fst ` set kvs \<inter> dom (abs t) = {} \<longrightarrow> count t' = count t + length kvs) \<and>
    mem_trans (set (ptrs t)) (set (ptrs t')) m m' \<and> (mem_plenty m \<longrightarrow> ok)"
  using assms
proof (induction kvs arbitrary: t m)
  case Nil
  then show ?case by (intro exI [of _ True]) (simp add: owns_def mem_trans_keep)
next
  case (Cons kv kvs)
  obtain k v where kv: "kv = (k, v)" by fastforce
  from put_law [OF Cons.prems(1-3), of k v] Cons.prems(4) obtain ok t1 m1 where
    p: "put t k v m = Some (ok, t1, m1)" "inv t1" "abs t1 = (if ok then (abs t)(k \<mapsto> v) else abs t)"
    "count t1 = count t + (if ok \<and> abs t k = None then 1 else 0)" "distinct (ptrs t1)"
    "mem_trans (set (ptrs t)) (set (ptrs t1)) m m1" "mem_plenty m \<longrightarrow> ok" by fastforce
  show ?case
  proof (cases ok)
    case False
    with p kv show ?thesis by (intro exI [of _ False]) simp
  next
    case True
    have "count t1 + length kvs < cap" using p(4) Cons.prems(4) by (simp split: if_splits)
    from Cons.IH [OF p(2) mem_trans_ok [OF p(6)] owns_trans [OF p(6,5)] this] obtain ok' t2 m2 where
      ih: "put_all put kvs t1 m1 = Some (ok', t2, m2)" "inv t2" "ok' \<longrightarrow> abs t2 = abs t1 ++ map_of (rev kvs)"
      "distinct (ptrs t2)" "count t2 \<le> count t1 + length kvs"
      "ok' \<and> distinct (map fst kvs) \<and> fst ` set kvs \<inter> dom (abs t1) = {} \<longrightarrow> count t2 = count t1 + length kvs"
      "mem_trans (set (ptrs t1)) (set (ptrs t2)) m1 m2" "mem_plenty m1 \<longrightarrow> ok'" by blast
    have ab: "abs t1 ++ map_of (rev kvs) = abs t ++ map_of (rev (kv # kvs))"
      using p(3) True kv by (simp add: map_add_upd_left)
    have "count t2 = count t + length (kv # kvs)"
      if "ok'" and "distinct (map fst (kv # kvs))" and "fst ` set (kv # kvs) \<inter> dom (abs t) = {}"
    proof -
      have "abs t k = None" "fst ` set kvs \<inter> dom (abs t1) = {}" using that(2,3) p(3) True kv by auto
      with ih(6) that p(4) True show ?thesis by simp
    qed
    moreover have "count t2 \<le> count t + length (kv # kvs)" using ih(5) p(4) by (simp split: if_splits)
    ultimately show ?thesis using ih(1-4,8) p(1) True kv ab mem_plenty_trans [OF p(6)] mem_trans_trans [OF p(6) ih(7) Cons.prems(2)]
      by (intro exI [of _ ok'] exI [of _ t2] exI [of _ m2]) auto
  qed
qed

end

definition ht_find_string :: "u8 list \<Rightarrow> jaeger_hashtable \<Rightarrow> string \<Rightarrow> string option option" where
  "ht_find_string seed ht k = map_option (map_option kv_string) (jaeger_hashtable_find seed ht k)"

interpretation htm: string_map "ht_ok seed" ht_map ht_ptrs ht_size "2 ^ 30"
  "jaeger_hashtable_put seed" "ht_find_string seed" "jaeger_hashtable_remove seed" for seed
proof
  fix t and m :: mem and k v
  assume t: "ht_ok seed t"
  show "ht_find_string seed t k = Some (ht_map t k)"
    using find_spec [OF t, of k] by (auto simp: ht_find_string_def)
  assume m: "mem_ok m" and o: "owns m (ht_ptrs t)"
  show "\<exists>t' m'. jaeger_hashtable_remove seed t k m = Some (t', m') \<and> ht_ok seed t' \<and> ht_map t' = (ht_map t)(k := None) \<and>
      distinct (ht_ptrs t') \<and> mem_trans (set (ht_ptrs t)) (set (ht_ptrs t')) m m'"
    using remove_spec [OF t m o, of k] unfolding ht_step_def by blast
  assume "ht_size t < 2 ^ 30"
  from put_spec [OF t m o this, of k v]
  show "\<exists>ok t' m'. jaeger_hashtable_put seed t k v m = Some (ok, t', m') \<and> ht_ok seed t' \<and>
      ht_map t' = (if ok then (ht_map t)(k \<mapsto> v) else ht_map t) \<and>
      ht_size t' = ht_size t + (if ok \<and> ht_map t k = None then 1 else 0) \<and>
      distinct (ht_ptrs t') \<and> mem_trans (set (ht_ptrs t)) (set (ht_ptrs t')) m m' \<and> (mem_plenty m \<longrightarrow> ok)"
    unfolding ht_step_def put_post_def by blast
qed

section \<open>Copying\<close>

lemma bit_length_bounds: shows "n < 2 ^ bit_length n" and "0 < n \<Longrightarrow> 2 ^ bit_length n \<le> 2 * n"
proof -
  have "n < 2 ^ bit_length n \<and> (0 < n \<longrightarrow> 2 ^ bit_length n \<le> 2 * n)"
  proof (induction n rule: bit_length.induct)
    case (1 n)
    show ?case
    proof (cases "n = 0")
      case True
      then show ?thesis by (simp add: bit_length.simps)
    next
      case False
      with 1 have ih: "n div 2 < 2 ^ bit_length (n div 2)"
        "0 < n div 2 \<longrightarrow> 2 ^ bit_length (n div 2) \<le> 2 * (n div 2)" by auto
      have e: "bit_length n = Suc (bit_length (n div 2))" using False by (subst bit_length.simps) simp
      show ?thesis
      proof (cases "n div 2 = 0")
        case True
        with False e show ?thesis by (simp add: bit_length.simps)
      next
        case False
        with ih e show ?thesis by auto
      qed
    qed
  qed
  then show "n < 2 ^ bit_length n" and "0 < n \<Longrightarrow> 2 ^ bit_length n \<le> 2 * n" by auto
qed

lemma minimal_order_loop_spec:
  assumes "order < 32" and "unat sz \<le> 2 ^ 31"
  shows "\<exists>k. minimal_order_loop order sz = Some k \<and> order \<le> k \<and> k < 32 \<and> unat sz \<le> 2 ^ k \<and>
    (order < k \<longrightarrow> 2 ^ (k - 1) < unat sz)"
  using assms
proof (induction order sz rule: minimal_order_loop.induct)
  case (1 order sz)
  have "unat (of_nat (2 ^ order) :: u32) = 2 ^ order"
    using 1(2) power_strict_increasing [of order 32 "2::nat"] by (simp only: unat_of_nat) simp
  then have lt: "((2 :: u32) ^ order < sz) = (2 ^ order < unat sz)" by (simp add: word_less_nat_alt)
  show ?case
  proof (cases "2 ^ order < unat sz")
    case True
    have "Suc order < 32"
    proof (rule ccontr)
      assume "\<not> Suc order < 32"
      with 1(2) have "order = 31" by simp
      with True 1(3) show False by simp
    qed
    with 1(1) [OF _ _ this 1(3)] 1(2) lt True obtain k where
      k: "minimal_order_loop (Suc order) sz = Some k" "Suc order \<le> k" "k < 32" "unat sz \<le> 2 ^ k"
      "Suc order < k \<longrightarrow> 2 ^ (k - 1) < unat sz" by auto
    moreover have "2 ^ (k - 1) < unat sz" using k(2,5) True by (cases "k = Suc order") auto
    ultimately show ?thesis using 1(2) lt True by (subst minimal_order_loop.simps) auto
  next
    case False
    with 1(2) lt show ?thesis by (subst minimal_order_loop.simps) auto
  qed
qed

text \<open>The order chosen for a copy holds all entries, in both build variants.\<close>

lemma minimal_order_spec:
  assumes "unat sz < 2 ^ 30"
  shows "\<exists>k. jaeger_hashtable_minimal_order hb sz = Some k \<and> k < 32 \<and> unat sz \<le> 2 ^ k"
proof (cases "sz < of_nat JAEGERTRACINGC_HASHTABLE_INIT_ORDER")
  case True
  then have "unat sz < 4"
    by (simp add: word_less_nat_alt JAEGERTRACINGC_HASHTABLE_INIT_ORDER_def)
  with True show ?thesis
    by (simp add: jaeger_hashtable_minimal_order_def JAEGERTRACINGC_HASHTABLE_INIT_ORDER_def)
next
  case False
  then have pos: "0 < unat sz"
    by (auto simp: word_less_nat_alt JAEGERTRACINGC_HASHTABLE_INIT_ORDER_def)
  show ?thesis
  proof (cases hb)
    case True
    have "(2::nat) ^ bit_length (unat sz) < 2 ^ 32"
      using bit_length_bounds(2) [OF pos] assms by simp
    then have "bit_length (unat sz) < 32" by (rule power_less_imp_less_exp [rotated]) simp
    with True False bit_length_bounds(1) [of "unat sz"] show ?thesis
      by (simp add: jaeger_hashtable_minimal_order_def)
  next
    case hb: False
    with minimal_order_loop_spec [of 0 sz] assms False show ?thesis
      by (auto simp: jaeger_hashtable_minimal_order_def)
  qed
qed

lemma copy_nodes_put_all:
  "\<forall>x\<in>set ns. node_ok x \<Longrightarrow>
   copy_nodes seed ns t m = put_all (jaeger_hashtable_put seed) (map (\<lambda>n. (node_key n, node_value n)) ns) t m"
proof (induction ns arbitrary: t m)
  case (Cons n ns)
  then obtain k v where "kv_key (snd n) = Some k" "kv_value (snd n) = Some v" by (auto simp: node_ok_def)
  with Cons show ?case
    by (cases "jaeger_hashtable_put seed t (snd k) (snd v) m") (auto simp: node_key_def node_value_def)
qed simp

lemma nodes_map_rev:
  assumes "distinct (map node_key ns)"
  shows "map_of (rev (map (\<lambda>n. (node_key n, node_value n)) ns)) = nodes_map ns"
  unfolding nodes_map_def using assms
  by (subst map_of_inject_set) (simp_all add: comp_def rev_map [symmetric])

lemma ht_nodes_ok:
  assumes "ht_ok seed ht"
  shows "\<forall>x\<in>set (ht_nodes ht). node_ok x"
proof -
  from assms obtain p bs where b: "buckets_ok seed (ht_order ht) bs" "ht_nodes ht = concat bs" by (rule ht_okE)
  with buckets_okD(2,4) [OF b(1)] show ?thesis by (auto simp: in_bucket_def in_set_conv_nth [of _ bs])
qed

lemma ht_nodes_card:
  assumes "ht_ok seed ht"
  shows "length (ht_nodes ht) = card (dom (ht_map ht))"
proof -
  from assms obtain p bs where b: "buckets_ok seed (ht_order ht) bs" "ht_nodes ht = concat bs"
    "ht_map ht = nodes_map (concat bs)" by (rule ht_okE)
  have "dom (nodes_map ns) = set (map node_key ns)" for ns
    by (simp add: nodes_map_def dom_map_of_conv_image_fst image_image)
  with b distinct_card [OF buckets_okD(3) [OF b(1)]] show ?thesis by simp
qed

text \<open>The run of \<open>jaeger_hashtable_copy\<close> on a table with entries, once its buckets are allocated.\<close>

lemma copy_run:
  assumes h: "ht_ok seed src" and sz: "ht_size src \<noteq> 0" "ht_size src < 2 ^ 29" and m: "mem_ok m"
    and al: "mem_oracle m (mem_next m)"
  obtains ok dst m' where "jaeger_hashtable_copy hb seed src m =
      (if ok then do { c_assert (ht_size dst = ht_size src); Some (True, dst, m') }
       else do { (dst, m) \<leftarrow> jaeger_hashtable_destroy dst m'; Some (False, dst, m) })"
    and "ht_ok seed dst" and "distinct (ht_ptrs dst)" and "mem_trans {} (set (ht_ptrs dst)) m m'"
    and "ok \<Longrightarrow> ht_map dst = ht_map src \<and> ht_size dst = length (ht_nodes src)" and "\<not> ok \<Longrightarrow> \<not> mem_plenty m"
proof -
  have us: "unat (of_nat (ht_size src) :: u32) = ht_size src"
    using sz(2) by (simp only: unat_of_nat) simp
  from minimal_order_spec [of "of_nat (ht_size src)" hb] us sz(2) obtain k where
    k: "jaeger_hashtable_minimal_order hb (of_nat (ht_size src)) = Some k" "k < 32" by auto
  obtain p m1 where a: "jaeger_malloc (2 ^ k * SIZEOF_LIST) m = (Some p, m1)"
    using al m by (simp add: jaeger_malloc_def jaeger_get_allocator_def mem_ok_def built_in_malloc_def)
  have mt: "mem_trans {} {p} m m1" using a jaeger_malloc_SomeD(1) m by blast
  let ?d = "\<lparr>ht_size = 0, ht_order = k, ht_buckets = Some (p, replicate (2 ^ k) [])\<rparr>"
  note e = empty_table_ok [OF k(2), where p = p]
  from h obtain sp bs where b: "ht_buckets src = Some (sp, bs)" "buckets_ok seed (ht_order src) bs"
    "length (concat bs) \<le> ht_size src" "ht_nodes src = concat bs" "ht_map src = nodes_map (concat bs)"
    by (rule ht_okE)
  let ?kvs = "map (\<lambda>n. (node_key n, node_value n)) (concat bs)"
  have dk: "distinct (map node_key (concat bs))" by (rule buckets_okD(3) [OF b(2)])
  have "map fst ?kvs = map node_key (concat bs)" by (simp add: comp_def)
  with dk have dk': "distinct (map fst ?kvs)" by metis
  have "owns m1 (ht_ptrs ?d)" using mem_trans_dom [OF mt] e(4) by (auto simp: owns_def)
  moreover have "ht_size ?d + length ?kvs < 2 ^ 30" using sz b(3) by simp
  ultimately obtain ok dst m2 where c: "put_all (jaeger_hashtable_put seed) ?kvs ?d m1 = Some (ok, dst, m2)"
    "ht_ok seed dst" "ok \<longrightarrow> ht_map dst = ht_map ?d ++ map_of (rev ?kvs)" "distinct (ht_ptrs dst)"
    "ok \<and> distinct (map fst ?kvs) \<and> fst ` set ?kvs \<inter> dom (ht_map ?d) = {} \<longrightarrow> ht_size dst = ht_size ?d + length ?kvs"
    "mem_trans (set (ht_ptrs ?d)) (set (ht_ptrs dst)) m1 m2" "mem_plenty m1 \<longrightarrow> ok"
    using htm.put_all_law [OF e(1) mem_trans_ok [OF mt], of ?kvs] by blast
  show thesis
  proof (rule that [of ok dst m2])
    show "jaeger_hashtable_copy hb seed src m =
      (if ok then do { c_assert (ht_size dst = ht_size src); Some (True, dst, m2) }
       else do { (dst, m) \<leftarrow> jaeger_hashtable_destroy dst m2; Some (False, dst, m) })"
      using sz(1) k a b(1) buckets_okD(1,2) [OF b(2)] c(1) copy_nodes_put_all [of "concat bs" seed]
        ht_nodes_ok [OF h] b(4)
      by (simp add: jaeger_hashtable_copy_def bucket_count_def JAEGERTRACINGC_HASHTABLE_INIT_def)
    show "mem_trans {} (set (ht_ptrs dst)) m m2" using mem_trans_trans [OF mt _ m] c(6) e(4) by simp
    show "ht_map dst = ht_map src \<and> ht_size dst = length (ht_nodes src)" if ok
      using c(3,5) that e(3) dk' nodes_map_rev [OF dk] b(4,5) by (simp add: rev_map)
    show "\<not> ok \<Longrightarrow> \<not> mem_plenty m" using c(7) mem_plenty_trans [OF mt] by blast
  qed (rule c(2,4))+
qed

text \<open>
  \<open>jaeger_hashtable_copy\<close> of a table whose count is exact, when the buckets can be allocated: an equal
  map in fresh blocks, or false with nothing left allocated.
\<close>

lemma copy_spec:
  assumes h: "ht_ok seed src" and sz: "ht_sized src" "ht_size src < 2 ^ 29" and m: "mem_ok m"
    and al: "mem_oracle m (mem_next m)"
  shows "\<exists>ok dst m'. jaeger_hashtable_copy hb seed src m = Some (ok, dst, m') \<and>
    (ok \<longrightarrow> ht_ok seed dst \<and> ht_sized dst \<and> ht_map dst = ht_map src \<and> distinct (ht_ptrs dst) \<and>
      ht_size dst = ht_size src \<and> mem_trans {} (set (ht_ptrs dst)) m m') \<and>
    (\<not> ok \<longrightarrow> ht_buckets dst = None \<and> mem_trans {} {} m m' \<and> \<not> mem_plenty m)"
proof (cases "ht_size src = 0")
  case True
  then have "ht_map src = Map.empty" using sz(1) by (simp add: ht_sized_def ht_map_def)
  with True init_spec [OF m, of seed] al show ?thesis
    by (auto simp: jaeger_hashtable_copy_def)
next
  case False
  from copy_run [OF h False sz(2) m al, of hb] obtain ok dst m2 where c: "jaeger_hashtable_copy hb seed src m =
      (if ok then do { c_assert (ht_size dst = ht_size src); Some (True, dst, m2) }
       else do { (dst, m) \<leftarrow> jaeger_hashtable_destroy dst m2; Some (False, dst, m) })"
    "ht_ok seed dst" "distinct (ht_ptrs dst)" "mem_trans {} (set (ht_ptrs dst)) m m2"
    "ok \<Longrightarrow> ht_map dst = ht_map src \<and> ht_size dst = length (ht_nodes src)" "\<not> ok \<Longrightarrow> \<not> mem_plenty m" by metis
  show ?thesis
  proof (cases ok)
    case True
    with c(5) have mp: "ht_map dst = ht_map src" "ht_size dst = length (ht_nodes src)" by auto
    then have "ht_sized dst" using ht_nodes_card [OF h] ht_nodes_card [OF c(2)] by (simp add: ht_sized_def)
    with True mp c(1-4) sz(1) show ?thesis by (intro exI [of _ True]) (simp add: ht_sized_def)
  next
    case False
    from destroy_spec [OF c(2) mem_trans_ok [OF c(4)] owns_trans [OF c(4,3)]] obtain d m3 where
      f: "jaeger_hashtable_destroy dst m2 = Some (d, m3)" "ht_buckets d = None" "mem_trans (set (ht_ptrs dst)) {} m2 m3" .
    from mem_trans_trans [OF c(4) f(3) m] False c(1,6) f(1,2) show ?thesis
      by (intro exI [of _ False]) simp
  qed
qed

lemma copy_unallocated:
  assumes "mem_ok m" and "\<not> mem_oracle m (mem_next m)"
  shows "jaeger_hashtable_copy hb seed src m = None"
proof -
  have f: "jaeger_malloc n m = (None, m\<lparr>mem_next := Suc (mem_next m)\<rparr>)" for n
    using assms by (simp add: jaeger_malloc_def jaeger_get_allocator_def mem_ok_def built_in_malloc_def)
  have i: "jaeger_hashtable_init m = None" using init_spec [OF assms(1)] assms(2) by simp
  have d: "jaeger_hashtable_destroy JAEGERTRACINGC_HASHTABLE_INIT m' = None" for m'
    by (rule destroy_unallocated) (simp add: JAEGERTRACINGC_HASHTABLE_INIT_def)
  show ?thesis
    by (cases "jaeger_hashtable_minimal_order hb (of_nat (ht_size src))")
      (auto simp: jaeger_hashtable_copy_def i f d Let_def Option.bind_eq_None_conv)
qed

section \<open>Properties\<close>

text \<open>The table of the witnesses: empty, its bucket array in block 0.\<close>

definition table_one :: jaeger_hashtable where
  "table_one = \<lparr>ht_size = 0, ht_order = 4, ht_buckets = Some (0, replicate (2 ^ 4) [])\<rparr>"

lemma table_one_simps [simp]: "ht_ok seed table_one" "ht_sized table_one" "ht_map table_one = Map.empty"
  "ht_ptrs table_one = [0]" "ht_size table_one = 0"
  using empty_table_ok [of 4] by (simp_all add: table_one_def)

text \<open>
  C5: \<open>jaeger_hashtable_put\<close> refines the update of a finite map, under every pattern of allocation
  failures.  On a well-formed table it returns; if it reports success, the table's map is the old one
  with the key bound to the value, if it reports failure, the map is the old one, and it fails only
  if some allocation fails.  The invariant holds afterwards, every block of the old table is either
  still owned by the new one or freed, and no other block is touched or leaked.
\<close>

theorem put_refines_update:
  assumes "ht_ok seed ht" and "mem_ok m" and "owns m (ht_ptrs ht)" and "ht_size ht < 2 ^ 30"
  shows "\<exists>ok ht' m'. jaeger_hashtable_put seed ht k v m = Some (ok, ht', m') \<and> ht_ok seed ht' \<and>
    ht_map ht' = (if ok then (ht_map ht)(k \<mapsto> v) else ht_map ht) \<and> (mem_plenty m \<longrightarrow> ok) \<and>
    distinct (ht_ptrs ht') \<and> mem_trans (set (ht_ptrs ht)) (set (ht_ptrs ht')) m m'"
  using put_spec [OF assms, of k v] unfolding put_post_def ht_step_def by blast

theorem put_refines_update_witness:
  "\<exists>ht' m'. jaeger_hashtable_put (replicate 16 0) table_one ''k'' ''v'' mem_one = Some (True, ht', m') \<and>
    ht_ok (replicate 16 0) ht' \<and> ht_map ht' = [''k'' \<mapsto> ''v''] \<and>
    distinct (ht_ptrs ht') \<and> mem_trans {0} (set (ht_ptrs ht')) mem_one m'"
  using put_refines_update [of "replicate 16 0" table_one mem_one "''k''" "''v''"]
  by (auto simp: mem_plenty_def)

text \<open>
  What was put is found.  \<open>jaeger_hashtable_put\<close> of a key followed by a lookup gives the value for
  that key, if the insertion succeeded, and for every other key what the lookup gave before;
  \<open>jaeger_hashtable_remove\<close> of a key makes its lookup empty and keeps the others.
\<close>

theorem lookup_after_update:
  assumes "ht_ok seed ht" and "mem_ok m" and "owns m (ht_ptrs ht)" and "ht_size ht < 2 ^ 30"
  shows "(\<exists>ok ht' m'. jaeger_hashtable_put seed ht k v m = Some (ok, ht', m') \<and>
      (\<forall>j. ht_find_string seed ht' j = (if ok \<and> j = k then Some (Some v) else ht_find_string seed ht j))) \<and>
    (\<exists>ht' m'. jaeger_hashtable_remove seed ht k m = Some (ht', m') \<and>
      (\<forall>j. ht_find_string seed ht' j = (if j = k then Some None else ht_find_string seed ht j)))"
  using htm.put_law [OF assms, of k v] htm.remove_law [OF assms(1-3), of k] htm.find_law [of seed] assms(1)
  by fastforce

theorem lookup_after_update_witness:
  "(\<exists>ok ht' m'. jaeger_hashtable_put (replicate 16 0) table_one ''a'' ''b'' mem_one = Some (ok, ht', m') \<and>
      (\<forall>j. ht_find_string (replicate 16 0) ht' j =
        (if ok \<and> j = ''a'' then Some (Some ''b'') else ht_find_string (replicate 16 0) table_one j))) \<and>
    (\<exists>ht' m'. jaeger_hashtable_remove (replicate 16 0) table_one ''a'' mem_one = Some (ht', m') \<and>
      (\<forall>j. ht_find_string (replicate 16 0) ht' j =
        (if j = ''a'' then Some None else ht_find_string (replicate 16 0) table_one j)))"
  by (rule lookup_after_update) simp_all



text \<open>
  A table that has lost an entry can no longer be copied.  \<open>jaeger_hashtable_remove\<close> does not
  decrement \<open>size\<close>, so after removing a key that was present, \<open>jaeger_hashtable_copy\<close>, with memory to
  spare, does not return: it runs into \<open>assert(dst->size == src->size)\<close>.
\<close>

theorem copy_after_remove_aborts:
  assumes "ht_ok seed ht" and "mem_ok m" and "owns m (ht_ptrs ht)" and "ht_size ht < 2 ^ 29" and "mem_plenty m"
    and "ht_map ht k \<noteq> None" and "jaeger_hashtable_remove seed ht k m = Some (ht', m')"
  shows "jaeger_hashtable_copy hb seed ht' m' = None"
proof -
  from remove_spec [OF assms(1-3), of k] assms(6,7) have h': "ht_ok seed ht'" "ht_size ht' = ht_size ht"
    "length (ht_nodes ht') = length (ht_nodes ht) - 1" "ht_step ht ht' m m'" by auto
  then have m': "mem_ok m'" "mem_plenty m'" using assms(5) mem_plenty_trans ht_step_ok unfolding ht_step_def by blast+
  have "0 < length (ht_nodes ht)" using assms(6) by (cases "ht_nodes ht") (auto simp: ht_map_def)
  moreover from assms(1) have "length (ht_nodes ht) \<le> ht_size ht" by (rule ht_okE) simp
  ultimately have lt: "length (ht_nodes ht') < ht_size ht'" "ht_size ht' \<noteq> 0" using h'(2,3) by linarith+
  have "mem_oracle m' (mem_next m')" using m'(2) by (simp add: mem_plenty_def)
  from copy_run [OF h'(1) lt(2) _ m'(1) this, of hb] h'(2) assms(4) obtain ok dst m2 where
    "jaeger_hashtable_copy hb seed ht' m' =
      (if ok then do { c_assert (ht_size dst = ht_size ht'); Some (True, dst, m2) }
       else do { (dst, m) \<leftarrow> jaeger_hashtable_destroy dst m2; Some (False, dst, m) })"
    "ok \<Longrightarrow> ht_size dst = length (ht_nodes ht')" "\<not> ok \<Longrightarrow> \<not> mem_plenty m'" by metis
  with lt(1) m'(2) show ?thesis by (cases ok) auto
qed

theorem copy_after_remove_aborts_witness:
  "\<exists>ht m ht' m'. ht_map ht ''k'' = Some ''v'' \<and> jaeger_hashtable_remove (replicate 16 0) ht ''k'' m = Some (ht', m') \<and>
    jaeger_hashtable_copy True (replicate 16 0) ht' m' = None"
proof -
  from put_spec [of "replicate 16 0" table_one mem_one "''k''" "''v''"] obtain ht m where
    p: "put_post (replicate 16 0) table_one ''k'' ''v'' True ht" "ht_step table_one ht mem_one m"
    by (auto simp: mem_plenty_def)
  have h: "ht_ok (replicate 16 0) ht" "ht_map ht ''k'' = Some ''v''" "ht_size ht < 2 ^ 29" "mem_plenty m"
    using p mem_plenty_trans [of _ _ mem_one m] by (auto simp: put_post_def ht_step_def mem_plenty_def)
  from remove_spec [OF h(1) ht_step_ok [OF p(2)] ht_step_owns [OF p(2)], of "''k''"] obtain ht' m' where
    r: "jaeger_hashtable_remove (replicate 16 0) ht ''k'' m = Some (ht', m')" by blast
  from copy_after_remove_aborts [OF h(1) ht_step_ok [OF p(2)] ht_step_owns [OF p(2)] h(3,4) _ r, of True] h(2) r
  show ?thesis by auto
qed

text \<open>
  An allocation failure in \<open>jaeger_hashtable_init\<close> is not reported.  The function returns an empty
  table exactly when its one allocation is served; otherwise its cleanup path clears a table without
  buckets and the process aborts instead of returning false.
\<close>

theorem init_reports_no_failure:
  assumes "mem_ok m"
  shows "(mem_oracle m (mem_next m) \<longleftrightarrow> (\<exists>ht m'. jaeger_hashtable_init m = Some (True, ht, m') \<and> ht_ok seed ht \<and>
      ht_map ht = Map.empty \<and> mem_trans {} (set (ht_ptrs ht)) m m')) \<and>
    (\<not> mem_oracle m (mem_next m) \<longleftrightarrow> jaeger_hashtable_init m = None)"
  using init_spec [OF assms, of seed] by (auto split: if_splits)

theorem init_reports_no_failure_witness:
  "jaeger_hashtable_init (mem_one\<lparr>mem_oracle := \<lambda>_. False\<rparr>) = None \<and>
   (\<exists>ht m'. jaeger_hashtable_init mem_one = Some (True, ht, m') \<and> ht_map ht = Map.empty)"
proof -
  have "mem_ok (mem_one\<lparr>mem_oracle := \<lambda>_. False\<rparr>)" by (simp add: mem_ok_def mem_one_def)
  from init_reports_no_failure [OF this] have "jaeger_hashtable_init (mem_one\<lparr>mem_oracle := \<lambda>_. False\<rparr>) = None" by simp
  with init_reports_no_failure [OF mem_one_simps(1), of "[]"] show ?thesis by auto
qed

end
