(* ===== verification/Strings.thy ===== *)
theory Strings
  imports C_Library Hashtable
begin

text \<open>
  String utilities: \<open>src/jaegertracingc/strings.h\<close>.

  A destination buffer is the list of characters written to it, the terminator included; its string is
  \<open>c_str\<close> of it.  The masks and shifts of nibbles (numbers below 16) are written as arithmetic.
\<close>

datatype opentracing_propagation_error_code =
    OT_success
  | OT_invalid_span_context
  | OT_invalid_carrier
  | OT_unsupported_format
  | OT_span_context_corrupted
  | OT_key_not_found
  | OT_unknown

definition decode_hex :: "char \<Rightarrow> int" where
  "decode_hex ch =
     (if islower ch then (if code ch > 102 then - 1 else int (code ch) - 97 + 10)
      else if isupper ch then (if code ch > 70 then - 1 else int (code ch) - 65 + 10)
      else if isdigit ch then int (code ch) - 48
      else - 1)"

definition encode_hex :: "int \<Rightarrow> char option" where
  "encode_hex num = do {
     c_assert (num \<ge> 0 \<and> num < 16);
     if num < 10 then Some (char_of (48 + nat num)) else Some (char_of (97 + (nat num - 10)))
   }"

datatype decode_state = Default_state | Percent_state | First_hex_state

definition append_char :: "nat \<Rightarrow> string \<Rightarrow> char \<Rightarrow> string option" where
  "append_char src_len dst x = do {
     c_assert (length dst + 1 \<le> src_len + 1);
     c_assert (schar x < 0x7f);
     Some (dst @ [x])
   }"

fun decode_uri_loop :: "nat \<Rightarrow> string \<Rightarrow> decode_state \<Rightarrow> int \<Rightarrow> string \<Rightarrow> (decode_state \<times> int \<times> string) option" where
  "decode_uri_loop src_len [] state first_nibble dst = Some (state, first_nibble, dst)"
| "decode_uri_loop src_len (ch # rest) state first_nibble dst =
     (case state of
        Default_state \<Rightarrow>
          if ch = CHR ''%'' then decode_uri_loop src_len rest Percent_state first_nibble dst
          else do {
            dst \<leftarrow> append_char src_len dst ch;
            decode_uri_loop src_len rest Default_state first_nibble dst
          }
      | Percent_state \<Rightarrow>
          let first_nibble = decode_hex ch
          in if first_nibble = - 1 then do {
               dst \<leftarrow> append_char src_len dst CHR ''%'';
               dst \<leftarrow> append_char src_len dst ch;
               decode_uri_loop src_len rest Default_state first_nibble dst
             } else decode_uri_loop src_len rest First_hex_state first_nibble dst
      | First_hex_state \<Rightarrow>
          let second_nibble = decode_hex ch
          in do {
            dst \<leftarrow> (if second_nibble = - 1 then do {
                     dst \<leftarrow> append_char src_len dst CHR ''%'';
                     h \<leftarrow> encode_hex first_nibble;
                     dst \<leftarrow> append_char src_len dst h;
                     append_char src_len dst ch
                   } else
                     append_char src_len dst (char_of (nat first_nibble mod 16 * 16 + nat second_nibble mod 16)));
            decode_uri_loop src_len rest Default_state first_nibble dst
          })"

definition decode_uri_value :: "string \<Rightarrow> string option" where
  "decode_uri_value src = do {
     let src_len = length src;
     (state, first_nibble, dst) \<leftarrow> decode_uri_loop src_len src Default_state 0 [];
     dst \<leftarrow> (case state of
              Percent_state \<Rightarrow> append_char src_len dst CHR ''%''
            | First_hex_state \<Rightarrow> do {
                dst \<leftarrow> append_char src_len dst CHR ''%'';
                h \<leftarrow> encode_hex first_nibble;
                append_char src_len dst h
              }
            | Default_state \<Rightarrow> Some dst);
     append_char src_len dst CHR 0x00
   }"

definition uri_plain :: string where
  "uri_plain = '';/?:@&=+$,-_.!~*()'' @ [CHR 0x27]"

fun encode_uri_loop :: "string \<Rightarrow> string option" where
  "encode_uri_loop [] = Some []"
| "encode_uri_loop (ch # rest) = do {
     out \<leftarrow> (if isalnum ch then Some [ch]
            else if ch \<in> set uri_plain then Some [ch]
            else do {
              h1 \<leftarrow> encode_hex (int (code ch div 16 mod 16));
              h2 \<leftarrow> encode_hex (int (code ch mod 16));
              Some [CHR ''%'', h1, h2]
            });
     out' \<leftarrow> encode_uri_loop rest;
     Some (out @ out')
   }"

definition encode_uri_value :: "string \<Rightarrow> string option" where
  "encode_uri_value src = do {
     dst \<leftarrow> encode_uri_loop src;
     Some (dst @ [CHR 0x00])
   }"

definition copy_str :: "string \<Rightarrow> string" where
  "copy_str src = src @ [CHR 0x00]"

definition to_lowercase :: "string \<Rightarrow> string" where
  "to_lowercase src = map tolower src @ [CHR 0x00]"

definition parse_key_value ::
  "u8 list \<Rightarrow> jaeger_hashtable \<Rightarrow> string \<Rightarrow> mem \<Rightarrow>
   (opentracing_propagation_error_code \<times> jaeger_hashtable \<times> mem) option" where
  "parse_key_value seed baggage str m =
     (let (key, eq_context) = strtok CHR ''='' str;
          (value, eq_context) = strtok CHR ''='' eq_context
      in case (key, value) of
           (Some key, Some value) \<Rightarrow> do {
             (ok, baggage, m) \<leftarrow> jaeger_hashtable_put seed baggage key value m;
             Some (if ok then OT_success else OT_unknown, baggage, m)
           }
         | _ \<Rightarrow> Some (OT_span_context_corrupted, baggage, m))"

function parse_comma_separated_map ::
  "u8 list \<Rightarrow> jaeger_hashtable \<Rightarrow> string \<Rightarrow> mem \<Rightarrow>
   (opentracing_propagation_error_code \<times> jaeger_hashtable \<times> mem) option" where
  "parse_comma_separated_map seed baggage str m =
     (case strtok CHR '','' str of
        (None, _) \<Rightarrow> Some (OT_success, baggage, m)
      | (Some kv_str, comma_context) \<Rightarrow> do {
          (result, baggage, m) \<leftarrow> parse_key_value seed baggage kv_str m;
          if result \<noteq> OT_success then Some (result, baggage, m)
          else parse_comma_separated_map seed baggage comma_context m
        })"
  by pat_completeness auto
termination
  by (relation "measure (\<lambda>(seed, baggage, str, m). length str)") (auto dest: strtok_shorter sym)

declare parse_comma_separated_map.simps [simp del]

section \<open>Hexadecimal digits\<close>

lemma encode_hex_digit: "0 \<le> n \<Longrightarrow> n < 16 \<Longrightarrow> encode_hex n = Some (hexdigit (nat n))"
  by (auto simp: encode_hex_def hexdigit_def nat_less_iff add.commute)

lemma decode_encode_hex [simp]: "n < 16 \<Longrightarrow> decode_hex (hexdigit n) = int n"
  by (auto simp: decode_hex_def hexdigit_def islower_def isupper_def isdigit_def)

lemma decode_hex_range: "decode_hex c = - 1 \<or> 0 \<le> decode_hex c \<and> decode_hex c < 16"
  by (auto simp: decode_hex_def islower_def isupper_def isdigit_def)

lemma decode_hex_ascii: "decode_hex c \<noteq> - 1 \<Longrightarrow> hexval c = Some (nat (decode_hex c))"
  by (auto simp: decode_hex_def hexval_def islower_def isupper_def isdigit_def split: if_splits)

section \<open>URI escapes\<close>

text \<open>The escape of one character.\<close>

definition uri_escape :: "char \<Rightarrow> string" where
  "uri_escape ch =
     (if isalnum ch \<or> ch \<in> set uri_plain then [ch]
      else [CHR ''%'', hexdigit (code ch div 16), hexdigit (code ch mod 16)])"

lemma code_div_less [simp]: "code c div 16 < 16"
  by (rule less_mult_imp_div_less) simp

lemma encode_uri_loop: "encode_uri_loop s = Some (concat (map uri_escape s))"
  by (induction s) (simp_all add: uri_escape_def encode_hex_digit)

lemma encode_uri_value: "encode_uri_value s = Some (concat (map uri_escape s) @ [CHR 0x00])"
  by (simp add: encode_uri_value_def encode_uri_loop)

lemma hexdigit_not_nul [simp]: "n < 16 \<Longrightarrow> hexdigit n \<noteq> CHR 0x00"
proof -
  assume "n < 16"
  then have "hexval (hexdigit n) \<noteq> None" by simp
  with hexval_not_special show ?thesis by blast
qed

lemma uri_escape_nul_free: "c \<noteq> CHR 0x00 \<Longrightarrow> nul_free (uri_escape c)"
  by (auto simp: uri_escape_def)

lemma nul_free_concat: "\<forall>s\<in>set ss. nul_free s \<Longrightarrow> nul_free (concat ss)"
  by (induction ss) auto

lemma encode_nul_free: "nul_free s \<Longrightarrow> nul_free (concat (map uri_escape s))"
  by (rule nul_free_concat) (auto simp: nul_free_def [of s] intro!: uri_escape_nul_free)

lemma length_uri_escape: "0 < length (uri_escape c)" "length (uri_escape c) \<le> 3"
  by (simp_all add: uri_escape_def)

lemma length_encode: "length s \<le> length (concat (map uri_escape s))" "length (concat (map uri_escape s)) \<le> 3 * length s"
proof -
  show "length s \<le> length (concat (map uri_escape s))"
  proof (induction s)
    case (Cons c s) then show ?case using length_uri_escape [of c] by (simp del: length_greater_0_conv)
  qed simp
  show "length (concat (map uri_escape s)) \<le> 3 * length s"
  proof (induction s)
    case (Cons c s) then show ?case using length_uri_escape [of c] by (simp del: length_greater_0_conv)
  qed simp
qed

definition DEL :: char where
  "DEL = CHR 0x7F"

lemma append_char_ok: "length dst \<le> n \<Longrightarrow> c \<noteq> DEL \<Longrightarrow> append_char n dst c = Some (dst @ [c])"
proof -
  assume a: "length dst \<le> n" and "c \<noteq> DEL"
  then have "code c \<noteq> code DEL" by simp
  moreover have "code DEL = 127" by (simp add: DEL_def code_def)
  ultimately have "code c \<noteq> 127" by simp
  then have "schar c < 0x7f" using code_less [of c] by (auto simp: schar_def simp del: code_less)
  with a show ?thesis by (simp add: append_char_def)
qed

lemma percent_not_alnum: "\<not> isalnum CHR ''%''" "CHR ''%'' \<notin> set uri_plain"
  by (simp_all add: isalnum_def islower_def isupper_def isdigit_def code_def uri_plain_def)

lemma decode_escape:
  assumes "c \<noteq> DEL" and "length dst \<le> n"
  shows "\<exists>f'. decode_uri_loop n (uri_escape c @ t) Default_state f dst = decode_uri_loop n t Default_state f' (dst @ [c])"
proof (cases "isalnum c \<or> c \<in> set uri_plain")
  case True
  then have "c \<noteq> CHR ''%''" using percent_not_alnum by auto
  with True assms show ?thesis by (auto simp: uri_escape_def append_char_ok)
next
  case False
  have "char_of (code c div 16 mod 16 * 16 + code c mod 16) = c"
    by (metis char_of_code code_div_less div_mult_mod_eq mod_less)
  with False assms show ?thesis
    by (auto simp: uri_escape_def append_char_ok Let_def)
qed

lemma decode_encoded:
  assumes "DEL \<notin> set s" and "length dst + length (concat (map uri_escape s)) \<le> n"
  shows "\<exists>f'. decode_uri_loop n (concat (map uri_escape s)) Default_state f dst = Some (Default_state, f', dst @ s)"
  using assms
proof (induction s arbitrary: dst f)
  case (Cons c s)
  then obtain f1 where "decode_uri_loop n (uri_escape c @ concat (map uri_escape s)) Default_state f dst =
      decode_uri_loop n (concat (map uri_escape s)) Default_state f1 (dst @ [c])"
    using decode_escape [of c dst n] by fastforce
  moreover obtain f2 where "decode_uri_loop n (concat (map uri_escape s)) Default_state f1 (dst @ [c]) =
      Some (Default_state, f2, (dst @ [c]) @ s)"
    using Cons.IH [of "dst @ [c]" f1] Cons.prems length_uri_escape(1) [of c] by (auto simp del: length_greater_0_conv)
  ultimately show ?case by auto
qed simp

lemma decode_encode:
  assumes "DEL \<notin> set s" and "nul_free s"
  shows "\<exists>d. decode_uri_value (concat (map uri_escape s)) = Some d \<and> c_str d = s"
proof -
  let ?e = "concat (map uri_escape s)"
  from decode_encoded [OF assms(1), of "[]" "length ?e" 0] obtain f where
    "decode_uri_loop (length ?e) ?e Default_state 0 [] = Some (Default_state, f, s)" by auto
  moreover have "CHR 0x00 \<noteq> DEL" by (simp add: DEL_def)
  ultimately have "decode_uri_value ?e = Some (s @ [CHR 0x00])"
    using length_encode(1) [of s] by (simp add: decode_uri_value_def append_char_ok)
  with assms(2) show ?thesis by simp
qed

lemma decode_plain_loop:
  "CHR ''%'' \<notin> set s \<Longrightarrow> DEL \<notin> set s \<Longrightarrow> length dst + length s \<le> n \<Longrightarrow>
   decode_uri_loop n s Default_state f dst = Some (Default_state, f, dst @ s)"
  by (induction s arbitrary: dst) (auto simp: append_char_ok)

lemma decode_plain:
  assumes "CHR ''%'' \<notin> set s" and "DEL \<notin> set s"
  shows "decode_uri_value s = Some (s @ [CHR 0x00])"
proof -
  have "CHR 0x00 \<noteq> DEL" by (simp add: DEL_def)
  with decode_plain_loop [OF assms, of "[]" "length s" 0] show ?thesis by (simp add: decode_uri_value_def append_char_ok)
qed

section \<open>Decoding arbitrary input\<close>

text \<open>The escape of DEL, which the decoder refuses with an assertion.\<close>

definition del_escape :: "string \<Rightarrow> bool" where
  "del_escape s \<longleftrightarrow> (\<exists>p q. s = p @ ''%7f'' @ q \<or> s = p @ ''%7F'' @ q)"

lemma del_escape_Cons: "\<not> del_escape (c # s) \<Longrightarrow> \<not> del_escape s"
  by (auto simp: del_escape_def) (metis append_Cons)+

text \<open>What the decoder has read but not yet written in each state.\<close>

definition pending :: "decode_state \<Rightarrow> int \<Rightarrow> string \<Rightarrow> bool" where
  "pending st f pre \<longleftrightarrow>
     (case st of
        Default_state \<Rightarrow> pre = []
      | Percent_state \<Rightarrow> pre = ''%''
      | First_hex_state \<Rightarrow> (\<exists>h. pre = [CHR ''%'', h] \<and> decode_hex h = f \<and> f \<noteq> - 1))"

lemma encode_hex_decoded: "decode_hex h \<noteq> - 1 \<Longrightarrow> encode_hex (decode_hex h) = Some (hexdigit (nat (decode_hex h)))"
  using decode_hex_range [of h] by (intro encode_hex_digit) auto

lemma hexdigit_not_DEL [simp]: "n < 16 \<Longrightarrow> hexdigit n \<noteq> DEL"
proof
  assume "n < 16" and "hexdigit n = DEL"
  then have "hexval DEL = Some n" by (metis hexval_hexdigit)
  then show False by (simp add: DEL_def hexval_def isdigit_def code_def)
qed

lemma code_DEL [simp]: "code DEL = 127"
  by (simp add: DEL_def code_def)

lemma percent_not_DEL [simp]: "CHR ''%'' \<noteq> DEL"
  by (simp add: DEL_def)

lemma decoded_char_DEL:
  assumes "decode_hex h \<noteq> - 1" and "decode_hex ch \<noteq> - 1" and "\<not> del_escape ([CHR ''%'', h, ch] @ rest)"
  shows "char_of (nat (decode_hex h) mod 16 * 16 + nat (decode_hex ch) mod 16) \<noteq> DEL"
proof
  let ?a = "nat (decode_hex h)" and ?b = "nat (decode_hex ch)"
  have r: "?a < 16" "?b < 16" using decode_hex_range [of h] decode_hex_range [of ch] assms(1,2) by auto
  assume "char_of (?a mod 16 * 16 + ?b mod 16) = DEL"
  then have "code (char_of (?a mod 16 * 16 + ?b mod 16)) = 127" by simp
  then have "?a * 16 + ?b = 127" using r by simp
  moreover have "a = 7 \<and> b = 15" if "a * 16 + b = 127" "a < 16" "b < 16" for a b :: nat
    using that by presburger
  ultimately have "?a = 7" "?b = 15" using r by blast+
  then have "decode_hex h = 7" "decode_hex ch = 15" using assms(1,2) by auto
  then have "code h = 55" "code ch = 102 \<or> code ch = 70"
    by (auto simp: decode_hex_def islower_def isupper_def isdigit_def split: if_splits)
  then have "h = CHR ''7''" "ch = CHR ''f'' \<or> ch = CHR ''F''"
    using code_eq_iff [of h "CHR ''7''"] code_eq_iff [of ch "CHR ''f''"] code_eq_iff [of ch "CHR ''F''"]
    by (auto simp: code_def)
  with assms(3) show False by (auto simp: del_escape_def)
qed

text \<open>
  The decoder writes at most one character for each one it reads, so its bound assertion never
  fails, and it returns unless the input holds DEL or its escape.
\<close>

lemma decode_uri_loop_total:
  assumes "pending st f pre" and "length dst + length pre + length rest \<le> n"
    and "DEL \<notin> set rest" and "\<not> del_escape (pre @ rest)"
  shows "\<exists>st' f' pre' dst'. decode_uri_loop n rest st f dst = Some (st', f', dst') \<and> pending st' f' pre' \<and>
    length dst' + length pre' \<le> n"
  using assms
proof (induction rest arbitrary: st f pre dst)
  case Nil
  then show ?case by auto
next
  case (Cons ch rest)
  have ch: "ch \<noteq> DEL" "DEL \<notin> set rest" using Cons.prems(3) by auto
  show ?case
  proof (cases st)
    case Default_state
    then have pre: "pre = []" using Cons.prems(1) by (simp add: pending_def)
    show ?thesis
    proof (cases "ch = CHR ''%''")
      case True
      with Cons.IH [of Percent_state f "''%''" dst] Cons.prems(2,4) ch Default_state pre show ?thesis
        by (simp add: pending_def)
    next
      case False
      with Cons.IH [of Default_state f "[]" "dst @ [ch]"] Cons.prems(2,4) ch Default_state pre show ?thesis
        by (auto simp: pending_def append_char_ok dest: del_escape_Cons)
    qed
  next
    case Percent_state
    then have pre: "pre = ''%''" using Cons.prems(1) by (simp add: pending_def)
    show ?thesis
    proof (cases "decode_hex ch = - 1")
      case True
      have "\<not> del_escape rest" using Cons.prems(4) pre del_escape_Cons by (metis append_Cons append_Nil)
      with True Cons.IH [of Default_state "- 1" "[]" "dst @ [CHR ''%'', ch]"] Cons.prems(2) ch Percent_state pre
      show ?thesis by (simp add: pending_def append_char_ok)
    next
      case False
      with Cons.IH [of First_hex_state "decode_hex ch" "[CHR ''%'', ch]" dst] Cons.prems(2,4) ch Percent_state pre
      show ?thesis by (simp add: pending_def)
    qed
  next
    case First_hex_state
    then obtain h where pre: "pre = [CHR ''%'', h]" "decode_hex h = f" "f \<noteq> - 1"
      using Cons.prems(1) by (auto simp: pending_def)
    have nd: "\<not> del_escape rest" using Cons.prems(4) pre del_escape_Cons by (metis append_Cons append_Nil)
    have nib: "nat f < 16" using decode_hex_range [of h] pre by auto
    show ?thesis
    proof (cases "decode_hex ch = - 1")
      case True
      with Cons.IH [of Default_state f "[]" "dst @ [CHR ''%'', hexdigit (nat f), ch]"] Cons.prems(2) ch
        First_hex_state pre nd nib encode_hex_decoded [of h]
      show ?thesis by (simp add: pending_def append_char_ok)
    next
      case False
      with decoded_char_DEL [of h ch rest] Cons.prems(4) pre
      have "char_of (nat f mod 16 * 16 + nat (decode_hex ch) mod 16) \<noteq> DEL" by simp
      with False Cons.IH [of Default_state f "[]" "dst @ [char_of (nat f mod 16 * 16 + nat (decode_hex ch) mod 16)]"]
        Cons.prems(2) ch First_hex_state pre nd
      show ?thesis by (simp add: pending_def append_char_ok)
    qed
  qed
qed

lemma decode_total:
  assumes "DEL \<notin> set s" and "\<not> del_escape s"
  shows "\<exists>d. decode_uri_value s = Some d \<and> length d \<le> length s + 1"
proof -
  from decode_uri_loop_total [of Default_state 0 "[]" "[]" s "length s"] assms obtain st f pre dst where
    l: "decode_uri_loop (length s) s Default_state 0 [] = Some (st, f, dst)" "pending st f pre"
    "length dst + length pre \<le> length s" by (auto simp: pending_def)
  have nul: "CHR 0x00 \<noteq> DEL" by (simp add: DEL_def)
  show ?thesis
  proof (cases st)
    case First_hex_state
    with l(2) obtain h where pre: "pre = [CHR ''%'', h]" "decode_hex h = f" "f \<noteq> - 1" by (auto simp: pending_def)
    with encode_hex_decoded [of h] decode_hex_range [of h] l(1,3) First_hex_state nul show ?thesis
      by (auto simp: decode_uri_value_def append_char_ok)
  qed (use l nul in \<open>auto simp: decode_uri_value_def append_char_ok pending_def\<close>)
qed

section \<open>Comma-separated maps\<close>

definition print_key_value :: "string \<times> string \<Rightarrow> string" where
  "print_key_value kv = fst kv @ ''='' @ snd kv"

fun print_map :: "(string \<times> string) list \<Rightarrow> string" where
  "print_map [] = []"
| "print_map [kv] = print_key_value kv"
| "print_map (kv # kvs) = print_key_value kv @ '','' @ print_map kvs"

definition word_ok :: "string \<Rightarrow> bool" where
  "word_ok s \<longleftrightarrow> s \<noteq> [] \<and> CHR ''='' \<notin> set s \<and> CHR '','' \<notin> set s"

lemma parse_printed_pair:
  assumes "word_ok (fst kv)" and "word_ok (snd kv)"
  shows "parse_key_value seed b (print_key_value kv) m =
    map_option (\<lambda>(ok, b, m). (if ok then OT_success else OT_unknown, b, m))
      (jaeger_hashtable_put seed b (fst kv) (snd kv) m)"
  using assms strtok_token(1) [of "fst kv" "CHR ''=''" "snd kv"] strtok_token(2) [of "snd kv" "CHR ''=''"]
  by (cases "jaeger_hashtable_put seed b (fst kv) (snd kv) m")
    (auto simp: parse_key_value_def print_key_value_def word_ok_def)

lemma parse_printed_map:
  assumes "\<forall>kv\<in>set kvs. word_ok (fst kv) \<and> word_ok (snd kv)"
  shows "parse_comma_separated_map seed b (print_map kvs) m =
    map_option (\<lambda>(ok, b, m). (if ok then OT_success else OT_unknown, b, m))
      (put_all (jaeger_hashtable_put seed) kvs b m)"
  using assms
proof (induction kvs arbitrary: b m rule: print_map.induct)
  case 1
  then show ?case by (simp add: parse_comma_separated_map.simps)
next
  case (2 kv)
  have "print_key_value kv \<noteq> []" "CHR '','' \<notin> set (print_key_value kv)"
    using 2 by (auto simp: print_key_value_def word_ok_def)
  then have tok: "strtok CHR '','' (print_key_value kv) = (Some (print_key_value kv), [])" by (rule strtok_token(2))
  obtain k v where kv: "kv = (k, v)" by fastforce
  show ?case
    using 2 tok parse_printed_pair [of kv seed b m] kv
    by (cases "jaeger_hashtable_put seed b k v m")
      (auto simp: parse_comma_separated_map.simps [of _ _ "print_key_value _"] parse_comma_separated_map.simps [of _ _ "[]"])
next
  case (3 kv kv' kvs)
  let ?rest = "print_map (kv' # kvs)"
  have "print_key_value kv \<noteq> []" "CHR '','' \<notin> set (print_key_value kv)"
    using 3(2) by (auto simp: print_key_value_def word_ok_def)
  then have tok: "strtok CHR '','' (print_key_value kv @ '','' @ ?rest) = (Some (print_key_value kv), ?rest)"
    using strtok_token(1) [of "print_key_value kv" "CHR '',''" ?rest] by simp
  obtain k v where kv: "kv = (k, v)" by fastforce
  have ih: "parse_comma_separated_map seed b ?rest m =
    map_option (\<lambda>(ok, b, m). (if ok then OT_success else OT_unknown, b, m))
      (put_all (jaeger_hashtable_put seed) (kv' # kvs) b m)" for b m using 3 by auto
  show ?case
    using 3(2) tok parse_printed_pair [of kv seed b m] kv ih
    by (cases "jaeger_hashtable_put seed b k v m")
      (auto simp: parse_comma_separated_map.simps [of _ _ "print_key_value _ @ _"])
qed

section \<open>Properties\<close>

text \<open>
  URI encoding and decoding of baggage values are inverse.  For every string without NUL and DEL,
  \<open>encode_uri_value\<close> returns a string at most three times as long, and decoding it gives the string
  back.
\<close>

theorem uri_roundtrip:
  assumes "nul_free s" and "DEL \<notin> set s"
  shows "\<exists>e d. encode_uri_value s = Some e \<and> length (c_str e) \<le> 3 * length s \<and>
    decode_uri_value (c_str e) = Some d \<and> c_str d = s"
  using decode_encode [OF assms(2,1)] encode_nul_free [OF assms(1)] length_encode(2) [of s]
  by (simp add: encode_uri_value)

theorem uri_roundtrip_witness:
  "\<exists>e d. encode_uri_value ''a b%c'' = Some e \<and> length (c_str e) \<le> 3 * length ''a b%c'' \<and>
    decode_uri_value (c_str e) = Some d \<and> c_str d = ''a b%c''"
  by (rule uri_roundtrip) (simp_all add: DEL_def)



text \<open>
  \<open>parse_comma_separated_map\<close> reads back what a map prints as.  For a list of pairs whose keys and
  values are non-empty and free of commas and equals signs, parsing \<open>k1=v1,k2=v2,...\<close> into a
  table returns; when it reports success, the table's map is the old one overridden by the pairs in
  order, later ones winning, and it reports failure only if an allocation fails.
\<close>

theorem parse_map_roundtrip:
  assumes "ht_ok seed b" and "mem_ok m" and "owns m (ht_ptrs b)" and "ht_size b + length kvs < 2 ^ 30"
    and "\<forall>kv\<in>set kvs. word_ok (fst kv) \<and> word_ok (snd kv)"
  shows "\<exists>r b' m'. parse_comma_separated_map seed b (print_map kvs) m = Some (r, b', m') \<and> ht_ok seed b' \<and>
    (r = OT_success \<longrightarrow> ht_map b' = ht_map b ++ map_of (rev kvs)) \<and>
    (r \<noteq> OT_success \<longrightarrow> r = OT_unknown \<and> \<not> mem_plenty m) \<and>
    distinct (ht_ptrs b') \<and> mem_trans (set (ht_ptrs b)) (set (ht_ptrs b')) m m'"
  using htm.put_all_law [OF assms(1-4)] parse_printed_map [OF assms(5), of seed b m] by force

theorem parse_map_roundtrip_witness:
  "\<exists>b' m'. parse_comma_separated_map (replicate 16 0) table_one ''a=1,b=2'' mem_one = Some (OT_success, b', m') \<and>
    ht_map b' = [''a'' \<mapsto> ''1'', ''b'' \<mapsto> ''2'']"
  using parse_map_roundtrip [of "replicate 16 0" table_one mem_one "[(''a'', ''1''), (''b'', ''2'')]"]
  by (auto simp: word_ok_def print_key_value_def mem_plenty_def)

end
