(* ===== verification/Ownership.thy ===== *)
theory Ownership
  imports Alloc "HOL-Library.Multiset"
begin

text \<open>
  Building a structure block by block: which blocks an operation of many allocations has added.  The
  proofs about spans, tracers and reporters use these laws instead of the set form of \<open>Alloc\<close>.
\<close>

text \<open>\<open>fresh_list ps m m'\<close>: between \<open>m\<close> and \<open>m'\<close> exactly the blocks \<open>ps\<close> were added, each once.\<close>

definition fresh_list :: "ptr list \<Rightarrow> mem \<Rightarrow> mem \<Rightarrow> bool" where
  "fresh_list ps m m' \<longleftrightarrow> distinct ps \<and> mem_trans {} (set ps) m m'"

lemma fresh_list_perm: "fresh_list ps m m' \<Longrightarrow> mset ps = mset qs \<Longrightarrow> fresh_list qs m m'"
  by (auto simp: fresh_list_def dest: mset_eq_setD mset_eq_imp_distinct_iff)

lemma fresh_list_append: "fresh_list ps m m1 \<Longrightarrow> fresh_list qs m1 m2 \<Longrightarrow> mem_ok m \<Longrightarrow> fresh_list (ps @ qs) m m2"
  using alloc_append unfolding fresh_list_def by blast

lemma fresh_list_replace:
  assumes "fresh_list (ps @ as) m m1" and "mem_trans (set as) (set bs) m1 m2" and "distinct bs" and "mem_ok m"
  shows "fresh_list (ps @ bs) m m2"
proof -
  have d: "distinct (ps @ as)" and mt: "mem_trans {} (set (ps @ as)) m m1" using assms(1) by (auto simp: fresh_list_def)
  have sub: "set (ps @ as) \<subseteq> dom (mem_blocks m1)" using mem_trans_dom [OF mt] by auto
  have e: "set (ps @ as) - set as = set ps" using d by auto
  note l = mem_trans_local [OF assms(2) sub, unfolded e]
  have "mem_trans {} (set (ps @ bs)) m m2" using mem_trans_trans [OF mt _ assms(4)] l(1) by simp
  moreover have "distinct (ps @ bs)" using d assms(3) l(2) by auto
  ultimately show ?thesis by (simp add: fresh_list_def)
qed

lemma fresh_listD:
  assumes "fresh_list ps m m'"
  shows "mem_ok m'" and "owns m' ps" and "mem_plenty m' = mem_plenty m" and "mem_trans {} (set ps) m m'" and "distinct ps"
  using assms owns_trans mem_trans_ok mem_plenty_trans unfolding fresh_list_def by blast+

lemma strdup_good:
  assumes "mem_ok m" and "mem_plenty m"
  obtains q m' where "jaeger_strdup (Some s) m = Some (Some q, m')" and "snd q = s" and "fresh_list [fst q] m m'"
proof -
  from jaeger_strdup_total obtain r m' where r: "jaeger_strdup (Some s) m = Some (r, m')" by blast
  with jaeger_strdup_plenty [OF assms] obtain q where q: "r = Some q" by (cases r) auto
  with r jaeger_strdup_SomeD [of s m q m'] assms(1) that [of q m'] show thesis by (auto simp: fresh_list_def)
qed

text \<open>An operation between the allocation and the release of temporary blocks.\<close>

lemma mem_trans_scratch:
  assumes "mem_trans {} (set ts) m m1" and "mem_trans A B m1 m2" and "mem_trans (set ts) {} m2 m3"
    and "A \<subseteq> dom (mem_blocks m)" and "mem_ok m"
  shows "mem_trans A B m m3"
proof -
  have t: "set ts \<subseteq> dom (mem_blocks m1)" "set ts \<inter> A = {}"
    using mem_trans_dom [OF assms(1)] mem_trans_disj [OF assms(1)] assms(4) by auto
  have b: "B \<subseteq> dom (mem_blocks m2)" "B \<inter> set ts = {}"
    using mem_trans_dom [OF assms(2)] mem_trans_disj [OF assms(2)] t by auto
  have "mem_trans A (set ts \<union> A) m m1" using mem_trans_frame [OF assms(1,4)] by simp
  moreover have "mem_trans (set ts \<union> A) (set ts \<union> B) m1 m2" using mem_trans_frame [OF assms(2) t] by (simp add: Un_commute)
  moreover have "mem_trans (set ts \<union> B) B m2 m3" using mem_trans_frame [OF assms(3) b] by simp
  ultimately show ?thesis using mem_trans_trans assms(5) by blast
qed

lemma free_two:
  assumes "mem_ok m" and "owns m [a, b]"
  obtains m1 m2 where "jaeger_free (Some a) m = Some m1" and "jaeger_free (Some b) m1 = Some m2" and "mem_trans (set [a, b]) {} m m2"
proof -
  from assms have "a \<in> dom (mem_blocks m)" by (simp add: own_simps)
  from jaeger_free_live [OF assms(1) this] obtain m1 where a: "jaeger_free (Some a) m = Some m1" "mem_trans (set [a]) {} m m1" by auto
  note r = release_rest [OF a(2), of "[b]"]
  have "b \<in> dom (mem_blocks m1)" using r(1) assms(2) by (simp add: own_simps)
  from jaeger_free_live [OF r(2) this] assms(2) obtain m2 where b: "jaeger_free (Some b) m1 = Some m2" "mem_trans (set [b]) {} m1 m2" by auto
  from that [OF a(1) b(1)] release_append [OF a(2) b(2)] assms show thesis by simp
qed

lemma free_three:
  assumes "mem_ok m" and "owns m [a, b, c]"
  obtains m1 m2 m3 where "jaeger_free (Some a) m = Some m1" and "jaeger_free (Some b) m1 = Some m2"
    and "jaeger_free (Some c) m2 = Some m3" and "mem_trans (set [a, b, c]) {} m m3"
proof -
  from assms have "a \<in> dom (mem_blocks m)" by (simp add: own_simps)
  from jaeger_free_live [OF assms(1) this] obtain m1 where a: "jaeger_free (Some a) m = Some m1" "mem_trans (set [a]) {} m m1" by auto
  have o: "owns m ([a] @ [b, c])" using assms(2) by simp
  from free_two [OF release_rest(2,1) [OF a(2) o]] obtain m2 m3 where
    bc: "jaeger_free (Some b) m1 = Some m2" "jaeger_free (Some c) m2 = Some m3" "mem_trans (set [b, c]) {} m1 m3" .
  from that [OF a(1) bc(1,2)] release_append [OF a(2) bc(3) o assms(1)] show thesis by simp
qed

lemma malloc_cases:
  assumes "mem_ok m"
  obtains m1 where "jaeger_malloc n m = (None, m1)" "mem_trans {} {} m m1" "\<not> mem_plenty m"
  | p m1 where "jaeger_malloc n m = (Some p, m1)" "mem_trans {} {p} m m1"
proof (cases "jaeger_malloc n m")
  case (Pair r m1)
  then show thesis
    using that jaeger_malloc_NoneD [of n m m1] jaeger_malloc_SomeD(1) [of n m "the r" m1]
      jaeger_malloc_plenty [OF assms, of n m1] assms
    by (cases r) auto
qed

lemma malloc_plenty:
  assumes "mem_ok m" and "mem_plenty m"
  obtains p m' where "jaeger_malloc n m = (Some p, m')" and "fresh_list [p] m m'"
  by (rule malloc_cases [OF assms(1), of n]) (use assms(2) that in \<open>auto simp: fresh_list_def\<close>)

lemma malloc_good:
  assumes "mem_ok m" and "mem_plenty m"
  obtains p m' where "jaeger_malloc n m = (Some p, m')" and "fresh_list [p] m m'"
  using malloc_cases [OF assms(1), of n] assms(2) that by (auto simp: fresh_list_def)

end
