(* ===== verification/Span_Context.thy ===== *)
theory Span_Context
  imports Tag Trace_Id Strings Ownership
begin

text \<open>
  Span contexts and span references: \<open>src/jaegertracingc/span.c\<close>, \<open>span.h\<close>.

  The records have the fields of the C structs.  A mutex is the flag that it is held: locking a held
  mutex (which would block its own thread for ever) and unlocking one that is not held have no
  continuation.  \<open>env\<close> holds what comes from outside: the hash seed, the build variant of the order
  computation and the generated initialiser of a tag.  Clock readings during a call are arguments.
\<close>

record env =
  env_seed :: "u8 list"
  env_have_builtin :: bool
  env_tag_init :: jaeger_tag

section \<open>Span contexts\<close>

definition jaeger_sampling_flag_sampled :: u8 where
  "jaeger_sampling_flag_sampled = 1"

definition jaeger_sampling_flag_debug :: u8 where
  "jaeger_sampling_flag_debug = 2"

record jaeger_span_context =
  ctx_trace_id :: jaeger_trace_id
  ctx_span_id :: u64
  ctx_flags :: u8
  ctx_baggage :: jaeger_hashtable
  ctx_debug_id :: "cstring option"
  ctx_locked :: bool

definition JAEGERTRACINGC_SPAN_CONTEXT_INIT :: jaeger_span_context where
  "JAEGERTRACINGC_SPAN_CONTEXT_INIT =
     \<lparr>ctx_trace_id = JAEGERTRACINGC_TRACE_ID_INIT, ctx_span_id = 0, ctx_flags = 0,
      ctx_baggage = JAEGERTRACINGC_HASHTABLE_INIT, ctx_debug_id = None, ctx_locked = False\<rparr>"

definition ctx_lock :: "jaeger_span_context \<Rightarrow> jaeger_span_context option" where
  "ctx_lock ctx = do { c_assert (\<not> ctx_locked ctx); Some (ctx\<lparr>ctx_locked := True\<rparr>) }"

definition ctx_unlock :: "jaeger_span_context \<Rightarrow> jaeger_span_context option" where
  "ctx_unlock ctx = do { c_assert (ctx_locked ctx); Some (ctx\<lparr>ctx_locked := False\<rparr>) }"

definition jaeger_span_context_destroy :: "jaeger_span_context \<Rightarrow> mem \<Rightarrow> (jaeger_span_context \<times> mem) option" where
  "jaeger_span_context_destroy ctx m = do {
     (baggage, m) \<leftarrow> jaeger_hashtable_destroy (ctx_baggage ctx) m;
     m \<leftarrow> jaeger_free (map_option fst (ctx_debug_id ctx)) m;
     c_assert (\<not> ctx_locked ctx);
     Some (ctx\<lparr>ctx_baggage := baggage, ctx_debug_id := None\<rparr>, m)
   }"

text \<open>The callback gets its argument \<open>arg\<close> and returns whether to go on; \<open>break\<close> leaves the inner loop only.\<close>

fun foreach_bucket ::
  "('s \<Rightarrow> string \<Rightarrow> string \<Rightarrow> bool \<times> 's) \<Rightarrow> kv_node list \<Rightarrow> 's \<Rightarrow> 's option" where
  "foreach_bucket f [] arg = Some arg"
| "foreach_bucket f (node # rest) arg = do {
     k \<leftarrow> kv_key (snd node);
     v \<leftarrow> kv_value (snd node);
     (let (go, arg) = f arg (snd k) (snd v) in if go then foreach_bucket f rest arg else Some arg)
   }"

fun foreach_buckets ::
  "('s \<Rightarrow> string \<Rightarrow> string \<Rightarrow> bool \<times> 's) \<Rightarrow> kv_node list list \<Rightarrow> 's \<Rightarrow> 's option" where
  "foreach_buckets f [] arg = Some arg"
| "foreach_buckets f (bucket # rest) arg = do {
     arg \<leftarrow> foreach_bucket f bucket arg;
     foreach_buckets f rest arg
   }"

definition jaeger_span_context_foreach_baggage_item ::
  "jaeger_span_context \<Rightarrow> ('s \<Rightarrow> string \<Rightarrow> string \<Rightarrow> bool \<times> 's) \<Rightarrow> 's \<Rightarrow> (jaeger_span_context \<times> 's) option" where
  "jaeger_span_context_foreach_baggage_item ctx f arg = do {
     ctx \<leftarrow> ctx_lock ctx;
     len \<leftarrow> bucket_count (ht_order (ctx_baggage ctx));
     (p, buckets) \<leftarrow> ht_buckets (ctx_baggage ctx);
     c_assert (len \<le> length buckets);
     arg \<leftarrow> foreach_buckets f (take len buckets) arg;
     ctx \<leftarrow> ctx_unlock ctx;
     Some (ctx, arg)
   }"

definition jaeger_span_context_init :: "mem \<Rightarrow> (bool \<times> jaeger_span_context \<times> mem) option" where
  "jaeger_span_context_init m = do {
     (ok, baggage, m) \<leftarrow> jaeger_hashtable_init m;
     Some (ok, JAEGERTRACINGC_SPAN_CONTEXT_INIT\<lparr>ctx_baggage := baggage\<rparr>, m)
   }"

definition jaeger_span_context_copy ::
  "env \<Rightarrow> jaeger_span_context \<Rightarrow> mem \<Rightarrow> (bool \<times> jaeger_span_context \<times> mem) option" where
  "jaeger_span_context_copy env src m = do {
     let dst = JAEGERTRACINGC_SPAN_CONTEXT_INIT;
     src \<leftarrow> ctx_lock src;
     dst \<leftarrow> ctx_lock dst;
     (ok, baggage, m) \<leftarrow> jaeger_hashtable_copy (env_have_builtin env) (env_seed env) (ctx_baggage src) m;
     let dst = dst\<lparr>ctx_baggage := baggage\<rparr>;
     if \<not> ok then do {
       src \<leftarrow> ctx_unlock src;
       dst \<leftarrow> ctx_unlock dst;
       (dst, m) \<leftarrow> jaeger_span_context_destroy dst m;
       Some (False, dst, m)
     } else do {
       let dst = dst\<lparr>ctx_trace_id := ctx_trace_id src, ctx_span_id := ctx_span_id src, ctx_flags := ctx_flags src\<rparr>;
       src \<leftarrow> ctx_unlock src;
       dst \<leftarrow> ctx_unlock dst;
       Some (True, dst, m)
     }
   }"

definition jaeger_span_context_is_valid :: "jaeger_span_context \<Rightarrow> bool" where
  "jaeger_span_context_is_valid ctx \<longleftrightarrow> tid_high (ctx_trace_id ctx) \<noteq> 0 \<or> tid_low (ctx_trace_id ctx) \<noteq> 0"

definition jaeger_span_context_is_debug_id_container_only :: "jaeger_span_context \<Rightarrow> bool" where
  "jaeger_span_context_is_debug_id_container_only ctx \<longleftrightarrow>
     \<not> jaeger_span_context_is_valid ctx \<and> ctx_debug_id ctx \<noteq> None"

definition JAEGERTRACINGC_SPAN_CONTEXT_MAX_STR_LEN :: nat where
  "JAEGERTRACINGC_SPAN_CONTEXT_MAX_STR_LEN = JAEGERTRACINGC_TRACE_ID_MAX_STR_LEN + 21"

text \<open>
  \<open>jaeger_span_context_format\<close>: the returned number and the buffer's string.  The second \<open>snprintf\<close>
  writes behind the trace ID.
\<close>

definition jaeger_span_context_format :: "jaeger_span_context \<Rightarrow> nat \<Rightarrow> (nat \<times> string option) option" where
  "jaeger_span_context_format ctx buffer_len = do {
     let (trace_id_len, buffer) = jaeger_trace_id_format (ctx_trace_id ctx) buffer_len;
     ctx \<leftarrow> ctx_lock ctx;
     let flags = ctx_flags ctx;
     ctx \<leftarrow> ctx_unlock ctx;
     let rest = '':'' @ fmt_x (ctx_span_id ctx) @ '':'' @ hex_of_nat (unat flags);
     if trace_id_len > buffer_len then Some (trace_id_len + fst (snprintf 0 rest), buffer)
     else (let (n, tail) = snprintf (buffer_len - trace_id_len) rest
           in Some (n, case (buffer, tail) of
                         (Some b, Some t) \<Rightarrow> Some (take trace_id_len b @ t)
                       | _ \<Rightarrow> buffer))
   }"

text \<open>
  \<open>jaeger_span_context_scan\<close>: the four rounds of the loop; the parts read so far are threaded.  The
  fourth round only asks for another token.
\<close>

definition context_scan_tokens :: "string \<Rightarrow> (jaeger_trace_id \<times> u64 \<times> u8) option" where
  "context_scan_tokens buffer =
     (case strtok CHR '':'' buffer of
        (None, _) \<Rightarrow> None
      | (Some token0, context) \<Rightarrow> do {
          trace_id \<leftarrow> jaeger_trace_id_scan token0;
          (case strtok CHR '':'' context of
             (None, _) \<Rightarrow> None
           | (Some token1, context) \<Rightarrow>
               (let (span_id, token_end) = strtoull_hex token1
                in if token_end \<noteq> [] then None
                   else (case strtok CHR '':'' context of
                           (None, _) \<Rightarrow> None
                         | (Some token2, context) \<Rightarrow>
                             (let (flags, token_end) = strtoull_hex token2
                              in if token_end \<noteq> [] then None
                                 else Some (trace_id, span_id, ucast flags)))))
        })"

definition jaeger_span_context_scan ::
  "jaeger_span_context \<Rightarrow> string \<Rightarrow> mem \<Rightarrow> (bool \<times> jaeger_span_context \<times> mem) option" where
  "jaeger_span_context_scan ctx str m = do {
     (buffer, m) \<leftarrow> jaeger_strdup (Some str) m;
     case buffer of
       None \<Rightarrow> Some (False, ctx, m)
     | Some b \<Rightarrow> do {
         (result, ctx) \<leftarrow>
           (case context_scan_tokens (snd b) of
              None \<Rightarrow> Some (False, ctx)
            | Some (trace_id, span_id, flags) \<Rightarrow> do {
                ctx \<leftarrow> ctx_lock ctx;
                let ctx = ctx\<lparr>ctx_trace_id := trace_id, ctx_span_id := span_id, ctx_flags := flags\<rparr>;
                ctx \<leftarrow> ctx_unlock ctx;
                Some (True, ctx)
              });
         m \<leftarrow> jaeger_free (Some (fst b)) m;
         Some (result, ctx, m)
       }
   }"

section \<open>Span references\<close>

datatype jaeger_span_ref_type = Ref_invalid | Child_of | Follows_from

record jaeger_span_ref =
  ref_context :: jaeger_span_context
  ref_type :: jaeger_span_ref_type

definition jaeger_span_ref_init :: "mem \<Rightarrow> (bool \<times> jaeger_span_ref \<times> mem) option" where
  "jaeger_span_ref_init m = do {
     (ok, ctx, m) \<leftarrow> jaeger_span_context_init m;
     Some (ok, \<lparr>ref_context = ctx, ref_type = Ref_invalid\<rparr>, m)
   }"

definition jaeger_span_ref_destroy :: "jaeger_span_ref \<Rightarrow> mem \<Rightarrow> (jaeger_span_ref \<times> mem) option" where
  "jaeger_span_ref_destroy span_ref m = do {
     (ctx, m) \<leftarrow> jaeger_span_context_destroy (ref_context span_ref) m;
     Some (span_ref\<lparr>ref_context := ctx\<rparr>, m)
   }"

definition jaeger_span_ref_copy ::
  "env \<Rightarrow> jaeger_span_ref \<Rightarrow> jaeger_span_ref \<Rightarrow> mem \<Rightarrow> (bool \<times> jaeger_span_ref \<times> mem) option" where
  "jaeger_span_ref_copy env dst src m = do {
     (ok, ctx, m) \<leftarrow> jaeger_span_context_copy env (ref_context src) m;
     if \<not> ok then Some (False, dst\<lparr>ref_context := ctx\<rparr>, m)
     else Some (True, dst\<lparr>ref_context := ctx, ref_type := ref_type src\<rparr>, m)
   }"

text \<open>The generated message \<open>SpanRef\<close>.\<close>

record pb_span_ref =
  psr_trace_id :: "(ptr \<times> u8 list) option"
  psr_span_id :: "(ptr \<times> u8 list) option"
  psr_type :: jaeger_span_ref_type

definition PB_SPAN_REF_INIT :: pb_span_ref where
  "PB_SPAN_REF_INIT = \<lparr>psr_trace_id = None, psr_span_id = None, psr_type = Child_of\<rparr>"

definition SIZEOF_PB_SPAN_REF :: nat where
  "SIZEOF_PB_SPAN_REF = 64"

definition jaeger_span_ref_protobuf_destroy :: "pb_span_ref \<Rightarrow> mem \<Rightarrow> (pb_span_ref \<times> mem) option" where
  "jaeger_span_ref_protobuf_destroy span_ref m = do {
     m \<leftarrow> jaeger_free (map_option fst (psr_trace_id span_ref)) m;
     m \<leftarrow> jaeger_free (map_option fst (psr_span_id span_ref)) m;
     Some (span_ref\<lparr>psr_trace_id := None, psr_span_id := None\<rparr>, m)
   }"

definition jaeger_span_ref_to_protobuf :: "jaeger_span_ref \<Rightarrow> mem \<Rightarrow> (bool \<times> pb_span_ref \<times> mem) option" where
  "jaeger_span_ref_to_protobuf src m =
     (case jaeger_malloc 16 m of
        (None, m) \<Rightarrow> Some (False, PB_SPAN_REF_INIT, m)
      | (Some p, m) \<Rightarrow>
          (case jaeger_malloc 8 m of
             (None, m) \<Rightarrow> do {
               m \<leftarrow> jaeger_free (Some p) m;
               Some (False, PB_SPAN_REF_INIT, m)
             }
           | (Some q, m) \<Rightarrow> do {
               ctx \<leftarrow> ctx_lock (ref_context src);
               tid \<leftarrow> jaeger_trace_id_to_protobuf 16 (ctx_trace_id ctx);
               let sid = le_bytes (ctx_span_id ctx);
               ctx \<leftarrow> ctx_unlock ctx;
               Some (True, \<lparr>psr_trace_id = Some (p, tid), psr_span_id = Some (q, sid), psr_type = ref_type src\<rparr>, m)
             }))"

section \<open>Invariant and ownership\<close>

definition ctx_ptrs :: "jaeger_span_context \<Rightarrow> ptr list" where
  "ctx_ptrs ctx = ht_ptrs (ctx_baggage ctx) @ cs_ptrs (ctx_debug_id ctx)"

definition ctx_ok :: "env \<Rightarrow> jaeger_span_context \<Rightarrow> bool" where
  "ctx_ok env ctx \<longleftrightarrow> ht_ok (env_seed env) (ctx_baggage ctx) \<and> \<not> ctx_locked ctx"

text \<open>A context that can be copied: the count of its baggage is exact (no item was ever removed).\<close>

definition ctx_src_ok :: "env \<Rightarrow> jaeger_span_context \<Rightarrow> bool" where
  "ctx_src_ok env ctx \<longleftrightarrow> ctx_ok env ctx \<and> ht_sized (ctx_baggage ctx) \<and> ht_size (ctx_baggage ctx) < 2 ^ 29"

definition ctx_same :: "jaeger_span_context \<Rightarrow> jaeger_span_context \<Rightarrow> bool" where
  "ctx_same src dst \<longleftrightarrow> ctx_trace_id dst = ctx_trace_id src \<and> ctx_span_id dst = ctx_span_id src \<and>
     ctx_flags dst = ctx_flags src \<and> ht_map (ctx_baggage dst) = ht_map (ctx_baggage src)"

lemma ctx_lock_free [simp]: "\<not> ctx_locked ctx \<Longrightarrow> ctx_lock ctx = Some (ctx\<lparr>ctx_locked := True\<rparr>)"
  by (simp add: ctx_lock_def)

lemma ctx_unlock_held [simp]: "ctx_locked ctx \<Longrightarrow> ctx_unlock ctx = Some (ctx\<lparr>ctx_locked := False\<rparr>)"
  by (simp add: ctx_unlock_def)

lemma ctx_relock [simp]: "ctx_locked ctx \<Longrightarrow> ctx_lock ctx = None" "\<not> ctx_locked ctx \<Longrightarrow> ctx_unlock ctx = None"
  by (simp_all add: ctx_lock_def ctx_unlock_def)

lemma ctx_locked_update [simp]: "\<not> ctx_locked ctx \<Longrightarrow> ctx\<lparr>ctx_locked := False\<rparr> = ctx"
  by simp

lemma context_destroy_spec:
  assumes c: "ctx_ok env ctx" and m: "mem_ok m" and o: "owns m (ctx_ptrs ctx)"
  shows "\<exists>ctx' m'. jaeger_span_context_destroy ctx m = Some (ctx', m') \<and> mem_trans (set (ctx_ptrs ctx)) {} m m'"
proof -
  have h: "ht_ok (env_seed env) (ctx_baggage ctx)" "\<not> ctx_locked ctx" using c by (auto simp: ctx_ok_def)
  have ow: "owns m (ht_ptrs (ctx_baggage ctx))" "owns m (ht_ptrs (ctx_baggage ctx) @ cs_ptrs (ctx_debug_id ctx))"
    using o by (simp_all add: ctx_ptrs_def owns_append)
  from destroy_spec [OF h(1) m ow(1)] obtain d m1 where
    d: "jaeger_hashtable_destroy (ctx_baggage ctx) m = Some (d, m1)" "mem_trans (set (ht_ptrs (ctx_baggage ctx))) {} m m1" .
  from free_owned [OF release_rest(2,1) [OF d(2) ow(2)]] obtain m2 where
    f: "jaeger_free (map_option fst (ctx_debug_id ctx)) m1 = Some m2" "mem_trans (set (cs_ptrs (ctx_debug_id ctx))) {} m1 m2" .
  from release_append [OF d(2) f(2) ow(2) m] d(1) f(1) h(2) show ?thesis
    by (simp add: jaeger_span_context_destroy_def ctx_ptrs_def)
qed

text \<open>
  \<open>jaeger_span_context_copy\<close> never reports failure: its cleanup destroys baggage that
  \<open>jaeger_hashtable_copy\<close> has destroyed already.
\<close>

lemma context_copy_spec:
  assumes s: "ctx_src_ok env src" and m: "mem_ok m"
  shows "(jaeger_span_context_copy env src m = None \<and> \<not> mem_plenty m) \<or>
    (\<exists>dst m'. jaeger_span_context_copy env src m = Some (True, dst, m') \<and> ctx_src_ok env dst \<and> ctx_same src dst \<and>
      ctx_debug_id dst = None \<and> distinct (ctx_ptrs dst) \<and> mem_trans {} (set (ctx_ptrs dst)) m m')"
proof (cases "mem_oracle m (mem_next m)")
  case False
  with m show ?thesis using copy_unallocated [OF m False]
    by (auto simp: jaeger_span_context_copy_def mem_plenty_def Let_def Option.bind_eq_None_conv)
next
  case True
  have h: "ht_ok (env_seed env) (ctx_baggage src)" "ht_sized (ctx_baggage src)" "ht_size (ctx_baggage src) < 2 ^ 29"
    "\<not> ctx_locked src" using s by (auto simp: ctx_src_ok_def ctx_ok_def)
  let ?I = JAEGERTRACINGC_SPAN_CONTEXT_INIT
  from copy_spec [OF h(1-3) m True, of "env_have_builtin env"] obtain ok b m' where
    c: "jaeger_hashtable_copy (env_have_builtin env) (env_seed env) (ctx_baggage src) m = Some (ok, b, m')"
    "ok \<longrightarrow> ht_ok (env_seed env) b \<and> ht_sized b \<and> ht_map b = ht_map (ctx_baggage src) \<and> distinct (ht_ptrs b) \<and>
      ht_size b = ht_size (ctx_baggage src) \<and> mem_trans {} (set (ht_ptrs b)) m m'"
    "\<not> ok \<longrightarrow> ht_buckets b = None \<and> \<not> mem_plenty m" by blast
  have i: "\<not> ctx_locked ?I" "ctx_debug_id ?I = None" by (simp_all add: JAEGERTRACINGC_SPAN_CONTEXT_INIT_def)
  show ?thesis
  proof (cases ok)
    case True
    let ?d = "?I\<lparr>ctx_locked := False, ctx_baggage := b, ctx_trace_id := ctx_trace_id src, ctx_span_id := ctx_span_id src, ctx_flags := ctx_flags src\<rparr>"
    have "jaeger_span_context_copy env src m = Some (True, ?d, m')"
      using c(1) True h(4) i by (simp add: jaeger_span_context_copy_def Let_def)
    then show ?thesis
      by (intro disjI2 exI [of _ ?d] exI [of _ m'])
        (use True c(2) h(3) i in \<open>simp add: ctx_src_ok_def ctx_ok_def ctx_same_def ctx_ptrs_def\<close>)
  next
    case False
    then have "jaeger_hashtable_destroy b m' = None" using c(3) destroy_unallocated by blast
    with False c h(4) i show ?thesis
      by (simp add: jaeger_span_context_copy_def jaeger_span_context_destroy_def Let_def)
  qed
qed

section \<open>References\<close>

definition ref_src_ok :: "env \<Rightarrow> jaeger_span_ref \<Rightarrow> bool" where
  "ref_src_ok env r \<longleftrightarrow> ctx_src_ok env (ref_context r)"

definition ref_ptrs :: "jaeger_span_ref \<Rightarrow> ptr list" where
  "ref_ptrs r = ctx_ptrs (ref_context r)"

definition ref_same :: "jaeger_span_ref \<Rightarrow> jaeger_span_ref \<Rightarrow> bool" where
  "ref_same s r \<longleftrightarrow> ctx_same (ref_context s) (ref_context r) \<and> ref_type r = ref_type s"

definition mem_good :: "mem \<Rightarrow> bool" where
  "mem_good m \<longleftrightarrow> mem_ok m \<and> mem_plenty m"

lemma mem_good_trans: "mem_good m \<Longrightarrow> mem_trans A B m m' \<Longrightarrow> mem_good m'"
  by (simp add: mem_good_def mem_plenty_trans mem_trans_ok)

lemma ref_copy_spec:
  assumes "ref_src_ok env s" and "mem_good m"
  shows "\<exists>r m'. jaeger_span_ref_copy env old s m = Some (True, r, m') \<and> ref_same s r \<and> ref_src_ok env r \<and>
    distinct (ref_ptrs r) \<and> mem_trans {} (set (ref_ptrs r)) m m'"
proof -
  from context_copy_spec [of env "ref_context s" m] assms obtain c m' where
    c: "jaeger_span_context_copy env (ref_context s) m = Some (True, c, m')" "ctx_src_ok env c"
    "ctx_same (ref_context s) c" "distinct (ctx_ptrs c)" "mem_trans {} (set (ctx_ptrs c)) m m'"
    by (auto simp: ref_src_ok_def mem_good_def)
  then show ?thesis
    by (intro exI [of _ "old\<lparr>ref_context := c, ref_type := ref_type s\<rparr>"] exI [of _ m'])
      (simp add: jaeger_span_ref_copy_def ref_same_def ref_src_ok_def ref_ptrs_def)
qed

interpretation refs: element_copy mem_good "jaeger_span_ref_copy env" jaeger_span_ref_destroy ref_ptrs
  "ref_src_ok env" "ref_src_ok env" "\<lambda>_. True" ref_same for env
proof
  fix m m' :: mem and s r old :: jaeger_span_ref and A B :: "ptr set"
  show "mem_good m \<Longrightarrow> mem_ok m" by (simp add: mem_good_def)
  show "mem_good m \<Longrightarrow> mem_trans A B m m' \<Longrightarrow> mem_good m'" by (rule mem_good_trans)
  show "\<exists>ok x m'. jaeger_span_ref_copy env old s m = Some (ok, x, m')" if "mem_good m" "ref_src_ok env s"
    using ref_copy_spec [OF that(2,1)] by blast
  show "ref_same s r \<and> ref_src_ok env r \<and> distinct (ref_ptrs r) \<and> mem_trans {} (set (ref_ptrs r)) m m'"
    if "jaeger_span_ref_copy env old s m = Some (True, r, m')" "mem_good m" "ref_src_ok env s"
    using ref_copy_spec [OF that(3,2), of old] that(1) by auto
  show "mem_trans {} {} m m' \<and> \<not> mem_plenty m"
    if "jaeger_span_ref_copy env old s m = Some (False, r, m')" "mem_good m" "ref_src_ok env s"
    using ref_copy_spec [OF that(3,2), of old] that(1) by auto
  show "\<exists>x' m'. jaeger_span_ref_destroy r m = Some (x', m') \<and> mem_trans (set (ref_ptrs r)) {} m m'"
    if "mem_ok m" "ref_src_ok env r" "owns m (ref_ptrs r)"
    using context_destroy_spec [of env "ref_context r" m] that
    by (auto simp: ref_src_ok_def ctx_src_ok_def ref_ptrs_def jaeger_span_ref_destroy_def)
qed

text \<open>References as messages.\<close>

definition pb_ref_ptrs :: "pb_span_ref \<Rightarrow> ptr list" where
  "pb_ref_ptrs r = cs_ptrs (psr_trace_id r) @ cs_ptrs (psr_span_id r)"

definition trace_id_bytes :: "jaeger_trace_id \<Rightarrow> u8 list" where
  "trace_id_bytes t = le_bytes (tid_high t) @ le_bytes (tid_low t)"

definition pb_ref_same :: "jaeger_span_ref \<Rightarrow> pb_span_ref \<Rightarrow> bool" where
  "pb_ref_same s r \<longleftrightarrow> map_option snd (psr_trace_id r) = Some (trace_id_bytes (ctx_trace_id (ref_context s))) \<and>
     map_option snd (psr_span_id r) = Some (le_bytes (ctx_span_id (ref_context s))) \<and> psr_type r = ref_type s"

lemma context_init_plenty:
  assumes "mem_ok m" and "mem_plenty m"
  obtains b m' where "jaeger_span_context_init m = Some (True, JAEGERTRACINGC_SPAN_CONTEXT_INIT\<lparr>ctx_baggage := b\<rparr>, m')"
    "ht_ok seed b" "ht_map b = Map.empty" "ht_size b = 0" "fresh_list (ht_ptrs b) m m'" "ht_sized b"
  using init_spec [OF assms(1), of seed] assms(2) that
  by (auto simp: mem_plenty_def jaeger_span_context_init_def fresh_list_def)

lemma ref_to_protobuf_spec:
  assumes "\<not> ctx_locked (ref_context s)" and m: "mem_ok m"
  shows "\<exists>ok r m'. jaeger_span_ref_to_protobuf s m = Some (ok, r, m') \<and>
    (ok \<longrightarrow> pb_ref_same s r \<and> distinct (pb_ref_ptrs r) \<and> mem_trans {} (set (pb_ref_ptrs r)) m m') \<and>
    (\<not> ok \<longrightarrow> r = PB_SPAN_REF_INIT \<and> mem_trans {} {} m m' \<and> \<not> mem_plenty m)"
proof (rule malloc_cases [OF m, of 16])
  fix m1 assume "jaeger_malloc 16 m = (None, m1)" "mem_trans {} {} m m1" "\<not> mem_plenty m"
  then show ?thesis
    by (intro exI [of _ False] exI [of _ PB_SPAN_REF_INIT] exI [of _ m1]) (simp add: jaeger_span_ref_to_protobuf_def)
next
  fix p m1 assume p: "jaeger_malloc 16 m = (Some p, m1)" "mem_trans {} {p} m m1"
  show ?thesis
  proof (rule malloc_cases [OF mem_trans_ok [OF p(2)], of 8])
    fix m2 assume q: "jaeger_malloc 8 m1 = (None, m2)" "mem_trans {} {} m1 m2" "\<not> mem_plenty m1"
    have mt: "mem_trans {} {p} m m2" using mem_trans_alloc2(1) [OF p(2) q(2) m] by simp
    then have "p \<in> dom (mem_blocks m2)" using mem_trans_dom by blast
    from jaeger_free_live [OF mem_trans_ok [OF mt] this] obtain m3 where
      f: "jaeger_free (Some p) m2 = Some m3" "mem_trans {p} {} m2 m3" .
    from mem_trans_trans [OF mt f(2) m] p q f(1) mem_plenty_trans [OF p(2)] show ?thesis
      by (intro exI [of _ False] exI [of _ PB_SPAN_REF_INIT] exI [of _ m3]) (simp add: jaeger_span_ref_to_protobuf_def)
  next
    fix q m2 assume q: "jaeger_malloc 8 m1 = (Some q, m2)" "mem_trans {} {q} m1 m2"
    let ?r = "\<lparr>psr_trace_id = Some (p, trace_id_bytes (ctx_trace_id (ref_context s))),
      psr_span_id = Some (q, le_bytes (ctx_span_id (ref_context s))), psr_type = ref_type s\<rparr>"
    have "jaeger_span_ref_to_protobuf s m = Some (True, ?r, m2)"
      using p(1) q(1) assms(1) by (simp add: jaeger_span_ref_to_protobuf_def jaeger_trace_id_to_protobuf_def trace_id_bytes_def)
    with mem_trans_alloc2 [OF p(2) q(2) m] show ?thesis
      by (intro exI [of _ True] exI [of _ ?r] exI [of _ m2]) (simp add: pb_ref_same_def pb_ref_ptrs_def insert_commute)
  qed
qed

lemma pb_ref_destroy_spec:
  assumes m: "mem_ok m" and o: "owns m (pb_ref_ptrs r)"
  shows "\<exists>r' m'. jaeger_span_ref_protobuf_destroy r m = Some (r', m') \<and> mem_trans (set (pb_ref_ptrs r)) {} m m'"
proof -
  have ow: "owns m (cs_ptrs (psr_trace_id r))" "owns m (cs_ptrs (psr_trace_id r) @ cs_ptrs (psr_span_id r))"
    using o by (simp_all add: pb_ref_ptrs_def owns_append)
  from free_owned [OF m ow(1)] obtain m1 where f: "jaeger_free (map_option fst (psr_trace_id r)) m = Some m1"
    "mem_trans (set (cs_ptrs (psr_trace_id r))) {} m m1" .
  from free_owned [OF release_rest(2,1) [OF f(2) ow(2)]] obtain m2 where
    g: "jaeger_free (map_option fst (psr_span_id r)) m1 = Some m2" "mem_trans (set (cs_ptrs (psr_span_id r))) {} m1 m2" .
  from release_append [OF f(2) g(2) ow(2) m] f(1) g(1) show ?thesis
    by (simp add: jaeger_span_ref_protobuf_destroy_def pb_ref_ptrs_def)
qed

interpretation pbrefs: element_ptr_copy mem_ok "\<lambda>old. jaeger_span_ref_to_protobuf" jaeger_span_ref_protobuf_destroy
  pb_ref_ptrs "\<lambda>_. True" "\<lambda>s. \<not> ctx_locked (ref_context s)" "\<lambda>_. True" pb_ref_same SIZEOF_PB_SPAN_REF PB_SPAN_REF_INIT
proof
  fix m m' :: mem and s :: jaeger_span_ref and r :: pb_span_ref and A B :: "ptr set"
  show "mem_trans A B m m' \<Longrightarrow> mem_ok m'" by (rule mem_trans_ok)
  assume m: "mem_ok m"
  show "mem_ok m" by (rule m)
  show "\<exists>r' m'. jaeger_span_ref_protobuf_destroy r m = Some (r', m') \<and> mem_trans (set (pb_ref_ptrs r)) {} m m'"
    if "owns m (pb_ref_ptrs r)" by (rule pb_ref_destroy_spec [OF m that])
  assume s: "\<not> ctx_locked (ref_context s)"
  note spec = ref_to_protobuf_spec [OF s m]
  show "\<exists>ok x m'. jaeger_span_ref_to_protobuf s m = Some (ok, x, m')" using spec by blast
  show "pb_ref_same s r \<and> True \<and> distinct (pb_ref_ptrs r) \<and> mem_trans {} (set (pb_ref_ptrs r)) m m'"
    if "jaeger_span_ref_to_protobuf s m = Some (True, r, m')" using spec that by auto
  show "mem_trans {} {} m m' \<and> \<not> mem_plenty m" if "jaeger_span_ref_to_protobuf s m = Some (False, r, m')"
    using spec that by auto
qed simp

section \<open>Iteration over the baggage\<close>

definition ht_items :: "jaeger_hashtable \<Rightarrow> (string \<times> string) list" where
  "ht_items ht = map (\<lambda>n. (node_key n, node_value n)) (ht_nodes ht)"

lemma ht_items_map: "map_of (ht_items ht) = ht_map ht"
  by (simp add: ht_items_def ht_map_def nodes_map_def)

lemma ht_items_distinct: "ht_ok seed ht \<Longrightarrow> distinct (map fst (ht_items ht))"
  by (auto elim!: ht_okE dest!: buckets_okD(3) simp: ht_items_def comp_def)

lemma foreach_bucket_fold:
  assumes "\<And>a k v. fst (f a k v)" and "\<forall>n\<in>set ns. node_ok n"
  shows "foreach_bucket f ns arg = Some (foldl (\<lambda>a n. snd (f a (node_key n) (node_value n))) arg ns)"
  using assms(2)
proof (induction ns arbitrary: arg)
  case (Cons n ns)
  then obtain k v where "kv_key (snd n) = Some k" "kv_value (snd n) = Some v" by (auto simp: node_ok_def)
  moreover obtain b where "f arg (snd k) (snd v) = (True, b)" using assms(1) [of arg "snd k" "snd v"] by (metis prod.collapse)
  ultimately show ?case using Cons by (simp add: node_key_def node_value_def)
qed simp

lemma foreach_buckets_fold:
  assumes "\<And>a k v. fst (f a k v)" and "\<forall>n\<in>set (concat bs). node_ok n"
  shows "foreach_buckets f bs arg = Some (foldl (\<lambda>a n. snd (f a (node_key n) (node_value n))) arg (concat bs))"
  using assms(2) by (induction bs arbitrary: arg) (simp_all add: foreach_bucket_fold [OF assms(1)])

lemma foreach_baggage_spec:
  assumes "ctx_ok env ctx" and "\<And>a k v. fst (f a k v)"
  shows "jaeger_span_context_foreach_baggage_item ctx f arg =
    Some (ctx, foldl (\<lambda>a (k, v). snd (f a k v)) arg (ht_items (ctx_baggage ctx)))"
proof -
  have h: "ht_ok (env_seed env) (ctx_baggage ctx)" "\<not> ctx_locked ctx" using assms(1) by (auto simp: ctx_ok_def)
  from h(1) obtain p bs where b: "ht_buckets (ctx_baggage ctx) = Some (p, bs)"
    "buckets_ok (env_seed env) (ht_order (ctx_baggage ctx)) bs" "ht_nodes (ctx_baggage ctx) = concat bs" by (rule ht_okE)
  note bd = buckets_okD(1,2) [OF b(2)]
  have fo: "foreach_buckets f bs arg = Some (foldl (\<lambda>a n. snd (f a (node_key n) (node_value n))) arg (concat bs))"
    using foreach_buckets_fold [of f bs arg] assms(2) ht_nodes_ok [OF h(1)] b(3) by simp
  have it: "foldl (\<lambda>a (k, v). snd (f a k v)) arg (ht_items (ctx_baggage ctx)) =
      foldl (\<lambda>a n. snd (f a (node_key n) (node_value n))) arg (concat bs)"
    by (simp add: ht_items_def b(3) foldl_map)
  show ?thesis
    unfolding it using h(2) b(1) bd fo
    by (simp add: jaeger_span_context_foreach_baggage_item_def bucket_count_def)
qed

section \<open>Text form\<close>

definition context_string :: "jaeger_span_context \<Rightarrow> string" where
  "context_string ctx = trace_id_string (ctx_trace_id ctx) @
     '':'' @ fmt_x (ctx_span_id ctx) @ '':'' @ hex_of_nat (unat (ctx_flags ctx))"

lemma length_context_string: "length (context_string ctx) \<le> 52"
proof -
  have "unat (ctx_flags ctx) < 16 ^ 2" using unsigned_less [of "ctx_flags ctx", where ?'a = nat] by simp
  from length_hex_of_nat [OF this] show ?thesis
    using length_trace_id_string [of "ctx_trace_id ctx"] length_fmt_x [of "ctx_span_id ctx"]
    by (simp add: context_string_def)
qed

lemma context_format_spec:
  assumes "length (context_string ctx) < n" and "\<not> ctx_locked ctx"
  shows "jaeger_span_context_format ctx n =
    Some (length (context_string ctx) - length (trace_id_string (ctx_trace_id ctx)), Some (context_string ctx))"
  using assms
  by (auto simp: jaeger_span_context_format_def trace_id_format snprintf_def context_string_def Let_def)

lemma colon_not_hex: "CHR '':'' \<notin> set (trace_id_string t)" "CHR '':'' \<notin> set (fmt_x w)" "CHR '':'' \<notin> set (hex_of_nat n)"
proof -
  have "hexval CHR '':'' = None" by (simp add: hexval_def isdigit_def code_def)
  then show "CHR '':'' \<notin> set (trace_id_string t)" "CHR '':'' \<notin> set (fmt_x w)" "CHR '':'' \<notin> set (hex_of_nat n)"
    using trace_id_string_chars [of "CHR '':''"] hex_of_nat_hexval [of "CHR '':''"] by (auto simp: fmt_x_def)
qed

lemma strtoull_flags: "strtoull_hex (hex_of_nat (unat (b :: u8))) = (ucast b, [])"
proof -
  have "unat b < 256" using unsigned_less [of b, where ?'a = nat] by simp
  then have "strtoull_hex (hex_of_nat (unat b)) = (of_nat (unat b), [])"
    using strtoull_hex_digits [of "hex_of_nat (unat b)"] hex_of_nat_hexval by (auto simp: ULLONG_MAX_def)
  then show ?thesis by (simp add: unsigned_of_nat word_unat_eq_iff)
qed

lemma scan_context_string:
  "context_scan_tokens (context_string ctx) = Some (ctx_trace_id ctx, ctx_span_id ctx, ctx_flags ctx)"
proof -
  have ne: "trace_id_string (ctx_trace_id ctx) \<noteq> []" using length_trace_id_string(1) [of "ctx_trace_id ctx"] by auto
  note tok = strtok_token [OF ne colon_not_hex(1)] strtok_token [OF fmt_x_ne colon_not_hex(2)]
    strtok_token [OF hex_of_nat_ne colon_not_hex(3)]
  have "(ucast (ucast (ctx_flags ctx) :: u64) :: u8) = ctx_flags ctx"
    by (rule bit_word_eqI) (simp add: bit_ucast_iff)
  then show ?thesis
    by (simp add: context_scan_tokens_def context_string_def tok trace_id_scan_string strtoull_flags)
qed

text \<open>Scanning the text of a context into another one.\<close>

lemma scan_spec:
  assumes "\<not> ctx_locked dst" and "mem_ok m"
  shows "\<exists>ok m'. jaeger_span_context_scan dst (context_string ctx) m = Some (ok, if ok then dst\<lparr>ctx_trace_id := ctx_trace_id ctx,
      ctx_span_id := ctx_span_id ctx, ctx_flags := ctx_flags ctx\<rparr> else dst, m') \<and>
    (mem_plenty m \<longrightarrow> ok) \<and> mem_trans {} {} m m'"
proof -
  let ?d = "dst\<lparr>ctx_trace_id := ctx_trace_id ctx, ctx_span_id := ctx_span_id ctx, ctx_flags := ctx_flags ctx\<rparr>"
  from jaeger_strdup_total obtain r m1 where r: "jaeger_strdup (Some (context_string ctx)) m = Some (r, m1)" by blast
  show ?thesis
  proof (cases r)
    case None
    with r jaeger_strdup_plenty [OF assms(2)] jaeger_strdup_NoneD [of "context_string ctx" m m1] assms(2)
    have "jaeger_span_context_scan dst (context_string ctx) m = Some (False, dst, m1)" "mem_trans {} {} m m1" "\<not> mem_plenty m"
      by (auto simp: jaeger_span_context_scan_def)
    then show ?thesis by (intro exI [of _ False] exI [of _ m1]) simp
  next
    case (Some q)
    with r assms(2) have q: "snd q = context_string ctx" "mem_trans {} {fst q} m m1"
      using jaeger_strdup_SomeD [of "context_string ctx" m q m1] by auto
    then have "fst q \<in> dom (mem_blocks m1)" using mem_trans_dom by blast
    from jaeger_free_live [OF mem_trans_ok [OF q(2)] this] obtain m2 where
      g: "jaeger_free (Some (fst q)) m1 = Some m2" "mem_trans {fst q} {} m1 m2" .
    have "jaeger_span_context_scan dst (context_string ctx) m = Some (True, ?d, m2)"
      using r Some q(1) g(1) assms(1) by (simp add: jaeger_span_context_scan_def scan_context_string Let_def)
    with mem_trans_trans [OF q(2) g(2) assms(2)] show ?thesis by (intro exI [of _ True] exI [of _ m2]) simp
  qed
qed

section \<open>Properties\<close>

text \<open>
  A span context survives the text carrier.  In any buffer of more than
  \<open>JAEGERTRACINGC_SPAN_CONTEXT_MAX_STR_LEN\<close> bytes \<open>jaeger_span_context_format\<close> writes the whole text, and
  \<open>jaeger_span_context_scan\<close> of it into any context gives the trace ID, span ID and flags back without a
  leak, unless its one allocation fails, which it reports and which changes nothing.  The returned
  count is less than the length of the text: it lacks the trace ID.
\<close>

theorem context_text_roundtrip:
  assumes "JAEGERTRACINGC_SPAN_CONTEXT_MAX_STR_LEN < buffer_len" and "\<not> ctx_locked ctx" and "\<not> ctx_locked dst" and "mem_ok m"
  shows "\<exists>n s ok m'. jaeger_span_context_format ctx buffer_len = Some (n, Some s) \<and> n < length s \<and>
    jaeger_span_context_scan dst s m = Some (ok, if ok then dst\<lparr>ctx_trace_id := ctx_trace_id ctx,
      ctx_span_id := ctx_span_id ctx, ctx_flags := ctx_flags ctx\<rparr> else dst, m') \<and>
    (mem_plenty m \<longrightarrow> ok) \<and> mem_trans {} {} m m'"
proof -
  have "length (context_string ctx) < buffer_len" using assms(1) length_context_string [of ctx]
    by (simp add: JAEGERTRACINGC_SPAN_CONTEXT_MAX_STR_LEN_def JAEGERTRACINGC_TRACE_ID_MAX_STR_LEN_def
        JAEGERTRACINGC_UINT64_MAX_STR_LEN_def)
  note f = context_format_spec [OF this assms(2)]
  have "length (context_string ctx) - length (trace_id_string (ctx_trace_id ctx)) < length (context_string ctx)"
    using length_trace_id_string(1) [of "ctx_trace_id ctx"] by (simp add: context_string_def)
  with f scan_spec [OF assms(3,4), of ctx] show ?thesis by blast
qed

theorem context_text_roundtrip_witness:
  "\<exists>n s ok m'. jaeger_span_context_format (JAEGERTRACINGC_SPAN_CONTEXT_INIT\<lparr>ctx_span_id := 7\<rparr>) 60 = Some (n, Some s) \<and> n < length s \<and>
    jaeger_span_context_scan JAEGERTRACINGC_SPAN_CONTEXT_INIT s mem_one = Some (ok, JAEGERTRACINGC_SPAN_CONTEXT_INIT\<lparr>ctx_span_id := 7\<rparr>, m')"
proof -
  let ?I = JAEGERTRACINGC_SPAN_CONTEXT_INIT
  have e: "?I\<lparr>ctx_trace_id := ctx_trace_id (?I\<lparr>ctx_span_id := 7\<rparr>), ctx_span_id := ctx_span_id (?I\<lparr>ctx_span_id := 7\<rparr>),
      ctx_flags := ctx_flags (?I\<lparr>ctx_span_id := 7\<rparr>)\<rparr> = ?I\<lparr>ctx_span_id := 7\<rparr>" by simp
  have l: "JAEGERTRACINGC_SPAN_CONTEXT_MAX_STR_LEN < 60" "\<not> ctx_locked (?I\<lparr>ctx_span_id := 7\<rparr>)" "\<not> ctx_locked ?I"
    by (simp_all add: JAEGERTRACINGC_SPAN_CONTEXT_MAX_STR_LEN_def JAEGERTRACINGC_TRACE_ID_MAX_STR_LEN_def
        JAEGERTRACINGC_UINT64_MAX_STR_LEN_def JAEGERTRACINGC_SPAN_CONTEXT_INIT_def)
  from context_text_roundtrip [OF l mem_one_simps(1)] show ?thesis unfolding e by (auto simp: mem_plenty_def split: if_splits)
qed


definition env_one :: env where
  "env_one = \<lparr>env_seed = replicate 16 0, env_have_builtin = True, env_tag_init = TAG_ZERO\<rparr>"

definition ctx_one :: jaeger_span_context where
  "ctx_one = JAEGERTRACINGC_SPAN_CONTEXT_INIT\<lparr>ctx_span_id := 7, ctx_flags := 1, ctx_baggage := table_one\<rparr>"

lemma ctx_one_simps [simp]: "ctx_ok env_one ctx_one" "ctx_src_ok env_one ctx_one" "ctx_ptrs ctx_one = [0]"
  "ctx_baggage ctx_one = table_one" "ctx_span_id ctx_one = 7" "ctx_flags ctx_one = 1"
  "\<not> ctx_locked ctx_one" "env_tag_init env_one = TAG_ZERO"
  by (simp_all add: ctx_ok_def ctx_src_ok_def ctx_ptrs_def ctx_one_def env_one_def JAEGERTRACINGC_SPAN_CONTEXT_INIT_def)


text \<open>
  \<open>jaeger_span_context_foreach_baggage_item\<close> with a callback that never stops visits every baggage
  item exactly once and leaves the context as it was, unlocked.
\<close>

theorem foreach_visits_every_item:
  assumes "ctx_ok env ctx" and "\<And>a k v. fst (f a k v)"
  shows "\<exists>items. distinct (map fst items) \<and> map_of items = ht_map (ctx_baggage ctx) \<and>
    jaeger_span_context_foreach_baggage_item ctx f arg = Some (ctx, foldl (\<lambda>a (k, v). snd (f a k v)) arg items)"
proof (intro exI conjI)
  show "distinct (map fst (ht_items (ctx_baggage ctx)))" using assms(1) ht_items_distinct by (auto simp: ctx_ok_def)
  show "map_of (ht_items (ctx_baggage ctx)) = ht_map (ctx_baggage ctx)" by (rule ht_items_map)
  show "jaeger_span_context_foreach_baggage_item ctx f arg =
      Some (ctx, foldl (\<lambda>a (k, v). snd (f a k v)) arg (ht_items (ctx_baggage ctx)))"
    using foreach_baggage_spec [OF assms(1), of f arg] assms(2) by blast
qed

theorem foreach_visits_every_item_witness:
  "\<exists>items. distinct (map fst items) \<and> map_of items = ht_map table_one \<and>
    jaeger_span_context_foreach_baggage_item ctx_one (\<lambda>a k v. (True, (k, v) # a)) [] =
      Some (ctx_one, foldl (\<lambda>a (k, v). snd (True, (k, v) # a)) [] items)"
  using foreach_visits_every_item [of env_one ctx_one "\<lambda>a k v. (True, (k, v) # a)" "[]"] by simp

end
