(* ===== verification/Span.thy ===== *)
theory Span
  imports Span_Context Clock
begin

text \<open>
  Spans: \<open>src/jaegertracingc/span.c\<close>, \<open>span.h\<close>.

  The record has the fields of the C struct less its method table; \<open>sp_tracer\<close> is the tracer's
  address.  \<open>jaeger_lock\<close> on two free mutexes takes both (see \<open>Threading\<close>).  The tracer's
  \<open>jaeger_tracer_report_span\<close> is an argument of \<open>jaeger_span_finish_with_options\<close>, with the rest of the
  program's state as \<open>'w\<close>.
\<close>

record jaeger_span =
  sp_tracer :: "ptr option"
  sp_context :: jaeger_span_context
  sp_operation_name :: "cstring option"
  sp_start_time_system :: opentracing_time_value
  sp_start_time_steady :: opentracing_time_value
  sp_duration :: opentracing_time_value
  sp_tags :: "jaeger_tag jaeger_vector"
  sp_logs :: "jaeger_log_record jaeger_vector"
  sp_refs :: "jaeger_span_ref jaeger_vector"
  sp_locked :: bool

definition TIME_ZERO :: opentracing_time_value where
  "TIME_ZERO = \<lparr>tv_sec = 0, tv_nsec = 0\<rparr>"

definition JAEGERTRACINGC_SPAN_INIT :: jaeger_span where
  "JAEGERTRACINGC_SPAN_INIT =
     \<lparr>sp_tracer = None, sp_context = JAEGERTRACINGC_SPAN_CONTEXT_INIT, sp_operation_name = None,
      sp_start_time_system = TIME_ZERO, sp_start_time_steady = TIME_ZERO, sp_duration = TIME_ZERO,
      sp_tags = JAEGERTRACINGC_VECTOR_INIT, sp_logs = JAEGERTRACINGC_VECTOR_INIT,
      sp_refs = JAEGERTRACINGC_VECTOR_INIT, sp_locked = False\<rparr>"

text \<open>The bytes of a cleared slot of each vector, and the element sizes on a 64-bit platform.\<close>

definition LOG_ZERO :: jaeger_log_record where
  "LOG_ZERO = \<lparr>log_timestamp = TIME_ZERO, log_fields = JAEGERTRACINGC_VECTOR_INIT\<rparr>"

definition REF_ZERO :: jaeger_span_ref where
  "REF_ZERO = \<lparr>ref_context = JAEGERTRACINGC_SPAN_CONTEXT_INIT, ref_type = Child_of\<rparr>"

definition SIZEOF_LOG_RECORD :: int where
  "SIZEOF_LOG_RECORD = 40"

definition SIZEOF_SPAN_REF :: int where
  "SIZEOF_SPAN_REF = 144"

text \<open>\<open>jaeger_mutex_lock(&span->mutex)\<close>, \<open>jaeger_lock(&span->mutex, &span->context.mutex)\<close> and the unlocks.\<close>

definition span_lock :: "jaeger_span \<Rightarrow> jaeger_span option" where
  "span_lock sp = do { c_assert (\<not> sp_locked sp); Some (sp\<lparr>sp_locked := True\<rparr>) }"

definition span_unlock :: "jaeger_span \<Rightarrow> jaeger_span option" where
  "span_unlock sp = do { c_assert (sp_locked sp); Some (sp\<lparr>sp_locked := False\<rparr>) }"

definition span_lock_both :: "jaeger_span \<Rightarrow> jaeger_span option" where
  "span_lock_both sp = do {
     sp \<leftarrow> span_lock sp;
     ctx \<leftarrow> ctx_lock (sp_context sp);
     Some (sp\<lparr>sp_context := ctx\<rparr>)
   }"

definition span_unlock_both :: "jaeger_span \<Rightarrow> jaeger_span option" where
  "span_unlock_both sp = do {
     sp \<leftarrow> span_unlock sp;
     ctx \<leftarrow> ctx_unlock (sp_context sp);
     Some (sp\<lparr>sp_context := ctx\<rparr>)
   }"

section \<open>Life cycle\<close>

definition jaeger_span_destroy :: "jaeger_span \<Rightarrow> mem \<Rightarrow> (jaeger_span \<times> mem) option" where
  "jaeger_span_destroy sp m = do {
     m \<leftarrow> jaeger_free (map_option fst (sp_operation_name sp)) m;
     m \<leftarrow> vec_for_each_destroy jaeger_tag_destroy (sp_tags sp) m;
     m \<leftarrow> vec_for_each_destroy jaeger_log_record_destroy (sp_logs sp) m;
     m \<leftarrow> vec_for_each_destroy jaeger_span_ref_destroy (sp_refs sp) m;
     (ctx, m) \<leftarrow> jaeger_span_context_destroy (sp_context sp) m;
     (tags, m) \<leftarrow> jaeger_vector_destroy (sp_tags sp) m;
     (logs, m) \<leftarrow> jaeger_vector_destroy (sp_logs sp) m;
     (refs, m) \<leftarrow> jaeger_vector_destroy (sp_refs sp) m;
     c_assert (\<not> sp_locked sp);
     Some (sp\<lparr>sp_tracer := None, sp_operation_name := None, sp_context := ctx, sp_tags := tags,
                sp_logs := logs, sp_refs := refs\<rparr>, m)
   }"

definition jaeger_span_init_vectors :: "jaeger_span \<Rightarrow> mem \<Rightarrow> (bool \<times> jaeger_span \<times> mem) option" where
  "jaeger_span_init_vectors sp m = do {
     (ok, tags, m) \<leftarrow> jaeger_vector_init TAG_ZERO SIZEOF_TAG (sp_tags sp) m;
     let sp = sp\<lparr>sp_tags := tags\<rparr>;
     if \<not> ok then Some (False, sp, m)
     else do {
       (ok, logs, m) \<leftarrow> jaeger_vector_init LOG_ZERO SIZEOF_LOG_RECORD (sp_logs sp) m;
       let sp = sp\<lparr>sp_logs := logs\<rparr>;
       if \<not> ok then Some (False, sp, m)
       else do {
         (ok, refs, m) \<leftarrow> jaeger_vector_init REF_ZERO SIZEOF_SPAN_REF (sp_refs sp) m;
         Some (ok, sp\<lparr>sp_refs := refs\<rparr>, m)
       }
     }
   }"

definition jaeger_span_init :: "mem \<Rightarrow> (bool \<times> jaeger_span \<times> mem) option" where
  "jaeger_span_init m = do {
     (ok, ctx, m) \<leftarrow> jaeger_span_context_init m;
     let sp = JAEGERTRACINGC_SPAN_INIT\<lparr>sp_context := ctx\<rparr>;
     if \<not> ok then Some (False, sp, m)
     else do {
       (ok, sp, m) \<leftarrow> jaeger_span_init_vectors sp m;
       if ok then Some (True, sp, m)
       else do {
         (sp, m) \<leftarrow> jaeger_span_destroy sp m;
         Some (False, sp, m)
       }
     }
   }"

section \<open>Operations on a running span\<close>

definition jaeger_span_is_sampled_no_locking :: "jaeger_span \<Rightarrow> bool" where
  "jaeger_span_is_sampled_no_locking sp \<longleftrightarrow> (ctx_flags (sp_context sp) AND jaeger_sampling_flag_sampled) \<noteq> 0"

definition jaeger_span_is_sampled :: "jaeger_span \<Rightarrow> (bool \<times> jaeger_span) option" where
  "jaeger_span_is_sampled sp = do {
     sp \<leftarrow> span_lock_both sp;
     let result = jaeger_span_is_sampled_no_locking sp;
     sp \<leftarrow> span_unlock_both sp;
     Some (result, sp)
   }"

text \<open>An \<open>opentracing_log_record\<close>: its timestamp and fields.\<close>

type_synonym ot_log_record = "opentracing_time_value \<times> (string option \<times> opentracing_value) list"

definition jaeger_span_log_no_locking ::
  "env \<Rightarrow> opentracing_time_value \<Rightarrow> jaeger_span \<Rightarrow> ot_log_record \<Rightarrow> mem \<Rightarrow> (jaeger_span \<times> mem) option" where
  "jaeger_span_log_no_locking env now sp log_record m = do {
     (slot, logs, m) \<leftarrow> jaeger_vector_append LOG_ZERO (sp_logs sp) m;
     if slot = None then Some (sp\<lparr>sp_logs := logs\<rparr>, m)
     else do {
       (ok, log_record_copy, m) \<leftarrow>
         jaeger_log_record_from_opentracing (env_tag_init env) now LOG_ZERO (fst log_record) (snd log_record) m;
       logs \<leftarrow> vec_write logs slot log_record_copy;
       let logs = (if ok then logs else logs\<lparr>vec_len := vec_len logs - 1\<rparr>);
       Some (sp\<lparr>sp_logs := logs\<rparr>, m)
     }
   }"

record opentracing_finish_span_options =
  fo_finish_time :: opentracing_time_value
  fo_log_records :: "ot_log_record list option"
  fo_num_log_records :: nat

definition JAEGERTRACINGC_FINISH_SPAN_OPTIONS_INIT :: opentracing_finish_span_options where
  "JAEGERTRACINGC_FINISH_SPAN_OPTIONS_INIT =
     \<lparr>fo_finish_time = TIME_ZERO, fo_log_records = None, fo_num_log_records = 0\<rparr>"

fun log_records_loop ::
  "env \<Rightarrow> opentracing_time_value \<Rightarrow> ot_log_record list \<Rightarrow> jaeger_span \<Rightarrow> mem \<Rightarrow> (jaeger_span \<times> mem) option" where
  "log_records_loop env now [] sp m = Some (sp, m)"
| "log_records_loop env now (r # rest) sp m = do {
     (sp, m) \<leftarrow> jaeger_span_log_no_locking env now sp r m;
     log_records_loop env now rest sp m
   }"

text \<open>The part of \<open>jaeger_span_finish_with_options\<close> under the span's mutex; \<open>steady\<close> is the steady clock.\<close>

definition finish_sampled ::
  "env \<Rightarrow> opentracing_time_value \<Rightarrow> opentracing_time_value \<Rightarrow> jaeger_span \<Rightarrow>
   opentracing_finish_span_options \<Rightarrow> mem \<Rightarrow> (jaeger_span \<times> mem) option" where
  "finish_sampled env now steady sp options m = do {
     let finish_time = (if tv_sec (fo_finish_time options) = 0 \<and> tv_nsec (fo_finish_time options) = 0
                        then steady else fo_finish_time options);
     (result, d) \<leftarrow> jaeger_time_subtract finish_time (sp_start_time_steady sp);
     let sp = sp\<lparr>sp_duration := d\<rparr>;
     c_assert result;
     c_assert (fo_num_log_records options = 0 \<or> fo_log_records options \<noteq> None);
     let records = (case fo_log_records options of None \<Rightarrow> [] | Some rs \<Rightarrow> rs);
     c_assert (fo_num_log_records options \<le> length records);
     log_records_loop env now (take (fo_num_log_records options) records) sp m
   }"

definition jaeger_span_finish_with_options ::
  "(jaeger_span \<Rightarrow> 'w \<Rightarrow> mem \<Rightarrow> (jaeger_span \<times> 'w \<times> mem) option) \<Rightarrow> env \<Rightarrow> opentracing_time_value \<Rightarrow>
   opentracing_time_value \<Rightarrow> jaeger_span \<Rightarrow> opentracing_finish_span_options option \<Rightarrow> 'w \<Rightarrow> mem \<Rightarrow>
   (jaeger_span \<times> 'w \<times> mem) option" where
  "jaeger_span_finish_with_options report env now steady sp options w m = do {
     let options = (case options of None \<Rightarrow> JAEGERTRACINGC_FINISH_SPAN_OPTIONS_INIT | Some opts \<Rightarrow> opts);
     sp \<leftarrow> span_lock sp;
     (sp, m) \<leftarrow> (if jaeger_span_is_sampled_no_locking sp then finish_sampled env now steady sp options m
                  else Some (sp, m));
     sp \<leftarrow> span_unlock sp;
     report sp w m
   }"

definition jaeger_span_finish ::
  "(jaeger_span \<Rightarrow> 'w \<Rightarrow> mem \<Rightarrow> (jaeger_span \<times> 'w \<times> mem) option) \<Rightarrow> env \<Rightarrow> opentracing_time_value \<Rightarrow>
   opentracing_time_value \<Rightarrow> jaeger_span \<Rightarrow> 'w \<Rightarrow> mem \<Rightarrow> (jaeger_span \<times> 'w \<times> mem) option" where
  "jaeger_span_finish report env now steady sp w m =
     jaeger_span_finish_with_options report env now steady sp None w m"

definition jaeger_span_set_operation_name ::
  "jaeger_span \<Rightarrow> string \<Rightarrow> mem \<Rightarrow> (jaeger_span \<times> mem) option" where
  "jaeger_span_set_operation_name sp operation_name m = do {
     sp \<leftarrow> span_lock sp;
     (sp, m) \<leftarrow>
       (if \<not> jaeger_span_is_sampled_no_locking sp then Some (sp, m)
        else do {
          (operation_name_copy, m) \<leftarrow> jaeger_strdup (Some operation_name) m;
          if operation_name_copy = None then Some (sp, m)
          else do {
            m \<leftarrow> jaeger_free (map_option fst (sp_operation_name sp)) m;
            Some (sp\<lparr>sp_operation_name := operation_name_copy\<rparr>, m)
          }
        });
     sp \<leftarrow> span_unlock sp;
     Some (sp, m)
   }"

definition jaeger_span_set_baggage_item ::
  "env \<Rightarrow> jaeger_span \<Rightarrow> string \<Rightarrow> string \<Rightarrow> mem \<Rightarrow> (jaeger_span \<times> mem) option" where
  "jaeger_span_set_baggage_item env sp key value m = do {
     sp \<leftarrow> span_lock_both sp;
     (ok, baggage, m) \<leftarrow> jaeger_hashtable_put (env_seed env) (ctx_baggage (sp_context sp)) key value m;
     let sp = sp\<lparr>sp_context := (sp_context sp)\<lparr>ctx_baggage := baggage\<rparr>\<rparr>;
     sp \<leftarrow> span_unlock_both sp;
     Some (sp, m)
   }"

text \<open>The result is the pointed-to string, \<open>None\<close> for NULL.\<close>

definition jaeger_span_baggage_item ::
  "env \<Rightarrow> jaeger_span \<Rightarrow> string \<Rightarrow> (string option \<times> jaeger_span) option" where
  "jaeger_span_baggage_item env sp key = do {
     sp \<leftarrow> span_lock_both sp;
     kv \<leftarrow> jaeger_hashtable_find (env_seed env) (ctx_baggage (sp_context sp)) key;
     sp \<leftarrow> span_unlock_both sp;
     Some (case kv of None \<Rightarrow> None | Some kv \<Rightarrow> map_option snd (kv_value kv), sp)
   }"

definition jaeger_span_set_tag_no_locking ::
  "env \<Rightarrow> jaeger_span \<Rightarrow> string option \<Rightarrow> opentracing_value \<Rightarrow> mem \<Rightarrow> (jaeger_span \<times> mem) option" where
  "jaeger_span_set_tag_no_locking env sp key value m = do {
     (slot, tags, m) \<leftarrow> jaeger_vector_append TAG_ZERO (sp_tags sp) m;
     if slot = None then Some (sp\<lparr>sp_tags := tags\<rparr>, m)
     else do {
       (ok, t, m) \<leftarrow> jaeger_tag_from_key_value (env_tag_init env) key value m;
       tags \<leftarrow> (case t of None \<Rightarrow> Some tags | Some t \<Rightarrow> vec_write tags slot t);
       let tags = (if ok then tags else tags\<lparr>vec_len := vec_len tags - 1\<rparr>);
       Some (sp\<lparr>sp_tags := tags\<rparr>, m)
     }
   }"

definition JAEGERTRACINGC_SAMPLING_PRIORITY :: string where
  "JAEGERTRACINGC_SAMPLING_PRIORITY = ''sampling.priority''"

definition jaeger_span_set_sampling_priority ::
  "jaeger_span \<Rightarrow> opentracing_value \<Rightarrow> (bool \<times> jaeger_span) option" where
  "jaeger_span_set_sampling_priority sp value =
     (case (case value of OTV_int64 i \<Rightarrow> Some (i \<noteq> 0) | OTV_uint64 u \<Rightarrow> Some (u \<noteq> 0) | _ \<Rightarrow> None) of
        None \<Rightarrow> Some (False, sp)
      | Some priority \<Rightarrow> do {
          sp \<leftarrow> span_lock_both sp;
          let ctx = sp_context sp;
          let flags =
            (if priority then (ctx_flags ctx OR jaeger_sampling_flag_debug) OR jaeger_sampling_flag_sampled
             else ctx_flags ctx AND NOT jaeger_sampling_flag_sampled);
          let sp = sp\<lparr>sp_context := ctx\<lparr>ctx_flags := flags\<rparr>\<rparr>;
          sp \<leftarrow> span_unlock_both sp;
          Some (priority, sp)
        })"

definition jaeger_span_set_tag ::
  "env \<Rightarrow> jaeger_span \<Rightarrow> string \<Rightarrow> opentracing_value \<Rightarrow> mem \<Rightarrow> (jaeger_span \<times> mem) option" where
  "jaeger_span_set_tag env sp key value m = do {
     (go, sp) \<leftarrow> (if key = JAEGERTRACINGC_SAMPLING_PRIORITY then jaeger_span_set_sampling_priority sp value
                  else Some (True, sp));
     if \<not> go then Some (sp, m)
     else do {
       sp \<leftarrow> span_lock sp;
       (sp, m) \<leftarrow> (if jaeger_span_is_sampled_no_locking sp
                    then jaeger_span_set_tag_no_locking env sp (Some key) value m
                    else Some (sp, m));
       sp \<leftarrow> span_unlock sp;
       Some (sp, m)
     }
   }"

definition jaeger_span_log ::
  "env \<Rightarrow> opentracing_time_value \<Rightarrow> opentracing_time_value \<Rightarrow> jaeger_span \<Rightarrow>
   (string option \<times> opentracing_value) list \<Rightarrow> mem \<Rightarrow> (jaeger_span \<times> mem) option" where
  "jaeger_span_log env timestamp now sp log_fields_in m = do {
     sp \<leftarrow> span_lock sp;
     (sp, m) \<leftarrow> (if jaeger_span_is_sampled_no_locking sp
                  then jaeger_span_log_no_locking env now sp (timestamp, log_fields_in) m
                  else Some (sp, m));
     sp \<leftarrow> span_unlock sp;
     Some (sp, m)
   }"

section \<open>Copies\<close>

text \<open>The body of \<open>jaeger_span_copy\<close> between the locks: whether every step succeeded, and the copy so far.\<close>

definition span_copy_body ::
  "env \<Rightarrow> opentracing_time_value \<Rightarrow> jaeger_span \<Rightarrow> jaeger_span \<Rightarrow> mem \<Rightarrow> (bool \<times> jaeger_span \<times> mem) option" where
  "span_copy_body env now dst src m = do {
     let dst = dst\<lparr>sp_start_time_system := sp_start_time_system src, sp_start_time_steady := sp_start_time_steady src,
                   sp_duration := sp_duration src\<rparr>;
     (name, m) \<leftarrow> jaeger_strdup (map_option snd (sp_operation_name src)) m;
     let dst = dst\<lparr>sp_operation_name := name\<rparr>;
     (ok, ctx, m) \<leftarrow> jaeger_span_context_copy env (sp_context src) m;
     let dst = dst\<lparr>sp_context := ctx\<rparr>;
     if \<not> ok \<or> name = None then Some (False, dst, m)
     else do {
       (ok, tags, m) \<leftarrow> jaeger_vector_copy TAG_ZERO (sp_tags dst) (sp_tags src)
                          (\<lambda>old. jaeger_tag_copy (env_tag_init env)) m;
       let dst = dst\<lparr>sp_tags := tags\<rparr>;
       if \<not> ok then Some (False, dst, m)
       else do {
         (ok, logs, m) \<leftarrow> jaeger_vector_copy LOG_ZERO (sp_logs dst) (sp_logs src)
                            (jaeger_log_record_copy (env_tag_init env) now) m;
         let dst = dst\<lparr>sp_logs := logs\<rparr>;
         if \<not> ok then Some (False, dst, m)
         else do {
           (ok, refs, m) \<leftarrow> jaeger_vector_copy REF_ZERO (sp_refs dst) (sp_refs src) (jaeger_span_ref_copy env) m;
           Some (ok, dst\<lparr>sp_refs := refs\<rparr>, m)
         }
       }
     }
   }"

definition jaeger_span_copy ::
  "env \<Rightarrow> opentracing_time_value \<Rightarrow> jaeger_span \<Rightarrow> mem \<Rightarrow> (bool \<times> jaeger_span \<times> mem) option" where
  "jaeger_span_copy env now src m = do {
     (ok, dst, m) \<leftarrow> jaeger_span_init_vectors JAEGERTRACINGC_SPAN_INIT m;
     if \<not> ok then Some (False, dst, m)
     else do {
       dst \<leftarrow> span_lock dst;
       src \<leftarrow> span_lock src;
       (ok, dst, m) \<leftarrow> span_copy_body env now dst src m;
       src \<leftarrow> span_unlock src;
       dst \<leftarrow> span_unlock dst;
       if ok then Some (True, dst, m)
       else do {
         (dst, m) \<leftarrow> jaeger_span_destroy dst m;
         Some (False, dst, m)
       }
     }
   }"

section \<open>The protobuf message of a span\<close>

text \<open>The generated message \<open>Span\<close>, its fields that this code sets.\<close>

record pb_span =
  pbs_trace_id :: "(ptr \<times> u8 list) option"
  pbs_span_id :: "(ptr \<times> u8 list) option"
  pbs_operation_name :: "cstring option"
  pbs_references :: "(ptr \<times> (ptr \<times> pb_span_ref) option list) option"
  pbs_n_references :: nat
  pbs_logs :: "(ptr \<times> (ptr \<times> pb_log) option list) option"
  pbs_n_logs :: nat
  pbs_tags :: "(ptr \<times> (ptr \<times> jaeger_tag) option list) option"
  pbs_n_tags :: nat

definition PB_SPAN_INIT :: pb_span where
  "PB_SPAN_INIT = \<lparr>pbs_trace_id = None, pbs_span_id = None, pbs_operation_name = None, pbs_references = None,
     pbs_n_references = 0, pbs_logs = None, pbs_n_logs = 0, pbs_tags = None, pbs_n_tags = 0\<rparr>"

definition jaeger_protobuf_list_destroy ::
  "(ptr \<times> (ptr \<times> 'a) option list) option \<Rightarrow> nat \<Rightarrow> ('a \<Rightarrow> mem \<Rightarrow> ('a \<times> mem) option) \<Rightarrow> mem \<Rightarrow> mem option" where
  "jaeger_protobuf_list_destroy data num destroy m =
     (if num = 0 then Some m
      else do {
        (p, slots) \<leftarrow> data;
        c_assert (num \<le> length slots);
        m \<leftarrow> vector_for_each_destroy (dst_vector_alloc_free destroy) (take num slots) m;
        jaeger_free (Some p) m
      })"

definition jaeger_span_protobuf_destroy :: "pb_span \<Rightarrow> mem \<Rightarrow> (pb_span \<times> mem) option" where
  "jaeger_span_protobuf_destroy sp m = do {
     m \<leftarrow> jaeger_free (map_option fst (pbs_trace_id sp)) m;
     m \<leftarrow> jaeger_free (map_option fst (pbs_span_id sp)) m;
     m \<leftarrow> jaeger_free (map_option fst (pbs_operation_name sp)) m;
     m \<leftarrow> jaeger_protobuf_list_destroy (pbs_references sp) (pbs_n_references sp) jaeger_span_ref_protobuf_destroy m;
     m \<leftarrow> jaeger_protobuf_list_destroy (pbs_logs sp) (pbs_n_logs sp) jaeger_log_record_protobuf_destroy m;
     m \<leftarrow> jaeger_protobuf_list_destroy (pbs_tags sp) (pbs_n_tags sp) jaeger_tag_destroy m;
     Some (sp\<lparr>pbs_trace_id := None, pbs_span_id := None, pbs_operation_name := None,
                pbs_references := None, pbs_logs := None, pbs_tags := None\<rparr>, m)
   }"

text \<open>The body of \<open>jaeger_span_to_protobuf\<close> between the locks.\<close>

definition to_protobuf_body :: "env \<Rightarrow> pb_span \<Rightarrow> jaeger_span \<Rightarrow> mem \<Rightarrow> (bool \<times> pb_span \<times> mem) option" where
  "to_protobuf_body env dst src m = do {
     (name, m) \<leftarrow> jaeger_strdup (map_option snd (sp_operation_name src)) m;
     let dst = dst\<lparr>pbs_operation_name := name\<rparr>;
     if name = None then Some (False, dst, m)
     else do {
       (ok, (arr, n), m) \<leftarrow> jaeger_vector_protobuf_copy (pbs_tags dst, pbs_n_tags dst) (sp_tags src)
         (nat SIZEOF_TAG) TAG_ZERO (\<lambda>old. jaeger_tag_copy (env_tag_init env)) jaeger_tag_destroy m;
       let dst = dst\<lparr>pbs_tags := arr, pbs_n_tags := n\<rparr>;
       if \<not> ok then Some (False, dst, m)
       else do {
         (ok, (arr, n), m) \<leftarrow> jaeger_vector_protobuf_copy (pbs_logs dst, pbs_n_logs dst) (sp_logs src)
           SIZEOF_PB_LOG PB_LOG_INIT (\<lambda>old. jaeger_log_record_to_protobuf (env_tag_init env))
           jaeger_log_record_protobuf_destroy m;
         let dst = dst\<lparr>pbs_logs := arr, pbs_n_logs := n\<rparr>;
         if \<not> ok then Some (False, dst, m)
         else do {
           (ok, (arr, n), m) \<leftarrow> jaeger_vector_protobuf_copy (pbs_references dst, pbs_n_references dst) (sp_refs src)
             SIZEOF_PB_SPAN_REF PB_SPAN_REF_INIT (\<lambda>old. jaeger_span_ref_to_protobuf) jaeger_span_ref_protobuf_destroy m;
           Some (ok, dst\<lparr>pbs_references := arr, pbs_n_references := n\<rparr>, m)
         }
       }
     }
   }"

text \<open>The block after the label \<open>cleanup\<close>: it unlocks both mutexes, held or not.\<close>

definition to_protobuf_cleanup :: "pb_span \<Rightarrow> jaeger_span \<Rightarrow> mem \<Rightarrow> (bool \<times> pb_span \<times> mem) option" where
  "to_protobuf_cleanup dst src m = do {
     src \<leftarrow> span_unlock_both src;
     (dst, m) \<leftarrow> jaeger_span_protobuf_destroy dst m;
     Some (False, PB_SPAN_INIT, m)
   }"

definition jaeger_span_to_protobuf :: "env \<Rightarrow> jaeger_span \<Rightarrow> mem \<Rightarrow> (bool \<times> pb_span \<times> mem) option" where
  "jaeger_span_to_protobuf env src m =
     (case jaeger_malloc 16 m of
        (None, m) \<Rightarrow> to_protobuf_cleanup PB_SPAN_INIT src m
      | (Some p, m) \<Rightarrow>
          (case jaeger_malloc 8 m of
             (None, m) \<Rightarrow> to_protobuf_cleanup (PB_SPAN_INIT\<lparr>pbs_trace_id := Some (p, replicate 16 0)\<rparr>) src m
           | (Some q, m) \<Rightarrow> do {
               src \<leftarrow> span_lock_both src;
               tid \<leftarrow> jaeger_trace_id_to_protobuf 16 (ctx_trace_id (sp_context src));
               let dst = PB_SPAN_INIT\<lparr>pbs_trace_id := Some (p, tid),
                           pbs_span_id := Some (q, le_bytes (ctx_span_id (sp_context src)))\<rparr>;
               (ok, dst, m) \<leftarrow> to_protobuf_body env dst src m;
               if ok then do {
                 src \<leftarrow> span_unlock_both src;
                 Some (True, dst, m)
               } else to_protobuf_cleanup dst src m
             }))"

section \<open>Locks\<close>

lemma span_lock_simps [simp]:
  "\<not> sp_locked sp \<Longrightarrow> span_lock sp = Some (sp\<lparr>sp_locked := True\<rparr>)"
  "sp_locked sp \<Longrightarrow> span_unlock sp = Some (sp\<lparr>sp_locked := False\<rparr>)"
  "\<not> sp_locked sp \<Longrightarrow> span_unlock sp = None"
  by (simp_all add: span_lock_def span_unlock_def)

lemma sp_locked_id [simp]: "\<not> sp_locked sp \<Longrightarrow> sp\<lparr>sp_locked := False\<rparr> = sp"
  by simp

lemma sp_locked_id_duration [simp]: "\<not> sp_locked sp \<Longrightarrow> sp\<lparr>sp_duration := d, sp_locked := False\<rparr> = sp\<lparr>sp_duration := d\<rparr>"
  by simp

definition unlocked :: "jaeger_span \<Rightarrow> bool" where
  "unlocked sp \<longleftrightarrow> \<not> sp_locked sp \<and> \<not> ctx_locked (sp_context sp)"

definition both_locked :: "jaeger_span \<Rightarrow> jaeger_span" where
  "both_locked sp = sp\<lparr>sp_locked := True, sp_context := (sp_context sp)\<lparr>ctx_locked := True\<rparr>\<rparr>"

lemma span_lock_both_free: "unlocked sp \<Longrightarrow> span_lock_both sp = Some (both_locked sp)"
  by (simp add: span_lock_both_def unlocked_def both_locked_def)

lemma span_unlock_both_held: "unlocked sp \<Longrightarrow> span_unlock_both (both_locked sp) = Some sp"
  by (simp add: span_unlock_both_def unlocked_def both_locked_def)

lemma span_unlock_both_free: "unlocked sp \<Longrightarrow> span_unlock_both sp = None"
  by (simp add: span_unlock_both_def unlocked_def)

lemma both_locked_simps [simp]:
  "sp_tags (both_locked sp) = sp_tags sp" "sp_logs (both_locked sp) = sp_logs sp" "sp_refs (both_locked sp) = sp_refs sp"
  "sp_operation_name (both_locked sp) = sp_operation_name sp" "ctx_trace_id (sp_context (both_locked sp)) = ctx_trace_id (sp_context sp)"
  "ctx_span_id (sp_context (both_locked sp)) = ctx_span_id (sp_context sp)"
  "ctx_flags (sp_context (both_locked sp)) = ctx_flags (sp_context sp)"
  "ctx_baggage (sp_context (both_locked sp)) = ctx_baggage (sp_context sp)"
  by (simp_all add: both_locked_def)

section \<open>The message of a span\<close>

definition pb_array_ok :: "('a \<Rightarrow> bool) \<Rightarrow> (ptr \<times> (ptr \<times> 'a) option list) option \<Rightarrow> nat \<Rightarrow> bool" where
  "pb_array_ok elem_ok arr n \<longleftrightarrow> (n = 0 \<longrightarrow> arr = None) \<and>
     (\<exists>elems. array_elems arr n = Some elems \<and> (\<forall>x\<in>set elems. slot_ok elem_ok x))"

lemma pb_array_ok_empty [simp]: "pb_array_ok P None 0"
  by (simp add: pb_array_ok_def array_elems_def)

text \<open>
  What a call of \<open>jaeger_vector_protobuf_copy\<close> into an empty array leaves: the array owns exactly the new
  blocks; on success it has a faithful copy of every element, and it fails only if an allocation fails.
\<close>

definition array_post ::
  "('b \<Rightarrow> 'a \<Rightarrow> bool) \<Rightarrow> ('a \<Rightarrow> bool) \<Rightarrow> ('a \<Rightarrow> ptr list) \<Rightarrow> 'b list \<Rightarrow> bool \<Rightarrow>
   (ptr \<times> (ptr \<times> 'a) option list) option \<Rightarrow> nat \<Rightarrow> mem \<Rightarrow> mem \<Rightarrow> bool" where
  "array_post same elem_ok ptrs xs ok arr n m m' \<longleftrightarrow> pb_array_ok elem_ok arr n \<and> distinct (array_ptrs ptrs arr n) \<and>
     mem_trans {} (set (array_ptrs ptrs arr n)) m m' \<and>
     (if ok then \<exists>elems. array_elems arr n = Some elems \<and> list_all2 (slot_same same) xs elems
      else arr = None \<and> n = 0 \<and> \<not> mem_plenty m)"

lemma array_post_mem: "array_post same elem_ok ptrs xs ok arr n m m' \<Longrightarrow> mem_trans {} (set (array_ptrs ptrs arr n)) m m'"
  by (simp add: array_post_def)

context element_ptr_copy
begin

lemma copy_array_empty:
  assumes "vec_ok src" "\<forall>s\<in>set (vec_list src). src_ok s" "good m" "vec_len src * 16 \<le> INT_MAX"
  obtains ok arr n m' where "jaeger_vector_protobuf_copy (None, 0) src value_size z copy destroy m = Some (ok, (arr, n), m')"
    and "array_post same elem_ok ptrs (vec_list src) ok arr n m m'"
proof -
  from protobuf_copy_array [OF assms, of "(None, 0)"] obtain ok arr n m' where
    c: "jaeger_vector_protobuf_copy (None, 0) src value_size z copy destroy m = Some (ok, (arr, n), m')"
    "\<not> ok \<longrightarrow> (arr, n) = (None, 0) \<and> mem_trans {} {} m m' \<and> \<not> mem_plenty m"
    "ok \<longrightarrow> (n = 0 \<longrightarrow> arr = None) \<and> (\<exists>elems. array_elems arr n = Some elems \<and>
      list_all2 (slot_same same) (vec_list src) elems \<and> (\<forall>x\<in>set elems. slot_ok elem_ok x)) \<and>
      distinct (array_ptrs ptrs arr n) \<and> mem_trans {} (set (array_ptrs ptrs arr n)) m m'" by blast
  have "array_post same elem_ok ptrs (vec_list src) ok arr n m m'"
  proof (cases ok)
    case True
    with c(3) show ?thesis by (auto simp: array_post_def pb_array_ok_def)
  qed (use c(2) in \<open>simp add: array_post_def\<close>)
  with c(1) that show thesis by blast
qed

lemma list_destroy_spec:
  assumes m: "mem_ok m" and o: "owns m (array_ptrs ptrs arr n)" and a: "pb_array_ok elem_ok arr n"
  shows "\<exists>m'. jaeger_protobuf_list_destroy arr n destroy m = Some m' \<and> mem_trans (set (array_ptrs ptrs arr n)) {} m m'"
proof -
  from a obtain elems where e: "array_elems arr n = Some elems" "\<forall>x\<in>set elems. slot_ok elem_ok x" "n = 0 \<longrightarrow> arr = None"
    by (auto simp: pb_array_ok_def)
  from array_destroy [OF m o e(1,2)] obtain m1 m2 where
    d: "vector_for_each_destroy (dst_vector_alloc_free destroy) elems m = Some m1"
    "jaeger_free (map_option fst arr) m1 = Some m2" "mem_trans (set (array_ptrs ptrs arr n)) {} m m2" by blast
  show ?thesis
  proof (cases arr)
    case None
    with e(1) m show ?thesis by (simp add: jaeger_protobuf_list_destroy_def array_elems_def split: if_splits)
  next
    case (Some x)
    with e d show ?thesis
      by (cases x) (auto simp: jaeger_protobuf_list_destroy_def array_elems_def split: if_splits)
  qed
qed

end

definition pb_span_ptrs :: "pb_span \<Rightarrow> ptr list" where
  "pb_span_ptrs d = cs_ptrs (pbs_trace_id d) @ cs_ptrs (pbs_span_id d) @ cs_ptrs (pbs_operation_name d) @
     array_ptrs pb_ref_ptrs (pbs_references d) (pbs_n_references d) @ array_ptrs pb_log_ptrs (pbs_logs d) (pbs_n_logs d) @
     array_ptrs tag_ptrs (pbs_tags d) (pbs_n_tags d)"

definition pb_span_ok :: "pb_span \<Rightarrow> bool" where
  "pb_span_ok d \<longleftrightarrow> pb_array_ok (\<lambda>_. True) (pbs_references d) (pbs_n_references d) \<and>
     pb_array_ok pb_log_ok (pbs_logs d) (pbs_n_logs d) \<and> pb_array_ok (\<lambda>_. True) (pbs_tags d) (pbs_n_tags d)"

text \<open>The message has the IDs, the name and one faithful copy of every tag, log record and reference.\<close>

definition pb_span_same :: "jaeger_span \<Rightarrow> pb_span \<Rightarrow> bool" where
  "pb_span_same sp d \<longleftrightarrow>
     map_option snd (pbs_trace_id d) = Some (trace_id_bytes (ctx_trace_id (sp_context sp))) \<and>
     map_option snd (pbs_span_id d) = Some (le_bytes (ctx_span_id (sp_context sp))) \<and>
     map_option snd (pbs_operation_name d) = map_option snd (sp_operation_name sp) \<and>
     (\<exists>ts ls rs. array_elems (pbs_tags d) (pbs_n_tags d) = Some ts \<and> list_all2 (slot_same tag_same) (vec_list (sp_tags sp)) ts \<and>
        array_elems (pbs_logs d) (pbs_n_logs d) = Some ls \<and> list_all2 (slot_same pb_log_same) (vec_list (sp_logs sp)) ls \<and>
        array_elems (pbs_references d) (pbs_n_references d) = Some rs \<and> list_all2 (slot_same pb_ref_same) (vec_list (sp_refs sp)) rs)"

text \<open>A span that can be copied and sent: well-formed parts, element counts within \<open>int\<close> arithmetic.\<close>

definition span_src_ok :: "env \<Rightarrow> jaeger_span \<Rightarrow> bool" where
  "span_src_ok env sp \<longleftrightarrow> unlocked sp \<and> ctx_src_ok env (sp_context sp) \<and> sp_operation_name sp \<noteq> None \<and>
     vec_ok (sp_tags sp) \<and> (\<forall>t\<in>set (vec_list (sp_tags sp)). tag_src_ok t) \<and> SIZEOF_TAG * (2 * vec_len (sp_tags sp)) \<le> INT_MAX \<and>
     vec_ok (sp_logs sp) \<and> (\<forall>l\<in>set (vec_list (sp_logs sp)). log_src_ok l) \<and>
       SIZEOF_LOG_RECORD * (2 * vec_len (sp_logs sp)) \<le> INT_MAX \<and>
     vec_ok (sp_refs sp) \<and> (\<forall>r\<in>set (vec_list (sp_refs sp)). ref_src_ok env r) \<and>
       SIZEOF_SPAN_REF * (2 * vec_len (sp_refs sp)) \<le> INT_MAX"

text \<open>The blocks made between the locks, in the order of the code.\<close>

definition body_ptrs :: "pb_span \<Rightarrow> ptr list" where
  "body_ptrs d = cs_ptrs (pbs_operation_name d) @ array_ptrs tag_ptrs (pbs_tags d) (pbs_n_tags d) @
     array_ptrs pb_log_ptrs (pbs_logs d) (pbs_n_logs d) @ array_ptrs pb_ref_ptrs (pbs_references d) (pbs_n_references d)"

definition body_same :: "jaeger_span \<Rightarrow> pb_span \<Rightarrow> bool" where
  "body_same sp d \<longleftrightarrow> map_option snd (pbs_operation_name d) = map_option snd (sp_operation_name sp) \<and>
     (\<exists>ts ls rs. array_elems (pbs_tags d) (pbs_n_tags d) = Some ts \<and> list_all2 (slot_same tag_same) (vec_list (sp_tags sp)) ts \<and>
        array_elems (pbs_logs d) (pbs_n_logs d) = Some ls \<and> list_all2 (slot_same pb_log_same) (vec_list (sp_logs sp)) ls \<and>
        array_elems (pbs_references d) (pbs_n_references d) = Some rs \<and> list_all2 (slot_same pb_ref_same) (vec_list (sp_refs sp)) rs)"

locale span_env =
  fixes env :: env
  assumes blank_tag_init: "tag_blank (env_tag_init env)"

sublocale span_env \<subseteq> tag_initialiser "env_tag_init env"
  using blank_tag_init by unfold_locales

interpretation env_one: span_env env_one
  by unfold_locales (simp add: env_one_def tag_blank_def TAG_ZERO_def)

context span_env
begin

lemma pb_span_destroy_spec:
  assumes m: "mem_ok m" and d: "pb_span_ok d" and o: "owns m (pb_span_ptrs d)"
  shows "\<exists>d' m'. jaeger_span_protobuf_destroy d m = Some (d', m') \<and> mem_trans (set (pb_span_ptrs d)) {} m m'"
proof -
  let ?T = "cs_ptrs (pbs_trace_id d)" and ?S = "cs_ptrs (pbs_span_id d)" and ?N = "cs_ptrs (pbs_operation_name d)"
    and ?R = "array_ptrs pb_ref_ptrs (pbs_references d) (pbs_n_references d)"
    and ?L = "array_ptrs pb_log_ptrs (pbs_logs d) (pbs_n_logs d)" and ?G = "array_ptrs tag_ptrs (pbs_tags d) (pbs_n_tags d)"
  note o0 = o [unfolded pb_span_ptrs_def]
  from free_owned [OF m owns_head [OF o0]] obtain m1 where
    f1: "jaeger_free (map_option fst (pbs_trace_id d)) m = Some m1" "mem_trans (set ?T) {} m m1" .
  note o1 = release_rest [OF f1(2) o0]
  from free_owned [OF o1(2) owns_head [OF o1(1)]] obtain m2 where
    f2: "jaeger_free (map_option fst (pbs_span_id d)) m1 = Some m2" "mem_trans (set ?S) {} m1 m2" .
  note o2 = release_rest [OF f2(2) o1(1)]
  from free_owned [OF o2(2) owns_head [OF o2(1)]] obtain m3 where
    f3: "jaeger_free (map_option fst (pbs_operation_name d)) m2 = Some m3" "mem_trans (set ?N) {} m2 m3" .
  note o3 = release_rest [OF f3(2) o2(1)]
  from pbrefs.list_destroy_spec [OF o3(2) owns_head [OF o3(1)]] d obtain m4 where
    f4: "jaeger_protobuf_list_destroy (pbs_references d) (pbs_n_references d) jaeger_span_ref_protobuf_destroy m3 = Some m4"
    "mem_trans (set ?R) {} m3 m4" by (auto simp: pb_span_ok_def)
  note o4 = release_rest [OF f4(2) o3(1)]
  from pblogs.list_destroy_spec [OF o4(2) owns_head [OF o4(1)]] d obtain m5 where
    f5: "jaeger_protobuf_list_destroy (pbs_logs d) (pbs_n_logs d) jaeger_log_record_protobuf_destroy m4 = Some m5"
    "mem_trans (set ?L) {} m4 m5" by (auto simp: pb_span_ok_def)
  note o5 = release_rest [OF f5(2) o4(1)]
  from tag.list_destroy_spec [OF o5(2,1)] d obtain m6 where
    f6: "jaeger_protobuf_list_destroy (pbs_tags d) (pbs_n_tags d) jaeger_tag_destroy m5 = Some m6"
    "mem_trans (set ?G) {} m5 m6" by (auto simp: pb_span_ok_def)
  note r5 = release_append [OF f5(2) f6(2) o4(1) o4(2)]
  note r4 = release_append [OF f4(2) r5 o3(1) o3(2)]
  note r3 = release_append [OF f3(2) r4 o2(1) o2(2)]
  note r2 = release_append [OF f2(2) r3 o1(1) o1(2)]
  note r1 = release_append [OF f1(2) r2 o0 m]
  show ?thesis
    unfolding jaeger_span_protobuf_destroy_def pb_span_ptrs_def
    using f1(1) f2(1) f3(1) f4(1) f5(1) f6(1) r1 by simp
qed

lemma to_protobuf_body_spec:
  assumes m: "mem_ok m" and s: "span_src_ok env sp"
    and d0: "d0 = PB_SPAN_INIT\<lparr>pbs_trace_id := t, pbs_span_id := i\<rparr>"
  shows "\<exists>ok d m'. to_protobuf_body env d0 (both_locked sp) m = Some (ok, d, m') \<and> pbs_trace_id d = t \<and> pbs_span_id d = i \<and>
    pb_span_ok d \<and> distinct (body_ptrs d) \<and> mem_trans {} (set (body_ptrs d)) m m' \<and>
    (if ok then body_same sp d else \<not> mem_plenty m)"
proof -
  obtain nm where nm: "sp_operation_name sp = Some nm" using s by (auto simp: span_src_ok_def)
  have tg: "vec_ok (sp_tags sp)" "\<forall>t\<in>set (vec_list (sp_tags sp)). tag_src_ok t" "vec_len (sp_tags sp) * 16 \<le> INT_MAX"
    and lg: "vec_ok (sp_logs sp)" "\<forall>l\<in>set (vec_list (sp_logs sp)). log_src_ok l" "vec_len (sp_logs sp) * 16 \<le> INT_MAX"
    and rf: "vec_ok (sp_refs sp)" "\<forall>r\<in>set (vec_list (sp_refs sp)). \<not> ctx_locked (ref_context r)"
      "vec_len (sp_refs sp) * 16 \<le> INT_MAX"
    using s by (auto simp: span_src_ok_def SIZEOF_TAG_def SIZEOF_LOG_RECORD_def SIZEOF_SPAN_REF_def vec_ok_def
        ref_src_ok_def ctx_src_ok_def ctx_ok_def)
  note defs = to_protobuf_body_def d0 PB_SPAN_INIT_def pb_span_ok_def body_ptrs_def array_post_def
  from jaeger_strdup_total obtain r m1 where r: "jaeger_strdup (Some (snd nm)) m = Some (r, m1)" by blast
  show ?thesis
  proof (cases r)
    case None
    with r m jaeger_strdup_NoneD [of "snd nm" m m1] jaeger_strdup_plenty [OF m] nm show ?thesis
      by (intro exI [of _ False] exI [of _ d0] exI [of _ m1]) (auto simp: defs)
  next
    case (Some q)
    have q: "snd q = snd nm" "mem_trans {} (set [fst q]) m m1"
      using jaeger_strdup_SomeD [of "snd nm" m q m1] r Some m by auto
    from tag.copy_array_empty [OF tg(1,2) mem_trans_ok [OF q(2)] tg(3)] obtain ok2 a2 n2 m2 where
      c2: "jaeger_vector_protobuf_copy (None, 0) (sp_tags sp) (nat SIZEOF_TAG) TAG_ZERO
        (\<lambda>old. jaeger_tag_copy (env_tag_init env)) jaeger_tag_destroy m1 = Some (ok2, (a2, n2), m2)"
      and p2: "array_post tag_same (\<lambda>_. True) tag_ptrs (vec_list (sp_tags sp)) ok2 a2 n2 m1 m2" .
    have al2: "mem_trans {} (set ([fst q] @ array_ptrs tag_ptrs a2 n2)) m m2 \<and> distinct ([fst q] @ array_ptrs tag_ptrs a2 n2)"
      using alloc_append [OF q(2) array_post_mem [OF p2]] m p2 by (simp add: array_post_def)
    then have m2: "mem_ok m2" "mem_plenty m2 = mem_plenty m" "mem_plenty m1 = mem_plenty m"
      using mem_trans_ok mem_plenty_trans q(2) by blast+
    from pblogs.copy_array_empty [OF lg(1,2) m2(1) lg(3)] obtain ok3 a3 n3 m3 where
      c3: "jaeger_vector_protobuf_copy (None, 0) (sp_logs sp) SIZEOF_PB_LOG PB_LOG_INIT
        (\<lambda>old. jaeger_log_record_to_protobuf (env_tag_init env)) jaeger_log_record_protobuf_destroy m2 = Some (ok3, (a3, n3), m3)"
      and p3: "array_post pb_log_same pb_log_ok pb_log_ptrs (vec_list (sp_logs sp)) ok3 a3 n3 m2 m3" .
    have al3: "mem_trans {} (set (([fst q] @ array_ptrs tag_ptrs a2 n2) @ array_ptrs pb_log_ptrs a3 n3)) m m3 \<and>
        distinct (([fst q] @ array_ptrs tag_ptrs a2 n2) @ array_ptrs pb_log_ptrs a3 n3)"
      using alloc_append [OF conjunct1 [OF al2] array_post_mem [OF p3] conjunct2 [OF al2] _ m] p3 by (simp add: array_post_def)
    then have m3: "mem_ok m3" "mem_plenty m3 = mem_plenty m" using mem_trans_ok mem_plenty_trans by blast+
    from pbrefs.copy_array_empty [OF rf(1,2) m3(1) rf(3)] obtain ok4 a4 n4 m4 where
      c4: "jaeger_vector_protobuf_copy (None, 0) (sp_refs sp) SIZEOF_PB_SPAN_REF PB_SPAN_REF_INIT
        (\<lambda>old. jaeger_span_ref_to_protobuf) jaeger_span_ref_protobuf_destroy m3 = Some (ok4, (a4, n4), m4)"
      and p4: "array_post pb_ref_same (\<lambda>_. True) pb_ref_ptrs (vec_list (sp_refs sp)) ok4 a4 n4 m3 m4" .
    have al4: "mem_trans {} (set ((([fst q] @ array_ptrs tag_ptrs a2 n2) @ array_ptrs pb_log_ptrs a3 n3) @ array_ptrs pb_ref_ptrs a4 n4)) m m4 \<and>
        distinct ((([fst q] @ array_ptrs tag_ptrs a2 n2) @ array_ptrs pb_log_ptrs a3 n3) @ array_ptrs pb_ref_ptrs a4 n4)"
      using alloc_append [OF conjunct1 [OF al3] array_post_mem [OF p4] conjunct2 [OF al3] _ m] p4 by (simp add: array_post_def)
    let ?d1 = "d0\<lparr>pbs_operation_name := Some q\<rparr>"
    let ?d2 = "?d1\<lparr>pbs_tags := a2, pbs_n_tags := n2\<rparr>"
    let ?d3 = "?d2\<lparr>pbs_logs := a3, pbs_n_logs := n3\<rparr>"
    let ?d4 = "?d3\<lparr>pbs_references := a4, pbs_n_references := n4\<rparr>"
    consider "\<not> ok2" | "ok2" "\<not> ok3" | "ok2" "ok3" by blast
    then show ?thesis
    proof cases
      case 1
      with c2 p2 al2 m2(3) r Some nm show ?thesis
        by (intro exI [of _ False] exI [of _ ?d2] exI [of _ m2]) (simp add: defs)
    next
      case 2
      with c2 c3 p2 p3 al3 m2(2) r Some nm show ?thesis
        by (intro exI [of _ False] exI [of _ ?d3] exI [of _ m3]) (simp add: defs)
    next
      case 3
      have "body_same sp ?d4" if ok4
        using that 3 p2 p3 p4 nm q(1) unfolding body_same_def array_post_def by simp
      with 3 c2 c3 c4 p2 p3 p4 al4 m3(2) r Some nm show ?thesis
        by (intro exI [of _ ok4] exI [of _ ?d4] exI [of _ m4]) (auto simp: defs)
    qed
  qed
qed

lemma pb_span_ptrs_body:
  "distinct (pb_span_ptrs d) \<longleftrightarrow> distinct (cs_ptrs (pbs_trace_id d) @ cs_ptrs (pbs_span_id d) @ body_ptrs d)"
  "set (pb_span_ptrs d) = set (cs_ptrs (pbs_trace_id d) @ cs_ptrs (pbs_span_id d) @ body_ptrs d)"
  by (auto simp: pb_span_ptrs_def body_ptrs_def)

lemma to_protobuf_spec:
  assumes m: "mem_ok m" and s: "span_src_ok env sp"
  shows "if mem_oracle m (mem_next m) \<and> mem_oracle m (Suc (mem_next m))
    then \<exists>ok d m'. jaeger_span_to_protobuf env sp m = Some (ok, d, m') \<and>
      (if ok then pb_span_same sp d \<and> pb_span_ok d \<and> distinct (pb_span_ptrs d) \<and> mem_trans {} (set (pb_span_ptrs d)) m m'
       else d = PB_SPAN_INIT \<and> mem_trans {} {} m m' \<and> \<not> mem_plenty m)
    else jaeger_span_to_protobuf env sp m = None"
proof (cases "mem_oracle m (mem_next m)")
  case False
  from malloc_refused [OF m False, of 16] obtain m1 where "jaeger_malloc 16 m = (None, m1)" .
  with False s show ?thesis
    by (simp add: jaeger_span_to_protobuf_def to_protobuf_cleanup_def span_unlock_both_free span_src_ok_def)
next
  case True
  from malloc_served [OF m True, of 16] obtain m1 where
    p: "jaeger_malloc 16 m = (Some (mem_next m), m1)" "mem_trans {} {mem_next m} m m1" "mem_next m1 = Suc (mem_next m)" .
  have u: "unlocked sp" using s by (simp add: span_src_ok_def)
  have or: "mem_oracle m1 (mem_next m1) \<longleftrightarrow> mem_oracle m (Suc (mem_next m))"
    using p(3) mem_trans_oracle [OF p(2)] by simp
  show ?thesis
  proof (cases "mem_oracle m (Suc (mem_next m))")
    case False
    with or malloc_refused [OF mem_trans_ok [OF p(2)], of 8] obtain m2 where "jaeger_malloc 8 m1 = (None, m2)" by auto
    with False p(1) u show ?thesis
      by (simp add: jaeger_span_to_protobuf_def to_protobuf_cleanup_def span_unlock_both_free)
  next
    case or2: True
    with or malloc_served [OF mem_trans_ok [OF p(2)], of 8] obtain m2 where
      q: "jaeger_malloc 8 m1 = (Some (mem_next m1), m2)" "mem_trans {} {mem_next m1} m1 m2" by auto
    let ?t = "Some (mem_next m, trace_id_bytes (ctx_trace_id (sp_context sp)))"
    let ?i = "Some (mem_next m1, le_bytes (ctx_span_id (sp_context sp)))"
    have al: "mem_trans {} (set [mem_next m, mem_next m1]) m m2 \<and> distinct [mem_next m, mem_next m1]"
      using alloc_append [of "[mem_next m]" m m1 "[mem_next m1]" m2] p(2) q(2) m by simp
    then have m2: "mem_ok m2" "mem_plenty m2 = mem_plenty m" using mem_trans_ok mem_plenty_trans by blast+
    from to_protobuf_body_spec [OF m2(1) s refl, of ?i ?t] obtain ok d m3 where
      b: "to_protobuf_body env (PB_SPAN_INIT\<lparr>pbs_trace_id := ?t, pbs_span_id := ?i\<rparr>) (both_locked sp) m2 = Some (ok, d, m3)"
      "pbs_trace_id d = ?t" "pbs_span_id d = ?i" "pb_span_ok d" "distinct (body_ptrs d)"
      "mem_trans {} (set (body_ptrs d)) m2 m3" "if ok then body_same sp d else \<not> mem_plenty m2" by blast
    have all: "mem_trans {} (set (pb_span_ptrs d)) m m3" "distinct (pb_span_ptrs d)"
      using alloc_append [OF conjunct1 [OF al] b(6) conjunct2 [OF al] b(5) m] b(2,3) by (simp_all add: pb_span_ptrs_body)
    have run: "jaeger_span_to_protobuf env sp m = (if ok then Some (True, d, m3) else to_protobuf_cleanup d (both_locked sp) m3)"
      using p(1) q(1) b(1) u
      by (simp add: jaeger_span_to_protobuf_def span_lock_both_free span_unlock_both_held jaeger_trace_id_to_protobuf_def
          trace_id_bytes_def)
    show ?thesis
    proof (cases ok)
      case True
      with run all b \<open>mem_oracle m (mem_next m)\<close> or2 show ?thesis
        by (simp add: pb_span_same_def body_same_def)
    next
      case False
      from pb_span_destroy_spec [OF mem_trans_ok [OF all(1)] b(4) owns_trans [OF all]] obtain d' m4 where
        f: "jaeger_span_protobuf_destroy d m3 = Some (d', m4)" "mem_trans (set (pb_span_ptrs d)) {} m3 m4" by blast
      with run False u have "jaeger_span_to_protobuf env sp m = Some (False, PB_SPAN_INIT, m4)"
        by (simp add: to_protobuf_cleanup_def span_unlock_both_held)
      with mem_trans_trans [OF all(1) f(2) m] False b(7) m2(2) \<open>mem_oracle m (mem_next m)\<close> or2 show ?thesis by simp
    qed
  qed
qed

end

section \<open>Copies of spans\<close>

text \<open>The blocks of a span in the order \<open>jaeger_span_destroy\<close> releases them.\<close>

definition span_ptrs :: "jaeger_span \<Rightarrow> ptr list" where
  "span_ptrs sp = cs_ptrs (sp_operation_name sp) @ concat (map tag_ptrs (vec_list (sp_tags sp))) @
     concat (map log_ptrs (vec_list (sp_logs sp))) @ concat (map ref_ptrs (vec_list (sp_refs sp))) @ ctx_ptrs (sp_context sp) @
     vec_ptrs (sp_tags sp) @ vec_ptrs (sp_logs sp) @ vec_ptrs (sp_refs sp)"

definition span_ok :: "env \<Rightarrow> jaeger_span \<Rightarrow> bool" where
  "span_ok env sp \<longleftrightarrow> unlocked sp \<and> ctx_ok env (sp_context sp) \<and> vec_ok (sp_tags sp) \<and> vec_ok (sp_logs sp) \<and>
     (\<forall>l\<in>set (vec_list (sp_logs sp)). vec_ok (log_fields l)) \<and> vec_ok (sp_refs sp) \<and>
     (\<forall>r\<in>set (vec_list (sp_refs sp)). ref_src_ok env r)"

definition span_same :: "jaeger_span \<Rightarrow> jaeger_span \<Rightarrow> bool" where
  "span_same src dst \<longleftrightarrow> ctx_same (sp_context src) (sp_context dst) \<and>
     map_option snd (sp_operation_name dst) = map_option snd (sp_operation_name src) \<and>
     sp_start_time_system dst = sp_start_time_system src \<and> sp_start_time_steady dst = sp_start_time_steady src \<and>
     sp_duration dst = sp_duration src \<and> list_all2 tag_same (vec_list (sp_tags src)) (vec_list (sp_tags dst)) \<and>
     list_all2 log_same (vec_list (sp_logs src)) (vec_list (sp_logs dst)) \<and>
     list_all2 ref_same (vec_list (sp_refs src)) (vec_list (sp_refs dst))"

lemma vec_destroy_owned:
  assumes "mem_ok m" and "owns m (vec_ptrs v)"
  obtains m' where "jaeger_vector_destroy v m = Some (JAEGERTRACINGC_VECTOR_INIT, m')" and "mem_trans (set (vec_ptrs v)) {} m m'"
  using vec_destroy_spec [OF assms(1)] assms(2) by (metis owns_def)

lemma vec_for_each_destroy_ok: "vec_ok v \<Longrightarrow> vec_for_each_destroy f v m = vector_for_each_destroy f (vec_list v) m"
  by (auto simp: vec_for_each_destroy_def elim!: vec_okE)

lemma vec_init_good:
  fixes z :: 'a and v :: "'a jaeger_vector"
  assumes "mem_good m" and "0 < ts" and "ts * 10 \<le> INT_MAX"
  obtains v' m' where "jaeger_vector_init z ts v m = Some (True, v', m')" and "vec_ok v'" and "vec_len v' = 0"
    and "vec_type_size v' = ts" and "vec_free v' = replicate 10 z" and "fresh_list (vec_ptrs v') m m'"
proof -
  have m: "mem_ok m" "mem_plenty m" using assms(1) by (auto simp: mem_good_def)
  from vec_init_total [OF assms(2,3), of z v m] obtain ok v' m' where i: "jaeger_vector_init z ts v m = Some (ok, v', m')" by blast
  have ok using vec_init_plenty [OF i m] .
  with vec_init_spec(1) [OF i m(1)] have vs: "vec_ok v'" "vec_len v' = 0" "vec_type_size v' = ts"
    "mem_trans {} (set (vec_ptrs v')) m m'" by auto
  have "distinct (vec_ptrs v')" by (auto simp: vec_ptrs_def split: option.split)
  with vs i \<open>ok\<close> vec_init_free [of z ts v m v' m'] that [of v' m'] show thesis by (simp add: fresh_list_def)
qed

context span_env
begin

lemma span_destroy_spec:
  assumes m: "mem_ok m" and s: "span_ok env sp" and o: "owns m (span_ptrs sp)"
  shows "\<exists>sp' m'. jaeger_span_destroy sp m = Some (sp', m') \<and> mem_trans (set (span_ptrs sp)) {} m m'"
proof -
  have v: "vec_ok (sp_tags sp)" "vec_ok (sp_logs sp)" "vec_ok (sp_refs sp)" "ctx_ok env (sp_context sp)" "\<not> sp_locked sp"
    "\<forall>l\<in>set (vec_list (sp_logs sp)). vec_ok (log_fields l)" "\<forall>r\<in>set (vec_list (sp_refs sp)). ref_src_ok env r"
    using s by (auto simp: span_ok_def unlocked_def)
  note o0 = o [unfolded span_ptrs_def, folded tag.list_ptrs_def logs.list_ptrs_def refs.list_ptrs_def]
  from free_owned [OF m owns_head [OF o0]] obtain m1 where
    f1: "jaeger_free (map_option fst (sp_operation_name sp)) m = Some m1" "mem_trans (set (cs_ptrs (sp_operation_name sp))) {} m m1" .
  note o1 = release_rest [OF f1(2) o0]
  from tag.for_each_destroy [OF o1(2) owns_head [OF o1(1)]] obtain m2 where
    f2: "vector_for_each_destroy jaeger_tag_destroy (vec_list (sp_tags sp)) m1 = Some m2"
    "mem_trans (set (tag.list_ptrs (vec_list (sp_tags sp)))) {} m1 m2" by auto
  note o2 = release_rest [OF f2(2) o1(1)]
  from logs.for_each_destroy [OF o2(2) owns_head [OF o2(1)] v(6)] obtain m3 where
    f3: "vector_for_each_destroy jaeger_log_record_destroy (vec_list (sp_logs sp)) m2 = Some m3"
    "mem_trans (set (logs.list_ptrs (vec_list (sp_logs sp)))) {} m2 m3" by auto
  note o3 = release_rest [OF f3(2) o2(1)]
  from refs.for_each_destroy [OF o3(2) owns_head [OF o3(1)] v(7)] obtain m4 where
    f4: "vector_for_each_destroy jaeger_span_ref_destroy (vec_list (sp_refs sp)) m3 = Some m4"
    "mem_trans (set (refs.list_ptrs (vec_list (sp_refs sp)))) {} m3 m4" by auto
  note o4 = release_rest [OF f4(2) o3(1)]
  from context_destroy_spec [OF v(4) o4(2) owns_head [OF o4(1)]] obtain c m5 where
    f5: "jaeger_span_context_destroy (sp_context sp) m4 = Some (c, m5)" "mem_trans (set (ctx_ptrs (sp_context sp))) {} m4 m5" by blast
  note o5 = release_rest [OF f5(2) o4(1)]
  from vec_destroy_owned [OF o5(2) owns_head [OF o5(1)]] obtain m6 where
    f6: "jaeger_vector_destroy (sp_tags sp) m5 = Some (JAEGERTRACINGC_VECTOR_INIT, m6)" "mem_trans (set (vec_ptrs (sp_tags sp))) {} m5 m6" .
  note o6 = release_rest [OF f6(2) o5(1)]
  from vec_destroy_owned [OF o6(2) owns_head [OF o6(1)]] obtain m7 where
    f7: "jaeger_vector_destroy (sp_logs sp) m6 = Some (JAEGERTRACINGC_VECTOR_INIT, m7)" "mem_trans (set (vec_ptrs (sp_logs sp))) {} m6 m7" .
  note o7 = release_rest [OF f7(2) o6(1)]
  from vec_destroy_owned [OF o7(2,1)] obtain m8 where
    f8: "jaeger_vector_destroy (sp_refs sp) m7 = Some (JAEGERTRACINGC_VECTOR_INIT, m8)" "mem_trans (set (vec_ptrs (sp_refs sp))) {} m7 m8" .
  note r7 = release_append [OF f7(2) f8(2) o6]
  note r6 = release_append [OF f6(2) r7 o5]
  note r5 = release_append [OF f5(2) r6 o4]
  note r4 = release_append [OF f4(2) r5 o3]
  note r3 = release_append [OF f3(2) r4 o2]
  note r2 = release_append [OF f2(2) r3 o1]
  note r1 = release_append [OF f1(2) r2 o0 m]
  have "mem_trans (set (span_ptrs sp)) {} m m8"
    using r1 unfolding span_ptrs_def tag.list_ptrs_def logs.list_ptrs_def refs.list_ptrs_def .
  then show ?thesis
    using f1(1) f2(1) f3(1) f4(1) f5(1) f6(1) f7(1) f8(1) v(1-3,5)
    by (simp add: jaeger_span_destroy_def vec_for_each_destroy_ok)
qed

lemma init_vectors_good:
  assumes m: "mem_good m"
  obtains v1 v2 v3 m' where "jaeger_span_init_vectors sp m = Some (True, sp\<lparr>sp_tags := v1, sp_logs := v2, sp_refs := v3\<rparr>, m')"
    and "vec_ok v1" "vec_len v1 = 0" "vec_type_size v1 = SIZEOF_TAG" "vec_free v1 = replicate 10 TAG_ZERO"
    and "vec_ok v2" "vec_len v2 = 0" "vec_type_size v2 = SIZEOF_LOG_RECORD" "vec_free v2 = replicate 10 LOG_ZERO"
    and "vec_ok v3" "vec_len v3 = 0" "vec_type_size v3 = SIZEOF_SPAN_REF" "vec_free v3 = replicate 10 REF_ZERO"
    and "fresh_list (vec_ptrs v1 @ vec_ptrs v2 @ vec_ptrs v3) m m'"
proof -
  have mo: "mem_ok m" using m by (simp add: mem_good_def)
  have sz: "0 < SIZEOF_TAG" "SIZEOF_TAG * 10 \<le> INT_MAX" "0 < SIZEOF_LOG_RECORD" "SIZEOF_LOG_RECORD * 10 \<le> INT_MAX"
    "0 < SIZEOF_SPAN_REF" "SIZEOF_SPAN_REF * 10 \<le> INT_MAX"
    by (simp_all add: SIZEOF_TAG_def SIZEOF_LOG_RECORD_def SIZEOF_SPAN_REF_def INT_MAX_def)
  from vec_init_good [OF m sz(1,2), of TAG_ZERO "sp_tags sp"] obtain v1 m1 where
    a: "jaeger_vector_init TAG_ZERO SIZEOF_TAG (sp_tags sp) m = Some (True, v1, m1)" "vec_ok v1" "vec_len v1 = 0"
    "vec_type_size v1 = SIZEOF_TAG" "vec_free v1 = replicate 10 TAG_ZERO" "fresh_list (vec_ptrs v1) m m1" .
  have m1: "mem_good m1" "mem_ok m1" using mem_good_trans [OF m fresh_listD(4) [OF a(6)]] by (auto simp: mem_good_def)
  from vec_init_good [OF m1(1) sz(3,4), of LOG_ZERO "sp_logs sp"] obtain v2 m2 where
    b: "jaeger_vector_init LOG_ZERO SIZEOF_LOG_RECORD (sp_logs sp) m1 = Some (True, v2, m2)" "vec_ok v2" "vec_len v2 = 0"
    "vec_type_size v2 = SIZEOF_LOG_RECORD" "vec_free v2 = replicate 10 LOG_ZERO" "fresh_list (vec_ptrs v2) m1 m2" .
  have m2: "mem_good m2" "mem_ok m2" using mem_good_trans [OF m1(1) fresh_listD(4) [OF b(6)]] by (auto simp: mem_good_def)
  from vec_init_good [OF m2(1) sz(5,6), of REF_ZERO "sp_refs sp"] obtain v3 m3 where
    c: "jaeger_vector_init REF_ZERO SIZEOF_SPAN_REF (sp_refs sp) m2 = Some (True, v3, m3)" "vec_ok v3" "vec_len v3 = 0"
    "vec_type_size v3 = SIZEOF_SPAN_REF" "vec_free v3 = replicate 10 REF_ZERO" "fresh_list (vec_ptrs v3) m2 m3" .
  have fr: "fresh_list (vec_ptrs v1 @ vec_ptrs v2 @ vec_ptrs v3) m m3"
    by (rule fresh_list_append [OF a(6) fresh_list_append [OF b(6) c(6) m1(2)] mo])
  show thesis
    by (rule that [OF _ a(2-5) b(2-5) c(2-5) fr]) (simp add: jaeger_span_init_vectors_def a(1) b(1) c(1))
qed

lemma span_copy_spec:
  assumes m: "mem_good m" and s: "span_src_ok env src"
  shows "\<exists>dst m'. jaeger_span_copy env now src m = Some (True, dst, m') \<and> span_same src dst \<and> span_ok env dst \<and>
    fresh_list (span_ptrs dst) m m'"
proof -
  have mo: "mem_ok m" using m by (simp add: mem_good_def)
  obtain nm where nm: "sp_operation_name src = Some nm" using s by (auto simp: span_src_ok_def)
  from init_vectors_good [OF m, of JAEGERTRACINGC_SPAN_INIT] obtain v1 v2 v3 m1 where
    i: "jaeger_span_init_vectors JAEGERTRACINGC_SPAN_INIT m =
      Some (True, JAEGERTRACINGC_SPAN_INIT\<lparr>sp_tags := v1, sp_logs := v2, sp_refs := v3\<rparr>, m1)"
    and v1: "vec_ok v1" "vec_len v1 = 0" "vec_type_size v1 = SIZEOF_TAG" "vec_free v1 = replicate 10 TAG_ZERO"
    and v2: "vec_ok v2" "vec_len v2 = 0" "vec_type_size v2 = SIZEOF_LOG_RECORD" "vec_free v2 = replicate 10 LOG_ZERO"
    and v3: "vec_ok v3" "vec_len v3 = 0" "vec_type_size v3 = SIZEOF_SPAN_REF" "vec_free v3 = replicate 10 REF_ZERO"
    and f1: "fresh_list (vec_ptrs v1 @ vec_ptrs v2 @ vec_ptrs v3) m m1" .
  note g1 = mem_good_trans [OF m fresh_listD(4) [OF f1]]
  from strdup_good [of m1 "snd nm"] g1 obtain q m2 where
    n: "jaeger_strdup (Some (snd nm)) m1 = Some (Some q, m2)" "snd q = snd nm" "fresh_list [fst q] m1 m2"
    by (auto simp: mem_good_def)
  note f2 = fresh_list_append [OF f1 n(3) mo] and g2 = mem_good_trans [OF g1 fresh_listD(4) [OF n(3)]]
  from context_copy_spec [of env "sp_context src" m2] s g2 obtain c m3 where
    c: "jaeger_span_context_copy env (sp_context src) m2 = Some (True, c, m3)" "ctx_src_ok env c" "ctx_same (sp_context src) c"
    "fresh_list (ctx_ptrs c) m2 m3" by (auto simp: span_src_ok_def mem_good_def fresh_list_def)
  note f3 = fresh_list_append [OF f2 c(4) mo] and g3 = mem_good_trans [OF g2 fresh_listD(4) [OF c(4)]]
  have f3': "fresh_list (([fst q] @ ctx_ptrs c @ vec_ptrs v2 @ vec_ptrs v3) @ vec_ptrs v1) m m3"
    by (rule fresh_list_perm [OF f3]) simp
  have rm: "vec_room v1 (vec_len (sp_tags src))" "vec_room v2 (vec_len (sp_logs src))" "vec_room v3 (vec_len (sp_refs src))"
    using s v1(3) v2(3) v3(3)
    by (auto simp: vec_room_def span_src_ok_def SIZEOF_TAG_def SIZEOF_LOG_RECORD_def SIZEOF_SPAN_REF_def vec_ok_def)
  have sr: "vec_ok (sp_tags src)" "\<forall>t\<in>set (vec_list (sp_tags src)). tag_src_ok t" "vec_ok (sp_logs src)"
    "\<forall>l\<in>set (vec_list (sp_logs src)). log_src_ok l" "vec_ok (sp_refs src)" "\<forall>r\<in>set (vec_list (sp_refs src)). ref_src_ok env r"
    "unlocked src" using s by (auto simp: span_src_ok_def)
  have bl: "log_blank LOG_ZERO" by (simp add: log_blank_def LOG_ZERO_def JAEGERTRACINGC_VECTOR_INIT_def)
  have ow: "owns m' (ps @ qs) \<Longrightarrow> owns m' qs" for m' ps qs by (simp add: owns_append)
  have g: "mem_good m' \<Longrightarrow> mem_ok m'" "mem_good m' \<Longrightarrow> mem_plenty m'" for m' by (simp_all add: mem_good_def)
  from tag.vector_copy_plenty [OF v1(1,2,4) _ sr(1,2) g(1) [OF g3] ow [OF fresh_listD(2) [OF f3']] rm(1) g(2) [OF g3]]
  obtain t1 m4 where
    t: "jaeger_vector_copy TAG_ZERO v1 (sp_tags src) (\<lambda>old. jaeger_tag_copy (env_tag_init env)) m3 = Some (True, t1, m4)"
    "vec_ok t1" "list_all2 tag_same (vec_list (sp_tags src)) (vec_list t1)"
    "distinct (vec_ptrs t1 @ concat (map tag_ptrs (vec_list t1)))"
    "mem_trans (set (vec_ptrs v1)) (set (vec_ptrs t1 @ concat (map tag_ptrs (vec_list t1)))) m3 m4" by blast
  note f4 = fresh_list_replace [OF f3' t(5,4) mo] and g4 = mem_good_trans [OF g3 t(5)]
  have f4': "fresh_list (([fst q] @ ctx_ptrs c @ vec_ptrs v3 @ vec_ptrs t1 @ concat (map tag_ptrs (vec_list t1))) @ vec_ptrs v2) m m4"
    by (rule fresh_list_perm [OF f4]) simp
  from logs.vector_copy_plenty [OF v2(1,2,4) bl sr(3,4) g(1) [OF g4] ow [OF fresh_listD(2) [OF f4']] rm(2) g(2) [OF g4]]
  obtain l1 m5 where
    l: "jaeger_vector_copy LOG_ZERO v2 (sp_logs src) (jaeger_log_record_copy (env_tag_init env) now) m4 = Some (True, l1, m5)"
    "vec_ok l1" "list_all2 log_same (vec_list (sp_logs src)) (vec_list l1)" "\<forall>l\<in>set (vec_list l1). vec_ok (log_fields l)"
    "distinct (vec_ptrs l1 @ concat (map log_ptrs (vec_list l1)))"
    "mem_trans (set (vec_ptrs v2)) (set (vec_ptrs l1 @ concat (map log_ptrs (vec_list l1)))) m4 m5" by blast
  note f5 = fresh_list_replace [OF f4' l(6,5) mo] and g5 = mem_good_trans [OF g4 l(6)]
  have f5': "fresh_list (([fst q] @ ctx_ptrs c @ vec_ptrs t1 @ concat (map tag_ptrs (vec_list t1)) @ vec_ptrs l1 @
      concat (map log_ptrs (vec_list l1))) @ vec_ptrs v3) m m5" by (rule fresh_list_perm [OF f5]) simp
  from refs.vector_copy_plenty [OF v3(1,2,4) _ sr(5,6) g5 ow [OF fresh_listD(2) [OF f5']] rm(3) g(2) [OF g5]]
  obtain r1 m6 where
    r: "jaeger_vector_copy REF_ZERO v3 (sp_refs src) (jaeger_span_ref_copy env) m5 = Some (True, r1, m6)"
    "vec_ok r1" "list_all2 ref_same (vec_list (sp_refs src)) (vec_list r1)" "\<forall>r\<in>set (vec_list r1). ref_src_ok env r"
    "distinct (vec_ptrs r1 @ concat (map ref_ptrs (vec_list r1)))"
    "mem_trans (set (vec_ptrs v3)) (set (vec_ptrs r1 @ concat (map ref_ptrs (vec_list r1)))) m5 m6" by blast
  note f6 = fresh_list_replace [OF f5' r(6,5) mo]
  let ?d = "JAEGERTRACINGC_SPAN_INIT\<lparr>sp_tags := t1, sp_logs := l1, sp_refs := r1, sp_locked := False, sp_context := c,
    sp_operation_name := Some q, sp_start_time_system := sp_start_time_system src,
    sp_start_time_steady := sp_start_time_steady src, sp_duration := sp_duration src\<rparr>"
  have "jaeger_span_copy env now src m = Some (True, ?d, m6)"
    using i n(1) c(1) t(1) l(1) r(1) nm sr(7)
    by (simp add: jaeger_span_copy_def span_copy_body_def JAEGERTRACINGC_SPAN_INIT_def unlocked_def)
  moreover have "span_same src ?d" using c(3) n(2) nm t(3) l(3) r(3) by (simp add: span_same_def)
  moreover have "span_ok env ?d" using c(2) t(2) l(2,4) r(2,4)
    by (simp add: span_ok_def unlocked_def ctx_src_ok_def ctx_ok_def)
  moreover have "fresh_list (span_ptrs ?d) m m6" by (rule fresh_list_perm [OF f6]) (simp add: span_ptrs_def)
  ultimately show ?thesis by blast
qed

end

section \<open>Properties\<close>

definition span_one :: jaeger_span where
  "span_one = JAEGERTRACINGC_SPAN_INIT\<lparr>sp_context := ctx_one, sp_operation_name := Some (0, ''op''),
     sp_tags := \<lparr>vec_len = 0, vec_capacity = 1, vec_data = Some (0, [TAG_ZERO]), vec_type_size = SIZEOF_TAG\<rparr>,
     sp_logs := \<lparr>vec_len = 0, vec_capacity = 1, vec_data = Some (0, [LOG_ZERO]), vec_type_size = SIZEOF_LOG_RECORD\<rparr>,
     sp_refs := \<lparr>vec_len = 0, vec_capacity = 1, vec_data = Some (0, [REF_ZERO]), vec_type_size = SIZEOF_SPAN_REF\<rparr>\<rparr>"

lemma span_one_ok: "span_src_ok env_one span_one" "unlocked span_one" "vec_ok (sp_tags span_one)" "vec_ptrs (sp_tags span_one) = [0]"
  "vec_list (sp_tags span_one) = []" "sp_context span_one = ctx_one" "jaeger_span_is_sampled_no_locking span_one"
  "vec_room (sp_tags span_one) (vec_capacity (sp_tags span_one) + 1)" "sp_operation_name span_one = Some (0, ''op'')"
  by (auto simp: span_one_def span_src_ok_def unlocked_def JAEGERTRACINGC_SPAN_INIT_def vec_ok_def vec_list_def vec_ptrs_def
      SIZEOF_TAG_def SIZEOF_LOG_RECORD_def SIZEOF_SPAN_REF_def INT_MAX_def
      jaeger_span_is_sampled_no_locking_def jaeger_sampling_flag_sampled_def vec_room_def)

text \<open>
  C4: \<open>jaeger_span_to_protobuf\<close> builds a complete message.  If its first two requests for memory are
  served, it returns for every pattern of later failures: on success the message has the span's IDs and
  name and a faithful copy of every tag, log record and reference, and owns exactly the new blocks; on
  failure, which happens only if an allocation fails, it is empty and nothing stays allocated.  If one of
  the first two requests fails, the cleanup unlocks mutexes that are not held and there is no result.
\<close>

theorem span_to_protobuf_complete:
  assumes "tag_blank (env_tag_init env)" and "mem_ok m" and "span_src_ok env sp"
  shows "if mem_oracle m (mem_next m) \<and> mem_oracle m (Suc (mem_next m))
    then \<exists>ok d m'. jaeger_span_to_protobuf env sp m = Some (ok, d, m') \<and>
      (if ok then pb_span_same sp d \<and> distinct (pb_span_ptrs d) \<and> mem_trans {} (set (pb_span_ptrs d)) m m'
       else d = PB_SPAN_INIT \<and> mem_trans {} {} m m' \<and> \<not> mem_plenty m)
    else jaeger_span_to_protobuf env sp m = None"
  using span_env.to_protobuf_spec [of env m sp] assms unfolding span_env_def by (smt (verit))

theorem span_to_protobuf_complete_witness:
  "\<exists>d m'. jaeger_span_to_protobuf env_one span_one mem_one = Some (True, d, m') \<and> pb_span_same span_one d"
proof -
  have "tag_blank (env_tag_init env_one)" by (simp add: env_one_def tag_blank_def TAG_ZERO_def)
  from span_to_protobuf_complete [OF this mem_one_simps(1) span_one_ok(1)] show ?thesis
    by (auto simp: mem_plenty_def split: if_splits)
qed

text \<open>
  C17: \<open>jaeger_span_copy\<close> makes a deep copy.  With memory to spare it returns true; the copy has the same
  identity, flags, baggage, name, times, tags, log records and references, is well-formed and unlocked,
  and owns exactly the new blocks, each once.
\<close>

theorem span_copy_deep:
  assumes "tag_blank (env_tag_init env)" and "mem_ok m" and "mem_plenty m" and "span_src_ok env src"
  shows "\<exists>dst m'. jaeger_span_copy env now src m = Some (True, dst, m') \<and> span_same src dst \<and> span_ok env dst \<and>
    distinct (span_ptrs dst) \<and> mem_trans {} (set (span_ptrs dst)) m m'"
  using span_env.span_copy_spec [of env m src now] assms unfolding span_env_def mem_good_def fresh_list_def by blast

theorem span_copy_deep_witness:
  "\<exists>dst m'. jaeger_span_copy env_one TIME_ZERO span_one mem_one = Some (True, dst, m') \<and> span_same span_one dst"
proof -
  have "tag_blank (env_tag_init env_one)" by (simp add: env_one_def tag_blank_def TAG_ZERO_def)
  from span_copy_deep [OF this mem_one_simps(1) _ span_one_ok(1), of TIME_ZERO] show ?thesis by (auto simp: mem_plenty_def)
qed

text \<open>
  Baggage set on a span can be read back.  After \<open>jaeger_span_set_baggage_item\<close> the span is unlocked
  and differs in its baggage only; \<open>jaeger_span_baggage_item\<close> then gives the new value for the key, with
  memory to spare, and the old value for every other key.  A failed insertion changes no value and is
  not reported.
\<close>

theorem baggage_item_after_set:
  assumes "unlocked sp" and "ht_ok (env_seed env) (ctx_baggage (sp_context sp))" and "mem_ok m"
    and "owns m (ht_ptrs (ctx_baggage (sp_context sp)))" and "ht_size (ctx_baggage (sp_context sp)) < 2 ^ 30"
  shows "\<exists>sp' m' ok. jaeger_span_set_baggage_item env sp k v m = Some (sp', m') \<and> unlocked sp' \<and>
    sp'\<lparr>sp_context := (sp_context sp')\<lparr>ctx_baggage := ctx_baggage (sp_context sp)\<rparr>\<rparr> = sp \<and> (mem_plenty m \<longrightarrow> ok) \<and>
    (\<forall>j. jaeger_span_baggage_item env sp' j =
      Some (if ok then ((ht_map (ctx_baggage (sp_context sp)))(k \<mapsto> v)) j else ht_map (ctx_baggage (sp_context sp)) j, sp'))"
proof -
  let ?b = "ctx_baggage (sp_context sp)"
  from htm.put_law [OF assms(2-5), of k v] obtain ok b' m' where
    p: "jaeger_hashtable_put (env_seed env) ?b k v m = Some (ok, b', m')" "ht_ok (env_seed env) b'"
    "ht_map b' = (if ok then (ht_map ?b)(k \<mapsto> v) else ht_map ?b)" "mem_plenty m \<longrightarrow> ok" by blast
  let ?sp = "sp\<lparr>sp_context := (sp_context sp)\<lparr>ctx_baggage := b'\<rparr>\<rparr>"
  have u: "unlocked ?sp" using assms(1) by (simp add: unlocked_def)
  have l: "(both_locked sp)\<lparr>sp_context := (sp_context (both_locked sp))\<lparr>ctx_baggage := b'\<rparr>\<rparr> = both_locked ?sp"
    by (simp add: both_locked_def)
  have set: "jaeger_span_set_baggage_item env sp k v m = Some (?sp, m')"
    using p(1) by (simp add: jaeger_span_set_baggage_item_def span_lock_both_free [OF assms(1)] l span_unlock_both_held [OF u])
  have get: "jaeger_span_baggage_item env ?sp j = Some (ht_map b' j, ?sp)" for j
  proof -
    from find_spec [OF p(2), of j] obtain r where r: "jaeger_hashtable_find (env_seed env) b' j = Some r"
      "map_option kv_string r = ht_map b' j" by blast
    have v: "kv_value kv \<noteq> None" if "r = Some kv" for kv using find_has_value [OF p(2)] r(1) that by blast
    have "(case r of None \<Rightarrow> None | Some kv \<Rightarrow> map_option snd (kv_value kv)) = ht_map b' j"
      using r(2) v by (cases r) (auto simp: kv_string_def)
    with r(1) show ?thesis
      by (simp add: jaeger_span_baggage_item_def span_lock_both_free [OF u] span_unlock_both_held [OF u])
  qed
  from set get u p(3,4) show ?thesis
    by (intro exI [of _ ?sp] exI [of _ m'] exI [of _ ok]) auto
qed

theorem baggage_item_after_set_witness:
  "\<exists>sp' m'. jaeger_span_set_baggage_item env_one span_one ''k'' ''v'' mem_one = Some (sp', m') \<and>
    jaeger_span_baggage_item env_one sp' ''k'' = Some (Some ''v'', sp')"
  using baggage_item_after_set [of span_one env_one mem_one "''k''" "''v''"] span_one_ok
  by (fastforce simp: mem_plenty_def)

text \<open>
  The sampling priority sets the flags.  An integer priority other than zero turns the sampled and the
  debug bit on, zero turns the sampled bit off; all other bits, and the rest of the span, keep their
  value, and a priority that is not an integer changes nothing.  The result and \<open>jaeger_span_is_sampled\<close>
  say whether the span is sampled now.
\<close>

theorem sampling_priority_flags:
  assumes "unlocked sp"
  shows "\<exists>sp'. jaeger_span_set_sampling_priority sp value =
      Some (case value of OTV_int64 i \<Rightarrow> i \<noteq> 0 | OTV_uint64 u \<Rightarrow> u \<noteq> 0 | _ \<Rightarrow> False, sp') \<and>
    sp'\<lparr>sp_context := (sp_context sp')\<lparr>ctx_flags := ctx_flags (sp_context sp)\<rparr>\<rparr> = sp \<and>
    jaeger_span_is_sampled sp' = Some (case value of OTV_int64 i \<Rightarrow> i \<noteq> 0 | OTV_uint64 u \<Rightarrow> u \<noteq> 0
      | _ \<Rightarrow> jaeger_span_is_sampled_no_locking sp, sp') \<and>
    (\<forall>n. bit (ctx_flags (sp_context sp')) n = (case value of
        OTV_int64 i \<Rightarrow> if n = 0 then i \<noteq> 0 else n = 1 \<and> i \<noteq> 0 \<or> bit (ctx_flags (sp_context sp)) n
      | OTV_uint64 u \<Rightarrow> if n = 0 then u \<noteq> 0 else n = 1 \<and> u \<noteq> 0 \<or> bit (ctx_flags (sp_context sp)) n
      | _ \<Rightarrow> bit (ctx_flags (sp_context sp)) n))"
proof -
  define on where "on = (ctx_flags (sp_context sp) OR jaeger_sampling_flag_debug) OR jaeger_sampling_flag_sampled"
  define off where "off = ctx_flags (sp_context sp) AND NOT jaeger_sampling_flag_sampled"
  have bits: "bit on n = (n = 0 \<or> n = 1 \<or> bit (ctx_flags (sp_context sp)) n)" "bit off n = (n \<noteq> 0 \<and> bit (ctx_flags (sp_context sp)) n)" for n
    by (auto simp: on_def off_def jaeger_sampling_flag_debug_def jaeger_sampling_flag_sampled_def bit_simps bit_imp_le_length
        dest: bit_imp_le_length)
  have smp: "jaeger_span_is_sampled s = Some (bit (ctx_flags (sp_context s)) 0, s)" if "unlocked s" for s
    using that by (simp add: jaeger_span_is_sampled_def span_lock_both_free span_unlock_both_held
        jaeger_span_is_sampled_no_locking_def jaeger_sampling_flag_sampled_def and_one_eq odd_iff_mod_2_eq_one bit_0)
  let ?w = "\<lambda>f. sp\<lparr>sp_context := (sp_context sp)\<lparr>ctx_flags := f\<rparr>\<rparr>"
  have set: "jaeger_span_set_sampling_priority sp value = Some (p, ?w (if p then on else off))"
    if "(case value of OTV_int64 i \<Rightarrow> Some (i \<noteq> 0) | OTV_uint64 u \<Rightarrow> Some (u \<noteq> 0) | _ \<Rightarrow> None) = Some p" for p
    using assms that
    by (auto simp: jaeger_span_set_sampling_priority_def span_lock_both_def span_unlock_both_def unlocked_def on_def off_def Let_def)
  have u: "unlocked (?w f)" for f using assms by (simp add: unlocked_def)
  show ?thesis
  proof (cases "value")
    case (OTV_int64 i)
    with set [of "i \<noteq> 0"] show ?thesis
      by (intro exI [of _ "?w (if i \<noteq> 0 then on else off)"]) (auto simp: smp u bits)
  next
    case (OTV_uint64 i)
    with set [of "i \<noteq> 0"] show ?thesis
      by (intro exI [of _ "?w (if i \<noteq> 0 then on else off)"]) (auto simp: smp u bits)
  qed (use assms in \<open>auto simp: jaeger_span_set_sampling_priority_def smp jaeger_span_is_sampled_no_locking_def
      jaeger_sampling_flag_sampled_def and_one_eq odd_iff_mod_2_eq_one bit_0\<close>)
qed

theorem sampling_priority_flags_witness:
  "\<exists>sp'. jaeger_span_set_sampling_priority span_one (OTV_int64 0) = Some (False, sp') \<and>
    jaeger_span_is_sampled sp' = Some (False, sp')"
  using sampling_priority_flags [OF span_one_ok(2), of "OTV_int64 0"] by auto

text \<open>
  Tags are recorded on sampled spans only.  \<open>jaeger_span_set_tag\<close> with a key other than the sampling
  priority changes nothing but the tags, and nothing at all on a span that is not sampled; on a sampled
  span it appends one tag with the key and the value, always so with memory to spare and a value of a
  known type, and otherwise leaves the tags as they are.
\<close>

theorem set_tag_on_sampled_span:
  assumes "tag_blank (env_tag_init env)" and "unlocked sp" and "vec_ok (sp_tags sp)" and "mem_ok m"
    and "set (vec_ptrs (sp_tags sp)) \<subseteq> dom (mem_blocks m)" and "vec_room (sp_tags sp) (vec_capacity (sp_tags sp) + 1)"
    and "key \<noteq> JAEGERTRACINGC_SAMPLING_PRIORITY"
  shows "\<exists>tags m' added. jaeger_span_set_tag env sp key value m = Some (sp\<lparr>sp_tags := tags\<rparr>, m') \<and> vec_ok tags \<and>
    vec_list tags = vec_list (sp_tags sp) @ added \<and>
    (added = [] \<or> (\<exists>src t. added = [t] \<and> tag_of (env_tag_init env) key value = Some src \<and> tag_same src t)) \<and>
    (jaeger_span_is_sampled_no_locking sp \<and> mem_plenty m \<and> value \<noteq> OTV_invalid \<longrightarrow> added \<noteq> []) \<and>
    (\<not> jaeger_span_is_sampled_no_locking sp \<longrightarrow> tags = sp_tags sp \<and> m' = m)"
proof (cases "jaeger_span_is_sampled_no_locking sp")
  case False
  with assms(2,3,7) show ?thesis
    by (intro exI [of _ "sp_tags sp"] exI [of _ m] exI [of _ "[]"])
      (simp add: jaeger_span_set_tag_def unlocked_def jaeger_span_is_sampled_no_locking_def)
next
  case True
  from vec_append_total [OF assms(3-6), of TAG_ZERO] obtain r v m1 where
    a: "jaeger_vector_append TAG_ZERO (sp_tags sp) m = Some (r, v, m1)" by blast
  note as = vec_append_spec [OF a assms(3,4)]
  have mt: "mem_trans (set (vec_ptrs (sp_tags sp))) (set (vec_ptrs v)) m m1" by (rule as(4) [OF assms(5)])
  let ?L = "sp\<lparr>sp_locked := True\<rparr>"
  have run: "jaeger_span_set_tag env sp key value m = (do {
      (sp, m) \<leftarrow> jaeger_span_set_tag_no_locking env ?L (Some key) value m; sp \<leftarrow> span_unlock sp; Some (sp, m) })"
    using True assms(2,7) by (simp add: jaeger_span_set_tag_def unlocked_def jaeger_span_is_sampled_no_locking_def)
  show ?thesis
  proof (cases r)
    case None
    with as(1) a run True assms(2,3) vec_append_plenty [OF a assms(3,4)] show ?thesis
      by (intro exI [of _ "sp_tags sp"] exI [of _ m1] exI [of _ "[]"]) (auto simp: jaeger_span_set_tag_no_locking_def unlocked_def)
  next
    case (Some k)
    from tag_initialiser.tag_from_key_value_spec [OF tag_initialiserI [OF assms(1)] mem_trans_ok [OF mt], of key "value"]
    obtain ok t m2 where t: "jaeger_tag_from_key_value (env_tag_init env) (Some key) value m1 = Some (ok, t, m2)"
      "ok \<longrightarrow> (\<exists>src x. tag_of (env_tag_init env) key value = Some src \<and> t = Some x \<and> tag_same src x)"
      "mem_plenty m1 \<and> value \<noteq> OTV_invalid \<longrightarrow> ok" by blast
    note pl = mem_plenty_trans [OF mt]
    obtain w where w: "(case t of None \<Rightarrow> Some v | Some x \<Rightarrow> vec_write v r x) = Some w"
      "w = v \<or> (\<exists>x. vec_write v r x = Some w)" "\<forall>x. t = Some x \<longrightarrow> vec_ok w \<and> vec_list w = vec_list (sp_tags sp) @ [x]"
      using as(3) Some by (cases t) (fastforce+)
    have gb: "vec_ok (w\<lparr>vec_len := vec_len w - 1\<rparr>)" "vec_list (w\<lparr>vec_len := vec_len w - 1\<rparr>) = vec_list (sp_tags sp)"
      using vec_append_giveback [OF a assms(3,4)] w(2) Some by blast+
    let ?w = "if ok then w else w\<lparr>vec_len := vec_len w - 1\<rparr>"
    have "jaeger_span_set_tag_no_locking env ?L (Some key) value m = Some (?L\<lparr>sp_tags := ?w\<rparr>, m2)"
      using a t(1) w(1) [unfolded Some] Some by (simp add: jaeger_span_set_tag_no_locking_def)
    then have res: "jaeger_span_set_tag env sp key value m = Some (sp\<lparr>sp_tags := ?w\<rparr>, m2)"
      using run assms(2) by (simp add: unlocked_def)
    show ?thesis
    proof (cases ok)
      case False
      with res gb t(3) pl True show ?thesis
        by (intro exI [of _ ?w] exI [of _ m2] exI [of _ "[]"]) auto
    next
      case ok: True
      with t(2) obtain src x where x: "tag_of (env_tag_init env) key value = Some src" "t = Some x" "tag_same src x" by blast
      with res ok w(3) True show ?thesis by (intro exI [of _ ?w] exI [of _ m2] exI [of _ "[x]"]) simp
    qed
  qed
qed

theorem set_tag_on_sampled_span_witness:
  "\<exists>tags m' t. jaeger_span_set_tag env_one span_one ''k'' (OTV_bool True) mem_one = Some (span_one\<lparr>sp_tags := tags\<rparr>, m') \<and>
    vec_list tags = [t] \<and> tag_v_bool t"
proof -
  have "tag_blank (env_tag_init env_one)" "''k'' \<noteq> JAEGERTRACINGC_SAMPLING_PRIORITY"
    "set (vec_ptrs (sp_tags span_one)) \<subseteq> dom (mem_blocks mem_one)"
    by (simp_all add: tag_blank_def TAG_ZERO_def JAEGERTRACINGC_SAMPLING_PRIORITY_def span_one_ok(4))
  from set_tag_on_sampled_span [OF this(1) span_one_ok(2,3) mem_one_simps(1) this(3) span_one_ok(8) this(2), of "OTV_bool True"]
  show ?thesis by (auto simp: span_one_ok(5,7) mem_plenty_def tag_of_def tag_same_def Let_def)
qed

text \<open>
  Finishing a span measures its duration and reports it once.  \<open>jaeger_span_finish\<close> hands an unlocked
  span to the tracer exactly once: a span that is not sampled unchanged, a sampled one with the exact
  difference of the steady clock to its start.  If the clock reads less than the start, the assertion in
  the code ends the program.
\<close>

theorem finish_reports_duration:
  assumes "\<not> sp_locked sp" and "time_norm steady" and "time_norm (sp_start_time_steady sp)"
    and "sec_ok steady" and "sec_ok (sp_start_time_steady sp)"
  shows "if \<not> jaeger_span_is_sampled_no_locking sp then jaeger_span_finish report env now steady sp w m = report sp w m
    else if time_ns steady < time_ns (sp_start_time_steady sp) then jaeger_span_finish report env now steady sp w m = None
    else \<exists>d. time_ns d = time_ns steady - time_ns (sp_start_time_steady sp) \<and> time_norm d \<and>
      jaeger_span_finish report env now steady sp w m = report (sp\<lparr>sp_duration := d\<rparr>) w m"
proof -
  from time_subtract_norm [OF assms(2,3,4,5)] obtain d where
    d: "jaeger_time_subtract steady (sp_start_time_steady sp) = Some (time_ns (sp_start_time_steady sp) \<le> time_ns steady, d)"
    "time_norm d" "time_ns d = time_ns steady - time_ns (sp_start_time_steady sp)" .
  show ?thesis
    using assms(1) d
    by (auto simp: jaeger_span_finish_def jaeger_span_finish_with_options_def finish_sampled_def
        JAEGERTRACINGC_FINISH_SPAN_OPTIONS_INIT_def TIME_ZERO_def jaeger_span_is_sampled_no_locking_def Let_def)
qed

theorem finish_reports_duration_witness:
  "\<exists>d. time_ns d = 5000000000 \<and>
    jaeger_span_finish (\<lambda>sp w m. Some (sp, sp # w, m)) env_one TIME_ZERO \<lparr>tv_sec = 5, tv_nsec = 0\<rparr> span_one [] mem_one =
      Some (span_one\<lparr>sp_duration := d\<rparr>, [span_one\<lparr>sp_duration := d\<rparr>], mem_one)"
proof -
  have s: "\<not> sp_locked span_one" "sp_start_time_steady span_one = TIME_ZERO"
    by (simp_all add: span_one_def JAEGERTRACINGC_SPAN_INIT_def)
  have "time_norm \<lparr>tv_sec = 5, tv_nsec = 0\<rparr>" "time_norm TIME_ZERO" "sec_ok \<lparr>tv_sec = 5, tv_nsec = 0\<rparr>" "sec_ok TIME_ZERO"
    "time_ns TIME_ZERO = 0" "time_ns \<lparr>tv_sec = 5, tv_nsec = 0\<rparr> = 5000000000"
    by (simp_all add: TIME_ZERO_def time_norm_def sec_ok_def time_ns_def JAEGERTRACINGC_NANOSECONDS_PER_SECOND_def)
  with finish_reports_duration [of span_one "\<lparr>tv_sec = 5, tv_nsec = 0\<rparr>" "\<lambda>sp w m. Some (sp, sp # w, m)" env_one TIME_ZERO "[]" mem_one]
  show ?thesis by (auto simp: s span_one_ok(7))
qed

end
