(* ===== verification/Metrics.thy ===== *)
theory Metrics
  imports Ownership
begin

text \<open>
  Metrics: \<open>src/jaegertracingc/metrics.c\<close>, \<open>metrics.h\<close>.

  A metrics container has one counter per name and one gauge, each a NULL pointer, the shared null
  object or a default object in a block of its own.  \<open>int64_t\<close> totals wrap, as the atomic addition does.
  The functions follow the build with atomics.
\<close>

datatype counter_name =
    traces_started_sampled | traces_started_not_sampled | traces_joined_sampled | traces_joined_not_sampled
  | spans_started | spans_finished | spans_sampled | spans_not_sampled | decoding_errors
  | reporter_success | reporter_failure | reporter_dropped
  | sampler_retrieved | sampler_updated | sampler_update_failure | sampler_query_failure
  | baggage_update_success | baggage_update_failure | baggage_truncate
  | baggage_restrictions_update_success | baggage_restrictions_update_failure

definition METRICS_COUNTERS :: "counter_name list" where
  "METRICS_COUNTERS =
     [traces_started_sampled, traces_started_not_sampled, traces_joined_sampled, traces_joined_not_sampled,
      spans_started, spans_finished, spans_sampled, spans_not_sampled, decoding_errors,
      reporter_success, reporter_failure, reporter_dropped,
      sampler_retrieved, sampler_updated, sampler_update_failure, sampler_query_failure,
      baggage_update_success, baggage_update_failure, baggage_truncate,
      baggage_restrictions_update_success, baggage_restrictions_update_failure]"

datatype jaeger_counter = Null_counter | Default_counter ptr int

datatype jaeger_gauge = Null_gauge | Default_gauge ptr int

record jaeger_metrics =
  mt_counters :: "counter_name \<Rightarrow> jaeger_counter option"
  reporter_queue_length :: "jaeger_gauge option"

definition wrap_int64 :: "int \<Rightarrow> int" where
  "wrap_int64 i = sint (of_int i :: 64 word)"

definition jaeger_default_counter_inc :: "int \<Rightarrow> int \<Rightarrow> int" where
  "jaeger_default_counter_inc tot delta = wrap_int64 (tot + delta)"

definition jaeger_default_counter_init :: "ptr \<Rightarrow> jaeger_counter" where
  [simp]: "jaeger_default_counter_init p = Default_counter p 0"

definition null_counter_inc :: "jaeger_counter \<Rightarrow> int \<Rightarrow> jaeger_counter" where
  [simp]: "null_counter_inc counter delta = counter"

definition jaeger_null_counter :: jaeger_counter where
  [simp]: "jaeger_null_counter = Null_counter"

text \<open>The call through the function pointer \<open>inc\<close>.\<close>

definition counter_inc :: "jaeger_counter \<Rightarrow> int \<Rightarrow> jaeger_counter" where
  "counter_inc counter delta =
     (case counter of
        Null_counter \<Rightarrow> null_counter_inc counter delta
      | Default_counter p tot \<Rightarrow> Default_counter p (jaeger_default_counter_inc tot delta))"

definition jaeger_default_gauge_update :: "int \<Rightarrow> int \<Rightarrow> int" where
  [simp]: "jaeger_default_gauge_update old amount = amount"

definition jaeger_default_gauge_init :: "ptr \<Rightarrow> jaeger_gauge" where
  [simp]: "jaeger_default_gauge_init p = Default_gauge p 0"

definition null_gauge_update :: "jaeger_gauge \<Rightarrow> int \<Rightarrow> jaeger_gauge" where
  [simp]: "null_gauge_update gauge amount = gauge"

definition jaeger_null_gauge :: jaeger_gauge where
  [simp]: "jaeger_null_gauge = Null_gauge"

definition gauge_update :: "jaeger_gauge \<Rightarrow> int \<Rightarrow> jaeger_gauge" where
  "gauge_update gauge amount =
     (case gauge of
        Null_gauge \<Rightarrow> null_gauge_update gauge amount
      | Default_gauge p old \<Rightarrow> Default_gauge p (jaeger_default_gauge_update old amount))"

definition jaeger_null_metrics :: jaeger_metrics where
  "jaeger_null_metrics = \<lparr>mt_counters = (\<lambda>_. Some jaeger_null_counter), reporter_queue_length = Some jaeger_null_gauge\<rparr>"

text \<open>\<open>metrics->member->inc(metrics->member, delta)\<close> and the gauge's \<open>update\<close>; a NULL member crashes.\<close>

definition metrics_inc :: "counter_name \<Rightarrow> int \<Rightarrow> jaeger_metrics \<Rightarrow> jaeger_metrics option" where
  "metrics_inc name delta metrics = do {
     counter \<leftarrow> mt_counters metrics name;
     Some (metrics\<lparr>mt_counters := (mt_counters metrics)(name := Some (counter_inc counter delta))\<rparr>)
   }"

definition metrics_queue_length :: "int \<Rightarrow> jaeger_metrics \<Rightarrow> jaeger_metrics option" where
  "metrics_queue_length amount metrics = do {
     gauge \<leftarrow> reporter_queue_length metrics;
     Some (metrics\<lparr>reporter_queue_length := Some (gauge_update gauge amount)\<rparr>)
   }"

text \<open>Freeing the shared null object is no heap block's release.\<close>

fun counters_destroy :: "counter_name list \<Rightarrow> jaeger_metrics \<Rightarrow> mem \<Rightarrow> (jaeger_metrics \<times> mem) option" where
  "counters_destroy [] metrics m = Some (metrics, m)"
| "counters_destroy (name # rest) metrics m =
     (case mt_counters metrics name of
        None \<Rightarrow> counters_destroy rest metrics m
      | Some Null_counter \<Rightarrow> None
      | Some (Default_counter p tot) \<Rightarrow> do {
          m \<leftarrow> jaeger_free (Some p) m;
          counters_destroy rest (metrics\<lparr>mt_counters := (mt_counters metrics)(name := None)\<rparr>) m
        })"

definition jaeger_metrics_destroy :: "jaeger_metrics \<Rightarrow> mem \<Rightarrow> (jaeger_metrics \<times> mem) option" where
  "jaeger_metrics_destroy metrics m = do {
     (metrics, m) \<leftarrow> counters_destroy METRICS_COUNTERS metrics m;
     case reporter_queue_length metrics of
       None \<Rightarrow> Some (metrics, m)
     | Some Null_gauge \<Rightarrow> None
     | Some (Default_gauge p amount) \<Rightarrow> do {
         m \<leftarrow> jaeger_free (Some p) m;
         Some (metrics\<lparr>reporter_queue_length := None\<rparr>, m)
       }
   }"

definition SIZEOF_DEFAULT_COUNTER :: nat where
  "SIZEOF_DEFAULT_COUNTER = 24"

fun counters_init :: "counter_name list \<Rightarrow> bool \<Rightarrow> jaeger_metrics \<Rightarrow> mem \<Rightarrow> bool \<times> jaeger_metrics \<times> mem" where
  "counters_init [] success metrics m = (success, metrics, m)"
| "counters_init (name # rest) success metrics m =
     (if success then
        (case jaeger_malloc SIZEOF_DEFAULT_COUNTER m of
           (None, m) \<Rightarrow> counters_init rest False metrics m
         | (Some p, m) \<Rightarrow>
             counters_init rest True (metrics\<lparr>mt_counters := (mt_counters metrics)(name := Some (jaeger_default_counter_init p))\<rparr>) m)
      else counters_init rest success metrics m)"

definition jaeger_default_metrics_init :: "mem \<Rightarrow> (bool \<times> jaeger_metrics \<times> mem) option" where
  "jaeger_default_metrics_init m =
     (let metrics = \<lparr>mt_counters = (\<lambda>_. None), reporter_queue_length = None\<rparr>;
          (success, metrics, m) = counters_init METRICS_COUNTERS True metrics m;
          (success, metrics, m) =
            (if success then
               (case jaeger_malloc SIZEOF_DEFAULT_COUNTER m of
                  (None, m) \<Rightarrow> (False, metrics, m)
                | (Some p, m) \<Rightarrow> (True, metrics\<lparr>reporter_queue_length := Some (jaeger_default_gauge_init p)\<rparr>, m))
             else (success, metrics, m))
      in if success then Some (True, metrics, m)
         else do {
           (metrics, m) \<leftarrow> jaeger_metrics_destroy metrics m;
           Some (False, metrics, m)
         })"

section \<open>Ownership\<close>

definition counter_ptrs :: "jaeger_counter option \<Rightarrow> ptr list" where
  "counter_ptrs c = (case c of Some (Default_counter p _) \<Rightarrow> [p] | _ \<Rightarrow> [])"

definition gauge_ptrs :: "jaeger_gauge option \<Rightarrow> ptr list" where
  "gauge_ptrs g = (case g of Some (Default_gauge p _) \<Rightarrow> [p] | _ \<Rightarrow> [])"

definition counters_ptrs :: "counter_name list \<Rightarrow> jaeger_metrics \<Rightarrow> ptr list" where
  "counters_ptrs names metrics = concat (map (\<lambda>n. counter_ptrs (mt_counters metrics n)) names)"

definition metrics_ptrs :: "jaeger_metrics \<Rightarrow> ptr list" where
  "metrics_ptrs metrics = counters_ptrs METRICS_COUNTERS metrics @ gauge_ptrs (reporter_queue_length metrics)"

text \<open>No member is the shared null object, so the container can be destroyed.\<close>

definition metrics_own :: "jaeger_metrics \<Rightarrow> bool" where
  "metrics_own metrics \<longleftrightarrow> (\<forall>n\<in>set METRICS_COUNTERS. mt_counters metrics n \<noteq> Some Null_counter) \<and>
     reporter_queue_length metrics \<noteq> Some Null_gauge"

lemma all_counters: "n \<in> set METRICS_COUNTERS"
  by (cases n) (simp_all add: METRICS_COUNTERS_def)

lemma distinct_counters: "distinct METRICS_COUNTERS"
  by (simp add: METRICS_COUNTERS_def)

lemma counters_ptrs_simps [simp]:
  "counters_ptrs [] metrics = []"
  "counters_ptrs (n # ns) metrics = counter_ptrs (mt_counters metrics n) @ counters_ptrs ns metrics"
  by (simp_all add: counters_ptrs_def)

lemma counters_ptrs_update [simp]:
  "n \<notin> set ns \<Longrightarrow> counters_ptrs ns (metrics\<lparr>mt_counters := (mt_counters metrics)(n := c)\<rparr>) = counters_ptrs ns metrics"
  by (induction ns) auto

lemma counters_destroy_spec:
  assumes "mem_ok m" and "owns m (counters_ptrs ns metrics @ qs)" and "distinct ns" and "\<forall>n\<in>set ns. mt_counters metrics n \<noteq> Some Null_counter"
  shows "\<exists>metrics' m'. counters_destroy ns metrics m = Some (metrics', m') \<and> mem_trans (set (counters_ptrs ns metrics)) {} m m' \<and>
    reporter_queue_length metrics' = reporter_queue_length metrics \<and> (\<forall>n\<in>set ns. mt_counters metrics' n = None) \<and>
    (\<forall>n. n \<notin> set ns \<longrightarrow> mt_counters metrics' n = mt_counters metrics n)"
  using assms
proof (induction ns arbitrary: metrics m)
  case (Cons n ns)
  show ?case
  proof (cases "mt_counters metrics n")
    case None
    with Cons.prems Cons.IH [of m metrics] show ?thesis by (force simp: counter_ptrs_def)
  next
    case (Some c)
    with Cons.prems(4) obtain p t where c: "mt_counters metrics n = Some (Default_counter p t)" by (cases c) auto
    let ?M = "metrics\<lparr>mt_counters := (mt_counters metrics)(n := None)\<rparr>"
    have o: "owns m ([p] @ counters_ptrs ns metrics @ qs)" "n \<notin> set ns" using Cons.prems(2,3) c by (auto simp: counter_ptrs_def)
    then have "p \<in> dom (mem_blocks m)" by (simp add: own_simps)
    from jaeger_free_live [OF Cons.prems(1) this] obtain m1 where
      f: "jaeger_free (Some p) m = Some m1" "mem_trans (set [p]) {} m m1" by auto
    note o1 = release_rest [OF f(2) o(1)]
    have nn: "\<forall>k\<in>set ns. mt_counters ?M k \<noteq> Some Null_counter" using Cons.prems(4) by auto
    have on: "owns m1 (counters_ptrs ns ?M @ qs)" using o1(1) o(2) by simp
    from Cons.IH [OF o1(2) on _ nn] o(2) Cons.prems(3) obtain M' m' where
      ih: "counters_destroy ns ?M m1 = Some (M', m')" "mem_trans (set (counters_ptrs ns metrics)) {} m1 m'"
      "reporter_queue_length M' = reporter_queue_length metrics" "\<forall>n\<in>set ns. mt_counters M' n = None"
      "\<forall>k. k \<notin> set ns \<longrightarrow> mt_counters M' k = (if k = n then None else mt_counters metrics k)" by (auto simp: fun_upd_apply)
    have "owns m ([p] @ counters_ptrs ns metrics)" using o(1) by (simp add: own_simps)
    from release_append [OF f(2) ih(2) this Cons.prems(1)] ih f(1) c o(2) show ?thesis
      by (auto simp: counter_ptrs_def)
  qed
qed simp

lemma metrics_destroy_spec:
  assumes "mem_ok m" and "owns m (metrics_ptrs metrics)" and "metrics_own metrics"
  shows "\<exists>metrics' m'. jaeger_metrics_destroy metrics m = Some (metrics', m') \<and> mem_trans (set (metrics_ptrs metrics)) {} m m' \<and>
    mt_counters metrics' = (\<lambda>_. None) \<and> reporter_queue_length metrics' = None"
proof -
  note o = assms(2) [unfolded metrics_ptrs_def]
  from counters_destroy_spec [OF assms(1) o distinct_counters] assms(3) obtain M1 m1 where
    c: "counters_destroy METRICS_COUNTERS metrics m = Some (M1, m1)" "mem_trans (set (counters_ptrs METRICS_COUNTERS metrics)) {} m m1"
    "reporter_queue_length M1 = reporter_queue_length metrics" "\<forall>n\<in>set METRICS_COUNTERS. mt_counters M1 n = None"
    by (auto simp: metrics_own_def)
  have none: "mt_counters M1 = (\<lambda>_. None)" using c(4) all_counters by auto
  note o1 = release_rest [OF c(2) o]
  show ?thesis
  proof (cases "reporter_queue_length metrics")
    case None
    with c none show ?thesis by (simp add: jaeger_metrics_destroy_def metrics_ptrs_def gauge_ptrs_def)
  next
    case (Some g)
    with assms(3) obtain p a where g: "reporter_queue_length metrics = Some (Default_gauge p a)"
      by (cases g) (auto simp: metrics_own_def)
    with o1 have "p \<in> dom (mem_blocks m1)" by (simp add: gauge_ptrs_def own_simps)
    from jaeger_free_live [OF o1(2) this] obtain m2 where f: "jaeger_free (Some p) m1 = Some m2" "mem_trans {p} {} m1 m2" .
    from release_append [OF c(2) _ o assms(1), of m2] f g c(1,3) none show ?thesis
      by (simp add: jaeger_metrics_destroy_def metrics_ptrs_def gauge_ptrs_def)
  qed
qed

lemma counters_init_failed: "counters_init ns False metrics m = (False, metrics, m)"
  by (induction ns arbitrary: metrics m) auto

lemma counters_init_spec:
  assumes "mem_ok m" and "distinct ns" and "\<forall>n\<in>set ns. mt_counters metrics n = None"
  shows "\<exists>ok metrics' m'. counters_init ns True metrics m = (ok, metrics', m') \<and> fresh_list (counters_ptrs ns metrics') m m' \<and>
    reporter_queue_length metrics' = reporter_queue_length metrics \<and>
    (\<forall>n. n \<notin> set ns \<longrightarrow> mt_counters metrics' n = mt_counters metrics n) \<and>
    (\<forall>n\<in>set ns. mt_counters metrics' n \<noteq> Some Null_counter) \<and>
    (ok \<longrightarrow> (\<forall>n\<in>set ns. \<exists>p. mt_counters metrics' n = Some (Default_counter p 0))) \<and> (mem_plenty m \<longrightarrow> ok)"
  using assms
proof (induction ns arbitrary: metrics m)
  case Nil
  then show ?case by (intro exI [of _ True]) (simp add: fresh_list_def)
next
  case (Cons n ns)
  have none: "counters_ptrs ks metrics = []" if "\<forall>n\<in>set ks. mt_counters metrics n = None" for ks
    using that by (induction ks) (auto simp: counter_ptrs_def)
  obtain r m1 where r: "jaeger_malloc SIZEOF_DEFAULT_COUNTER m = (r, m1)" by fastforce
  show ?case
  proof (cases r)
    case None
    with r Cons.prems jaeger_malloc_NoneD [of _ m m1] jaeger_malloc_plenty [of m _ m1] none [of ns] show ?thesis
      by (intro exI [of _ False] exI [of _ metrics] exI [of _ m1]) (auto simp: counters_init_failed fresh_list_def counter_ptrs_def)
  next
    case (Some p)
    have a: "fresh_list [p] m m1" using r Some Cons.prems(1) jaeger_malloc_SomeD(1) by (auto simp: fresh_list_def)
    let ?M = "metrics\<lparr>mt_counters := (mt_counters metrics)(n := Some (Default_counter p 0))\<rparr>"
    have "\<forall>k\<in>set ns. mt_counters ?M k = None" using Cons.prems(2,3) by auto
    from Cons.IH [OF fresh_listD(1) [OF a] _ this] Cons.prems(2) obtain ok M' m' where
      ih: "counters_init ns True ?M m1 = (ok, M', m')" "fresh_list (counters_ptrs ns M') m1 m'"
      "reporter_queue_length M' = reporter_queue_length metrics"
      "\<forall>k. k \<notin> set ns \<longrightarrow> mt_counters M' k = mt_counters ?M k" "\<forall>k\<in>set ns. mt_counters M' k \<noteq> Some Null_counter"
      "ok \<longrightarrow> (\<forall>k\<in>set ns. \<exists>p. mt_counters M' k = Some (Default_counter p 0))" "mem_plenty m1 \<longrightarrow> ok" by auto
    have n: "mt_counters M' n = Some (Default_counter p 0)" using ih(4) Cons.prems(2) by simp
    have "fresh_list (counters_ptrs (n # ns) M') m m'"
      using fresh_list_append [OF a ih(2) Cons.prems(1)] n by (simp add: counter_ptrs_def)
    with ih n r Some fresh_listD(3) [OF a] Cons.prems(2) show ?thesis
      by (intro exI [of _ ok] exI [of _ M'] exI [of _ m']) auto
  qed
qed

section \<open>Properties\<close>

text \<open>
  \<open>jaeger_default_metrics_init\<close> makes all counters and the gauge or none.  It returns for every pattern
  of allocation failures; on success every counter stands at zero in a block of its own, and the
  container owns exactly the new blocks; on failure, which happens only if an allocation fails, every
  member is NULL and nothing stays allocated.
\<close>

theorem metrics_init_all_or_nothing:
  assumes "mem_ok m"
  shows "\<exists>ok metrics m'. jaeger_default_metrics_init m = Some (ok, metrics, m') \<and> (mem_plenty m \<longrightarrow> ok) \<and>
    (if ok then (\<forall>n. \<exists>p. mt_counters metrics n = Some (Default_counter p 0)) \<and>
        (\<exists>p. reporter_queue_length metrics = Some (Default_gauge p 0)) \<and>
        distinct (metrics_ptrs metrics) \<and> mem_trans {} (set (metrics_ptrs metrics)) m m'
     else mt_counters metrics = (\<lambda>_. None) \<and> reporter_queue_length metrics = None \<and> mem_trans {} {} m m')"
proof -
  let ?M0 = "\<lparr>mt_counters = (\<lambda>_. None), reporter_queue_length = None\<rparr>"
  from counters_init_spec [OF assms distinct_counters, of ?M0] obtain ok M m1 where
    c: "counters_init METRICS_COUNTERS True ?M0 m = (ok, M, m1)" "fresh_list (counters_ptrs METRICS_COUNTERS M) m m1"
    "reporter_queue_length M = None" "\<forall>n\<in>set METRICS_COUNTERS. mt_counters M n \<noteq> Some Null_counter"
    "ok \<longrightarrow> (\<forall>n\<in>set METRICS_COUNTERS. \<exists>p. mt_counters M n = Some (Default_counter p 0))" "mem_plenty m \<longrightarrow> ok" by auto
  have clean: "\<exists>M' m'. jaeger_metrics_destroy M m2 = Some (M', m') \<and> mt_counters M' = (\<lambda>_. None) \<and>
      reporter_queue_length M' = None \<and> mem_trans {} {} m m'" if "fresh_list (counters_ptrs METRICS_COUNTERS M) m m2" for m2
  proof -
    have p: "metrics_ptrs M = counters_ptrs METRICS_COUNTERS M" using c(3) by (simp add: metrics_ptrs_def gauge_ptrs_def)
    from metrics_destroy_spec [of m2 M] fresh_listD(1,2) [OF that] p c(3,4) obtain M' m' where
      d: "jaeger_metrics_destroy M m2 = Some (M', m')" "mem_trans (set (metrics_ptrs M)) {} m2 m'"
      "mt_counters M' = (\<lambda>_. None)" "reporter_queue_length M' = None" by (auto simp: metrics_own_def)
    with mem_trans_trans [OF fresh_listD(4) [OF that] _ assms] p show ?thesis by auto
  qed
  show ?thesis
  proof (cases ok)
    case False
    from clean [OF c(2)] False c(1,6) show ?thesis
      by (auto simp: jaeger_default_metrics_init_def intro!: exI [of _ False])
  next
    case True
    obtain r m2 where r: "jaeger_malloc SIZEOF_DEFAULT_COUNTER m1 = (r, m2)" by fastforce
    note m1 = fresh_listD(1,3) [OF c(2)]
    show ?thesis
    proof (cases r)
      case None
      have "fresh_list [] m1 m2" using None r m1 jaeger_malloc_NoneD by (auto simp: fresh_list_def)
      from fresh_list_append [OF c(2) this assms] clean [of m2] None r True c(1) jaeger_malloc_plenty [OF m1(1)] m1(2) show ?thesis
        by (auto simp: jaeger_default_metrics_init_def intro!: exI [of _ False])
    next
      case (Some p)
      have "fresh_list [p] m1 m2" using Some r m1 jaeger_malloc_SomeD(1) by (auto simp: fresh_list_def)
      from fresh_list_append [OF c(2) this assms] have f: "fresh_list (metrics_ptrs (M\<lparr>reporter_queue_length := Some (Default_gauge p 0)\<rparr>)) m m2"
        by (simp add: metrics_ptrs_def gauge_ptrs_def counters_ptrs_def)
      with Some r True c(1,5) all_counters show ?thesis
        by (intro exI [of _ True] exI [of _ "M\<lparr>reporter_queue_length := Some (Default_gauge p 0)\<rparr>"] exI [of _ m2])
          (auto simp: jaeger_default_metrics_init_def fresh_list_def)
    qed
  qed
qed

theorem metrics_init_all_or_nothing_witness:
  "\<exists>metrics m'. jaeger_default_metrics_init mem_one = Some (True, metrics, m') \<and>
    (\<exists>p. mt_counters metrics spans_started = Some (Default_counter p 0))"
  using metrics_init_all_or_nothing [OF mem_one_simps(1)] by (auto simp: mem_plenty_def)

end
