(* ===== verification/Propagation.thy ===== *)
theory Propagation
  imports Span_Context Metrics
begin

text \<open>
  Propagation of span contexts through carriers: \<open>src/jaegertracingc/propagation.c\<close>, \<open>options.h\<close>.

  Carriers are client code and so arguments.  A text map reader runs the callback on its pairs
  (\<open>foreach_key\<close>), a text map writer takes a pair (\<open>set\<close>), and the binary callbacks move bytes: a reader
  gives the count it reports, the bytes it put into the buffer and its next state; a writer takes bytes
  and gives the count it reports.  \<open>normalize_key\<close>, \<open>decode_value\<close> and \<open>encode_value\<close> fill a buffer up to
  and including the terminator.
\<close>

record jaeger_headers_config =
  debug_header :: string
  baggage_header :: string
  trace_context_header :: string
  trace_baggage_header_prefix :: string

definition JAEGERTRACINGC_HEADERS_CONFIG_INIT :: jaeger_headers_config where
  "JAEGERTRACINGC_HEADERS_CONFIG_INIT =
     \<lparr>debug_header = ''jaeger-debug-id'', baggage_header = ''jaeger-baggage'',
      trace_context_header = ''uber-trace-id'', trace_baggage_header_prefix = ''uberctx-''\<rparr>"

definition SIZEOF_SPAN_CONTEXT :: nat where
  "SIZEOF_SPAN_CONTEXT = 136"

type_synonym codec = "string \<Rightarrow> string option"

type_synonym error_code = opentracing_propagation_error_code

section \<open>Extracting from a text map\<close>

text \<open>\<open>jaeger_malloc(strlen(value) + 1)\<close> and the conversion into it: the block and its string.\<close>

definition decode_into :: "codec \<Rightarrow> string \<Rightarrow> mem \<Rightarrow> (cstring option \<times> mem) option" where
  "decode_into conv str m =
     (case jaeger_malloc (length str + 1) m of
        (None, m) \<Rightarrow> Some (None, m)
      | (Some p, m) \<Rightarrow> do {
          buffer \<leftarrow> conv str;
          Some (Some (p, c_str buffer), m)
        })"

text \<open>
  The four branches of \<open>extract_text_map_callback\<close>: the error code, the blocks \<open>suffix\<close> and
  \<open>value_buffer\<close> to free, and the context.
\<close>

type_synonym callback_result = "error_code \<times> ptr option \<times> ptr option \<times> jaeger_span_context \<times> mem"

definition extract_trace_context ::
  "codec \<Rightarrow> string \<Rightarrow> jaeger_span_context \<Rightarrow> mem \<Rightarrow> callback_result option" where
  "extract_trace_context decode_value val ctx m = do {
     (value_buffer, m) \<leftarrow> decode_into decode_value val m;
     case value_buffer of
       None \<Rightarrow> Some (OT_unknown, None, None, ctx, m)
     | Some b \<Rightarrow> do {
         (ok, ctx, m) \<leftarrow> jaeger_span_context_scan ctx (snd b) m;
         Some (if ok then OT_success else OT_span_context_corrupted, None, Some (fst b), ctx, m)
       }
   }"

definition extract_debug_id ::
  "codec \<Rightarrow> string \<Rightarrow> jaeger_span_context \<Rightarrow> mem \<Rightarrow> callback_result option" where
  "extract_debug_id decode_value val ctx m = do {
     (value_buffer, m) \<leftarrow> decode_into decode_value val m;
     case value_buffer of
       None \<Rightarrow> Some (OT_unknown, None, None, ctx, m)
     | Some b \<Rightarrow> do {
         (debug_id, m) \<leftarrow> jaeger_strdup (Some (snd b)) m;
         let ctx = ctx\<lparr>ctx_debug_id := debug_id\<rparr>;
         if debug_id = None then Some (OT_unknown, None, Some (fst b), ctx, m)
         else Some (OT_success, None, Some (fst b),
                    ctx\<lparr>ctx_flags := (ctx_flags ctx OR jaeger_sampling_flag_debug) OR jaeger_sampling_flag_sampled\<rparr>, m)
       }
   }"

definition extract_baggage_map ::
  "u8 list \<Rightarrow> codec \<Rightarrow> string \<Rightarrow> jaeger_span_context \<Rightarrow> mem \<Rightarrow> callback_result option" where
  "extract_baggage_map seed decode_value val ctx m = do {
     (value_buffer, m) \<leftarrow> decode_into decode_value val m;
     b \<leftarrow> value_buffer;
     (error_code, baggage, m) \<leftarrow> parse_comma_separated_map seed (ctx_baggage ctx) (snd b) m;
     Some (error_code, None, Some (fst b), ctx\<lparr>ctx_baggage := baggage\<rparr>, m)
   }"

definition extract_baggage_item ::
  "u8 list \<Rightarrow> codec \<Rightarrow> jaeger_headers_config \<Rightarrow> string \<Rightarrow> string \<Rightarrow> jaeger_span_context \<Rightarrow> mem \<Rightarrow> callback_result option" where
  "extract_baggage_item seed decode_value config key val ctx m =
     (let prefix_len = length (trace_baggage_header_prefix config); key_len = length key
      in if key_len > prefix_len \<and> take prefix_len key = trace_baggage_header_prefix config
         then (case jaeger_malloc (key_len - prefix_len + 1) m of
                 (None, m) \<Rightarrow> Some (OT_unknown, None, None, ctx, m)
               | (Some suffix, m) \<Rightarrow> do {
                   (value_buffer, m) \<leftarrow> decode_into decode_value val m;
                   case value_buffer of
                     None \<Rightarrow> Some (OT_unknown, Some suffix, None, ctx, m)
                   | Some b \<Rightarrow> do {
                       (ok, baggage, m) \<leftarrow> jaeger_hashtable_put seed (ctx_baggage ctx) (drop prefix_len key) (snd b) m;
                       Some (if ok then OT_success else OT_unknown, Some suffix, Some (fst b), ctx\<lparr>ctx_baggage := baggage\<rparr>, m)
                     }
                 })
         else Some (OT_success, None, None, ctx, m))"

definition extract_text_map_callback ::
  "u8 list \<Rightarrow> codec \<Rightarrow> codec \<Rightarrow> jaeger_headers_config \<Rightarrow> string \<Rightarrow> string \<Rightarrow> jaeger_span_context \<times> mem \<Rightarrow>
   (error_code \<times> jaeger_span_context \<times> mem) option" where
  "extract_text_map_callback seed normalize_key decode_value config key val = (\<lambda>(ctx, m). do {
     (key_buffer, m) \<leftarrow> decode_into normalize_key key m;
     case key_buffer of
       None \<Rightarrow> Some (OT_unknown, ctx, m)
     | Some k \<Rightarrow> do {
         (error_code, suffix, value_buffer, ctx, m) \<leftarrow>
           (if snd k = trace_context_header config then extract_trace_context decode_value val ctx m
            else if snd k = debug_header config then extract_debug_id decode_value val ctx m
            else if snd k = baggage_header config then extract_baggage_map seed decode_value val ctx m
            else extract_baggage_item seed decode_value config (snd k) val ctx m);
         m \<leftarrow> jaeger_free (Some (fst k)) m;
         m \<leftarrow> jaeger_free suffix m;
         m \<leftarrow> jaeger_free value_buffer m;
         Some (error_code, ctx, m)
       }
   })"

text \<open>A reader: runs the callback on its pairs, threading the context and the heap.\<close>

type_synonym text_map_reader =
  "(string \<Rightarrow> string \<Rightarrow> jaeger_span_context \<times> mem \<Rightarrow> (error_code \<times> jaeger_span_context \<times> mem) option) \<Rightarrow>
   jaeger_span_context \<times> mem \<Rightarrow> (error_code \<times> jaeger_span_context \<times> mem) option"

text \<open>The block after the label \<open>cleanup\<close>, shared by the extractors.\<close>

definition extract_cleanup ::
  "error_code \<Rightarrow> (ptr \<times> jaeger_span_context) option \<Rightarrow> jaeger_metrics option \<Rightarrow> mem \<Rightarrow>
   (error_code \<times> (ptr \<times> jaeger_span_context) option \<times> jaeger_metrics option \<times> mem) option" where
  "extract_cleanup error_code ctx metrics m = do {
     metrics \<leftarrow> (if error_code = OT_span_context_corrupted
                then (case metrics of None \<Rightarrow> Some None | Some mt \<Rightarrow> map_option Some (metrics_inc decoding_errors 1 mt))
                else Some metrics);
     m \<leftarrow> (case ctx of
             None \<Rightarrow> Some m
           | Some (p, c) \<Rightarrow> do {
               (c, m) \<leftarrow> jaeger_span_context_destroy c m;
               jaeger_free (Some p) m
             });
     Some (error_code, None, metrics, m)
   }"

definition extract_from_text_map_helper ::
  "text_map_reader \<Rightarrow> u8 list \<Rightarrow> codec \<Rightarrow> codec \<Rightarrow> jaeger_headers_config \<Rightarrow> jaeger_metrics option \<Rightarrow> mem \<Rightarrow>
   (error_code \<times> (ptr \<times> jaeger_span_context) option \<times> jaeger_metrics option \<times> mem) option" where
  "extract_from_text_map_helper reader seed normalize_key decode_value config metrics m =
     (case jaeger_malloc SIZEOF_SPAN_CONTEXT m of
        (None, m) \<Rightarrow> extract_cleanup OT_unknown None metrics m
      | (Some p, m) \<Rightarrow> do {
          (ok, ctx, m) \<leftarrow> jaeger_span_context_init m;
          if \<not> ok then extract_cleanup OT_unknown (Some (p, ctx)) metrics m
          else do {
            (error_code, ctx, m) \<leftarrow> reader (extract_text_map_callback seed normalize_key decode_value config) (ctx, m);
            if error_code \<noteq> OT_success then extract_cleanup error_code (Some (p, ctx)) metrics m
            else if tid_high (ctx_trace_id ctx) = 0 \<and> tid_low (ctx_trace_id ctx) = 0 \<and> ctx_debug_id ctx = None \<and>
                    ht_size (ctx_baggage ctx) = 0
            then extract_cleanup OT_success (Some (p, ctx)) metrics m
            else Some (OT_success, Some (p, ctx), metrics, m)
          }
        })"

definition jaeger_extract_from_text_map ::
  "text_map_reader \<Rightarrow> u8 list \<Rightarrow> jaeger_metrics option \<Rightarrow> jaeger_headers_config \<Rightarrow> mem \<Rightarrow>
   (error_code \<times> (ptr \<times> jaeger_span_context) option \<times> jaeger_metrics option \<times> mem) option" where
  "jaeger_extract_from_text_map reader seed metrics config m =
     extract_from_text_map_helper reader seed (\<lambda>s. Some (copy_str s)) (\<lambda>s. Some (copy_str s)) config metrics m"

definition jaeger_extract_from_http_headers ::
  "text_map_reader \<Rightarrow> u8 list \<Rightarrow> jaeger_metrics option \<Rightarrow> jaeger_headers_config \<Rightarrow> mem \<Rightarrow>
   (error_code \<times> (ptr \<times> jaeger_span_context) option \<times> jaeger_metrics option \<times> mem) option" where
  "jaeger_extract_from_http_headers reader seed metrics config m =
     extract_from_text_map_helper reader seed (\<lambda>s. Some (to_lowercase s)) decode_uri_value config metrics m"

section \<open>Extracting from a binary carrier\<close>

type_synonym 'r binary_reader = "'r \<Rightarrow> nat \<Rightarrow> int \<times> u8 list \<times> 'r"

definition from_big_endian :: "u8 list \<Rightarrow> u64" where
  "from_big_endian bytes = foldl (\<lambda>w b. push_bit 8 w OR ucast b) 0 bytes"

text \<open>\<open>read_binary\<close> for the three sizes; the value is zero-extended to 64 bits.\<close>

definition read_binary :: "'r binary_reader \<Rightarrow> 'r \<Rightarrow> nat \<Rightarrow> (u64 option \<times> 'r) option" where
  "read_binary callback arg result_size =
     (let (num_read, buffer, arg) = callback arg result_size
      in if num_read \<noteq> int result_size then Some (None, arg)
         else do {
           c_assert (result_size \<in> {1, 4, 8});
           c_assert (result_size \<le> length buffer);
           Some (Some (from_big_endian (take result_size buffer)), arg)
         })"

definition string_of_bytes :: "u8 list \<Rightarrow> string" where
  "string_of_bytes bytes = map (\<lambda>b. char_of (unat b)) bytes"

text \<open>
  \<open>jaeger_malloc(len + 1)\<close> with its 32-bit addition and \<open>READ_BUFFER\<close>: whether the read gave \<open>len\<close> bytes,
  the block and its string; a length whose increment wraps makes the read overrun the block.
\<close>

definition read_buffer ::
  "'r binary_reader \<Rightarrow> 'r \<Rightarrow> u32 \<Rightarrow> mem \<Rightarrow> (bool \<times> cstring option \<times> 'r \<times> mem) option" where
  "read_buffer callback arg len m =
     (case jaeger_malloc (unat (len + 1)) m of
        (None, m) \<Rightarrow> Some (False, None, arg, m)
      | (Some p, m) \<Rightarrow> do {
          c_assert (len + 1 \<noteq> 0);
          (let (num_read, buffer, arg) = callback arg (unat len)
           in if num_read \<noteq> sint len then Some (False, Some (p, []), arg, m)
              else do {
                c_assert (unat len \<le> length buffer);
                Some (True, Some (p, c_str (string_of_bytes (take (unat len) buffer))), arg, m)
              })
        })"

text \<open>
  The loop of \<open>parse_baggage_binary\<close>.  \<open>key_buffer\<close> and \<open>value_buffer\<close> keep their values from the last
  round: the code frees the blocks at the end of a round but does not reset the pointers.
\<close>

definition parse_cleanup ::
  "error_code \<Rightarrow> ptr option \<Rightarrow> ptr option \<Rightarrow> jaeger_hashtable \<Rightarrow> 'r \<Rightarrow> mem \<Rightarrow>
   (error_code \<times> jaeger_hashtable \<times> 'r \<times> mem) option" where
  "parse_cleanup error_code key_buffer value_buffer baggage arg m = do {
     m \<leftarrow> jaeger_free key_buffer m;
     m \<leftarrow> jaeger_free value_buffer m;
     Some (error_code, baggage, arg, m)
   }"

fun parse_baggage_items ::
  "'r binary_reader \<Rightarrow> u8 list \<Rightarrow> nat \<Rightarrow> ptr option \<Rightarrow> ptr option \<Rightarrow> 'r \<Rightarrow> jaeger_hashtable \<Rightarrow> mem \<Rightarrow>
   (error_code \<times> jaeger_hashtable \<times> 'r \<times> mem) option" where
  "parse_baggage_items callback seed 0 key_buffer value_buffer arg baggage m = Some (OT_success, baggage, arg, m)"
| "parse_baggage_items callback seed (Suc n) key_buffer value_buffer arg baggage m = do {
     (key_len, arg) \<leftarrow> read_binary callback arg 4;
     case key_len of
       None \<Rightarrow> parse_cleanup OT_span_context_corrupted key_buffer value_buffer baggage arg m
     | Some key_len \<Rightarrow> do {
         (ok, k, arg, m) \<leftarrow> read_buffer callback arg (ucast key_len) m;
         if \<not> ok then parse_cleanup (if k = None then OT_unknown else OT_span_context_corrupted)
                       (map_option fst k) value_buffer baggage arg m
         else do {
           (value_len, arg) \<leftarrow> read_binary callback arg 4;
           case value_len of
             None \<Rightarrow> parse_cleanup OT_span_context_corrupted (map_option fst k) value_buffer baggage arg m
           | Some value_len \<Rightarrow> do {
               (ok, v, arg, m) \<leftarrow> read_buffer callback arg (ucast value_len) m;
               if \<not> ok then parse_cleanup (if v = None then OT_unknown else OT_span_context_corrupted)
                             (map_option fst k) (map_option fst v) baggage arg m
               else do {
                 kb \<leftarrow> k;
                 vb \<leftarrow> v;
                 (ok, baggage, m) \<leftarrow> jaeger_hashtable_put seed baggage (snd kb) (snd vb) m;
                 if \<not> ok then parse_cleanup OT_unknown (Some (fst kb)) (Some (fst vb)) baggage arg m
                 else do {
                   m \<leftarrow> jaeger_free (Some (fst kb)) m;
                   m \<leftarrow> jaeger_free (Some (fst vb)) m;
                   parse_baggage_items callback seed n (Some (fst kb)) (Some (fst vb)) arg baggage m
                 }
               }
             }
         }
       }
   }"

text \<open>\<open>i < (int) num_baggage_items\<close>: a count of 2 to the 31 or more is negative.\<close>

definition parse_baggage_binary ::
  "'r binary_reader \<Rightarrow> u8 list \<Rightarrow> 'r \<Rightarrow> jaeger_hashtable \<Rightarrow> mem \<Rightarrow>
   (error_code \<times> jaeger_hashtable \<times> 'r \<times> mem) option" where
  "parse_baggage_binary callback seed arg baggage m = do {
     (num_baggage_items, arg) \<leftarrow> read_binary callback arg 4;
     case num_baggage_items of
       None \<Rightarrow> parse_cleanup OT_span_context_corrupted None None baggage arg m
     | Some num \<Rightarrow> parse_baggage_items callback seed (nat (sint (ucast num :: u32))) None None arg baggage m
   }"

text \<open>The four leading numbers of \<open>jaeger_extract_from_binary\<close>, written into the context as they come.\<close>

definition read_identity ::
  "'r binary_reader \<Rightarrow> 'r \<Rightarrow> jaeger_span_context \<Rightarrow> (bool \<times> jaeger_span_context \<times> 'r) option" where
  "read_identity callback arg ctx = do {
     (high, arg) \<leftarrow> read_binary callback arg 8;
     case high of None \<Rightarrow> Some (False, ctx, arg)
     | Some high \<Rightarrow> do {
         let ctx = ctx\<lparr>ctx_trace_id := (ctx_trace_id ctx)\<lparr>tid_high := high\<rparr>\<rparr>;
         (low, arg) \<leftarrow> read_binary callback arg 8;
         case low of None \<Rightarrow> Some (False, ctx, arg)
         | Some low \<Rightarrow> do {
             let ctx = ctx\<lparr>ctx_trace_id := (ctx_trace_id ctx)\<lparr>tid_low := low\<rparr>\<rparr>;
             (span_id, arg) \<leftarrow> read_binary callback arg 8;
             case span_id of None \<Rightarrow> Some (False, ctx, arg)
             | Some span_id \<Rightarrow> do {
                 let ctx = ctx\<lparr>ctx_span_id := span_id\<rparr>;
                 (flags, arg) \<leftarrow> read_binary callback arg 1;
                 case flags of None \<Rightarrow> Some (False, ctx, arg)
                 | Some flags \<Rightarrow> Some (True, ctx\<lparr>ctx_flags := ucast flags\<rparr>, arg)
               }
           }
       }
   }"

definition jaeger_extract_from_binary ::
  "'r binary_reader \<Rightarrow> u8 list \<Rightarrow> 'r \<Rightarrow> jaeger_metrics option \<Rightarrow> mem \<Rightarrow>
   (error_code \<times> (ptr \<times> jaeger_span_context) option \<times> jaeger_metrics option \<times> mem) option" where
  "jaeger_extract_from_binary callback seed arg metrics m =
     (case jaeger_malloc SIZEOF_SPAN_CONTEXT m of
        (None, m) \<Rightarrow> extract_cleanup OT_unknown None metrics m
      | (Some p, m) \<Rightarrow> do {
          (ok, ctx, m) \<leftarrow> jaeger_span_context_init m;
          if \<not> ok then extract_cleanup OT_unknown (Some (p, ctx)) metrics m
          else do {
            (ok, ctx, arg) \<leftarrow> read_identity callback arg ctx;
            if \<not> ok then extract_cleanup OT_span_context_corrupted (Some (p, ctx)) metrics m
            else do {
              (error_code, baggage, arg, m) \<leftarrow> parse_baggage_binary callback seed arg (ctx_baggage ctx) m;
              let ctx = ctx\<lparr>ctx_baggage := baggage\<rparr>;
              if error_code \<noteq> OT_success then extract_cleanup error_code (Some (p, ctx)) metrics m
              else Some (OT_success, Some (p, ctx), metrics, m)
            }
          }
        })"

text \<open>The custom carrier is client code; only the metric is this library's.\<close>

definition jaeger_extract_from_custom ::
  "error_code \<times> 'c \<Rightarrow> jaeger_metrics option \<Rightarrow> (error_code \<times> 'c \<times> jaeger_metrics option) option" where
  "jaeger_extract_from_custom reader_result metrics = do {
     metrics \<leftarrow> (if fst reader_result = OT_span_context_corrupted
                then (case metrics of None \<Rightarrow> Some None | Some mt \<Rightarrow> map_option Some (metrics_inc decoding_errors 1 mt))
                else Some metrics);
     Some (fst reader_result, snd reader_result, metrics)
   }"

section \<open>Injecting\<close>

type_synonym 'w text_map_writer = "string \<Rightarrow> string \<Rightarrow> 'w \<Rightarrow> error_code \<times> 'w"

text \<open>
  One bucket of \<open>inject_text_map_helper\<close>.  The label \<open>cleanup\<close> is inside the loop, so an error ends one
  round only and a later round overwrites it.
\<close>

fun inject_bucket ::
  "'w text_map_writer \<Rightarrow> codec \<Rightarrow> jaeger_headers_config \<Rightarrow> kv_node list \<Rightarrow> error_code \<Rightarrow> 'w \<Rightarrow> mem \<Rightarrow>
   (error_code \<times> 'w \<times> mem) option" where
  "inject_bucket write encode_value config [] error_code w m = Some (error_code, w, m)"
| "inject_bucket write encode_value config (node # rest) error_code w m = do {
     k \<leftarrow> kv_key (snd node);
     v \<leftarrow> kv_value (snd node);
     case jaeger_malloc (length (trace_baggage_header_prefix config) + length (snd k) + 1) m of
       (None, m) \<Rightarrow> inject_bucket write encode_value config rest OT_unknown w m
     | (Some key_buffer, m) \<Rightarrow>
         (case jaeger_malloc (length (snd v) * 3 + 1) m of
            (None, m) \<Rightarrow> do {
              m \<leftarrow> jaeger_free (Some key_buffer) m;
              inject_bucket write encode_value config rest OT_unknown w m
            }
          | (Some value_buffer, m) \<Rightarrow> do {
              buffer \<leftarrow> encode_value (snd v);
              c_assert (length buffer \<le> length (snd v) * 3 + 1);
              let (error_code, w) = write (trace_baggage_header_prefix config @ snd k) (c_str buffer) w;
              m \<leftarrow> jaeger_free (Some key_buffer) m;
              m \<leftarrow> jaeger_free (Some value_buffer) m;
              inject_bucket write encode_value config rest error_code w m
            })
   }"

fun inject_buckets ::
  "'w text_map_writer \<Rightarrow> codec \<Rightarrow> jaeger_headers_config \<Rightarrow> kv_node list list \<Rightarrow> error_code \<Rightarrow> 'w \<Rightarrow> mem \<Rightarrow>
   (error_code \<times> 'w \<times> mem) option" where
  "inject_buckets write encode_value config [] error_code w m = Some (error_code, w, m)"
| "inject_buckets write encode_value config (bucket # rest) error_code w m =
     (if error_code = OT_success then do {
        (error_code, w, m) \<leftarrow> inject_bucket write encode_value config bucket error_code w m;
        inject_buckets write encode_value config rest error_code w m
      } else Some (error_code, w, m))"

definition inject_text_map_helper ::
  "'w text_map_writer \<Rightarrow> codec \<Rightarrow> jaeger_headers_config \<Rightarrow> jaeger_span_context \<Rightarrow> 'w \<Rightarrow> mem \<Rightarrow>
   (error_code \<times> 'w \<times> mem) option" where
  "inject_text_map_helper write encode_value config ctx w m = do {
     (trace_context_len, buffer) \<leftarrow> jaeger_span_context_format ctx (JAEGERTRACINGC_SPAN_CONTEXT_MAX_STR_LEN + 1);
     c_assert (trace_context_len \<le> JAEGERTRACINGC_SPAN_CONTEXT_MAX_STR_LEN);
     text \<leftarrow> buffer;
     let (error_code, w) = write (trace_context_header config) text w;
     (p, buckets) \<leftarrow> ht_buckets (ctx_baggage ctx);
     len \<leftarrow> bucket_count (ht_order (ctx_baggage ctx));
     c_assert (len \<le> length buckets);
     inject_buckets write encode_value config (take len buckets) error_code w m
   }"

definition jaeger_inject_into_text_map ::
  "'w text_map_writer \<Rightarrow> jaeger_headers_config \<Rightarrow> jaeger_span_context \<Rightarrow> 'w \<Rightarrow> mem \<Rightarrow> (error_code \<times> 'w \<times> mem) option" where
  "jaeger_inject_into_text_map write config ctx w m =
     inject_text_map_helper write (\<lambda>s. Some (copy_str s)) config ctx w m"

definition jaeger_inject_into_http_headers ::
  "'w text_map_writer \<Rightarrow> jaeger_headers_config \<Rightarrow> jaeger_span_context \<Rightarrow> 'w \<Rightarrow> mem \<Rightarrow> (error_code \<times> 'w \<times> mem) option" where
  "jaeger_inject_into_http_headers write config ctx w m =
     inject_text_map_helper write encode_uri_value config ctx w m"

type_synonym 'w binary_writer = "'w \<Rightarrow> u8 list \<Rightarrow> int \<times> 'w"

text \<open>\<open>n\<close> bytes of a number, most significant first.\<close>

definition to_big_endian :: "nat \<Rightarrow> u64 \<Rightarrow> u8 list" where
  "to_big_endian n w = map (\<lambda>i. ucast (drop_bit (8 * i) w)) (rev [0..<n])"

text \<open>Write the bytes; go on unless the callback reports another count.\<close>

definition write_binary ::
  "'w binary_writer \<Rightarrow> u8 list \<Rightarrow> 'w \<Rightarrow> ('w \<Rightarrow> (error_code \<times> 'w) option) \<Rightarrow> (error_code \<times> 'w) option" where
  "write_binary callback bytes w go =
     (let (n, w) = callback w bytes in if n \<noteq> int (length bytes) then Some (OT_unknown, w) else go w)"

text \<open>A length cut to \<open>uint32_t\<close>, then that many of the bytes, compared as \<open>int\<close>.\<close>

definition write_string ::
  "'w binary_writer \<Rightarrow> string \<Rightarrow> 'w \<Rightarrow> ('w \<Rightarrow> (error_code \<times> 'w) option) \<Rightarrow> (error_code \<times> 'w) option" where
  "write_string callback str w go =
     (let len = (of_nat (length str) :: u32)
      in write_binary callback (to_big_endian 4 (ucast len)) w (\<lambda>w.
           let (n, w) = callback w (take (unat len) (bytes_of str))
           in if n \<noteq> sint len then Some (OT_unknown, w) else go w))"

text \<open>The nodes of all buckets in order; \<open>go\<close> is what follows the loops.\<close>

fun write_items ::
  "'w binary_writer \<Rightarrow> kv_node list \<Rightarrow> 'w \<Rightarrow> ('w \<Rightarrow> (error_code \<times> 'w) option) \<Rightarrow> (error_code \<times> 'w) option" where
  "write_items callback [] w go = go w"
| "write_items callback (node # rest) w go =
     (case kv_key (snd node) of
        None \<Rightarrow> None
      | Some k \<Rightarrow> write_string callback (snd k) w (\<lambda>w.
          case kv_value (snd node) of
            None \<Rightarrow> None
          | Some v \<Rightarrow> write_string callback (snd v) w (\<lambda>w. write_items callback rest w go)))"

definition jaeger_inject_into_binary ::
  "'w binary_writer \<Rightarrow> jaeger_span_context \<Rightarrow> 'w \<Rightarrow> (error_code \<times> 'w) option" where
  "jaeger_inject_into_binary callback ctx w =
     write_binary callback (to_big_endian 8 (tid_high (ctx_trace_id ctx))) w (\<lambda>w.
     write_binary callback (to_big_endian 8 (tid_low (ctx_trace_id ctx))) w (\<lambda>w.
     write_binary callback (to_big_endian 8 (ctx_span_id ctx)) w (\<lambda>w.
     write_binary callback [ctx_flags ctx] w (\<lambda>w.
     write_binary callback (to_big_endian 4 (of_nat (ht_size (ctx_baggage ctx)))) w (\<lambda>w. do {
       (p, buckets) \<leftarrow> ht_buckets (ctx_baggage ctx);
       len \<leftarrow> bucket_count (ht_order (ctx_baggage ctx));
       c_assert (len \<le> length buckets);
       let nodes = concat (take len buckets);
       write_items callback nodes w (\<lambda>w. do {
         c_assert (ht_size (ctx_baggage ctx) = length nodes);
         Some (OT_success, w)
       })
     })))))"

definition jaeger_inject_into_custom :: "(jaeger_span_context \<Rightarrow> 'w \<Rightarrow> error_code \<times> 'w) \<Rightarrow> jaeger_span_context \<Rightarrow> 'w \<Rightarrow> error_code \<times> 'w" where
  "jaeger_inject_into_custom inject ctx w = inject ctx w"

end
