(* ===== verification/Carriers.thy ===== *)
theory Carriers
  imports Propagation
begin

text \<open>
  Round trips through carriers.  \<open>text_codec\<close> states what injection and extraction need of a pair of
  string conversions; it holds for the plain conversions of text maps and for those of HTTP headers,
  and the two round trips are one lemma.  The second part is about binary carriers.
\<close>

section \<open>Temporary buffers\<close>

lemma decode_into_plenty:
  assumes "mem_ok m" and "mem_plenty m" and "conv s = Some b"
  obtains p m' where "decode_into conv s m = Some (Some (p, c_str b), m')" and "fresh_list [p] m m'"
proof (rule malloc_cases [OF assms(1), of "length s + 1"])
  fix p m1 assume "jaeger_malloc (length s + 1) m = (Some p, m1)" "mem_trans {} {p} m m1"
  with that [of p m1] assms(3) show thesis by (simp add: decode_into_def fresh_list_def)
qed (use assms(2) in simp)

section \<open>Carriers that keep what is written\<close>

text \<open>The callback run on pairs one after the other, up to the first error.\<close>

fun run_pairs ::
  "(string \<Rightarrow> string \<Rightarrow> jaeger_span_context \<times> mem \<Rightarrow> (error_code \<times> jaeger_span_context \<times> mem) option) \<Rightarrow>
   (string \<times> string) list \<Rightarrow> jaeger_span_context \<times> mem \<Rightarrow> (error_code \<times> jaeger_span_context \<times> mem) option" where
  "run_pairs f [] s = Some (OT_success, s)"
| "run_pairs f ((k, v) # rest) s = do {
     (error_code, s) \<leftarrow> f k v s;
     if error_code = OT_success then run_pairs f rest s else Some (error_code, s)
   }"

text \<open>A writer that appends the pair to the carrier's contents and reports success.\<close>

definition faithful_writer :: "'w text_map_writer \<Rightarrow> ('w \<Rightarrow> (string \<times> string) list) \<Rightarrow> bool" where
  "faithful_writer write contents \<longleftrightarrow>
     (\<forall>k v w. fst (write k v w) = OT_success \<and> contents (snd (write k v w)) = contents w @ [(k, v)])"

abbreviation config0 :: jaeger_headers_config where
  "config0 \<equiv> JAEGERTRACINGC_HEADERS_CONFIG_INIT"

lemma config0_simps [simp]:
  "trace_context_header config0 = ''uber-trace-id''" "debug_header config0 = ''jaeger-debug-id''"
  "baggage_header config0 = ''jaeger-baggage''" "trace_baggage_header_prefix config0 = ''uberctx-''"
  by (simp_all add: JAEGERTRACINGC_HEADERS_CONFIG_INIT_def)

locale text_codec =
  fixes norm :: codec and enc :: codec and dec :: codec
    and key_ok :: "string \<Rightarrow> bool" and val_ok :: "string \<Rightarrow> bool"
  assumes norm_key: "key_ok k \<Longrightarrow> \<exists>b. norm (''uberctx-'' @ k) = Some b \<and> c_str b = ''uberctx-'' @ k"
    and norm_header: "\<exists>b. norm ''uber-trace-id'' = Some b \<and> c_str b = ''uber-trace-id''"
    and key_ne: "key_ok k \<Longrightarrow> k \<noteq> []"
    and enc_dec: "val_ok v \<Longrightarrow> \<exists>e d. enc v = Some e \<and> length e \<le> length v * 3 + 1 \<and> dec (c_str e) = Some d \<and> c_str d = v"
    and dec_context: "\<exists>d. dec (context_string ctx) = Some d \<and> c_str d = context_string ctx"
begin

definition item_pair :: "string \<times> string \<Rightarrow> string \<times> string" where
  "item_pair kv = (''uberctx-'' @ fst kv, c_str (the (enc (snd kv))))"

lemma inject_bucket_spec:
  assumes "faithful_writer write contents" and "mem_ok m" and "mem_plenty m"
    and "\<forall>n\<in>set ns. node_ok n \<and> val_ok (node_value n)"
  shows "\<exists>w' m'. inject_bucket write enc config0 ns OT_success w m = Some (OT_success, w', m') \<and>
    contents w' = contents w @ map item_pair (map (\<lambda>n. (node_key n, node_value n)) ns) \<and> mem_trans {} {} m m'"
  using assms(2-4)
proof (induction ns arbitrary: w m)
  case (Cons n ns)
  from Cons.prems(3) obtain k v where n: "kv_key (snd n) = Some k" "kv_value (snd n) = Some v" "node_key n = snd k" "node_value n = snd v"
    by (auto simp: node_ok_def node_key_def node_value_def)
  from enc_dec [of "snd v"] Cons.prems(3) n obtain e where e: "enc (snd v) = Some e" "length e \<le> length (snd v) * 3 + 1" by auto
  from malloc_plenty [OF Cons.prems(1,2), of "length ''uberctx-'' + length (snd k) + 1"] obtain p m1 where
    p: "jaeger_malloc (length ''uberctx-'' + length (snd k) + 1) m = (Some p, m1)" "fresh_list [p] m m1" .
  note m1 = fresh_listD(1,3) [OF p(2)]
  from malloc_plenty [of m1 "length (snd v) * 3 + 1"] m1 Cons.prems(2) obtain q m2 where
    q: "jaeger_malloc (length (snd v) * 3 + 1) m1 = (Some q, m2)" "fresh_list [q] m1 m2" by auto
  note pq = fresh_list_append [OF p(2) q(2) Cons.prems(1)]
  have po: "owns m2 [p, q]" "mem_ok m2" "mem_trans {} (set [p, q]) m m2" using fresh_listD(1,2,4) [OF pq] by simp_all
  from free_two [OF po(2,1)] obtain m3 m4 where
    f: "jaeger_free (Some p) m2 = Some m3" "jaeger_free (Some q) m3 = Some m4" "mem_trans (set [p, q]) {} m2 m4" .
  have m4: "mem_trans {} {} m m4" using mem_trans_trans [OF po(3) f(3) Cons.prems(1)] .
  obtain w1 where w: "write (''uberctx-'' @ snd k) (c_str e) w = (OT_success, w1)" "contents w1 = contents w @ [(''uberctx-'' @ snd k, c_str e)]"
    using assms(1) unfolding faithful_writer_def by (metis prod.collapse)
  from Cons.IH [of m4 w1] mem_trans_ok [OF m4] mem_plenty_trans [OF m4] Cons.prems obtain w' m' where
    ih: "inject_bucket write enc config0 ns OT_success w1 m4 = Some (OT_success, w', m')"
    "contents w' = contents w1 @ map item_pair (map (\<lambda>n. (node_key n, node_value n)) ns)" "mem_trans {} {} m4 m'" by auto
  have "inject_bucket write enc config0 (n # ns) OT_success w m = Some (OT_success, w', m')"
    using n(1,2) e p(1) q(1) w(1) f(1,2) ih(1) by simp
  with ih(2) w(2) e(1) n(3,4) mem_trans_trans [OF m4 ih(3) Cons.prems(1)] show ?case by (auto simp: item_pair_def)
qed simp

lemma inject_buckets_spec:
  assumes "faithful_writer write contents" and "mem_ok m" and "mem_plenty m"
    and "\<forall>n\<in>set (concat bs). node_ok n \<and> val_ok (node_value n)"
  shows "\<exists>w' m'. inject_buckets write enc config0 bs OT_success w m = Some (OT_success, w', m') \<and>
    contents w' = contents w @ map item_pair (map (\<lambda>n. (node_key n, node_value n)) (concat bs)) \<and> mem_trans {} {} m m'"
  using assms(2-4)
proof (induction bs arbitrary: w m)
  case (Cons b bs)
  from inject_bucket_spec [OF assms(1) Cons.prems(1,2), of b w] Cons.prems(3) obtain w1 m1 where
    b: "inject_bucket write enc config0 b OT_success w m = Some (OT_success, w1, m1)"
    "contents w1 = contents w @ map item_pair (map (\<lambda>n. (node_key n, node_value n)) b)" "mem_trans {} {} m m1" by auto
  from Cons.IH [of m1 w1] mem_trans_ok [OF b(3)] mem_plenty_trans [OF b(3)] Cons.prems obtain w' m' where
    "inject_buckets write enc config0 bs OT_success w1 m1 = Some (OT_success, w', m')"
    "contents w' = contents w1 @ map item_pair (map (\<lambda>n. (node_key n, node_value n)) (concat bs))" "mem_trans {} {} m1 m'" by auto
  with b mem_trans_trans [OF b(3) _ Cons.prems(1)] show ?case by auto
qed simp

lemma inject_spec:
  assumes "faithful_writer write contents" and "ctx_ok env ctx" and "mem_ok m" and "mem_plenty m"
    and "\<forall>v\<in>ran (ht_map (ctx_baggage ctx)). val_ok v"
  shows "\<exists>w' m'. inject_text_map_helper write enc config0 ctx w m = Some (OT_success, w', m') \<and>
    contents w' = contents w @ (''uber-trace-id'', context_string ctx) # map item_pair (ht_items (ctx_baggage ctx)) \<and> mem_trans {} {} m m'"
proof -
  have h: "ht_ok (env_seed env) (ctx_baggage ctx)" "\<not> ctx_locked ctx" using assms(2) by (auto simp: ctx_ok_def)
  from h(1) obtain p bs where b: "ht_buckets (ctx_baggage ctx) = Some (p, bs)"
    "buckets_ok (env_seed env) (ht_order (ctx_baggage ctx)) bs" "ht_nodes (ctx_baggage ctx) = concat bs" by (rule ht_okE)
  note bd = buckets_okD(1,2) [OF b(2)]
  have v: "val_ok (node_value n)" if "n \<in> set (concat bs)" for n
  proof -
    have "(node_key n, node_value n) \<in> set (ht_items (ctx_baggage ctx))" using that by (auto simp: ht_items_def b(3))
    with ht_items_distinct [OF h(1)] have "map_of (ht_items (ctx_baggage ctx)) (node_key n) = Some (node_value n)" by simp
    with assms(5) show ?thesis unfolding ht_items_map by (auto simp: ran_def)
  qed
  have len: "JAEGERTRACINGC_SPAN_CONTEXT_MAX_STR_LEN = 53"
    by (simp add: JAEGERTRACINGC_SPAN_CONTEXT_MAX_STR_LEN_def JAEGERTRACINGC_TRACE_ID_MAX_STR_LEN_def JAEGERTRACINGC_UINT64_MAX_STR_LEN_def)
  note l = length_context_string [of ctx]
  obtain w1 where w: "write ''uber-trace-id'' (context_string ctx) w = (OT_success, w1)"
    "contents w1 = contents w @ [(''uber-trace-id'', context_string ctx)]"
    using assms(1) unfolding faithful_writer_def by (metis prod.collapse)
  have "\<forall>n\<in>set (concat bs). node_ok n \<and> val_ok (node_value n)" using v ht_nodes_ok [OF h(1)] b(3) by auto
  from inject_buckets_spec [OF assms(1,3,4) this, of w1] obtain w' m' where
    i: "inject_buckets write enc config0 bs OT_success w1 m = Some (OT_success, w', m')"
    "contents w' = contents w1 @ map item_pair (map (\<lambda>n. (node_key n, node_value n)) (concat bs))" "mem_trans {} {} m m'" by blast
  have "inject_text_map_helper write enc config0 ctx w m = Some (OT_success, w', m')"
    using context_format_spec [OF _ h(2), of 54] l b(1) bd w(1) i(1)
    by (simp add: inject_text_map_helper_def len bucket_count_def)
  with i(2,3) w(2) show ?thesis by (auto simp: ht_items_def b(3))
qed

end

context text_codec
begin

lemma callback_header:
  assumes "mem_ok m" and "mem_plenty m" and "\<not> ctx_locked dst"
  shows "\<exists>m'. extract_text_map_callback seed norm dec config0 ''uber-trace-id'' (context_string ctx) (dst, m) =
      Some (OT_success, dst\<lparr>ctx_trace_id := ctx_trace_id ctx, ctx_span_id := ctx_span_id ctx, ctx_flags := ctx_flags ctx\<rparr>, m') \<and>
    mem_trans {} {} m m'"
proof -
  from norm_header obtain hb where hb: "norm ''uber-trace-id'' = Some hb" "c_str hb = ''uber-trace-id''" by blast
  from dec_context obtain d where d: "dec (context_string ctx) = Some d" "c_str d = context_string ctx" by blast
  from decode_into_plenty [where conv = norm and s = "''uber-trace-id''" and b = hb, OF assms(1,2) hb(1)] obtain p m1 where
    p: "decode_into norm ''uber-trace-id'' m = Some (Some (p, ''uber-trace-id''), m1)" "fresh_list [p] m m1" using hb(2) by metis
  note m1 = fresh_listD(1,3) [OF p(2)]
  from decode_into_plenty [where conv = dec and s = "context_string ctx" and b = d, OF m1(1) _ d(1)] m1(2) assms(2) d(2) obtain q m2 where
    q: "decode_into dec (context_string ctx) m1 = Some (Some (q, context_string ctx), m2)" "fresh_list [q] m1 m2" by metis
  note pq = fresh_list_append [OF p(2) q(2) assms(1)]
  note m2 = fresh_listD(1,3) [OF q(2)]
  let ?d = "dst\<lparr>ctx_trace_id := ctx_trace_id ctx, ctx_span_id := ctx_span_id ctx, ctx_flags := ctx_flags ctx\<rparr>"
  from scan_spec [OF assms(3) m2(1), of ctx] m2(2) m1(2) assms(2) obtain m3 where
    s: "jaeger_span_context_scan dst (context_string ctx) m2 = Some (True, ?d, m3)" "mem_trans {} {} m2 m3" by auto
  have o: "owns m3 [p, q]" using owns_frame(1) [OF s(2) fresh_listD(2) [OF pq]] by simp
  from free_two [OF mem_trans_ok [OF s(2)] o] obtain m4 m5 where
    f: "jaeger_free (Some p) m3 = Some m4" "jaeger_free (Some q) m4 = Some m5" "mem_trans (set [p, q]) {} m3 m5" .
  have "mem_trans {} {} m m5"
    by (rule mem_trans_scratch [OF _ s(2) f(3) _ assms(1)]) (use fresh_listD(4) [OF pq] in simp_all)
  with p(1) q(1) s(1) f(1,2) show ?thesis
    by (simp add: extract_text_map_callback_def extract_trace_context_def)
qed

lemma callback_item:
  assumes "mem_ok m" and "mem_plenty m" and "key_ok k" and "val_ok v"
    and "ht_ok seed (ctx_baggage dst)" and "owns m (ht_ptrs (ctx_baggage dst))" and "ht_size (ctx_baggage dst) < 2 ^ 30"
  shows "\<exists>b m'. extract_text_map_callback seed norm dec config0 (fst (item_pair (k, v))) (snd (item_pair (k, v))) (dst, m) =
      Some (OT_success, dst\<lparr>ctx_baggage := b\<rparr>, m') \<and> put_post seed (ctx_baggage dst) k v True b \<and>
    distinct (ht_ptrs b) \<and> mem_trans (set (ht_ptrs (ctx_baggage dst))) (set (ht_ptrs b)) m m'"
proof -
  let ?P = "''uberctx-'' @ k"
  from norm_key [OF assms(3)] obtain hb where hb: "norm ?P = Some hb" "c_str hb = ?P" by blast
  from enc_dec [OF assms(4)] obtain e d where e: "enc v = Some e" "dec (c_str e) = Some d" "c_str d = v" by blast
  from decode_into_plenty [where conv = norm and s = ?P and b = hb, OF assms(1,2) hb(1)] obtain p m1 where
    p: "decode_into norm ?P m = Some (Some (p, ?P), m1)" "fresh_list [p] m m1" using hb(2) by metis
  note m1 = fresh_listD(1,3) [OF p(2)]
  from malloc_plenty [of m1 "length ?P - 8 + 1"] m1 assms(2) obtain s m2 where
    s: "jaeger_malloc (length ?P - 8 + 1) m1 = (Some s, m2)" "fresh_list [s] m1 m2" by metis
  note m2 = fresh_listD(1,3) [OF s(2)]
  from decode_into_plenty [where conv = dec and s = "c_str e" and b = d, OF m2(1) _ e(2)] m1(2) m2(2) assms(2) e(3) obtain q m3 where
    q: "decode_into dec (c_str e) m2 = Some (Some (q, v), m3)" "fresh_list [q] m2 m3" by metis
  have psq: "fresh_list [p, s, q] m m3"
    using fresh_list_append [OF p(2) fresh_list_append [OF s(2) q(2) m1(1)] assms(1)] by simp
  note m3 = fresh_listD [OF psq]
  have o3: "owns m3 (ht_ptrs (ctx_baggage dst))" by (rule owns_frame(1) [OF m3(4) assms(6)]) simp
  from put_spec [OF assms(5) m3(1) o3 assms(7), of k v] m3(3) assms(2) obtain b m4 where
    b: "jaeger_hashtable_put seed (ctx_baggage dst) k v m3 = Some (True, b, m4)" "put_post seed (ctx_baggage dst) k v True b"
    "ht_step (ctx_baggage dst) b m3 m4" by auto
  have mt: "mem_trans (set (ht_ptrs (ctx_baggage dst))) (set (ht_ptrs b)) m3 m4" "distinct (ht_ptrs b)" using b(3) by (auto simp: ht_step_def)
  have dj: "set [p, s, q] \<inter> set (ht_ptrs (ctx_baggage dst)) = {}"
    using mem_trans_disj [OF m3(4)] assms(6) by (auto simp: owns_def)
  have o4: "owns m4 [p, s, q]" by (rule owns_frame(1) [OF mt(1) m3(2) dj])
  from free_three [OF mem_trans_ok [OF mt(1)] o4] obtain m5 m6 m7 where
    f: "jaeger_free (Some p) m4 = Some m5" "jaeger_free (Some s) m5 = Some m6" "jaeger_free (Some q) m6 = Some m7"
    "mem_trans (set [p, s, q]) {} m4 m7" .
  have r: "mem_trans (set (ht_ptrs (ctx_baggage dst))) (set (ht_ptrs b)) m m7"
    by (rule mem_trans_scratch [OF m3(4) mt(1) f(4) _ assms(1)]) (use assms(6) in \<open>simp add: owns_def\<close>)
  have "extract_text_map_callback seed norm dec config0 ?P (c_str e) (dst, m) = Some (OT_success, dst\<lparr>ctx_baggage := b\<rparr>, m7)"
    using p(1) s(1) q(1) b(1) f(1-3) key_ne [OF assms(3)]
    by (simp add: extract_text_map_callback_def extract_baggage_item_def Let_def)
  with e(1) r mt(2) b(2) show ?thesis by (auto simp: item_pair_def)
qed

lemma callback_items:
  assumes "mem_ok m" and "mem_plenty m" and "\<forall>kv\<in>set kvs. key_ok (fst kv) \<and> val_ok (snd kv)"
    and "ht_ok seed (ctx_baggage dst)" and "owns m (ht_ptrs (ctx_baggage dst))" and "ht_size (ctx_baggage dst) + length kvs < 2 ^ 30"
    and "distinct (map fst kvs)" and "fst ` set kvs \<inter> dom (ht_map (ctx_baggage dst)) = {}"
  shows "\<exists>b m'. run_pairs (extract_text_map_callback seed norm dec config0) (map item_pair kvs) (dst, m) =
      Some (OT_success, dst\<lparr>ctx_baggage := b\<rparr>, m') \<and> ht_ok seed b \<and> ht_map b = ht_map (ctx_baggage dst) ++ map_of kvs \<and>
    ht_size b = ht_size (ctx_baggage dst) + length kvs \<and>
    distinct (ht_ptrs b) \<and> mem_trans (set (ht_ptrs (ctx_baggage dst))) (set (ht_ptrs b)) m m'"
  using assms
proof (induction kvs arbitrary: dst m)
  case Nil
  then show ?case by (intro exI [of _ "ctx_baggage dst"] exI [of _ m]) (simp add: owns_def mem_trans_keep)
next
  case (Cons kv kvs)
  obtain k v where kv: "kv = (k, v)" by fastforce
  from callback_item [OF Cons.prems(1,2), of k v seed dst] Cons.prems(3-6) kv obtain b m1 where
    c: "extract_text_map_callback seed norm dec config0 (fst (item_pair (k, v))) (snd (item_pair (k, v))) (dst, m) =
      Some (OT_success, dst\<lparr>ctx_baggage := b\<rparr>, m1)" "put_post seed (ctx_baggage dst) k v True b"
    "distinct (ht_ptrs b)" "mem_trans (set (ht_ptrs (ctx_baggage dst))) (set (ht_ptrs b)) m m1" by auto
  have b: "ht_ok seed b" "ht_map b = (ht_map (ctx_baggage dst))(k \<mapsto> v)" "ht_size b = ht_size (ctx_baggage dst) + 1"
    using c(2) Cons.prems(8) kv by (auto simp: put_post_def)
  have dj: "fst ` set kvs \<inter> dom (ht_map b) = {}" unfolding b(2) using Cons.prems(7,8) kv by auto
  from Cons.IH [of m1 "dst\<lparr>ctx_baggage := b\<rparr>"] b(1,3) c(3) mem_trans_ok [OF c(4)] mem_plenty_trans [OF c(4)] owns_trans [OF c(4,3)]
    dj Cons.prems(2,3,6,7) kv obtain b' m' where
    ih: "run_pairs (extract_text_map_callback seed norm dec config0) (map item_pair kvs) (dst\<lparr>ctx_baggage := b\<rparr>, m1) =
      Some (OT_success, dst\<lparr>ctx_baggage := b'\<rparr>, m')" "ht_ok seed b'" "ht_map b' = ht_map b ++ map_of kvs"
    "ht_size b' = ht_size b + length kvs" "distinct (ht_ptrs b')" "mem_trans (set (ht_ptrs b)) (set (ht_ptrs b')) m1 m'" by auto
  have mp: "ht_map b ++ map_of kvs = ht_map (ctx_baggage dst) ++ map_of (kv # kvs)"
  proof -
    have "map_of kvs k = None" using Cons.prems(7) kv by (auto simp: map_of_eq_None_iff)
    then show ?thesis unfolding b(2) kv by (auto simp: map_add_def fun_eq_iff split: option.split)
  qed
  obtain k1 v1 where ip: "item_pair (k, v) = (k1, v1)" by fastforce
  with c(1) have c1: "extract_text_map_callback seed norm dec config0 k1 v1 (dst, m) = Some (OT_success, dst\<lparr>ctx_baggage := b\<rparr>, m1)" by simp
  have "run_pairs (extract_text_map_callback seed norm dec config0) (map item_pair (kv # kvs)) (dst, m) =
      Some (OT_success, dst\<lparr>ctx_baggage := b'\<rparr>, m')" using ih(1) c1 ip kv by simp
  with ih(2-5) mp b(3) mem_trans_trans [OF c(4) ih(6) Cons.prems(1)] show ?case
    by (intro exI [of _ b'] exI [of _ m']) (simp del: run_pairs.simps map_of.simps list.map(2))
qed

lemma carrier_roundtrip:
  assumes "faithful_writer write contents" and "contents w = []" and "\<And>u f s. reader u f s = run_pairs f (contents u) s"
    and "ctx_ok env ctx" and "ht_size (ctx_baggage ctx) < 2 ^ 30"
    and "\<forall>k\<in>dom (ht_map (ctx_baggage ctx)). key_ok k" and "\<forall>v\<in>ran (ht_map (ctx_baggage ctx)). val_ok v"
    and "ctx_trace_id ctx \<noteq> \<lparr>tid_high = 0, tid_low = 0\<rparr> \<or> ht_map (ctx_baggage ctx) \<noteq> Map.empty"
    and "mem_ok m" and "mem_plenty m"
  shows "\<exists>w' m1 p c m2. inject_text_map_helper write enc config0 ctx w m = Some (OT_success, w', m1) \<and> mem_trans {} {} m m1 \<and>
    extract_from_text_map_helper (reader w') (env_seed env) norm dec config0 metrics m1 = Some (OT_success, Some (p, c), metrics, m2) \<and>
    ctx_same ctx c \<and> ctx_ok env c \<and> ctx_debug_id c = None \<and> fresh_list (p # ctx_ptrs c) m1 m2"
proof -
  let ?it = "ht_items (ctx_baggage ctx)"
  have h: "ht_ok (env_seed env) (ctx_baggage ctx)" using assms(4) by (simp add: ctx_ok_def)
  from inject_spec [OF assms(1,4,9,10,7), of w] assms(2) obtain w' m1 where
    i: "inject_text_map_helper write enc config0 ctx w m = Some (OT_success, w', m1)" "mem_trans {} {} m m1"
    "contents w' = (''uber-trace-id'', context_string ctx) # map item_pair ?it" by auto
  note m1 = mem_trans_ok [OF i(2)] mem_plenty_trans [OF i(2)]
  from malloc_plenty [of m1 SIZEOF_SPAN_CONTEXT] m1 assms(10) obtain p m2 where
    p: "jaeger_malloc SIZEOF_SPAN_CONTEXT m1 = (Some p, m2)" "fresh_list [p] m1 m2" by metis
  note m2 = fresh_listD(1,3) [OF p(2)]
  from context_init_plenty [of m2 "env_seed env"] m1 m2 assms(10) obtain b m3 where
    b: "jaeger_span_context_init m2 = Some (True, JAEGERTRACINGC_SPAN_CONTEXT_INIT\<lparr>ctx_baggage := b\<rparr>, m3)"
    "ht_ok (env_seed env) b" "ht_map b = Map.empty" "ht_size b = 0" "fresh_list (ht_ptrs b) m2 m3" by metis
  note m3 = fresh_listD(1,2,3) [OF b(5)]
  let ?I = "JAEGERTRACINGC_SPAN_CONTEXT_INIT\<lparr>ctx_baggage := b\<rparr>"
  have I: "\<not> ctx_locked ?I" "ctx_debug_id ?I = None" by (simp_all add: JAEGERTRACINGC_SPAN_CONTEXT_INIT_def)
  let ?d = "?I\<lparr>ctx_trace_id := ctx_trace_id ctx, ctx_span_id := ctx_span_id ctx, ctx_flags := ctx_flags ctx\<rparr>"
  from callback_header [OF m3(1) _ I(1), of "env_seed env" ctx] m1 m2 m3 assms(10) obtain m4 where
    c: "extract_text_map_callback (env_seed env) norm dec config0 ''uber-trace-id'' (context_string ctx) (?I, m3) = Some (OT_success, ?d, m4)"
    "mem_trans {} {} m3 m4" by auto
  have kv: "\<forall>kv\<in>set ?it. key_ok (fst kv) \<and> val_ok (snd kv)"
    using assms(6,7) ht_items_distinct [OF h] unfolding ht_items_map [symmetric] by (auto simp: ran_def dom_map_of_conv_image_fst image_iff)
  have len: "length ?it \<le> ht_size (ctx_baggage ctx)" using h by (auto simp: ht_items_def ht_ok_def ht_nodes_def split: option.splits)
  have o4: "owns m4 (ht_ptrs b)" by (rule owns_frame(1) [OF c(2) m3(2)]) simp
  from callback_items [of m4 ?it "env_seed env" ?d] mem_trans_ok [OF c(2)] mem_plenty_trans [OF c(2)] m1 m2 m3 assms(5,10) kv len
    b(2-4) o4 ht_items_distinct [OF h] obtain b' m5 where
    r: "run_pairs (extract_text_map_callback (env_seed env) norm dec config0) (map item_pair ?it) (?d, m4) = Some (OT_success, ?d\<lparr>ctx_baggage := b'\<rparr>, m5)"
    "ht_ok (env_seed env) b'" "ht_map b' = ht_map (ctx_baggage ctx)" "ht_size b' = length ?it" "distinct (ht_ptrs b')"
    "mem_trans (set (ht_ptrs b)) (set (ht_ptrs b')) m4 m5" by (auto simp: ht_items_map)
  let ?c = "?d\<lparr>ctx_baggage := b'\<rparr>"
  have ne: "\<not> (tid_high (ctx_trace_id ?c) = 0 \<and> tid_low (ctx_trace_id ?c) = 0 \<and> ht_size (ctx_baggage ?c) = 0)"
    using assms(8) r(4) ht_items_map [of "ctx_baggage ctx"] by (cases "ctx_trace_id ctx") auto
  have "extract_from_text_map_helper (reader w') (env_seed env) norm dec config0 metrics m1 = Some (OT_success, Some (p, ?c), metrics, m5)"
    using p(1) b(1) c(1) r(1) ne I by (auto simp: extract_from_text_map_helper_def assms(3) i(3))
  moreover have "fresh_list (p # ctx_ptrs ?c) m1 m5"
  proof -
    have "mem_trans (set (ht_ptrs b)) (set (ht_ptrs b')) m3 m5" 
      by (rule mem_trans_trans [OF mem_trans_frame [OF c(2), of "set (ht_ptrs b)", simplified] r(6) m3(1)]) (use m3(2) in \<open>simp add: owns_def\<close>)
    from fresh_list_replace [OF fresh_list_append [OF p(2) b(5) m1(1)] this r(5) m1(1)] I(2) show ?thesis by (simp add: ctx_ptrs_def)
  qed
  ultimately show ?thesis using i(1,2) r(2,3) I by (fastforce simp: ctx_same_def ctx_ok_def)
qed

end

lemma context_string_chars:
  assumes "c \<in> set (context_string ctx)"
  shows "c \<noteq> CHR 0x00" and "c \<noteq> CHR ''%''" and "c \<noteq> DEL"
proof -
  have h: "hexval c \<noteq> None \<or> c = CHR '':''"
    using assms trace_id_string_chars hex_of_nat_hexval by (fastforce simp: context_string_def fmt_x_def)
  have "hexval CHR 0x00 = None" "hexval CHR ''%'' = None" "hexval DEL = None"
    by (simp_all add: hexval_def isdigit_def code_def DEL_def)
  with h show "c \<noteq> CHR 0x00" "c \<noteq> CHR ''%''" "c \<noteq> DEL" by (auto simp: DEL_def)
qed

lemma context_string_plain: "nul_free (context_string ctx)" "CHR ''%'' \<notin> set (context_string ctx)" "DEL \<notin> set (context_string ctx)"
  using context_string_chars [of _ ctx] unfolding nul_free_def by blast+

lemma copy_str_plain: "nul_free s \<Longrightarrow> c_str (copy_str s) = s" "length (copy_str s) \<le> Suc (length s * 3)"
  by (simp_all add: copy_str_def)

definition plain_key :: "string \<Rightarrow> bool" where
  "plain_key k \<longleftrightarrow> k \<noteq> [] \<and> nul_free k"

text \<open>What an HTTP header name and value can carry: the extractor lower-cases names and refuses DEL.\<close>

definition header_key :: "string \<Rightarrow> bool" where
  "header_key k \<longleftrightarrow> k \<noteq> [] \<and> nul_free k \<and> map tolower k = k"

definition header_value :: "string \<Rightarrow> bool" where
  "header_value v \<longleftrightarrow> nul_free v \<and> DEL \<notin> set v"

interpretation plain: text_codec "\<lambda>s. Some (copy_str s)" "\<lambda>s. Some (copy_str s)" "\<lambda>s. Some (copy_str s)" plain_key nul_free
  by unfold_locales (simp_all add: plain_key_def copy_str_plain context_string_plain)

lemma tolower_headers [simp]: "map tolower ''uberctx-'' = ''uberctx-''" "map tolower ''uber-trace-id'' = ''uber-trace-id''"
  by (simp_all add: tolower_def isupper_def code_def)

interpretation headers: text_codec "\<lambda>s. Some (to_lowercase s)" encode_uri_value decode_uri_value header_key header_value
proof
  fix k assume "header_key k"
  then have "map tolower (''uberctx-'' @ k) = ''uberctx-'' @ k" "nul_free (''uberctx-'' @ k)"
    unfolding header_key_def by (simp_all only: map_append tolower_headers) simp
  then show "\<exists>b. Some (to_lowercase (''uberctx-'' @ k)) = Some b \<and> c_str b = ''uberctx-'' @ k"
    unfolding to_lowercase_def by (metis c_str_terminated)
next
  show "\<exists>b. Some (to_lowercase ''uber-trace-id'') = Some b \<and> c_str b = ''uber-trace-id''"
    unfolding to_lowercase_def tolower_headers using copy_str_plain(1) [of "''uber-trace-id''"] by (simp add: copy_str_def)
next
  fix v assume "header_value v"
  then show "\<exists>e d. encode_uri_value v = Some e \<and> length e \<le> length v * 3 + 1 \<and> decode_uri_value (c_str e) = Some d \<and> c_str d = v"
    using decode_encode [of v] encode_nul_free [of v] length_encode(2) [of v]
    by (simp add: header_value_def encode_uri_value mult.commute)
next
  fix ctx
  show "\<exists>d. decode_uri_value (context_string ctx) = Some d \<and> c_str d = context_string ctx"
    by (simp add: decode_plain context_string_plain)
qed (simp add: header_key_def)

section \<open>Properties of text carriers\<close>

text \<open>
  C15: a span context survives a text map.  For a carrier that keeps the pairs written to it and an
  unlocked, well-formed context with non-empty baggage keys that carries a trace ID or baggage,
  \<open>jaeger_inject_into_text_map\<close> succeeds and leaks nothing, and \<open>jaeger_extract_from_text_map\<close> returns a
  new context with the same trace ID, span ID, flags and baggage, which owns exactly the new blocks.
\<close>

theorem text_map_roundtrip:
  assumes "faithful_writer write contents" and "contents w = []" and "\<And>u f s. reader u f s = run_pairs f (contents u) s"
    and "ctx_ok env ctx" and "ht_size (ctx_baggage ctx) < 2 ^ 30"
    and "\<forall>k\<in>dom (ht_map (ctx_baggage ctx)). plain_key k" and "\<forall>v\<in>ran (ht_map (ctx_baggage ctx)). nul_free v"
    and "ctx_trace_id ctx \<noteq> \<lparr>tid_high = 0, tid_low = 0\<rparr> \<or> ht_map (ctx_baggage ctx) \<noteq> Map.empty"
    and "mem_ok m" and "mem_plenty m"
  shows "\<exists>w' m1 p c m2. jaeger_inject_into_text_map write config0 ctx w m = Some (OT_success, w', m1) \<and> mem_trans {} {} m m1 \<and>
    jaeger_extract_from_text_map (reader w') (env_seed env) metrics config0 m1 = Some (OT_success, Some (p, c), metrics, m2) \<and>
    ctx_same ctx c \<and> ctx_ok env c \<and> ctx_debug_id c = None \<and> fresh_list (p # ctx_ptrs c) m1 m2"
  unfolding jaeger_inject_into_text_map_def jaeger_extract_from_text_map_def
  using assms by (rule plain.carrier_roundtrip)

definition ctx_two :: jaeger_span_context where
  "ctx_two = ctx_one\<lparr>ctx_trace_id := \<lparr>tid_high = 1, tid_low = 2\<rparr>\<rparr>"

lemma ctx_two_simps [simp]: "ctx_ok env_one ctx_two" "ctx_baggage ctx_two = table_one" "ctx_trace_id ctx_two = \<lparr>tid_high = 1, tid_low = 2\<rparr>"
  "ht_size table_one = 0" "ctx_span_id ctx_two = 7" "ctx_flags ctx_two = 1" "\<not> ctx_locked ctx_two"
  using ctx_one_simps(1) by (simp_all add: ctx_two_def ctx_ok_def)

lemma env_one_seed [simp]: "env_seed env_one = replicate 16 0"
  by (simp add: env_one_def)

definition list_writer :: "(string \<times> string) list text_map_writer" where
  "list_writer k v w = (OT_success, w @ [(k, v)])"

definition list_reader :: "(string \<times> string) list \<Rightarrow> text_map_reader" where
  "list_reader w f s = run_pairs f w s"

lemma list_writer_faithful: "faithful_writer list_writer (\<lambda>w. w)"
  by (simp add: faithful_writer_def list_writer_def)

theorem text_map_roundtrip_witness:
  "\<exists>w' m1 p c m2. jaeger_inject_into_text_map list_writer config0 ctx_two [] mem_one = Some (OT_success, w', m1) \<and>
    jaeger_extract_from_text_map (list_reader w') (replicate 16 0) None config0 m1 = Some (OT_success, Some (p, c), None, m2) \<and>
    ctx_span_id c = 7"
  using text_map_roundtrip [OF list_writer_faithful, of "[]" list_reader env_one ctx_two mem_one None]
  by (auto simp: list_reader_def mem_plenty_def ctx_same_def)

text \<open>
  C3: a span context survives HTTP headers.  The same round trip with values escaped and header names
  lower-cased on extraction, for baggage keys without upper-case letters and values without DEL.
\<close>

theorem http_headers_roundtrip:
  assumes "faithful_writer write contents" and "contents w = []" and "\<And>u f s. reader u f s = run_pairs f (contents u) s"
    and "ctx_ok env ctx" and "ht_size (ctx_baggage ctx) < 2 ^ 30"
    and "\<forall>k\<in>dom (ht_map (ctx_baggage ctx)). header_key k" and "\<forall>v\<in>ran (ht_map (ctx_baggage ctx)). header_value v"
    and "ctx_trace_id ctx \<noteq> \<lparr>tid_high = 0, tid_low = 0\<rparr> \<or> ht_map (ctx_baggage ctx) \<noteq> Map.empty"
    and "mem_ok m" and "mem_plenty m"
  shows "\<exists>w' m1 p c m2. jaeger_inject_into_http_headers write config0 ctx w m = Some (OT_success, w', m1) \<and> mem_trans {} {} m m1 \<and>
    jaeger_extract_from_http_headers (reader w') (env_seed env) metrics config0 m1 = Some (OT_success, Some (p, c), metrics, m2) \<and>
    ctx_same ctx c \<and> ctx_ok env c \<and> ctx_debug_id c = None \<and> fresh_list (p # ctx_ptrs c) m1 m2"
  unfolding jaeger_inject_into_http_headers_def jaeger_extract_from_http_headers_def
  using assms by (rule headers.carrier_roundtrip)

theorem http_headers_roundtrip_witness:
  "\<exists>w' m1 p c m2. jaeger_inject_into_http_headers list_writer config0 ctx_two [] mem_one = Some (OT_success, w', m1) \<and>
    jaeger_extract_from_http_headers (list_reader w') (replicate 16 0) None config0 m1 = Some (OT_success, Some (p, c), None, m2) \<and>
    ctx_trace_id c = \<lparr>tid_high = 1, tid_low = 2\<rparr>"
  using http_headers_roundtrip [OF list_writer_faithful, of "[]" list_reader env_one ctx_two mem_one None]
  by (auto simp: list_reader_def mem_plenty_def ctx_same_def)

section \<open>Big-endian numbers\<close>

lemma to_big_endian_Suc: "to_big_endian (Suc k) w = to_big_endian k (drop_bit 8 w) @ [ucast w]"
proof -
  have "rev [0..<Suc k] = map Suc (rev [0..<k]) @ [0]" by (simp add: upt_conv_Cons map_Suc_upt [symmetric] rev_map del: upt_Suc)
  then show ?thesis by (simp add: to_big_endian_def comp_def add.commute del: upt_Suc)
qed

lemma big_endian: "from_big_endian (to_big_endian k w) = take_bit (8 * k) w"
proof (induction k arbitrary: w)
  case 0
  then show ?case by (simp add: from_big_endian_def to_big_endian_def)
next
  case (Suc k)
  have "from_big_endian (to_big_endian (Suc k) w) = push_bit 8 (from_big_endian (to_big_endian k (drop_bit 8 w))) OR ucast (ucast w :: u8)"
    by (simp add: to_big_endian_Suc from_big_endian_def)
  also have "\<dots> = take_bit (8 * Suc k) w"
    unfolding Suc.IH by (rule bit_word_eqI) (auto simp: bit_simps)
  finally show ?case .
qed

lemma length_big_endian [simp]: "length (to_big_endian k w) = k"
  by (simp add: to_big_endian_def)

lemma big_endian_8 [simp]: "from_big_endian (to_big_endian 8 w) = w"
  using take_bit_word_eq_self [of 64 w] by (simp add: big_endian)

lemma big_endian_4 [simp]: "ucast (from_big_endian (to_big_endian 4 (ucast (w :: u32)))) = w"
  by (rule bit_word_eqI) (simp add: big_endian bit_simps)

lemma big_endian_1 [simp]: "ucast (from_big_endian [b]) = b"
  by (rule bit_word_eqI) (simp add: from_big_endian_def bit_simps)

lemma string_of_bytes_of [simp]: "string_of_bytes (bytes_of s) = s"
proof -
  have "char_of (unat (of_nat (of_char c) :: u8)) = c" for c :: char
  proof -
    have "of_char c < (256 :: nat)" by simp
    then have "unat (of_nat (of_char c) :: u8) = of_char c" by (simp add: unsigned_of_nat take_bit_nat_eq_self)
    then show ?thesis by simp
  qed
  then show ?thesis by (simp add: string_of_bytes_def bytes_of_def comp_def)
qed

section \<open>Binary carriers that keep what is written\<close>

definition faithful_binary_writer :: "'w binary_writer \<Rightarrow> ('w \<Rightarrow> u8 list) \<Rightarrow> bool" where
  "faithful_binary_writer write contents \<longleftrightarrow>
     (\<forall>w bytes. fst (write w bytes) = int (length bytes) \<and> contents (snd (write w bytes)) = contents w @ bytes)"

text \<open>A reader over the bytes that are left; a read past the end is cut short.\<close>

definition faithful_binary_reader :: "'r binary_reader \<Rightarrow> ('r \<Rightarrow> u8 list) \<Rightarrow> bool" where
  "faithful_binary_reader read left \<longleftrightarrow>
     (\<forall>r n. \<exists>r'. read r n = (int (min n (length (left r))), take n (left r), r') \<and> left r' = drop n (left r))"

definition binary_string :: "string \<Rightarrow> u8 list" where
  "binary_string s = to_big_endian 4 (ucast (of_nat (length s) :: u32)) @ bytes_of s"

definition binary_item :: "string \<times> string \<Rightarrow> u8 list" where
  "binary_item kv = binary_string (fst kv) @ binary_string (snd kv)"

definition binary_identity :: "jaeger_span_context \<Rightarrow> u8 list" where
  "binary_identity ctx = to_big_endian 8 (tid_high (ctx_trace_id ctx)) @ to_big_endian 8 (tid_low (ctx_trace_id ctx)) @
     to_big_endian 8 (ctx_span_id ctx) @ [ctx_flags ctx]"

definition short :: "string \<Rightarrow> bool" where
  "short s \<longleftrightarrow> int (length s) \<le> INT_MAX \<and> nul_free s"

lemma short_len:
  assumes "short s"
  shows "unat (of_nat (length s) :: u32) = length s" and "sint (of_nat (length s) :: u32) = int (length s)"
    and "(of_nat (length s) :: u32) + 1 \<noteq> 0" and "unat ((of_nat (length s) :: u32) + 1) = length s + 1"
proof -
  have l: "length s < 2 ^ 31" using assms by (simp add: short_def INT_MAX_def)
  then show u: "unat (of_nat (length s) :: u32) = length s" by (simp add: unsigned_of_nat take_bit_nat_eq_self)
  have "unat (1 + of_nat (length s) :: u32) = 1 + length s"
    using l by (simp add: of_nat_Suc [symmetric] unsigned_of_nat take_bit_nat_eq_self del: of_nat_Suc)
  then show "unat ((of_nat (length s) :: u32) + 1) = length s + 1" by (simp add: add.commute)
  then show "(of_nat (length s) :: u32) + 1 \<noteq> 0" by force
  have "int (length s) < 2 ^ 31" using l by simp
  then show "sint (of_nat (length s) :: u32) = int (length s)"
    by (simp add: signed_of_nat signed_take_bit_int_eq_self)
qed

lemma length_bytes_of [simp]: "length (bytes_of s) = length s"
  by (simp add: bytes_of_def)

subsection \<open>Writing\<close>

lemma write_binary_faithful:
  assumes "faithful_binary_writer write contents"
  shows "\<exists>w'. contents w' = contents w @ bytes \<and> (\<forall>go. write_binary write bytes w go = go w')"
proof -
  obtain w' where "write w bytes = (int (length bytes), w')" "contents w' = contents w @ bytes"
    using assms unfolding faithful_binary_writer_def by (metis prod.collapse)
  then show ?thesis by (auto simp: write_binary_def)
qed

lemma write_string_faithful:
  assumes "faithful_binary_writer write contents" and "short s"
  shows "\<exists>w'. contents w' = contents w @ binary_string s \<and> (\<forall>go. write_string write s w go = go w')"
proof -
  let ?l = "to_big_endian 4 (ucast (of_nat (length s) :: u32))"
  from write_binary_faithful [OF assms(1)] obtain w1 where
    w1: "contents w1 = contents w @ ?l" "\<forall>go. write_binary write ?l w go = go w1" by blast
  obtain w2 where "write w1 (bytes_of s) = (int (length s), w2)" "contents w2 = contents w1 @ bytes_of s"
    using assms(1) unfolding faithful_binary_writer_def by (metis prod.collapse length_bytes_of)
  with w1 short_len [OF assms(2)] show ?thesis by (intro exI [of _ w2]) (simp add: write_string_def binary_string_def)
qed

lemma write_items_faithful:
  assumes "faithful_binary_writer write contents" and "\<forall>n\<in>set ns. node_ok n \<and> short (node_key n) \<and> short (node_value n)"
  shows "\<exists>w'. contents w' = contents w @ concat (map binary_item (map (\<lambda>n. (node_key n, node_value n)) ns)) \<and>
    (\<forall>go. write_items write ns w go = go w')"
  using assms(2)
proof (induction ns arbitrary: w)
  case Nil
  then show ?case by (intro exI [of _ w]) simp
next
  case (Cons n ns)
  then obtain k v where n: "kv_key (snd n) = Some k" "kv_value (snd n) = Some v" "node_key n = snd k" "node_value n = snd v"
    by (auto simp: node_ok_def node_key_def node_value_def)
  from write_string_faithful [OF assms(1), of "snd k" w] Cons.prems n obtain w1 where
    w1: "contents w1 = contents w @ binary_string (snd k)" "\<forall>go. write_string write (snd k) w go = go w1" by auto
  from write_string_faithful [OF assms(1), of "snd v" w1] Cons.prems n obtain w2 where
    w2: "contents w2 = contents w1 @ binary_string (snd v)" "\<forall>go. write_string write (snd v) w1 go = go w2" by auto
  from Cons.IH [of w2] Cons.prems obtain w3 where
    "contents w3 = contents w2 @ concat (map binary_item (map (\<lambda>n. (node_key n, node_value n)) ns))"
    "\<forall>go. write_items write ns w2 go = go w3" by auto
  with w1 w2 n show ?case by (intro exI [of _ w3]) (simp add: binary_item_def [of "(snd k, snd v)"])
qed

lemma inject_binary_spec:
  assumes "faithful_binary_writer write contents" and "ctx_ok env ctx" and "ht_sized (ctx_baggage ctx)"
    and "\<forall>kv\<in>set (ht_items (ctx_baggage ctx)). short (fst kv) \<and> short (snd kv)"
  shows "\<exists>w'. jaeger_inject_into_binary write ctx w = Some (OT_success, w') \<and>
    contents w' = contents w @ binary_identity ctx @ to_big_endian 4 (of_nat (ht_size (ctx_baggage ctx))) @
      concat (map binary_item (ht_items (ctx_baggage ctx)))"
proof -
  have h: "ht_ok (env_seed env) (ctx_baggage ctx)" using assms(2) by (simp add: ctx_ok_def)
  then obtain p bs where b: "ht_buckets (ctx_baggage ctx) = Some (p, bs)"
    "buckets_ok (env_seed env) (ht_order (ctx_baggage ctx)) bs" "ht_nodes (ctx_baggage ctx) = concat bs" by (rule ht_okE)
  note bd = buckets_okD(1,2) [OF b(2)]
  note wb = write_binary_faithful [OF assms(1)]
  from wb obtain w1 where w1: "contents w1 = contents w @ to_big_endian 8 (tid_high (ctx_trace_id ctx))"
    "\<forall>go. write_binary write (to_big_endian 8 (tid_high (ctx_trace_id ctx))) w go = go w1" by blast
  from wb obtain w2 where w2: "contents w2 = contents w1 @ to_big_endian 8 (tid_low (ctx_trace_id ctx))"
    "\<forall>go. write_binary write (to_big_endian 8 (tid_low (ctx_trace_id ctx))) w1 go = go w2" by blast
  from wb obtain w3 where w3: "contents w3 = contents w2 @ to_big_endian 8 (ctx_span_id ctx)"
    "\<forall>go. write_binary write (to_big_endian 8 (ctx_span_id ctx)) w2 go = go w3" by blast
  from wb obtain w4 where w4: "contents w4 = contents w3 @ [ctx_flags ctx]"
    "\<forall>go. write_binary write [ctx_flags ctx] w3 go = go w4" by blast
  from wb obtain w5 where w5: "contents w5 = contents w4 @ to_big_endian 4 (of_nat (ht_size (ctx_baggage ctx)))"
    "\<forall>go. write_binary write (to_big_endian 4 (of_nat (ht_size (ctx_baggage ctx)))) w4 go = go w5" by blast
  have "\<forall>n\<in>set (concat bs). node_ok n \<and> short (node_key n) \<and> short (node_value n)"
    using assms(4) ht_nodes_ok [OF h] b(3) by (auto simp: ht_items_def)
  from write_items_faithful [OF assms(1) this, of w5] obtain w6 where
    w6: "contents w6 = contents w5 @ concat (map binary_item (map (\<lambda>n. (node_key n, node_value n)) (concat bs)))"
    "\<forall>go. write_items write (concat bs) w5 go = go w6" by auto
  have "ht_size (ctx_baggage ctx) = length (concat bs)" using assms(3) b(3) by (simp add: ht_sized_def)
  then have "jaeger_inject_into_binary write ctx w = Some (OT_success, w6)"
    using w1(2) w2(2) w3(2) w4(2) w5(2) w6(2) b(1) bd by (simp add: jaeger_inject_into_binary_def bucket_count_def)
  with w1(1) w2(1) w3(1) w4(1) w5(1) w6(1) show ?thesis by (simp add: binary_identity_def ht_items_def b(3))
qed

subsection \<open>Reading\<close>

lemma read_binary_faithful:
  assumes "faithful_binary_reader read left" and "left r = bytes @ rest" and "length bytes \<in> {1, 4, 8}"
  shows "\<exists>r'. read_binary read r (length bytes) = Some (Some (from_big_endian bytes), r') \<and> left r' = rest"
proof -
  from assms(1,2) obtain r' where "read r (length bytes) = (int (length bytes), bytes, r')" "left r' = rest"
    unfolding faithful_binary_reader_def by (metis append_eq_conv_conj length_append min.commute min.absorb1 le_add1)
  with assms(3) show ?thesis by (auto simp: read_binary_def)
qed

lemma read_binary_total:
  assumes "faithful_binary_reader read left" and "n \<in> {1, 4, 8}"
  shows "\<exists>v r'. read_binary read r n = Some (v, r') \<and> left r' = drop n (left r) \<and> (v = None \<longleftrightarrow> length (left r) < n)"
proof -
  from assms(1) obtain r' where "read r n = (int (min n (length (left r))), take n (left r), r')" "left r' = drop n (left r)"
    unfolding faithful_binary_reader_def by blast
  with assms(2) show ?thesis by (cases "length (left r) < n") (auto simp: read_binary_def)
qed

lemma read_string_faithful:
  assumes "faithful_binary_reader read left" and "left r = bytes_of s @ rest" and "short s" and "mem_ok m" and "mem_plenty m"
  shows "\<exists>p r' m'. read_buffer read r (of_nat (length s)) m = Some (True, Some (p, s), r', m') \<and> left r' = rest \<and> fresh_list [p] m m'"
proof -
  from malloc_plenty [OF assms(4,5), of "length s + 1"] obtain p m' where
    p: "jaeger_malloc (length s + 1) m = (Some p, m')" "fresh_list [p] m m'" .
  from assms(1,2) obtain r' where "read r (length s) = (int (length s), bytes_of s, r')" "left r' = rest"
    unfolding faithful_binary_reader_def
    by (metis append_eq_conv_conj length_append length_bytes_of min.commute min.absorb1 le_add1)
  moreover have "nul_free s" using assms(3) by (simp add: short_def)
  ultimately show ?thesis using p short_len [OF assms(3)] by (auto simp: read_buffer_def)
qed

lemma parse_item_faithful:
  assumes "faithful_binary_reader read left" and "left r = binary_item (k, v) @ rest" and "short k" and "short v"
    and "mem_ok m" and "mem_plenty m"
    and "ht_ok seed b" and "owns m (ht_ptrs b)" and "ht_size b < 2 ^ 30"
  shows "\<exists>p q r' b' m'. (\<forall>n kb vb. parse_baggage_items read seed (Suc n) kb vb r b m =
      parse_baggage_items read seed n (Some p) (Some q) r' b' m') \<and> left r' = rest \<and>
    put_post seed b k v True b' \<and> distinct (ht_ptrs b') \<and> mem_trans (set (ht_ptrs b)) (set (ht_ptrs b')) m m' \<and>
    p \<notin> dom (mem_blocks m')"
proof -
  let ?l = "\<lambda>s. to_big_endian 4 (ucast (of_nat (length s) :: u32)) :: u8 list"
  have st: "left r = ?l k @ bytes_of k @ ?l v @ bytes_of v @ rest" using assms(2) by (simp add: binary_item_def binary_string_def)
  from read_binary_faithful [OF assms(1) st] obtain r1 where
    r1: "read_binary read r 4 = Some (Some (from_big_endian (?l k)), r1)" "left r1 = bytes_of k @ ?l v @ bytes_of v @ rest" by auto
  from read_string_faithful [OF assms(1) r1(2) assms(3,5,6)] obtain p r2 m1 where
    r2: "read_buffer read r1 (of_nat (length k)) m = Some (True, Some (p, k), r2, m1)" "left r2 = ?l v @ bytes_of v @ rest"
    "fresh_list [p] m m1" by blast
  note m1 = fresh_listD(1,3) [OF r2(3)]
  from read_binary_faithful [OF assms(1) r2(2)] obtain r3 where
    r3: "read_binary read r2 4 = Some (Some (from_big_endian (?l v)), r3)" "left r3 = bytes_of v @ rest" by auto
  from read_string_faithful [OF assms(1) r3(2) assms(4) m1(1)] m1(2) assms(6) obtain q r4 m2 where
    r4: "read_buffer read r3 (of_nat (length v)) m1 = Some (True, Some (q, v), r4, m2)" "left r4 = rest" "fresh_list [q] m1 m2" by blast
  have pq: "fresh_list [p, q] m m2" using fresh_list_append [OF r2(3) r4(3) assms(5)] by simp
  note m2 = fresh_listD [OF pq]
  have o2: "owns m2 (ht_ptrs b)" by (rule owns_frame(1) [OF m2(4) assms(8)]) simp
  from put_spec [OF assms(7) m2(1) o2 assms(9), of k v] m2(3) assms(6) obtain b' m3 where
    b: "jaeger_hashtable_put seed b k v m2 = Some (True, b', m3)" "put_post seed b k v True b'" "ht_step b b' m2 m3" by auto
  have mt: "mem_trans (set (ht_ptrs b)) (set (ht_ptrs b')) m2 m3" "distinct (ht_ptrs b')" using b(3) by (auto simp: ht_step_def)
  have dj: "set [p, q] \<inter> set (ht_ptrs b) = {}" using mem_trans_disj [OF m2(4)] assms(8) by (auto simp: owns_def)
  have o3: "owns m3 [p, q]" by (rule owns_frame(1) [OF mt(1) m2(2) dj])
  from free_two [OF mem_trans_ok [OF mt(1)] o3] obtain m4 m5 where
    f: "jaeger_free (Some p) m3 = Some m4" "jaeger_free (Some q) m4 = Some m5" "mem_trans (set [p, q]) {} m3 m5" .
  have r: "mem_trans (set (ht_ptrs b)) (set (ht_ptrs b')) m m5"
    by (rule mem_trans_scratch [OF m2(4) mt(1) f(3) _ assms(5)]) (use assms(8) in \<open>simp add: owns_def\<close>)
  have pn: "p \<notin> dom (mem_blocks m5)" using mem_trans_dom [OF f(3)] by auto
  have "parse_baggage_items read seed (Suc n) kb vb r b m = parse_baggage_items read seed n (Some p) (Some q) r4 b' m5" for n kb vb
    using r1(1) r2(1) r3(1) r4(1) b(1) f(1,2) by simp
  with r4(2) b(2) mt(2) r pn show ?thesis by blast
qed

lemma parse_items_faithful:
  assumes "faithful_binary_reader read left" and "left r = concat (map binary_item kvs) @ rest"
    and "\<forall>kv\<in>set kvs. short (fst kv) \<and> short (snd kv)" and "mem_ok m" and "mem_plenty m"
    and "ht_ok seed b" and "owns m (ht_ptrs b)" and "ht_size b + length kvs < 2 ^ 30"
    and "distinct (map fst kvs)" and "fst ` set kvs \<inter> dom (ht_map b) = {}"
  shows "\<exists>r' b' m'. parse_baggage_items read seed (length kvs) kb vb r b m = Some (OT_success, b', r', m') \<and>
    ht_ok seed b' \<and> ht_map b' = ht_map b ++ map_of kvs \<and> ht_size b' = ht_size b + length kvs \<and>
    distinct (ht_ptrs b') \<and> mem_trans (set (ht_ptrs b)) (set (ht_ptrs b')) m m'"
  using assms(2-)
proof (induction kvs arbitrary: r b m kb vb)
  case Nil
  then show ?case by (auto simp: owns_def mem_trans_keep)
next
  case (Cons kv kvs)
  obtain k v where kv: "kv = (k, v)" by fastforce
  have st: "left r = binary_item (k, v) @ (concat (map binary_item kvs) @ rest)" using Cons.prems(1) kv by simp
  have ks: "short k" "short v" "ht_size b < 2 ^ 30" using Cons.prems(2,7) kv by auto
  from parse_item_faithful [OF assms(1) st ks(1,2) Cons.prems(3-6) ks(3)] obtain p q r1 b1 m1 where
    i: "\<forall>n kb vb. parse_baggage_items read seed (Suc n) kb vb r b m = parse_baggage_items read seed n (Some p) (Some q) r1 b1 m1"
    "left r1 = concat (map binary_item kvs) @ rest" "put_post seed b k v True b1" "distinct (ht_ptrs b1)"
    "mem_trans (set (ht_ptrs b)) (set (ht_ptrs b1)) m m1" by blast
  have b: "ht_ok seed b1" "ht_map b1 = (ht_map b)(k \<mapsto> v)" "ht_size b1 = ht_size b + 1"
    using i(3) Cons.prems(9) kv by (auto simp: put_post_def)
  have dj: "fst ` set kvs \<inter> dom (ht_map b1) = {}" unfolding b(2) using Cons.prems(8,9) kv by auto
  from Cons.IH [OF i(2) _ mem_trans_ok [OF i(5)] _ b(1) owns_trans [OF i(5,4)] _ _ dj, of "Some p" "Some q"]
    mem_plenty_trans [OF i(5)] b(3) Cons.prems(2,4,7,8) kv obtain r' b' m' where
    ih: "parse_baggage_items read seed (length kvs) (Some p) (Some q) r1 b1 m1 = Some (OT_success, b', r', m')"
    "ht_ok seed b'" "ht_map b' = ht_map b1 ++ map_of kvs" "ht_size b' = ht_size b1 + length kvs"
    "distinct (ht_ptrs b')" "mem_trans (set (ht_ptrs b1)) (set (ht_ptrs b')) m1 m'" by auto
  have "map_of kvs k = None" using Cons.prems(8) kv by (auto simp: map_of_eq_None_iff)
  then have "ht_map b1 ++ map_of kvs = ht_map b ++ map_of (kv # kvs)"
    unfolding b(2) kv by (auto simp: map_add_def fun_eq_iff split: option.split)
  with i(1) ih b(3) mem_trans_trans [OF i(5) ih(6) Cons.prems(3)] show ?case
    by (intro exI [of _ r'] exI [of _ b'] exI [of _ m']) (simp del: parse_baggage_items.simps map_of.simps)
qed

lemma read_identity_faithful:
  assumes "faithful_binary_reader read left" and "left r = binary_identity ctx @ rest"
  shows "\<exists>r'. read_identity read r dst = Some (True, dst\<lparr>ctx_trace_id := ctx_trace_id ctx, ctx_span_id := ctx_span_id ctx,
      ctx_flags := ctx_flags ctx\<rparr>, r') \<and> left r' = rest"
proof -
  note rb = read_binary_faithful [OF assms(1)]
  have st: "left r = to_big_endian 8 (tid_high (ctx_trace_id ctx)) @ to_big_endian 8 (tid_low (ctx_trace_id ctx)) @
     to_big_endian 8 (ctx_span_id ctx) @ [ctx_flags ctx] @ rest" using assms(2) by (simp add: binary_identity_def)
  from rb [OF st] obtain r1 where r1: "read_binary read r 8 = Some (Some (tid_high (ctx_trace_id ctx)), r1)"
    "left r1 = to_big_endian 8 (tid_low (ctx_trace_id ctx)) @ to_big_endian 8 (ctx_span_id ctx) @ [ctx_flags ctx] @ rest" by auto
  from rb [OF r1(2)] obtain r2 where r2: "read_binary read r1 8 = Some (Some (tid_low (ctx_trace_id ctx)), r2)"
    "left r2 = to_big_endian 8 (ctx_span_id ctx) @ [ctx_flags ctx] @ rest" by auto
  from rb [OF r2(2)] obtain r3 where r3: "read_binary read r2 8 = Some (Some (ctx_span_id ctx), r3)"
    "left r3 = [ctx_flags ctx] @ rest" by auto
  from rb [OF r3(2)] obtain r4 where r4: "read_binary read r3 1 = Some (Some (from_big_endian [ctx_flags ctx]), r4)" "left r4 = rest" by auto
  show ?thesis using r1(1) r2(1) r3(1) r4 by (simp add: read_identity_def Let_def)
qed

lemma read_identity_short:
  assumes "faithful_binary_reader read left" and "length (left r) < 25"
  shows "\<exists>c r'. read_identity read r dst = Some (False, c, r') \<and> ctx_baggage c = ctx_baggage dst \<and>
    ctx_locked c = ctx_locked dst \<and> ctx_debug_id c = ctx_debug_id dst"
proof -
  note rt = read_binary_total [OF assms(1)]
  from rt [of 8 r] obtain a r1 where r1: "read_binary read r 8 = Some (a, r1)" "left r1 = drop 8 (left r)" "a = None \<longleftrightarrow> length (left r) < 8" by auto
  from rt [of 8 r1] obtain b r2 where r2: "read_binary read r1 8 = Some (b, r2)" "left r2 = drop 8 (left r1)" "b = None \<longleftrightarrow> length (left r1) < 8" by auto
  from rt [of 8 r2] obtain c r3 where r3: "read_binary read r2 8 = Some (c, r3)" "left r3 = drop 8 (left r2)" "c = None \<longleftrightarrow> length (left r2) < 8" by auto
  from rt [of 1 r3] obtain d r4 where r4: "read_binary read r3 1 = Some (d, r4)" "d = None \<longleftrightarrow> length (left r3) < 1" by auto
  have "a = None \<or> b = None \<or> c = None \<or> d = None" using r1 r2 r3 r4 assms(2) by auto
  with r1(1) r2(1) r3(1) r4(1) show ?thesis by (auto simp: read_identity_def Let_def split: option.split)
qed

text \<open>\<open>jaeger_extract_from_binary\<close> after the allocation and initialisation of its context.\<close>

definition extract_binary_rest where
  "extract_binary_rest read seed r metrics p b m = do {
     (ok, ctx, arg) \<leftarrow> read_identity read r (JAEGERTRACINGC_SPAN_CONTEXT_INIT\<lparr>ctx_baggage := b\<rparr>);
     if \<not> ok then extract_cleanup OT_span_context_corrupted (Some (p, ctx)) metrics m
     else do {
       (error_code, baggage, arg, m) \<leftarrow> parse_baggage_binary read seed arg (ctx_baggage ctx) m;
       let ctx = ctx\<lparr>ctx_baggage := baggage\<rparr>;
       if error_code \<noteq> OT_success then extract_cleanup error_code (Some (p, ctx)) metrics m
       else Some (OT_success, Some (p, ctx), metrics, m)
     }
   }"

lemma extract_binary_start:
  assumes "mem_ok m" and "mem_plenty m"
  obtains p b m1 where "ht_ok seed b" and "ht_map b = Map.empty" and "ht_size b = 0" and "fresh_list (p # ht_ptrs b) m m1"
    and "jaeger_extract_from_binary read seed r metrics m = extract_binary_rest read seed r metrics p b m1"
proof -
  from malloc_plenty [OF assms, of SIZEOF_SPAN_CONTEXT] obtain p m1 where
    p: "jaeger_malloc SIZEOF_SPAN_CONTEXT m = (Some p, m1)" "fresh_list [p] m m1" .
  note m1 = fresh_listD(1,3) [OF p(2)]
  from context_init_plenty [of m1 seed] m1 assms(2) obtain b m2 where
    b: "jaeger_span_context_init m1 = Some (True, JAEGERTRACINGC_SPAN_CONTEXT_INIT\<lparr>ctx_baggage := b\<rparr>, m2)"
    "ht_ok seed b" "ht_map b = Map.empty" "ht_size b = 0" "fresh_list (ht_ptrs b) m1 m2" by metis
  from fresh_list_append [OF p(2) b(5) assms(1)] that [OF b(2-4), of p m2] p(1) b(1) show thesis
    by (simp add: jaeger_extract_from_binary_def extract_binary_rest_def)
qed

lemma SPAN_CONTEXT_INIT_simps [simp]:
  "\<not> ctx_locked JAEGERTRACINGC_SPAN_CONTEXT_INIT" "ctx_debug_id JAEGERTRACINGC_SPAN_CONTEXT_INIT = None"
  by (simp_all add: JAEGERTRACINGC_SPAN_CONTEXT_INIT_def)

lemma read_count:
  assumes "faithful_binary_reader read left" and "left r = to_big_endian 4 (of_nat n) @ rest" and "n < 2 ^ 31"
  shows "\<exists>r'. parse_baggage_binary read seed r b m = parse_baggage_items read seed n None None r' b m \<and> left r' = rest"
proof -
  have u: "(of_nat n :: u64) = ucast (of_nat n :: u32)" using assms(3)
    by (simp add: word_unat_eq_iff unsigned_ucast_eq unsigned_of_nat take_bit_nat_eq_self)
  from read_binary_faithful [OF assms(1,2)] obtain r' where
    r: "read_binary read r 4 = Some (Some (from_big_endian (to_big_endian 4 (of_nat n))), r')" "left r' = rest" by auto
  have "int n < 2 ^ 31" using assms(3) by simp
  then have "sint (of_nat n :: u32) = int n" by (simp add: signed_of_nat signed_take_bit_int_eq_self)
  with r u show ?thesis by (auto simp: parse_baggage_binary_def)
qed

lemma extract_cleanup_corrupted:
  assumes "ctx_ok env c" and "fresh_list (p # ctx_ptrs c) m m1" and "mem_ok m" and "mt_counters mt decoding_errors = Some n"
  shows "\<exists>m'. extract_cleanup OT_span_context_corrupted (Some (p, c)) (Some mt) m1 =
      Some (OT_span_context_corrupted, None,
        Some (mt\<lparr>mt_counters := (mt_counters mt)(decoding_errors \<mapsto> counter_inc n 1)\<rparr>), m') \<and> mem_trans {} {} m m'"
proof -
  note f = fresh_listD [OF assms(2)]
  have o: "owns m1 (ctx_ptrs c @ [p])" using f(2) by (auto simp: owns_def)
  from context_destroy_spec [OF assms(1) f(1) owns_head [OF o]] obtain c' m2 where
    d: "jaeger_span_context_destroy c m1 = Some (c', m2)" "mem_trans (set (ctx_ptrs c)) {} m1 m2" by blast
  note r = release_rest [OF d(2) o]
  from r have "p \<in> dom (mem_blocks m2)" by (simp add: own_simps)
  from jaeger_free_live [OF r(2) this] obtain m3 where g: "jaeger_free (Some p) m2 = Some m3" "mem_trans (set [p]) {} m2 m3" by auto
  have "mem_trans (set (p # ctx_ptrs c)) {} m1 m3" using release_append [OF d(2) g(2) o f(1)] by (simp add: insert_commute)
  from mem_trans_trans [OF f(4) this assms(3)] d(1) g(1) assms(4) show ?thesis
    by (simp add: extract_cleanup_def metrics_inc_def)
qed

section \<open>Properties of binary carriers\<close>

text \<open>
  C13: a span context survives a binary carrier.  For a carrier that keeps the bytes written to it and a
  well-formed context with an exact baggage count below \<open>2^30\<close> and items that fit an \<open>int\<close>,
  \<open>jaeger_inject_into_binary\<close> succeeds, and \<open>jaeger_extract_from_binary\<close> on those bytes returns a new context
  with the same trace ID, span ID, flags and baggage, which owns exactly the new blocks.
\<close>

theorem binary_roundtrip:
  assumes "faithful_binary_writer write contents" and "contents w = []" and "faithful_binary_reader read left"
    and "ctx_ok env ctx" and "ht_sized (ctx_baggage ctx)" and "ht_size (ctx_baggage ctx) < 2 ^ 30"
    and "\<forall>kv\<in>set (ht_items (ctx_baggage ctx)). short (fst kv) \<and> short (snd kv)" and "mem_ok m" and "mem_plenty m"
  shows "\<exists>w'. jaeger_inject_into_binary write ctx w = Some (OT_success, w') \<and>
    (\<forall>r. left r = contents w' \<longrightarrow>
      (\<exists>p c m'. jaeger_extract_from_binary read (env_seed env) r metrics m = Some (OT_success, Some (p, c), metrics, m') \<and>
        ctx_same ctx c \<and> ctx_ok env c \<and> fresh_list (p # ctx_ptrs c) m m'))"
proof -
  let ?it = "ht_items (ctx_baggage ctx)"
  have h: "ht_ok (env_seed env) (ctx_baggage ctx)" using assms(4) by (simp add: ctx_ok_def)
  have len: "ht_size (ctx_baggage ctx) = length ?it" using assms(5) by (simp add: ht_sized_def ht_items_def)
  from inject_binary_spec [OF assms(1,4,5,7), of w] assms(2) obtain w' where
    i: "jaeger_inject_into_binary write ctx w = Some (OT_success, w')"
    "contents w' = binary_identity ctx @ to_big_endian 4 (of_nat (length ?it)) @ concat (map binary_item ?it) @ []"
    by (auto simp: len)
  have "\<exists>p c m'. jaeger_extract_from_binary read (env_seed env) r metrics m = Some (OT_success, Some (p, c), metrics, m') \<and>
      ctx_same ctx c \<and> ctx_ok env c \<and> fresh_list (p # ctx_ptrs c) m m'" if r: "left r = contents w'" for r
  proof -
    obtain p b m1 where
      b: "ht_ok (env_seed env) b" "ht_map b = Map.empty" "ht_size b = 0" "fresh_list (p # ht_ptrs b) m m1"
      and ex: "jaeger_extract_from_binary read (env_seed env) r metrics m = extract_binary_rest read (env_seed env) r metrics p b m1"
      by (rule extract_binary_start [OF assms(8,9)])
    note m1 = fresh_listD [OF b(4)]
    let ?d = "JAEGERTRACINGC_SPAN_CONTEXT_INIT\<lparr>ctx_baggage := b, ctx_trace_id := ctx_trace_id ctx, ctx_span_id := ctx_span_id ctx,
      ctx_flags := ctx_flags ctx\<rparr>"
    from read_identity_faithful [OF assms(3) r [unfolded i(2)], of "JAEGERTRACINGC_SPAN_CONTEXT_INIT\<lparr>ctx_baggage := b\<rparr>"] obtain r1 where
      r1: "read_identity read r (JAEGERTRACINGC_SPAN_CONTEXT_INIT\<lparr>ctx_baggage := b\<rparr>) = Some (True, ?d, r1)"
      "left r1 = to_big_endian 4 (of_nat (length ?it)) @ concat (map binary_item ?it) @ []" by auto
    have "length ?it < 2 ^ 31" using assms(6) len by simp
    from read_count [OF assms(3) r1(2) this] obtain r2 where
      r2: "parse_baggage_binary read (env_seed env) r1 b m1 = parse_baggage_items read (env_seed env) (length ?it) None None r2 b m1"
      "left r2 = concat (map binary_item ?it) @ []" by blast
    have o: "owns m1 (ht_ptrs b)" using m1(2) by (simp add: own_simps)
    from parse_items_faithful [OF assms(3) r2(2) assms(7) m1(1) _ b(1) o, of None None] assms(6,9) m1(3) len b(2,3) ht_items_distinct [OF h]
    obtain r3 b' m2 where
      r3: "parse_baggage_items read (env_seed env) (length ?it) None None r2 b m1 = Some (OT_success, b', r3, m2)"
      "ht_ok (env_seed env) b'" "ht_map b' = ht_map (ctx_baggage ctx)" "distinct (ht_ptrs b')"
      "mem_trans (set (ht_ptrs b)) (set (ht_ptrs b')) m1 m2" by (auto simp: ht_items_map)
    have "jaeger_extract_from_binary read (env_seed env) r metrics m = Some (OT_success, Some (p, ?d\<lparr>ctx_baggage := b'\<rparr>), metrics, m2)"
      unfolding ex extract_binary_rest_def using r1(1) r2(1) r3(1) by simp
    moreover have "fresh_list (p # ctx_ptrs (?d\<lparr>ctx_baggage := b'\<rparr>)) m m2"
      using fresh_list_replace [of "[p]", OF _ r3(5,4) assms(8)] b(4) by (simp add: ctx_ptrs_def)
    ultimately show ?thesis using r3(2,3)
      by (intro exI [of _ p] exI [of _ "?d\<lparr>ctx_baggage := b'\<rparr>"] exI [of _ m2]) (simp add: ctx_same_def ctx_ok_def)
  qed
  with i(1) show ?thesis by blast
qed

definition bytes_writer :: "u8 list binary_writer" where
  "bytes_writer w bytes = (int (length bytes), w @ bytes)"

definition bytes_reader :: "u8 list binary_reader" where
  "bytes_reader r n = (int (min n (length r)), take n r, drop n r)"

lemma bytes_faithful: "faithful_binary_writer bytes_writer (\<lambda>w. w)" "faithful_binary_reader bytes_reader (\<lambda>r. r)"
  by (simp_all add: faithful_binary_writer_def bytes_writer_def faithful_binary_reader_def bytes_reader_def)

lemma table_one_items: "ht_items table_one = []"
  by (simp add: ht_items_def ht_nodes_def table_one_def)

theorem binary_roundtrip_witness:
  "\<exists>w' p c m'. jaeger_inject_into_binary bytes_writer ctx_two [] = Some (OT_success, w') \<and>
    jaeger_extract_from_binary bytes_reader (replicate 16 0) w' None mem_one = Some (OT_success, Some (p, c), None, m') \<and>
    ctx_trace_id c = \<lparr>tid_high = 1, tid_low = 2\<rparr> \<and> ctx_span_id c = 7"
  using binary_roundtrip [OF bytes_faithful(1) _ bytes_faithful(2), of "[]" env_one ctx_two mem_one None]
  by (auto simp: mem_plenty_def ctx_same_def table_one_items)

text \<open>
  C27: what \<open>jaeger_extract_from_binary\<close> does with a stream that ends early.  If the identity is cut short it
  reports a corrupted context, counts one decoding error, returns no context and leaks nothing.  If
  the stream ends after the first of several announced baggage items it does not return: the cleanup
  of \<open>parse_baggage_binary\<close> frees the buffers of the first item a second time.
\<close>

theorem binary_truncated:
  assumes "faithful_binary_reader read left" and "mem_ok m" and "mem_plenty m" and "mt_counters mt decoding_errors = Some d"
  shows "(length (left r) < 25 \<longrightarrow> (\<exists>m'. jaeger_extract_from_binary read seed r (Some mt) m =
      Some (OT_span_context_corrupted, None, Some (mt\<lparr>mt_counters := (mt_counters mt)(decoding_errors \<mapsto> counter_inc d 1)\<rparr>), m') \<and>
      mem_trans {} {} m m')) \<and>
    (left r = binary_identity ctx @ to_big_endian 4 (of_nat n) @ binary_item (k, v) \<and> 2 \<le> n \<and> n < 2 ^ 31 \<and> short k \<and> short v \<longrightarrow>
      jaeger_extract_from_binary read seed r (Some mt) m = None)"
proof -
  obtain p b m1 where
    b: "ht_ok seed b" "ht_map b = Map.empty" "ht_size b = 0" "fresh_list (p # ht_ptrs b) m m1"
    and ex: "jaeger_extract_from_binary read seed r (Some mt) m = extract_binary_rest read seed r (Some mt) p b m1"
    by (rule extract_binary_start [OF assms(2,3)])
  let ?I = "JAEGERTRACINGC_SPAN_CONTEXT_INIT\<lparr>ctx_baggage := b\<rparr>"
  have cut: "\<exists>m'. jaeger_extract_from_binary read seed r (Some mt) m =
      Some (OT_span_context_corrupted, None, Some (mt\<lparr>mt_counters := (mt_counters mt)(decoding_errors \<mapsto> counter_inc d 1)\<rparr>), m') \<and>
      mem_trans {} {} m m'" if "length (left r) < 25"
  proof -
    from read_identity_short [OF assms(1) that, of ?I] obtain c r' where c: "read_identity read r ?I = Some (False, c, r')"
      "ctx_baggage c = b" "\<not> ctx_locked c" "ctx_debug_id c = None" by auto
    then have "ctx_ok (env_one\<lparr>env_seed := seed\<rparr>) c" "fresh_list (p # ctx_ptrs c) m m1"
      using b(1,4) by (simp_all add: ctx_ok_def ctx_ptrs_def)
    from extract_cleanup_corrupted [OF this assms(2,4)] c(1) show ?thesis by (simp add: ex extract_binary_rest_def)
  qed
  have double: "jaeger_extract_from_binary read seed r (Some mt) m = None"
    if l: "left r = binary_identity ctx @ to_big_endian 4 (of_nat n) @ binary_item (k, v)" and n: "2 \<le> n" "n < 2 ^ 31" "short k" "short v"
  proof -
    let ?d = "?I\<lparr>ctx_trace_id := ctx_trace_id ctx, ctx_span_id := ctx_span_id ctx, ctx_flags := ctx_flags ctx\<rparr>"
    from read_identity_faithful [OF assms(1) l, of ?I] obtain r1 where
      r1: "read_identity read r ?I = Some (True, ?d, r1)" "left r1 = to_big_endian 4 (of_nat n) @ binary_item (k, v) @ []" by auto
    from read_count [OF assms(1) r1(2) n(2)] obtain r2 where
      r2: "parse_baggage_binary read seed r1 b m1 = parse_baggage_items read seed n None None r2 b m1" "left r2 = binary_item (k, v) @ []" by blast
    note m1 = fresh_listD [OF b(4)]
    have o: "owns m1 (ht_ptrs b)" using m1(2) by (simp add: own_simps)
    have pl: "mem_plenty m1" "ht_size b < 2 ^ 30" using assms(3) m1(3) b(3) by simp_all
    from parse_item_faithful [OF assms(1) r2(2) n(3,4) m1(1) pl(1) b(1) o pl(2)] obtain p1 q1 r3 b' m2 where
      r3: "\<And>n kb vb. parse_baggage_items read seed (Suc n) kb vb r2 b m1 = parse_baggage_items read seed n (Some p1) (Some q1) r3 b' m2"
      "left r3 = []" "p1 \<notin> dom (mem_blocks m2)" "mem_trans (set (ht_ptrs b)) (set (ht_ptrs b')) m1 m2" by blast
    from n(1) obtain j where j: "n = Suc (Suc j)" by (metis Suc_le_D numeral_2_eq_2 Suc_le_mono)
    from read_binary_total [OF assms(1), of 4 r3] r3(2) obtain r4 where r4: "read_binary read r3 4 = Some (None, r4)" by auto
    have "jaeger_free (Some p1) m2 = None"
      using jaeger_free_SomeD(1) [of p1 m2] r3(3) mem_trans_ok [OF r3(4)] by (cases "jaeger_free (Some p1) m2") auto
    with r3(1) [of "Suc j"] r4 have "parse_baggage_items read seed n None None r2 b m1 = None"
      unfolding j by (simp add: parse_cleanup_def del: parse_baggage_items.simps add: parse_baggage_items.simps(2) [of _ _ j])
    with r1 r2 show ?thesis unfolding ex extract_binary_rest_def by simp
  qed
  from cut double show ?thesis by blast
qed

theorem binary_truncated_witness:
  "(\<exists>metrics m'. jaeger_extract_from_binary bytes_reader (replicate 16 0) [1, 2, 3] (Some jaeger_null_metrics) mem_one =
      Some (OT_span_context_corrupted, None, metrics, m')) \<and>
   jaeger_extract_from_binary bytes_reader (replicate 16 0)
     (binary_identity ctx_two @ to_big_endian 4 (of_nat 2) @ binary_item (''k'', ''v'')) (Some jaeger_null_metrics) mem_one = None"
  using binary_truncated [OF bytes_faithful(2), of mem_one jaeger_null_metrics Null_counter "[1, 2, 3]" "replicate 16 0" ctx_two 2 "''k''" "''v''"]
    binary_truncated [OF bytes_faithful(2), of mem_one jaeger_null_metrics Null_counter
      "binary_identity ctx_two @ to_big_endian 4 (of_nat 2) @ binary_item (''k'', ''v'')" "replicate 16 0" ctx_two 2 "''k''" "''v''"]
  by (auto simp: mem_plenty_def jaeger_null_metrics_def short_def INT_MAX_def)

end
