(* ===== verification/Threading.thy ===== *)
theory Threading
  imports Prelude
begin

text \<open>
  Threads, mutexes, condition variables, one-time initialisation and thread-local values:
  \<open>src/jaegertracingc/threading.c\<close>, \<open>threading.h\<close>.

  The single-threaded build keeps flags and asserts; it is what the sequential models of the other
  theories assume.  In the multi-threaded build the functions are those of POSIX threads; their
  mutexes are modelled by their owner, and \<open>jaeger_lock\<close> by a step relation in which the threads'
  steps interleave.
\<close>

section \<open>The single-threaded build\<close>

record jaeger_mutex = locked :: bool

record jaeger_cond = signal :: bool

record jaeger_once = has_run :: bool

definition JAEGERTRACINGC_MUTEX_INIT :: jaeger_mutex where
  "JAEGERTRACINGC_MUTEX_INIT = \<lparr>locked = False\<rparr>"

definition JAEGERTRACINGC_COND_INIT :: jaeger_cond where
  "JAEGERTRACINGC_COND_INIT = \<lparr>signal = False\<rparr>"

definition JAEGERTRACINGC_ONCE_INIT :: jaeger_once where
  "JAEGERTRACINGC_ONCE_INIT = \<lparr>has_run = False\<rparr>"

definition EBUSY :: int where
  "EBUSY = 16"

text \<open>The thread runs to its end inside \<open>jaeger_thread_init\<close>.\<close>

definition jaeger_thread_init :: "('s \<Rightarrow> ('v \<times> 's) option) \<Rightarrow> 's \<Rightarrow> (int \<times> 'v \<times> 's) option" where
  "jaeger_thread_init start_routine s = do {
     (return_value, s) \<leftarrow> start_routine s;
     Some (0, return_value, s)
   }"

definition jaeger_mutex_lock :: "jaeger_mutex \<Rightarrow> (int \<times> jaeger_mutex) option" where
  "jaeger_mutex_lock mutex = do {
     c_assert (\<not> locked mutex);
     Some (0, mutex\<lparr>locked := True\<rparr>)
   }"

definition jaeger_mutex_try_lock :: "jaeger_mutex \<Rightarrow> int \<times> jaeger_mutex" where
  "jaeger_mutex_try_lock mutex =
     (if \<not> locked mutex then (0, mutex\<lparr>locked := True\<rparr>) else (EBUSY, mutex))"

definition jaeger_mutex_unlock :: "jaeger_mutex \<Rightarrow> (int \<times> jaeger_mutex) option" where
  "jaeger_mutex_unlock mutex = do {
     c_assert (locked mutex);
     Some (0, mutex\<lparr>locked := False\<rparr>)
   }"

definition jaeger_mutex_destroy :: "jaeger_mutex \<Rightarrow> int \<times> jaeger_mutex" where
  "jaeger_mutex_destroy mutex =
     (if locked mutex then (EBUSY, mutex\<lparr>locked := False\<rparr>) else (0, mutex))"

definition jaeger_cond_destroy :: "jaeger_cond \<Rightarrow> int \<times> jaeger_cond" where
  "jaeger_cond_destroy cond = (0, cond\<lparr>signal := False\<rparr>)"

definition jaeger_cond_signal :: "jaeger_cond \<Rightarrow> int \<times> jaeger_cond" where
  "jaeger_cond_signal cond = (0, cond\<lparr>signal := True\<rparr>)"

text \<open>
  \<open>while (!cond->signal);\<close> spins for ever unless the flag is set already.  The function ends without a
  return statement, so it has no result.
\<close>

definition jaeger_cond_wait :: "jaeger_cond \<Rightarrow> jaeger_mutex \<Rightarrow> (jaeger_cond \<times> jaeger_mutex) option" where
  "jaeger_cond_wait cond mutex = do {
     c_assert (locked mutex);
     let mutex = mutex\<lparr>locked := False\<rparr>;
     if \<not> signal cond then None
     else Some (cond, mutex\<lparr>locked := True\<rparr>)
   }"

definition jaeger_do_once :: "jaeger_once \<Rightarrow> ('s \<Rightarrow> 's option) \<Rightarrow> 's \<Rightarrow> (int \<times> jaeger_once \<times> 's) option" where
  "jaeger_do_once once init_routine s =
     (if \<not> has_run once then do {
        s \<leftarrow> init_routine s;
        Some (0, once\<lparr>has_run := True\<rparr>, s)
      } else Some (0, once, s))"

text \<open>
  One thread's view of a thread-local value.  \<open>destroy\<close> is the value's destructor, which ignores NULL.
  The multi-threaded build has the flag \<open>tl_initialized\<close> and takes the codes that
  \<open>pthread_key_create\<close> and \<open>pthread_setspecific\<close> return as arguments.
\<close>

record 'v jaeger_thread_local =
  tl_initialized :: bool
  tl_value :: "'v option"

definition destructible_destroy :: "('v \<Rightarrow> 's \<Rightarrow> 's option) \<Rightarrow> 'v option \<Rightarrow> 's \<Rightarrow> 's option" where
  "destructible_destroy destroy d s = (case d of None \<Rightarrow> Some s | Some v \<Rightarrow> destroy v s)"

definition jaeger_thread_local_destroy ::
  "('v \<Rightarrow> 's \<Rightarrow> 's option) \<Rightarrow> 'v jaeger_thread_local \<Rightarrow> 's \<Rightarrow> ('v jaeger_thread_local \<times> 's) option" where
  "jaeger_thread_local_destroy destroy local s =
     (if \<not> tl_initialized local then Some (local, s)
      else do {
        s \<leftarrow> destructible_destroy destroy (tl_value local) s;
        Some (local\<lparr>tl_initialized := False, tl_value := None\<rparr>, s)
      })"

definition jaeger_thread_local_init :: "int \<Rightarrow> bool \<times> 'v jaeger_thread_local" where
  "jaeger_thread_local_init return_code =
     (if return_code \<noteq> 0 then (False, \<lparr>tl_initialized = False, tl_value = None\<rparr>)
      else (True, \<lparr>tl_initialized = True, tl_value = None\<rparr>))"

definition jaeger_thread_local_check_initialized :: "'v jaeger_thread_local \<Rightarrow> bool" where
  "jaeger_thread_local_check_initialized local = tl_initialized local"

definition jaeger_thread_local_get_value :: "'v jaeger_thread_local \<Rightarrow> 'v option" where
  "jaeger_thread_local_get_value local =
     (if \<not> jaeger_thread_local_check_initialized local then None else tl_value local)"

text \<open>When \<open>pthread_setspecific\<close> fails the key keeps the value that has just been destroyed.\<close>

definition jaeger_thread_local_set_value ::
  "('v \<Rightarrow> 's \<Rightarrow> 's option) \<Rightarrow> int \<Rightarrow> 'v jaeger_thread_local \<Rightarrow> 'v option \<Rightarrow> 's \<Rightarrow> (bool \<times> 'v jaeger_thread_local \<times> 's) option" where
  "jaeger_thread_local_set_value destroy return_code local val s =
     (if \<not> jaeger_thread_local_check_initialized local then Some (False, local, s)
      else do {
        s \<leftarrow> destructible_destroy destroy (tl_value local) s;
        Some (return_code = 0, if return_code = 0 then local\<lparr>tl_value := val\<rparr> else local, s)
      })"

text \<open>The single-threaded variants, which have no flag.  \<open>return 0\<close> from a \<open>bool\<close> function is false.\<close>

definition st_thread_local_init :: "bool \<times> 'v option" where
  "st_thread_local_init = (False, None)"

definition st_thread_local_set_value ::
  "('v \<Rightarrow> 's \<Rightarrow> 's option) \<Rightarrow> 'v option \<Rightarrow> 'v option \<Rightarrow> 's \<Rightarrow> (bool \<times> 'v option \<times> 's) option" where
  "st_thread_local_set_value destroy local val s = do {
     s \<leftarrow> destructible_destroy destroy local s;
     Some (val \<noteq> None, val, s)
   }"

text \<open>The loop of \<open>jaeger_lock\<close> over the flags of the single-threaded build.\<close>

partial_function (option) jaeger_lock_flags ::
  "jaeger_mutex \<Rightarrow> jaeger_mutex \<Rightarrow> (jaeger_mutex \<times> jaeger_mutex) option" where
  "jaeger_lock_flags lock0 lock1 = do {
     (r, lock0) \<leftarrow> jaeger_mutex_lock lock0;
     let (r, lock1) = jaeger_mutex_try_lock lock1;
     if r = 0 then Some (lock0, lock1)
     else do {
       (r, lock0) \<leftarrow> jaeger_mutex_unlock lock0;
       (lock1, lock0) \<leftarrow> jaeger_lock_flags lock1 lock0;
       Some (lock0, lock1)
     }
   }"

lemma jaeger_lock_flags_iff:
  "jaeger_lock_flags l0 l1 = (if locked l0 \<or> locked l1 then None else Some (l0\<lparr>locked := True\<rparr>, l1\<lparr>locked := True\<rparr>))"
  by (simp add: jaeger_lock_flags.simps [of l0] jaeger_lock_flags.simps [of l1] jaeger_mutex_lock_def
      jaeger_mutex_try_lock_def jaeger_mutex_unlock_def EBUSY_def)

section \<open>The multi-threaded build\<close>

text \<open>A mutex's owner; \<open>None\<close> as the result of a lock means that the caller has to wait.\<close>

type_synonym tid = nat
type_synonym mutex_id = nat
type_synonym owners = "mutex_id \<Rightarrow> tid option"

definition mt_mutex_lock :: "tid \<Rightarrow> mutex_id \<Rightarrow> owners \<Rightarrow> owners option" where
  "mt_mutex_lock t x own = (if own x = None then Some (own(x \<mapsto> t)) else None)"

definition mt_mutex_try_lock :: "tid \<Rightarrow> mutex_id \<Rightarrow> owners \<Rightarrow> int \<times> owners" where
  "mt_mutex_try_lock t x own = (if own x = None then (0, own(x \<mapsto> t)) else (EBUSY, own))"

definition mt_mutex_unlock :: "tid \<Rightarrow> mutex_id \<Rightarrow> owners \<Rightarrow> owners option" where
  "mt_mutex_unlock t x own = (if own x = Some t then Some (own(x := None)) else None)"

text \<open>
  Where a thread is: before \<open>jaeger_mutex_lock(lock0)\<close>, before \<open>jaeger_mutex_try_lock(lock1)\<close>, before
  \<open>jaeger_mutex_unlock(lock0)\<close>, before the yield and the swap, after the loop with both locks held,
  between the two unlocks with which the callers end, and done.
\<close>

datatype lock_pc =
    Lock_first mutex_id mutex_id
  | Try_second mutex_id mutex_id
  | Back_off mutex_id mutex_id
  | Yield_swap mutex_id mutex_id
  | Both_held mutex_id mutex_id
  | One_held mutex_id
  | Finished

record lock_state =
  owner :: owners
  pcs :: "tid \<Rightarrow> lock_pc"

definition move :: "lock_state \<Rightarrow> tid \<Rightarrow> owners \<Rightarrow> lock_pc \<Rightarrow> lock_state" where
  "move s t own pc = s\<lparr>owner := own, pcs := (pcs s)(t := pc)\<rparr>"

inductive lock_step :: "tid \<Rightarrow> lock_state \<Rightarrow> lock_state \<Rightarrow> bool" where
  acquire: "pcs s t = Lock_first a b \<Longrightarrow> mt_mutex_lock t a (owner s) = Some own \<Longrightarrow>
    lock_step t s (move s t own (Try_second a b))"
| try_won: "pcs s t = Try_second a b \<Longrightarrow> mt_mutex_try_lock t b (owner s) = (0, own) \<Longrightarrow>
    lock_step t s (move s t own (Both_held a b))"
| try_lost: "pcs s t = Try_second a b \<Longrightarrow> mt_mutex_try_lock t b (owner s) = (r, own) \<Longrightarrow> r \<noteq> 0 \<Longrightarrow>
    lock_step t s (move s t own (Back_off a b))"
| back_off: "pcs s t = Back_off a b \<Longrightarrow> mt_mutex_unlock t a (owner s) = Some own \<Longrightarrow>
    lock_step t s (move s t own (Yield_swap a b))"
| swap: "pcs s t = Yield_swap a b \<Longrightarrow> lock_step t s (move s t (owner s) (Lock_first b a))"
| release_first: "pcs s t = Both_held a b \<Longrightarrow> mt_mutex_unlock t a (owner s) = Some own \<Longrightarrow>
    lock_step t s (move s t own (One_held b))"
| release_second: "pcs s t = One_held b \<Longrightarrow> mt_mutex_unlock t b (owner s) = Some own \<Longrightarrow>
    lock_step t s (move s t own Finished)"

inductive lock_steps :: "lock_state \<Rightarrow> lock_state \<Rightarrow> bool" where
  refl: "lock_steps s s"
| step: "lock_step t s s' \<Longrightarrow> lock_steps s' s'' \<Longrightarrow> lock_steps s s''"

text \<open>
  The start: no mutex is held, the threads of a set enter \<open>jaeger_lock\<close> with two different mutexes each,
  in whatever order, and all other threads take no part.
\<close>

definition lock_start :: "tid set \<Rightarrow> lock_state \<Rightarrow> bool" where
  "lock_start ts s \<longleftrightarrow> owner s = (\<lambda>_. None) \<and> (\<forall>t. t \<notin> ts \<longrightarrow> pcs s t = Finished) \<and>
     (\<forall>t\<in>ts. \<exists>a b. a \<noteq> b \<and> pcs s t = Lock_first a b)"

section \<open>Invariant of the lock protocol\<close>

fun holds :: "lock_pc \<Rightarrow> mutex_id set" where
  "holds (Lock_first a b) = {}"
| "holds (Try_second a b) = {a}"
| "holds (Back_off a b) = {a}"
| "holds (Yield_swap a b) = {}"
| "holds (Both_held a b) = {a, b}"
| "holds (One_held b) = {b}"
| "holds Finished = {}"

fun pc_typed :: "lock_pc \<Rightarrow> bool" where
  "pc_typed (Lock_first a b) = (a \<noteq> b)"
| "pc_typed (Try_second a b) = (a \<noteq> b)"
| "pc_typed (Back_off a b) = (a \<noteq> b)"
| "pc_typed (Yield_swap a b) = (a \<noteq> b)"
| "pc_typed (Both_held a b) = (a \<noteq> b)"
| "pc_typed (One_held b) = True"
| "pc_typed Finished = True"

text \<open>Every thread holds exactly the mutexes its position says.\<close>

definition lock_typed :: "lock_state \<Rightarrow> bool" where
  "lock_typed s \<longleftrightarrow> (\<forall>t. pc_typed (pcs s t)) \<and> (\<forall>x t. owner s x = Some t \<longleftrightarrow> x \<in> holds (pcs s t))"

lemmas mt_mutex_defs = mt_mutex_lock_def mt_mutex_try_lock_def mt_mutex_unlock_def EBUSY_def

lemma move_simps [simp]: "owner (move s t own pc) = own" "pcs (move s t own pc) = (pcs s)(t := pc)"
  by (simp_all add: move_def)

lemma move_move [simp]: "move (move s t own pc) t own' pc' = move s t own' pc'"
  by (simp add: move_def)

lemma lock_typedD:
  assumes "lock_typed s"
  shows "pc_typed (pcs s t)" and "x \<in> holds (pcs s t) \<Longrightarrow> owner s x = Some t" and "owner s x = Some t \<Longrightarrow> x \<in> holds (pcs s t)"
    and "x \<in> holds (pcs s t) \<Longrightarrow> x \<in> holds (pcs s u) \<Longrightarrow> t = u"
  using assms unfolding lock_typed_def by (blast, blast, blast, metis option.inject)

text \<open>The three kinds of step: the thread takes a free mutex, gives one back, or only moves on.\<close>

lemma typed_take:
  assumes "lock_typed s" and "owner s x = None" and "pc_typed pc" and "holds pc = insert x (holds (pcs s t))"
  shows "lock_typed (move s t ((owner s)(x \<mapsto> t)) pc)"
proof -
  have "x \<notin> holds (pcs s u)" for u using lock_typedD(2) [OF assms(1), of x u] assms(2) by auto
  with assms show ?thesis unfolding lock_typed_def by auto
qed

lemma typed_drop:
  assumes "lock_typed s" and "owner s x = Some t" and "pc_typed pc" and "holds pc = holds (pcs s t) - {x}"
  shows "lock_typed (move s t ((owner s)(x := None)) pc)"
proof -
  have "u \<noteq> t \<Longrightarrow> x \<notin> holds (pcs s u)" for u using lock_typedD(2) [OF assms(1), of x u] assms(2) by auto
  with assms show ?thesis unfolding lock_typed_def by auto
qed

lemma typed_keep:
  assumes "lock_typed s" and "pc_typed pc" and "holds pc = holds (pcs s t)"
  shows "lock_typed (move s t (owner s) pc)"
  using assms unfolding lock_typed_def by (auto split: if_splits)

lemma lock_step_typed:
  assumes "lock_step t s s'" and "lock_typed s"
  shows "lock_typed s'"
proof -
  note pt = lock_typedD(1) [OF assms(2), of t]
  from assms(1) show ?thesis
  proof (cases rule: lock_step.cases)
    case (acquire a b own)
    with pt show ?thesis by (auto intro!: typed_take [OF assms(2)] simp: mt_mutex_defs split: if_splits)
  next
    case (try_won a b own)
    with pt show ?thesis by (auto intro!: typed_take [OF assms(2)] simp: mt_mutex_defs split: if_splits)
  next
    case (try_lost a b r own)
    with pt show ?thesis by (auto intro!: typed_keep [OF assms(2)] simp: mt_mutex_defs split: if_splits)
  next
    case (back_off a b own)
    with pt show ?thesis by (auto intro!: typed_drop [OF assms(2)] simp: mt_mutex_defs split: if_splits)
  next
    case (swap a b)
    with pt show ?thesis by (auto intro!: typed_keep [OF assms(2)])
  next
    case (release_first a b own)
    with pt show ?thesis by (auto intro!: typed_drop [OF assms(2)] simp: mt_mutex_defs split: if_splits)
  next
    case (release_second b own)
    with pt show ?thesis by (auto intro!: typed_drop [OF assms(2)] simp: mt_mutex_defs split: if_splits)
  qed
qed

lemma lock_steps_typed: "lock_steps s s' \<Longrightarrow> lock_typed s \<Longrightarrow> lock_typed s'"
  by (induction rule: lock_steps.induct) (auto dest: lock_step_typed)

lemma lock_start_typed: "lock_start ts s \<Longrightarrow> lock_typed s"
  unfolding lock_start_def lock_typed_def by (metis holds.simps(1,7) pc_typed.simps(1,7) empty_iff option.distinct(1))

section \<open>Progress\<close>

lemma lock_steps_trans: "lock_steps s s' \<Longrightarrow> lock_steps s' s'' \<Longrightarrow> lock_steps s s''"
  by (induction rule: lock_steps.induct) (auto intro: lock_steps.step)

lemma lock_steps_one: "lock_step t s s' \<Longrightarrow> lock_steps s s'"
  by (blast intro: lock_steps.intros)

lemma step_frame: "lock_step t s s' \<Longrightarrow> u \<noteq> t \<Longrightarrow> pcs s' u = pcs s u"
  by (induction rule: lock_step.induct) simp_all

text \<open>A thread that holds a mutex is never blocked.\<close>

lemma holder_steps:
  assumes "lock_typed s" and "holds (pcs s t) \<noteq> {}"
  shows "\<exists>s'. lock_step t s s'"
proof (cases "pcs s t")
  case (Try_second a b)
  show ?thesis
  proof (cases "owner s b")
    case None
    then have "mt_mutex_try_lock t b (owner s) = (0, (owner s)(b \<mapsto> t))" by (simp add: mt_mutex_defs)
    from try_won [OF Try_second this] show ?thesis by blast
  next
    case (Some u)
    then have "mt_mutex_try_lock t b (owner s) = (EBUSY, owner s)" "EBUSY \<noteq> 0" by (simp_all add: mt_mutex_defs)
    from try_lost [OF Try_second this] show ?thesis by blast
  qed
next
  case (Back_off a b)
  with lock_typedD(2) [OF assms(1), of a t] have "mt_mutex_unlock t a (owner s) = Some ((owner s)(a := None))" by (simp add: mt_mutex_defs)
  from back_off [OF Back_off this] show ?thesis by blast
next
  case (Both_held a b)
  with lock_typedD(2) [OF assms(1), of a t] have "mt_mutex_unlock t a (owner s) = Some ((owner s)(a := None))" by (simp add: mt_mutex_defs)
  from release_first [OF Both_held this] show ?thesis by blast
next
  case (One_held b)
  with lock_typedD(2) [OF assms(1), of b t] have "mt_mutex_unlock t b (owner s) = Some ((owner s)(b := None))" by (simp add: mt_mutex_defs)
  from release_second [OF One_held this] show ?thesis by blast
qed (use assms(2) in auto)

text \<open>Steps before the thread that holds something gives it all back, running alone.\<close>

fun settle_rank :: "lock_pc \<Rightarrow> nat" where
  "settle_rank (Try_second a b) = 3"
| "settle_rank (Both_held a b) = 2"
| "settle_rank (Back_off a b) = 1"
| "settle_rank (One_held b) = 1"
| "settle_rank _ = 0"

lemma settle_rank_decreases:
  assumes "lock_step t s s'" and "holds (pcs s t) \<noteq> {}"
  shows "settle_rank (pcs s' t) < settle_rank (pcs s t)"
  using assms by (cases rule: lock_step.cases) simp_all

lemma settle_one:
  assumes "lock_typed s"
  shows "\<exists>s'. lock_steps s s' \<and> lock_typed s' \<and> holds (pcs s' t) = {} \<and> (\<forall>u. u \<noteq> t \<longrightarrow> pcs s' u = pcs s u) \<and>
    (holds (pcs s t) = {} \<longrightarrow> s' = s)"
  using assms
proof (induction "settle_rank (pcs s t)" arbitrary: s rule: less_induct)
  case less
  show ?case
  proof (cases "holds (pcs s t) = {}")
    case True
    with less.prems show ?thesis by (blast intro: lock_steps.refl)
  next
    case False
    from holder_steps [OF less.prems False] obtain s1 where s1: "lock_step t s s1" ..
    from less.hyps [OF settle_rank_decreases [OF s1 False] lock_step_typed [OF s1 less.prems]] obtain s' where
      s': "lock_steps s1 s'" "lock_typed s'" "holds (pcs s' t) = {}" "\<forall>u. u \<noteq> t \<longrightarrow> pcs s' u = pcs s1 u" by blast
    with lock_steps.step [OF s1] step_frame [OF s1] False show ?thesis by metis
  qed
qed

lemma settle_all:
  assumes "finite ts" and "lock_typed s"
  shows "\<exists>s'. lock_steps s s' \<and> lock_typed s' \<and> (\<forall>t\<in>ts. holds (pcs s' t) = {}) \<and> (\<forall>u. holds (pcs s u) = {} \<longrightarrow> pcs s' u = pcs s u)"
  using assms(1)
proof induction
  case empty
  with assms(2) show ?case by (blast intro: lock_steps.refl)
next
  case (insert t ts)
  then obtain s1 where s1: "lock_steps s s1" "lock_typed s1" "\<forall>t\<in>ts. holds (pcs s1 t) = {}"
    "\<forall>u. holds (pcs s u) = {} \<longrightarrow> pcs s1 u = pcs s u" by blast
  from settle_one [OF s1(2), of t] obtain s2 where s2: "lock_steps s1 s2" "lock_typed s2" "holds (pcs s2 t) = {}"
    "\<forall>u. u \<noteq> t \<longrightarrow> pcs s2 u = pcs s1 u" "holds (pcs s1 t) = {} \<longrightarrow> s2 = s1" by blast
  have "holds (pcs s2 u) = {}" if "u \<in> insert t ts" for u using that s1(3) s2(3,4) by (cases "u = t") auto
  moreover have "pcs s2 u = pcs s u" if "holds (pcs s u) = {}" for u
    using that s1(4) s2(4,5) by (cases "u = t") auto
  ultimately show ?case using lock_steps_trans [OF s1(1) s2(1)] s2(2) by blast
qed

text \<open>When nobody holds a mutex, a thread that runs alone takes both and gives them back.\<close>

lemma quiet_owner: "lock_typed s \<Longrightarrow> \<forall>t. holds (pcs s t) = {} \<Longrightarrow> owner s x = None"
  using lock_typedD(3) [of s x] by (cases "owner s x") auto

lemma take_both:
  assumes "pcs s t = Lock_first a b" and "a \<noteq> b" and "owner s a = None" and "owner s b = None"
  shows "lock_steps s (move s t (owner s) Finished)"
proof -
  have [simp]: "(owner s)(a := None) = owner s" "(owner s)(b := None) = owner s" using assms(3,4) by auto
  have 1: "lock_step t s (move s t ((owner s)(a \<mapsto> t)) (Try_second a b))"
    using assms by (intro acquire) (simp_all add: mt_mutex_defs)
  have 2: "lock_step t (move s t ((owner s)(a \<mapsto> t)) (Try_second a b)) (move s t ((owner s)(a \<mapsto> t, b \<mapsto> t)) (Both_held a b))"
    using try_won [of "move s t ((owner s)(a \<mapsto> t)) (Try_second a b)" t a b "(owner s)(a \<mapsto> t, b \<mapsto> t)"] assms by (simp add: mt_mutex_defs)
  have 3: "lock_step t (move s t ((owner s)(a \<mapsto> t, b \<mapsto> t)) (Both_held a b)) (move s t ((owner s)(b \<mapsto> t)) (One_held b))"
    using release_first [of "move s t ((owner s)(a \<mapsto> t, b \<mapsto> t)) (Both_held a b)" t a b "(owner s)(b \<mapsto> t)"] assms
    by (auto simp: mt_mutex_defs fun_upd_twist)
  have 4: "lock_step t (move s t ((owner s)(b \<mapsto> t)) (One_held b)) (move s t (owner s) Finished)"
    using release_second [of "move s t ((owner s)(b \<mapsto> t)) (One_held b)" t b "owner s"] by (simp add: mt_mutex_defs)
  from 1 2 3 4 show ?thesis by (blast intro: lock_steps.intros)
qed

lemma finish_one:
  assumes "lock_typed s" and "\<forall>u. holds (pcs s u) = {}"
  shows "lock_steps s (move s t (owner s) Finished)"
proof (cases "pcs s t")
  case (Lock_first a b)
  with take_both [OF this] lock_typedD(1) [OF assms(1), of t] quiet_owner [OF assms] show ?thesis by simp
next
  case (Yield_swap a b)
  let ?s = "move s t (owner s) (Lock_first b a)"
  have "lock_steps ?s (move ?s t (owner s) Finished)"
    using take_both [of ?s t b a] lock_typedD(1) [OF assms(1), of t] Yield_swap quiet_owner [OF assms] by simp
  with lock_steps.step [OF swap [OF Yield_swap]] show ?thesis by simp
next
  case Finished
  then have "(pcs s)(t := Finished) = pcs s" by auto
  then have "move s t (owner s) Finished = s" by (simp add: move_def)
  then show ?thesis by (simp add: lock_steps.refl)
qed (use assms(2) [rule_format, of t] in auto)

lemma finish_all:
  assumes "finite ts" and "lock_typed s" and "\<forall>u. holds (pcs s u) = {}"
  shows "\<exists>s'. lock_steps s s' \<and> (\<forall>t\<in>ts. pcs s' t = Finished) \<and> (\<forall>u. u \<notin> ts \<longrightarrow> pcs s' u = pcs s u) \<and>
    lock_typed s' \<and> (\<forall>u. holds (pcs s' u) = {})"
  using assms(1)
proof induction
  case empty
  with assms(2,3) show ?case by (blast intro: lock_steps.refl)
next
  case (insert t ts)
  then obtain s1 where s1: "lock_steps s s1" "\<forall>t\<in>ts. pcs s1 t = Finished" "\<forall>u. u \<notin> ts \<longrightarrow> pcs s1 u = pcs s u"
    "lock_typed s1" "\<forall>u. holds (pcs s1 u) = {}" by blast
  let ?s = "move s1 t (owner s1) Finished"
  note f = finish_one [OF s1(4,5), of t]
  have "lock_steps s ?s" using lock_steps_trans [OF s1(1) f] .
  moreover have "lock_typed ?s" by (rule lock_steps_typed [OF f s1(4)])
  ultimately show ?case using s1(2,3,5) by (intro exI [of _ ?s]) auto
qed

lemma finished_stays: "lock_steps s s' \<Longrightarrow> pcs s u = Finished \<Longrightarrow> pcs s' u = Finished"
proof (induction rule: lock_steps.induct)
  case (step t s s' s'')
  have "t \<noteq> u" using step.hyps(1) step.prems by (cases rule: lock_step.cases) auto
  with step step_frame [OF step.hyps(1), of u] show ?case by simp
qed

section \<open>Properties\<close>

text \<open>
  C6: \<open>jaeger_lock\<close> gives mutual exclusion.  However the steps of the threads interleave, every thread holds
  exactly the mutexes its position in \<open>jaeger_lock\<close> says: two threads never hold the same mutex at the
  same time, and a thread past the loop of \<open>jaeger_lock\<close> holds both of its mutexes.
\<close>

theorem lock_mutual_exclusion:
  assumes "lock_start ts s" and "lock_steps s s'"
  shows "lock_typed s' \<and> (t \<noteq> u \<longrightarrow> holds (pcs s' t) \<inter> holds (pcs s' u) = {}) \<and>
    (pcs s' t = Both_held a b \<longrightarrow> a \<noteq> b \<and> owner s' a = Some t \<and> owner s' b = Some t)"
proof -
  have t: "lock_typed s'" using lock_steps_typed [OF assms(2) lock_start_typed [OF assms(1)]] .
  with lock_typedD(4) [OF t, of _ t u] lock_typedD(1) [OF t, of t] lock_typedD(2) [OF t, of _ t] show ?thesis by auto
qed

definition lock_two :: lock_state where
  "lock_two = \<lparr>owner = (\<lambda>_. None), pcs = (\<lambda>_. Finished)(0 := Lock_first 0 1, 1 := Lock_first 1 0)\<rparr>"

lemma lock_two_start: "lock_start {0, 1} lock_two"
  by (auto simp: lock_start_def lock_two_def)

theorem lock_mutual_exclusion_witness:
  "lock_typed lock_two \<and> holds (pcs lock_two 0) \<inter> holds (pcs lock_two 1) = {}"
  using lock_mutual_exclusion [OF lock_two_start lock_steps.refl, of 0 1] by simp

text \<open>
  C14: \<open>jaeger_lock\<close> never deadlocks.  In every state that threads calling \<open>jaeger_lock\<close> can reach, in whatever
  order they name their mutexes, a thread that holds a mutex can take its next step, some thread
  can step unless all are finished, and there is a continuation in which all of them get both
  mutexes, release them and finish.
\<close>

theorem lock_can_complete:
  assumes "lock_start ts s" and "finite ts" and "lock_steps s s'"
  shows "(holds (pcs s' t) \<noteq> {} \<longrightarrow> (\<exists>s''. lock_step t s' s'')) \<and>
    ((\<exists>u. pcs s' u \<noteq> Finished) \<longrightarrow> (\<exists>u s''. lock_step u s' s'')) \<and>
    (\<exists>s''. lock_steps s' s'' \<and> (\<forall>u. pcs s'' u = Finished) \<and> owner s'' = (\<lambda>_. None))"
proof -
  have ty: "lock_typed s'" using lock_steps_typed [OF assms(3) lock_start_typed [OF assms(1)]] .
  have out: "pcs s' u = Finished" if "u \<notin> ts" for u
    using finished_stays [OF assms(3), of u] assms(1) that by (simp add: lock_start_def)
  from settle_all [OF assms(2) ty] obtain s1 where s1: "lock_steps s' s1" "lock_typed s1" "\<forall>t\<in>ts. holds (pcs s1 t) = {}"
    "\<forall>u. holds (pcs s' u) = {} \<longrightarrow> pcs s1 u = pcs s' u" by blast
  have out1: "pcs s1 u = Finished" if "u \<notin> ts" for u using s1(4) out [OF that] by simp
  have q: "\<forall>u. holds (pcs s1 u) = {}" using s1(3) out1 by (metis holds.simps(7))
  from finish_all [OF assms(2) s1(2) q] obtain s2 where s2: "lock_steps s1 s2" "\<forall>t\<in>ts. pcs s2 t = Finished"
    "\<forall>u. u \<notin> ts \<longrightarrow> pcs s2 u = pcs s1 u" "lock_typed s2" "\<forall>u. holds (pcs s2 u) = {}" by blast
  have run: "lock_steps s' s2" using lock_steps_trans [OF s1(1) s2(1)] .
  have fin: "\<forall>u. pcs s2 u = Finished" using s2(2,3) out1 by metis
  have "\<exists>u s''. lock_step u s' s''" if "pcs s' u \<noteq> Finished" for u
    using run that fin by (cases rule: lock_steps.cases) auto
  with holder_steps [OF ty, of t] run fin quiet_owner [OF s2(4,5)] show ?thesis by blast
qed

theorem lock_can_complete_witness:
  "\<exists>s''. lock_steps lock_two s'' \<and> (\<forall>u. pcs s'' u = Finished)"
  using lock_can_complete [OF lock_two_start _ lock_steps.refl] by blast

end
