(* ===== verification/Sampler.thy ===== *)
theory Sampler
  imports Tag Token_Bucket Metrics
begin

text \<open>
  Samplers: \<open>src/jaegertracingc/sampler.c\<close>, \<open>sampler.h\<close>, \<open>sampling_strategy.h\<close>.

  A sampler is a record of its fields; \<open>is_sampled\<close> returns the decision, the sampler, the tag vector and
  the heap.  \<open>sampler_env\<close> has the generated tag initialiser and the rounding of \<open>double\<close> and
  \<open>long double\<close> arithmetic.  What a call draws from outside is the record \<open>draw\<close>: the random number, the
  clock reading while a new token bucket is made and the clock reading of the credit check.  The
  optional tag vector is \<open>None\<close> for NULL.
\<close>

record sampler_env =
  se_tag_init :: jaeger_tag
  se_rnd :: "real \<Rightarrow> real"
  se_rnd_long :: "real \<Rightarrow> real"

record draw =
  dr_random :: u64
  dr_created :: opentracing_time_value
  dr_now :: opentracing_time_value

type_synonym tags = "jaeger_tag jaeger_vector option"

section \<open>Sampler tags\<close>

definition JAEGERTRACINGC_SAMPLER_TYPE_TAG_KEY :: string where
  "JAEGERTRACINGC_SAMPLER_TYPE_TAG_KEY = ''sampler.type''"

definition JAEGERTRACINGC_SAMPLER_PARAM_TAG_KEY :: string where
  "JAEGERTRACINGC_SAMPLER_PARAM_TAG_KEY = ''sampler.param''"

definition JAEGERTRACINGC_SAMPLER_TYPE_CONST :: string where
  "JAEGERTRACINGC_SAMPLER_TYPE_CONST = ''const''"

definition JAEGERTRACINGC_SAMPLER_TYPE_PROBABILISTIC :: string where
  "JAEGERTRACINGC_SAMPLER_TYPE_PROBABILISTIC = ''probabilistic''"

definition JAEGERTRACINGC_SAMPLER_TYPE_RATE_LIMITING :: string where
  "JAEGERTRACINGC_SAMPLER_TYPE_RATE_LIMITING = ''ratelimiting''"

definition JAEGERTRACINGC_SAMPLER_TYPE_LOWER_BOUND :: string where
  "JAEGERTRACINGC_SAMPLER_TYPE_LOWER_BOUND = ''lowerbound''"

text \<open>
  The block at the end of every \<open>is_sampled\<close>: reserve two slots, append the type tag, then the
  parameter tag, which reuses the first tag's struct.  \<open>stop\<close>: the samplers that give up when the first
  tag cannot be appended.
\<close>

definition append_sampler_tags ::
  "sampler_env \<Rightarrow> bool \<Rightarrow> string \<Rightarrow> (jaeger_tag \<Rightarrow> jaeger_tag) \<Rightarrow> tags \<Rightarrow> mem \<Rightarrow> (tags \<times> mem) option" where
  "append_sampler_tags env stop sampler_type set_param tags m =
     (case tags of
        None \<Rightarrow> Some (None, m)
      | Some vec \<Rightarrow> do {
          n \<leftarrow> chk_int (jaeger_vector_length vec + 2);
          (ok, vec, m) \<leftarrow> jaeger_vector_reserve TAG_ZERO vec n m;
          if \<not> ok then Some (Some vec, m)
          else do {
            let tag = (se_tag_init env)\<lparr>tag_key := Some (0, JAEGERTRACINGC_SAMPLER_TYPE_TAG_KEY),
                        tag_v_type := VT_STRING, tag_v_str := Some (0, sampler_type)\<rparr>;
            (ok, vec, m) \<leftarrow> jaeger_tag_vector_append (se_tag_init env) vec tag m;
            if \<not> ok \<and> stop then Some (Some vec, m)
            else do {
              let tag = set_param (tag\<lparr>tag_key := Some (0, JAEGERTRACINGC_SAMPLER_PARAM_TAG_KEY)\<rparr>);
              (ok, vec, m) \<leftarrow> jaeger_tag_vector_append (se_tag_init env) vec tag m;
              Some (Some vec, m)
            }
          }
        })"

definition float_param :: "real \<Rightarrow> jaeger_tag \<Rightarrow> jaeger_tag" where
  "float_param x tag = tag\<lparr>tag_v_type := VT_FLOAT64, tag_v_float64 := x\<rparr>"

definition bool_param :: "bool \<Rightarrow> jaeger_tag \<Rightarrow> jaeger_tag" where
  "bool_param b tag = tag\<lparr>tag_v_type := VT_BOOL, tag_v_bool := b\<rparr>"

section \<open>The basic samplers\<close>

record jaeger_const_sampler = const_decision :: bool

definition jaeger_const_sampler_init :: "bool \<Rightarrow> jaeger_const_sampler" where
  "jaeger_const_sampler_init decision = \<lparr>const_decision = decision\<rparr>"

definition jaeger_const_sampler_is_sampled ::
  "sampler_env \<Rightarrow> jaeger_const_sampler \<Rightarrow> tags \<Rightarrow> mem \<Rightarrow> (bool \<times> jaeger_const_sampler \<times> tags \<times> mem) option" where
  "jaeger_const_sampler_is_sampled env s tags m = do {
     (tags, m) \<leftarrow> append_sampler_tags env True JAEGERTRACINGC_SAMPLER_TYPE_CONST (bool_param (const_decision s)) tags m;
     Some (const_decision s, s, tags, m)
   }"

record jaeger_probabilistic_sampler = sampling_rate :: real

definition JAEGERTRACINGC_MIN :: "real \<Rightarrow> real \<Rightarrow> real" where
  "JAEGERTRACINGC_MIN a b = (if b < a then b else a)"

definition JAEGERTRACINGC_MAX :: "real \<Rightarrow> real \<Rightarrow> real" where
  "JAEGERTRACINGC_MAX a b = (if b > a then b else a)"

definition JAEGERTRACINGC_CLAMP :: "real \<Rightarrow> real \<Rightarrow> real \<Rightarrow> real" where
  "JAEGERTRACINGC_CLAMP x low high = JAEGERTRACINGC_MIN (JAEGERTRACINGC_MAX x low) high"

definition jaeger_probabilistic_sampler_init :: "real \<Rightarrow> jaeger_probabilistic_sampler" where
  "jaeger_probabilistic_sampler_init rate = \<lparr>sampling_rate = JAEGERTRACINGC_CLAMP rate 0 1\<rparr>"

definition UINT64_MAX :: nat where
  "UINT64_MAX = 18446744073709551615"

definition random_value :: "sampler_env \<Rightarrow> draw \<Rightarrow> real" where
  "random_value env dr =
     se_rnd_long env (se_rnd_long env (of_nat (unat (dr_random dr))) / se_rnd_long env (of_nat UINT64_MAX))"

definition jaeger_probabilistic_sampler_is_sampled ::
  "sampler_env \<Rightarrow> draw \<Rightarrow> jaeger_probabilistic_sampler \<Rightarrow> tags \<Rightarrow> mem \<Rightarrow>
   (bool \<times> jaeger_probabilistic_sampler \<times> tags \<times> mem) option" where
  "jaeger_probabilistic_sampler_is_sampled env dr s tags m = do {
     let decision = (sampling_rate s \<ge> random_value env dr);
     (tags, m) \<leftarrow> append_sampler_tags env True JAEGERTRACINGC_SAMPLER_TYPE_PROBABILISTIC (float_param (sampling_rate s)) tags m;
     Some (decision, s, tags, m)
   }"

record jaeger_rate_limiting_sampler =
  rl_tok :: jaeger_token_bucket
  max_traces_per_second :: real

definition jaeger_rate_limiting_sampler_init :: "real \<Rightarrow> opentracing_time_value \<Rightarrow> jaeger_rate_limiting_sampler" where
  "jaeger_rate_limiting_sampler_init max_traces now =
     \<lparr>rl_tok = jaeger_token_bucket_init max_traces (JAEGERTRACINGC_MAX max_traces 1) now,
      max_traces_per_second = max_traces\<rparr>"

definition jaeger_rate_limiting_sampler_is_sampled ::
  "sampler_env \<Rightarrow> draw \<Rightarrow> jaeger_rate_limiting_sampler \<Rightarrow> tags \<Rightarrow> mem \<Rightarrow>
   (bool \<times> jaeger_rate_limiting_sampler \<times> tags \<times> mem) option" where
  "jaeger_rate_limiting_sampler_is_sampled env dr s tags m = do {
     (decision, tok) \<leftarrow> jaeger_token_bucket_check_credit (se_rnd env) (rl_tok s) 1 (dr_now dr);
     let s = s\<lparr>rl_tok := tok\<rparr>;
     (tags, m) \<leftarrow> append_sampler_tags env False JAEGERTRACINGC_SAMPLER_TYPE_RATE_LIMITING
                   (float_param (max_traces_per_second s)) tags m;
     Some (decision, s, tags, m)
   }"

record jaeger_guaranteed_throughput_probabilistic_sampler =
  gt_probabilistic_sampler :: jaeger_probabilistic_sampler
  gt_lower_bound_sampler :: jaeger_rate_limiting_sampler

definition jaeger_guaranteed_throughput_probabilistic_sampler_is_sampled ::
  "sampler_env \<Rightarrow> draw \<Rightarrow> jaeger_guaranteed_throughput_probabilistic_sampler \<Rightarrow> tags \<Rightarrow> mem \<Rightarrow>
   (bool \<times> jaeger_guaranteed_throughput_probabilistic_sampler \<times> tags \<times> mem) option" where
  "jaeger_guaranteed_throughput_probabilistic_sampler_is_sampled env dr s tags m = do {
     (decision, p, _, m) \<leftarrow> jaeger_probabilistic_sampler_is_sampled env dr (gt_probabilistic_sampler s) None m;
     let s = s\<lparr>gt_probabilistic_sampler := p\<rparr>;
     if decision then do {
       (ignored, l, _, m) \<leftarrow> jaeger_rate_limiting_sampler_is_sampled env dr (gt_lower_bound_sampler s) None m;
       let s = s\<lparr>gt_lower_bound_sampler := l\<rparr>;
       (tags, m) \<leftarrow> append_sampler_tags env False JAEGERTRACINGC_SAMPLER_TYPE_PROBABILISTIC
                     (float_param (sampling_rate (gt_probabilistic_sampler s))) tags m;
       Some (True, s, tags, m)
     } else do {
       (decision, l, _, m) \<leftarrow> jaeger_rate_limiting_sampler_is_sampled env dr (gt_lower_bound_sampler s) None m;
       let s = s\<lparr>gt_lower_bound_sampler := l\<rparr>;
       (tags, m) \<leftarrow> append_sampler_tags env False JAEGERTRACINGC_SAMPLER_TYPE_LOWER_BOUND
                     (float_param (max_traces_per_second (gt_lower_bound_sampler s))) tags m;
       Some (decision, s, tags, m)
     }
   }"

definition jaeger_guaranteed_throughput_probabilistic_sampler_init ::
  "real \<Rightarrow> real \<Rightarrow> opentracing_time_value \<Rightarrow> jaeger_guaranteed_throughput_probabilistic_sampler" where
  "jaeger_guaranteed_throughput_probabilistic_sampler_init lower_bound rate now =
     \<lparr>gt_probabilistic_sampler = jaeger_probabilistic_sampler_init rate,
      gt_lower_bound_sampler = jaeger_rate_limiting_sampler_init lower_bound now\<rparr>"

definition jaeger_guaranteed_throughput_probabilistic_sampler_update ::
  "jaeger_guaranteed_throughput_probabilistic_sampler \<Rightarrow> real \<Rightarrow> real \<Rightarrow> opentracing_time_value \<Rightarrow>
   jaeger_guaranteed_throughput_probabilistic_sampler" where
  "jaeger_guaranteed_throughput_probabilistic_sampler_update s lower_bound rate now =
     (let s = (if sampling_rate (gt_probabilistic_sampler s) \<noteq> rate
               then s\<lparr>gt_probabilistic_sampler := jaeger_probabilistic_sampler_init rate\<rparr> else s)
      in if max_traces_per_second (gt_lower_bound_sampler s) \<noteq> lower_bound
         then s\<lparr>gt_lower_bound_sampler := jaeger_rate_limiting_sampler_init lower_bound now\<rparr> else s)"

section \<open>Sampling strategies\<close>

record jaeger_operation_strategy =
  os_operation :: "cstring option"
  os_sampling_rate :: real

record jaeger_per_operation_strategy =
  po_strategies :: "(ptr \<times> jaeger_operation_strategy list) option"
  po_default_sampling_probability :: real
  po_default_lower_bound :: real

datatype jaeger_strategy_response =
    Probabilistic_strategy real
  | Rate_limiting_strategy real
  | Per_operation_strategy jaeger_per_operation_strategy
  | Invalid_strategy

definition strategy_list :: "jaeger_per_operation_strategy \<Rightarrow> jaeger_operation_strategy list" where
  "strategy_list st = (case po_strategies st of None \<Rightarrow> [] | Some (_, xs) \<Rightarrow> xs)"

definition jaeger_operation_strategy_destroy ::
  "jaeger_operation_strategy \<Rightarrow> mem \<Rightarrow> (jaeger_operation_strategy \<times> mem) option" where
  "jaeger_operation_strategy_destroy strategy m = do {
     m \<leftarrow> jaeger_free (map_option fst (os_operation strategy)) m;
     Some (strategy\<lparr>os_operation := None\<rparr>, m)
   }"

definition jaeger_per_operation_strategy_destroy ::
  "jaeger_per_operation_strategy \<Rightarrow> mem \<Rightarrow> (jaeger_per_operation_strategy \<times> mem) option" where
  "jaeger_per_operation_strategy_destroy strategy m =
     (case po_strategies strategy of
        None \<Rightarrow> Some (strategy, m)
      | Some (p, xs) \<Rightarrow> do {
          m \<leftarrow> vector_for_each_destroy jaeger_operation_strategy_destroy xs m;
          m \<leftarrow> jaeger_free (Some p) m;
          Some (strategy\<lparr>po_strategies := None\<rparr>, m)
        })"

definition jaeger_strategy_response_destroy :: "jaeger_strategy_response \<Rightarrow> mem \<Rightarrow> mem option" where
  "jaeger_strategy_response_destroy response m =
     (case response of
        Per_operation_strategy st \<Rightarrow> map_option snd (jaeger_per_operation_strategy_destroy st m)
      | _ \<Rightarrow> Some m)"

section \<open>The adaptive sampler\<close>

record jaeger_operation_sampler =
  op_name :: "cstring option"
  op_sampler :: jaeger_guaranteed_throughput_probabilistic_sampler

definition SIZEOF_OPERATION_SAMPLER :: int where
  "SIZEOF_OPERATION_SAMPLER = 112"

text \<open>A slot of zero bytes.\<close>

definition OPERATION_SAMPLER_ZERO :: jaeger_operation_sampler where
  "OPERATION_SAMPLER_ZERO =
     \<lparr>op_name = None,
      op_sampler = \<lparr>gt_probabilistic_sampler = \<lparr>sampling_rate = 0\<rparr>,
        gt_lower_bound_sampler = \<lparr>rl_tok = \<lparr>tb_credits_per_second = 0, tb_max_balance = 0, tb_balance = 0,
          tb_last_tick = \<lparr>tv_sec = 0, tv_nsec = 0\<rparr>\<rparr>, max_traces_per_second = 0\<rparr>\<rparr>\<rparr>"

record jaeger_adaptive_sampler =
  op_samplers :: "jaeger_operation_sampler jaeger_vector"
  default_sampler :: jaeger_probabilistic_sampler
  lower_bound :: real
  max_operations :: int
  ad_locked :: bool

definition jaeger_operation_sampler_destroy ::
  "jaeger_operation_sampler \<Rightarrow> mem \<Rightarrow> (jaeger_operation_sampler \<times> mem) option" where
  "jaeger_operation_sampler_destroy s m = do {
     m \<leftarrow> jaeger_free (map_option fst (op_name s)) m;
     Some (s\<lparr>op_name := None\<rparr>, m)
   }"

definition op_string :: "jaeger_operation_sampler \<Rightarrow> string" where
  "op_string s = (case op_name s of None \<Rightarrow> [] | Some n \<Rightarrow> snd n)"

definition op_name_cmp :: "jaeger_operation_sampler \<Rightarrow> jaeger_operation_sampler \<Rightarrow> int" where
  "op_name_cmp lhs rhs = (if op_string lhs = op_string rhs then 0 else if op_string lhs < op_string rhs then - 1 else 1)"

text \<open>\<open>op_name_cmp\<close> reads the names of the samplers; a search needs all of them to be set.\<close>

definition names_set :: "jaeger_operation_sampler jaeger_vector \<Rightarrow> bool" where
  "names_set vec \<longleftrightarrow> (\<forall>x\<in>set (vec_list vec). op_name x \<noteq> None)"

definition op_key :: "string \<Rightarrow> jaeger_operation_sampler" where
  "op_key name = OPERATION_SAMPLER_ZERO\<lparr>op_name := Some (0, name)\<rparr>"

text \<open>\<open>samplers_from_strategies\<close>: the loop over the strategies.\<close>

fun strategies_loop ::
  "real \<Rightarrow> opentracing_time_value \<Rightarrow> jaeger_operation_strategy list \<Rightarrow> jaeger_operation_sampler jaeger_vector \<Rightarrow> int \<Rightarrow> mem \<Rightarrow>
   (bool \<times> jaeger_operation_sampler jaeger_vector \<times> int \<times> mem) option" where
  "strategies_loop bound now [] vec index m = Some (True, vec, index, m)"
| "strategies_loop bound now (strategy # rest) vec index m = do {
     (slot, vec, m) \<leftarrow> jaeger_vector_append OPERATION_SAMPLER_ZERO vec m;
     c_assert (slot \<noteq> None);
     op \<leftarrow> vec_read vec slot;
     (name, m) \<leftarrow> jaeger_strdup (map_option snd (os_operation strategy)) m;
     if name = None then do {
       vec \<leftarrow> vec_write vec slot (op\<lparr>op_name := None\<rparr>);
       Some (False, vec, index, m)
     } else do {
       vec \<leftarrow> vec_write vec slot
         \<lparr>op_name = name,
          op_sampler = jaeger_guaranteed_throughput_probabilistic_sampler_init bound (os_sampling_rate strategy) now\<rparr>;
       strategies_loop bound now rest vec (index + 1) m
     }
   }"

text \<open>The cleanup destroys the element \<open>index\<close> in every round instead of the element of the round.\<close>

fun destroy_index ::
  "nat \<Rightarrow> int \<Rightarrow> jaeger_operation_sampler jaeger_vector \<Rightarrow> mem \<Rightarrow> (jaeger_operation_sampler jaeger_vector \<times> mem) option" where
  "destroy_index 0 index vec m = Some (vec, m)"
| "destroy_index (Suc n) index vec m = do {
     slot \<leftarrow> jaeger_vector_get vec index;
     (vec, m) \<leftarrow>
       (case slot of
          None \<Rightarrow> Some (vec, m)
        | Some i \<Rightarrow> do {
            x \<leftarrow> vec_read vec slot;
            (x, m) \<leftarrow> jaeger_operation_sampler_destroy x m;
            vec \<leftarrow> vec_write vec slot x;
            Some (vec, m)
          });
     destroy_index n index vec m
   }"

definition samplers_from_strategies ::
  "(jaeger_operation_sampler list \<Rightarrow> jaeger_operation_sampler list) \<Rightarrow> opentracing_time_value \<Rightarrow>
   jaeger_per_operation_strategy \<Rightarrow> jaeger_operation_sampler jaeger_vector \<Rightarrow> mem \<Rightarrow>
   (bool \<times> jaeger_operation_sampler jaeger_vector \<times> mem) option" where
  "samplers_from_strategies qsort now strategies vec m = do {
     let vec = jaeger_vector_clear vec;
     n \<leftarrow> chk_int (int (length (strategy_list strategies)));
     (ok, vec, m) \<leftarrow> jaeger_vector_reserve OPERATION_SAMPLER_ZERO vec n m;
     if \<not> ok then Some (False, vec, m)
     else do {
       (success, vec, index, m) \<leftarrow> strategies_loop (po_default_lower_bound strategies) now (strategy_list strategies) vec 0 m;
       if \<not> success then do {
         (vec, m) \<leftarrow> destroy_index (nat index) index vec m;
         Some (False, jaeger_vector_clear vec, m)
       } else do {
         c_assert (names_set vec);
         Some (True, jaeger_vector_sort qsort vec, m)
       }
     }
   }"

text \<open>The slot of the operation's sampler; also NULL when the copy of the name cannot be made.\<close>

definition jaeger_adaptive_sampler_find_sampler ::
  "jaeger_adaptive_sampler \<Rightarrow> string option \<Rightarrow> mem \<Rightarrow> (nat option \<times> mem) option" where
  "jaeger_adaptive_sampler_find_sampler s operation_name m = do {
     (copy, m) \<leftarrow> jaeger_strdup operation_name m;
     case copy of
       None \<Rightarrow> Some (None, m)
     | Some c \<Rightarrow> do {
         c_assert (names_set (op_samplers s));
         result \<leftarrow> jaeger_vector_bsearch (op_samplers s) (op_key (snd c)) op_name_cmp;
         m \<leftarrow> jaeger_free (Some (fst c)) m;
         Some (result, m)
       }
   }"

definition ad_lock :: "jaeger_adaptive_sampler \<Rightarrow> jaeger_adaptive_sampler option" where
  "ad_lock s = do { c_assert (\<not> ad_locked s); Some (s\<lparr>ad_locked := True\<rparr>) }"

definition ad_unlock :: "jaeger_adaptive_sampler \<Rightarrow> jaeger_adaptive_sampler option" where
  "ad_unlock s = do { c_assert (ad_locked s); Some (s\<lparr>ad_locked := False\<rparr>) }"

text \<open>Asking the sampler in a slot, and the branch with the label \<open>use_default_sampler\<close>.\<close>

definition ask_op_sampler ::
  "sampler_env \<Rightarrow> draw \<Rightarrow> jaeger_adaptive_sampler \<Rightarrow> nat option \<Rightarrow> jaeger_operation_sampler \<Rightarrow> tags \<Rightarrow> mem \<Rightarrow>
   (bool \<times> jaeger_adaptive_sampler \<times> tags \<times> mem) option" where
  "ask_op_sampler env dr s slot op tags m = do {
     (decision, g, tags, m) \<leftarrow> jaeger_guaranteed_throughput_probabilistic_sampler_is_sampled env dr (op_sampler op) tags m;
     vec \<leftarrow> vec_write (op_samplers s) slot (op\<lparr>op_sampler := g\<rparr>);
     s \<leftarrow> ad_unlock (s\<lparr>op_samplers := vec\<rparr>);
     Some (decision, s, tags, m)
   }"

definition use_default_sampler ::
  "sampler_env \<Rightarrow> draw \<Rightarrow> jaeger_adaptive_sampler \<Rightarrow> tags \<Rightarrow> mem \<Rightarrow>
   (bool \<times> jaeger_adaptive_sampler \<times> tags \<times> mem) option" where
  "use_default_sampler env dr s tags m = do {
     (decision, p, tags, m) \<leftarrow> jaeger_probabilistic_sampler_is_sampled env dr (default_sampler s) tags m;
     s \<leftarrow> ad_unlock (s\<lparr>default_sampler := p\<rparr>);
     Some (decision, s, tags, m)
   }"

text \<open>The part of \<open>is_sampled\<close> that makes a sampler for an operation without one.\<close>

definition add_op_sampler ::
  "sampler_env \<Rightarrow> draw \<Rightarrow> jaeger_adaptive_sampler \<Rightarrow> string option \<Rightarrow> tags \<Rightarrow> mem \<Rightarrow>
   (bool \<times> jaeger_adaptive_sampler \<times> tags \<times> mem) option" where
  "add_op_sampler env dr s operation_name tags m = do {
     (copy, m) \<leftarrow> jaeger_strdup operation_name m;
     case copy of
       None \<Rightarrow> use_default_sampler env dr s tags m
     | Some c \<Rightarrow> do {
         c_assert (names_set (op_samplers s));
         pos \<leftarrow> jaeger_vector_lower_bound (op_samplers s) (op_key (snd c)) op_name_cmp;
         (slot, vec, m) \<leftarrow> jaeger_vector_insert OPERATION_SAMPLER_ZERO (op_samplers s) pos m;
         let s = s\<lparr>op_samplers := vec\<rparr>;
         if slot = None then use_default_sampler env dr s tags m
         else do {
           let op = \<lparr>op_name = Some c,
             op_sampler = jaeger_guaranteed_throughput_probabilistic_sampler_init (lower_bound s)
               (sampling_rate (default_sampler s)) (dr_created dr)\<rparr>;
           ask_op_sampler env dr s slot op tags m
         }
       }
   }"

definition jaeger_adaptive_sampler_is_sampled ::
  "sampler_env \<Rightarrow> draw \<Rightarrow> jaeger_adaptive_sampler \<Rightarrow> string option \<Rightarrow> tags \<Rightarrow> mem \<Rightarrow>
   (bool \<times> jaeger_adaptive_sampler \<times> tags \<times> mem) option" where
  "jaeger_adaptive_sampler_is_sampled env dr s operation_name tags m = do {
     s \<leftarrow> ad_lock s;
     (slot, m) \<leftarrow> jaeger_adaptive_sampler_find_sampler s operation_name m;
     if slot \<noteq> None then do {
       op \<leftarrow> vec_read (op_samplers s) slot;
       c_assert (map_option snd (op_name op) = operation_name);
       ask_op_sampler env dr s slot op tags m
     }
     else if jaeger_vector_length (op_samplers s) \<ge> max_operations s then use_default_sampler env dr s tags m
     else add_op_sampler env dr s operation_name tags m
   }"

definition jaeger_adaptive_sampler_destroy ::
  "jaeger_adaptive_sampler \<Rightarrow> mem \<Rightarrow> (jaeger_adaptive_sampler \<times> mem) option" where
  "jaeger_adaptive_sampler_destroy s m = do {
     m \<leftarrow> vec_for_each_destroy jaeger_operation_sampler_destroy (op_samplers s) m;
     (vec, m) \<leftarrow> jaeger_vector_destroy (op_samplers s) m;
     c_assert (\<not> ad_locked s);
     Some (s\<lparr>op_samplers := vec\<rparr>, m)
   }"

definition jaeger_adaptive_sampler_init ::
  "(jaeger_operation_sampler list \<Rightarrow> jaeger_operation_sampler list) \<Rightarrow> opentracing_time_value \<Rightarrow>
   jaeger_adaptive_sampler \<Rightarrow> jaeger_per_operation_strategy \<Rightarrow> int \<Rightarrow> mem \<Rightarrow>
   (bool \<times> jaeger_adaptive_sampler \<times> mem) option" where
  "jaeger_adaptive_sampler_init qsort now s strategies max_ops m = do {
     (ok, vec, m) \<leftarrow> jaeger_vector_init OPERATION_SAMPLER_ZERO SIZEOF_OPERATION_SAMPLER (op_samplers s) m;
     if \<not> ok then Some (False, s\<lparr>op_samplers := vec\<rparr>, m)
     else do {
       (ok, vec, m) \<leftarrow> samplers_from_strategies qsort now strategies vec m;
       if \<not> ok then do {
         (vec, m) \<leftarrow> jaeger_vector_destroy vec m;
         Some (False, s\<lparr>op_samplers := vec\<rparr>, m)
       } else
         Some (True,
           \<lparr>op_samplers = vec,
            default_sampler = jaeger_probabilistic_sampler_init (po_default_sampling_probability strategies),
            lower_bound = po_default_lower_bound strategies, max_operations = max_ops, ad_locked = False\<rparr>, m)
     }
   }"

text \<open>The loop of \<open>jaeger_adaptive_sampler_update\<close>; the new sampler's \<open>operation_name\<close> is never assigned.\<close>

fun update_loop ::
  "real \<Rightarrow> opentracing_time_value \<Rightarrow> jaeger_operation_strategy list \<Rightarrow> bool \<Rightarrow> jaeger_adaptive_sampler \<Rightarrow> mem \<Rightarrow>
   (bool \<times> jaeger_adaptive_sampler \<times> mem) option" where
  "update_loop bound now [] success s m = Some (success, s, m)"
| "update_loop bound now (strategy # rest) success s m = do {
     (slot, m) \<leftarrow> jaeger_adaptive_sampler_find_sampler s (map_option snd (os_operation strategy)) m;
     if slot \<noteq> None then do {
       op \<leftarrow> vec_read (op_samplers s) slot;
       let g = jaeger_guaranteed_throughput_probabilistic_sampler_update (op_sampler op) bound (os_sampling_rate strategy) now;
       vec \<leftarrow> vec_write (op_samplers s) slot (op\<lparr>op_sampler := g\<rparr>);
       update_loop bound now rest success (s\<lparr>op_samplers := vec\<rparr>) m
     }
     else if success then do {
       (name, m) \<leftarrow> jaeger_strdup (map_option snd (os_operation strategy)) m;
       case name of
         None \<Rightarrow> update_loop bound now rest False s m
       | Some c \<Rightarrow> do {
           c_assert (names_set (op_samplers s));
           pos \<leftarrow> jaeger_vector_lower_bound (op_samplers s) (op_key (snd c)) op_name_cmp;
           (slot, vec, m) \<leftarrow> jaeger_vector_insert OPERATION_SAMPLER_ZERO (op_samplers s) pos m;
           let s = s\<lparr>op_samplers := vec\<rparr>;
           if slot = None then update_loop bound now rest False s m
           else do {
             op \<leftarrow> vec_read vec slot;
             vec \<leftarrow> vec_write vec slot
               (op\<lparr>op_sampler := jaeger_guaranteed_throughput_probabilistic_sampler_init bound (os_sampling_rate strategy) now\<rparr>);
             update_loop bound now rest success (s\<lparr>op_samplers := vec\<rparr>) m
           }
         }
     }
     else update_loop bound now rest success s m
   }"

definition jaeger_adaptive_sampler_update ::
  "opentracing_time_value \<Rightarrow> jaeger_adaptive_sampler \<Rightarrow> jaeger_per_operation_strategy \<Rightarrow> mem \<Rightarrow>
   (bool \<times> jaeger_adaptive_sampler \<times> mem) option" where
  "jaeger_adaptive_sampler_update now s strategies m = do {
     s \<leftarrow> ad_lock s;
     (success, s, m) \<leftarrow> update_loop (po_default_lower_bound strategies) now (strategy_list strategies) True s m;
     s \<leftarrow> ad_unlock s;
     Some (success, s, m)
   }"

section \<open>Tags of the samplers\<close>

text \<open>What a tag vector owns: its block and the blocks of its tags.\<close>

definition tags_ptrs :: "jaeger_tag jaeger_vector \<Rightarrow> ptr list" where
  "tags_ptrs v = vec_ptrs v @ concat (map tag_ptrs (vec_list v))"

lemma tag_append_room:
  assumes "tag_blank tag_init" and "vec_ok v" and "vec_len v < vec_capacity v" and "mem_ok m" and "owns m (tags_ptrs v)"
    and "tag_src_ok t"
  shows "\<exists>ok v' m' added. jaeger_tag_vector_append tag_init v t m = Some (ok, v', m') \<and> vec_ok v' \<and>
    vec_list v' = vec_list v @ added \<and> vec_capacity v' = vec_capacity v \<and> vec_len v' = vec_len v + int (length added) \<and>
    (if ok then \<exists>t'. added = [t'] \<and> tag_same t t' else added = []) \<and> (mem_plenty m \<longrightarrow> ok) \<and>
    distinct (tags_ptrs v') \<and> mem_trans (set (tags_ptrs v)) (set (tags_ptrs v')) m m'"
proof -
  note app = vec_append_room [OF assms(2,3), of TAG_ZERO m]
  from tag_initialiser.tag_copy_spec [OF tag_initialiserI [OF assms(1)] assms(4,6)] obtain ok t' m' where
    c: "jaeger_tag_copy tag_init t m = Some (ok, t', m')" "ok \<longrightarrow> tag_same t t' \<and> distinct (tag_ptrs t') \<and> mem_trans {} (set (tag_ptrs t')) m m'"
    "\<not> ok \<longrightarrow> mem_trans {} {} m m'" "mem_plenty m \<longrightarrow> ok" by blast
  from vec_append_write [OF assms(2,3)] obtain w where
    w: "vec_write (v\<lparr>vec_len := vec_len v + 1\<rparr>) (Some (nat (vec_len v))) t' = Some w" "vec_ok w"
    "vec_ptrs w = vec_ptrs v" "vec_len w = vec_len v + 1" "vec_capacity w = vec_capacity v"
    "vec_list w = vec_list v @ [t']" "vec_ok (w\<lparr>vec_len := vec_len w - 1\<rparr>)" "vec_list (w\<lparr>vec_len := vec_len w - 1\<rparr>) = vec_list v"
    "vec_ptrs (w\<lparr>vec_len := vec_len w - 1\<rparr>) = vec_ptrs v" by metis
  have sub: "set (tags_ptrs v) \<subseteq> dom (mem_blocks m)" "distinct (tags_ptrs v)" using assms(5) by (auto simp: owns_def)
  show ?thesis
  proof (cases ok)
    case True
    have tp: "tags_ptrs w = tags_ptrs v @ tag_ptrs t'" using w(3,6) by (simp add: tags_ptrs_def)
    have a: "mem_trans {} (set (tag_ptrs t')) m m'" using c(2) True by simp
    have "mem_trans (set (tags_ptrs v)) (set (tags_ptrs w)) m m'"
      using mem_trans_frame [OF a sub(1)] by (simp add: tp Un_commute)
    moreover have "distinct (tags_ptrs w)" using c(2) True sub mem_trans_disj [OF a] by (auto simp: tp)
    ultimately show ?thesis using app c(1,2) w(1,2,4-6) True
      by (intro exI [of _ True] exI [of _ w] exI [of _ m'] exI [of _ "[t']"]) (simp add: jaeger_tag_vector_append_def)
  next
    case False
    let ?w = "w\<lparr>vec_len := vec_len w - 1\<rparr>"
    have tp: "tags_ptrs ?w = tags_ptrs v" using w(8,9) by (simp add: tags_ptrs_def)
    have "mem_trans (set (tags_ptrs v)) (set (tags_ptrs ?w)) m m'"
      using mem_trans_frame [of "{}" "{}" m m', OF _ sub(1)] c(3) False by (simp add: tp)
    with app c(1,4) w(1,4,5,7,8) False sub(2) tp show ?thesis
      by (intro exI [of _ False] exI [of _ ?w] exI [of _ m'] exI [of _ "[]"]) (simp add: jaeger_tag_vector_append_def)
  qed
qed

definition tags_ok :: "tags \<Rightarrow> mem \<Rightarrow> bool" where
  "tags_ok tags m \<longleftrightarrow> (case tags of None \<Rightarrow> True | Some v \<Rightarrow> vec_ok v \<and> owns m (tags_ptrs v) \<and> vec_room v (vec_len v + 2))"

definition tags_own :: "tags \<Rightarrow> ptr list" where
  "tags_own tags = (case tags of None \<Rightarrow> [] | Some v \<Rightarrow> tags_ptrs v)"

definition tags_list :: "tags \<Rightarrow> jaeger_tag list" where
  "tags_list tags = (case tags of None \<Rightarrow> [] | Some v \<Rightarrow> vec_list v)"

definition type_tag :: "sampler_env \<Rightarrow> string \<Rightarrow> jaeger_tag" where
  "type_tag env ty = (se_tag_init env)\<lparr>tag_key := Some (0, JAEGERTRACINGC_SAMPLER_TYPE_TAG_KEY),
     tag_v_type := VT_STRING, tag_v_str := Some (0, ty)\<rparr>"

definition param_tag :: "sampler_env \<Rightarrow> string \<Rightarrow> (jaeger_tag \<Rightarrow> jaeger_tag) \<Rightarrow> jaeger_tag" where
  "param_tag env ty f = f ((type_tag env ty)\<lparr>tag_key := Some (0, JAEGERTRACINGC_SAMPLER_PARAM_TAG_KEY)\<rparr>)"

text \<open>
  What the last block of every \<open>is_sampled\<close> may do to the tag vector, for any pattern of allocation
  failures: it appends at most the two tags and owns what the vector owned and the new blocks; with
  memory to spare both tags are there.
\<close>

definition tags_added ::
  "sampler_env \<Rightarrow> string \<times> (jaeger_tag \<Rightarrow> jaeger_tag) \<Rightarrow> tags \<Rightarrow> mem \<Rightarrow> tags \<Rightarrow> mem \<Rightarrow> bool" where
  "tags_added env shown tags m tags' m' \<longleftrightarrow>
     (\<exists>added. tags_list tags' = tags_list tags @ added \<and> (tags' = None \<longleftrightarrow> tags = None) \<and> length added \<le> 2 \<and>
       (tags \<noteq> None \<and> mem_plenty m \<longrightarrow>
         list_all2 tag_same [type_tag env (fst shown), param_tag env (fst shown) (snd shown)] added) \<and>
       distinct (tags_own tags') \<and> mem_trans (set (tags_own tags)) (set (tags_own tags')) m m')"

lemma append_tags_run:
  assumes "tag_blank (se_tag_init env)" and "tags_ok tags m" and "mem_ok m" and "\<forall>t. tag_src_ok t \<longrightarrow> tag_src_ok (f t)"
  shows "\<exists>tags' m' added. append_sampler_tags env stop ty f tags m = Some (tags', m') \<and>
    tags_list tags' = tags_list tags @ added \<and> (tags' = None \<longleftrightarrow> tags = None) \<and> length added \<le> 2 \<and>
    (tags \<noteq> None \<and> mem_plenty m \<longrightarrow> list_all2 tag_same [type_tag env ty, param_tag env ty f] added) \<and>
    distinct (tags_own tags') \<and> mem_trans (set (tags_own tags)) (set (tags_own tags')) m m'"
proof (cases tags)
  case None
  with assms(3) show ?thesis by (intro exI [of _ None] exI [of _ m] exI [of _ "[]"]) (simp add: append_sampler_tags_def tags_own_def tags_list_def)
next
  case (Some v)
  have v: "vec_ok v" "owns m (tags_ptrs v)" "vec_room v (vec_len v + 2)" using assms(2) Some by (auto simp: tags_ok_def)
  have l: "0 \<le> vec_len v" using v(1) by (simp add: vec_ok_def)
  have ck: "chk_int (jaeger_vector_length v + 2) = Some (vec_len v + 2)"
    using v(3) l by (simp add: jaeger_vector_length_def vec_room_def int_ok_def INT_MAX_def)
  have blk: "set (vec_ptrs v) \<subseteq> dom (mem_blocks m)" using v(2) by (auto simp: tags_ptrs_def owns_def)
  from vec_reserve_total [OF v(1) assms(3) blk v(3)] obtain ok v1 m1 where
    r: "jaeger_vector_reserve TAG_ZERO v (vec_len v + 2) m = Some (ok, v1, m1)" by blast
  note rs = vec_reserve_spec [OF r v(1) assms(3)]
  have tp1: "mem_trans (set (tags_ptrs v)) (set (tags_ptrs v1)) m m1" "distinct (tags_ptrs v1)"
  proof -
    let ?L = "concat (map tag_ptrs (vec_list v))"
    have o: "set ?L \<inter> set (vec_ptrs v) = {}" "set ?L \<subseteq> dom (mem_blocks m)" "distinct ?L" "distinct (vec_ptrs v1)"
      using v(2) by (auto simp: tags_ptrs_def owns_def vec_ptrs_def split: option.splits)
    have mt: "mem_trans (set (vec_ptrs v)) (set (vec_ptrs v1)) m m1" by (rule rs(7) [OF blk])
    show "mem_trans (set (tags_ptrs v)) (set (tags_ptrs v1)) m m1"
      using mem_trans_frame [OF mt o(2,1)] rs(2) by (simp add: tags_ptrs_def)
    show "distinct (tags_ptrs v1)" using o mem_trans_disj [OF mt] rs(2) by (auto simp: tags_ptrs_def)
  qed
  note o1 = owns_trans [OF tp1] and m1 = mem_trans_ok [OF tp1(1)] and pl1 = mem_plenty_trans [OF tp1(1)]
  show ?thesis
  proof (cases ok)
    case False
    with rs(6) vec_reserve_plenty [OF r assms(3)] ck r Some tp1 show ?thesis
      by (intro exI [of _ "Some v1"] exI [of _ m1] exI [of _ "[]"]) (auto simp: append_sampler_tags_def tags_own_def tags_list_def)
  next
    case True
    have cap: "vec_len v1 + 2 \<le> vec_capacity v1" using rs(3,5) True by simp
    have s1: "tag_src_ok (type_tag env ty)" by (simp add: tag_src_ok_def type_tag_def)
    have s2: "tag_src_ok (param_tag env ty f)" unfolding param_tag_def
      by (rule assms(4) [rule_format]) (simp add: tag_src_ok_def type_tag_def)
    from tag_append_room [OF assms(1) rs(1) _ m1 o1 s1] cap obtain ok1 v2 m2 a1 where
      a1: "jaeger_tag_vector_append (se_tag_init env) v1 (type_tag env ty) m1 = Some (ok1, v2, m2)" "vec_ok v2"
      "vec_list v2 = vec_list v1 @ a1" "vec_capacity v2 = vec_capacity v1" "vec_len v2 = vec_len v1 + int (length a1)"
      "if ok1 then \<exists>t'. a1 = [t'] \<and> tag_same (type_tag env ty) t' else a1 = []" "mem_plenty m1 \<longrightarrow> ok1"
      "distinct (tags_ptrs v2)" "mem_trans (set (tags_ptrs v1)) (set (tags_ptrs v2)) m1 m2" by auto
    have tr2: "mem_trans (set (tags_ptrs v)) (set (tags_ptrs v2)) m m2" by (rule mem_trans_trans [OF tp1(1) a1(9) assms(3)])
    have la1: "length a1 \<le> 1" using a1(6) by (auto split: if_splits)
    show ?thesis
    proof (cases "\<not> ok1 \<and> stop")
      case stopped: True
      with a1 la1 rs(2) r ck Some True tr2 pl1 show ?thesis
        by (intro exI [of _ "Some v2"] exI [of _ m2] exI [of _ a1])
          (auto simp: append_sampler_tags_def tags_own_def tags_list_def type_tag_def [symmetric])
    next
      case False
      from tag_append_room [OF assms(1) a1(2) _ mem_trans_ok [OF a1(9)] owns_trans [OF a1(9,8)] s2] cap a1(4,5) la1 obtain ok2 v3 m3 a2 where
        a2: "jaeger_tag_vector_append (se_tag_init env) v2 (param_tag env ty f) m2 = Some (ok2, v3, m3)"
        "vec_list v3 = vec_list v2 @ a2"
        "if ok2 then \<exists>t'. a2 = [t'] \<and> tag_same (param_tag env ty f) t' else a2 = []" "mem_plenty m2 \<longrightarrow> ok2"
        "distinct (tags_ptrs v3)" "mem_trans (set (tags_ptrs v2)) (set (tags_ptrs v3)) m2 m3" by auto
      have la2: "length a2 \<le> 1" using a2(3) by (auto split: if_splits)
      have both: "list_all2 tag_same [type_tag env ty, param_tag env ty f] (a1 @ a2)" if "mem_plenty m"
        using that pl1 mem_plenty_trans [OF a1(9)] a1(6,7) a2(3,4) by auto
      have "append_sampler_tags env stop ty f tags m = Some (Some v3, m3)"
        using ck r True a1(1) a2(1) False Some
        by (auto simp: append_sampler_tags_def type_tag_def [symmetric] param_tag_def [symmetric])
      with a1(3) a2(2,5) la1 la2 rs(2) both Some mem_trans_trans [OF tr2 a2(6) assms(3)] show ?thesis
        by (intro exI [of _ "Some v3"] exI [of _ m3] exI [of _ "a1 @ a2"]) (auto simp: tags_own_def tags_list_def)
    qed
  qed
qed

lemma append_tags_spec:
  assumes "tag_blank (se_tag_init env)" and "tags_ok tags m" and "mem_ok m" and "\<forall>t. tag_src_ok t \<longrightarrow> tag_src_ok (f t)"
  shows "\<exists>tags' m'. append_sampler_tags env stop ty f tags m = Some (tags', m') \<and> tags_added env (ty, f) tags m tags' m'"
  using append_tags_run [where f = f and stop = stop and ty = ty, OF assms] unfolding tags_added_def fst_conv snd_conv
  by (elim exE conjE) (intro exI conjI, assumption+)

section \<open>The contract of a sampler\<close>

text \<open>The clock reading of the second call is not before the one of the first.\<close>

definition later :: "draw \<Rightarrow> draw \<Rightarrow> bool" where
  "later dr dr' \<longleftrightarrow> clock_ok (dr_now dr') \<and> time_ns (dr_now dr) \<le> time_ns (dr_now dr')"

fun chronological :: "draw list \<Rightarrow> bool" where
  "chronological (dr # dr' # drs) \<longleftrightarrow> later dr dr' \<and> chronological (dr' # drs)"
| "chronological _ \<longleftrightarrow> True"

text \<open>A sampler asked once per draw, without tags, and what its pure result function says of the same draws.\<close>

fun ask_run ::
  "(draw \<Rightarrow> 's \<Rightarrow> tags \<Rightarrow> mem \<Rightarrow> (bool \<times> 's \<times> tags \<times> mem) option) \<Rightarrow> draw list \<Rightarrow> 's \<Rightarrow> mem \<Rightarrow> (bool list \<times> 's \<times> mem) option" where
  "ask_run ask [] s m = Some ([], s, m)"
| "ask_run ask (dr # drs) s m = do {
     (decision, s, _, m) \<leftarrow> ask dr s None m;
     (ds, s, m) \<leftarrow> ask_run ask drs s m;
     Some (decision # ds, s, m)
   }"

fun results :: "(draw \<Rightarrow> 's \<Rightarrow> bool \<times> 's) \<Rightarrow> draw list \<Rightarrow> 's \<Rightarrow> bool list \<times> 's" where
  "results result [] s = ([], s)"
| "results result (dr # drs) s =
     (case result dr s of (d, s) \<Rightarrow> case results result drs s of (ds, s) \<Rightarrow> (d # ds, s))"

text \<open>
  \<open>ok dr s\<close>: the sampler can be asked with the draw; \<open>result\<close>: the decision and the sampler afterwards;
  \<open>shown\<close>: the type and the parameter of its tags.
\<close>

locale sampler_contract =
  fixes env :: sampler_env
    and ask :: "draw \<Rightarrow> 's \<Rightarrow> tags \<Rightarrow> mem \<Rightarrow> (bool \<times> 's \<times> tags \<times> mem) option"
    and ok :: "draw \<Rightarrow> 's \<Rightarrow> bool"
    and result :: "draw \<Rightarrow> 's \<Rightarrow> bool \<times> 's"
    and shown :: "draw \<Rightarrow> 's \<Rightarrow> string \<times> (jaeger_tag \<Rightarrow> jaeger_tag)"
  assumes ask_law: "ok dr s \<Longrightarrow> tags_ok tags m \<Longrightarrow> mem_ok m \<Longrightarrow>
      \<exists>tags' m'. ask dr s tags m = Some (fst (result dr s), snd (result dr s), tags', m') \<and>
        tags_added env (shown dr s) tags m tags' m'"
    and ok_later: "ok dr s \<Longrightarrow> later dr dr' \<Longrightarrow> ok dr' (snd (result dr s))"
begin

lemma ask_untagged:
  assumes "ok dr s" and "mem_ok m"
  shows "\<exists>m'. ask dr s None m = Some (fst (result dr s), snd (result dr s), None, m') \<and> mem_trans {} {} m m'"
  using ask_law [OF assms(1) _ assms(2), of None] by (auto simp: tags_ok_def tags_own_def tags_added_def)

lemma run_results:
  assumes "chronological (dr # drs)" and "ok dr s" and "mem_ok m"
  shows "\<exists>m'. ask_run ask (dr # drs) s m = Some (fst (results result (dr # drs) s), snd (results result (dr # drs) s), m') \<and>
    mem_trans {} {} m m'"
  using assms
proof (induction drs arbitrary: dr s m)
  case Nil
  from ask_untagged [OF Nil(2,3)] show ?case by (auto split: prod.split)
next
  case (Cons dr' drs)
  from ask_untagged [OF Cons.prems(2,3)] obtain m1 where
    a: "ask dr s None m = Some (fst (result dr s), snd (result dr s), None, m1)" "mem_trans {} {} m m1" by blast
  have l: "later dr dr'" "chronological (dr' # drs)" using Cons.prems(1) by auto
  from Cons.IH [OF l(2) ok_later [OF Cons.prems(2) l(1)] mem_trans_ok [OF a(2)]] obtain m2 where
    ih: "ask_run ask (dr' # drs) (snd (result dr s)) m1 =
      Some (fst (results result (dr' # drs) (snd (result dr s))), snd (results result (dr' # drs) (snd (result dr s))), m2)"
    "mem_trans {} {} m1 m2" by blast
  have r: "results result (dr # dr' # drs) s =
      (fst (result dr s) # fst (results result (dr' # drs) (snd (result dr s))), snd (results result (dr' # drs) (snd (result dr s))))"
    by (subst results.simps) (simp split: prod.split)
  have "ask_run ask (dr # dr' # drs) s m =
      Some (fst (result dr s) # fst (results result (dr' # drs) (snd (result dr s))), snd (results result (dr' # drs) (snd (result dr s))), m2)"
    by (subst ask_run.simps) (simp only: a(1) ih(1) bind.bind_lunit prod.case)
  with r mem_trans_trans [OF a(2) ih(2) Cons.prems(3)] show ?case by auto
qed

end

lemma float_param_ok: "tag_src_ok t \<Longrightarrow> tag_src_ok (float_param x t)"
  and bool_param_ok: "tag_src_ok t \<Longrightarrow> tag_src_ok (bool_param b t)"
  by (auto simp: tag_src_ok_def float_param_def bool_param_def)

lemma append_param_spec:
  assumes "tag_blank (se_tag_init env)" and "tags_ok tags m" and "mem_ok m"
  shows "\<exists>tags' m'. append_sampler_tags env stop ty (float_param x) tags m = Some (tags', m') \<and>
      tags_added env (ty, float_param x) tags m tags' m'"
    and "\<exists>tags' m'. append_sampler_tags env stop ty (bool_param b) tags m = Some (tags', m') \<and>
      tags_added env (ty, bool_param b) tags m tags' m'"
  using append_tags_spec [OF assms] float_param_ok bool_param_ok by blast+

text \<open>The clock has not gone back since the last call on the token bucket.\<close>

definition tok_ok :: "sampler_env \<Rightarrow> draw \<Rightarrow> jaeger_token_bucket \<Rightarrow> bool" where
  "tok_ok env dr tok \<longleftrightarrow> double_rounding (se_rnd env) \<and> tb_ok tok \<and> se_rnd env (tb_max_balance tok) = tb_max_balance tok \<and>
     clock_ok (dr_now dr) \<and> time_ns (tb_last_tick tok) \<le> time_ns (dr_now dr)"

definition credit :: "sampler_env \<Rightarrow> draw \<Rightarrow> jaeger_token_bucket \<Rightarrow> bool \<times> jaeger_token_bucket" where
  "credit env dr tok = the (jaeger_token_bucket_check_credit (se_rnd env) tok 1 (dr_now dr))"

lemma credit_run:
  assumes "tok_ok env dr tok"
  shows "jaeger_token_bucket_check_credit (se_rnd env) tok 1 (dr_now dr) = Some (credit env dr tok)"
    and "later dr dr' \<Longrightarrow> tok_ok env dr' (snd (credit env dr tok))"
proof -
  note t = assms [unfolded tok_ok_def]
  note r = double_rounding.rnd_mono [of "se_rnd env"] double_rounding.rnd_nonneg [of "se_rnd env"]
  from t have d: "double_rounding (se_rnd env)" "tb_ok tok" "clock_ok (dr_now dr)" "time_ns (tb_last_tick tok) \<le> time_ns (dr_now dr)"
    by auto
  from check_credit_eq [OF d(2-4), of "se_rnd env" 1] obtain i where
    run: "jaeger_token_bucket_check_credit (se_rnd env) tok 1 (dr_now dr) =
      (let diff = se_rnd env (se_rnd env (se_rnd env (of_int (tv_nsec i) / 1000000000) + of_int (tv_sec i)) * tb_credits_per_second tok);
           b = min (tb_max_balance tok) (se_rnd env (tb_balance tok + diff));
           tok' = tok\<lparr>tb_balance := b, tb_last_tick := dr_now dr\<rparr>
       in Some (if b < 1 then (False, tok') else (True, tok'\<lparr>tb_balance := se_rnd env (b - 1)\<rparr>)))"
    and i: "time_norm i" "0 \<le> tv_sec i" by metis
  define diff where "diff = se_rnd env (se_rnd env (se_rnd env (of_int (tv_nsec i) / 1000000000) + of_int (tv_sec i)) * tb_credits_per_second tok)"
  define b where "b = min (tb_max_balance tok) (se_rnd env (tb_balance tok + diff))"
  have "0 \<le> tv_nsec i" using i(1) by (simp add: clock_unfold)
  then have "0 \<le> diff" unfolding diff_def using i(2) d(2)
    by (intro r(2) [OF d(1)] mult_nonneg_nonneg add_nonneg_nonneg) (auto simp: tb_ok_def)
  then have b: "0 \<le> b" "b \<le> tb_max_balance tok" using d(2) r(2) [OF d(1), of "tb_balance tok + diff"] by (auto simp: b_def tb_ok_def)
  have s: "0 \<le> se_rnd env (b - 1)" "se_rnd env (b - 1) \<le> tb_max_balance tok" if "\<not> b < 1"
    using that b t r(2) [OF d(1), of "b - 1"] r(1) [OF d(1), of "b - 1" "tb_max_balance tok"] by auto
  have e: "jaeger_token_bucket_check_credit (se_rnd env) tok 1 (dr_now dr) =
      Some (if b < 1 then (False, tok\<lparr>tb_balance := b, tb_last_tick := dr_now dr\<rparr>)
            else (True, tok\<lparr>tb_balance := se_rnd env (b - 1), tb_last_tick := dr_now dr\<rparr>))"
    using run by (simp add: Let_def diff_def b_def)
  then show "jaeger_token_bucket_check_credit (se_rnd env) tok 1 (dr_now dr) = Some (credit env dr tok)"
    by (simp add: credit_def)
  show "tok_ok env dr' (snd (credit env dr tok))" if "later dr dr'"
    using that t b s e by (auto simp: credit_def tok_ok_def later_def tb_ok_def clock_ok_def)
qed

interpretation const_s: sampler_contract env "\<lambda>dr. jaeger_const_sampler_is_sampled env" "\<lambda>dr s. tag_blank (se_tag_init env)"
  "\<lambda>dr s. (const_decision s, s)" "\<lambda>dr s. (JAEGERTRACINGC_SAMPLER_TYPE_CONST, bool_param (const_decision s))" for env
proof (unfold_locales, goal_cases)
  case (1 dr s tags m)
  from append_param_spec(2) [OF 1, of True JAEGERTRACINGC_SAMPLER_TYPE_CONST "const_decision s"] show ?case
    by (auto simp: jaeger_const_sampler_is_sampled_def)
qed simp

interpretation prob_s: sampler_contract env "jaeger_probabilistic_sampler_is_sampled env" "\<lambda>dr s. tag_blank (se_tag_init env)"
  "\<lambda>dr s. (sampling_rate s \<ge> random_value env dr, s)"
  "\<lambda>dr s. (JAEGERTRACINGC_SAMPLER_TYPE_PROBABILISTIC, float_param (sampling_rate s))" for env
proof (unfold_locales, goal_cases)
  case (1 dr s tags m)
  from append_param_spec(1) [OF 1, of True JAEGERTRACINGC_SAMPLER_TYPE_PROBABILISTIC "sampling_rate s"] show ?case
    by (auto simp: jaeger_probabilistic_sampler_is_sampled_def)
qed simp

definition rl_ok :: "sampler_env \<Rightarrow> draw \<Rightarrow> jaeger_rate_limiting_sampler \<Rightarrow> bool" where
  "rl_ok env dr s \<longleftrightarrow> tag_blank (se_tag_init env) \<and> tok_ok env dr (rl_tok s)"

definition rl_result :: "sampler_env \<Rightarrow> draw \<Rightarrow> jaeger_rate_limiting_sampler \<Rightarrow> bool \<times> jaeger_rate_limiting_sampler" where
  "rl_result env dr s = (case credit env dr (rl_tok s) of (d, tok) \<Rightarrow> (d, s\<lparr>rl_tok := tok\<rparr>))"

interpretation rate_s: sampler_contract env "jaeger_rate_limiting_sampler_is_sampled env" "rl_ok env" "rl_result env"
  "\<lambda>dr s. (JAEGERTRACINGC_SAMPLER_TYPE_RATE_LIMITING, float_param (max_traces_per_second s))" for env
proof (unfold_locales, goal_cases)
  case (1 dr s tags m)
  then have t: "tag_blank (se_tag_init env)" "tok_ok env dr (rl_tok s)" by (auto simp: rl_ok_def)
  from append_param_spec(1) [OF t(1) 1(2,3), of False JAEGERTRACINGC_SAMPLER_TYPE_RATE_LIMITING "max_traces_per_second s"]
    credit_run(1) [OF t(2)] show ?case
    by (auto simp: jaeger_rate_limiting_sampler_is_sampled_def rl_result_def split: prod.split)
next
  case (2 dr s dr')
  with credit_run(2) [of env dr "rl_tok s" dr'] show ?case by (auto simp: rl_ok_def rl_result_def split: prod.splits)
qed

definition gt_ok :: "sampler_env \<Rightarrow> draw \<Rightarrow> jaeger_guaranteed_throughput_probabilistic_sampler \<Rightarrow> bool" where
  "gt_ok env dr s \<longleftrightarrow> rl_ok env dr (gt_lower_bound_sampler s)"

definition gt_result ::
  "sampler_env \<Rightarrow> draw \<Rightarrow> jaeger_guaranteed_throughput_probabilistic_sampler \<Rightarrow>
   bool \<times> jaeger_guaranteed_throughput_probabilistic_sampler" where
  "gt_result env dr s =
     (sampling_rate (gt_probabilistic_sampler s) \<ge> random_value env dr \<or> fst (rl_result env dr (gt_lower_bound_sampler s)),
      s\<lparr>gt_lower_bound_sampler := snd (rl_result env dr (gt_lower_bound_sampler s))\<rparr>)"

definition gt_shown ::
  "sampler_env \<Rightarrow> draw \<Rightarrow> jaeger_guaranteed_throughput_probabilistic_sampler \<Rightarrow> string \<times> (jaeger_tag \<Rightarrow> jaeger_tag)" where
  "gt_shown env dr s =
     (if sampling_rate (gt_probabilistic_sampler s) \<ge> random_value env dr
      then (JAEGERTRACINGC_SAMPLER_TYPE_PROBABILISTIC, float_param (sampling_rate (gt_probabilistic_sampler s)))
      else (JAEGERTRACINGC_SAMPLER_TYPE_LOWER_BOUND, float_param (max_traces_per_second (gt_lower_bound_sampler s))))"

interpretation guar_s: sampler_contract env "jaeger_guaranteed_throughput_probabilistic_sampler_is_sampled env" "gt_ok env"
  "gt_result env" "gt_shown env" for env
proof (unfold_locales, goal_cases)
  case (1 dr s tags m)
  then have t: "tag_blank (se_tag_init env)" "rl_ok env dr (gt_lower_bound_sampler s)" by (auto simp: gt_ok_def rl_ok_def)
  have p: "jaeger_probabilistic_sampler_is_sampled env dr (gt_probabilistic_sampler s) None m =
      Some (sampling_rate (gt_probabilistic_sampler s) \<ge> random_value env dr, gt_probabilistic_sampler s, None, m)"
    by (simp add: jaeger_probabilistic_sampler_is_sampled_def append_sampler_tags_def)
  have l: "jaeger_rate_limiting_sampler_is_sampled env dr (gt_lower_bound_sampler s) None m =
      Some (fst (rl_result env dr (gt_lower_bound_sampler s)), snd (rl_result env dr (gt_lower_bound_sampler s)), None, m)"
    using credit_run(1) [of env dr "rl_tok (gt_lower_bound_sampler s)"] t(2)
    by (simp add: rl_ok_def jaeger_rate_limiting_sampler_is_sampled_def append_sampler_tags_def rl_result_def split: prod.split)
  have mt: "max_traces_per_second (snd (rl_result env dr (gt_lower_bound_sampler s))) = max_traces_per_second (gt_lower_bound_sampler s)"
    by (simp add: rl_result_def split: prod.split)
  note a = append_param_spec(1) [OF t(1) 1(2,3), of False]
  from a [of JAEGERTRACINGC_SAMPLER_TYPE_PROBABILISTIC "sampling_rate (gt_probabilistic_sampler s)"]
    a [of JAEGERTRACINGC_SAMPLER_TYPE_LOWER_BOUND "max_traces_per_second (gt_lower_bound_sampler s)"] p l mt show ?case
    by (auto simp: jaeger_guaranteed_throughput_probabilistic_sampler_is_sampled_def gt_result_def gt_shown_def)
next
  case (2 dr s dr')
  with rate_s.ok_later show ?case by (simp add: gt_ok_def gt_result_def)
qed

section \<open>Decisions of the basic samplers\<close>

lemma random_value_bounds:
  assumes "double_rounding (se_rnd_long env)"
  shows "0 \<le> random_value env dr" and "random_value env dr \<le> 1"
proof -
  note mono = double_rounding.rnd_mono [OF assms] and nn = double_rounding.rnd_nonneg [OF assms]
  have "unat (dr_random dr) \<le> UINT64_MAX" using unsigned_less [of "dr_random dr", where 'a = nat] by (simp add: UINT64_MAX_def)
  then have le: "se_rnd_long env (of_nat (unat (dr_random dr))) \<le> se_rnd_long env (of_nat UINT64_MAX)"
    by (intro mono) (simp only: of_nat_le_iff)
  have "1 \<le> se_rnd_long env (of_nat UINT64_MAX)"
    using mono [of 1 "of_nat UINT64_MAX"] double_rounding.rnd_1 [OF assms] by (simp add: UINT64_MAX_def)
  with le have q: "0 \<le> se_rnd_long env (of_nat (unat (dr_random dr))) / se_rnd_long env (of_nat UINT64_MAX)"
    "se_rnd_long env (of_nat (unat (dr_random dr))) / se_rnd_long env (of_nat UINT64_MAX) \<le> 1"
    using nn [OF of_nat_0_le_iff, of "unat (dr_random dr)"] by (auto simp del: unsigned_of_nat of_nat_unat simp: divide_le_eq_1)
  show "0 \<le> random_value env dr" "random_value env dr \<le> 1"
    unfolding random_value_def by (rule nn [OF q(1)], rule double_rounding.rnd_le_1 [OF assms q(2)])
qed

lemma random_value_le_half:
  assumes "binary_rounding (se_rnd_long env)" and "unat (dr_random dr) < 2 ^ 63"
  shows "random_value env dr \<le> 1 / 2"
proof -
  have d: "double_rounding (se_rnd_long env)" using assms(1) by (simp add: binary_rounding_def)
  have "1 \<le> se_rnd_long env (of_nat UINT64_MAX)"
    using double_rounding.rnd_mono [OF d, of 1 "of_nat UINT64_MAX"] double_rounding.rnd_1 [OF d] by (simp add: UINT64_MAX_def)
  moreover have "(of_nat (unat (dr_random dr)) :: real) \<le> of_nat UINT64_MAX / 2"
  proof -
    have "2 * unat (dr_random dr) \<le> UINT64_MAX" using assms(2) by (simp add: UINT64_MAX_def)
    then have "(of_nat (2 * unat (dr_random dr)) :: real) \<le> of_nat UINT64_MAX" by (simp only: of_nat_le_iff)
    then show ?thesis by simp
  qed
  ultimately show ?thesis
    unfolding random_value_def by (intro binary_rounding.ratio_le_half [OF assms(1)]) simp_all
qed

lemma clamp_unit: "JAEGERTRACINGC_CLAMP x 0 1 = min 1 (max 0 x)"
  by (auto simp: JAEGERTRACINGC_CLAMP_def JAEGERTRACINGC_MIN_def JAEGERTRACINGC_MAX_def)

definition sample_env :: sampler_env where
  "sample_env = \<lparr>se_tag_init = TAG_ZERO, se_rnd = rnd53, se_rnd_long = rnd53\<rparr>"

lemma sample_env_simps [simp]: "tag_blank (se_tag_init sample_env)" "double_rounding (se_rnd sample_env)"
  "double_rounding (se_rnd_long sample_env)"
  by (simp_all add: sample_env_def tag_blank_def TAG_ZERO_def dbl.double_rounding_axioms)

definition sample_draw :: draw where
  "sample_draw = \<lparr>dr_random = 5, dr_created = \<lparr>tv_sec = 1, tv_nsec = 0\<rparr>, dr_now = \<lparr>tv_sec = 2, tv_nsec = 0\<rparr>\<rparr>"

text \<open>
  A probabilistic sampler made with any rate samples exactly when the rate is at least one or the
  random number, scaled to \<open>[0, 1]\<close>, is at most the positive part of the rate, whatever the rounding of
  the \<open>long double\<close> arithmetic.  So a rate of one and more samples every trace, a higher rate samples
  whatever a lower one does, and a rate of zero still samples the draw 0.  Every call returns, keeps
  the sampler and adds the two tags with the clamped rate if memory is available.
\<close>

theorem probabilistic_decision:
  assumes "double_rounding (se_rnd_long env)" and "tag_blank (se_tag_init env)" and "tags_ok tags m" and "mem_ok m"
  shows "\<exists>tags' m'. jaeger_probabilistic_sampler_is_sampled env dr (jaeger_probabilistic_sampler_init rate) tags m =
      Some (1 \<le> rate \<or> random_value env dr \<le> max 0 rate, jaeger_probabilistic_sampler_init rate, tags', m') \<and>
    tags_added env (JAEGERTRACINGC_SAMPLER_TYPE_PROBABILISTIC, float_param (min 1 (max 0 rate))) tags m tags' m' \<and>
    0 \<le> random_value env dr \<and> random_value env dr \<le> 1 \<and> (dr_random dr = 0 \<longrightarrow> random_value env dr = 0)"
proof -
  note b = random_value_bounds [OF assms(1), of dr]
  have z: "random_value env dr = 0" if "dr_random dr = 0"
    using that double_rounding.rnd_0 [OF assms(1)] by (simp add: random_value_def)
  have "random_value env dr \<le> sampling_rate (jaeger_probabilistic_sampler_init rate) \<longleftrightarrow> 1 \<le> rate \<or> random_value env dr \<le> max 0 rate"
    using b by (auto simp: jaeger_probabilistic_sampler_init_def clamp_unit)
  with prob_s.ask_law [OF assms(2-4), of dr "jaeger_probabilistic_sampler_init rate"] b z show ?thesis
    by (simp add: jaeger_probabilistic_sampler_init_def clamp_unit)
qed

theorem probabilistic_decision_witness:
  "\<exists>tags' m'. jaeger_probabilistic_sampler_is_sampled sample_env sample_draw (jaeger_probabilistic_sampler_init (1 / 2)) None mem_one =
      Some (1 \<le> (1 / 2 :: real) \<or> random_value sample_env sample_draw \<le> max 0 (1 / 2), jaeger_probabilistic_sampler_init (1 / 2), tags', m') \<and>
    tags_added sample_env (JAEGERTRACINGC_SAMPLER_TYPE_PROBABILISTIC, float_param (min 1 (max 0 (1 / 2)))) None mem_one tags' m' \<and>
    0 \<le> random_value sample_env sample_draw \<and> random_value sample_env sample_draw \<le> 1 \<and>
    (dr_random sample_draw = 0 \<longrightarrow> random_value sample_env sample_draw = 0)"
  by (rule probabilistic_decision) (simp_all add: tags_ok_def)

text \<open>The guaranteed throughput sampler's results are those of its two parts.\<close>

lemma results_gt:
  "results (gt_result env) drs s =
    (map2 (\<or>) (fst (results (\<lambda>dr s. (sampling_rate s \<ge> random_value env dr, s)) drs (gt_probabilistic_sampler s)))
       (fst (results (rl_result env) drs (gt_lower_bound_sampler s))),
     s\<lparr>gt_lower_bound_sampler := snd (results (rl_result env) drs (gt_lower_bound_sampler s))\<rparr>)"
proof (induction drs arbitrary: s)
  case (Cons dr drs)
  then show ?case by (simp add: gt_result_def split: prod.split)
qed simp

lemma results_prob: "snd (results (\<lambda>dr s. (d dr s, s)) drs s) = s"
  by (induction drs) (auto split: prod.split)

text \<open>
  C7: over any sequence of calls on a clock that does not go back, the guaranteed throughput sampler
  decides for exactly the traces that its probabilistic sampler alone or its lower bound sampler alone
  would sample on the same draws: the lower bound is charged on every call, also when the
  probabilistic sampler has decided already.  All three runs return and nothing is leaked.
\<close>

theorem guaranteed_throughput_decisions:
  assumes "chronological (dr # drs)" and "gt_ok env dr s" and "mem_ok m"
  shows "\<exists>ps ls l s' m1 m2 m'.
    ask_run (jaeger_probabilistic_sampler_is_sampled env) (dr # drs) (gt_probabilistic_sampler s) m = Some (ps, gt_probabilistic_sampler s, m1) \<and>
    ask_run (jaeger_rate_limiting_sampler_is_sampled env) (dr # drs) (gt_lower_bound_sampler s) m = Some (ls, l, m2) \<and>
    ask_run (jaeger_guaranteed_throughput_probabilistic_sampler_is_sampled env) (dr # drs) s m = Some (map2 (\<or>) ps ls, s', m') \<and>
    gt_probabilistic_sampler s' = gt_probabilistic_sampler s \<and> gt_lower_bound_sampler s' = l \<and>
    length ps = length (dr # drs) \<and> length ls = length (dr # drs) \<and> mem_trans {} {} m m'"
proof -
  have len: "length (fst (results r xs t)) = length xs" for r :: "draw \<Rightarrow> 'z \<Rightarrow> bool \<times> 'z" and xs t
    by (induction xs arbitrary: t) (auto split: prod.split, metis fst_conv)
  have ok: "rl_ok env dr (gt_lower_bound_sampler s)" "tag_blank (se_tag_init env)" using assms(2) by (auto simp: gt_ok_def rl_ok_def)
  let ?r = "\<lambda>dr s. (sampling_rate s \<ge> random_value env dr, s)"
  note p = prob_s.run_results [where s = "gt_probabilistic_sampler s", OF assms(1) ok(2) assms(3)]
    and l = rate_s.run_results [OF assms(1) ok(1) assms(3)] and g = guar_s.run_results [OF assms]
  show ?thesis
    using p l g len [of ?r "dr # drs" "gt_probabilistic_sampler s"] len [of "rl_result env" "dr # drs" "gt_lower_bound_sampler s"]
    unfolding results_gt results_prob fst_conv snd_conv by auto
qed

definition sample_gt :: jaeger_guaranteed_throughput_probabilistic_sampler where
  "sample_gt = jaeger_guaranteed_throughput_probabilistic_sampler_init 2 (1 / 2) (dr_created sample_draw)"

lemma sample_gt_ok: "gt_ok sample_env sample_draw sample_gt"
  by (auto simp: gt_ok_def rl_ok_def tok_ok_def sample_gt_def sample_draw_def tb_ok_def clock_ok_def clock_unfold
      jaeger_guaranteed_throughput_probabilistic_sampler_init_def jaeger_rate_limiting_sampler_init_def jaeger_token_bucket_init_def
      JAEGERTRACINGC_MAX_def sample_env_def tag_blank_def TAG_ZERO_def dbl.rnd_int [of 2, simplified] intro: dbl.double_rounding_axioms)

theorem guaranteed_throughput_decisions_witness:
  "\<exists>ps ls l s' m1 m2 m'.
    ask_run (jaeger_probabilistic_sampler_is_sampled sample_env) [sample_draw, sample_draw, sample_draw] (gt_probabilistic_sampler sample_gt) mem_one =
      Some (ps, gt_probabilistic_sampler sample_gt, m1) \<and>
    ask_run (jaeger_rate_limiting_sampler_is_sampled sample_env) [sample_draw, sample_draw, sample_draw] (gt_lower_bound_sampler sample_gt) mem_one =
      Some (ls, l, m2) \<and>
    ask_run (jaeger_guaranteed_throughput_probabilistic_sampler_is_sampled sample_env) [sample_draw, sample_draw, sample_draw] sample_gt mem_one =
      Some (map2 (\<or>) ps ls, s', m') \<and>
    gt_probabilistic_sampler s' = gt_probabilistic_sampler sample_gt \<and> gt_lower_bound_sampler s' = l \<and>
    length ps = length [sample_draw, sample_draw, sample_draw] \<and> length ls = length [sample_draw, sample_draw, sample_draw] \<and>
    mem_trans {} {} mem_one m'"
  by (rule guaranteed_throughput_decisions [OF _ sample_gt_ok])
    (simp_all add: later_def sample_draw_def clock_ok_def clock_unfold)

section \<open>The adaptive sampler\<close>

definition op_ptrs :: "jaeger_operation_sampler \<Rightarrow> ptr list" where
  "op_ptrs x = cs_ptrs (op_name x)"

definition ops_ptrs :: "jaeger_operation_sampler jaeger_vector \<Rightarrow> ptr list" where
  "ops_ptrs v = vec_ptrs v @ concat (map op_ptrs (vec_list v))"

definition ops_ok :: "sampler_env \<Rightarrow> draw \<Rightarrow> jaeger_operation_sampler jaeger_vector \<Rightarrow> bool" where
  "ops_ok env dr v \<longleftrightarrow> vec_ok v \<and> names_set v \<and> (\<forall>x\<in>set (vec_list v). gt_ok env dr (op_sampler x))"

text \<open>
  The adaptive sampler can be asked: it is not locked, its samplers have names and can be asked, and
  its lower bound is a number that a new token bucket can use.
\<close>

definition ad_ok :: "sampler_env \<Rightarrow> draw \<Rightarrow> jaeger_adaptive_sampler \<Rightarrow> bool" where
  "ad_ok env dr s \<longleftrightarrow> \<not> ad_locked s \<and> ops_ok env dr (op_samplers s) \<and> 0 \<le> lower_bound s \<and> se_rnd env (lower_bound s) = lower_bound s"

definition draw_ok :: "sampler_env \<Rightarrow> draw \<Rightarrow> bool" where
  "draw_ok env dr \<longleftrightarrow> tag_blank (se_tag_init env) \<and> double_rounding (se_rnd env) \<and>
     clock_ok (dr_created dr) \<and> clock_ok (dr_now dr) \<and> time_ns (dr_created dr) \<le> time_ns (dr_now dr)"

lemma fresh_gt_ok:
  assumes "draw_ok env dr" and "0 \<le> bound" and "se_rnd env bound = bound"
  shows "gt_ok env dr (jaeger_guaranteed_throughput_probabilistic_sampler_init bound rate (dr_created dr))"
proof -
  have "se_rnd env 1 = 1" using assms(1) double_rounding.rnd_1 by (auto simp: draw_ok_def)
  then have "se_rnd env (JAEGERTRACINGC_MAX bound 1) = JAEGERTRACINGC_MAX bound 1" using assms(3) by (simp add: JAEGERTRACINGC_MAX_def)
  with assms(1,2) show ?thesis
    by (simp add: gt_ok_def rl_ok_def tok_ok_def draw_ok_def tb_ok_def clock_ok_def jaeger_token_bucket_init_def
        jaeger_guaranteed_throughput_probabilistic_sampler_init_def jaeger_rate_limiting_sampler_init_def JAEGERTRACINGC_MAX_def)
qed

lemma gt_ok_later: "gt_ok env dr g \<Longrightarrow> later dr dr' \<Longrightarrow> gt_ok env dr' g"
  by (auto simp: gt_ok_def rl_ok_def tok_ok_def later_def)

lemma op_name_cmp_0: "op_name_cmp x y = 0 \<longleftrightarrow> op_string x = op_string y"
  by (auto simp: op_name_cmp_def)

lemma find_sampler_spec:
  assumes "mem_ok m" and "vec_ok (op_samplers s)" and "names_set (op_samplers s)"
  shows "\<exists>slot m'. jaeger_adaptive_sampler_find_sampler s (Some name) m = Some (slot, m') \<and> mem_trans {} {} m m' \<and>
    (\<forall>i. slot = Some i \<longrightarrow> i < length (vec_list (op_samplers s)) \<and> op_name (vec_list (op_samplers s) ! i) \<noteq> None \<and>
      op_string (vec_list (op_samplers s) ! i) = name)"
proof -
  from jaeger_strdup_total [of name m] obtain c m1 where c: "jaeger_strdup (Some name) m = Some (c, m1)" by blast
  show ?thesis
  proof (cases c)
    case None
    with c jaeger_strdup_NoneD [of name m m1] assms(1) show ?thesis by (simp add: jaeger_adaptive_sampler_find_sampler_def)
  next
    case (Some q)
    note sd = jaeger_strdup_SomeD [OF c [unfolded Some] assms(1)]
    have "fst q \<in> dom (mem_blocks m1)" using mem_trans_dom [OF sd(2)] by simp
    from jaeger_free_live [OF mem_trans_ok [OF sd(2)] this] obtain m2 where
      f: "jaeger_free (Some (fst q)) m1 = Some m2" "mem_trans {fst q} {} m1 m2" by blast
    from assms(2) obtain p sl where d: "vec_data (op_samplers s) = Some (p, sl)" "length sl = nat (vec_capacity (op_samplers s))"
      "0 \<le> vec_len (op_samplers s)" "vec_len (op_samplers s) \<le> vec_capacity (op_samplers s)" by (rule vec_okE)
    let ?r = "bsearch_loop (op_name_cmp (op_key name)) sl 0 (nat (vec_len (op_samplers s)))"
    have r: "jaeger_vector_bsearch (op_samplers s) (op_key name) op_name_cmp = Some ?r"
      using d by (simp add: jaeger_vector_bsearch_def jaeger_vector_length_def)
    have hit: "i < length (vec_list (op_samplers s)) \<and> op_string (vec_list (op_samplers s) ! i) = name" if "?r = Some i" for i
      using bsearch_loop_Some [OF that] d by (auto simp: vec_list_def op_name_cmp_0 op_string_def op_key_def)
    have "jaeger_adaptive_sampler_find_sampler s (Some name) m = Some (?r, m2)"
      using c Some sd(1) f(1) r assms(3) by (simp add: jaeger_adaptive_sampler_find_sampler_def)
    moreover have "mem_trans {} {} m m2" by (rule mem_trans_trans [OF sd(2) f(2) assms(1)])
    moreover have "op_name (vec_list (op_samplers s) ! i) \<noteq> None" if "?r = Some i" for i
      using assms(3) hit [OF that] by (simp add: names_set_def)
    ultimately show ?thesis using hit by blast
  qed
qed

lemma concat_insert:
  "mset (concat (map f (take n xs @ x # drop n xs))) = mset (f x @ concat (map f xs))"
proof -
  have "concat (map f xs) = concat (map f (take n xs)) @ concat (map f (drop n xs))"
    by (simp flip: concat_append map_append)
  then show ?thesis by simp
qed

text \<open>What a call did: the default sampler decided, or the sampler at slot \<open>n\<close>, which was there or is new.\<close>

definition adaptive_outcome ::
  "sampler_env \<Rightarrow> draw \<Rightarrow> string \<Rightarrow> jaeger_adaptive_sampler \<Rightarrow> bool \<Rightarrow> jaeger_adaptive_sampler \<Rightarrow> bool" where
  "adaptive_outcome env dr name s d s' \<longleftrightarrow>
     (let xs = vec_list (op_samplers s); xs' = vec_list (op_samplers s')
      in d = (random_value env dr \<le> sampling_rate (default_sampler s)) \<and> xs' = xs \<or>
         (\<exists>n x. op_string x = name \<and> d = fst (gt_result env dr (op_sampler x)) \<and>
            (n < length xs \<and> x = xs ! n \<and> xs' = xs[n := x\<lparr>op_sampler := snd (gt_result env dr (op_sampler x))\<rparr>] \<or>
             int (length xs) < max_operations s \<and> n \<le> length xs \<and>
             op_sampler x = jaeger_guaranteed_throughput_probabilistic_sampler_init (lower_bound s)
               (sampling_rate (default_sampler s)) (dr_created dr) \<and>
             xs' = take n xs @ x\<lparr>op_sampler := snd (gt_result env dr (op_sampler x))\<rparr> # drop n xs)))"

lemma tags_ok_frame:
  assumes "tags_ok tags m" and "mem_trans A B m m'" and "set (tags_own tags) \<inter> A = {}"
  shows "tags_ok tags m'"
  using assms owns_frame(1) [OF assms(2)] by (auto simp: tags_ok_def tags_own_def split: option.splits)

lemma tags_added_trans: "tags_added env sh tags m tags' m' \<Longrightarrow> mem_trans (set (tags_own tags)) (set (tags_own tags')) m m' \<and> distinct (tags_own tags')"
  by (auto simp: tags_added_def)

lemma ops_ok_update:
  assumes "ops_ok env dr v" and "n < length (vec_list v)" and "vec_ok w" and "later dr dr'"
    and "vec_list w = (vec_list v)[n := (vec_list v ! n)\<lparr>op_sampler := snd (gt_result env dr (op_sampler (vec_list v ! n)))\<rparr>]"
  shows "ops_ok env dr' w" and "map op_ptrs (vec_list w) = map op_ptrs (vec_list v)"
proof -
  have x: "gt_ok env dr (op_sampler (vec_list v ! n))" "op_name (vec_list v ! n) \<noteq> None"
    using assms(1,2) by (auto simp: ops_ok_def names_set_def)
  have g: "gt_ok env dr' (op_sampler x)" if "x \<in> set (vec_list v)" for x
    using that assms(1) gt_ok_later [OF _ assms(4)] by (auto simp: ops_ok_def)
  have n: "op_name y \<noteq> None" if "y \<in> set (vec_list v)" for y using that assms(1) by (auto simp: ops_ok_def names_set_def)
  let ?y = "(vec_list v ! n)\<lparr>op_sampler := snd (gt_result env dr (op_sampler (vec_list v ! n)))\<rparr>"
  have "y = ?y \<or> y \<in> set (vec_list v)" if "y \<in> set (vec_list w)" for y
    using that set_update_subset_insert [of "vec_list v" n ?y] by (auto simp: assms(5))
  then show "ops_ok env dr' w" using assms(3) x(2) guar_s.ok_later [OF x(1) assms(4)] g n
    unfolding ops_ok_def names_set_def by fastforce
  show "map op_ptrs (vec_list w) = map op_ptrs (vec_list v)"
    using assms(2,5) by (simp add: map_update op_ptrs_def list_update_same_conv)
qed


text \<open>
  The state after a call: not locked, usable at every later draw, same configuration; it owns with the
  tag vector what the two owned before and the new blocks, and what is leaked besides is nothing as
  long as memory is available.
\<close>

definition ad_after ::
  "sampler_env \<Rightarrow> draw \<Rightarrow> jaeger_adaptive_sampler \<Rightarrow> tags \<Rightarrow> mem \<Rightarrow> jaeger_adaptive_sampler \<Rightarrow> tags \<Rightarrow> mem \<Rightarrow> bool" where
  "ad_after env dr s tags m s' tags' m' \<longleftrightarrow>
     \<not> ad_locked s' \<and> (\<forall>dr'. later dr dr' \<longrightarrow> ops_ok env dr' (op_samplers s')) \<and>
     default_sampler s' = default_sampler s \<and> lower_bound s' = lower_bound s \<and> max_operations s' = max_operations s \<and>
     distinct (ops_ptrs (op_samplers s') @ tags_own tags') \<and>
     (\<exists>leaked. (mem_plenty m \<longrightarrow> leaked = {}) \<and>
       mem_trans (set (ops_ptrs (op_samplers s) @ tags_own tags)) (set (ops_ptrs (op_samplers s') @ tags_own tags') \<union> leaked) m m')"

lemma ops_ok_later: "ops_ok env dr v \<Longrightarrow> later dr dr' \<Longrightarrow> ops_ok env dr' v"
  by (auto simp: ops_ok_def gt_ok_later)

lemma owned_pair:
  assumes "owns m (ps @ qs)" and "mem_trans (set qs) (set qs') m m'" and "distinct qs'"
  shows "mem_trans (set (ps @ qs)) (set (ps @ qs')) m m'" and "distinct (ps @ qs')"
proof -
  have o: "set ps \<subseteq> dom (mem_blocks m)" "set ps \<inter> set qs = {}" "distinct ps" using assms(1) by (auto simp: owns_def)
  show "mem_trans (set (ps @ qs)) (set (ps @ qs')) m m'"
    using mem_trans_frame [OF assms(2) o(1,2)] by (simp add: Un_commute)
  show "distinct (ps @ qs')" using mem_trans_disj [OF assms(2)] o assms(3) by auto
qed

lemma default_spec:
  assumes "draw_ok env dr" and "ops_ok env dr (op_samplers s)" and "tags_ok tags m" and "mem_ok m"
    and "owns m (ops_ptrs (op_samplers s) @ tags_own tags)"
  shows "\<exists>tags' m'. use_default_sampler env dr (s\<lparr>ad_locked := True\<rparr>) tags m =
      Some (random_value env dr \<le> sampling_rate (default_sampler s), s\<lparr>ad_locked := False\<rparr>, tags', m') \<and>
    ad_after env dr s tags m (s\<lparr>ad_locked := False\<rparr>) tags' m'"
proof -
  have b: "tag_blank (se_tag_init env)" using assms(1) by (simp add: draw_ok_def)
  from prob_s.ask_law [OF b assms(3,4), of dr "default_sampler s"] obtain tags' m' where
    r: "jaeger_probabilistic_sampler_is_sampled env dr (default_sampler s) tags m =
      Some (random_value env dr \<le> sampling_rate (default_sampler s), default_sampler s, tags', m')"
    "tags_added env (JAEGERTRACINGC_SAMPLER_TYPE_PROBABILISTIC, float_param (sampling_rate (default_sampler s))) tags m tags' m'"
    by auto
  note t = tags_added_trans [OF r(2)]
  from owned_pair [OF assms(5), of "tags_own tags'" m'] t have
    "mem_trans (set (ops_ptrs (op_samplers s) @ tags_own tags)) (set (ops_ptrs (op_samplers s) @ tags_own tags') \<union> {}) m m'"
    "distinct (ops_ptrs (op_samplers s) @ tags_own tags')" by auto
  with r(1) ops_ok_later [OF assms(2)] show ?thesis
    unfolding ad_after_def by (auto simp: use_default_sampler_def ad_unlock_def)
qed

lemma existing_spec:
  assumes "ops_ok env dr (op_samplers s)" and "n < length (vec_list (op_samplers s))" and "tags_ok tags m" and "mem_ok m"
    and "owns m (ops_ptrs (op_samplers s) @ tags_own tags)" and "x = vec_list (op_samplers s) ! n"
  shows "\<exists>s' tags' m'. ask_op_sampler env dr (s\<lparr>ad_locked := True\<rparr>) (Some n) x tags m =
      Some (fst (gt_result env dr (op_sampler x)), s', tags', m') \<and>
    vec_list (op_samplers s') = (vec_list (op_samplers s))[n := x\<lparr>op_sampler := snd (gt_result env dr (op_sampler x))\<rparr>] \<and>
    ad_after env dr s tags m s' tags' m'"
proof -
  have ok: "gt_ok env dr (op_sampler x)" "vec_ok (op_samplers s)" using assms(1,2,6) by (auto simp: ops_ok_def)
  from guar_s.ask_law [OF ok(1) assms(3,4)] obtain tags' m' where
    r: "jaeger_guaranteed_throughput_probabilistic_sampler_is_sampled env dr (op_sampler x) tags m =
      Some (fst (gt_result env dr (op_sampler x)), snd (gt_result env dr (op_sampler x)), tags', m')"
    "tags_added env (gt_shown env dr (op_sampler x)) tags m tags' m'" by auto
  note t = tags_added_trans [OF r(2)]
  from vec_write_at [OF ok(2) assms(2), of "x\<lparr>op_sampler := snd (gt_result env dr (op_sampler x))\<rparr>"] obtain w where
    w: "vec_write (op_samplers s) (Some n) (x\<lparr>op_sampler := snd (gt_result env dr (op_sampler x))\<rparr>) = Some w" "vec_ok w"
    "vec_ptrs w = vec_ptrs (op_samplers s)"
    "vec_list w = (vec_list (op_samplers s))[n := x\<lparr>op_sampler := snd (gt_result env dr (op_sampler x))\<rparr>]" by blast
  note u = ops_ok_update [OF assms(1,2) w(2) _ w(4) [unfolded assms(6)]]
  have later: "\<forall>dr'. later dr dr' \<longrightarrow> ops_ok env dr' w" using u(1) by blast
  have "map op_ptrs (vec_list w) = map op_ptrs (vec_list (op_samplers s))"
    using assms(2,6) w(4) by (simp add: map_update op_ptrs_def list_update_same_conv)
  then have p: "ops_ptrs w = ops_ptrs (op_samplers s)" using w(3) by (simp add: ops_ptrs_def)
  from owned_pair [OF assms(5), of "tags_own tags'" m'] t have
    "mem_trans (set (ops_ptrs (op_samplers s) @ tags_own tags)) (set (ops_ptrs w @ tags_own tags') \<union> {}) m m'"
    "distinct (ops_ptrs w @ tags_own tags')" by (auto simp: p)
  with later have "ad_after env dr s tags m (s\<lparr>op_samplers := w, ad_locked := False\<rparr>) tags' m'"
    unfolding ad_after_def by auto
  with r(1) w(1,4) show ?thesis
    by (intro exI [of _ "s\<lparr>op_samplers := w, ad_locked := False\<rparr>"] exI [of _ tags'] exI [of _ m'])
      (simp add: ask_op_sampler_def ad_unlock_def)
qed

lemma ad_after_leak:
  assumes "ad_after env dr s tags m1 s' tags' m'" and "P = set (ops_ptrs (op_samplers s) @ tags_own tags)"
    and "mem_trans P (P \<union> L) m m1" and "L \<inter> P = {}" and "mem_plenty m \<longrightarrow> L = {}" and "mem_ok m"
  shows "ad_after env dr s tags m s' tags' m'"
proof -
  let ?Q = "set (ops_ptrs (op_samplers s') @ tags_own tags')"
  from assms(1,2) obtain K where k: "mem_plenty m1 \<longrightarrow> K = {}" "mem_trans P (?Q \<union> K) m1 m'" by (auto simp: ad_after_def)
  have "L \<subseteq> dom (mem_blocks m1)" using mem_trans_dom [OF assms(3)] by auto
  from mem_trans_frame [OF k(2) this assms(4)] have "mem_trans (P \<union> L) (?Q \<union> (K \<union> L)) m1 m'" by (simp add: ac_simps)
  with assms(3,6) have "mem_trans P (?Q \<union> (K \<union> L)) m m'" using mem_trans_trans by blast
  moreover have "mem_plenty m \<longrightarrow> K \<union> L = {}" using k(1) assms(5) mem_plenty_trans [OF assms(3)] by simp
  ultimately show ?thesis using assms(1,2) unfolding ad_after_def by blast
qed

text \<open>The blocks after the name and the grown vector have been allocated.\<close>

lemma new_blocks:
  assumes "mem_trans {} {p} m m1" and "mem_trans (set (vec_ptrs v)) (set (vec_ptrs v')) m1 m2" and "mem_ok m"
    and "owns m (ops_ptrs v @ ts)"
  shows "owns m2 ((vec_ptrs v' @ p # concat (map op_ptrs (vec_list v))) @ ts)"
    and "mem_trans (set (ops_ptrs v @ ts)) (set ((vec_ptrs v' @ p # concat (map op_ptrs (vec_list v))) @ ts)) m m2"
proof -
  define N where "N = concat (map op_ptrs (vec_list v))"
  have o: "set (vec_ptrs v) \<subseteq> dom (mem_blocks m)" "set (N @ ts) \<subseteq> dom (mem_blocks m)" "distinct (N @ ts)"
    "set (N @ ts) \<inter> set (vec_ptrs v) = {}" using assms(4) by (auto simp: ops_ptrs_def N_def [symmetric] owns_def)
  have d1: "dom (mem_blocks m1) = dom (mem_blocks m) \<union> {p}" "p \<notin> dom (mem_blocks m)"
    using mem_trans_dom [OF assms(1)] mem_trans_disj [OF assms(1)] by auto
  have d2: "set (vec_ptrs v') \<inter> (dom (mem_blocks m1) - set (vec_ptrs v)) = {}" by (rule mem_trans_disj [OF assms(2)])
  have dv: "distinct (vec_ptrs v')" by (auto simp: vec_ptrs_def split: option.split)
  have "mem_trans (set (ops_ptrs v @ ts)) (insert p (set (ops_ptrs v @ ts))) m m1"
    using mem_trans_frame [OF assms(1), of "set (ops_ptrs v @ ts)"] o by (simp add: ops_ptrs_def N_def [symmetric])
  moreover have "mem_trans (insert p (set (ops_ptrs v @ ts))) (set ((vec_ptrs v' @ p # N) @ ts)) m1 m2"
  proof -
    have "set (p # N @ ts) \<subseteq> dom (mem_blocks m1)" "set (p # N @ ts) \<inter> set (vec_ptrs v) = {}" using o d1 by auto
    from mem_trans_frame [OF assms(2) this] show ?thesis by (simp add: ops_ptrs_def N_def [symmetric] ac_simps)
  qed
  ultimately have t: "mem_trans (set (ops_ptrs v @ ts)) (set ((vec_ptrs v' @ p # N) @ ts)) m m2" using mem_trans_trans assms(3) by blast
  then show "mem_trans (set (ops_ptrs v @ ts)) (set ((vec_ptrs v' @ p # concat (map op_ptrs (vec_list v))) @ ts)) m m2"
    by (simp only: N_def)
  have "x \<notin> set (N @ ts) \<and> x \<noteq> p" if "x \<in> set (vec_ptrs v')" for x using that d2 o d1 by blast
  then have "distinct ((vec_ptrs v' @ p # N) @ ts)" using dv o d1 by auto
  with t show "owns m2 ((vec_ptrs v' @ p # concat (map op_ptrs (vec_list v))) @ ts)" unfolding N_def by (rule owns_trans)
qed


text \<open>The operations after an insertion: their invariant at later times and the blocks they own.\<close>

lemma inserted_ops_ok:
  assumes "ops_ok env dr v" and "later dr dr'" and "vec_ok w" and "vec_list w = take n (vec_list v) @ y # drop n (vec_list v)"
    and "gt_ok env dr' (op_sampler y)" and "op_name y \<noteq> None"
  shows "ops_ok env dr' w"
proof -
  have el: "z = y \<or> z \<in> set (vec_list v)" if "z \<in> set (vec_list w)" for z
    using that assms(4) by (auto dest: in_set_takeD in_set_dropD)
  with assms(3,5,6) ops_ok_later [OF assms(1,2)] show ?thesis unfolding ops_ok_def names_set_def by fastforce
qed

lemma inserted_ops_ptrs:
  assumes "vec_list w = take n (vec_list v) @ y # drop n (vec_list v)" and "op_ptrs y = [p]"
  shows "set (ops_ptrs w) = set (vec_ptrs w @ p # concat (map op_ptrs (vec_list v)))"
    and "distinct (ops_ptrs w) \<longleftrightarrow> distinct (vec_ptrs w @ p # concat (map op_ptrs (vec_list v)))"
proof -
  have perm: "mset (ops_ptrs w) = mset (vec_ptrs w @ p # concat (map op_ptrs (vec_list v)))"
    unfolding ops_ptrs_def assms(1) mset_append concat_insert by (simp add: assms(2))
  show "set (ops_ptrs w) = set (vec_ptrs w @ p # concat (map op_ptrs (vec_list v)))"
    "distinct (ops_ptrs w) \<longleftrightarrow> distinct (vec_ptrs w @ p # concat (map op_ptrs (vec_list v)))"
    by (rule mset_eq_setD [OF perm], rule mset_eq_imp_distinct_iff [OF perm])
qed

text \<open>When the name cannot be copied, the default sampler decides.\<close>

lemma add_op_no_copy:
  assumes "draw_ok env dr" and "ops_ok env dr (op_samplers s)" and "tags_ok tags m" and "mem_ok m"
    and "owns m (ops_ptrs (op_samplers s) @ tags_own tags)" and "jaeger_strdup (Some name) m = Some (None, m1)"
  shows "\<exists>d s' tags' m'. add_op_sampler env dr (s\<lparr>ad_locked := True\<rparr>) (Some name) tags m = Some (d, s', tags', m') \<and>
    adaptive_outcome env dr name s d s' \<and> ad_after env dr s tags m s' tags' m'"
proof -
  let ?v = "op_samplers s"
  note t = jaeger_strdup_NoneD [OF assms(6,4)]
  from default_spec [OF assms(1,2) tags_ok_frame [OF assms(3) t] mem_trans_ok [OF t] owns_frame(1) [OF t assms(5)]] obtain tags' m' where
    u: "use_default_sampler env dr (s\<lparr>ad_locked := True\<rparr>) tags m1 =
      Some (random_value env dr \<le> sampling_rate (default_sampler s), s\<lparr>ad_locked := False\<rparr>, tags', m')"
    "ad_after env dr s tags m1 (s\<lparr>ad_locked := False\<rparr>) tags' m'" by auto
  have "set (ops_ptrs ?v @ tags_own tags) \<subseteq> dom (mem_blocks m)" using assms(5) by (simp add: owns_def)
  then have "mem_trans (set (ops_ptrs ?v @ tags_own tags)) (set (ops_ptrs ?v @ tags_own tags) \<union> {}) m m1"
    using mem_trans_frame [OF t] by simp
  with u(2) have "ad_after env dr s tags m (s\<lparr>ad_locked := False\<rparr>) tags' m'"
    using ad_after_leak [OF _ refl, where L = "{}"] assms(4) by blast
  with assms(6) u show ?thesis by (auto simp: add_op_sampler_def adaptive_outcome_def)
qed

lemma add_op_spec:
  assumes "draw_ok env dr" and "ad_ok env dr s" and "tags_ok tags m" and "mem_ok m"
    and "owns m (ops_ptrs (op_samplers s) @ tags_own tags)" and "vec_room (op_samplers s) (vec_capacity (op_samplers s) + 1)"
    and "vec_len (op_samplers s) < max_operations s"
  shows "\<exists>d s' tags' m'. add_op_sampler env dr (s\<lparr>ad_locked := True\<rparr>) (Some name) tags m = Some (d, s', tags', m') \<and>
    adaptive_outcome env dr name s d s' \<and> ad_after env dr s tags m s' tags' m'"
proof -
  let ?v = "op_samplers s"
  have ok: "ops_ok env dr ?v" "vec_ok ?v" "names_set ?v" using assms(2) by (auto simp: ad_ok_def ops_ok_def)
  have sub: "set (ops_ptrs ?v @ tags_own tags) \<subseteq> dom (mem_blocks m)" "set (vec_ptrs ?v) \<subseteq> dom (mem_blocks m)"
    "set (tags_own tags) \<inter> set (vec_ptrs ?v) = {}" using assms(5) by (auto simp: owns_def ops_ptrs_def)
  have default: "adaptive_outcome env dr name s (random_value env dr \<le> sampling_rate (default_sampler s)) (s\<lparr>ad_locked := False\<rparr>)"
    by (simp add: adaptive_outcome_def)
  from jaeger_strdup_total [of name m] obtain c m1 where c: "jaeger_strdup (Some name) m = Some (c, m1)" by blast
  show ?thesis
  proof (cases c)
    case None
    from add_op_no_copy [OF assms(1) ok(1) assms(3-5) c [unfolded None]] show ?thesis .
  next
    case (Some q)
    note t = jaeger_strdup_SomeD [OF c [unfolded Some] assms(4)]
    from lower_bound_spec [OF ok(2), of "op_key name" op_name_cmp] obtain n where
      n: "jaeger_vector_lower_bound ?v (op_key name) op_name_cmp = Some (int n)" "int n \<le> vec_len ?v"
      by (metis nonneg_int_cases)
    have m1: "mem_ok m1" "set (vec_ptrs ?v) \<subseteq> dom (mem_blocks m1)" using mem_trans_ok [OF t(2)] mem_trans_dom [OF t(2)] sub(2) by auto
    from vec_insert_total [OF ok(2) m1 assms(6) n(2), of OPERATION_SAMPLER_ZERO] obtain r v' m2 where
      i: "jaeger_vector_insert OPERATION_SAMPLER_ZERO ?v (int n) m1 = Some (r, v', m2)" "mem_plenty m1 \<longrightarrow> r \<noteq> None" by blast
    note ins = vec_insert_spec [OF i(1) ok(2) m1(1) n(2)]
    note tv = ins(4) [OF m1(2)]
    note nb = new_blocks [OF t(2) tv assms(4,5)]
    have tg: "tags_ok tags m2"
      using tags_ok_frame [OF tags_ok_frame [OF assms(3) t(2)] tv] sub(3) by auto
    show ?thesis
    proof (cases r)
      case None
      then have v': "v' = ?v" by (rule ins(1))
      have L: "mem_trans (set (ops_ptrs ?v @ tags_own tags)) (set (ops_ptrs ?v @ tags_own tags) \<union> {fst q}) m m2"
        "{fst q} \<inter> set (ops_ptrs ?v @ tags_own tags) = {}"
        using nb(2) t(3) sub(1) by (auto simp: v' ops_ptrs_def insert_commute)
      have ow: "owns m2 (ops_ptrs ?v @ tags_own tags)" using nb(1) by (auto simp: v' owns_def ops_ptrs_def)
      from default_spec [OF assms(1) ok(1) tg mem_trans_ok [OF tv] ow] obtain tags' m' where
        d: "use_default_sampler env dr (s\<lparr>ad_locked := True\<rparr>) tags m2 =
          Some (random_value env dr \<le> sampling_rate (default_sampler s), s\<lparr>ad_locked := False\<rparr>, tags', m')"
        "ad_after env dr s tags m2 (s\<lparr>ad_locked := False\<rparr>) tags' m'" by auto
      have pl: "\<not> mem_plenty m" using i(2) None mem_plenty_trans [OF t(2)] by simp
      from c Some t(1) ok(3) n(1) i(1) None v' d default ad_after_leak [OF d(2) refl L _ assms(4)] pl show ?thesis
        by (auto simp: add_op_sampler_def)
    next
      case (Some k)
      let ?x = "\<lparr>op_name = Some q, op_sampler = jaeger_guaranteed_throughput_probabilistic_sampler_init (lower_bound s)
                 (sampling_rate (default_sampler s)) (dr_created dr)\<rparr>"
      let ?y = "?x\<lparr>op_sampler := snd (gt_result env dr (op_sampler ?x))\<rparr>"
      have g: "gt_ok env dr (op_sampler ?x)" using fresh_gt_ok [OF assms(1)] assms(2) by (simp add: ad_ok_def)
      from guar_s.ask_law [OF g tg mem_trans_ok [OF tv]] obtain tags' m' where
        a: "jaeger_guaranteed_throughput_probabilistic_sampler_is_sampled env dr (op_sampler ?x) tags m2 =
          Some (fst (gt_result env dr (op_sampler ?x)), snd (gt_result env dr (op_sampler ?x)), tags', m')"
        "tags_added env (gt_shown env dr (op_sampler ?x)) tags m2 tags' m'" by auto
      from ins(3) [of ?y] Some obtain w where
        w: "vec_write v' r ?y = Some w" "vec_ok w" "vec_ptrs w = vec_ptrs v'" "vec_list w = take n (vec_list ?v) @ ?y # drop n (vec_list ?v)" by auto
      define s' where "s' = s\<lparr>op_samplers := w, ad_locked := False\<rparr>"
      have run: "add_op_sampler env dr (s\<lparr>ad_locked := True\<rparr>) (Some name) tags m = Some (fst (gt_result env dr (op_sampler ?x)), s', tags', m')"
        using c \<open>c = Some q\<close> t(1) ok(3) n(1) i(1) Some a(1) w(1)
        by (simp add: add_op_sampler_def ask_op_sampler_def ad_unlock_def s'_def)
      have len: "int (length (vec_list ?v)) = vec_len ?v" by (rule length_vec_list [OF ok(2)])
      have out: "adaptive_outcome env dr name s (fst (gt_result env dr (op_sampler ?x))) s'"
        unfolding adaptive_outcome_def Let_def using assms(7) n(2) len t(1) w(4)
        by (intro disjI2 exI [of _ n] exI [of _ ?x]) (simp add: op_string_def s'_def)
      have later: "\<forall>dr'. later dr dr' \<longrightarrow> ops_ok env dr' w"
        using inserted_ops_ok [OF ok(1) _ w(2,4)] guar_s.ok_later [OF g] by simp
      note same = inserted_ops_ptrs [OF w(4), of "fst q", unfolded w(3)]
      have yp: "op_ptrs ?y = [fst q]" by (simp add: op_ptrs_def)
      from tags_added_trans [OF a(2)] have tt: "mem_trans (set (tags_own tags)) (set (tags_own tags')) m2 m'" "distinct (tags_own tags')" by auto
      note op = owned_pair [OF nb(1) tt]
      have "distinct (ops_ptrs w @ tags_own tags')" using op(2) unfolding distinct_append same [OF yp] by blast
      moreover have "mem_trans (set (ops_ptrs ?v @ tags_own tags)) (set (ops_ptrs w @ tags_own tags') \<union> {}) m m'"
        using mem_trans_trans [OF nb(2) op(1) assms(4)] unfolding set_append same [OF yp] by simp
      ultimately have "ad_after env dr s tags m s' tags' m'" using later unfolding ad_after_def s'_def by auto
      with run out show ?thesis by blast
    qed
  qed
qed

text \<open>
  C19: asking the adaptive sampler returns, whatever allocations fail, and leaves it unlocked, with its
  configuration unchanged and ready for every later call.  The default sampler has decided and the
  samplers are as before; or the sampler of the operation has decided and only its token bucket has
  changed; or, below \<open>max_operations\<close>, a new sampler for the operation has been made and has decided.
  So there are never more than \<open>max_operations\<close> samplers, unless there were more at the start.  All
  blocks stay owned once, and nothing is leaked as long as memory is available (a copy of the name
  is leaked when growing the vector fails).
\<close>

theorem adaptive_sampler_decides:
  assumes "draw_ok env dr" and "ad_ok env dr s" and "tags_ok tags m" and "mem_ok m"
    and "owns m (ops_ptrs (op_samplers s) @ tags_own tags)" and "vec_room (op_samplers s) (vec_capacity (op_samplers s) + 1)"
  shows "\<exists>d s' tags' m'. jaeger_adaptive_sampler_is_sampled env dr s (Some name) tags m = Some (d, s', tags', m') \<and>
    adaptive_outcome env dr name s d s' \<and> ad_after env dr s tags m s' tags' m' \<and>
    vec_len (op_samplers s') \<le> max (vec_len (op_samplers s)) (max_operations s)"
proof -
  let ?v = "op_samplers s" and ?l = "s\<lparr>ad_locked := True\<rparr>"
  have ok: "ops_ok env dr ?v" "vec_ok ?v" "names_set ?v" "\<not> ad_locked s" using assms(2) by (auto simp: ad_ok_def ops_ok_def)
  from find_sampler_spec [OF assms(4), of ?l name] ok obtain slot m1 where
    f: "jaeger_adaptive_sampler_find_sampler ?l (Some name) m = Some (slot, m1)" "mem_trans {} {} m m1"
    "\<forall>i. slot = Some i \<longrightarrow> i < length (vec_list ?v) \<and> op_name (vec_list ?v ! i) \<noteq> None \<and> op_string (vec_list ?v ! i) = name" by auto
  note m1 = mem_trans_ok [OF f(2)] and tg = tags_ok_frame [OF assms(3) f(2)] and ow = owns_frame(1) [OF f(2) assms(5)]
  have "\<exists>d s' tags' m'. jaeger_adaptive_sampler_is_sampled env dr s (Some name) tags m = Some (d, s', tags', m') \<and>
    adaptive_outcome env dr name s d s' \<and> ad_after env dr s tags m1 s' tags' m'"
  proof (cases slot)
    case (Some i)
    with f(3) have i: "i < length (vec_list ?v)" "op_name (vec_list ?v ! i) \<noteq> None" "op_string (vec_list ?v ! i) = name" by auto
    have eq: "map_option snd (op_name (vec_list ?v ! i)) = Some name" using i(2,3) by (auto simp: op_string_def)
    from existing_spec [OF ok(1) i(1) _ m1 _ refl, of tags] tg ow obtain s' tags' m' where
      e: "ask_op_sampler env dr ?l (Some i) (vec_list ?v ! i) tags m1 =
        Some (fst (gt_result env dr (op_sampler (vec_list ?v ! i))), s', tags', m')"
      "vec_list (op_samplers s') =
        (vec_list ?v)[i := (vec_list ?v ! i)\<lparr>op_sampler := snd (gt_result env dr (op_sampler (vec_list ?v ! i)))\<rparr>]"
      "ad_after env dr s tags m1 s' tags' m'" by auto
    have "jaeger_adaptive_sampler_is_sampled env dr s (Some name) tags m =
        Some (fst (gt_result env dr (op_sampler (vec_list ?v ! i))), s', tags', m')"
      using ok(4) f(1) Some e(1) eq vec_read_at [OF ok(2) i(1)] by (simp add: jaeger_adaptive_sampler_is_sampled_def ad_lock_def)
    moreover have "adaptive_outcome env dr name s (fst (gt_result env dr (op_sampler (vec_list ?v ! i)))) s'"
      unfolding adaptive_outcome_def Let_def using i e(2) by blast
    ultimately show ?thesis using e(3) by blast
  next
    case None
    have run: "jaeger_adaptive_sampler_is_sampled env dr s (Some name) tags m =
        (if max_operations s \<le> vec_len ?v then use_default_sampler env dr ?l tags m1 else add_op_sampler env dr ?l (Some name) tags m1)"
      using ok(4) f(1) None by (simp add: jaeger_adaptive_sampler_is_sampled_def ad_lock_def jaeger_vector_length_def)
    show ?thesis
    proof (cases "max_operations s \<le> vec_len ?v")
      case True
      from default_spec [OF assms(1) ok(1) _ m1, of tags] tg ow run True show ?thesis by (auto simp: adaptive_outcome_def)
    next
      case False
      with add_op_spec [OF assms(1,2) _ m1 _ assms(6), of tags name] tg ow run show ?thesis by auto
    qed
  qed
  then obtain d s' tags' m' where r: "jaeger_adaptive_sampler_is_sampled env dr s (Some name) tags m = Some (d, s', tags', m')"
    "adaptive_outcome env dr name s d s'" "ad_after env dr s tags m1 s' tags' m'" by blast
  let ?P = "set (ops_ptrs ?v @ tags_own tags)"
  have "mem_trans ?P (?P \<union> {}) m m1" using mem_trans_frame [OF f(2), of ?P] assms(5) by (simp add: owns_def)
  from ad_after_leak [OF r(3) refl this] assms(4) have a: "ad_after env dr s tags m s' tags' m'" by simp
  have "vec_ok (op_samplers s')"
  proof -
    have "later dr dr" using assms(1) by (simp add: draw_ok_def later_def)
    with a show ?thesis by (auto simp: ad_after_def ops_ok_def)
  qed
  from length_vec_list [OF this] length_vec_list [OF ok(2)] r(2) have
    "vec_len (op_samplers s') \<le> max (vec_len ?v) (max_operations s)"
    by (auto simp: adaptive_outcome_def Let_def)
  with r(1,2) a show ?thesis by blast
qed

text \<open>An adaptive sampler without operations, in block 0.\<close>

definition sample_ad :: jaeger_adaptive_sampler where
  "sample_ad = \<lparr>op_samplers = \<lparr>vec_len = 0, vec_capacity = 10, vec_data = Some (0, replicate 10 OPERATION_SAMPLER_ZERO), vec_type_size = 112\<rparr>,
     default_sampler = \<lparr>sampling_rate = 1 / 2\<rparr>, lower_bound = 2, max_operations = 1, ad_locked = False\<rparr>"

lemma sample_ad_simps [simp]: "ad_ok sample_env sample_draw sample_ad" "ops_ptrs (op_samplers sample_ad) = [0]"
  "vec_room (op_samplers sample_ad) (vec_capacity (op_samplers sample_ad) + 1)" "draw_ok sample_env sample_draw"
  by (simp_all add: sample_ad_def ad_ok_def ops_ok_def vec_ok_def names_set_def vec_list_def ops_ptrs_def vec_ptrs_def vec_room_def INT_MAX_def)
    (simp_all add: sample_env_def dbl.rnd_int [of 2, simplified] draw_ok_def sample_draw_def clock_ok_def clock_unfold tag_blank_def TAG_ZERO_def
      dbl.double_rounding_axioms)

theorem adaptive_sampler_decides_witness:
  "\<exists>d s' tags' m'. jaeger_adaptive_sampler_is_sampled sample_env sample_draw sample_ad (Some ''get'') None mem_one = Some (d, s', tags', m') \<and>
    adaptive_outcome sample_env sample_draw ''get'' sample_ad d s' \<and> ad_after sample_env sample_draw sample_ad None mem_one s' tags' m' \<and>
    vec_len (op_samplers s') \<le> max (vec_len (op_samplers sample_ad)) (max_operations sample_ad)"
  by (rule adaptive_sampler_decides) (simp_all add: tags_ok_def tags_own_def)

text \<open>
  \<open>jaeger_adaptive_sampler_update\<close> never sets the name of the sampler it makes for a new operation.
  On a sampler without operations whose free slots are zero, an update with one operation reports
  success and leaks the copy of the name; the sampler it has added has no name, so that the next
  query, for any operation, compares with a NULL name and crashes.
\<close>

theorem adaptive_update_loses_name:
  assumes "vec_ok (op_samplers s)" and "vec_len (op_samplers s) = 0" and "\<not> ad_locked s"
    and "vec_read (op_samplers s) (Some 0) = Some z" and "op_name z = None" and "mem_ok m" and "mem_plenty m"
    and "strategy_list strategies = [\<lparr>os_operation = Some (p, name), os_sampling_rate = rate\<rparr>]"
  shows "\<exists>s' m' leaked. jaeger_adaptive_sampler_update now s strategies m = Some (True, s', m') \<and>
    map op_name (vec_list (op_samplers s')) = [None] \<and> mem_trans {} {leaked} m m' \<and>
    (\<forall>env dr name' tags m1. mem_ok m1 \<longrightarrow> mem_plenty m1 \<longrightarrow> jaeger_adaptive_sampler_is_sampled env dr s' (Some name') tags m1 = None)"
proof -
  let ?v = "op_samplers s" and ?l = "s\<lparr>ad_locked := True\<rparr>"
  from assms(1) obtain b sl where d: "vec_data ?v = Some (b, sl)" "length sl = nat (vec_capacity ?v)" "0 < vec_capacity ?v" by (rule vec_okE)
  have e: "vec_list ?v = []" using assms(2) by (simp add: vec_list_def d(1))
  then have ns: "names_set ?v" by (simp add: names_set_def)
  from find_sampler_spec [OF assms(6), of ?l name] assms(1) ns e obtain m1 where
    f: "jaeger_adaptive_sampler_find_sampler ?l (Some name) m = Some (None, m1)" "mem_trans {} {} m m1"
    by (auto simp: not_None_eq [symmetric] simp del: not_None_eq)
  note m1 = mem_trans_ok [OF f(2)] and pl = mem_plenty_trans [OF f(2)]
  from jaeger_strdup_total [of name m1] jaeger_strdup_plenty [OF m1] pl assms(7) obtain q m2 where
    c: "jaeger_strdup (Some name) m1 = Some (Some q, m2)" by (metis option.exhaust)
  note sd = jaeger_strdup_SomeD [OF c m1]
  have lb: "jaeger_vector_lower_bound ?v (op_key name) op_name_cmp = Some 0"
    using assms(2) by (simp add: jaeger_vector_lower_bound_def jaeger_vector_length_def)
  have i: "jaeger_vector_insert OPERATION_SAMPLER_ZERO ?v 0 m2 = Some (Some 0, ?v\<lparr>vec_len := 1\<rparr>, m2)"
    using vec_append_room [OF assms(1), of OPERATION_SAMPLER_ZERO m2] assms(2) d(3)
    by (simp add: jaeger_vector_append_def jaeger_vector_length_def)
  let ?x = "z\<lparr>op_sampler := jaeger_guaranteed_throughput_probabilistic_sampler_init (po_default_lower_bound strategies) rate now\<rparr>"
  have r: "vec_read (?v\<lparr>vec_len := 1\<rparr>) (Some 0) = Some z" using assms(4) by (simp add: vec_read_def)
  have w: "vec_write (?v\<lparr>vec_len := 1\<rparr>) (Some 0) ?x = Some (?v\<lparr>vec_len := 1, vec_data := Some (b, sl[0 := ?x])\<rparr>)"
    using d by (simp add: vec_write_def)
  define s' where "s' = s\<lparr>op_samplers := ?v\<lparr>vec_len := 1, vec_data := Some (b, sl[0 := ?x])\<rparr>, ad_locked := False\<rparr>"
  have run: "jaeger_adaptive_sampler_update now s strategies m = Some (True, s', m2)"
    using assms(3,8) f(1) c sd(1) ns lb i r w
    by (simp add: jaeger_adaptive_sampler_update_def ad_lock_def ad_unlock_def s'_def)
  have "0 < length sl" using d by simp
  then have l: "vec_list (op_samplers s') = [?x]" by (cases sl) (simp_all add: s'_def vec_list_def)
  have "\<not> names_set (op_samplers s')" using l assms(5) by (simp add: names_set_def)
  then have crash: "jaeger_adaptive_sampler_is_sampled env dr s' (Some name') tags m3 = None" if "mem_ok m3" "mem_plenty m3" for env dr name' tags m3
    using jaeger_strdup_plenty [OF that] jaeger_strdup_total [of name' m3]
    by (auto simp: jaeger_adaptive_sampler_is_sampled_def jaeger_adaptive_sampler_find_sampler_def ad_lock_def s'_def split: option.splits)
  from run l assms(5) crash mem_trans_trans [OF f(2) sd(2) assms(6)] show ?thesis
    by (intro exI [of _ s'] exI [of _ m2] exI [of _ "fst q"]) simp
qed

definition one_strategy :: jaeger_per_operation_strategy where
  "one_strategy = \<lparr>po_strategies = Some (0, [\<lparr>os_operation = Some (0, ''get''), os_sampling_rate = 1\<rparr>]),
     po_default_sampling_probability = 1 / 2, po_default_lower_bound = 2\<rparr>"

theorem adaptive_update_loses_name_witness:
  "\<exists>s' m' leaked. jaeger_adaptive_sampler_update \<lparr>tv_sec = 1, tv_nsec = 0\<rparr> sample_ad one_strategy mem_one = Some (True, s', m') \<and>
    map op_name (vec_list (op_samplers s')) = [None] \<and> mem_trans {} {leaked} mem_one m' \<and>
    (\<forall>env dr name' tags m1. mem_ok m1 \<longrightarrow> mem_plenty m1 \<longrightarrow> jaeger_adaptive_sampler_is_sampled env dr s' (Some name') tags m1 = None)"
  by (rule adaptive_update_loses_name [where z = OPERATION_SAMPLER_ZERO and p = 0 and name = "''get''" and rate = 1])
    (simp_all add: sample_ad_def vec_ok_def INT_MAX_def vec_read_def OPERATION_SAMPLER_ZERO_def mem_plenty_def one_strategy_def strategy_list_def)

end
