(* ===== verification/Net.thy ===== *)
theory Net
  imports Ownership C_Library
begin

text \<open>
  Addresses of servers: \<open>src/jaegertracingc/net.c\<close>, \<open>net.h\<close>.

  \<open>strtol\<close>, \<open>strtok_r\<close> and \<open>snprintf\<close> are modelled; \<open>http_parser_parse_url\<close>, \<open>getaddrinfo\<close> and \<open>socket\<close>
  are arguments.
\<close>

section \<open>Decimal numbers\<close>

definition digit :: "nat \<Rightarrow> char" where
  "digit n = char_of (48 + n)"

fun dec_of_nat :: "nat \<Rightarrow> string" where
  "dec_of_nat n = (if n < 10 then [digit n] else dec_of_nat (n div 10) @ [digit (n mod 10)])"

declare dec_of_nat.simps [simp del]

definition dec_number :: "string \<Rightarrow> nat" where
  "dec_number ds = foldl (\<lambda>a c. 10 * a + (code c - 48)) 0 ds"

text \<open>\<open>%d\<close>.\<close>

definition fmt_d :: "int \<Rightarrow> string" where
  "fmt_d i = (if i < 0 then CHR ''-'' # dec_of_nat (nat (- i)) else dec_of_nat (nat i))"

definition LONG_MAX :: nat where
  "LONG_MAX = 2 ^ 63 - 1"

text \<open>\<open>strtol(s, &end, 10)\<close>: the number and the string at \<open>end\<close>.\<close>

definition strtol_dec :: "string \<Rightarrow> int \<times> string" where
  "strtol_dec s =
     (let (neg, r) = skip_sign (dropWhile isspace s);
          ds = takeWhile isdigit r;
          v = dec_number ds
      in if ds = [] then (0, s)
         else (if neg then - int (min v (Suc LONG_MAX)) else int (min v LONG_MAX), dropWhile isdigit r))"

text \<open>Assigning a \<open>long\<close> to an \<open>int\<close>.\<close>

definition long_to_int :: "int \<Rightarrow> int" where
  "long_to_int v = sint (of_int v :: 32 word)"

section \<open>Host and port\<close>

record jaeger_host_port =
  hp_host :: "cstring option"
  hp_port :: int

definition JAEGERTRACINGC_HOST_PORT_INIT :: jaeger_host_port where
  "JAEGERTRACINGC_HOST_PORT_INIT = \<lparr>hp_host = None, hp_port = 0\<rparr>"

definition jaeger_host_port_init ::
  "jaeger_host_port \<Rightarrow> string option \<Rightarrow> int \<Rightarrow> mem \<Rightarrow> (bool \<times> jaeger_host_port \<times> mem) option" where
  "jaeger_host_port_init hp host port m =
     (if host = None \<or> host = Some [] then Some (False, hp, m)
      else if port < 0 \<or> port > USHRT_MAX then Some (False, hp, m)
      else do {
        (copy, m) \<leftarrow> jaeger_strdup host m;
        let hp = hp\<lparr>hp_host := copy\<rparr>;
        if copy = None then Some (False, hp, m) else Some (True, hp\<lparr>hp_port := port\<rparr>, m)
      })"

definition jaeger_host_port_destroy :: "jaeger_host_port \<Rightarrow> mem \<Rightarrow> (jaeger_host_port \<times> mem) option" where
  "jaeger_host_port_destroy hp m = do {
     m \<leftarrow> jaeger_free (map_option fst (hp_host hp)) m;
     Some (JAEGERTRACINGC_HOST_PORT_INIT, m)
   }"

text \<open>
  \<open>jaeger_host_port_scan\<close> after the host has been copied: the port token, if there is one, is read with
  \<open>strtol\<close> and assigned to an \<open>int\<close>.
\<close>

definition scan_port ::
  "jaeger_host_port \<Rightarrow> string option \<Rightarrow> mem \<Rightarrow> (bool \<times> jaeger_host_port \<times> mem) option" where
  "scan_port hp port_token m =
     (case port_token of
        None \<Rightarrow> Some (True, hp\<lparr>hp_port := 0\<rparr>, m)
      | Some token \<Rightarrow> do {
          let (value, rest) = strtol_dec token;
          let port = long_to_int value;
          if rest \<noteq> [] \<or> port < 0 \<or> port > USHRT_MAX then do {
            m \<leftarrow> jaeger_free (map_option fst (hp_host hp)) m;
            Some (False, hp\<lparr>hp_host := None\<rparr>, m)
          }
          else Some (True, hp\<lparr>hp_port := port\<rparr>, m)
        })"

definition jaeger_host_port_scan ::
  "jaeger_host_port \<Rightarrow> string option \<Rightarrow> mem \<Rightarrow> (bool \<times> jaeger_host_port \<times> mem) option" where
  "jaeger_host_port_scan hp str m =
     (if str = None \<or> str = Some [] then Some (False, hp, m)
      else do {
        (str_copy, m) \<leftarrow> jaeger_strdup str m;
        case str_copy of
          None \<Rightarrow> Some (False, hp, m)
        | Some c \<Rightarrow> do {
            (result, hp, m) \<leftarrow>
              (case strtok CHR '':'' (snd c) of
                 (None, _) \<Rightarrow> Some (False, hp, m)
               | (Some token, context) \<Rightarrow> do {
                   let first_is_port = (hd (snd c) = CHR '':'');
                   (host, m) \<leftarrow> jaeger_strdup (Some (if first_is_port then ''localhost'' else token)) m;
                   let hp = hp\<lparr>hp_host := host\<rparr>;
                   if host = None then Some (False, hp, m)
                   else scan_port hp (if first_is_port then Some token else fst (strtok CHR '':'' context)) m
                 });
            m \<leftarrow> jaeger_free (Some (fst c)) m;
            Some (result, hp, m)
          }
      })"

text \<open>Formatting: what \<open>snprintf\<close> returns and the buffer holds; a NULL host is not defined.\<close>

definition jaeger_host_port_format :: "jaeger_host_port \<Rightarrow> nat \<Rightarrow> (nat \<times> string option) option" where
  "jaeger_host_port_format hp buffer_len = do {
     host \<leftarrow> hp_host hp;
     Some (snprintf buffer_len (if hp_port hp = 0 then snd host else snd host @ CHR '':'' # fmt_d (hp_port hp)))
   }"

definition JAEGERTRACINGC_MAX_PORT_STR_LEN :: nat where
  "JAEGERTRACINGC_MAX_PORT_STR_LEN = 6"

text \<open>\<open>getaddrinfo\<close> gives the list of addresses, \<open>None\<close> for an error.\<close>

definition jaeger_host_port_resolve ::
  "(string \<Rightarrow> string \<Rightarrow> int \<Rightarrow> 'addr list option) \<Rightarrow> jaeger_host_port \<Rightarrow> int \<Rightarrow> 'addr list option option" where
  "jaeger_host_port_resolve getaddrinfo hp socket_type = do {
     host \<leftarrow> hp_host hp;
     c_assert (snd host \<noteq> []);
     let port_buffer = fmt_d (hp_port hp);
     c_assert (length port_buffer < JAEGERTRACINGC_MAX_PORT_STR_LEN);
     Some (getaddrinfo (snd host) port_buffer socket_type)
   }"

section \<open>URLs\<close>

text \<open>\<open>struct http_parser_url\<close>: the set of fields and the offset and length of each.\<close>

record http_parser_url =
  field_set :: "16 word"
  field_off :: "nat \<Rightarrow> nat"
  field_len :: "nat \<Rightarrow> nat"

definition UF_HOST :: nat where
  "UF_HOST = 1"

definition UF_PORT :: nat where
  "UF_PORT = 2"

record jaeger_url =
  url_str :: "cstring option"
  url_parts :: http_parser_url

definition JAEGERTRACINGC_URL_INIT :: jaeger_url where
  "JAEGERTRACINGC_URL_INIT = \<lparr>url_str = None, url_parts = \<lparr>field_set = 0, field_off = (\<lambda>_. 0), field_len = (\<lambda>_. 0)\<rparr>\<rparr>"

definition jaeger_url_init ::
  "(string \<Rightarrow> http_parser_url \<Rightarrow> int \<times> http_parser_url) \<Rightarrow> jaeger_url \<Rightarrow> string option \<Rightarrow> mem \<Rightarrow> (bool \<times> jaeger_url \<times> mem) option" where
  "jaeger_url_init parse_url url str m = do {
     s \<leftarrow> str;
     c_assert (s \<noteq> []);
     let (result, parts) = parse_url s (url_parts url);
     let url = url\<lparr>url_parts := parts\<rparr>;
     if result \<noteq> 0 then Some (False, url, m)
     else do {
       (copy, m) \<leftarrow> jaeger_strdup str m;
       Some (copy \<noteq> None, url\<lparr>url_str := copy\<rparr>, m)
     }
   }"

definition jaeger_url_destroy :: "jaeger_url \<Rightarrow> mem \<Rightarrow> (jaeger_url \<times> mem) option" where
  "jaeger_url_destroy url m = do {
     m \<leftarrow> jaeger_free (map_option fst (url_str url)) m;
     Some (JAEGERTRACINGC_URL_INIT, m)
   }"

definition HOST_NAME_MAX :: nat where
  "HOST_NAME_MAX = 64"

definition has_field :: "http_parser_url \<Rightarrow> nat \<Rightarrow> bool" where
  "has_field parts f \<longleftrightarrow> bit (field_set parts) f"

definition jaeger_host_port_from_url ::
  "jaeger_host_port \<Rightarrow> jaeger_url \<Rightarrow> mem \<Rightarrow> (bool \<times> jaeger_host_port \<times> mem) option" where
  "jaeger_host_port_from_url hp url m = do {
     str \<leftarrow> url_str url;
     let s = snd str;
     let parts = url_parts url;
     port \<leftarrow>
       (if has_field parts UF_PORT then do {
          c_assert (field_off parts UF_PORT \<le> length s);
          let (value, rest) = strtol_dec (drop (field_off parts UF_PORT) s);
          c_assert (int (length s) - int (length rest) = int (field_off parts UF_PORT + field_len parts UF_PORT));
          Some (long_to_int value)
        } else Some 0);
     let len = (if has_field parts UF_HOST then field_len parts UF_HOST else 0);
     if len = 0 then jaeger_host_port_init hp (Some ''localhost'') port m
     else do {
       c_assert (field_off parts UF_HOST + len \<le> length s);
       let host = take len (drop (field_off parts UF_HOST) s);
       if len > HOST_NAME_MAX then
         (case jaeger_malloc (len + 1) m of
            (None, m) \<Rightarrow> Some (False, hp, m)
          | (Some p, m) \<Rightarrow> do {
              (result, hp, m) \<leftarrow> jaeger_host_port_init hp (Some host) port m;
              m \<leftarrow> jaeger_free (Some p) m;
              Some (result, hp, m)
            })
       else jaeger_host_port_init hp (Some host) port m
     }
   }"

section \<open>Reading back what was printed\<close>

lemma code_digit [simp]: "n < 10 \<Longrightarrow> code (digit n) = 48 + n"
  by (simp add: digit_def)

lemma isdigit_digit: "n < 10 \<Longrightarrow> isdigit (digit n)"
  by (simp add: isdigit_def)

lemma dec_of_nat_digits: "c \<in> set (dec_of_nat n) \<Longrightarrow> isdigit c"
proof (induction n rule: dec_of_nat.induct)
  case (1 n)
  show ?case
  proof (cases "n < 10")
    case True
    with 1(2) show ?thesis by (subst (asm) dec_of_nat.simps) (simp add: isdigit_digit)
  next
    case False
    then have "c \<in> set (dec_of_nat (n div 10)) \<or> c = digit (n mod 10)" using 1(2) by (subst (asm) dec_of_nat.simps) auto
    with 1(1) [OF False] show ?thesis by (auto simp: isdigit_digit)
  qed
qed

lemma dec_of_nat_ne [simp]: "dec_of_nat n \<noteq> []"
  by (subst dec_of_nat.simps) simp

lemma dec_number_append: "dec_number (xs @ [c]) = 10 * dec_number xs + (code c - 48)"
  by (simp add: dec_number_def)

lemma dec_number_of_nat [simp]: "dec_number (dec_of_nat n) = n"
proof (induction n rule: dec_of_nat.induct)
  case (1 n)
  then show ?case by (subst dec_of_nat.simps) (auto simp: dec_number_append, simp add: dec_number_def)
qed

lemma length_dec_of_nat: "n < 10 ^ k \<Longrightarrow> 0 < k \<Longrightarrow> length (dec_of_nat n) \<le> k"
proof (induction n arbitrary: k rule: dec_of_nat.induct)
  case (1 n)
  show ?case
  proof (cases "n < 10")
    case False
    then obtain j where k: "k = Suc j" "0 < j" using 1(2,3) by (cases k; cases "k - 1") auto
    then have "n div 10 < 10 ^ j" using 1(2) by (simp add: less_mult_imp_div_less mult.commute)
    with 1(1) [OF False this k(2)] k False show ?thesis by (subst dec_of_nat.simps) simp
  qed (use 1 in \<open>subst dec_of_nat.simps; simp\<close>)
qed

lemma isdigit_not_special: "isdigit c \<Longrightarrow> \<not> isspace c \<and> c \<noteq> CHR ''-'' \<and> c \<noteq> CHR ''+'' \<and> c \<noteq> CHR '':''"
  by (auto simp: isspace_def isdigit_def code_def)

text \<open>The number at the start of a text.\<close>

lemma strtol_dec_prefix:
  assumes "rest = [] \<or> \<not> isdigit (hd rest)"
  shows "strtol_dec (dec_of_nat n @ rest) = (int (min n LONG_MAX), rest)"
proof -
  obtain c cs where d: "dec_of_nat n = c # cs" by (cases "dec_of_nat n") auto
  have t: "takeWhile isdigit (dec_of_nat n @ rest) = dec_of_nat n" "dropWhile isdigit (dec_of_nat n @ rest) = rest"
    using assms dec_of_nat_digits [of _ n] by (auto simp: takeWhile_append2 dropWhile_append2 takeWhile_eq_Nil_iff dropWhile_eq_self_iff)
  have c: "isdigit c" using dec_of_nat_digits [of c n] d by simp
  then have "skip_sign (dropWhile isspace (dec_of_nat n @ rest)) = (False, dec_of_nat n @ rest)"
    using d isdigit_not_special [OF c] by (simp add: skip_sign_def)
  with t show ?thesis by (simp add: strtol_dec_def)
qed

lemma strtol_dec_of_nat: "strtol_dec (dec_of_nat n) = (int (min n LONG_MAX), [])"
  using strtol_dec_prefix [of "[]" n] by simp

lemma colon_not_in_dec: "CHR '':'' \<notin> set (dec_of_nat n)"
  using dec_of_nat_digits [of "CHR '':''" n] isdigit_not_special by blast

lemma long_to_int_small: "0 \<le> v \<Longrightarrow> v \<le> INT_MAX \<Longrightarrow> long_to_int v = v"
  by (simp add: long_to_int_def INT_MAX_def signed_of_int signed_take_bit_int_eq_self)

text \<open>The two copies the scan makes, as long as memory is available, and releasing the first.\<close>

lemma two_copies:
  assumes "mem_ok m" and "mem_plenty m"
  obtains c q m1 m2 where "jaeger_strdup (Some s) m = Some (Some c, m1)" and "snd c = s"
    and "jaeger_strdup (Some t) m1 = Some (Some q, m2)" and "snd q = t"
    and "mem_trans {} {fst c, fst q} m m2" and "fst c \<noteq> fst q"
proof -
  from jaeger_strdup_total [of s m] jaeger_strdup_plenty [OF assms] obtain c m1 where c: "jaeger_strdup (Some s) m = Some (Some c, m1)"
    by (metis option.exhaust)
  note cd = jaeger_strdup_SomeD [OF c assms(1)]
  have m1: "mem_ok m1" "mem_plenty m1" using mem_trans_ok [OF cd(2)] mem_plenty_trans [OF cd(2)] assms(2) by auto
  from jaeger_strdup_total [of t m1] jaeger_strdup_plenty [OF m1] obtain q m2 where q: "jaeger_strdup (Some t) m1 = Some (Some q, m2)"
    by (metis option.exhaust)
  note qd = jaeger_strdup_SomeD [OF q m1(1)]
  have "mem_trans {} {fst c, fst q} m m2" "{fst c} \<inter> {fst q} = {}"
    using mem_trans_alloc2 [OF cd(2) qd(2) assms(1)] by (simp_all add: insert_is_Un [of _ "{fst q}"])
  with c cd(1) q qd(1) that show thesis by blast
qed

lemma free_one_of_two:
  assumes "mem_trans {} {a, b} m m1" and "a \<noteq> b" and "mem_ok m"
  obtains m2 where "jaeger_free (Some a) m1 = Some m2" and "mem_trans {} {b} m m2"
proof -
  have "a \<in> dom (mem_blocks m1)" using mem_trans_dom [OF assms(1)] by simp
  from jaeger_free_live [OF mem_trans_ok [OF assms(1)] this] obtain m2 where
    f: "jaeger_free (Some a) m1 = Some m2" "mem_trans {a} {} m1 m2" .
  have "mem_trans {a, b} {b} m1 m2"
    using mem_trans_frame [OF f(2), of "{b}"] mem_trans_dom [OF assms(1)] assms(2) by (simp add: insert_commute)
  from that [OF f(1) mem_trans_trans [OF assms(1) this assms(3)]] show thesis .
qed

text \<open>
  Scanning \<open>host:n\<close>, for a host without a colon and a decimal number \<open>n\<close> that fits into a \<open>long\<close>,
  gives that host in one new block and leaks nothing.  The port is \<open>n\<close> reduced to 32 bits: it is
  accepted exactly if the reduced number is a port, so that what \<open>jaeger_host_port_format\<close> prints is
  read back, but \<open>localhost:4294967376\<close> is accepted as port 80.
\<close>

theorem host_port_scan_port:
  assumes "host \<noteq> []" and "CHR '':'' \<notin> set host" and "n \<le> LONG_MAX" and "mem_ok m" and "mem_plenty m"
    and "port = long_to_int (int n)"
  shows "(int n \<le> USHRT_MAX \<longrightarrow> port = int n) \<and>
    (\<exists>hp' m'. jaeger_host_port_scan hp (Some (host @ CHR '':'' # dec_of_nat n)) m = Some (0 \<le> port \<and> port \<le> USHRT_MAX, hp', m') \<and>
    (if 0 \<le> port \<and> port \<le> USHRT_MAX
     then \<exists>p. hp_host hp' = Some (p, host) \<and> hp_port hp' = port \<and> mem_trans {} {p} m m' \<and>
       (int n = port \<longrightarrow> 0 < n \<longrightarrow> jaeger_host_port_format hp' k = Some (snprintf k (host @ CHR '':'' # dec_of_nat n)))
     else hp_host hp' = None \<and> mem_trans {} {} m m'))"
proof (rule conjI)
  show "int n \<le> USHRT_MAX \<longrightarrow> port = int n"
    unfolding assms(6) by (auto simp: USHRT_MAX_def INT_MAX_def intro!: long_to_int_small)
  let ?s = "host @ CHR '':'' # dec_of_nat n"
  obtain c q m1 m2 where cq: "jaeger_strdup (Some ?s) m = Some (Some c, m1)" "snd c = ?s" "jaeger_strdup (Some host) m1 = Some (Some q, m2)"
    "snd q = host" "mem_trans {} {fst c, fst q} m m2" "fst c \<noteq> fst q" by (rule two_copies [OF assms(4,5)])
  have tk: "strtok CHR '':'' ?s = (Some host, dec_of_nat n)" "strtok CHR '':'' (dec_of_nat n) = (Some (dec_of_nat n), [])"
    using strtok_token(1) [OF assms(1,2)] strtok_token(2) [OF dec_of_nat_ne colon_not_in_dec] by auto
  have hd: "hd ?s \<noteq> CHR '':''" using assms(1,2) by (cases host) auto
  have n: "min n LONG_MAX = n" using assms(3) by simp
  have run: "jaeger_host_port_scan hp (Some ?s) m = do {
      (result, hp', m') \<leftarrow> scan_port (hp\<lparr>hp_host := Some q\<rparr>) (Some (dec_of_nat n)) m2;
      m' \<leftarrow> jaeger_free (Some (fst c)) m';
      Some (result, hp', m') }"
    using cq(1-4) tk hd by (simp add: jaeger_host_port_scan_def)
  show "\<exists>hp' m'. jaeger_host_port_scan hp (Some ?s) m = Some (0 \<le> port \<and> port \<le> USHRT_MAX, hp', m') \<and>
    (if 0 \<le> port \<and> port \<le> USHRT_MAX
     then \<exists>p. hp_host hp' = Some (p, host) \<and> hp_port hp' = port \<and> mem_trans {} {p} m m' \<and>
       (int n = port \<longrightarrow> 0 < n \<longrightarrow> jaeger_host_port_format hp' k = Some (snprintf k ?s))
     else hp_host hp' = None \<and> mem_trans {} {} m m')"
  proof (cases "0 \<le> port \<and> port \<le> USHRT_MAX")
    case True
    from free_one_of_two [OF cq(5,6) assms(4)] obtain m3 where f: "jaeger_free (Some (fst c)) m2 = Some m3" "mem_trans {} {fst q} m m3" .
    have "jaeger_host_port_scan hp (Some ?s) m = Some (True, hp\<lparr>hp_host := Some q, hp_port := port\<rparr>, m3)"
      using True f(1) unfolding run scan_port_def by (simp add: strtol_dec_of_nat n flip: assms(6))
    with True f(2) cq(4) show ?thesis
      by (auto simp: jaeger_host_port_format_def fmt_d_def intro!: exI [of _ "fst q"])
  next
    case False
    have "mem_trans {} {fst q, fst c} m m2" "fst q \<noteq> fst c" using cq(5,6) by (auto simp: insert_commute)
    from free_one_of_two [OF this assms(4)] obtain m3 where f: "jaeger_free (Some (fst q)) m2 = Some m3" "mem_trans {} {fst c} m m3" .
    have "fst c \<in> dom (mem_blocks m3)" using mem_trans_dom [OF f(2)] by simp
    from jaeger_free_live [OF mem_trans_ok [OF f(2)] this] obtain m4 where
      g: "jaeger_free (Some (fst c)) m3 = Some m4" "mem_trans {fst c} {} m3 m4" .
    have "jaeger_host_port_scan hp (Some ?s) m = Some (False, hp\<lparr>hp_host := None\<rparr>, m4)"
      using False f(1) g(1) unfolding run scan_port_def by (auto simp: strtol_dec_of_nat n simp flip: assms(6))
    with False mem_trans_trans [OF f(2) g(2) assms(4)] show ?thesis by auto
  qed
qed

theorem host_port_scan_port_witness:
  "\<exists>hp' m'. jaeger_host_port_scan JAEGERTRACINGC_HOST_PORT_INIT (Some (''localhost'' @ CHR '':'' # dec_of_nat 4294967376)) mem_one =
      Some (True, hp', m') \<and> hp_port hp' = 80"
proof -
  have p: "long_to_int (int 4294967376) = 80" by (simp add: long_to_int_def)
  have "CHR '':'' \<notin> set ''localhost''" by simp
  from host_port_scan_port [OF _ this _ mem_one_simps(1) _ refl, of 4294967376 JAEGERTRACINGC_HOST_PORT_INIT] show ?thesis
    unfolding p by (auto simp: mem_plenty_def LONG_MAX_def USHRT_MAX_def)
qed

end
