(* ===== verification/Reporter.thy ===== *)
theory Reporter
  imports Span Metrics Net
begin

text \<open>
  Reporters: \<open>src/jaegertracingc/reporter.c\<close>, \<open>reporter.h\<close>.

  The spans that wait in a remote reporter are pointers to generated messages, the elements of a
  vector.  The generated code's packing of a batch, the packed size it announces and the
  size of a span message are in \<open>report_env\<close>.  The network is a record: the attempted sends so far and, for each
  attempt, how many bytes \<open>sendto\<close> reports, as an arbitrary function of the history.
\<close>

section \<open>The null and the logging reporter\<close>

definition null_report :: "'r \<Rightarrow> jaeger_span option \<Rightarrow> 'r" where
  "null_report r sp = r"

definition null_flush :: "'r \<Rightarrow> bool \<times> 'r" where
  "null_flush r = (True, r)"

text \<open>The logging reporter prints its buffer, of which it sets the last character only.\<close>

definition logging_reporter_report :: "string \<Rightarrow> jaeger_span option \<Rightarrow> string option" where
  "logging_reporter_report uninitialised sp =
     (case sp of None \<Rightarrow> None | Some _ \<Rightarrow> Some (c_str (uninitialised @ [CHR 0x00])))"

section \<open>The in-memory reporter\<close>

record jaeger_in_memory_reporter =
  im_spans :: "jaeger_span jaeger_vector"
  im_locked :: bool

text \<open>\<open>sizeof(jaeger_span)\<close> depends on the OpenTracing headers and is an argument.\<close>

definition jaeger_in_memory_reporter_init ::
  "int \<Rightarrow> jaeger_in_memory_reporter \<Rightarrow> mem \<Rightarrow> (bool \<times> jaeger_in_memory_reporter \<times> mem) option" where
  "jaeger_in_memory_reporter_init sizeof_span r m = do {
     (ok, vec, m) \<leftarrow> jaeger_vector_init JAEGERTRACINGC_SPAN_INIT sizeof_span (im_spans r) m;
     if \<not> ok then Some (False, r\<lparr>im_spans := vec\<rparr>, m)
     else Some (True, \<lparr>im_spans = vec, im_locked = False\<rparr>, m)
   }"

definition in_memory_reporter_report ::
  "env \<Rightarrow> opentracing_time_value \<Rightarrow> jaeger_in_memory_reporter \<Rightarrow> jaeger_span option \<Rightarrow> mem \<Rightarrow>
   (jaeger_in_memory_reporter \<times> mem) option" where
  "in_memory_reporter_report env now r sp m =
     (case sp of
        None \<Rightarrow> Some (r, m)
      | Some sp \<Rightarrow> do {
          c_assert (\<not> im_locked r);
          (slot, vec, m) \<leftarrow> jaeger_vector_append JAEGERTRACINGC_SPAN_INIT (im_spans r) m;
          if slot = None then Some (r\<lparr>im_spans := vec\<rparr>, m)
          else do {
            (ok, copy, m) \<leftarrow> jaeger_span_copy env now sp m;
            vec \<leftarrow> vec_write vec slot copy;
            let vec = (if ok then vec else vec\<lparr>vec_len := vec_len vec - 1\<rparr>);
            Some (r\<lparr>im_spans := vec\<rparr>, m)
          }
        })"

definition in_memory_reporter_destroy ::
  "jaeger_in_memory_reporter \<Rightarrow> mem \<Rightarrow> (jaeger_in_memory_reporter \<times> mem) option" where
  "in_memory_reporter_destroy r m = do {
     m \<leftarrow> vec_for_each_destroy jaeger_span_destroy (im_spans r) m;
     (vec, m) \<leftarrow> jaeger_vector_destroy (im_spans r) m;
     c_assert (\<not> im_locked r);
     Some (r\<lparr>im_spans := vec\<rparr>, m)
   }"

section \<open>The composite reporter\<close>

text \<open>
  The elements are pointers to reporters; the calls through their function pointers are arguments, and
  \<open>'w\<close> is the state of the world they change.
\<close>

type_synonym 'r jaeger_composite_reporter = "(ptr \<times> 'r) option jaeger_vector"

definition jaeger_composite_reporter_init ::
  "'r jaeger_composite_reporter \<Rightarrow> mem \<Rightarrow> (bool \<times> 'r jaeger_composite_reporter \<times> mem) option" where
  "jaeger_composite_reporter_init r m = jaeger_vector_init None SIZEOF_PTR r m"

definition jaeger_composite_reporter_add ::
  "'r jaeger_composite_reporter \<Rightarrow> ptr \<times> 'r \<Rightarrow> mem \<Rightarrow> (bool \<times> 'r jaeger_composite_reporter \<times> mem) option" where
  "jaeger_composite_reporter_add r new_reporter m = do {
     (slot, vec, m) \<leftarrow> jaeger_vector_append None r m;
     if slot = None then Some (False, vec, m)
     else do {
       vec \<leftarrow> vec_write vec slot (Some new_reporter);
       Some (True, vec, m)
     }
   }"

text \<open>The loop over the children; every child is replaced by what the call leaves of it.\<close>

fun children_report ::
  "('r \<Rightarrow> 's \<Rightarrow> 'w \<Rightarrow> mem \<Rightarrow> ('r \<times> 'w \<times> mem) option) \<Rightarrow> 's \<Rightarrow> (ptr \<times> 'r) option list \<Rightarrow> 'w \<Rightarrow> mem \<Rightarrow>
   ((ptr \<times> 'r) option list \<times> 'w \<times> mem) option" where
  "children_report report sp [] w m = Some ([], w, m)"
| "children_report report sp (None # rest) w m = do {
     (rest, w, m) \<leftarrow> children_report report sp rest w m;
     Some (None # rest, w, m)
   }"
| "children_report report sp (Some (p, child) # rest) w m = do {
     (child, w, m) \<leftarrow> report child sp w m;
     (rest, w, m) \<leftarrow> children_report report sp rest w m;
     Some (Some (p, child) # rest, w, m)
   }"

fun children_flush ::
  "('r \<Rightarrow> 'w \<Rightarrow> mem \<Rightarrow> (bool \<times> 'r \<times> 'w \<times> mem) option) \<Rightarrow> bool \<Rightarrow> (ptr \<times> 'r) option list \<Rightarrow> 'w \<Rightarrow> mem \<Rightarrow>
   (bool \<times> (ptr \<times> 'r) option list \<times> 'w \<times> mem) option" where
  "children_flush flush success [] w m = Some (success, [], w, m)"
| "children_flush flush success (None # rest) w m = do {
     (success, rest, w, m) \<leftarrow> children_flush flush success rest w m;
     Some (success, None # rest, w, m)
   }"
| "children_flush flush success (Some (p, child) # rest) w m = do {
     (ok, child, w, m) \<leftarrow> flush child w m;
     (success, rest, w, m) \<leftarrow> children_flush flush (if ok then success else False) rest w m;
     Some (success, Some (p, child) # rest, w, m)
   }"

text \<open>The vector with the elements that the loop has left.\<close>

definition with_children :: "'a jaeger_vector \<Rightarrow> 'a list \<Rightarrow> 'a jaeger_vector" where
  "with_children vec xs = vec\<lparr>vec_data := map_option (\<lambda>(p, slots). (p, xs @ drop (length xs) slots)) (vec_data vec)\<rparr>"

definition composite_reporter_report ::
  "('r \<Rightarrow> 's \<Rightarrow> 'w \<Rightarrow> mem \<Rightarrow> ('r \<times> 'w \<times> mem) option) \<Rightarrow> 'r jaeger_composite_reporter \<Rightarrow> 's option \<Rightarrow> 'w \<Rightarrow> mem \<Rightarrow>
   ('r jaeger_composite_reporter \<times> 'w \<times> mem) option" where
  "composite_reporter_report report r sp w m =
     (case sp of
        None \<Rightarrow> Some (r, w, m)
      | Some sp \<Rightarrow> do {
          (xs, w, m) \<leftarrow> children_report report sp (vec_list r) w m;
          Some (with_children r xs, w, m)
        })"

definition composite_reporter_flush ::
  "('r \<Rightarrow> 'w \<Rightarrow> mem \<Rightarrow> (bool \<times> 'r \<times> 'w \<times> mem) option) \<Rightarrow> 'r jaeger_composite_reporter \<Rightarrow> 'w \<Rightarrow> mem \<Rightarrow>
   (bool \<times> 'r jaeger_composite_reporter \<times> 'w \<times> mem) option" where
  "composite_reporter_flush flush r w m = do {
     (success, xs, w, m) \<leftarrow> children_flush flush True (vec_list r) w m;
     Some (success, with_children r xs, w, m)
   }"

definition composite_reporter_destroy ::
  "('r \<Rightarrow> mem \<Rightarrow> ('r \<times> mem) option) \<Rightarrow> 'r jaeger_composite_reporter \<Rightarrow> mem \<Rightarrow> ('r jaeger_composite_reporter \<times> mem) option" where
  "composite_reporter_destroy destroy r m = do {
     m \<leftarrow> vec_for_each_destroy (dst_vector_alloc_free destroy) r m;
     jaeger_vector_destroy r m
   }"

section \<open>The remote reporter\<close>

text \<open>The generated messages \<open>Process\<close> and \<open>Batch\<close>; the initial service name is the static empty string.\<close>

record pb_process =
  pp_service_name :: "cstring option"
  pp_tags :: "(ptr \<times> (ptr \<times> jaeger_tag) option list) option"
  pp_n_tags :: nat

definition PB_PROCESS_INIT :: pb_process where
  "PB_PROCESS_INIT = \<lparr>pp_service_name = Some (0, []), pp_tags = None, pp_n_tags = 0\<rparr>"

type_synonym span_slot = "(ptr \<times> pb_span) option"

record pb_batch =
  pbb_process :: pb_process
  pbb_spans :: "(ptr \<times> span_slot list) option"
  pbb_n_spans :: nat

record report_env =
  re_env :: env
  re_packed_size :: "pb_batch \<Rightarrow> nat"
  re_pack :: "pb_batch \<Rightarrow> u8 list"
  re_sizeof_span :: nat

text \<open>The network; an address is the bytes of a \<open>sockaddr\<close>.\<close>

type_synonym sock_addr = "u8 list"

record net =
  net_sendto :: "(sock_addr \<times> u8 list) list \<Rightarrow> sock_addr \<Rightarrow> u8 list \<Rightarrow> int"
  net_log :: "(sock_addr \<times> u8 list) list"

definition sendto :: "sock_addr \<Rightarrow> u8 list \<Rightarrow> net \<Rightarrow> int \<times> net" where
  "sendto addr buffer net =
     (net_sendto net (net_log net) addr buffer, net\<lparr>net_log := net_log net @ [(addr, buffer)]\<rparr>)"

record jaeger_remote_reporter =
  rr_max_packet_size :: int
  rr_fd :: int
  rr_metrics :: "jaeger_metrics option"
  rr_process :: pb_process
  rr_spans :: "span_slot jaeger_vector"
  rr_candidates :: "sock_addr list option"
  rr_addr :: sock_addr
  rr_locked :: bool

text \<open>What the reporter reads of the tracer.\<close>

record tracer_process =
  tr_service_name :: "cstring option"
  tr_tags :: "jaeger_tag jaeger_vector"

definition process_destroy :: "pb_process \<Rightarrow> mem \<Rightarrow> (pb_process \<times> mem) option" where
  "process_destroy process m = do {
     (process, m) \<leftarrow>
       (case pp_tags process of
          None \<Rightarrow> Some (process, m)
        | Some (p, slots) \<Rightarrow> do {
            c_assert (pp_n_tags process \<le> length slots);
            m \<leftarrow> vector_for_each_destroy (dst_vector_alloc_free jaeger_tag_destroy) (take (pp_n_tags process) slots) m;
            m \<leftarrow> jaeger_free (Some p) m;
            Some (process\<lparr>pp_tags := None, pp_n_tags := 0\<rparr>, m)
          });
     case pp_service_name process of
       None \<Rightarrow> Some (process, m)
     | Some name \<Rightarrow>
         if snd name = [] then Some (process, m)
         else do {
           m \<leftarrow> jaeger_free (Some (fst name)) m;
           Some (process\<lparr>pp_service_name := None\<rparr>, m)
         }
   }"

text \<open>
  The cleanup of \<open>build_process\<close> frees \<open>process\<close>, which is the member of a reporter and no heap block:
  there is no result after it.
\<close>

definition build_process ::
  "report_env \<Rightarrow> pb_process \<Rightarrow> tracer_process option \<Rightarrow> mem \<Rightarrow> (pb_process \<times> mem) option" where
  "build_process renv process tracer m = do {
     tracer \<leftarrow> tracer;
     name \<leftarrow> tr_service_name tracer;
     c_assert (snd name \<noteq> []);
     (copy, m) \<leftarrow> jaeger_strdup (Some (snd name)) m;
     let process = process\<lparr>pp_service_name := copy\<rparr>;
     c_assert (copy \<noteq> None);
     (ok, (arr, n), m) \<leftarrow> jaeger_vector_protobuf_copy (pp_tags process, pp_n_tags process) (tr_tags tracer)
       (nat SIZEOF_TAG) TAG_ZERO (\<lambda>old. jaeger_tag_copy (env_tag_init (re_env renv))) jaeger_tag_destroy m;
     c_assert ok;
     Some (process\<lparr>pp_tags := arr, pp_n_tags := n\<rparr>, m)
   }"

text \<open>\<open>metrics->counter->inc(...)\<close>, unless there are no metrics.\<close>

definition reporter_inc :: "counter_name \<Rightarrow> int \<Rightarrow> jaeger_metrics option \<Rightarrow> jaeger_metrics option option" where
  "reporter_inc name delta metrics =
     (case metrics of None \<Rightarrow> Some None | Some mt \<Rightarrow> map_option Some (metrics_inc name delta mt))"

text \<open>\<open>(int) size\<close> of a \<open>size_t\<close>.\<close>

definition size_to_int :: "nat \<Rightarrow> int" where
  "size_to_int n = sint (of_nat n :: 32 word)"

definition large_batch_error ::
  "pb_batch \<Rightarrow> span_slot jaeger_vector \<Rightarrow> int \<Rightarrow> jaeger_metrics option \<Rightarrow> mem \<Rightarrow>
   (span_slot jaeger_vector \<times> jaeger_metrics option \<times> mem) option" where
  "large_batch_error batch spans initial_num_spans metrics m = do {
     let spans = spans\<lparr>vec_data := pbb_spans batch, vec_len := initial_num_spans\<rparr>;
     slot \<leftarrow> jaeger_vector_get spans 0;
     sp \<leftarrow> vec_read spans slot;
     (p, x) \<leftarrow> sp;
     (x, m) \<leftarrow> jaeger_span_protobuf_destroy x m;
     m \<leftarrow> jaeger_free (Some p) m;
     spans \<leftarrow> jaeger_vector_remove spans 0;
     metrics \<leftarrow> reporter_inc reporter_dropped 1 metrics;
     Some (spans, metrics, m)
   }"

text \<open>The largest number of leading spans that fit into a packet: the \<open>for\<close> loop of \<open>build_batch\<close>.\<close>

fun fit_loop :: "(pb_batch \<Rightarrow> nat) \<Rightarrow> int \<Rightarrow> pb_batch \<Rightarrow> nat \<Rightarrow> nat" where
  "fit_loop packed_size max_packet_size batch 0 = 0"
| "fit_loop packed_size max_packet_size batch (Suc n) =
     (if size_to_int (packed_size (batch\<lparr>pbb_n_spans := Suc n\<rparr>)) > max_packet_size
      then fit_loop packed_size max_packet_size batch n
      else Suc n)"

text \<open>Appending the remaining spans to the new vector.\<close>

fun append_remaining ::
  "span_slot list \<Rightarrow> span_slot jaeger_vector \<Rightarrow> mem \<Rightarrow> (span_slot jaeger_vector \<times> mem) option" where
  "append_remaining [] spans m = Some (spans, m)"
| "append_remaining (x # rest) spans m = do {
     (slot, spans, m) \<leftarrow> jaeger_vector_append None spans m;
     c_assert (slot \<noteq> None);
     spans \<leftarrow> vec_write spans slot x;
     append_remaining rest spans m
   }"

text \<open>\<open>jaeger_span_protobuf_destroy(*p); jaeger_free(*p)\<close> for a span pointer that must not be NULL.\<close>

definition drop_span :: "span_slot \<Rightarrow> mem \<Rightarrow> (span_slot \<times> mem) option" where
  "drop_span slot m = do {
     (p, x) \<leftarrow> slot;
     (x, m) \<leftarrow> jaeger_span_protobuf_destroy x m;
     m \<leftarrow> jaeger_free (Some p) m;
     Some (Some (p, x), m)
   }"

definition build_batch ::
  "report_env \<Rightarrow> pb_process \<Rightarrow> span_slot jaeger_vector \<Rightarrow> int \<Rightarrow> jaeger_metrics option \<Rightarrow> mem \<Rightarrow>
   (bool \<times> pb_batch \<times> span_slot jaeger_vector \<times> jaeger_metrics option \<times> mem) option" where
  "build_batch renv process spans max_packet_size metrics m = do {
     let num_spans = jaeger_vector_length spans;
     let batch = \<lparr>pbb_process = process, pbb_spans = vec_data spans, pbb_n_spans = nat num_spans\<rparr>;
     let spans = spans\<lparr>vec_len := 0, vec_data := None\<rparr>;
     let n = fit_loop (re_packed_size renv) max_packet_size batch (pbb_n_spans batch);
     let batch = batch\<lparr>pbb_n_spans := n\<rparr>;
     if n = 0 then do {
       (spans, metrics, m) \<leftarrow> large_batch_error batch spans num_spans metrics m;
       Some (False, batch, spans, metrics, m)
     }
     else do {
       let remaining_spans = num_spans - int n;
       if remaining_spans > 0 then do {
         slots \<leftarrow> map_option snd (pbb_spans batch);
         c_assert (nat num_spans \<le> length slots);
         let rest = take (nat remaining_spans) (drop n slots);
         (ok, spans, m) \<leftarrow> jaeger_vector_init None SIZEOF_PTR spans m;
         (ok, spans, m) \<leftarrow> (if ok then jaeger_vector_reserve None spans remaining_spans m else Some (False, spans, m));
         if ok then do {
           (spans, m) \<leftarrow> append_remaining rest spans m;
           Some (True, batch, spans, metrics, m)
         }
         else do {
           m \<leftarrow> vector_for_each_destroy drop_span rest m;
           metrics \<leftarrow> reporter_inc reporter_dropped remaining_spans metrics;
           Some (True, batch, spans, metrics, m)
         }
       }
       else Some (True, batch, spans, metrics, m)
     }
   }"

text \<open>The queue length: the code increments the counter of dropped spans instead of updating the gauge.\<close>

definition remote_reporter_update_queue_length :: "jaeger_remote_reporter \<Rightarrow> jaeger_remote_reporter option" where
  "remote_reporter_update_queue_length r = do {
     metrics \<leftarrow> reporter_inc reporter_dropped 1 (rr_metrics r);
     Some (r\<lparr>rr_metrics := metrics\<rparr>)
   }"

definition remote_reporter_report ::
  "report_env \<Rightarrow> jaeger_remote_reporter \<Rightarrow> tracer_process option \<Rightarrow> jaeger_span option \<Rightarrow> mem \<Rightarrow>
   (jaeger_remote_reporter \<times> mem) option" where
  "remote_reporter_report renv r tracer sp m =
     (case sp of
        None \<Rightarrow> Some (r, m)
      | Some sp \<Rightarrow> do {
          c_assert (\<not> rr_locked r);
          n \<leftarrow> chk_int (jaeger_vector_length (rr_spans r) + 1);
          (ok, spans, m) \<leftarrow> jaeger_vector_reserve None (rr_spans r) n m;
          let r = r\<lparr>rr_spans := spans\<rparr>;
          if \<not> ok then Some (r, m)
          else
            (case jaeger_malloc (re_sizeof_span renv) m of
               (None, m) \<Rightarrow> Some (r, m)
             | (Some p, m) \<Rightarrow> do {
                 (ok, copy, m) \<leftarrow> jaeger_span_to_protobuf (re_env renv) sp m;
                 if \<not> ok then do {
                   (copy, m) \<leftarrow> jaeger_span_protobuf_destroy copy m;
                   m \<leftarrow> jaeger_free (Some p) m;
                   Some (r, m)
                 }
                 else do {
                   (slot, spans, m) \<leftarrow> jaeger_vector_append None (rr_spans r) m;
                   c_assert (slot \<noteq> None);
                   spans \<leftarrow> vec_write spans slot (Some (p, copy));
                   r \<leftarrow> remote_reporter_update_queue_length (r\<lparr>rr_spans := spans\<rparr>);
                   if (case pp_service_name (rr_process r) of None \<Rightarrow> True | Some name \<Rightarrow> snd name = []) then do {
                     (process, m) \<leftarrow> build_process renv (rr_process r) tracer m;
                     Some (r\<lparr>rr_process := process\<rparr>, m)
                   }
                   else Some (r, m)
                 }
               })
        })"

text \<open>The candidates are tried in order until one takes the whole packet and is an IPv4 address.\<close>

definition SIZEOF_SOCKADDR_IN :: nat where
  "SIZEOF_SOCKADDR_IN = 16"

fun try_candidates :: "sock_addr list \<Rightarrow> u8 list \<Rightarrow> net \<Rightarrow> sock_addr option \<times> net" where
  "try_candidates [] buffer net = (None, net)"
| "try_candidates (addr # rest) buffer net =
     (case sendto addr buffer net of
        (written, net) \<Rightarrow>
          if written = int (length buffer) \<and> length addr = SIZEOF_SOCKADDR_IN then (Some addr, net)
          else try_candidates rest buffer net)"

definition remote_reporter_write_to_socket ::
  "jaeger_remote_reporter \<Rightarrow> u8 list \<Rightarrow> net \<Rightarrow> (bool \<times> jaeger_remote_reporter \<times> net) option" where
  "remote_reporter_write_to_socket r buffer net = do {
     let (success, r, net) =
       (case rr_candidates r of
          Some candidates \<Rightarrow>
            (case try_candidates candidates buffer net of
               (None, net) \<Rightarrow> (False, r\<lparr>rr_candidates := None\<rparr>, net)
             | (Some addr, net) \<Rightarrow> (True, r\<lparr>rr_candidates := None, rr_addr := addr\<rparr>, net))
        | None \<Rightarrow>
            (case sendto (rr_addr r) buffer net of
               (written, net) \<Rightarrow> (written = int (length buffer), r, net)));
     metrics \<leftarrow> (if success then Some (rr_metrics r) else reporter_inc reporter_failure 1 (rr_metrics r));
     Some (success, r\<lparr>rr_metrics := metrics\<rparr>, net)
   }"

definition remote_reporter_flush_batch ::
  "report_env \<Rightarrow> jaeger_remote_reporter \<Rightarrow> net \<Rightarrow> mem \<Rightarrow> (bool \<times> jaeger_remote_reporter \<times> net \<times> mem) option" where
  "remote_reporter_flush_batch renv r net m = do {
     let num_spans = jaeger_vector_length (rr_spans r);
     c_assert (num_spans > 0);
     (ok, batch, spans, metrics, m) \<leftarrow>
       build_batch renv (rr_process r) (rr_spans r) (rr_max_packet_size r) (rr_metrics r) m;
     let r = r\<lparr>rr_spans := spans, rr_metrics := metrics\<rparr>;
     if \<not> ok then Some (False, r, net, m)
     else do {
       let packet = re_pack renv batch;
       c_assert (size_to_int (length packet) \<le> rr_max_packet_size r);
       (written, r, net) \<leftarrow> remote_reporter_write_to_socket r packet net;
       if written then do {
         (p, slots) \<leftarrow> pbb_spans batch;
         c_assert (pbb_n_spans batch \<le> length slots);
         m \<leftarrow> vector_for_each_destroy (dst_vector_alloc_free jaeger_span_protobuf_destroy) (take (pbb_n_spans batch) slots) m;
         m \<leftarrow> jaeger_free (Some p) m;
         metrics \<leftarrow> reporter_inc reporter_success (int (pbb_n_spans batch)) (rr_metrics r);
         r \<leftarrow> remote_reporter_update_queue_length (r\<lparr>rr_metrics := metrics\<rparr>);
         Some (True, r, net, m)
       }
       else do {
         m \<leftarrow> jaeger_free (map_option fst (vec_data (rr_spans r))) m;
         let r = r\<lparr>rr_spans := (rr_spans r)\<lparr>vec_data := pbb_spans batch, vec_len := num_spans\<rparr>\<rparr>;
         r \<leftarrow> remote_reporter_update_queue_length r;
         Some (False, r, net, m)
       }
     }
   }"

text \<open>The loop of \<open>remote_reporter_flush\<close>; not ending is \<open>None\<close>.\<close>

partial_function (option) flush_loop ::
  "report_env \<Rightarrow> jaeger_remote_reporter \<Rightarrow> net \<Rightarrow> mem \<Rightarrow> (bool \<times> jaeger_remote_reporter \<times> net \<times> mem) option" where
  "flush_loop renv r net m =
     (if jaeger_vector_length (rr_spans r) > 0
      then Option.bind (remote_reporter_flush_batch renv r net m)
             (\<lambda>(ok, r, net, m). if ok then flush_loop renv r net m else Some (False, r, net, m))
      else Some (True, r, net, m))"

definition remote_reporter_flush ::
  "report_env \<Rightarrow> jaeger_remote_reporter \<Rightarrow> net \<Rightarrow> mem \<Rightarrow> (bool \<times> jaeger_remote_reporter \<times> net \<times> mem) option" where
  "remote_reporter_flush renv r net m = do {
     c_assert (\<not> rr_locked r);
     flush_loop renv r net m
   }"

text \<open>\<open>close\<close> and \<open>freeaddrinfo\<close> release nothing of the modelled heap.\<close>

definition remote_reporter_destroy ::
  "report_env \<Rightarrow> jaeger_remote_reporter \<Rightarrow> net \<Rightarrow> mem \<Rightarrow> (jaeger_remote_reporter \<times> net \<times> mem) option" where
  "remote_reporter_destroy renv r net m = do {
     (ignored, r, net, m) \<leftarrow> remote_reporter_flush renv r net m;
     let r = r\<lparr>rr_fd := (if rr_fd r \<ge> 0 then - 1 else rr_fd r), rr_candidates := None\<rparr>;
     (process, m) \<leftarrow> process_destroy (rr_process r) m;
     m \<leftarrow> vec_for_each_destroy (dst_vector_alloc_free jaeger_span_protobuf_destroy) (rr_spans r) m;
     (spans, m) \<leftarrow> jaeger_vector_destroy (rr_spans r) m;
     Some (r\<lparr>rr_process := process, rr_spans := spans\<rparr>, net, m)
   }"

definition JAEGERTRACINGC_DEFAULT_UDP_SPAN_SERVER_HOST_PORT :: string where
  "JAEGERTRACINGC_DEFAULT_UDP_SPAN_SERVER_HOST_PORT = ''localhost:6831''"

definition JAEGERTRACINGC_DEFAULT_UDP_BUFFER_SIZE :: int where
  "JAEGERTRACINGC_DEFAULT_UDP_BUFFER_SIZE = USHRT_MAX"

definition SOCK_DGRAM :: int where
  "SOCK_DGRAM = 2"

text \<open>
  \<open>fd\<close> is the result of \<open>open_socket\<close>.  The cleanup calls \<open>remote_reporter_destroy\<close>, which calls the flush
  method through a pointer that has not been set: after a failure behind the first one there is no
  result.
\<close>

definition jaeger_remote_reporter_init ::
  "(string \<Rightarrow> string \<Rightarrow> int \<Rightarrow> sock_addr list option) \<Rightarrow> int \<Rightarrow> jaeger_remote_reporter \<Rightarrow> string option \<Rightarrow> int \<Rightarrow>
   jaeger_metrics option \<Rightarrow> mem \<Rightarrow> (bool \<times> jaeger_remote_reporter \<times> mem) option" where
  "jaeger_remote_reporter_init getaddrinfo fd r host_port_str max_packet_size metrics m =
     (if fd < 0 then Some (False, r, m)
      else do {
        (ok, spans, m) \<leftarrow> jaeger_vector_init None SIZEOF_PTR (rr_spans r) m;
        c_assert ok;
        let str = (if host_port_str = None \<or> host_port_str = Some [] then Some JAEGERTRACINGC_DEFAULT_UDP_SPAN_SERVER_HOST_PORT
                   else host_port_str);
        (ok, host_port, m) \<leftarrow> jaeger_host_port_scan JAEGERTRACINGC_HOST_PORT_INIT str m;
        c_assert ok;
        candidates \<leftarrow> jaeger_host_port_resolve getaddrinfo host_port SOCK_DGRAM;
        c_assert (candidates \<noteq> None);
        (host_port, m) \<leftarrow> jaeger_host_port_destroy host_port m;
        Some (True,
          \<lparr>rr_max_packet_size = (if max_packet_size > 0 then max_packet_size else JAEGERTRACINGC_DEFAULT_UDP_BUFFER_SIZE),
           rr_fd = fd, rr_metrics = metrics, rr_process = PB_PROCESS_INIT, rr_spans = spans,
           rr_candidates = candidates, rr_addr = replicate SIZEOF_SOCKADDR_IN 0, rr_locked = False\<rparr>, m)
      })"

section \<open>The queue of the remote reporter\<close>

interpretation pbspan: element_destroy jaeger_span_protobuf_destroy pb_span_ptrs pb_span_ok
  using env_one.pb_span_destroy_spec by unfold_locales

interpretation queued: element_destroy "dst_vector_alloc_free jaeger_span_protobuf_destroy" "slot_ptrs pb_span_ptrs" "slot_ok pb_span_ok"
  using pbspan.ptr_destroy by unfold_locales

definition queue_ptrs :: "span_slot jaeger_vector \<Rightarrow> ptr list" where
  "queue_ptrs v = vec_ptrs v @ queued.list_ptrs (vec_list v)"

text \<open>A queue in use: a well-formed vector of pointers to messages.\<close>

definition queue_ok :: "span_slot jaeger_vector \<Rightarrow> bool" where
  "queue_ok v \<longleftrightarrow> vec_ok v \<and> vec_type_size v = SIZEOF_PTR \<and> (\<forall>x\<in>set (vec_list v). x \<noteq> None \<and> slot_ok pb_span_ok x)"

definition messages :: "span_slot jaeger_vector \<Rightarrow> pb_span list" where
  "messages v = map (snd \<circ> the) (vec_list v)"

text \<open>
  What the reporter relies on of the generated code: the bytes of a batch are a function \<open>enc\<close> of the
  process and the first \<open>n_spans\<close> messages, the announced size is their number, and it fits into an \<open>int\<close>.
\<close>

definition batch_packing :: "report_env \<Rightarrow> (pb_process \<Rightarrow> pb_span list \<Rightarrow> u8 list) \<Rightarrow> bool" where
  "batch_packing renv enc \<longleftrightarrow>
     (\<forall>b p slots. pbb_spans b = Some (p, slots) \<longrightarrow> pbb_n_spans b \<le> length slots \<longrightarrow>
        re_pack renv b = enc (pbb_process b) (map (snd \<circ> the) (take (pbb_n_spans b) slots)) \<and>
        re_packed_size renv b = length (re_pack renv b)) \<and>
     (\<forall>p xs. length (enc p xs) < 2 ^ 31)"

lemma size_to_int_small: "n < 2 ^ 31 \<Longrightarrow> size_to_int n = int n"
  by (simp add: size_to_int_def signed_of_nat signed_take_bit_int_eq_self)

text \<open>The batch of the first \<open>j\<close> messages of a queue.\<close>

lemma pack_prefix:
  assumes "batch_packing renv enc" and "vec_ok v" and "j \<le> nat (vec_len v)"
    and "b = \<lparr>pbb_process = process, pbb_spans = vec_data v, pbb_n_spans = j\<rparr>"
  shows "re_pack renv b = enc process (take j (messages v))"
    and "size_to_int (re_packed_size renv b) = int (length (enc process (take j (messages v))))"
proof -
  from assms(2) obtain p slots where d: "vec_data v = Some (p, slots)" "length slots = nat (vec_capacity v)" "vec_len v \<le> vec_capacity v" by (rule vec_okE)
  have "map (snd \<circ> the) (take j slots) = take j (messages v)" using assms(3) d(1) by (simp add: messages_def vec_list_def take_map min_def)
  moreover have "j \<le> length slots" using assms(3) d by simp
  ultimately show "re_pack renv b = enc process (take j (messages v))"
    "size_to_int (re_packed_size renv b) = int (length (enc process (take j (messages v))))"
    using assms(1,4) d(1) size_to_int_small by (auto simp: batch_packing_def)
qed

lemma fit_loop_spec:
  shows "fit_loop f mx b n \<le> n"
    and "0 < fit_loop f mx b n \<Longrightarrow> size_to_int (f (b\<lparr>pbb_n_spans := fit_loop f mx b n\<rparr>)) \<le> mx"
    and "fit_loop f mx b n < j \<Longrightarrow> j \<le> n \<Longrightarrow> mx < size_to_int (f (b\<lparr>pbb_n_spans := j\<rparr>))"
  by (induction n) (auto simp: le_Suc_eq split: if_splits)

lemma append_remaining_spec:
  assumes "vec_ok v" and "vec_len v + int (length xs) \<le> vec_capacity v"
  shows "\<exists>v'. append_remaining xs v m = Some (v', m) \<and> vec_ok v' \<and> vec_ptrs v' = vec_ptrs v \<and>
    vec_list v' = vec_list v @ xs \<and> vec_type_size v' = vec_type_size v"
  using assms
proof (induction xs arbitrary: v)
  case (Cons x xs)
  have r: "vec_len v < vec_capacity v" using Cons.prems(2) by simp
  from vec_append_write [OF Cons.prems(1) r] obtain w where
    w: "vec_write (v\<lparr>vec_len := vec_len v + 1\<rparr>) (Some (nat (vec_len v))) x = Some w" "vec_ok w" "vec_ptrs w = vec_ptrs v"
    "vec_len w = vec_len v + 1" "vec_capacity w = vec_capacity v" "vec_list w = vec_list v @ [x]" "vec_type_size w = vec_type_size v" by metis
  from Cons.IH [OF w(2)] Cons.prems(2) w(4,5) obtain v' where
    "append_remaining xs w m = Some (v', m)" "vec_ok v'" "vec_ptrs v' = vec_ptrs w" "vec_list v' = vec_list w @ xs"
    "vec_type_size v' = vec_type_size w" by auto
  with vec_append_room [OF Cons.prems(1) r, of None m] w show ?case by simp
qed simp

text \<open>What \<open>build_batch\<close> leaves in the queue: nothing, not even a block, or the spans that did not fit.\<close>

definition rest_queue :: "span_slot jaeger_vector \<Rightarrow> nat \<Rightarrow> span_slot jaeger_vector \<Rightarrow> bool" where
  "rest_queue v k v' \<longleftrightarrow>
     (if vec_len v = int k then v' = v\<lparr>vec_len := 0, vec_data := None\<rparr>
      else vec_ok v' \<and> vec_type_size v' = SIZEOF_PTR \<and> vec_list v' = drop k (vec_list v))"

lemma build_batch_spec:
  assumes "queue_ok v" and "0 < vec_len v" and "mem_ok m" and "mem_plenty m"
    and "k = fit_loop (re_packed_size renv) mx \<lparr>pbb_process = process, pbb_spans = vec_data v, pbb_n_spans = nat (vec_len v)\<rparr> (nat (vec_len v))"
    and "0 < k" and "16 * vec_len v \<le> INT_MAX"
  shows "\<exists>v' m'. build_batch renv process v mx metrics m =
      Some (True, \<lparr>pbb_process = process, pbb_spans = vec_data v, pbb_n_spans = k\<rparr>, v', metrics, m') \<and>
    rest_queue v k v' \<and> mem_trans {} (set (vec_ptrs v')) m m'"
proof -
  have kn: "int k \<le> vec_len v" using fit_loop_spec(1) [of "re_packed_size renv" mx _ "nat (vec_len v)"] assms(2,5)
    by (metis int_nat_eq less_imp_le of_nat_mono)
  have vo: "vec_ok v" using assms(1) by (simp add: queue_ok_def)
  from vo obtain p slots where d: "vec_data v = Some (p, slots)" "length slots = nat (vec_capacity v)" "vec_len v \<le> vec_capacity v" by (rule vec_okE)
  show ?thesis
  proof (cases "vec_len v = int k")
    case True
    with assms(3,5,6) show ?thesis
      by (simp add: build_batch_def jaeger_vector_length_def rest_queue_def Let_def vec_ptrs_def flip: assms(5))
  next
    case False
    let ?e = "v\<lparr>vec_len := 0, vec_data := None\<rparr>"
    let ?rest = "take (nat (vec_len v - int k)) (drop k slots)"
    have rest: "?rest = drop k (vec_list v)" using d(1) kn by (simp add: vec_list_def drop_take nat_diff_distrib)
    have mg: "mem_good m" using assms(3,4) by (simp add: mem_good_def)
    have sz: "0 < SIZEOF_PTR" "SIZEOF_PTR * 10 \<le> INT_MAX" by (simp_all add: SIZEOF_PTR_def INT_MAX_def)
    from vec_init_good [OF mg sz, of None ?e] obtain v1 m1 where
      i: "jaeger_vector_init None SIZEOF_PTR ?e m = Some (True, v1, m1)" "vec_ok v1" "vec_len v1 = 0" "vec_type_size v1 = SIZEOF_PTR"
      "fresh_list (vec_ptrs v1) m m1" by metis
    have t1: "mem_trans {} (set (vec_ptrs v1)) m m1" using i(5) by (simp add: fresh_list_def)
    have b1: "set (vec_ptrs v1) \<subseteq> dom (mem_blocks m1)" "mem_ok m1" "mem_plenty m1"
      using mem_trans_dom [OF t1] mem_trans_ok [OF t1] mem_plenty_trans [OF t1] assms(4) by auto
    have rm: "vec_room v1 (vec_len v - int k)" using assms(2,7) by (simp add: vec_room_def i(4) SIZEOF_PTR_def)
    from vec_reserve_total [OF i(2) b1(2,1) rm, of None] obtain ok v2 m2 where
      r: "jaeger_vector_reserve None v1 (vec_len v - int k) m1 = Some (ok, v2, m2)" by blast
    have ok: ok by (rule vec_reserve_plenty [OF r b1(2,3)])
    note rs = vec_reserve_spec [OF r i(2) b1(2)]
    have len: "int (length ?rest) = vec_len v - int k" using length_vec_list [OF vo] kn unfolding rest by simp
    have e: "vec_list v2 = []" using length_vec_list [OF rs(1)] rs(3) i(3) by simp
    from append_remaining_spec [OF rs(1), of ?rest m2] rs(3,5) i(3) ok len obtain v3 where
      a: "append_remaining ?rest v2 m2 = Some (v3, m2)" "vec_ok v3" "vec_ptrs v3 = vec_ptrs v2" "vec_list v3 = ?rest"
      "vec_type_size v3 = vec_type_size v2" by (auto simp: e)
    have "build_batch renv process v mx metrics m =
        Some (True, \<lparr>pbb_process = process, pbb_spans = vec_data v, pbb_n_spans = k\<rparr>, v3, metrics, m2)"
      using False kn d i(1) r ok a(1) assms(2,6) unfolding build_batch_def jaeger_vector_length_def Let_def
      by (simp flip: assms(5) [unfolded d(1)])
    moreover have "rest_queue v k v3" using False a(2,4,5) rest rs(4) i(4) by (simp add: rest_queue_def)
    moreover have "mem_trans {} (set (vec_ptrs v3)) m m2" using mem_trans_trans [OF t1 rs(7) [OF b1(1)] assms(3)] a(3) by simp
    ultimately show ?thesis by blast
  qed
qed

section \<open>Counting and sending\<close>

definition counted :: "jaeger_metrics option \<Rightarrow> counter_name \<Rightarrow> int \<Rightarrow> bool" where
  "counted mts name t \<longleftrightarrow> (\<exists>mt p. mts = Some mt \<and> mt_counters mt name = Some (Default_counter p t))"

text \<open>The reporter has no metrics, or metrics with every counter.\<close>

definition metrics_full :: "jaeger_metrics option \<Rightarrow> bool" where
  "metrics_full mts \<longleftrightarrow> (\<forall>mt name. mts = Some mt \<longrightarrow> mt_counters mt name \<noteq> None)"

lemma reporter_inc_spec:
  assumes "metrics_full mts"
  shows "\<exists>mts'. reporter_inc name d mts = Some mts' \<and> metrics_full mts' \<and>
    (\<forall>n t. counted mts n t \<longrightarrow> counted mts' n (if n = name then wrap_int64 (t + d) else t))"
proof (cases mts)
  case None
  then show ?thesis by (simp add: reporter_inc_def metrics_full_def counted_def)
next
  case (Some mt)
  with assms obtain c where "mt_counters mt name = Some c" by (auto simp: metrics_full_def)
  with assms Some show ?thesis
    by (auto simp: reporter_inc_def metrics_inc_def metrics_full_def counted_def counter_inc_def jaeger_default_counter_inc_def)
qed

lemma wrap_int64_add: "wrap_int64 (wrap_int64 a + b) = wrap_int64 (a + b)"
  by (simp add: wrap_int64_def)

text \<open>A network that takes every packet, and the address the reporter sends to.\<close>

definition net_up :: "net \<Rightarrow> bool" where
  "net_up net \<longleftrightarrow> (\<forall>log addr buffer. net_sendto net log addr buffer = int (length buffer))"

definition target :: "jaeger_remote_reporter \<Rightarrow> sock_addr \<Rightarrow> bool" where
  "target r a \<longleftrightarrow> rr_candidates r = None \<and> rr_addr r = a \<or>
     (\<exists>cs. rr_candidates r = Some (a # cs) \<and> length a = SIZEOF_SOCKADDR_IN)"

lemma write_spec:
  assumes "net_up net" and "target r a"
  shows "remote_reporter_write_to_socket r buffer net =
    Some (True, r\<lparr>rr_candidates := None, rr_addr := a\<rparr>, net\<lparr>net_log := net_log net @ [(a, buffer)]\<rparr>)"
  using assms by (auto simp: remote_reporter_write_to_socket_def target_def net_up_def sendto_def)

lemma release_sent:
  assumes "mem_ok m" and "owns m ([p] @ A @ B)" and "mem_trans {} (set V) m m1" and "distinct V"
    and "mem_trans (set A) {} m1 m2" and "mem_trans {p} {} m2 m3"
  shows "mem_trans (set ([p] @ A @ B)) (set (V @ B)) m m3" and "distinct (V @ B)"
proof -
  have o: "p \<in> dom (mem_blocks m)" "set A \<subseteq> dom (mem_blocks m)" "set B \<subseteq> dom (mem_blocks m)"
    "p \<notin> set A" "p \<notin> set B" "set A \<inter> set B = {}" "distinct B" using assms(2) by (auto simp: owns_def)
  have v: "set V \<inter> dom (mem_blocks m) = {}" "dom (mem_blocks m1) = dom (mem_blocks m) \<union> set V"
    using mem_trans_disj [OF assms(3)] mem_trans_dom [OF assms(3)] by auto
  have "mem_trans (set A \<union> {p}) {} m1 m3"
    by (rule mem_trans_release [OF assms(5,6)]) (use o v mem_trans_ok [OF assms(3)] in auto)
  moreover have "set (V @ B) \<subseteq> dom (mem_blocks m1)" "set (V @ B) \<inter> (set A \<union> {p}) = {}" using o v by auto
  ultimately have "mem_trans (set A \<union> {p} \<union> set (V @ B)) ({} \<union> set (V @ B)) m1 m3" by (rule mem_trans_frame)
  then have "mem_trans (set A \<union> {p} \<union> set (V @ B)) (set (V @ B)) m1 m3" by simp
  moreover have "mem_trans (set ([p] @ A @ B)) (set A \<union> {p} \<union> set (V @ B)) m m1"
    using mem_trans_frame [OF assms(3), of "set ([p] @ A @ B)"] o by (simp add: ac_simps insert_commute Un_commute)
  ultimately show "mem_trans (set ([p] @ A @ B)) (set (V @ B)) m m3" using mem_trans_trans assms(1) by blast
  show "distinct (V @ B)" using o v assms(4) by auto
qed

section \<open>Flushing\<close>

text \<open>The reporter can be flushed to the address \<open>a\<close> on a network that is up, and every span fits into a packet.\<close>

definition flushable :: "report_env \<Rightarrow> (pb_process \<Rightarrow> pb_span list \<Rightarrow> u8 list) \<Rightarrow> sock_addr \<Rightarrow> jaeger_remote_reporter \<Rightarrow> bool" where
  "flushable renv enc a r \<longleftrightarrow> batch_packing renv enc \<and> target r a \<and> metrics_full (rr_metrics r) \<and> 16 * vec_len (rr_spans r) \<le> INT_MAX \<and>
     (\<forall>x\<in>set (messages (rr_spans r)). int (length (enc (rr_process r) [x])) \<le> rr_max_packet_size r)"

lemma flush_batch_spec:
  assumes f: "flushable renv enc a r" and q: "queue_ok (rr_spans r)" "0 < vec_len (rr_spans r)" and n: "net_up net"
    and m: "mem_ok m" "mem_plenty m" "owns m (queue_ptrs (rr_spans r))"
  shows "\<exists>k r' m'. 0 < k \<and> k \<le> length (messages (rr_spans r)) \<and>
    remote_reporter_flush_batch renv r net m =
      Some (True, r', net\<lparr>net_log := net_log net @ [(a, enc (rr_process r) (take k (messages (rr_spans r))))]\<rparr>, m') \<and>
    int (length (enc (rr_process r) (take k (messages (rr_spans r))))) \<le> rr_max_packet_size r \<and>
    rest_queue (rr_spans r) k (rr_spans r') \<and> target r' a \<and> metrics_full (rr_metrics r') \<and> rr_process r' = rr_process r \<and>
    rr_max_packet_size r' = rr_max_packet_size r \<and> rr_locked r' = rr_locked r \<and>
    (\<forall>t. counted (rr_metrics r) reporter_success t \<longrightarrow> counted (rr_metrics r') reporter_success (wrap_int64 (t + int k))) \<and>
    (\<forall>t. counted (rr_metrics r) reporter_dropped t \<longrightarrow> counted (rr_metrics r') reporter_dropped (wrap_int64 (t + 1))) \<and>
    mem_trans (set (queue_ptrs (rr_spans r))) (set (queue_ptrs (rr_spans r'))) m m' \<and> distinct (queue_ptrs (rr_spans r'))"
proof -
  let ?v = "rr_spans r" and ?b = "\<lparr>pbb_process = rr_process r, pbb_spans = vec_data (rr_spans r), pbb_n_spans = nat (vec_len (rr_spans r))\<rparr>"
  define k where "k = fit_loop (re_packed_size renv) (rr_max_packet_size r) ?b (nat (vec_len ?v))"
  have vo: "vec_ok ?v" using q(1) by (simp add: queue_ok_def)
  from vo obtain p slots where d: "vec_data ?v = Some (p, slots)" "length slots = nat (vec_capacity ?v)" "vec_len ?v \<le> vec_capacity ?v" by (rule vec_okE)
  have vl: "vec_list ?v = take (nat (vec_len ?v)) slots" "length (vec_list ?v) = nat (vec_len ?v)"
    using d length_vec_list [OF vo] by (auto simp: vec_list_def)
  have pack: "re_pack renv (?b\<lparr>pbb_n_spans := j\<rparr>) = enc (rr_process r) (take j (messages ?v))"
    "size_to_int (re_packed_size renv (?b\<lparr>pbb_n_spans := j\<rparr>)) = int (length (enc (rr_process r) (take j (messages ?v))))"
    if "j \<le> nat (vec_len ?v)" for j
    using pack_prefix [OF _ vo that refl] f by (auto simp: flushable_def)
  have k: "0 < k" "k \<le> nat (vec_len ?v)"
  proof -
    have one: "1 \<le> nat (vec_len ?v)" using q(2) by simp
    then obtain x xs where "messages ?v = x # xs" using vl(2) by (cases "messages ?v") (auto simp: messages_def)
    with f have "int (length (enc (rr_process r) (take 1 (messages ?v)))) \<le> rr_max_packet_size r" by (auto simp: flushable_def)
    with pack(2) [OF one] fit_loop_spec(3) [of "re_packed_size renv" "rr_max_packet_size r" ?b "nat (vec_len ?v)" 1] one
    show "0 < k" by (fastforce simp: k_def)
    show "k \<le> nat (vec_len ?v)" unfolding k_def by (rule fit_loop_spec(1))
  qed
  have size: "int (length (enc (rr_process r) (take k (messages ?v)))) \<le> rr_max_packet_size r"
    using fit_loop_spec(2) [of "re_packed_size renv" "rr_max_packet_size r" ?b "nat (vec_len ?v)"] pack(2) [OF k(2)] k(1) by (simp add: k_def)
  from build_batch_spec [OF q m(1,2) k_def k(1), where metrics = "rr_metrics r"] f obtain v' m1 where
    bb: "build_batch renv (rr_process r) ?v (rr_max_packet_size r) (rr_metrics r) m =
      Some (True, \<lparr>pbb_process = rr_process r, pbb_spans = vec_data ?v, pbb_n_spans = k\<rparr>, v', rr_metrics r, m1)"
    "rest_queue ?v k v'" "mem_trans {} (set (vec_ptrs v')) m m1" by (auto simp: flushable_def)
  let ?A = "queued.list_ptrs (take k (vec_list ?v))" and ?B = "queued.list_ptrs (drop k (vec_list ?v))"
  have AB: "queue_ptrs ?v = [p] @ ?A @ ?B"
    by (simp add: queue_ptrs_def vec_ptrs_def d(1) queued.list_ptrs_def flip: map_append concat_append)
  have tk: "take k slots = take k (vec_list ?v)" using k(2) by (simp add: vl(1) min_def)
  have el: "\<forall>x\<in>set (take k (vec_list ?v)). slot_ok pb_span_ok x" using q(1) by (auto simp: queue_ok_def dest: in_set_takeD)
  have "owns m1 ?A" using owns_frame(1) [OF bb(3)] m(3) unfolding AB by (auto simp: own_simps)
  from queued.for_each_destroy [OF mem_trans_ok [OF bb(3)] this el] obtain m2 where
    fe: "vector_for_each_destroy (dst_vector_alloc_free jaeger_span_protobuf_destroy) (take k (vec_list ?v)) m1 = Some m2"
    "mem_trans (set ?A) {} m1 m2" by blast
  have "p \<in> dom (mem_blocks m2)"
    using mem_trans_dom [OF fe(2)] mem_trans_dom [OF bb(3)] m(3) unfolding AB by (auto simp: owns_def)
  from jaeger_free_live [OF mem_trans_ok [OF fe(2)] this] obtain m3 where fr: "jaeger_free (Some p) m2 = Some m3" "mem_trans {p} {} m2 m3" .
  have "distinct (vec_ptrs v')" by (auto simp: vec_ptrs_def split: option.split)
  note rel = release_sent [OF m(1) m(3) [unfolded AB] bb(3) this fe(2) fr(2)]
  have qp: "queue_ptrs v' = vec_ptrs v' @ ?B"
    using bb(2) vl(2) k(2) q(2) by (auto simp: rest_queue_def queue_ptrs_def vec_list_def queued.list_ptrs_def split: if_splits)
  define r1 where "r1 = r\<lparr>rr_spans := v', rr_candidates := None, rr_addr := a\<rparr>"
  have mf: "metrics_full (rr_metrics r1)" using f by (simp add: r1_def flushable_def)
  from reporter_inc_spec [OF mf, of reporter_success "int k"] obtain ms1 where
    c1: "reporter_inc reporter_success (int k) (rr_metrics r1) = Some ms1" "metrics_full ms1"
    "\<forall>n t. counted (rr_metrics r1) n t \<longrightarrow> counted ms1 n (if n = reporter_success then wrap_int64 (t + int k) else t)" by blast
  from reporter_inc_spec [OF c1(2), of reporter_dropped 1] obtain ms2 where
    c2: "reporter_inc reporter_dropped 1 ms1 = Some ms2" "metrics_full ms2"
    "\<forall>n t. counted ms1 n t \<longrightarrow> counted ms2 n (if n = reporter_dropped then wrap_int64 (t + 1) else t)" by blast
  let ?net = "net\<lparr>net_log := net_log net @ [(a, enc (rr_process r) (take k (messages ?v)))]\<rparr>"
  have tg: "target (r\<lparr>rr_spans := v'\<rparr>) a" using f by (simp add: flushable_def target_def)
  have pk: "re_pack renv \<lparr>pbb_process = rr_process r, pbb_spans = Some (p, slots), pbb_n_spans = k\<rparr> = enc (rr_process r) (take k (messages ?v))"
    using pack(1) [OF k(2)] by (simp add: d(1))
  have sz: "size_to_int (length (enc (rr_process r) (take k (messages ?v)))) \<le> rr_max_packet_size r"
    using size f size_to_int_small by (auto simp: flushable_def batch_packing_def)
  have run: "remote_reporter_flush_batch renv r net m = Some (True, r1\<lparr>rr_metrics := ms2\<rparr>, ?net, m3)"
    using bb(1) q(2) k(2) d sz write_spec [OF n tg] fe(1) fr(1) c1(1) c2(1) tk pk
    by (simp add: remote_reporter_flush_batch_def jaeger_vector_length_def remote_reporter_update_queue_length_def r1_def)
  have len: "k \<le> length (messages ?v)" using k(2) vl(2) by (simp add: messages_def)
  have cnt: "\<forall>t. counted (rr_metrics r) reporter_success t \<longrightarrow> counted ms2 reporter_success (wrap_int64 (t + int k))"
    "\<forall>t. counted (rr_metrics r) reporter_dropped t \<longrightarrow> counted ms2 reporter_dropped (wrap_int64 (t + 1))"
    using c1(3) c2(3) by (fastforce simp: r1_def)+
  show ?thesis
    by (intro exI [of _ k] exI [of _ "r1\<lparr>rr_metrics := ms2\<rparr>"] exI [of _ m3] conjI k(1) len run size)
      (use bb(2) c2(2) cnt rel qp AB in \<open>simp_all add: r1_def target_def\<close>)
qed

lemma rest_queue_some:
  assumes "rest_queue v k v'" and "vec_len v \<noteq> int k" and "queue_ok v"
  shows "queue_ok v'" and "messages v' = drop k (messages v)" and "vec_len v' = int (length (messages v) - k)"
proof -
  have r: "vec_ok v'" "vec_type_size v' = SIZEOF_PTR" "vec_list v' = drop k (vec_list v)" using assms(1,2) by (auto simp: rest_queue_def)
  then show "queue_ok v'" using assms(3) by (auto simp: queue_ok_def dest: in_set_dropD)
  show "messages v' = drop k (messages v)" using r(3) by (simp add: messages_def drop_map)
  show "vec_len v' = int (length (messages v) - k)" using length_vec_list [OF r(1)] r(3) by (simp add: messages_def)
qed

lemma flush_loop_spec:
  assumes "flushable renv enc a r" and "queue_ok (rr_spans r)" and "0 < vec_len (rr_spans r)" and "net_up net"
    and "mem_ok m" and "mem_plenty m" and "owns m (queue_ptrs (rr_spans r))"
  shows "\<exists>groups r' m'. flush_loop renv r net m =
      Some (True, r', net\<lparr>net_log := net_log net @ map (\<lambda>g. (a, enc (rr_process r) g)) groups\<rparr>, m') \<and>
    concat groups = messages (rr_spans r) \<and>
    (\<forall>g\<in>set groups. g \<noteq> [] \<and> int (length (enc (rr_process r) g)) \<le> rr_max_packet_size r) \<and>
    vec_len (rr_spans r') = 0 \<and> vec_data (rr_spans r') = None \<and> 0 < vec_capacity (rr_spans r') \<and> rr_locked r' = rr_locked r \<and>
    (\<forall>t. counted (rr_metrics r) reporter_success t \<longrightarrow>
      counted (rr_metrics r') reporter_success (wrap_int64 (t + int (length (messages (rr_spans r)))))) \<and>
    (\<forall>t. counted (rr_metrics r) reporter_dropped t \<longrightarrow>
      counted (rr_metrics r') reporter_dropped (wrap_int64 (t + int (length groups)))) \<and>
    mem_trans (set (queue_ptrs (rr_spans r))) {} m m'"
  using assms
proof (induction "nat (vec_len (rr_spans r))" arbitrary: r net m rule: less_induct)
  case less
  let ?v = "rr_spans r" and ?M = "messages (rr_spans r)" and ?P = "rr_process r"
  from flush_batch_spec [OF less.prems] obtain k r1 m1 where
    b: "0 < k" "k \<le> length ?M"
    "remote_reporter_flush_batch renv r net m = Some (True, r1, net\<lparr>net_log := net_log net @ [(a, enc ?P (take k ?M))]\<rparr>, m1)"
    "int (length (enc ?P (take k ?M))) \<le> rr_max_packet_size r" "rest_queue ?v k (rr_spans r1)" "target r1 a" "metrics_full (rr_metrics r1)"
    "rr_process r1 = ?P" "rr_max_packet_size r1 = rr_max_packet_size r" "rr_locked r1 = rr_locked r"
    "\<forall>t. counted (rr_metrics r) reporter_success t \<longrightarrow> counted (rr_metrics r1) reporter_success (wrap_int64 (t + int k))"
    "\<forall>t. counted (rr_metrics r) reporter_dropped t \<longrightarrow> counted (rr_metrics r1) reporter_dropped (wrap_int64 (t + 1))"
    "mem_trans (set (queue_ptrs ?v)) (set (queue_ptrs (rr_spans r1))) m m1" "distinct (queue_ptrs (rr_spans r1))" by blast
  let ?net = "net\<lparr>net_log := net_log net @ [(a, enc ?P (take k ?M))]\<rparr>"
  have vo: "vec_ok ?v" using less.prems(2) by (simp add: queue_ok_def)
  have len: "int (length ?M) = vec_len ?v" using length_vec_list [OF vo] by (simp add: messages_def)
  have step: "flush_loop renv r net m = flush_loop renv r1 ?net m1"
    using less.prems(3) b(3) by (subst flush_loop.simps) (simp add: jaeger_vector_length_def)
  have ne: "take k ?M \<noteq> []" using b(1,2) by (cases ?M) auto
  show ?case
  proof (cases "vec_len ?v = int k")
    case True
    then have v1: "rr_spans r1 = ?v\<lparr>vec_len := 0, vec_data := None\<rparr>" using b(5) by (simp add: rest_queue_def)
    then have e: "queue_ptrs (rr_spans r1) = []" by (simp add: queue_ptrs_def vec_ptrs_def vec_list_def queued.list_ptrs_def)
    have fin: "flush_loop renv r1 ?net m1 = Some (True, r1, ?net, m1)" by (subst flush_loop.simps) (simp add: jaeger_vector_length_def v1)
    have cap: "0 < vec_capacity ?v" using vo by (simp add: vec_ok_def)
    have all: "take k ?M = ?M" using True len by simp
    show ?thesis
      by (intro exI [of _ "[?M]"] exI [of _ r1] exI [of _ m1])
        (use b(4,10-13) fin step all True len ne e cap v1 in simp)
  next
    case False
    note rq = rest_queue_some [OF b(5) False less.prems(2)]
    have l1: "0 < vec_len (rr_spans r1)" "nat (vec_len (rr_spans r1)) < nat (vec_len ?v)" using rq(3) False b(1,2) len by auto
    have fl: "flushable renv enc a r1" using less.prems(1) b(6-9) rq len l1(2) by (auto simp: flushable_def dest: in_set_dropD)
    have ow: "owns m1 (queue_ptrs (rr_spans r1))" by (rule owns_trans [OF b(13,14)])
    have up: "net_up ?net" using less.prems(4) by (simp add: net_up_def)
    have m1: "mem_ok m1" "mem_plenty m1" using mem_trans_ok [OF b(13)] mem_plenty_trans [OF b(13)] less.prems(6) by auto
    from less.hyps [OF l1(2) fl rq(1) l1(1) up m1 ow] obtain groups r2 m2 where
      ih: "flush_loop renv r1 ?net m1 = Some (True, r2, ?net\<lparr>net_log := net_log ?net @ map (\<lambda>g. (a, enc (rr_process r1) g)) groups\<rparr>, m2)"
      "concat groups = messages (rr_spans r1)"
      "\<forall>g\<in>set groups. g \<noteq> [] \<and> int (length (enc (rr_process r1) g)) \<le> rr_max_packet_size r1"
      "vec_len (rr_spans r2) = 0" "vec_data (rr_spans r2) = None" "0 < vec_capacity (rr_spans r2)" "rr_locked r2 = rr_locked r1"
      "\<forall>t. counted (rr_metrics r1) reporter_success t \<longrightarrow>
        counted (rr_metrics r2) reporter_success (wrap_int64 (t + int (length (messages (rr_spans r1)))))"
      "\<forall>t. counted (rr_metrics r1) reporter_dropped t \<longrightarrow> counted (rr_metrics r2) reporter_dropped (wrap_int64 (t + int (length groups)))"
      "mem_trans (set (queue_ptrs (rr_spans r1))) {} m1 m2" by blast
    have lm: "int k + int (length (messages (rr_spans r1))) = int (length ?M)" using rq(2) b(2) by simp
    have c1: "counted (rr_metrics r2) reporter_success (wrap_int64 (t + int (length ?M)))" if "counted (rr_metrics r) reporter_success t" for t
      using ih(8) b(11) that wrap_int64_add [of "t + int k"] lm by (metis add.assoc)
    have c2: "counted (rr_metrics r2) reporter_dropped (wrap_int64 (t + int (length (take k ?M # groups))))"
      if "counted (rr_metrics r) reporter_dropped t" for t
    proof -
      have "counted (rr_metrics r2) reporter_dropped (wrap_int64 (wrap_int64 (t + 1) + int (length groups)))" using ih(9) b(12) that by blast
      then show ?thesis by (simp add: wrap_int64_add add.assoc)
    qed
    have "mem_trans (set (queue_ptrs ?v)) {} m m2" by (rule mem_trans_trans [OF b(13) ih(10) less.prems(5)])
    with c1 c2 ih(1-7) step b(4,8-10) ne rq(2) show ?thesis
      by (intro exI [of _ "take k ?M # groups"] exI [of _ r2] exI [of _ m2]) simp
  qed
qed

text \<open>A reporter whose queue has neither spans nor a block, as a flush leaves it, cannot take another span.\<close>

lemma report_drained:
  assumes "vec_len (rr_spans r) = 0" and "vec_data (rr_spans r) = None" and "0 < vec_capacity (rr_spans r)"
    and "tag_blank (env_tag_init (re_env renv))" and "span_src_ok (re_env renv) sp" and "mem_ok m" and "mem_plenty m"
  shows "remote_reporter_report renv r tracer (Some sp) m = None"
proof (cases "rr_locked r")
  case False
  have v: "jaeger_vector_reserve None (rr_spans r) 1 m = Some (True, rr_spans r, m)" using assms(3) by (simp add: jaeger_vector_reserve_def)
  from malloc_served [OF assms(6), of "re_sizeof_span renv"] assms(7) obtain m1 where
    a: "jaeger_malloc (re_sizeof_span renv) m = (Some (mem_next m), m1)" "mem_trans {} {mem_next m} m m1" by (auto simp: mem_plenty_def)
  have m1: "mem_ok m1" "mem_plenty m1" using mem_trans_ok [OF a(2)] mem_plenty_trans [OF a(2)] assms(7) by auto
  have se: "span_env (re_env renv)" using assms(4) by unfold_locales
  from span_env.to_protobuf_spec [OF se m1(1) assms(5)] m1(2) obtain d m2 where
    c: "jaeger_span_to_protobuf (re_env renv) sp m1 = Some (True, d, m2)" by (auto simp: mem_plenty_def split: if_splits)
  have ap: "jaeger_vector_append None (rr_spans r) m2 = Some (None, (rr_spans r)\<lparr>vec_len := 1\<rparr>, m2)"
    using assms(1-3) by (simp add: jaeger_vector_append_def jaeger_vector_insert_def jaeger_vector_extend_def jaeger_vector_length_def
        jaeger_vector_offset_def int_ok_def INT_MAX_def)
  show ?thesis using False v a(1) c ap assms(1) by (simp add: remote_reporter_report_def jaeger_vector_length_def int_ok_def INT_MAX_def)
qed (simp add: remote_reporter_report_def)

section \<open>Reporting\<close>

definition process_ptrs :: "pb_process \<Rightarrow> ptr list" where
  "process_ptrs p = cs_ptrs (pp_service_name p) @ array_ptrs tag_ptrs (pp_tags p) (pp_n_tags p)"

definition service_known :: "pb_process \<Rightarrow> bool" where
  "service_known p \<longleftrightarrow> (case pp_service_name p of None \<Rightarrow> False | Some name \<Rightarrow> snd name \<noteq> [])"

text \<open>The tracer that a first span tells the reporter about: a service name and tags that can be copied.\<close>

definition tracer_ok :: "tracer_process \<Rightarrow> bool" where
  "tracer_ok t \<longleftrightarrow> (\<exists>p name. tr_service_name t = Some (p, name) \<and> name \<noteq> []) \<and> vec_ok (tr_tags t) \<and>
     (\<forall>x\<in>set (vec_list (tr_tags t)). tag_src_ok x) \<and> vec_len (tr_tags t) * 16 \<le> INT_MAX"

definition process_same :: "tracer_process \<Rightarrow> pb_process \<Rightarrow> bool" where
  "process_same t p \<longleftrightarrow> map_option snd (pp_service_name p) = map_option snd (tr_service_name t) \<and>
     (\<exists>ts. array_elems (pp_tags p) (pp_n_tags p) = Some ts \<and> list_all2 (slot_same tag_same) (vec_list (tr_tags t)) ts)"

context span_env
begin

lemma build_process_spec:
  assumes "re_env renv = env" and "tracer_ok t" and "pp_tags p = None" and "pp_n_tags p = 0" and "mem_ok m" and "mem_plenty m"
  shows "\<exists>p' m'. build_process renv p (Some t) m = Some (p', m') \<and> process_same t p' \<and> service_known p' \<and>
    fresh_list (process_ptrs p') m m'"
proof -
  from assms(2) obtain b name where n: "tr_service_name t = Some (b, name)" "name \<noteq> []" by (auto simp: tracer_ok_def)
  from strdup_good [OF assms(5,6), of name] obtain q m1 where
    q: "jaeger_strdup (Some name) m = Some (Some q, m1)" "snd q = name" "fresh_list [fst q] m m1" .
  have m1: "mem_ok m1" "mem_plenty m1" using fresh_listD [OF q(3)] assms(6) by auto
  have src: "vec_ok (tr_tags t)" "\<forall>x\<in>set (vec_list (tr_tags t)). tag_src_ok x" "vec_len (tr_tags t) * 16 \<le> INT_MAX"
    using assms(2) by (auto simp: tracer_ok_def)
  from tag.copy_array_empty [OF src(1,2) m1(1) src(3)] obtain ok arr k m2 where
    c: "jaeger_vector_protobuf_copy (None, 0) (tr_tags t) (nat SIZEOF_TAG) TAG_ZERO (\<lambda>old. jaeger_tag_copy (env_tag_init env))
      jaeger_tag_destroy m1 = Some (ok, (arr, k), m2)"
    "array_post tag_same (\<lambda>_. True) tag_ptrs (vec_list (tr_tags t)) ok arr k m1 m2" .
  have ok: ok using c(2) m1(2) by (auto simp: array_post_def split: if_splits)
  let ?p = "p\<lparr>pp_service_name := Some q, pp_tags := arr, pp_n_tags := k\<rparr>"
  have f2: "fresh_list (array_ptrs tag_ptrs arr k) m1 m2" using c(2) by (simp add: array_post_def fresh_list_def)
  have "build_process renv p (Some t) m = Some (?p, m2)"
    using n q(1,2) c(1) ok assms(1,3,4) by (simp add: build_process_def)
  moreover have "process_same t ?p" using n q(2) c(2) ok by (auto simp: process_same_def array_post_def)
  moreover have "service_known ?p" using n q(2) by (simp add: service_known_def)
  moreover have "fresh_list (process_ptrs ?p) m m2" using fresh_list_append [OF q(3) f2 assms(5)] by (simp add: process_ptrs_def)
  ultimately show ?thesis by blast
qed

text \<open>Making the message and storing its pointer in the queue.\<close>

lemma report_message:
  assumes "re_env renv = env" and "queue_ok v" and "span_src_ok env sp" and "mem_ok m" and "mem_plenty m"
    and "owns m (queue_ptrs v)" and "16 * (vec_len v + 1) \<le> INT_MAX"
  obtains v1 m1 p m2 d m3 w where "jaeger_vector_reserve None v (vec_len v + 1) m = Some (True, v1, m1)"
    and "jaeger_malloc (re_sizeof_span renv) m1 = (Some p, m2)" and "jaeger_span_to_protobuf env sp m2 = Some (True, d, m3)"
    and "jaeger_vector_append None v1 m3 = Some (Some (nat (vec_len v)), v1\<lparr>vec_len := vec_len v + 1\<rparr>, m3)"
    and "vec_write (v1\<lparr>vec_len := vec_len v + 1\<rparr>) (Some (nat (vec_len v))) (Some (p, d)) = Some w"
    and "queue_ok w" and "vec_list w = vec_list v @ [Some (p, d)]" and "pb_span_same sp d"
    and "mem_trans (set (queue_ptrs v)) (set (queue_ptrs w)) m m3" and "distinct (queue_ptrs w)"
proof -
  have v: "vec_ok v" "vec_type_size v = SIZEOF_PTR" using assms(2) by (auto simp: queue_ok_def)
  have b: "set (vec_ptrs v) \<subseteq> dom (mem_blocks m)" using assms(6) by (auto simp: queue_ptrs_def owns_def)
  have l0: "0 \<le> vec_len v" using v(1) by (simp add: vec_ok_def)
  have rm: "vec_room v (vec_len v + 1)" using assms(7) l0 by (simp add: vec_room_def v(2) SIZEOF_PTR_def)
  from vec_reserve_total [OF v(1) assms(4) b rm, of None] obtain ok v1 m1 where
    r: "jaeger_vector_reserve None v (vec_len v + 1) m = Some (ok, v1, m1)" by blast
  have ok: ok by (rule vec_reserve_plenty [OF r assms(4,5)])
  note rs = vec_reserve_spec [OF r v(1) assms(4)] and t1 = vec_reserve_spec(7) [OF r v(1) assms(4) b]
  have m1: "mem_ok m1" "mem_plenty m1" using mem_trans_ok [OF t1] mem_plenty_trans [OF t1] assms(5) by auto
  from malloc_plenty [OF m1, of "re_sizeof_span renv"] obtain p m2 where
    a: "jaeger_malloc (re_sizeof_span renv) m1 = (Some p, m2)" "fresh_list [p] m1 m2" .
  have m2: "mem_ok m2" "mem_plenty m2" using fresh_listD [OF a(2)] m1(2) by auto
  from to_protobuf_spec [OF m2(1) assms(3)] m2(2) obtain d m3 where
    c: "jaeger_span_to_protobuf env sp m2 = Some (True, d, m3)" "pb_span_same sp d" "pb_span_ok d" "fresh_list (pb_span_ptrs d) m2 m3"
    by (auto simp: mem_plenty_def fresh_list_def split: if_splits)
  have room: "vec_len v1 < vec_capacity v1" using rs(3,5) ok by simp
  from vec_append_write [OF rs(1) room] obtain w where
    w: "vec_write (v1\<lparr>vec_len := vec_len v1 + 1\<rparr>) (Some (nat (vec_len v1))) (Some (p, d)) = Some w" "vec_ok w" "vec_ptrs w = vec_ptrs v1"
    "vec_list w = vec_list v1 @ [Some (p, d)]" "vec_type_size w = vec_type_size v1" by metis
  have qw: "queue_ok w" using w(2,4,5) rs(2,4) v(2) c(3) assms(2) by (auto simp: queue_ok_def slot_ok_def)
  have f: "fresh_list (p # pb_span_ptrs d) m1 m3" using fresh_list_append [OF a(2) c(4) m1(1)] by simp
  let ?L = "queued.list_ptrs (vec_list v)"
  have o: "set ?L \<subseteq> dom (mem_blocks m)" "set ?L \<inter> set (vec_ptrs v) = {}" "distinct ?L" using assms(6) by (auto simp: queue_ptrs_def owns_def)
  have t1': "mem_trans (set (queue_ptrs v)) (set (vec_ptrs v1 @ ?L)) m m1" using mem_trans_frame [OF t1 o(1,2)] by (simp add: queue_ptrs_def)
  have d1: "distinct (vec_ptrs v1 @ ?L)" using mem_trans_disj [OF t1] o by auto
  have qp: "queue_ptrs w = (vec_ptrs v1 @ ?L) @ p # pb_span_ptrs d"
    using w(3,4) rs(2) by (simp add: queue_ptrs_def queued.list_ptrs_def slot_ptrs_def)
  have sub: "set (vec_ptrs v1 @ ?L) \<subseteq> dom (mem_blocks m1)" using mem_trans_dom [OF t1'] by blast
  have t2: "mem_trans (set (vec_ptrs v1 @ ?L)) (set (queue_ptrs w)) m1 m3"
    using mem_trans_frame [OF fresh_listD(4) [OF f] sub] by (simp add: qp ac_simps)
  have "distinct (queue_ptrs w)"
    using d1 fresh_listD(5) [OF f] mem_trans_disj [OF fresh_listD(4) [OF f]] sub unfolding qp distinct_append by blast
  with r ok a(1) c(1,2) vec_append_room [OF rs(1) room, of None m3] w(1,4) qw rs(2,3) mem_trans_trans [OF t1' t2 assms(4)]
  show thesis by (intro that [of v1 m1 p m2 d m3 w]) simp_all
qed

end

section \<open>Properties\<close>

definition report_env_one :: report_env where
  "report_env_one = \<lparr>re_env = env_one,
     re_packed_size = (\<lambda>b. pbb_n_spans b mod 2 ^ 30), re_pack = (\<lambda>b. replicate (pbb_n_spans b mod 2 ^ 30) 0), re_sizeof_span = 128\<rparr>"

definition enc_one :: "pb_process \<Rightarrow> pb_span list \<Rightarrow> u8 list" where
  "enc_one p xs = replicate (length xs mod 2 ^ 30) 0"

lemma packing_one: "batch_packing report_env_one enc_one"
proof -
  have "n mod 1073741824 < (2147483648 :: nat)" for n
    using mod_less_divisor [of 1073741824 n] by linarith
  then show ?thesis by (simp add: batch_packing_def report_env_one_def enc_one_def)
qed

text \<open>A reporter with two spans in its queue, their messages in the blocks 1 and 2 and the vector in block 0.\<close>

definition mem_three :: mem where
  "mem_three = \<lparr>mem_oracle = (\<lambda>_. True), mem_next = 3, mem_blocks = [0 \<mapsto> 80, 1 \<mapsto> 128, 2 \<mapsto> 128], mem_allocator = Built_in_allocator\<rparr>"

definition reporter_two :: jaeger_remote_reporter where
  "reporter_two = \<lparr>rr_max_packet_size = 1, rr_fd = 3, rr_metrics = None, rr_process = \<lparr>pp_service_name = Some (9, ''svc''), pp_tags = None, pp_n_tags = 0\<rparr>,
     rr_spans = \<lparr>vec_len = 2, vec_capacity = 10, vec_data = Some (0, [Some (1, PB_SPAN_INIT), Some (2, PB_SPAN_INIT)] @ replicate 8 None), vec_type_size = SIZEOF_PTR\<rparr>,
     rr_candidates = Some [replicate 16 0], rr_addr = replicate 16 0, rr_locked = False\<rparr>"

definition net_one :: net where
  "net_one = \<lparr>net_sendto = (\<lambda>log addr buffer. int (length buffer)), net_log = []\<rparr>"

lemma reporter_two_simps: "flushable report_env_one enc_one (replicate 16 0) reporter_two" "queue_ok (rr_spans reporter_two)"
  "0 < vec_len (rr_spans reporter_two)" "owns mem_three (queue_ptrs (rr_spans reporter_two))" "mem_ok mem_three" "mem_plenty mem_three"
  "net_up net_one" "\<not> rr_locked reporter_two"
proof -
  have l: "vec_list (rr_spans reporter_two) = [Some (1, PB_SPAN_INIT), Some (2, PB_SPAN_INIT)]" by (simp add: reporter_two_def vec_list_def)
  have pb: "pb_span_ok PB_SPAN_INIT" "pb_span_ptrs PB_SPAN_INIT = []" by (simp_all add: PB_SPAN_INIT_def pb_span_ok_def pb_span_ptrs_def)
  show "queue_ok (rr_spans reporter_two)" using l pb by (simp add: queue_ok_def slot_ok_def, simp add: reporter_two_def vec_ok_def SIZEOF_PTR_def INT_MAX_def)
  show "flushable report_env_one enc_one (replicate 16 0) reporter_two"
    using packing_one l by (simp add: flushable_def messages_def, simp add: reporter_two_def target_def metrics_full_def INT_MAX_def SIZEOF_SOCKADDR_IN_def enc_one_def)
  show "owns mem_three (queue_ptrs (rr_spans reporter_two))"
    using l pb by (simp add: queue_ptrs_def queued.list_ptrs_def slot_ptrs_def, simp add: reporter_two_def vec_ptrs_def owns_def mem_three_def)
qed (auto simp: reporter_two_def mem_three_def mem_ok_def mem_plenty_def net_up_def net_one_def)

text \<open>
  C2: flushing a remote reporter delivers every span.  With memory available, a network that takes the
  packets and a packet size that every single span fits into, \<open>remote_reporter_flush\<close> returns true: the
  packets it has sent, in order, are the encodings of consecutive non-empty groups of the queued
  messages, all of them exactly once and in order, and none is larger than the maximal packet size.
  The queue is empty afterwards and everything it owned is released.  The counter of successes is
  increased by the number of spans; the counter of dropped spans is increased too, by one per packet.
\<close>

theorem flush_delivers_all:
  assumes "flushable renv enc a r" and "queue_ok (rr_spans r)" and "0 < vec_len (rr_spans r)" and "\<not> rr_locked r" and "net_up net"
    and "mem_ok m" and "mem_plenty m" and "owns m (queue_ptrs (rr_spans r))"
  shows "\<exists>groups r' m'. remote_reporter_flush renv r net m =
      Some (True, r', net\<lparr>net_log := net_log net @ map (\<lambda>g. (a, enc (rr_process r) g)) groups\<rparr>, m') \<and>
    concat groups = messages (rr_spans r) \<and>
    (\<forall>g\<in>set groups. g \<noteq> [] \<and> int (length (enc (rr_process r) g)) \<le> rr_max_packet_size r) \<and>
    vec_len (rr_spans r') = 0 \<and> \<not> rr_locked r' \<and>
    (\<forall>t. counted (rr_metrics r) reporter_success t \<longrightarrow>
      counted (rr_metrics r') reporter_success (wrap_int64 (t + int (length (messages (rr_spans r)))))) \<and>
    (\<forall>t. counted (rr_metrics r) reporter_dropped t \<longrightarrow>
      counted (rr_metrics r') reporter_dropped (wrap_int64 (t + int (length groups)))) \<and>
    mem_trans (set (queue_ptrs (rr_spans r))) {} m m'"
proof -
  from flush_loop_spec [OF assms(1-3,5-8)] obtain groups r' m' where
    "flush_loop renv r net m = Some (True, r', net\<lparr>net_log := net_log net @ map (\<lambda>g. (a, enc (rr_process r) g)) groups\<rparr>, m')"
    "concat groups = messages (rr_spans r)" "\<forall>g\<in>set groups. g \<noteq> [] \<and> int (length (enc (rr_process r) g)) \<le> rr_max_packet_size r"
    "vec_len (rr_spans r') = 0" "rr_locked r' = rr_locked r"
    "\<forall>t. counted (rr_metrics r) reporter_success t \<longrightarrow>
      counted (rr_metrics r') reporter_success (wrap_int64 (t + int (length (messages (rr_spans r)))))"
    "\<forall>t. counted (rr_metrics r) reporter_dropped t \<longrightarrow> counted (rr_metrics r') reporter_dropped (wrap_int64 (t + int (length groups)))"
    "mem_trans (set (queue_ptrs (rr_spans r))) {} m m'" by blast
  with assms(4) show ?thesis
    by (intro exI [of _ groups] exI [of _ r'] exI [of _ m']) (simp add: remote_reporter_flush_def)
qed

theorem flush_delivers_all_witness:
  "\<exists>groups r' m'. remote_reporter_flush report_env_one reporter_two net_one mem_three =
      Some (True, r', net_one\<lparr>net_log := map (\<lambda>g. (replicate 16 0, enc_one (rr_process reporter_two) g)) groups\<rparr>, m') \<and>
    concat groups = [PB_SPAN_INIT, PB_SPAN_INIT] \<and> vec_len (rr_spans r') = 0"
proof -
  have "messages (rr_spans reporter_two) = [PB_SPAN_INIT, PB_SPAN_INIT]" "net_log net_one = []"
    by (simp_all add: messages_def reporter_two_def vec_list_def net_one_def)
  with flush_delivers_all [OF reporter_two_simps(1-3,8,7,5,6,4)] show ?thesis by auto
qed

text \<open>
  C32: after a flush that sends everything, the remote reporter cannot be used again.  \<open>build_batch\<close> takes
  the block away from the queue's vector and leaves its capacity, so that the next
  \<open>remote_reporter_report\<close>, of any span and with memory available, gets a NULL slot and fails its assertion.
\<close>

theorem report_after_flush_aborts:
  assumes "flushable renv enc a r" and "queue_ok (rr_spans r)" and "0 < vec_len (rr_spans r)" and "\<not> rr_locked r" and "net_up net"
    and "mem_ok m" and "mem_plenty m" and "owns m (queue_ptrs (rr_spans r))"
    and "tag_blank (env_tag_init (re_env renv))" and "span_src_ok (re_env renv) sp"
  shows "\<exists>r' net' m'. remote_reporter_flush renv r net m = Some (True, r', net', m') \<and>
    remote_reporter_report renv r' tracer (Some sp) m' = None"
proof -
  from flush_loop_spec [OF assms(1-3,5-8)] obtain r' net' m' where
    f: "flush_loop renv r net m = Some (True, r', net', m')"
    "vec_len (rr_spans r') = 0" "vec_data (rr_spans r') = None" "0 < vec_capacity (rr_spans r')"
    "mem_trans (set (queue_ptrs (rr_spans r))) {} m m'" by blast
  have "mem_ok m'" "mem_plenty m'" using mem_trans_ok [OF f(5)] mem_plenty_trans [OF f(5)] assms(7) by auto
  from report_drained [OF f(2-4) assms(9,10) this] f(1) assms(4) show ?thesis by (auto simp: remote_reporter_flush_def)
qed

theorem report_after_flush_aborts_witness:
  "\<exists>r' net' m'. remote_reporter_flush report_env_one reporter_two net_one mem_three = Some (True, r', net', m') \<and>
    remote_reporter_report report_env_one r' None (Some span_one) m' = None"
proof -
  have "re_env report_env_one = env_one" by (simp add: report_env_one_def)
  with report_after_flush_aborts [OF reporter_two_simps(1-3,8,7,5,6,4), of span_one None] span_one_ok(1) show ?thesis
    by (simp add: env_one_def tag_blank_def TAG_ZERO_def)
qed

lemma remote_report_spec:
  assumes "tag_blank (env_tag_init (re_env renv))" and "span_src_ok (re_env renv) sp" and "queue_ok (rr_spans r)" and "\<not> rr_locked r"
    and "metrics_full (rr_metrics r)" and "16 * (vec_len (rr_spans r) + 1) \<le> INT_MAX" and "mem_ok m" and "mem_plenty m"
    and "owns m (queue_ptrs (rr_spans r))"
    and "service_known (rr_process r) \<or> tracer_ok t \<and> pp_tags (rr_process r) = None \<and> pp_n_tags (rr_process r) = 0"
  shows "\<exists>p d r' m'. remote_reporter_report renv r (Some t) (Some sp) m = Some (r', m') \<and> pb_span_same sp d \<and>
    vec_list (rr_spans r') = vec_list (rr_spans r) @ [Some (p, d)] \<and> queue_ok (rr_spans r') \<and> \<not> rr_locked r' \<and>
    (if service_known (rr_process r)
     then rr_process r' = rr_process r \<and> mem_trans (set (queue_ptrs (rr_spans r))) (set (queue_ptrs (rr_spans r'))) m m'
     else process_same t (rr_process r') \<and> service_known (rr_process r') \<and> distinct (queue_ptrs (rr_spans r') @ process_ptrs (rr_process r')) \<and>
       mem_trans (set (queue_ptrs (rr_spans r))) (set (queue_ptrs (rr_spans r') @ process_ptrs (rr_process r'))) m m') \<and>
    (\<forall>n. counted (rr_metrics r) reporter_dropped n \<longrightarrow> counted (rr_metrics r') reporter_dropped (wrap_int64 (n + 1))) \<and>
    metrics_full (rr_metrics r') \<and> distinct (queue_ptrs (rr_spans r')) \<and>
    r' = r\<lparr>rr_spans := rr_spans r', rr_metrics := rr_metrics r', rr_process := rr_process r'\<rparr>"
proof -
  have se: "span_env (re_env renv)" using assms(1) by unfold_locales
  obtain v1 m1 p m2 d m3 w where
    q: "jaeger_vector_reserve None (rr_spans r) (vec_len (rr_spans r) + 1) m = Some (True, v1, m1)"
    "jaeger_malloc (re_sizeof_span renv) m1 = (Some p, m2)" "jaeger_span_to_protobuf (re_env renv) sp m2 = Some (True, d, m3)"
    "jaeger_vector_append None v1 m3 = Some (Some (nat (vec_len (rr_spans r))), v1\<lparr>vec_len := vec_len (rr_spans r) + 1\<rparr>, m3)"
    "vec_write (v1\<lparr>vec_len := vec_len (rr_spans r) + 1\<rparr>) (Some (nat (vec_len (rr_spans r)))) (Some (p, d)) = Some w"
    "queue_ok w" "vec_list w = vec_list (rr_spans r) @ [Some (p, d)]" "pb_span_same sp d"
    "mem_trans (set (queue_ptrs (rr_spans r))) (set (queue_ptrs w)) m m3" "distinct (queue_ptrs w)"
    by (rule span_env.report_message [OF se refl assms(3,2,7,8,9,6)])
  from reporter_inc_spec [OF assms(5), of reporter_dropped 1] obtain ms where
    c: "reporter_inc reporter_dropped 1 (rr_metrics r) = Some ms"
    "\<forall>n. counted (rr_metrics r) reporter_dropped n \<longrightarrow> counted ms reporter_dropped (wrap_int64 (n + 1))" "metrics_full ms" by fastforce
  have l0: "0 \<le> vec_len (rr_spans r)" using assms(3) by (simp add: queue_ok_def vec_ok_def)
  then have i: "int_ok (vec_len (rr_spans r) + 1)" using assms(6) by (simp add: int_ok_def INT_MAX_def)
  define r1 where "r1 = r\<lparr>rr_spans := w, rr_metrics := ms\<rparr>"
  have run: "remote_reporter_report renv r (Some t) (Some sp) m =
      (if service_known (rr_process r) then Some (r1, m3)
       else do { (process, m) \<leftarrow> build_process renv (rr_process r) (Some t) m3; Some (r1\<lparr>rr_process := process\<rparr>, m) })"
    using assms(4) i q(1-5) c(1)
    by (simp add: remote_reporter_report_def jaeger_vector_length_def remote_reporter_update_queue_length_def r1_def service_known_def
        split: option.split)
  show ?thesis
  proof (cases "service_known (rr_process r)")
    case True
    with run q(6-10) c(2,3) assms(4) show ?thesis
      by (intro exI [of _ p] exI [of _ d] exI [of _ r1] exI [of _ m3]) (simp add: r1_def)
  next
    case False
    with assms(10) have t: "tracer_ok t" "pp_tags (rr_process r) = None" "pp_n_tags (rr_process r) = 0" by auto
    have m3: "mem_ok m3" "mem_plenty m3" using mem_trans_ok [OF q(9)] mem_plenty_trans [OF q(9)] assms(8) by auto
    from span_env.build_process_spec [OF se refl t m3] obtain p' m4 where
      b: "build_process renv (rr_process r) (Some t) m3 = Some (p', m4)" "process_same t p'" "service_known p'"
      "fresh_list (process_ptrs p') m3 m4" by blast
    have sub: "set (queue_ptrs w) \<subseteq> dom (mem_blocks m3)" using mem_trans_dom [OF q(9)] by blast
    have "mem_trans (set (queue_ptrs w)) (set (queue_ptrs w @ process_ptrs p')) m3 m4"
      using mem_trans_frame [OF fresh_listD(4) [OF b(4)] sub] by (simp add: Un_commute)
    from mem_trans_trans [OF q(9) this assms(7)] have mt: "mem_trans (set (queue_ptrs (rr_spans r))) (set (queue_ptrs w @ process_ptrs p')) m m4" .
    have "distinct (queue_ptrs w @ process_ptrs p')"
      using q(10) fresh_listD(5) [OF b(4)] mem_trans_disj [OF fresh_listD(4) [OF b(4)]] sub unfolding distinct_append by blast
    with False run b(1-3) q(6-8,10) c(2,3) assms(4) mt show ?thesis
      by (intro exI [of _ p] exI [of _ d] exI [of _ "r1\<lparr>rr_process := p'\<rparr>"] exI [of _ m4]) (simp add: r1_def)
  qed
qed

text \<open>
  Reporting a span to a reporter whose queue is in use stores a complete message of the span at the
  end of the queue, keeps the messages before it and is not locked afterwards; with the first span the
  reporter also takes over a faithful copy of the tracer's service name and tags.  The queue and the
  process own exactly what they owned and the new blocks.  The counter of dropped spans is increased by
  one, although no span was dropped.
\<close>

theorem report_queues_message:
  assumes "tag_blank (env_tag_init (re_env renv))" and "span_src_ok (re_env renv) sp" and "queue_ok (rr_spans r)" and "\<not> rr_locked r"
    and "metrics_full (rr_metrics r)" and "16 * (vec_len (rr_spans r) + 1) \<le> INT_MAX" and "mem_ok m" and "mem_plenty m"
    and "owns m (queue_ptrs (rr_spans r))"
    and "service_known (rr_process r) \<or> tracer_ok t \<and> pp_tags (rr_process r) = None \<and> pp_n_tags (rr_process r) = 0"
  shows "\<exists>p d r' m'. remote_reporter_report renv r (Some t) (Some sp) m = Some (r', m') \<and> pb_span_same sp d \<and>
    vec_list (rr_spans r') = vec_list (rr_spans r) @ [Some (p, d)] \<and> queue_ok (rr_spans r') \<and> \<not> rr_locked r' \<and>
    (if service_known (rr_process r)
     then rr_process r' = rr_process r \<and> mem_trans (set (queue_ptrs (rr_spans r))) (set (queue_ptrs (rr_spans r'))) m m'
     else process_same t (rr_process r') \<and> service_known (rr_process r') \<and> distinct (queue_ptrs (rr_spans r') @ process_ptrs (rr_process r')) \<and>
       mem_trans (set (queue_ptrs (rr_spans r))) (set (queue_ptrs (rr_spans r') @ process_ptrs (rr_process r'))) m m') \<and>
    (\<forall>n. counted (rr_metrics r) reporter_dropped n \<longrightarrow> counted (rr_metrics r') reporter_dropped (wrap_int64 (n + 1)))"
  using remote_report_spec [OF assms] by blast

theorem report_queues_message_witness:
  "\<exists>p d r' m'. remote_reporter_report report_env_one reporter_two (Some \<lparr>tr_service_name = None, tr_tags = JAEGERTRACINGC_VECTOR_INIT\<rparr>)
      (Some span_one) mem_three = Some (r', m') \<and> pb_span_same span_one d \<and>
    vec_list (rr_spans r') = vec_list (rr_spans reporter_two) @ [Some (p, d)]"
proof -
  have e: "re_env report_env_one = env_one" "tag_blank (env_tag_init env_one)"
    by (simp_all add: report_env_one_def env_one_def tag_blank_def TAG_ZERO_def)
  have k: "service_known (rr_process reporter_two)" "metrics_full (rr_metrics reporter_two)" "16 * (vec_len (rr_spans reporter_two) + 1) \<le> INT_MAX"
    by (simp_all add: service_known_def reporter_two_def metrics_full_def INT_MAX_def)
  from report_queues_message [of report_env_one span_one reporter_two mem_three "\<lparr>tr_service_name = None, tr_tags = JAEGERTRACINGC_VECTOR_INIT\<rparr>",
      OF _ _ reporter_two_simps(2,8) k(2,3) reporter_two_simps(5,6,4)]
    e span_one_ok(1) k(1) show ?thesis by auto
qed

text \<open>
  C20: a span that does not fit into a packet is dropped.  If no prefix of the queue fits, flushing sends
  nothing, reports failure, releases the first message and keeps the others in order; the counter of
  dropped spans is increased by one.  Nothing else changes, so that the next flush starts with the
  second span.
\<close>

theorem oversized_span_dropped:
  assumes "batch_packing renv enc" and "queue_ok (rr_spans r)" and "messages (rr_spans r) = x # xs" and "\<not> rr_locked r"
    and "\<forall>j. 0 < j \<longrightarrow> rr_max_packet_size r < int (length (enc (rr_process r) (take j (x # xs))))"
    and "metrics_full (rr_metrics r)" and "mem_ok m" and "owns m (queue_ptrs (rr_spans r))"
  shows "\<exists>spans ms m'. remote_reporter_flush renv r net m = Some (False, r\<lparr>rr_spans := spans, rr_metrics := ms\<rparr>, net, m') \<and>
    messages spans = xs \<and> vec_ok spans \<and> vec_list spans = tl (vec_list (rr_spans r)) \<and>
    (\<forall>n. counted (rr_metrics r) reporter_dropped n \<longrightarrow> counted ms reporter_dropped (wrap_int64 (n + 1))) \<and>
    distinct (queue_ptrs spans) \<and> mem_trans (set (queue_ptrs (rr_spans r))) (set (queue_ptrs spans)) m m'"
proof -
  let ?v = "rr_spans r" and ?b = "\<lparr>pbb_process = rr_process r, pbb_spans = vec_data (rr_spans r), pbb_n_spans = nat (vec_len (rr_spans r))\<rparr>"
  have vo: "vec_ok ?v" using assms(2) by (simp add: queue_ok_def)
  from vo obtain b slots where d: "vec_data ?v = Some (b, slots)" "length slots = nat (vec_capacity ?v)" "vec_len ?v \<le> vec_capacity ?v" by (rule vec_okE)
  from assms(2,3) obtain p ys where l: "vec_list ?v = Some (p, x) # ys" "xs = map (snd \<circ> the) ys" "pb_span_ok x"
    by (cases "vec_list ?v") (auto simp: messages_def queue_ok_def slot_ok_def)
  have len: "vec_len ?v = 1 + int (length ys)" using length_vec_list [OF vo] l(1) by simp
  have vl: "vec_list ?v = take (nat (vec_len ?v)) slots" using d(1) by (simp add: vec_list_def)
  define j where "j = fit_loop (re_packed_size renv) (rr_max_packet_size r) ?b (nat (vec_len ?v))"
  have "j = 0"
  proof (rule ccontr)
    assume "j \<noteq> 0"
    then have k: "0 < j" "j \<le> nat (vec_len ?v)" using fit_loop_spec(1) by (auto simp: j_def)
    have "size_to_int (re_packed_size renv (?b\<lparr>pbb_n_spans := j\<rparr>)) = int (length (enc (rr_process r) (take j (x # xs))))"
      using pack_prefix(2) [OF assms(1) vo k(2) refl, of "rr_process r"] by (simp only: assms(3) pb_batch.simps)
    moreover have "size_to_int (re_packed_size renv (?b\<lparr>pbb_n_spans := j\<rparr>)) \<le> rr_max_packet_size r"
      using fit_loop_spec(2) k(1) by (simp only: j_def)
    moreover have "rr_max_packet_size r < int (length (enc (rr_process r) (take j (x # xs))))" using assms(5) k(1) by blast
    ultimately show False by linarith
  qed
  then have "fit_loop (re_packed_size renv) (rr_max_packet_size r) ?b (nat (vec_len ?v)) = 0" by (simp only: j_def)
  note k = this [unfolded d(1)]
  from vec_remove_spec [OF vo, of 0] l(1) len obtain w where
    w: "jaeger_vector_remove ?v 0 = Some w" "vec_ok w" "vec_ptrs w = vec_ptrs ?v" "vec_list w = ys" by auto
  have ow: "owns m (slot_ptrs pb_span_ptrs (Some (p, x)))" using assms(8) by (auto simp: queue_ptrs_def queued.list_ptrs_def l(1) own_simps)
  from pbspan.ptr_destroy [OF assms(7) ow] l(3) obtain y m' where
    "dst_vector_alloc_free jaeger_span_protobuf_destroy (Some (p, x)) m = Some (y, m')"
    and mt: "mem_trans (set (slot_ptrs pb_span_ptrs (Some (p, x)))) {} m m'" by (auto simp: slot_ok_def)
  then obtain x' m1 where dd: "jaeger_span_protobuf_destroy x m = Some (x', m1)" "jaeger_free (Some p) m1 = Some m'"
    by (auto simp: dst_vector_alloc_free_def bind_eq_Some_conv)
  from reporter_inc_spec [OF assms(6), of reporter_dropped 1] obtain ms where
    c: "reporter_inc reporter_dropped 1 (rr_metrics r) = Some ms"
    "\<forall>n. counted (rr_metrics r) reporter_dropped n \<longrightarrow> counted ms reporter_dropped (wrap_int64 (n + 1))" by fastforce
  have rd: "jaeger_vector_get ?v 0 = Some (Some 0)" "vec_read ?v (Some 0) = Some (Some (p, x))"
    using d len vec_read_at [OF vo, of 0] l(1) by (simp_all add: jaeger_vector_get_def jaeger_vector_length_def jaeger_vector_offset_def)
  have same: "?v\<lparr>vec_data := Some (b, slots), vec_len := 1 + int (length ys)\<rparr> = ?v" by (simp flip: d(1) len)
  have "remote_reporter_flush_batch renv r net m = Some (False, r\<lparr>rr_spans := w, rr_metrics := ms\<rparr>, net, m')"
    using k len d(1) rd w(1) dd c(1)
    by (simp add: same Let_def remote_reporter_flush_batch_def build_batch_def large_batch_error_def jaeger_vector_length_def)
  then have run: "remote_reporter_flush renv r net m = Some (False, r\<lparr>rr_spans := w, rr_metrics := ms\<rparr>, net, m')"
    using assms(4) len by (simp add: remote_reporter_flush_def flush_loop.simps [of renv r] jaeger_vector_length_def)
  have qp: "set (queue_ptrs ?v) = set (slot_ptrs pb_span_ptrs (Some (p, x))) \<union> set (queue_ptrs w)" "distinct (queue_ptrs w)"
    "set (queue_ptrs w) \<inter> set (slot_ptrs pb_span_ptrs (Some (p, x))) = {}" "set (queue_ptrs w) \<subseteq> dom (mem_blocks m)"
    using assms(8) l(1) w(3,4) by (auto simp: queue_ptrs_def queued.list_ptrs_def own_simps owns_def)
  have "mem_trans (set (queue_ptrs ?v)) (set (queue_ptrs w)) m m'"
    using mem_trans_frame [OF mt qp(4,3)] by (simp add: qp(1))
  with run w(2,4) l(1,2) c(2) qp(2) show ?thesis
    by (intro exI [of _ w] exI [of _ ms] exI [of _ m']) (simp add: messages_def)
qed

theorem oversized_span_dropped_witness:
  "\<exists>spans ms m'. remote_reporter_flush report_env_one (reporter_two\<lparr>rr_max_packet_size := 0\<rparr>) net_one mem_three =
      Some (False, reporter_two\<lparr>rr_max_packet_size := 0, rr_spans := spans, rr_metrics := ms\<rparr>, net_one, m') \<and> messages spans = [PB_SPAN_INIT]"
proof -
  let ?r = "reporter_two\<lparr>rr_max_packet_size := 0\<rparr>"
  have ms: "messages (rr_spans ?r) = [PB_SPAN_INIT, PB_SPAN_INIT]" by (simp add: messages_def reporter_two_def vec_list_def)
  have "0 < length (take j [PB_SPAN_INIT, PB_SPAN_INIT]) mod 1073741824" if "0 < j" for j
    using that by (cases j; cases "j - 1") auto
  then have big: "\<forall>j. 0 < j \<longrightarrow> rr_max_packet_size ?r < int (length (enc_one (rr_process ?r) (take j (PB_SPAN_INIT # [PB_SPAN_INIT]))))"
    by (simp add: enc_one_def)
  have "metrics_full (rr_metrics ?r)" by (simp add: reporter_two_def metrics_full_def)
  with oversized_span_dropped [OF packing_one _ ms _ big, of mem_three net_one] reporter_two_simps(2,4,5,8) show ?thesis by simp metis
qed

section \<open>Composite reporters\<close>

text \<open>
  What a composite reporter relies on of its children: a child that is \<open>ok\<close> and has room takes the span
  (\<open>took\<close>), stays \<open>ok\<close>, and owns what it owned and the new blocks.
\<close>

locale child_reporter =
  fixes good :: "mem \<Rightarrow> bool"
    and report :: "'r \<Rightarrow> 's \<Rightarrow> 'w \<Rightarrow> mem \<Rightarrow> ('r \<times> 'w \<times> mem) option"
    and ok :: "'r \<Rightarrow> bool"
    and room :: "'r \<Rightarrow> bool"
    and ptrs :: "'r \<Rightarrow> ptr list"
    and src_ok :: "'s \<Rightarrow> bool"
    and took :: "'s \<Rightarrow> 'r \<Rightarrow> 'r \<Rightarrow> bool"
  assumes good_heap: "good m \<Longrightarrow> mem_ok m"
    and good_later: "good m \<Longrightarrow> mem_trans A B m m' \<Longrightarrow> good m'"
    and report_law: "good m \<Longrightarrow> src_ok sp \<Longrightarrow> ok r \<Longrightarrow> room r \<Longrightarrow> owns m (ptrs r) \<Longrightarrow>
      \<exists>r' w' m'. report r sp w m = Some (r', w', m') \<and> ok r' \<and> took sp r r' \<and> distinct (ptrs r') \<and>
        mem_trans (set (ptrs r)) (set (ptrs r')) m m'"
begin

definition slots_ptrs :: "(ptr \<times> 'r) option list \<Rightarrow> ptr list" where
  "slots_ptrs xs = concat (map (slot_ptrs ptrs) xs)"

definition slot_took :: "'s \<Rightarrow> (ptr \<times> 'r) option \<Rightarrow> (ptr \<times> 'r) option \<Rightarrow> bool" where
  "slot_took sp x y \<longleftrightarrow>
     (case (x, y) of
        (None, None) \<Rightarrow> True
      | (Some (p, r), Some (q, r')) \<Rightarrow> p = q \<and> ok r' \<and> took sp r r'
      | _ \<Rightarrow> False)"

lemma slots_ptrs_simps [simp]:
  "slots_ptrs [] = []" "slots_ptrs (None # xs) = slots_ptrs xs" "slots_ptrs (Some (p, r) # xs) = p # ptrs r @ slots_ptrs xs"
  by (simp_all add: slots_ptrs_def slot_ptrs_def)

lemma slot_took_simps [simp]:
  "slot_took sp None None" "slot_took sp (Some (p, r)) (Some (q, r')) \<longleftrightarrow> p = q \<and> ok r' \<and> took sp r r'"
  by (simp_all add: slot_took_def)

lemma children_law:
  assumes "good m" and "src_ok sp" and "\<forall>x\<in>set xs. slot_ok ok x \<and> slot_ok room x" and "owns m (slots_ptrs xs)"
  shows "\<exists>ys w' m'. children_report report sp xs w m = Some (ys, w', m') \<and> list_all2 (slot_took sp) xs ys \<and>
    distinct (slots_ptrs ys) \<and> mem_trans (set (slots_ptrs xs)) (set (slots_ptrs ys)) m m'"
  using assms
proof (induction xs arbitrary: w m)
  case Nil
  with good_heap show ?case by simp
next
  case (Cons x xs)
  show ?case
  proof (cases x)
    case None
    from Cons.prems(3) have a: "\<forall>x\<in>set xs. slot_ok ok x \<and> slot_ok room x" by simp
    from Cons.prems(4) have o: "owns m (slots_ptrs xs)" by (simp add: None)
    from Cons.IH [OF Cons.prems(1,2) a o, of w] obtain ys w' m' where
      "children_report report sp xs w m = Some (ys, w', m')" "list_all2 (slot_took sp) xs ys"
      "distinct (slots_ptrs ys)" "mem_trans (set (slots_ptrs xs)) (set (slots_ptrs ys)) m m'" by blast
    then show ?thesis
      by (intro exI [of _ "None # ys"] exI [of _ w'] exI [of _ m']) (simp add: None)
  next
    case (Some c)
    then obtain p r where x: "x = Some (p, r)" by (cases c) auto
    have r: "ok r" "room r" using Cons.prems(3) x by (auto simp: slot_ok_def)
    have o: "owns m (ptrs r)" "p \<in> dom (mem_blocks m)" "p \<notin> set (ptrs r)" "owns m (slots_ptrs xs)"
      "set (slots_ptrs xs) \<inter> insert p (set (ptrs r)) = {}"
      using Cons.prems(4) by (auto simp: x owns_def)
    from report_law [OF Cons.prems(1,2) r o(1), of w] obtain r' w1 m1 where
      c: "report r sp w m = Some (r', w1, m1)" "ok r'" "took sp r r'" "distinct (ptrs r')" "mem_trans (set (ptrs r)) (set (ptrs r')) m m1" by blast
    have o1: "owns m1 (slots_ptrs xs)" "set (slots_ptrs xs) \<inter> set (ptrs r') = {}" using owns_frame [OF c(5) o(4)] o(5) by auto
    have p1: "owns m1 [p]" "set [p] \<inter> set (ptrs r') = {}" using owns_frame [OF c(5), of "[p]"] o(2,3) by (auto simp: owns_def)
    from Cons.IH [OF good_later [OF Cons.prems(1) c(5)] Cons.prems(2) _ o1(1), of w1] Cons.prems(3) obtain ys w2 m2 where
      ih: "children_report report sp xs w1 m1 = Some (ys, w2, m2)" "list_all2 (slot_took sp) xs ys" "distinct (slots_ptrs ys)"
      "mem_trans (set (slots_ptrs xs)) (set (slots_ptrs ys)) m1 m2" by auto
    let ?y = "Some (p, r')"
    have own: "owns m1 (p # ptrs r')" using p1 owns_trans [OF c(5,4)] by (auto simp: own_simps)
    have dis: "set (p # ptrs r') \<inter> set (slots_ptrs xs) = {}" using o1(2) o(5) by auto
    have t1: "mem_trans (set (slots_ptrs (x # xs))) (set (p # ptrs r') \<union> set (slots_ptrs xs)) m m1"
    proof -
      have "set (p # slots_ptrs xs) \<subseteq> dom (mem_blocks m)" "set (p # slots_ptrs xs) \<inter> set (ptrs r) = {}" using o by (auto simp: owns_def)
      from mem_trans_frame [OF c(5) this] show ?thesis by (simp add: x ac_simps)
    qed
    have t2: "mem_trans (set (p # ptrs r') \<union> set (slots_ptrs xs)) (set (slots_ptrs (?y # ys))) m1 m2"
      using mem_trans_frame [OF ih(4), of "set (p # ptrs r')"] own dis by (simp add: owns_def ac_simps)
    have "distinct (slots_ptrs (?y # ys))"
      using own ih(3) mem_trans_disj [OF ih(4)] dis by (auto simp: owns_def)
    with c(1-3) ih(1,2) mem_trans_trans [OF t1 t2 good_heap [OF Cons.prems(1)]] show ?thesis
      by (intro exI [of _ "?y # ys"] exI [of _ w2] exI [of _ m2]) (simp add: x)
  qed
qed

end

text \<open>The in-memory reporter as a child.\<close>

definition im_ok :: "env \<Rightarrow> jaeger_in_memory_reporter \<Rightarrow> bool" where
  "im_ok env r \<longleftrightarrow> tag_blank (env_tag_init env) \<and> \<not> im_locked r \<and> vec_ok (im_spans r) \<and> (\<forall>s\<in>set (vec_list (im_spans r)). span_ok env s)"

definition im_room :: "jaeger_in_memory_reporter \<Rightarrow> bool" where
  "im_room r \<longleftrightarrow> vec_room (im_spans r) (vec_capacity (im_spans r) + 1)"

definition im_ptrs :: "jaeger_in_memory_reporter \<Rightarrow> ptr list" where
  "im_ptrs r = vec_ptrs (im_spans r) @ concat (map span_ptrs (vec_list (im_spans r)))"

definition im_took :: "jaeger_span \<Rightarrow> jaeger_in_memory_reporter \<Rightarrow> jaeger_in_memory_reporter \<Rightarrow> bool" where
  "im_took sp r r' \<longleftrightarrow> (\<exists>copy. vec_list (im_spans r') = vec_list (im_spans r) @ [copy] \<and> span_same sp copy)"

definition im_report ::
  "env \<Rightarrow> opentracing_time_value \<Rightarrow> jaeger_in_memory_reporter \<Rightarrow> jaeger_span \<Rightarrow> unit \<Rightarrow> mem \<Rightarrow>
   (jaeger_in_memory_reporter \<times> unit \<times> mem) option" where
  "im_report env now r sp w m = map_option (\<lambda>(r, m). (r, (), m)) (in_memory_reporter_report env now r (Some sp) m)"

lemma in_memory_report_spec:
  assumes "mem_good m" and "span_src_ok env sp" and "im_ok env r" and "im_room r" and "owns m (im_ptrs r)"
  shows "\<exists>r' m'. in_memory_reporter_report env now r (Some sp) m = Some (r', m') \<and> im_ok env r' \<and> im_took sp r r' \<and>
    distinct (im_ptrs r') \<and> mem_trans (set (im_ptrs r)) (set (im_ptrs r')) m m'"
proof -
  let ?v = "im_spans r" and ?L = "concat (map span_ptrs (vec_list (im_spans r)))"
  have m: "mem_ok m" "mem_plenty m" using assms(1) by (auto simp: mem_good_def)
  have v: "vec_ok ?v" "span_env env" using assms(3) by (auto simp: im_ok_def span_env_def)
  have b: "set (vec_ptrs ?v) \<subseteq> dom (mem_blocks m)" using assms(5) by (auto simp: im_ptrs_def owns_def)
  have room: "vec_room ?v (vec_capacity ?v + 1)" using assms(4) by (simp add: im_room_def)
  from vec_append_total [OF v(1) m(1) b room] obtain s v1 m1 where
    a: "jaeger_vector_append JAEGERTRACINGC_SPAN_INIT ?v m = Some (s, v1, m1)" by blast
  have s: "s \<noteq> None" by (rule vec_append_plenty [OF a v(1) m])
  note as = vec_append_spec [OF a v(1) m(1)] and t1 = vec_append_spec(4) [OF a v(1) m(1) b]
  have m1: "mem_good m1" by (rule mem_good_trans [OF assms(1) t1])
  from span_env.span_copy_spec [OF v(2) m1 assms(2)] obtain c m2 where
    c: "jaeger_span_copy env now sp m1 = Some (True, c, m2)" "span_same sp c" "span_ok env c" "fresh_list (span_ptrs c) m1 m2" by blast
  from as(3) [OF s, of c] obtain w where
    w: "vec_write v1 s c = Some w" "vec_ok w" "vec_ptrs w = vec_ptrs v1" "vec_list w = vec_list ?v @ [c]" by blast
  let ?r = "r\<lparr>im_spans := w\<rparr>"
  have run: "in_memory_reporter_report env now r (Some sp) m = Some (?r, m2)"
    using a s c(1) w(1) assms(3) by (auto simp: in_memory_reporter_report_def im_ok_def)
  have o: "set ?L \<subseteq> dom (mem_blocks m)" "set ?L \<inter> set (vec_ptrs ?v) = {}" "distinct ?L" using assms(5) by (auto simp: im_ptrs_def owns_def)
  have t1': "mem_trans (set (im_ptrs r)) (set (vec_ptrs w @ ?L)) m m1" using mem_trans_frame [OF t1 o(1,2)] w(3) by (simp add: im_ptrs_def)
  have d1: "distinct (vec_ptrs w @ ?L)" 
  proof -
    have "set (vec_ptrs w) \<inter> set ?L = {}" using mem_trans_disj [OF t1] o(1,2) unfolding w(3) by blast
    with o(3) show ?thesis by simp
  qed
  have ip: "im_ptrs ?r = (vec_ptrs w @ ?L) @ span_ptrs c" using w(4) by (simp add: im_ptrs_def)
  have sub: "set (vec_ptrs w @ ?L) \<subseteq> dom (mem_blocks m1)" using mem_trans_dom [OF t1'] by blast
  have t2: "mem_trans (set (vec_ptrs w @ ?L)) (set (im_ptrs ?r)) m1 m2"
    using mem_trans_frame [OF fresh_listD(4) [OF c(4)] sub] by (simp add: ip ac_simps)
  have "distinct (im_ptrs ?r)"
    using d1 fresh_listD(5) [OF c(4)] mem_trans_disj [OF fresh_listD(4) [OF c(4)]] sub unfolding ip distinct_append by blast
  moreover have "im_ok env ?r" using assms(3) w(2,4) c(3) by (simp add: im_ok_def)
  moreover have "im_took sp r ?r" using w(4) c(2) by (simp add: im_took_def)
  ultimately show ?thesis using run mem_trans_trans [OF t1' t2 m(1)] by blast
qed

interpretation im: child_reporter mem_good "im_report env now" "im_ok env" im_room im_ptrs "span_src_ok env" im_took for env now
proof (unfold_locales, goal_cases)
  case (1 m)
  then show ?case by (simp add: mem_good_def)
next
  case (2 m A B m')
  then show ?case by (rule mem_good_trans)
next
  case (3 m sp r w)
  from in_memory_report_spec [OF 3, of now] show ?case by (auto simp: im_report_def)
qed

text \<open>
  C28: a span reported to a composite of in-memory reporters reaches every one of them: with memory
  available the call returns, and each child, in its place, has a faithful copy of the span behind what
  it had.  All blocks stay owned once and nothing is leaked.  Without a span nothing happens.
\<close>

theorem composite_reaches_children:
  assumes "vec_ok cr" and "\<forall>x\<in>set (vec_list cr). slot_ok (im_ok env) x \<and> slot_ok im_room x" and "span_src_ok env sp"
    and "mem_ok m" and "mem_plenty m" and "owns m (concat (map (slot_ptrs im_ptrs) (vec_list cr)))"
  shows "composite_reporter_report (im_report env now) cr None () m = Some (cr, (), m) \<and>
    (\<exists>cr' m'. composite_reporter_report (im_report env now) cr (Some sp) () m = Some (cr', (), m') \<and> vec_ok cr' \<and>
      list_all2 (\<lambda>x y. case x of None \<Rightarrow> y = None | Some (p, r) \<Rightarrow> \<exists>r'. y = Some (p, r') \<and> im_ok env r' \<and> im_took sp r r')
        (vec_list cr) (vec_list cr') \<and>
      distinct (concat (map (slot_ptrs im_ptrs) (vec_list cr'))) \<and>
      mem_trans (set (concat (map (slot_ptrs im_ptrs) (vec_list cr)))) (set (concat (map (slot_ptrs im_ptrs) (vec_list cr')))) m m')"
proof -
  have g: "mem_good m" using assms(4,5) by (simp add: mem_good_def)
  from im.children_law [OF g assms(3,2), unfolded im.slots_ptrs_def, OF assms(6), of now "()"] obtain ys m' where
    c: "children_report (im_report env now) sp (vec_list cr) () m = Some (ys, (), m')" "list_all2 (im.slot_took env sp) (vec_list cr) ys"
    "distinct (concat (map (slot_ptrs im_ptrs) ys))"
    "mem_trans (set (concat (map (slot_ptrs im_ptrs) (vec_list cr)))) (set (concat (map (slot_ptrs im_ptrs) ys))) m m'" by auto
  from assms(1) obtain p slots where d: "vec_data cr = Some (p, slots)" "length slots = nat (vec_capacity cr)" "vec_len cr \<le> vec_capacity cr"
    "0 \<le> vec_len cr" by (rule vec_okE)
  have len: "length ys = nat (vec_len cr)" using list_all2_lengthD [OF c(2)] length_vec_list [OF assms(1)] by simp
  have w: "vec_list (with_children cr ys) = ys" "vec_ok (with_children cr ys)"
    using d len assms(1) by (auto simp: with_children_def vec_list_def vec_ok_def)
  have "list_all2 (\<lambda>x y. case x of None \<Rightarrow> y = None | Some (p, r) \<Rightarrow> \<exists>r'. y = Some (p, r') \<and> im_ok env r' \<and> im_took sp r r') (vec_list cr) ys"
    by (rule list_all2_mono [OF c(2)]) (auto simp: im.slot_took_def split: option.splits)
  with c(1,3,4) w show ?thesis by (simp add: composite_reporter_report_def)
qed

theorem composite_reaches_children_witness:
  "\<exists>cr' m'. composite_reporter_report (im_report env_one TIME_ZERO)
      \<lparr>vec_len = 1, vec_capacity = 1, vec_data = Some (9, [Some (0, \<lparr>im_spans = \<lparr>vec_len = 0, vec_capacity = 1,
         vec_data = Some (1, [JAEGERTRACINGC_SPAN_INIT]), vec_type_size = 400\<rparr>, im_locked = False\<rparr>)]), vec_type_size = 8\<rparr>
      (Some span_one) () mem_three = Some (cr', (), m') \<and> vec_ok cr'"
proof -
  let ?c = "\<lparr>vec_len = 1, vec_capacity = 1, vec_data = Some (9, [Some (0, \<lparr>im_spans = \<lparr>vec_len = 0, vec_capacity = 1,
         vec_data = Some (1, [JAEGERTRACINGC_SPAN_INIT]), vec_type_size = 400\<rparr>, im_locked = False\<rparr>)]), vec_type_size = 8\<rparr>"
  have l: "vec_list ?c = [Some (0, \<lparr>im_spans = \<lparr>vec_len = 0, vec_capacity = 1,
         vec_data = Some (1, [JAEGERTRACINGC_SPAN_INIT]), vec_type_size = 400\<rparr>, im_locked = False\<rparr>)]" by (simp add: vec_list_def)
  have "vec_ok ?c" by (simp add: vec_ok_def INT_MAX_def)
  moreover have "\<forall>x\<in>set (vec_list ?c). slot_ok (im_ok env_one) x \<and> slot_ok im_room x"
    unfolding l by (simp add: slot_ok_def im_ok_def im_room_def vec_ok_def vec_list_def vec_room_def INT_MAX_def env_one_def tag_blank_def TAG_ZERO_def)
  moreover have "owns mem_three (concat (map (slot_ptrs im_ptrs) (vec_list ?c)))"
    unfolding l by (simp add: slot_ptrs_def im_ptrs_def vec_ptrs_def vec_list_def owns_def mem_three_def)
  ultimately show ?thesis using composite_reaches_children [of ?c env_one span_one mem_three TIME_ZERO] span_one_ok(1) reporter_two_simps(5,6) by blast
qed

end
