(* ===== verification/Rng.thy ===== *)
theory Rng
  imports Ownership Threading
begin

unbundle bit_operations_syntax

text \<open>
  Random numbers: \<open>src/jaegertracingc/random.c\<close>, \<open>random.h\<close>.

  The build is the one with threads and with \<open>getrandom\<close>.  What the system does in a call is
  \<open>random_env\<close>: the codes of \<open>pthread_key_create\<close> and \<open>pthread_setspecific\<close>, what \<open>getrandom\<close> makes of
  the bytes of the seed (a failing call leaves them), and the C library's generator \<open>rand_r\<close>.  The
  global variables of the file are \<open>rng_globals\<close>, with one thread's view of the thread-local generator.
\<close>

record random_env =
  rn_key_create :: int
  rn_setspecific :: int
  rn_getrandom :: "u32 \<Rightarrow> u32"
  rn_rand_r :: "u32 \<Rightarrow> int \<times> u32"

text \<open>A \<open>jaeger_rng\<close> is a heap block; its state is what follows the destructor.\<close>

type_synonym jaeger_rng = "ptr \<times> u32"

record rng_globals =
  rg_once :: jaeger_once
  rg_storage :: "jaeger_rng jaeger_thread_local"

definition RNG_GLOBALS_INIT :: rng_globals where
  "RNG_GLOBALS_INIT = \<lparr>rg_once = JAEGERTRACINGC_ONCE_INIT, rg_storage = \<lparr>tl_initialized = False, tl_value = None\<rparr>\<rparr>"

definition SIZEOF_RNG :: nat where
  "SIZEOF_RNG = 16"

definition rng_destroy :: "jaeger_rng \<Rightarrow> mem \<Rightarrow> mem option" where
  "rng_destroy rng m = jaeger_free (Some (fst rng)) m"

definition jaeger_rng_alloc :: "mem \<Rightarrow> ptr option \<times> mem" where
  "jaeger_rng_alloc m = jaeger_malloc SIZEOF_RNG m"

definition random_seed :: "random_env \<Rightarrow> u32 \<Rightarrow> u32" where
  "random_seed env seed = rn_getrandom env seed"

text \<open>\<open>garbage\<close> is what the fresh block holds.\<close>

definition jaeger_rng_init :: "random_env \<Rightarrow> ptr \<Rightarrow> u32 \<Rightarrow> jaeger_rng" where
  "jaeger_rng_init env p garbage = (p, random_seed env garbage)"

definition cleanup_rng :: "rng_globals \<Rightarrow> mem \<Rightarrow> (rng_globals \<times> mem) option" where
  "cleanup_rng g m = do {
     (storage, m) \<leftarrow> jaeger_thread_local_destroy rng_destroy (rg_storage g) m;
     Some (g\<lparr>rg_storage := storage\<rparr>, m)
   }"

text \<open>The result of \<open>jaeger_thread_local_init\<close> is ignored; \<open>atexit\<close> registers \<open>cleanup_rng\<close>.\<close>

definition init_rng :: "random_env \<Rightarrow> jaeger_rng jaeger_thread_local \<Rightarrow> jaeger_rng jaeger_thread_local option" where
  "init_rng env storage = Some (snd (jaeger_thread_local_init (rn_key_create env)))"

text \<open>
  \<open>((uint64_t) rand_r(state) << 32u) | (uint64_t) rand_r(state)\<close>.  C leaves the order of the two calls
  open; here the left one comes first.
\<close>

definition random64 :: "random_env \<Rightarrow> u32 \<Rightarrow> u64 \<times> u32" where
  "random64 env state =
     (let (hi, state) = rn_rand_r env state;
          (lo, state) = rn_rand_r env state
      in (push_bit 32 (word_of_int hi) OR word_of_int lo, state))"

definition draw_from :: "random_env \<Rightarrow> jaeger_rng \<Rightarrow> rng_globals \<Rightarrow> u64 \<times> rng_globals" where
  "draw_from env rng g =
     (let (result, state) = random64 env (snd rng)
      in (result, g\<lparr>rg_storage := (rg_storage g)\<lparr>tl_value := Some (fst rng, state)\<rparr>\<rparr>))"

definition jaeger_random64 :: "random_env \<Rightarrow> u32 \<Rightarrow> rng_globals \<Rightarrow> mem \<Rightarrow> (u64 \<times> rng_globals \<times> mem) option" where
  "jaeger_random64 env garbage g m = do {
     (_, once, storage) \<leftarrow> jaeger_do_once (rg_once g) (init_rng env) (rg_storage g);
     let g = g\<lparr>rg_once := once, rg_storage := storage\<rparr>;
     c_assert (tl_initialized storage);
     case jaeger_thread_local_get_value storage of
       Some rng \<Rightarrow> (let (result, g) = draw_from env rng g in Some (result, g, m))
     | None \<Rightarrow>
         (case jaeger_rng_alloc m of
            (None, m) \<Rightarrow> Some (0, g, m)
          | (Some p, m) \<Rightarrow> do {
              let rng = jaeger_rng_init env p garbage;
              (ok, storage, m) \<leftarrow> jaeger_thread_local_set_value rng_destroy (rn_setspecific env) storage (Some rng) m;
              let g = g\<lparr>rg_storage := storage\<rparr>;
              if \<not> ok then do {
                m \<leftarrow> jaeger_free (Some p) m;
                Some (0, g, m)
              }
              else (let (result, g) = draw_from env rng g in Some (result, g, m))
            })
   }"

text \<open>The block of the generator, and the states the globals go through.\<close>

definition rng_ptrs :: "rng_globals \<Rightarrow> ptr list" where
  "rng_ptrs g = cs_ptrs (tl_value (rg_storage g))"

definition rng_ok :: "rng_globals \<Rightarrow> bool" where
  "rng_ok g \<longleftrightarrow> (if has_run (rg_once g) then tl_initialized (rg_storage g) else tl_value (rg_storage g) = None)"

definition rand_r_documented :: "random_env \<Rightarrow> bool" where
  "rand_r_documented env \<longleftrightarrow> (\<forall>s. 0 \<le> fst (rn_rand_r env s) \<and> fst (rn_rand_r env s) \<le> INT_MAX)"

lemma or_bits:
  fixes hi lo :: int
  assumes "0 \<le> hi" "hi \<le> INT_MAX" "0 \<le> lo" "lo \<le> INT_MAX"
  shows "\<not> bit (push_bit 32 (word_of_int hi) OR word_of_int lo :: u64) 31"
    and "\<not> bit (push_bit 32 (word_of_int hi) OR word_of_int lo :: u64) 63"
proof -
  have b: "\<not> bit x 31" if "0 \<le> x" "x \<le> INT_MAX" for x :: int
    using that by (simp add: bit_iff_odd INT_MAX_def)
  have c: "\<not> bit x 63" if "0 \<le> x" "x \<le> INT_MAX" for x :: int
    using that by (simp add: bit_iff_odd INT_MAX_def)
  show "\<not> bit (push_bit 32 (word_of_int hi) OR word_of_int lo :: u64) 31"
    using b [OF assms(3,4)] by (simp add: bit_simps)
  show "\<not> bit (push_bit 32 (word_of_int hi) OR word_of_int lo :: u64) 63"
    using b [OF assms(1,2)] c [OF assms(3,4)] by (simp add: bit_simps)
qed

lemma top_bit_clear: "\<not> bit (w :: u64) 63 \<Longrightarrow> unat w < 2 ^ 63"
proof -
  assume a: "\<not> bit w 63"
  have "\<not> bit (unat w) 63" using a by (simp add: bit_unsigned_iff)
  then have e: "even (unat w div 2 ^ 63)" by (simp add: bit_iff_odd)
  have "unat w div 2 ^ 63 < 2"
    using unsigned_less [of w, where 'a = nat] by (simp add: less_mult_imp_div_less)
  with e show ?thesis by (cases "unat w div 2 ^ 63 = 0") (auto simp: div_eq_0_iff)
qed

lemma random64_bits:
  assumes "rand_r_documented env"
  shows "\<not> bit (fst (random64 env s)) 31" and "unat (fst (random64 env s)) < 2 ^ 63"
  using assms or_bits top_bit_clear
  by (auto simp: random64_def rand_r_documented_def split: prod.split)
    (metis fst_conv)+

lemma draw_from_spec:
  assumes "rand_r_documented env"
  shows "\<exists>r g'. draw_from env rng g = (r, g') \<and> \<not> bit r 31 \<and> unat r < 2 ^ 63 \<and> rg_once g' = rg_once g \<and>
    tl_initialized (rg_storage g') = tl_initialized (rg_storage g) \<and> rng_ptrs g' = [fst rng]"
  using random64_bits [OF assms, of "snd rng"] by (auto simp: draw_from_def rng_ptrs_def split: prod.split)

text \<open>
  A call of \<open>jaeger_random64\<close> returns for every pattern of allocation failures, keeps the invariant of
  the global variables and owns at most the block of one generator.  Its result has bit 31 and bit 63
  clear, because \<open>rand_r\<close> returns a non-negative \<open>int\<close>: only 62 of the 64 bits are random.
\<close>

lemma random64_spec:
  assumes "rand_r_documented env" and "rng_ok g" and "\<not> has_run (rg_once g) \<longrightarrow> rn_key_create env = 0" and "mem_ok m" and "owns m (rng_ptrs g)"
  shows "\<exists>r g' m'. jaeger_random64 env garbage g m = Some (r, g', m') \<and> \<not> bit r 31 \<and> unat r < 2 ^ 63 \<and>
    rng_ok g' \<and> has_run (rg_once g') \<and> mem_trans (set (rng_ptrs g)) (set (rng_ptrs g')) m m'"
proof -
  define once where "once = rg_once g\<lparr>has_run := True\<rparr>"
  obtain st where st: "jaeger_do_once (rg_once g) (init_rng env) (rg_storage g) = Some (0, once, st)" "tl_initialized st"
    "tl_value st = tl_value (rg_storage g)"
    using assms(2,3) by (cases "has_run (rg_once g)") (auto simp: rng_ok_def jaeger_do_once_def init_rng_def jaeger_thread_local_init_def once_def)
  define g1 where "g1 = g\<lparr>rg_once := once, rg_storage := st\<rparr>"
  have g1: "rg_once g1 = once" "has_run once" "rg_storage g1 = st" by (simp_all add: g1_def once_def)
  note get = jaeger_thread_local_get_value_def jaeger_thread_local_check_initialized_def
  show ?thesis
  proof (cases "tl_value st")
    case (Some rng)
    from draw_from_spec [OF assms(1), of rng g1] obtain r g' where
      d: "draw_from env rng g1 = (r, g')" "\<not> bit r 31" "unat r < 2 ^ 63" "rg_once g' = once" "tl_initialized (rg_storage g')" "rng_ptrs g' = [fst rng]"
      using g1 st(2) by auto
    have "rng_ptrs g = [fst rng]" using Some st(3) by (simp add: rng_ptrs_def)
    then have t: "mem_trans (set (rng_ptrs g)) (set (rng_ptrs g')) m m" using assms(4,5) d(6) by (simp add: owns_def mem_trans_keep)
    have "jaeger_random64 env garbage g m = Some (r, g', m)"
      using st(1,2) Some d(1) by (simp add: jaeger_random64_def get g1_def [symmetric])
    with d t g1 show ?thesis by (auto simp: rng_ok_def)
  next
    case None
    then have p: "rng_ptrs g = []" "rng_ptrs g1 = []" using st(3) g1 by (simp_all add: rng_ptrs_def)
    show ?thesis
    proof (rule malloc_cases [OF assms(4), of SIZEOF_RNG])
      fix m1 assume "jaeger_malloc SIZEOF_RNG m = (None, m1)" "mem_trans {} {} m m1"
      with st None g1 p show ?thesis
        by (simp add: jaeger_random64_def get g1_def [symmetric] rng_ok_def jaeger_rng_alloc_def)
    next
      fix q m1 assume a: "jaeger_malloc SIZEOF_RNG m = (Some q, m1)" "mem_trans {} {q} m m1"
      show ?thesis
      proof (cases "rn_setspecific env = 0")
        case True
        define rng where "rng = jaeger_rng_init env q garbage"
        define st1 where "st1 = st\<lparr>tl_value := Some rng\<rparr>"
        from draw_from_spec [OF assms(1), of rng "g1\<lparr>rg_storage := st1\<rparr>"] obtain r g' where
          d: "draw_from env rng (g1\<lparr>rg_storage := st1\<rparr>) = (r, g')" "\<not> bit r 31" "unat r < 2 ^ 63" "rg_once g' = once"
          "tl_initialized (rg_storage g')" "rng_ptrs g' = [q]"
          using g1 st(2) by (auto simp: st1_def rng_def jaeger_rng_init_def)
        have "jaeger_random64 env garbage g m = Some (r, g', m1)"
          using st None True a(1) d(1)
          by (simp add: jaeger_random64_def get g1_def [symmetric] jaeger_rng_alloc_def rng_def [symmetric]
              jaeger_thread_local_set_value_def destructible_destroy_def st1_def [symmetric])
        with d g1 a(2) p show ?thesis by (auto simp: rng_ok_def)
      next
        case False
        from jaeger_free_live [of m1 q] mem_trans_ok [OF a(2)] mem_trans_dom [OF a(2)] obtain m2 where
          f: "jaeger_free (Some q) m1 = Some m2" "mem_trans {q} {} m1 m2" by auto
        have "jaeger_random64 env garbage g m = Some (0, g1, m2)"
          using st None False a(1) f(1) g1
          by (simp add: jaeger_random64_def get g1_def jaeger_rng_alloc_def
              jaeger_thread_local_set_value_def destructible_destroy_def)
        with g1 st p mem_trans_trans [OF a(2) f(2) assms(4)] show ?thesis by (simp add: rng_ok_def)
      qed
    qed
  qed
qed

definition random_env_one :: random_env where
  "random_env_one = \<lparr>rn_key_create = 0, rn_setspecific = 0, rn_getrandom = (\<lambda>_. 7),
     rn_rand_r = (\<lambda>s. (uint (drop_bit 1 s), 1103515245 * s + 12345))\<rparr>"

lemma random_env_one_documented: "rand_r_documented random_env_one"
proof -
  have "uint (drop_bit 1 s) \<le> INT_MAX" for s :: u32
    using uint_bounded [of s] by (simp add: INT_MAX_def drop_bit_eq_div uint_div)
  then show ?thesis by (simp add: rand_r_documented_def random_env_one_def)
qed

end
