(* ===== verification/Baggage.thy ===== *)
theory Baggage
  imports Span Metrics
begin

text \<open>
  Restrictions on baggage: \<open>src/jaegertracingc/baggage.c\<close>, \<open>baggage.h\<close>.

  A restriction manager is the function behind \<open>get_restriction\<close>, from the service and the key to the
  restriction; \<open>service_name\<close> is the name in the span's tracer.  The setter works without locks and
  ignores whether the insertion into the baggage succeeded.
\<close>

record jaeger_baggage_restriction =
  key_allowed :: bool
  max_value_len :: nat

record jaeger_default_baggage_restriction_manager =
  dm_max_value_len :: nat

definition jaeger_default_baggage_restriction_manager_get_restriction ::
  "jaeger_default_baggage_restriction_manager \<Rightarrow> string option \<Rightarrow> string \<Rightarrow> jaeger_baggage_restriction" where
  "jaeger_default_baggage_restriction_manager_get_restriction manager service key =
     \<lparr>key_allowed = True, max_value_len = dm_max_value_len manager\<rparr>"

definition jaeger_default_baggage_restriction_manager_init :: "nat \<Rightarrow> jaeger_default_baggage_restriction_manager" where
  "jaeger_default_baggage_restriction_manager_init max_len = \<lparr>dm_max_value_len = max_len\<rparr>"

record jaeger_baggage_setter =
  bs_manager :: "string option \<Rightarrow> string \<Rightarrow> jaeger_baggage_restriction"
  bs_metrics :: "jaeger_metrics option"

definition BOOL_STR :: "bool \<Rightarrow> string" where
  "BOOL_STR x = (if x then ''true'' else ''false'')"

definition LOG_FIELD :: "string \<Rightarrow> string \<Rightarrow> string option \<times> opentracing_value" where
  "LOG_FIELD key_str value_str = (Some key_str, OTV_string value_str)"

text \<open>The fields of the log record that tells what became of an item.\<close>

definition baggage_fields ::
  "string \<Rightarrow> string \<Rightarrow> bool \<Rightarrow> bool \<Rightarrow> bool \<Rightarrow> (string option \<times> opentracing_value) list" where
  "baggage_fields key value prev_item truncated allowed =
     [LOG_FIELD ''event'' ''baggage'', LOG_FIELD ''key'' key, LOG_FIELD ''value'' value,
      LOG_FIELD ''override'' (BOOL_STR prev_item), LOG_FIELD ''truncated'' (BOOL_STR truncated),
      LOG_FIELD ''invalid'' (BOOL_STR (\<not> allowed))]"

text \<open>From the label \<open>log\<close> on; \<open>now\<close> is the time the record is made, \<open>init_now\<close> the one its initialiser reads.\<close>

definition log_baggage ::
  "env \<Rightarrow> opentracing_time_value \<Rightarrow> opentracing_time_value \<Rightarrow> jaeger_span \<Rightarrow> string \<Rightarrow> string \<Rightarrow> bool \<Rightarrow> bool \<Rightarrow> bool \<Rightarrow> mem \<Rightarrow>
   (jaeger_span \<times> mem) option" where
  "log_baggage env now init_now sp key value prev_item truncated allowed m =
     (if jaeger_span_is_sampled_no_locking sp
      then jaeger_span_log_no_locking env init_now sp (now, baggage_fields key value prev_item truncated allowed) m
      else Some (sp, m))"

text \<open>The insertion of the possibly shortened value; false when the copy cannot be allocated.\<close>

definition put_truncated ::
  "env \<Rightarrow> jaeger_span \<Rightarrow> string \<Rightarrow> string \<Rightarrow> bool \<Rightarrow> nat \<Rightarrow> mem \<Rightarrow> (bool \<times> jaeger_span \<times> mem) option" where
  "put_truncated env sp key value truncated max_len m =
     (if truncated then
        (case jaeger_malloc (max_len + 1) m of
           (None, m) \<Rightarrow> Some (False, sp, m)
         | (Some value_copy, m) \<Rightarrow> do {
             (_, baggage, m) \<leftarrow> jaeger_hashtable_put (env_seed env) (ctx_baggage (sp_context sp)) key (take max_len value) m;
             m \<leftarrow> jaeger_free (Some value_copy) m;
             Some (True, sp\<lparr>sp_context := (sp_context sp)\<lparr>ctx_baggage := baggage\<rparr>\<rparr>, m)
           })
      else do {
        (_, baggage, m) \<leftarrow> jaeger_hashtable_put (env_seed env) (ctx_baggage (sp_context sp)) key value m;
        Some (True, sp\<lparr>sp_context := (sp_context sp)\<lparr>ctx_baggage := baggage\<rparr>\<rparr>, m)
      })"

definition jaeger_baggage_setter_set_baggage ::
  "env \<Rightarrow> opentracing_time_value \<Rightarrow> opentracing_time_value \<Rightarrow> jaeger_baggage_setter \<Rightarrow> string option \<Rightarrow> jaeger_span \<Rightarrow>
   string \<Rightarrow> string \<Rightarrow> mem \<Rightarrow> (jaeger_baggage_setter \<times> jaeger_span \<times> mem) option" where
  "jaeger_baggage_setter_set_baggage env now init_now setter service_name sp key value m = do {
     let restriction = bs_manager setter service_name key;
     if \<not> key_allowed restriction then do {
       (sp, m) \<leftarrow> log_baggage env now init_now sp key value False False False m;
       Some (setter, sp, m)
     }
     else do {
       let truncated = (length value > max_value_len restriction);
       metrics \<leftarrow> (case bs_metrics setter of
                     Some mt \<Rightarrow> if truncated then map_option Some (metrics_inc baggage_truncate 1 mt) else Some (Some mt)
                   | None \<Rightarrow> Some None);
       let setter = setter\<lparr>bs_metrics := metrics\<rparr>;
       kv \<leftarrow> jaeger_hashtable_find (env_seed env) (ctx_baggage (sp_context sp)) key;
       let prev_item = (kv \<noteq> None);
       (go, sp, m) \<leftarrow> put_truncated env sp key value truncated (max_value_len restriction) m;
       if \<not> go then Some (setter, sp, m)
       else do {
         (sp, m) \<leftarrow> log_baggage env now init_now sp key value prev_item truncated True m;
         Some (setter, sp, m)
       }
     }
   }"

section \<open>Logging\<close>

text \<open>The tag a field of a log record becomes.\<close>

definition field_tag :: "jaeger_tag \<Rightarrow> string option \<times> opentracing_value \<Rightarrow> jaeger_tag \<Rightarrow> bool" where
  "field_tag tag_init f t \<longleftrightarrow> (\<exists>k src. fst f = Some k \<and> tag_of tag_init k (snd f) = Some src \<and> tag_same src t)"

definition field_ok :: "string option \<times> opentracing_value \<Rightarrow> bool" where
  "field_ok f \<longleftrightarrow> fst f \<noteq> None \<and> snd f \<noteq> OTV_invalid"

lemma log_fields_loop_good:
  assumes "tag_blank tag_init" and "mem_good m" and "vec_ok v" and "\<forall>f\<in>set fs. field_ok f"
    and "vec_len v + int (length fs) \<le> vec_capacity v"
  shows "\<exists>v' ts m' A. log_fields_loop tag_init fs v m = Some (v', m') \<and> vec_ok v' \<and> vec_ptrs v' = vec_ptrs v \<and>
    vec_list v' = vec_list v @ ts \<and> list_all2 (field_tag tag_init) fs ts \<and> mem_trans {} A m m'"
  using assms(2-)
proof (induction fs arbitrary: v m)
  case Nil
  then show ?case by (auto simp: mem_good_def intro!: exI [of _ "{}"])
next
  case (Cons f fs)
  have m: "mem_ok m" "mem_plenty m" using Cons.prems(1) by (auto simp: mem_good_def)
  obtain k x where f: "f = (Some k, x)" "x \<noteq> OTV_invalid" using Cons.prems(3) by (cases f) (auto simp: field_ok_def)
  have room: "vec_len v < vec_capacity v" using Cons.prems(4) by simp
  note a = vec_append_room [OF Cons.prems(2) room, of TAG_ZERO m]
  from tag_initialiser.tag_from_key_value_spec [OF tag_initialiserI [OF assms(1)] m(1), of k x] obtain ok t0 m1 A where
    t0: "jaeger_tag_from_key_value tag_init (Some k) x m = Some (ok, t0, m1)"
    "ok \<longrightarrow> (\<exists>src t. tag_of tag_init k x = Some src \<and> t0 = Some t \<and> tag_same src t)" "mem_plenty m \<and> x \<noteq> OTV_invalid \<longrightarrow> ok"
    "mem_trans {} A m m1" by blast
  from t0 m(2) f(2) obtain src t where
    t: "jaeger_tag_from_key_value tag_init (Some k) x m = Some (True, Some t, m1)" "tag_of tag_init k x = Some src" "tag_same src t"
    "mem_trans {} A m m1" by auto
  from vec_append_spec(3) [OF a Cons.prems(2) m(1), of t] obtain w where
    w: "vec_write (v\<lparr>vec_len := vec_len v + 1\<rparr>) (Some (nat (vec_len v))) t = Some w" "vec_ok w" "vec_ptrs w = vec_ptrs v"
    "vec_len w = vec_len v + 1" "vec_capacity w = vec_capacity v" "vec_list w = vec_list v @ [t]" by (auto simp: vec_ptrs_def)
  have "vec_len w + int (length fs) \<le> vec_capacity w" using w(4,5) Cons.prems(4) by simp
  from Cons.IH [OF mem_good_trans [OF Cons.prems(1) t(4)] w(2) _ this] Cons.prems(3) obtain v' ts m' B where
    ih: "log_fields_loop tag_init fs w m1 = Some (v', m')" "vec_ok v'" "vec_ptrs v' = vec_ptrs w" "vec_list v' = vec_list w @ ts"
    "list_all2 (field_tag tag_init) fs ts" "mem_trans {} B m1 m'" by auto
  have run: "log_fields_loop tag_init (f # fs) v m = Some (v', m')" using a t(1) w(1) ih(1) f(1) by simp
  have "field_tag tag_init f t" using t(2,3) f(1) by (auto simp: field_tag_def)
  with run ih w mem_trans_alloc2(1) [OF t(4) ih(6) m(1)] show ?case
    by (intro exI [of _ v'] exI [of _ "t # ts"] exI [of _ m'] exI [of _ "A \<union> B"]) simp
qed

text \<open>The record a span keeps for logged fields.\<close>

definition logged :: "env \<Rightarrow> ot_log_record \<Rightarrow> jaeger_log_record \<Rightarrow> bool" where
  "logged env r l \<longleftrightarrow> log_timestamp l = fst r \<and> vec_ok (log_fields l) \<and>
     list_all2 (field_tag (env_tag_init env)) (snd r) (vec_list (log_fields l))"

lemma log_record_good:
  assumes "tag_blank tag_init" and "mem_good m" and "\<forall>f\<in>set fs. field_ok f" and "int (length fs) \<le> 2 ^ 20"
  shows "\<exists>l m' A. jaeger_log_record_from_opentracing tag_init now LOG_ZERO ts fs m = Some (True, l, m') \<and>
    log_timestamp l = ts \<and> vec_ok (log_fields l) \<and> list_all2 (field_tag tag_init) fs (vec_list (log_fields l)) \<and> mem_trans {} A m m'"
proof -
  have m: "mem_ok m" "mem_plenty m" using assms(2) by (auto simp: mem_good_def)
  have sz: "0 < SIZEOF_TAG" "SIZEOF_TAG * 10 \<le> INT_MAX" by (simp_all add: SIZEOF_TAG_def INT_MAX_def)
  obtain v m1 where
    i: "jaeger_vector_init TAG_ZERO SIZEOF_TAG (log_fields LOG_ZERO) m = Some (True, v, m1)" "vec_ok v" "vec_len v = 0"
    "vec_type_size v = SIZEOF_TAG" "fresh_list (vec_ptrs v) m m1"
    by (rule vec_init_good [OF assms(2) sz, of TAG_ZERO "log_fields LOG_ZERO"])
  note f = fresh_listD [OF i(5)]
  have sub: "set (vec_ptrs v) \<subseteq> dom (mem_blocks m1)" using f(2) by (simp add: owns_def)
  have "vec_room v (int (length fs))" using assms(4) i(4) by (simp add: vec_room_def SIZEOF_TAG_def INT_MAX_def)
  from vec_reserve_total [OF i(2) f(1) sub this, of TAG_ZERO] obtain ok v1 m2 where
    r: "jaeger_vector_reserve TAG_ZERO v (int (length fs)) m1 = Some (ok, v1, m2)" by blast
  have ok: ok by (rule vec_reserve_plenty [OF r f(1)]) (use f(3) m(2) in simp)
  note rs = vec_reserve_spec [OF r i(2) f(1)] and t2 = vec_reserve_spec(7) [OF r i(2) f(1) sub]
  have empty: "vec_list v1 = []" "vec_len v1 + int (length fs) \<le> vec_capacity v1"
    using rs(2,3) rs(5) [OF ok] i(3) length_vec_list [OF i(2)] by auto
  have fr: "fresh_list (vec_ptrs v1) m m2"
    using fresh_list_replace [of "[]", OF _ t2 distinct_vec_ptrs m(1)] i(5) by simp
  have m2: "mem_good m2" using mem_good_trans [OF assms(2) fresh_listD(4) [OF fr]] .
  from log_fields_loop_good [OF assms(1) m2 rs(1) assms(3) empty(2)] obtain v' us m3 B where
    l: "log_fields_loop tag_init fs v1 m2 = Some (v', m3)" "vec_ok v'" "vec_list v' = us" "list_all2 (field_tag tag_init) fs us"
    "mem_trans {} B m2 m3" using empty(1) by auto
  have "jaeger_log_record_from_opentracing tag_init now LOG_ZERO ts fs m = Some (True, LOG_ZERO\<lparr>log_fields := v', log_timestamp := ts\<rparr>, m3)"
    using i(1) r ok l(1) by (simp add: jaeger_log_record_from_opentracing_def jaeger_log_record_init_def LOG_ZERO_def)
  with l mem_trans_alloc2(1) [OF fresh_listD(4) [OF fr] l(5) m(1)] show ?thesis
    by (intro exI [of _ "LOG_ZERO\<lparr>log_fields := v', log_timestamp := ts\<rparr>"] exI [of _ m3] exI [of _ "set (vec_ptrs v1) \<union> B"]) simp
qed

lemma span_log_good:
  assumes "tag_blank (env_tag_init env)" and "mem_good m" and "vec_ok (sp_logs sp)" and "set (vec_ptrs (sp_logs sp)) \<subseteq> dom (mem_blocks m)"
    and "vec_room (sp_logs sp) (vec_capacity (sp_logs sp) + 1)" and "\<forall>f\<in>set (snd r). field_ok f" and "int (length (snd r)) \<le> 2 ^ 20"
  shows "\<exists>logs l m'. jaeger_span_log_no_locking env now sp r m = Some (sp\<lparr>sp_logs := logs\<rparr>, m') \<and> vec_ok logs \<and>
    vec_list logs = vec_list (sp_logs sp) @ [l] \<and> logged env r l"
proof -
  have m: "mem_ok m" "mem_plenty m" using assms(2) by (auto simp: mem_good_def)
  from vec_append_total [OF assms(3) m(1) assms(4,5), of LOG_ZERO] obtain s v m1 where
    a: "jaeger_vector_append LOG_ZERO (sp_logs sp) m = Some (s, v, m1)" by blast
  have s: "s \<noteq> None" by (rule vec_append_plenty [OF a assms(3) m])
  note t1 = vec_append_spec(4) [OF a assms(3) m(1) assms(4)]
  from log_record_good [OF assms(1) mem_good_trans [OF assms(2) t1] assms(6,7), of now "fst r"] obtain l m2 where
    l: "jaeger_log_record_from_opentracing (env_tag_init env) now LOG_ZERO (fst r) (snd r) m1 = Some (True, l, m2)"
    "log_timestamp l = fst r" "vec_ok (log_fields l)" "list_all2 (field_tag (env_tag_init env)) (snd r) (vec_list (log_fields l))" by blast
  from vec_append_spec(3) [OF a assms(3) m(1) s, of l] obtain w where
    w: "vec_write v s l = Some w" "vec_ok w" "vec_list w = vec_list (sp_logs sp) @ [l]" by blast
  have "jaeger_span_log_no_locking env now sp r m = Some (sp\<lparr>sp_logs := w\<rparr>, m2)"
    using a s l(1) w(1) by (auto simp: jaeger_span_log_no_locking_def)
  with w l show ?thesis by (auto simp: logged_def)
qed

section \<open>Properties\<close>

lemma put_truncated_good:
  assumes "mem_good m" and "ht_ok (env_seed env) (ctx_baggage (sp_context sp))"
    and "owns m (ht_ptrs (ctx_baggage (sp_context sp)))" and "ht_size (ctx_baggage (sp_context sp)) < 2 ^ 30"
  shows "\<exists>b m'. put_truncated env sp key value (length value > max_len) max_len m =
      Some (True, sp\<lparr>sp_context := (sp_context sp)\<lparr>ctx_baggage := b\<rparr>\<rparr>, m') \<and> ht_ok (env_seed env) b \<and>
    ht_map b = (ht_map (ctx_baggage (sp_context sp)))(key \<mapsto> take max_len value) \<and> distinct (ht_ptrs b) \<and>
    mem_trans (set (ht_ptrs (ctx_baggage (sp_context sp)))) (set (ht_ptrs b)) m m'"
proof -
  let ?b = "ctx_baggage (sp_context sp)"
  have m: "mem_ok m" "mem_plenty m" using assms(1) by (auto simp: mem_good_def)
  have put: "\<exists>b m'. jaeger_hashtable_put (env_seed env) ?b key v m1 = Some (True, b, m') \<and> ht_ok (env_seed env) b \<and>
      ht_map b = (ht_map ?b)(key \<mapsto> v) \<and> distinct (ht_ptrs b) \<and> mem_trans (set (ht_ptrs ?b)) (set (ht_ptrs b)) m1 m'"
    if "mem_good m1" "owns m1 (ht_ptrs ?b)" for v m1
    using htm.put_law [OF assms(2) _ that(2) assms(4), of key v] that(1) by (auto simp: mem_good_def)
  show ?thesis
  proof (cases "length value > max_len")
    case False
    with put [OF assms(1,3), of "value"] show ?thesis by (auto simp: put_truncated_def)
  next
    case True
    from malloc_plenty [OF m, of "max_len + 1"] obtain p m1 where a: "jaeger_malloc (max_len + 1) m = (Some p, m1)" "fresh_list [p] m m1" .
    have o1: "owns m1 (ht_ptrs ?b)" "set (ht_ptrs ?b) \<inter> {p} = {}"
      using owns_frame [OF fresh_listD(4) [OF a(2)] assms(3)] by auto
    from put [OF mem_good_trans [OF assms(1) fresh_listD(4) [OF a(2)]] o1(1), of "take max_len value"] obtain b m2 where
      b: "jaeger_hashtable_put (env_seed env) ?b key (take max_len value) m1 = Some (True, b, m2)" "ht_ok (env_seed env) b"
      "ht_map b = (ht_map ?b)(key \<mapsto> take max_len value)" "distinct (ht_ptrs b)" "mem_trans (set (ht_ptrs ?b)) (set (ht_ptrs b)) m1 m2" by blast
    have p2: "owns m2 [p]" using owns_frame [OF b(5), of "[p]"] fresh_listD(2) [OF a(2)] o1(2) by auto
    from jaeger_free_live [OF mem_trans_ok [OF b(5)], of p] p2 obtain m3 where
      f: "jaeger_free (Some p) m2 = Some m3" "mem_trans {p} {} m2 m3" by (auto simp: owns_def)
    have "mem_trans (set (ht_ptrs ?b)) (set (ht_ptrs b)) m m3"
      by (rule mem_trans_scratch [of "[p]" m m1 _ _ m2]) (use a(2) b(5) f(2) assms(3) m(1) in \<open>auto simp: fresh_list_def owns_def\<close>)
    with True a(1) b f(1) show ?thesis by (auto simp: put_truncated_def)
  qed
qed

text \<open>
  C33: the baggage setter enforces the restriction of the manager.  With memory available it returns.  A key
  that is not allowed changes no baggage; an allowed one is set to the value, cut to the maximal length,
  and a cut is counted.  A sampled span gets one log record, with the time, that tells the event, the
  key, the full value and whether an item was replaced, cut or refused; another span gets none.  Nothing
  else of the span changes.
\<close>

theorem setter_enforces_restriction:
  assumes "tag_blank (env_tag_init env)" and "mem_ok m" and "mem_plenty m" and "ht_ok (env_seed env) (ctx_baggage (sp_context sp))"
    and "owns m (ht_ptrs (ctx_baggage (sp_context sp)) @ vec_ptrs (sp_logs sp))" and "ht_size (ctx_baggage (sp_context sp)) < 2 ^ 30"
    and "vec_ok (sp_logs sp)" and "vec_room (sp_logs sp) (vec_capacity (sp_logs sp) + 1)"
    and "\<forall>mt. bs_metrics setter = Some mt \<longrightarrow> mt_counters mt baggage_truncate \<noteq> None"
  shows "\<exists>setter' sp' m' logs b r.
    jaeger_baggage_setter_set_baggage env now init_now setter service sp key value m = Some (setter', sp', m') \<and>
    sp' = sp\<lparr>sp_context := (sp_context sp)\<lparr>ctx_baggage := b\<rparr>, sp_logs := logs\<rparr> \<and>
    bs_manager setter service key = r \<and> ht_ok (env_seed env) b \<and>
    ht_map b = (if key_allowed r then (ht_map (ctx_baggage (sp_context sp)))(key \<mapsto> take (max_value_len r) value)
                else ht_map (ctx_baggage (sp_context sp))) \<and>
    (if key_allowed r \<and> length value > max_value_len r
     then map_option (\<lambda>mt. the (metrics_inc baggage_truncate 1 mt)) (bs_metrics setter) else bs_metrics setter) = bs_metrics setter' \<and>
    (if jaeger_span_is_sampled_no_locking sp then
       \<exists>l. vec_list logs = vec_list (sp_logs sp) @ [l] \<and>
         logged env (now, baggage_fields key value (key_allowed r \<and> ht_map (ctx_baggage (sp_context sp)) key \<noteq> None)
           (key_allowed r \<and> length value > max_value_len r) (key_allowed r)) l
     else logs = sp_logs sp)"
proof -
  let ?b = "ctx_baggage (sp_context sp)" and ?r = "bs_manager setter service key"
  have g: "mem_good m" using assms(2,3) by (simp add: mem_good_def)
  have log: "\<exists>logs m'. log_baggage env now init_now s key value p t a m1 = Some (s\<lparr>sp_logs := logs\<rparr>, m') \<and>
      (if jaeger_span_is_sampled_no_locking sp then \<exists>l. vec_list logs = vec_list (sp_logs sp) @ [l] \<and>
         logged env (now, baggage_fields key value p t a) l else logs = sp_logs sp)"
    if "mem_good m1" "set (vec_ptrs (sp_logs sp)) \<subseteq> dom (mem_blocks m1)" "sp_logs s = sp_logs sp"
      "ctx_flags (sp_context s) = ctx_flags (sp_context sp)" for s p t a m1
  proof (cases "jaeger_span_is_sampled_no_locking sp")
    case True
    have "\<forall>f\<in>set (baggage_fields key value p t a). field_ok f" "int (length (baggage_fields key value p t a)) \<le> 2 ^ 20"
      by (simp_all add: baggage_fields_def LOG_FIELD_def field_ok_def)
    with span_log_good [OF assms(1) that(1), of s "(now, baggage_fields key value p t a)" init_now] that assms(7,8) True show ?thesis
      by (auto simp: log_baggage_def jaeger_span_is_sampled_no_locking_def)
  next
    case False
    with that show ?thesis by (auto simp: log_baggage_def jaeger_span_is_sampled_no_locking_def intro!: exI [of _ "sp_logs sp"])
  qed
  show ?thesis
  proof (cases "key_allowed ?r")
    case False
    have d: "set (vec_ptrs (sp_logs sp)) \<subseteq> dom (mem_blocks m)" using assms(5) by (simp add: owns_def)
    from log [OF g d refl refl, of False False False] obtain logs m' where
      l: "log_baggage env now init_now sp key value False False False m = Some (sp\<lparr>sp_logs := logs\<rparr>, m')"
      "if jaeger_span_is_sampled_no_locking sp then \<exists>l. vec_list logs = vec_list (sp_logs sp) @ [l] \<and>
         logged env (now, baggage_fields key value False False False) l else logs = sp_logs sp" by blast
    have "jaeger_baggage_setter_set_baggage env now init_now setter service sp key value m = Some (setter, sp\<lparr>sp_logs := logs\<rparr>, m')"
      using False l(1) by (simp add: jaeger_baggage_setter_set_baggage_def)
    with False l(2) assms(4) show ?thesis
      by (intro exI [of _ setter] exI [of _ "sp\<lparr>sp_logs := logs\<rparr>"] exI [of _ m'] exI [of _ logs] exI [of _ ?b] exI [of _ ?r]) simp
  next
    case True
    define tr where "tr = (length value > max_value_len ?r)"
    have o: "owns m (ht_ptrs ?b)" using assms(5) by (auto simp: owns_def)
    from put_truncated_good [OF g assms(4) o assms(6), of key "value" "max_value_len ?r"] obtain b m1 where
      b: "put_truncated env sp key value tr (max_value_len ?r) m = Some (True, sp\<lparr>sp_context := (sp_context sp)\<lparr>ctx_baggage := b\<rparr>\<rparr>, m1)"
      "ht_ok (env_seed env) b" "ht_map b = (ht_map ?b)(key \<mapsto> take (max_value_len ?r) value)" "mem_trans (set (ht_ptrs ?b)) (set (ht_ptrs b)) m m1"
      unfolding tr_def by blast
    have d: "set (vec_ptrs (sp_logs sp)) \<subseteq> dom (mem_blocks m1)"
      using owns_frame [OF b(4), of "vec_ptrs (sp_logs sp)"] assms(5) by (auto simp: owns_def)
    from find_spec [OF assms(4), of key] obtain kv where
      kv: "jaeger_hashtable_find (env_seed env) ?b key = Some kv" "map_option kv_string kv = ht_map ?b key" by blast
    have prev: "kv \<noteq> None \<longleftrightarrow> ht_map ?b key \<noteq> None" unfolding kv(2) [symmetric] by simp
    define mt where "mt = (if tr then map_option (\<lambda>mt. the (metrics_inc baggage_truncate 1 mt)) (bs_metrics setter) else bs_metrics setter)"
    have mt: "(case bs_metrics setter of
         Some x \<Rightarrow> if tr then map_option Some (metrics_inc baggage_truncate 1 x) else Some (Some x) | None \<Rightarrow> Some None) = Some mt"
      using assms(9) by (auto simp: mt_def metrics_inc_def split: option.split)
    let ?s = "sp\<lparr>sp_context := (sp_context sp)\<lparr>ctx_baggage := b\<rparr>\<rparr>"
    from log [OF mem_good_trans [OF g b(4)] d, of ?s "kv \<noteq> None" tr True] obtain logs m' where
      l: "log_baggage env now init_now ?s key value (kv \<noteq> None) tr True m1 = Some (?s\<lparr>sp_logs := logs\<rparr>, m')"
      "if jaeger_span_is_sampled_no_locking sp then \<exists>l. vec_list logs = vec_list (sp_logs sp) @ [l] \<and>
         logged env (now, baggage_fields key value (kv \<noteq> None) tr True) l else logs = sp_logs sp" by auto
    have "jaeger_baggage_setter_set_baggage env now init_now setter service sp key value m = Some (setter\<lparr>bs_metrics := mt\<rparr>, ?s\<lparr>sp_logs := logs\<rparr>, m')"
      using True mt kv(1) b(1) l(1) by (simp add: jaeger_baggage_setter_set_baggage_def tr_def [symmetric])
    with True b(2,3) l(2) [unfolded prev tr_def] show ?thesis
      by (intro exI [of _ "setter\<lparr>bs_metrics := mt\<rparr>"] exI [of _ "?s\<lparr>sp_logs := logs\<rparr>"] exI [of _ m'] exI [of _ logs] exI [of _ b] exI [of _ ?r])
        (simp add: mt_def tr_def del: not_None_eq)
  qed
qed

definition mem_two :: mem where
  "mem_two = mem_one\<lparr>mem_next := 2, mem_blocks := [0 \<mapsto> 256, 1 \<mapsto> 40]\<rparr>"

definition setter_one :: jaeger_baggage_setter where
  "setter_one =
     \<lparr>bs_manager = jaeger_default_baggage_restriction_manager_get_restriction (jaeger_default_baggage_restriction_manager_init 2),
      bs_metrics = Some jaeger_null_metrics\<rparr>"

definition span_logs :: jaeger_span where
  "span_logs = span_one\<lparr>sp_logs := \<lparr>vec_len = 0, vec_capacity = 1, vec_data = Some (1, [LOG_ZERO]), vec_type_size = SIZEOF_LOG_RECORD\<rparr>\<rparr>"

theorem setter_enforces_restriction_witness:
  "\<exists>setter' sp' m'. jaeger_baggage_setter_set_baggage env_one TIME_ZERO TIME_ZERO setter_one None span_logs ''k'' ''abc'' mem_two =
      Some (setter', sp', m') \<and>
    ht_map (ctx_baggage (sp_context sp')) = (ht_map (ctx_baggage ctx_one))(''k'' \<mapsto> ''ab'') \<and>
    (\<exists>l. vec_list (sp_logs sp') = [l] \<and> logged env_one (TIME_ZERO, baggage_fields ''k'' ''abc'' False True True) l)"
proof -
  have m: "mem_ok mem_two" "mem_plenty mem_two" "owns mem_two [0, 1]"
    by (auto simp: mem_two_def mem_one_def mem_ok_def mem_plenty_def owns_def)
  have l: "vec_ok (sp_logs span_logs)" "vec_room (sp_logs span_logs) (vec_capacity (sp_logs span_logs) + 1)"
    "vec_ptrs (sp_logs span_logs) = [1]" "vec_list (sp_logs span_logs) = []" "sp_context span_logs = ctx_one"
    "jaeger_span_is_sampled_no_locking span_logs"
    using span_one_ok(6,7) by (simp_all add: span_logs_def vec_ok_def vec_room_def vec_ptrs_def vec_list_def SIZEOF_LOG_RECORD_def INT_MAX_def
        jaeger_span_is_sampled_no_locking_def)
  have c: "ht_ok (env_seed env_one) (ctx_baggage ctx_one)" "ht_ptrs (ctx_baggage ctx_one) = [0]" "ht_size (ctx_baggage ctx_one) < 2 ^ 30"
    "ht_map (ctx_baggage ctx_one) ''k'' = None" by simp_all
  have r: "bs_manager setter_one None ''k'' = \<lparr>key_allowed = True, max_value_len = 2\<rparr>"
    "\<forall>mt. bs_metrics setter_one = Some mt \<longrightarrow> mt_counters mt baggage_truncate \<noteq> None"
    by (simp_all add: setter_one_def jaeger_default_baggage_restriction_manager_get_restriction_def
        jaeger_default_baggage_restriction_manager_init_def jaeger_null_metrics_def)
  have "tag_blank (env_tag_init env_one)" by (simp add: env_one_def tag_blank_def TAG_ZERO_def)
  from setter_enforces_restriction [OF this m(1,2), of span_logs setter_one TIME_ZERO TIME_ZERO None "''k''" "''abc''"] m(3) l c r
  show ?thesis by auto
qed

end
