(* ===== verification/Tracer.thy ===== *)
theory Tracer
  imports Carriers Sampler Reporter Rng
begin

unbundle bit_operations_syntax

text \<open>
  The tracer: \<open>src/jaegertracingc/tracer.c\<close>, \<open>tracer.h\<close>.

  A tracer owns or borrows its metrics, sampler and reporter.  Sampler and reporter are reached through
  their method tables, so the methods are members of \<open>tracer_env\<close>, over the sampler's state \<open>'s\<close>, the
  reporter's state \<open>'r\<close> and the rest of the world \<open>'w\<close> (the network).  \<open>tracer_env\<close> also has what the
  system library answers.  The metrics are the tracer's; the reporter counts in its own record.
\<close>

section \<open>The host\<close>

text \<open>A socket address: family, port and the four bytes behind it as stored, and what \<open>inet_ntop\<close> prints.\<close>

record sockaddr =
  sa_family :: int
  sa_port :: "16 word"
  sa_s_addr :: u32
  sa_text :: "string option"

record ifaddrs =
  ifa_flags :: u32
  ifa_addr :: "sockaddr option"

definition AF_INET :: int where
  "AF_INET = 2"

definition IFF_UP :: u32 where
  "IFF_UP = 1"

definition IFF_LOOPBACK :: u32 where
  "IFF_LOOPBACK = 8"

text \<open>\<open>htonl(INADDR_LOOPBACK)\<close> and \<open>htons\<close> on a little-endian host.\<close>

definition INADDR_LOOPBACK_net :: u32 where
  "INADDR_LOOPBACK_net = 0x0100007f"

definition htons :: "16 word \<Rightarrow> 16 word" where
  "htons w = push_bit 8 w OR drop_bit 8 w"

text \<open>\<open>gethost\<close> is the name \<open>gethostname\<close> stored, or \<open>None\<close> if it failed.\<close>

definition hostname :: "string option \<Rightarrow> mem \<Rightarrow> (cstring option \<times> mem) option" where
  "hostname gethost m = (case gethost of None \<Rightarrow> Some (None, m) | Some name \<Rightarrow> jaeger_strdup (Some name) m)"

definition score_addr :: "ifaddrs \<Rightarrow> int" where
  "score_addr addr =
     (case ifa_addr addr of
        None \<Rightarrow> 0
      | Some sock_addr \<Rightarrow>
          (if sa_family sock_addr = AF_INET then 300 else 0) +
          (if ifa_flags addr AND IFF_LOOPBACK = 0 \<and> sa_s_addr sock_addr \<noteq> INADDR_LOOPBACK_net
           then 100 + (if ifa_flags addr AND IFF_UP \<noteq> 0 then 100 else 0)
           else 0))"

fun best_addr_loop :: "ifaddrs list \<Rightarrow> int \<Rightarrow> ifaddrs option \<Rightarrow> ifaddrs option" where
  "best_addr_loop [] max_score best_addr = best_addr"
| "best_addr_loop (iter # rest) max_score best_addr =
     (let score = score_addr iter
      in if score > max_score then best_addr_loop rest score (Some iter)
         else best_addr_loop rest max_score best_addr)"

text \<open>The C library's \<open>strdup\<close>, which allocates with \<open>malloc\<close>.\<close>

definition strdup :: "string \<Rightarrow> mem \<Rightarrow> cstring option \<times> mem" where
  "strdup s m = (case built_in_malloc (length s + 1) m of (None, m) \<Rightarrow> (None, m) | (Some p, m) \<Rightarrow> (Some (p, s), m))"

definition IP_BUFFER_SIZE :: nat where
  "IP_BUFFER_SIZE = HOST_NAME_MAX + 1 + JAEGERTRACINGC_MAX_PORT_STR_LEN"

text \<open>\<open>addrs\<close> is what \<open>getifaddrs\<close> gives; \<open>inet_ntop\<close> fails if the text does not fit into the buffer.\<close>

definition local_ip_str :: "ifaddrs list option \<Rightarrow> mem \<Rightarrow> cstring option \<times> mem" where
  "local_ip_str addrs m =
     (case addrs of
        None \<Rightarrow> (None, m)
      | Some addrs \<Rightarrow>
          (case best_addr_loop addrs 0 None of
             None \<Rightarrow> (None, m)
           | Some best_addr \<Rightarrow>
               (case ifa_addr best_addr of
                  None \<Rightarrow> (None, m)
                | Some addr \<Rightarrow>
                    (case sa_text addr of
                       None \<Rightarrow> (None, m)
                     | Some buffer \<Rightarrow>
                         if length buffer + 1 > IP_BUFFER_SIZE then (None, m)
                         else
                           let rem_len = IP_BUFFER_SIZE - length buffer;
                               (num_chars, rest) = snprintf rem_len ('':'' @ fmt_d (uint (htons (sa_port addr))))
                           in if num_chars \<le> rem_len then strdup (buffer @ the rest) m else (None, m)))))"

section \<open>The tracer\<close>

definition JAEGERTRACINGC_CLIENT_VERSION :: string where
  "JAEGERTRACINGC_CLIENT_VERSION = ''C-0.0.1''"

definition JAEGERTRACINGC_CLIENT_VERSION_TAG_KEY :: string where
  "JAEGERTRACINGC_CLIENT_VERSION_TAG_KEY = ''jaeger.version''"

definition JAEGERTRACINGC_TRACER_HOSTNAME_TAG_KEY :: string where
  "JAEGERTRACINGC_TRACER_HOSTNAME_TAG_KEY = ''hostname''"

definition JAEGERTRACINGC_TRACER_IP_TAG_KEY :: string where
  "JAEGERTRACINGC_TRACER_IP_TAG_KEY = ''ip''"

definition JAEGERTRACINGC_DEBUG_HEADER :: string where
  "JAEGERTRACINGC_DEBUG_HEADER = ''jaeger-debug-id''"

text \<open>
  \<open>append_tag\<close> takes over the string \<open>value\<close>.  Its cleanup also runs when no slot was appended, and then
  shortens the vector by an element that was there before.
\<close>

definition append_tag ::
  "env \<Rightarrow> jaeger_tag jaeger_vector \<Rightarrow> string \<Rightarrow> cstring option \<Rightarrow> mem \<Rightarrow> (bool \<times> jaeger_tag jaeger_vector \<times> mem) option" where
  "append_tag env tags key value m =
     (case value of
        None \<Rightarrow> Some (False, tags, m)
      | Some v \<Rightarrow> do {
          (slot, tags, m) \<leftarrow> jaeger_vector_append TAG_ZERO tags m;
          if slot = None then do {
            m \<leftarrow> jaeger_free (Some (fst v)) m;
            Some (False, tags\<lparr>vec_len := vec_len tags - 1\<rparr>, m)
          }
          else do {
            (ok, tag, m) \<leftarrow> jaeger_tag_init (env_tag_init env) (Some key) m;
            if \<not> ok then do {
              m \<leftarrow> jaeger_free (Some (fst v)) m;
              (tag, m) \<leftarrow> jaeger_tag_destroy tag m;
              tags \<leftarrow> vec_write tags slot tag;
              Some (False, tags\<lparr>vec_len := vec_len tags - 1\<rparr>, m)
            }
            else do {
              tags \<leftarrow> vec_write tags slot (tag\<lparr>tag_v_type := VT_STRING, tag_v_str := Some v\<rparr>);
              Some (True, tags, m)
            }
          }
        })"

record jaeger_tracer_options =
  gen_128_bit :: bool

record ('s, 'r) jaeger_tracer =
  tc_service_name :: "cstring option"
  tc_metrics :: "(ptr \<times> jaeger_metrics) option"
  tc_sampler :: "(ptr \<times> 's) option"
  tc_reporter :: "(ptr \<times> 'r) option"
  tc_options :: jaeger_tracer_options
  tc_headers :: jaeger_headers_config
  tc_tags :: "jaeger_tag jaeger_vector"
  tc_allocated_metrics :: bool
  tc_allocated_sampler :: bool
  tc_allocated_reporter :: bool

definition JAEGERTRACINGC_TRACER_INIT :: "('s, 'r) jaeger_tracer" where
  "JAEGERTRACINGC_TRACER_INIT =
     \<lparr>tc_service_name = None, tc_metrics = None, tc_sampler = None, tc_reporter = None,
      tc_options = \<lparr>gen_128_bit = False\<rparr>, tc_headers = JAEGERTRACINGC_HEADERS_CONFIG_INIT,
      tc_tags = JAEGERTRACINGC_VECTOR_INIT,
      tc_allocated_metrics = False, tc_allocated_sampler = False, tc_allocated_reporter = False\<rparr>"

text \<open>
  The methods of the sampler and of the reporter; the initialisers of the default ones; the system's
  answers; the generator of random numbers; what a reference of the caller gives when its bytes are read
  as a \<open>jaeger_span_ref\<close> (undefined by the C standard, hence usually \<open>None\<close>); the \<open>opentracing_value\<close> of
  zero bytes; the sizes of the structures.
\<close>

record ('s, 'r, 'w) tracer_env =
  te_env :: env
  te_is_sampled :: "'s \<Rightarrow> jaeger_trace_id \<Rightarrow> string option \<Rightarrow> jaeger_tag jaeger_vector \<Rightarrow> rng_globals \<Rightarrow> mem \<Rightarrow>
    (bool \<times> 's \<times> jaeger_tag jaeger_vector \<times> rng_globals \<times> mem) option"
  te_sampler_destroy :: "'s \<Rightarrow> mem \<Rightarrow> ('s \<times> mem) option"
  te_report :: "tracer_process option \<Rightarrow> 'r \<Rightarrow> jaeger_span \<Rightarrow> 'w \<Rightarrow> mem \<Rightarrow> ('r \<times> 'w \<times> mem) option"
  te_flush :: "'r \<Rightarrow> 'w \<Rightarrow> mem \<Rightarrow> (bool \<times> 'r \<times> 'w \<times> mem) option"
  te_reporter_destroy :: "'r \<Rightarrow> 'w \<Rightarrow> mem \<Rightarrow> ('r \<times> 'w \<times> mem) option"
  te_remote_sampler_init :: "string \<Rightarrow> jaeger_metrics option \<Rightarrow> mem \<Rightarrow> (bool \<times> 's \<times> mem) option"
  te_remote_reporter_init :: "jaeger_metrics option \<Rightarrow> mem \<Rightarrow> (bool \<times> 'r \<times> mem) option"
  te_gethost :: "string option"
  te_addrs :: "ifaddrs list option"
  te_random :: random_env
  te_garbage :: u32
  te_as_span_ref :: "jaeger_span_ref_type \<times> jaeger_span_context option \<Rightarrow> jaeger_span_ref option"
  te_zero_value :: opentracing_value
  te_sizeof_metrics :: nat
  te_sizeof_sampler :: nat
  te_sizeof_reporter :: nat
  te_sizeof_span :: nat

text \<open>The metrics allocated here are not freed when their initialisation fails.\<close>

definition default_metrics :: "('s, 'r, 'w) tracer_env \<Rightarrow> mem \<Rightarrow> ((ptr \<times> jaeger_metrics) option \<times> mem) option" where
  "default_metrics te m =
     (case jaeger_malloc (te_sizeof_metrics te) m of
        (None, m) \<Rightarrow> Some (None, m)
      | (Some p, m) \<Rightarrow> do {
          (ok, metrics, m) \<leftarrow> jaeger_default_metrics_init m;
          Some (if ok then Some (p, metrics) else None, m)
        })"

definition default_sampler ::
  "('s, 'r, 'w) tracer_env \<Rightarrow> string \<Rightarrow> jaeger_metrics option \<Rightarrow> mem \<Rightarrow> ((ptr \<times> 's) option \<times> mem) option" where
  "default_sampler te service_name metrics m =
     (case jaeger_malloc (te_sizeof_sampler te) m of
        (None, m) \<Rightarrow> Some (None, m)
      | (Some p, m) \<Rightarrow> do {
          (ok, s, m) \<leftarrow> te_remote_sampler_init te service_name metrics m;
          if ok then Some (Some (p, s), m)
          else do {
            m \<leftarrow> jaeger_free (Some p) m;
            Some (None, m)
          }
        })"

definition default_reporter ::
  "('s, 'r, 'w) tracer_env \<Rightarrow> jaeger_metrics option \<Rightarrow> mem \<Rightarrow> ((ptr \<times> 'r) option \<times> mem) option" where
  "default_reporter te metrics m =
     (case jaeger_malloc (te_sizeof_reporter te) m of
        (None, m) \<Rightarrow> Some (None, m)
      | (Some p, m) \<Rightarrow> do {
          (ok, r, m) \<leftarrow> te_remote_reporter_init te metrics m;
          if ok then Some (Some (p, r), m)
          else do {
            m \<leftarrow> jaeger_free (Some p) m;
            Some (None, m)
          }
        })"

definition jaeger_tracer_flush ::
  "('s, 'r, 'w) tracer_env \<Rightarrow> ('s, 'r) jaeger_tracer \<Rightarrow> 'w \<Rightarrow> mem \<Rightarrow> (bool \<times> ('s, 'r) jaeger_tracer \<times> 'w \<times> mem) option" where
  "jaeger_tracer_flush te tracer w m = do {
     (p, r) \<leftarrow> tc_reporter tracer;
     (ok, r, w, m) \<leftarrow> te_flush te r w m;
     Some (ok, tracer\<lparr>tc_reporter := Some (p, r)\<rparr>, w, m)
   }"

definition jaeger_tracer_close ::
  "('s, 'r, 'w) tracer_env \<Rightarrow> ('s, 'r) jaeger_tracer \<Rightarrow> 'w \<Rightarrow> mem \<Rightarrow> (('s, 'r) jaeger_tracer \<times> 'w \<times> mem) option" where
  "jaeger_tracer_close te tracer w m = do {
     (_, tracer, w, m) \<leftarrow> jaeger_tracer_flush te tracer w m;
     Some (tracer, w, m)
   }"

definition free_if :: "bool \<Rightarrow> ptr \<Rightarrow> mem \<Rightarrow> mem option" where
  "free_if allocated p m = (if allocated then jaeger_free (Some p) m else Some m)"

definition jaeger_tracer_destroy ::
  "('s, 'r, 'w) tracer_env \<Rightarrow> ('s, 'r) jaeger_tracer \<Rightarrow> 'w \<Rightarrow> mem \<Rightarrow> (('s, 'r) jaeger_tracer \<times> 'w \<times> mem) option" where
  "jaeger_tracer_destroy te tracer w m = do {
     (tracer, w, m) \<leftarrow> jaeger_tracer_close te tracer w m;
     m \<leftarrow> jaeger_free (map_option fst (tc_service_name tracer)) m;
     m \<leftarrow> (case tc_metrics tracer of
             None \<Rightarrow> Some m
           | Some (p, metrics) \<Rightarrow> do {
               (metrics, m) \<leftarrow> jaeger_metrics_destroy metrics m;
               free_if (tc_allocated_metrics tracer) p m
             });
     m \<leftarrow> (case tc_sampler tracer of
             None \<Rightarrow> Some m
           | Some (p, s) \<Rightarrow> do {
               (s, m) \<leftarrow> te_sampler_destroy te s m;
               free_if (tc_allocated_sampler tracer) p m
             });
     (w, m) \<leftarrow> (case tc_reporter tracer of
             None \<Rightarrow> Some (w, m)
           | Some (p, r) \<Rightarrow> do {
               (r, w, m) \<leftarrow> te_reporter_destroy te r w m;
               m \<leftarrow> free_if (tc_allocated_reporter tracer) p m;
               Some (w, m)
             });
     m \<leftarrow> vec_for_each_destroy jaeger_tag_destroy (tc_tags tracer) m;
     (tags, m) \<leftarrow> jaeger_vector_destroy (tc_tags tracer) m;
     Some (tracer\<lparr>tc_service_name := None, tc_metrics := None, tc_sampler := None, tc_reporter := None, tc_tags := tags,
       tc_allocated_metrics := False, tc_allocated_sampler := False, tc_allocated_reporter := False\<rparr>, w, m)
   }"

text \<open>The three calls of \<open>append_tag\<close> at the end of \<open>jaeger_tracer_init\<close>; a failing one skips the rest.\<close>

definition tracer_tags ::
  "('s, 'r, 'w) tracer_env \<Rightarrow> jaeger_tag jaeger_vector \<Rightarrow> mem \<Rightarrow> (jaeger_tag jaeger_vector \<times> mem) option" where
  "tracer_tags te tags m = do {
     let (version, m) = strdup JAEGERTRACINGC_CLIENT_VERSION m;
     (ok, tags, m) \<leftarrow> append_tag (te_env te) tags JAEGERTRACINGC_CLIENT_VERSION_TAG_KEY version m;
     if \<not> ok then Some (tags, m)
     else do {
       (host, m) \<leftarrow> hostname (te_gethost te) m;
       (ok, tags, m) \<leftarrow> append_tag (te_env te) tags JAEGERTRACINGC_TRACER_HOSTNAME_TAG_KEY host m;
       if \<not> ok then Some (tags, m)
       else do {
         let (ip, m) = local_ip_str (te_addrs te) m;
         (ok, tags, m) \<leftarrow> append_tag (te_env te) tags JAEGERTRACINGC_TRACER_IP_TAG_KEY ip m;
         Some (tags, m)
       }
     }
   }"

text \<open>The label \<open>cleanup\<close> of \<open>jaeger_tracer_init\<close>.\<close>

definition tracer_init_cleanup ::
  "('s, 'r, 'w) tracer_env \<Rightarrow> ('s, 'r) jaeger_tracer \<Rightarrow> 'w \<Rightarrow> mem \<Rightarrow> (bool \<times> ('s, 'r) jaeger_tracer \<times> 'w \<times> mem) option" where
  "tracer_init_cleanup te tracer w m = do {
     (tracer, w, m) \<leftarrow> jaeger_tracer_destroy te tracer w m;
     Some (False, tracer, w, m)
   }"

text \<open>
  The defaults get the caller's \<open>metrics\<close>, which may be NULL, and not the tracer's.  A NULL service name
  goes to \<open>jaeger_strdup\<close>, which does not accept it.
\<close>

definition jaeger_tracer_init ::
  "('s, 'r, 'w) tracer_env \<Rightarrow> ('s, 'r) jaeger_tracer \<Rightarrow> string option \<Rightarrow> (ptr \<times> 's) option \<Rightarrow> (ptr \<times> 'r) option \<Rightarrow>
   (ptr \<times> jaeger_metrics) option \<Rightarrow> jaeger_tracer_options option \<Rightarrow> jaeger_headers_config option \<Rightarrow> 'w \<Rightarrow> mem \<Rightarrow>
   (bool \<times> ('s, 'r) jaeger_tracer \<times> 'w \<times> mem) option" where
  "jaeger_tracer_init te tracer service_name sampler reporter metrics options headers w m = do {
     (name, m) \<leftarrow> jaeger_strdup service_name m;
     let tracer = tracer\<lparr>tc_service_name := name\<rparr>;
     if name = None then tracer_init_cleanup te tracer w m
     else do {
       (mt, m) \<leftarrow> (if metrics = None then default_metrics te m else Some (metrics, m));
       let tracer = tracer\<lparr>tc_metrics := mt\<rparr>;
       if mt = None then tracer_init_cleanup te tracer w m
       else do {
         let tracer = tracer\<lparr>tc_allocated_metrics := (metrics = None)\<rparr>;
         (s, m) \<leftarrow> (case sampler of
                     None \<Rightarrow> default_sampler te (the service_name) (map_option snd metrics) m
                   | Some s \<Rightarrow> Some (sampler, m));
         let tracer = tracer\<lparr>tc_sampler := s\<rparr>;
         case s of
           None \<Rightarrow> tracer_init_cleanup te tracer w m
         | Some _ \<Rightarrow> do {
             let tracer = tracer\<lparr>tc_allocated_sampler := (case sampler of None \<Rightarrow> True | Some _ \<Rightarrow> False)\<rparr>;
             (r, m) \<leftarrow> (case reporter of
                         None \<Rightarrow> default_reporter te (map_option snd metrics) m
                       | Some r \<Rightarrow> Some (reporter, m));
             let tracer = tracer\<lparr>tc_reporter := r\<rparr>;
             case r of
               None \<Rightarrow> tracer_init_cleanup te tracer w m
             | Some _ \<Rightarrow> do {
                 let tracer = tracer\<lparr>tc_allocated_reporter := (case reporter of None \<Rightarrow> True | Some _ \<Rightarrow> False)\<rparr>;
                 let tracer = (case options of None \<Rightarrow> tracer | Some opts \<Rightarrow> tracer\<lparr>tc_options := opts\<rparr>);
                 let tracer = (case headers of None \<Rightarrow> tracer | Some hs \<Rightarrow> tracer\<lparr>tc_headers := hs\<rparr>);
                 (ok, tags, m) \<leftarrow> jaeger_vector_init TAG_ZERO SIZEOF_TAG (tc_tags tracer) m;
                 let tracer = tracer\<lparr>tc_tags := tags\<rparr>;
                 if \<not> ok then Some (False, tracer, w, m)
                 else do {
                   (tags, m) \<leftarrow> tracer_tags te (tc_tags tracer) m;
                   Some (True, tracer\<lparr>tc_tags := tags\<rparr>, w, m)
                 }
               }
           }
       }
     }
   }"

section \<open>Starting spans\<close>

text \<open>An \<open>opentracing_span_reference\<close>: its type and the context it points to.\<close>

type_synonym span_reference = "jaeger_span_ref_type \<times> jaeger_span_context option"

text \<open>Whether \<open>span_inherit_from_parent\<close> keeps a reference; it locks the context to read the size of the baggage.\<close>

definition reference_kept :: "jaeger_span_context \<Rightarrow> bool" where
  "reference_kept ctx \<longleftrightarrow>
     jaeger_span_context_is_valid ctx \<or> jaeger_span_context_is_debug_id_container_only ctx \<or> ht_size (ctx_baggage ctx) \<noteq> 0"

fun copy_refs ::
  "('s, 'r, 'w) tracer_env \<Rightarrow> span_reference list \<Rightarrow> jaeger_span_context option \<Rightarrow> bool \<Rightarrow> jaeger_span \<Rightarrow> mem \<Rightarrow>
   (bool \<times> jaeger_span_context option \<times> bool \<times> jaeger_span \<times> mem) option" where
  "copy_refs te [] parent has_parent sp m = Some (True, parent, has_parent, sp, m)"
| "copy_refs te (span_ref # rest) parent has_parent sp m = do {
     ctx \<leftarrow> snd span_ref;
     ctx \<leftarrow> ctx_lock ctx;
     ctx \<leftarrow> ctx_unlock ctx;
     if \<not> reference_kept ctx then copy_refs te rest parent has_parent sp m
     else do {
       (slot, refs, m) \<leftarrow> jaeger_vector_append REF_ZERO (sp_refs sp) m;
       if slot = None then Some (False, parent, has_parent, sp\<lparr>sp_refs := refs\<rparr>, m)
       else do {
         old \<leftarrow> vec_read refs slot;
         src \<leftarrow> te_as_span_ref te span_ref;
         (ok, copy, m) \<leftarrow> jaeger_span_ref_copy (te_env te) old src m;
         refs \<leftarrow> vec_write refs slot copy;
         if \<not> ok then Some (False, parent, has_parent, sp\<lparr>sp_refs := refs\<lparr>vec_len := vec_len refs - 1\<rparr>\<rparr>, m)
         else do {
           let sp = sp\<lparr>sp_refs := refs\<rparr>;
           if parent = None then copy_refs te rest (Some ctx) (fst span_ref = Child_of) sp m
           else copy_refs te rest parent has_parent sp m
         }
       }
     }
   }"

text \<open>
  A new trace.  The sampler gets the name of the operation, which is still NULL; with a debug ID the tag
  takes over the parent's string.
\<close>

definition new_trace ::
  "('s, 'r, 'w) tracer_env \<Rightarrow> ('s, 'r) jaeger_tracer \<Rightarrow> jaeger_span_context option \<Rightarrow> bool \<Rightarrow> jaeger_span \<Rightarrow> rng_globals \<Rightarrow> mem \<Rightarrow>
   (('s, 'r) jaeger_tracer \<times> jaeger_span \<times> rng_globals \<times> mem) option" where
  "new_trace te tracer parent has_parent sp g m = do {
     (low, g, m) \<leftarrow> jaeger_random64 (te_random te) (te_garbage te) g m;
     let trace_id = (ctx_trace_id (sp_context sp))\<lparr>tid_low := low\<rparr>;
     (trace_id, g, m) \<leftarrow>
       (if gen_128_bit (tc_options tracer) then do {
          (high, g, m) \<leftarrow> jaeger_random64 (te_random te) (te_garbage te) g m;
          Some (trace_id\<lparr>tid_high := high\<rparr>, g, m)
        } else Some (trace_id, g, m));
     let sp = sp\<lparr>sp_context := (sp_context sp)\<lparr>ctx_trace_id := trace_id, ctx_span_id := low, ctx_flags := 0\<rparr>\<rparr>;
     if has_parent \<and> (case parent of None \<Rightarrow> False | Some p \<Rightarrow> jaeger_span_context_is_debug_id_container_only p) then do {
       let sp = sp\<lparr>sp_context := (sp_context sp)\<lparr>ctx_flags :=
                     ctx_flags (sp_context sp) OR (jaeger_sampling_flag_sampled OR jaeger_sampling_flag_debug)\<rparr>\<rparr>;
       (_, tags, m) \<leftarrow> append_tag (te_env te) (sp_tags sp) JAEGERTRACINGC_DEBUG_HEADER (parent \<bind> ctx_debug_id) m;
       Some (tracer, sp\<lparr>sp_tags := tags\<rparr>, g, m)
     }
     else do {
       (p, s) \<leftarrow> tc_sampler tracer;
       (sampled, s, tags, g, m) \<leftarrow>
         te_is_sampled te s trace_id (map_option snd (sp_operation_name sp)) (sp_tags sp) g m;
       let sp = sp\<lparr>sp_tags := tags\<rparr>;
       let sp = (if sampled then sp\<lparr>sp_context := (sp_context sp)\<lparr>ctx_flags :=
                   ctx_flags (sp_context sp) OR jaeger_sampling_flag_sampled\<rparr>\<rparr> else sp);
       Some (tracer\<lparr>tc_sampler := Some (p, s)\<rparr>, sp, g, m)
     }
   }"

definition join_trace ::
  "('s, 'r, 'w) tracer_env \<Rightarrow> jaeger_span_context \<Rightarrow> jaeger_span \<Rightarrow> rng_globals \<Rightarrow> mem \<Rightarrow>
   (jaeger_span \<times> rng_globals \<times> mem) option" where
  "join_trace te parent sp g m = do {
     (span_id, g, m) \<leftarrow> jaeger_random64 (te_random te) (te_garbage te) g m;
     Some (sp\<lparr>sp_context := (sp_context sp)\<lparr>ctx_trace_id := ctx_trace_id parent, ctx_span_id := span_id,
             ctx_flags := ctx_flags parent\<rparr>\<rparr>, g, m)
   }"

text \<open>\<open>span_refs\<close> is \<open>None\<close> for NULL; the result is success, \<open>has_parent\<close> and the updated state.\<close>

definition span_inherit_from_parent ::
  "('s, 'r, 'w) tracer_env \<Rightarrow> ('s, 'r) jaeger_tracer \<Rightarrow> jaeger_span \<Rightarrow> span_reference list option \<Rightarrow> nat \<Rightarrow> rng_globals \<Rightarrow> mem \<Rightarrow>
   (bool \<times> bool \<times> ('s, 'r) jaeger_tracer \<times> jaeger_span \<times> rng_globals \<times> mem) option" where
  "span_inherit_from_parent te tracer sp span_refs num_span_refs g m = do {
     refs \<leftarrow> span_refs;
     c_assert (num_span_refs \<le> length refs);
     (ok, parent, has_parent, sp, m) \<leftarrow> copy_refs te (take num_span_refs refs) None False sp m;
     if \<not> ok then Some (False, has_parent, tracer, sp, g, m)
     else do {
       let valid = (case parent of None \<Rightarrow> False | Some p \<Rightarrow> jaeger_span_context_is_valid p);
       let has_parent = (has_parent \<or> valid);
       (tracer, sp, g, m) \<leftarrow>
         (if \<not> has_parent \<or> \<not> valid then new_trace te tracer parent has_parent sp g m
          else do {
            parent \<leftarrow> parent;
            (sp, g, m) \<leftarrow> join_trace te parent sp g m;
            Some (tracer, sp, g, m)
          });
       if has_parent then do {
         parent \<leftarrow> parent;
         (ok, baggage, m) \<leftarrow> jaeger_hashtable_copy (env_have_builtin (te_env te)) (env_seed (te_env te)) (ctx_baggage parent) m;
         Some (ok, has_parent, tracer, sp\<lparr>sp_context := (sp_context sp)\<lparr>ctx_baggage := baggage\<rparr>\<rparr>, g, m)
       }
       else Some (True, has_parent, tracer, sp, g, m)
     }
   }"

text \<open>The span's mutex is taken before \<open>jaeger_span_is_sampled\<close> takes it; both branches count \<open>spans_sampled\<close>.\<close>

definition update_metrics_for_new_span :: "jaeger_metrics \<Rightarrow> jaeger_span \<Rightarrow> bool \<Rightarrow> (jaeger_metrics \<times> jaeger_span) option" where
  "update_metrics_for_new_span metrics sp is_new_trace = do {
     metrics \<leftarrow> metrics_inc spans_started 1 metrics;
     sp \<leftarrow> span_lock sp;
     (is_sampled, sp) \<leftarrow> jaeger_span_is_sampled sp;
     sp \<leftarrow> span_unlock sp;
     metrics \<leftarrow> metrics_inc spans_sampled 1 metrics;
     metrics \<leftarrow> (if is_new_trace
                then metrics_inc (if is_sampled then traces_started_sampled else traces_started_not_sampled) 1 metrics
                else Some metrics);
     Some (metrics, sp)
   }"

record opentracing_start_span_options =
  so_start_time_steady :: opentracing_time_value
  so_start_time_system :: opentracing_time_value
  so_references :: "span_reference list option"
  so_num_references :: int
  so_tags :: "(string option \<times> opentracing_value) list option"
  so_num_tags :: int

text \<open>The loop over the tags of the options; \<open>src_tag\<close> is never destroyed, and what is set is an empty value.\<close>

fun start_tags_loop ::
  "('s, 'r, 'w) tracer_env \<Rightarrow> (string option \<times> opentracing_value) list \<Rightarrow> jaeger_span \<Rightarrow> mem \<Rightarrow> (jaeger_span \<times> mem) option" where
  "start_tags_loop te [] sp m = Some (sp, m)"
| "start_tags_loop te ((key, val) # rest) sp m = do {
     (_, src_tag, m) \<leftarrow> jaeger_tag_from_key_value (env_tag_init (te_env te)) key val m;
     src_tag \<leftarrow> src_tag;
     k \<leftarrow> tag_key src_tag;
     (go_on, sp) \<leftarrow>
       (if snd k = JAEGERTRACINGC_SAMPLING_PRIORITY \<and> tag_v_type src_tag = VT_INT64
        then jaeger_span_set_sampling_priority sp (te_zero_value te) else Some (False, sp));
     if go_on then start_tags_loop te rest sp m
     else do {
       (sp, m) \<leftarrow> jaeger_span_set_tag_no_locking (te_env te) sp (Some (snd k)) (te_zero_value te) m;
       start_tags_loop te rest sp m
     }
   }"

definition start_span_cleanup ::
  "ptr \<Rightarrow> jaeger_span \<Rightarrow> ('s, 'r) jaeger_tracer \<Rightarrow> rng_globals \<Rightarrow> mem \<Rightarrow>
   ((ptr \<times> jaeger_span) option \<times> ('s, 'r) jaeger_tracer \<times> rng_globals \<times> mem) option" where
  "start_span_cleanup p sp tracer g m = do {
     (sp, m) \<leftarrow> jaeger_span_destroy sp m;
     m \<leftarrow> jaeger_free (Some p) m;
     Some (None, tracer, g, m)
   }"

definition time_or :: "opentracing_time_value \<Rightarrow> opentracing_time_value \<Rightarrow> opentracing_time_value" where
  "time_or given now = (if tv_sec given = 0 \<and> tv_nsec given = 0 then now else given)"

text \<open>
  The part of \<open>jaeger_tracer_start_span_with_options\<close> after the case of NULL options; \<open>tp\<close> is the tracer's
  address, \<open>steady\<close> and \<open>sys\<close> are the clocks.
\<close>

definition start_span_body ::
  "('s, 'r, 'w) tracer_env \<Rightarrow> ptr \<Rightarrow> opentracing_time_value \<Rightarrow> opentracing_time_value \<Rightarrow> ('s, 'r) jaeger_tracer \<Rightarrow> string \<Rightarrow>
   opentracing_start_span_options \<Rightarrow> rng_globals \<Rightarrow> mem \<Rightarrow>
   ((ptr \<times> jaeger_span) option \<times> ('s, 'r) jaeger_tracer \<times> rng_globals \<times> mem) option" where
  "start_span_body te tp steady sys tracer operation_name options g m = do {
     c_assert (so_num_references options \<ge> 0);
     c_assert (so_references options = None \<or> so_num_references options = 0);
     c_assert (so_num_tags options \<ge> 0);
     c_assert (so_tags options = None \<or> so_num_tags options = 0);
     case jaeger_malloc (te_sizeof_span te) m of
       (None, m) \<Rightarrow> Some (None, tracer, g, m)
     | (Some p, m) \<Rightarrow> do {
         (ok, sp, m) \<leftarrow> jaeger_span_init m;
         (ok, has_parent, tracer, sp, g, m) \<leftarrow>
           (if ok then span_inherit_from_parent te tracer sp (so_references options) (nat (so_num_references options)) g m
            else Some (False, False, tracer, sp, g, m));
         if \<not> ok then start_span_cleanup p sp tracer g m
         else do {
           tags \<leftarrow> (if so_num_tags options = 0 then Some [] else so_tags options);
           c_assert (nat (so_num_tags options) \<le> length tags);
           (sp, m) \<leftarrow> start_tags_loop te (take (nat (so_num_tags options)) tags) sp m;
           (name, m) \<leftarrow> jaeger_strdup (Some operation_name) m;
           let sp = sp\<lparr>sp_tracer := Some tp, sp_operation_name := name\<rparr>;
           if name = None then start_span_cleanup p sp tracer g m
           else do {
             let sp = sp\<lparr>sp_duration := TIME_ZERO, sp_start_time_system := time_or (so_start_time_system options) sys,
                           sp_start_time_steady := time_or (so_start_time_steady options) steady\<rparr>;
             (mp, metrics) \<leftarrow> tc_metrics tracer;
             (metrics, sp) \<leftarrow> update_metrics_for_new_span metrics sp (\<not> has_parent);
             Some (Some (p, sp), tracer\<lparr>tc_metrics := Some (mp, metrics)\<rparr>, g, m)
           }
         }
       }
   }"

definition jaeger_tracer_start_span_with_options ::
  "('s, 'r, 'w) tracer_env \<Rightarrow> ptr \<Rightarrow> opentracing_time_value \<Rightarrow> opentracing_time_value \<Rightarrow> ('s, 'r) jaeger_tracer \<Rightarrow> string option \<Rightarrow>
   opentracing_start_span_options option \<Rightarrow> rng_globals \<Rightarrow> mem \<Rightarrow>
   ((ptr \<times> jaeger_span) option \<times> ('s, 'r) jaeger_tracer \<times> rng_globals \<times> mem) option" where
  "jaeger_tracer_start_span_with_options te tp steady sys tracer operation_name options g m = do {
     name \<leftarrow> operation_name;
     let opts = (case options of
         None \<Rightarrow> \<lparr>so_start_time_steady = steady, so_start_time_system = sys, so_references = None, so_num_references = 0,
                 so_tags = None, so_num_tags = 0\<rparr>
       | Some opts \<Rightarrow> opts);
     start_span_body te tp steady sys tracer name opts g m
   }"

definition jaeger_tracer_start_span ::
  "('s, 'r, 'w) tracer_env \<Rightarrow> ptr \<Rightarrow> opentracing_time_value \<Rightarrow> opentracing_time_value \<Rightarrow> ('s, 'r) jaeger_tracer \<Rightarrow> string option \<Rightarrow>
   rng_globals \<Rightarrow> mem \<Rightarrow> ((ptr \<times> jaeger_span) option \<times> ('s, 'r) jaeger_tracer \<times> rng_globals \<times> mem) option" where
  "jaeger_tracer_start_span te tp steady sys tracer operation_name g m =
     jaeger_tracer_start_span_with_options te tp steady sys tracer operation_name None g m"

section \<open>Reporting spans\<close>

text \<open>What a reporter reads of the tracer of a span.\<close>

definition process_of :: "('s, 'r) jaeger_tracer \<Rightarrow> tracer_process" where
  "process_of tracer = \<lparr>tr_service_name = tc_service_name tracer, tr_tags = tc_tags tracer\<rparr>"

definition jaeger_tracer_report_span ::
  "('s, 'r, 'w) tracer_env \<Rightarrow> ('s, 'r) jaeger_tracer \<Rightarrow> jaeger_span \<Rightarrow> 'w \<Rightarrow> mem \<Rightarrow>
   (jaeger_span \<times> ('s, 'r) jaeger_tracer \<times> 'w \<times> mem) option" where
  "jaeger_tracer_report_span te tracer sp w m = do {
     (mp, metrics) \<leftarrow> tc_metrics tracer;
     metrics \<leftarrow> metrics_inc spans_finished 1 metrics;
     let tracer = tracer\<lparr>tc_metrics := Some (mp, metrics)\<rparr>;
     (sampled, sp) \<leftarrow> jaeger_span_is_sampled sp;
     if sampled then do {
       (p, r) \<leftarrow> tc_reporter tracer;
       (r, w, m) \<leftarrow> te_report te (map_option (\<lambda>_. process_of tracer) (sp_tracer sp)) r sp w m;
       Some (sp, tracer\<lparr>tc_reporter := Some (p, r)\<rparr>, w, m)
     }
     else Some (sp, tracer, w, m)
   }"

section \<open>Propagation\<close>

text \<open>An \<open>opentracing_span_context\<close> of any tracer: the bytes of its type descriptor and, if it is ours, the context.\<close>

definition jaeger_span_context_type_descriptor :: string where
  "jaeger_span_context_type_descriptor = ''jaeger_span_context'' @ [CHR 0x00]"

definition check_span_context :: "string \<Rightarrow> bool" where
  "check_span_context type_descriptor \<longleftrightarrow> type_descriptor = jaeger_span_context_type_descriptor"

definition jaeger_tracer_inject_text_map ::
  "('s, 'r) jaeger_tracer \<Rightarrow> 'c text_map_writer \<Rightarrow> string \<times> jaeger_span_context \<Rightarrow> 'c \<Rightarrow> mem \<Rightarrow> (error_code \<times> 'c \<times> mem) option" where
  "jaeger_tracer_inject_text_map tracer writer span_context c m =
     (if \<not> check_span_context (fst span_context) then Some (OT_invalid_span_context, c, m)
      else jaeger_inject_into_text_map writer (tc_headers tracer) (snd span_context) c m)"

definition jaeger_tracer_inject_http_headers ::
  "('s, 'r) jaeger_tracer \<Rightarrow> 'c text_map_writer \<Rightarrow> string \<times> jaeger_span_context \<Rightarrow> 'c \<Rightarrow> mem \<Rightarrow> (error_code \<times> 'c \<times> mem) option" where
  "jaeger_tracer_inject_http_headers tracer writer span_context c m =
     (if \<not> check_span_context (fst span_context) then Some (OT_invalid_span_context, c, m)
      else jaeger_inject_into_http_headers writer (tc_headers tracer) (snd span_context) c m)"

definition jaeger_tracer_inject_binary ::
  "'c binary_writer \<Rightarrow> string \<times> jaeger_span_context \<Rightarrow> 'c \<Rightarrow> (error_code \<times> 'c) option" where
  "jaeger_tracer_inject_binary callback span_context c =
     (if \<not> check_span_context (fst span_context) then Some (OT_invalid_span_context, c)
      else jaeger_inject_into_binary callback (snd span_context) c)"

definition jaeger_tracer_inject_custom ::
  "(jaeger_span_context \<Rightarrow> 'c \<Rightarrow> error_code \<times> 'c) \<Rightarrow> string \<times> jaeger_span_context \<Rightarrow> 'c \<Rightarrow> error_code \<times> 'c" where
  "jaeger_tracer_inject_custom inject span_context c =
     (if \<not> check_span_context (fst span_context) then (OT_invalid_span_context, c)
      else jaeger_inject_into_custom inject (snd span_context) c)"

text \<open>The metrics of the tracer, after an extraction that may have counted in them.\<close>

definition with_metrics :: "('s, 'r) jaeger_tracer \<Rightarrow> jaeger_metrics option \<Rightarrow> ('s, 'r) jaeger_tracer" where
  "with_metrics tracer mt =
     tracer\<lparr>tc_metrics := (case (tc_metrics tracer, mt) of (Some (p, _), Some mt) \<Rightarrow> Some (p, mt) | _ \<Rightarrow> tc_metrics tracer)\<rparr>"

type_synonym ('s, 'r) extract_result = "error_code \<times> (ptr \<times> jaeger_span_context) option \<times> ('s, 'r) jaeger_tracer \<times> mem"

definition jaeger_tracer_extract_text_map ::
  "('s, 'r, 'w) tracer_env \<Rightarrow> ('s, 'r) jaeger_tracer \<Rightarrow> text_map_reader \<Rightarrow> mem \<Rightarrow> ('s, 'r) extract_result option" where
  "jaeger_tracer_extract_text_map te tracer carrier m = do {
     (code, ctx, mt, m) \<leftarrow> jaeger_extract_from_text_map carrier (env_seed (te_env te)) (map_option snd (tc_metrics tracer)) (tc_headers tracer) m;
     Some (code, ctx, with_metrics tracer mt, m)
   }"

definition jaeger_tracer_extract_http_headers ::
  "('s, 'r, 'w) tracer_env \<Rightarrow> ('s, 'r) jaeger_tracer \<Rightarrow> text_map_reader \<Rightarrow> mem \<Rightarrow> ('s, 'r) extract_result option" where
  "jaeger_tracer_extract_http_headers te tracer carrier m = do {
     (code, ctx, mt, m) \<leftarrow> jaeger_extract_from_http_headers carrier (env_seed (te_env te)) (map_option snd (tc_metrics tracer)) (tc_headers tracer) m;
     Some (code, ctx, with_metrics tracer mt, m)
   }"

definition jaeger_tracer_extract_binary ::
  "('s, 'r, 'w) tracer_env \<Rightarrow> ('s, 'r) jaeger_tracer \<Rightarrow> 'c binary_reader \<Rightarrow> 'c \<Rightarrow> mem \<Rightarrow> ('s, 'r) extract_result option" where
  "jaeger_tracer_extract_binary te tracer callback c m = do {
     (code, ctx, mt, m) \<leftarrow> jaeger_extract_from_binary callback (env_seed (te_env te)) c (map_option snd (tc_metrics tracer)) m;
     Some (code, ctx, with_metrics tracer mt, m)
   }"

definition jaeger_tracer_extract_custom :: "(('s, 'r) jaeger_tracer \<Rightarrow> error_code \<times> 'c) \<Rightarrow> ('s, 'r) jaeger_tracer \<Rightarrow> error_code \<times> 'c" where
  "jaeger_tracer_extract_custom extract tracer = extract tracer"

section \<open>The address of the host\<close>

text \<open>The first element with the greatest score, if it is above \<open>b\<close>.\<close>

definition first_best :: "('a \<Rightarrow> int) \<Rightarrow> int \<Rightarrow> 'a list \<Rightarrow> 'a \<Rightarrow> bool" where
  "first_best f b xs x \<longleftrightarrow> (\<exists>ys zs. xs = ys @ x # zs \<and> b < f x \<and> (\<forall>y\<in>set ys. f y < f x) \<and> (\<forall>z\<in>set zs. f z \<le> f x))"

lemma best_addr_loop_spec:
  "(\<forall>x\<in>set xs. score_addr x \<le> b) \<and> best_addr_loop xs b best = best \<or>
   (\<exists>x. best_addr_loop xs b best = Some x \<and> first_best score_addr b xs x)"
proof (induction xs arbitrary: b best)
  case (Cons y ys)
  show ?case
  proof (cases "b < score_addr y")
    case True
    with Cons.IH [of "score_addr y" "Some y"] show ?thesis
    proof (elim disjE exE conjE, goal_cases)
      case 1
      then have "first_best score_addr b (y # ys) y" using True unfolding first_best_def by (intro exI [of _ "[]"] exI [of _ ys]) auto
      with 1 True show ?case by (simp add: Let_def)
    next
      case (2 x)
      then obtain us zs where u: "ys = us @ x # zs" "score_addr y < score_addr x" "\<forall>u\<in>set us. score_addr u < score_addr x"
        "\<forall>z\<in>set zs. score_addr z \<le> score_addr x" by (auto simp: first_best_def)
      then have "first_best score_addr b (y # ys) x" using True unfolding first_best_def by (intro exI [of _ "y # us"] exI [of _ zs]) auto
      with 2 True show ?case by (simp add: Let_def)
    qed
  next
    case False
    with Cons.IH [of b best] show ?thesis
    proof (elim disjE exE conjE, goal_cases)
      case (2 x)
      then obtain us zs where u: "ys = us @ x # zs" "b < score_addr x" "\<forall>u\<in>set us. score_addr u < score_addr x"
        "\<forall>z\<in>set zs. score_addr z \<le> score_addr x" by (auto simp: first_best_def)
      then have "first_best score_addr b (y # ys) x" using False unfolding first_best_def by (intro exI [of _ "y # us"] exI [of _ zs]) auto
      with 2 False show ?case by (simp add: Let_def)
    qed (auto simp: Let_def)
  qed
qed simp

text \<open>Reachable from outside: IPv4, on an interface that is up and not a loopback.\<close>

definition reachable_ipv4 :: "ifaddrs \<Rightarrow> bool" where
  "reachable_ipv4 a \<longleftrightarrow> (\<exists>s. ifa_addr a = Some s \<and> sa_family s = AF_INET \<and> sa_s_addr s \<noteq> INADDR_LOOPBACK_net) \<and>
     ifa_flags a AND IFF_LOOPBACK = 0 \<and> ifa_flags a AND IFF_UP \<noteq> 0"

lemma score_bounds: "0 \<le> score_addr a" "score_addr a \<le> 500" "score_addr a = 500 \<longleftrightarrow> reachable_ipv4 a"
  by (auto simp: score_addr_def reachable_ipv4_def split: option.split)

lemma first_best_reachable:
  assumes "first_best score_addr b xs x" and "\<exists>a\<in>set xs. reachable_ipv4 a"
  shows "reachable_ipv4 x"
proof -
  from assms(2) obtain a where a: "a \<in> set xs" "score_addr a = 500" using score_bounds(3) by blast
  from assms(1) obtain ys zs where x: "xs = ys @ x # zs" "\<forall>y\<in>set ys. score_addr y < score_addr x" "\<forall>z\<in>set zs. score_addr z \<le> score_addr x"
    unfolding first_best_def by blast
  then have "a = x \<or> score_addr a < score_addr x \<or> score_addr a \<le> score_addr x" using a(1) by auto
  then have "500 \<le> score_addr x" using a(2) by auto
  then show ?thesis using score_bounds(2,3) [of x] by auto
qed

lemma length_port: "length (fmt_d (uint (w :: 16 word))) \<le> 5"
proof -
  have "nat (uint w) < 10 ^ 5" using unsigned_less [of w, where 'a = nat] by simp
  from length_dec_of_nat [OF this] show ?thesis by (simp add: fmt_d_def)
qed

text \<open>The text of an address and its port.\<close>

definition addr_port :: "sockaddr \<Rightarrow> string option" where
  "addr_port s = map_option (\<lambda>t. t @ '':'' @ fmt_d (uint (htons (sa_port s)))) (sa_text s)"

definition best_ip :: "ifaddrs list \<Rightarrow> string option" where
  "best_ip addrs = best_addr_loop addrs 0 None \<bind> ifa_addr \<bind> addr_port"

lemma local_ip_spec:
  assumes "\<forall>a\<in>set addrs. \<forall>s t. ifa_addr a = Some s \<longrightarrow> sa_text s = Some t \<longrightarrow> length t \<le> HOST_NAME_MAX"
  shows "local_ip_str (Some addrs) m = (case best_ip addrs of None \<Rightarrow> (None, m) | Some t \<Rightarrow> strdup t m)"
proof (cases "best_addr_loop addrs 0 None")
  case None
  then show ?thesis by (simp add: local_ip_str_def best_ip_def)
next
  case (Some a)
  with best_addr_loop_spec [of addrs 0 None] have "a \<in> set addrs" by (auto simp: first_best_def)
  then have t: "length t \<le> 64" if "ifa_addr a = Some s" "sa_text s = Some t" for s t
    using assms that by (simp add: HOST_NAME_MAX_def)
  show ?thesis
  proof (cases "ifa_addr a \<bind> sa_text")
    case None
    with Some show ?thesis by (auto simp: local_ip_str_def best_ip_def addr_port_def split: option.split)
  next
    case (Some u)
    then obtain s where s: "ifa_addr a = Some s" "sa_text s = Some u" by (auto simp: bind_eq_Some_conv)
    have l: "length u \<le> 64" "length (fmt_d (uint (htons (sa_port s)))) \<le> 5" using t [OF s] length_port by auto
    then have "take (70 - length u) (CHR '':'' # fmt_d (uint (htons (sa_port s)))) = CHR '':'' # fmt_d (uint (htons (sa_port s)))" by simp
    moreover have "Suc (length (fmt_d (uint (htons (sa_port s))))) \<le> 71 - length u" using l by simp
    ultimately show ?thesis using l s \<open>best_addr_loop addrs 0 None = Some a\<close>
      by (simp add: local_ip_str_def best_ip_def addr_port_def snprintf_def IP_BUFFER_SIZE_def HOST_NAME_MAX_def
          JAEGERTRACINGC_MAX_PORT_STR_LEN_def Let_def)
  qed
qed

section \<open>Construction\<close>

definition string_tag :: "string \<times> string \<Rightarrow> jaeger_tag \<Rightarrow> bool" where
  "string_tag kv t \<longleftrightarrow> tag_v_type t = VT_STRING \<and> map_option snd (tag_key t) = Some (fst kv) \<and> map_option snd (tag_v_str t) = Some (snd kv)"

definition tag_vec_ptrs :: "jaeger_tag jaeger_vector \<Rightarrow> ptr list" where
  "tag_vec_ptrs v = vec_ptrs v @ concat (map tag_ptrs (vec_list v))"

lemma strdup_plenty:
  assumes "mem_ok m" and "mem_plenty m"
  obtains q m' where "strdup s m = (Some q, m')" and "snd q = s" and "fresh_list [fst q] m m'"
proof -
  have "jaeger_strdup (Some s) m = Some (strdup s m)"
    using assms(1) by (simp add: jaeger_strdup_def strdup_def jaeger_malloc_def jaeger_get_allocator_def mem_ok_def split: prod.split option.split)
  with strdup_good [OF assms, of s] that show thesis by (metis option.inject)
qed

text \<open>With memory available and room in the vector, \<open>append_tag\<close> adds its tag, which owns the value.\<close>

lemma append_tag_good:
  assumes "tag_blank (env_tag_init env)" and "mem_good m" and "vec_ok v" and "vec_len v < vec_capacity v"
    and "owns m (tag_vec_ptrs v @ [fst q])"
  shows "\<exists>v' t m'. append_tag env v key (Some q) m = Some (True, v', m') \<and> vec_ok v' \<and> vec_capacity v' = vec_capacity v \<and>
    vec_len v' = vec_len v + 1 \<and> vec_list v' = vec_list v @ [t] \<and> string_tag (key, snd q) t \<and> distinct (tag_vec_ptrs v') \<and>
    mem_trans (set (tag_vec_ptrs v @ [fst q])) (set (tag_vec_ptrs v')) m m'"
proof -
  have m: "mem_ok m" "mem_plenty m" using assms(2) by (auto simp: mem_good_def)
  note a = vec_append_room [OF assms(3,4), of TAG_ZERO m]
  from strdup_good [OF m, of key] obtain k m1 where k: "jaeger_strdup (Some key) m = Some (Some k, m1)" "snd k = key" "fresh_list [fst k] m m1" .
  let ?t = "(env_tag_init env)\<lparr>tag_key := Some k, tag_v_type := VT_STRING, tag_v_str := Some q\<rparr>"
  from vec_append_spec(3) [OF a assms(3) m(1), of ?t] obtain w where
    w: "vec_write (v\<lparr>vec_len := vec_len v + 1\<rparr>) (Some (nat (vec_len v))) ?t = Some w" "vec_ok w" "vec_ptrs w = vec_ptrs v"
    "vec_len w = vec_len v + 1" "vec_capacity w = vec_capacity v" "vec_list w = vec_list v @ [?t]" by (auto simp: vec_ptrs_def)
  have run: "append_tag env v key (Some q) m = Some (True, w, m1)"
    using a k(1) w(1) by (simp add: append_tag_def jaeger_tag_init_def)
  have tp: "tag_ptrs ?t = [fst k, fst q]" using assms(1) by (simp add: tag_ptrs_def tag_blank_def)
  have "tag_vec_ptrs w = tag_vec_ptrs v @ [fst k, fst q]" using w(3,6) tp by (simp add: tag_vec_ptrs_def)
  then have p: "mset (tag_vec_ptrs w) = mset ((tag_vec_ptrs v @ [fst q]) @ [fst k])" by simp
  have sub: "set (tag_vec_ptrs v @ [fst q]) \<subseteq> dom (mem_blocks m)" "distinct (tag_vec_ptrs v @ [fst q])" using assms(5) by (auto simp: owns_def)
  have t: "mem_trans (set (tag_vec_ptrs v @ [fst q])) (set (tag_vec_ptrs w)) m m1"
    using mem_trans_frame [OF fresh_listD(4) [OF k(3)] sub(1)] mset_eq_setD [OF p] by (simp add: ac_simps)
  have "distinct ((tag_vec_ptrs v @ [fst q]) @ [fst k])"
    using sub mem_trans_disj [OF fresh_listD(4) [OF k(3)]] by auto
  then have "distinct (tag_vec_ptrs w)" using mset_eq_imp_distinct_iff [OF p] by simp
  with run w t k(2) show ?thesis
    by (intro exI [of _ w] exI [of _ ?t] exI [of _ m1]) (simp add: string_tag_def)
qed

text \<open>A new string appended as a tag.\<close>

lemma append_fresh_tag:
  assumes "tag_blank (env_tag_init env)" and "mem_good m" and "vec_ok v" and "vec_len v < vec_capacity v"
    and "owns m (tag_vec_ptrs v)" and "fresh_list [fst q] m m1"
  obtains v' t m' where "append_tag env v key (Some q) m1 = Some (True, v', m')" and "vec_ok v'" and "vec_capacity v' = vec_capacity v"
    and "vec_len v' = vec_len v + 1" and "vec_list v' = vec_list v @ [t]" and "string_tag (key, snd q) t"
    and "mem_good m'" and "owns m' (tag_vec_ptrs v')" and "mem_trans (set (tag_vec_ptrs v)) (set (tag_vec_ptrs v')) m m'"
proof -
  have m: "mem_ok m" using assms(2) by (simp add: mem_good_def)
  note t1 = fresh_listD(4) [OF assms(6)]
  have o: "owns m1 (tag_vec_ptrs v)" "set (tag_vec_ptrs v) \<inter> {fst q} = {}" using owns_frame [OF t1 assms(5)] by auto
  have o1: "owns m1 (tag_vec_ptrs v @ [fst q])" using o fresh_listD(2) [OF assms(6)] by (auto simp: owns_def)
  from append_tag_good [OF assms(1) mem_good_trans [OF assms(2) t1] assms(3,4) o1, of key] obtain v' t m' where
    a: "append_tag env v key (Some q) m1 = Some (True, v', m')" "vec_ok v'" "vec_capacity v' = vec_capacity v" "vec_len v' = vec_len v + 1"
    "vec_list v' = vec_list v @ [t]" "string_tag (key, snd q) t" "distinct (tag_vec_ptrs v')"
    "mem_trans (set (tag_vec_ptrs v @ [fst q])) (set (tag_vec_ptrs v')) m1 m'" by blast
  have "set (tag_vec_ptrs v) \<subseteq> dom (mem_blocks m)" using assms(5) by (simp add: owns_def)
  from mem_trans_frame [OF t1 this] have "mem_trans (set (tag_vec_ptrs v)) (set (tag_vec_ptrs v @ [fst q])) m m1" by (simp add: ac_simps)
  from mem_trans_trans [OF this a(8) m] have t: "mem_trans (set (tag_vec_ptrs v)) (set (tag_vec_ptrs v')) m m'" .
  have o2: "owns m' (tag_vec_ptrs v')" using a(7) mem_trans_dom [OF t] by (auto simp: owns_def)
  show thesis by (rule that [OF a(1-6) mem_good_trans [OF assms(2) t] o2 t])
qed

text \<open>The tags of the host.\<close>

definition host_tags :: "('s, 'r, 'w) tracer_env \<Rightarrow> (string \<times> string) list" where
  "host_tags te = (JAEGERTRACINGC_CLIENT_VERSION_TAG_KEY, JAEGERTRACINGC_CLIENT_VERSION) #
     (case te_gethost te of
        None \<Rightarrow> []
      | Some h \<Rightarrow> (JAEGERTRACINGC_TRACER_HOSTNAME_TAG_KEY, h) #
          (case te_addrs te \<bind> best_ip of None \<Rightarrow> [] | Some ip \<Rightarrow> [(JAEGERTRACINGC_TRACER_IP_TAG_KEY, ip)]))"

definition addrs_short :: "('s, 'r, 'w) tracer_env \<Rightarrow> bool" where
  "addrs_short te \<longleftrightarrow> (\<forall>addrs. te_addrs te = Some addrs \<longrightarrow>
     (\<forall>a\<in>set addrs. \<forall>s t. ifa_addr a = Some s \<longrightarrow> sa_text s = Some t \<longrightarrow> length t \<le> HOST_NAME_MAX))"

lemma tracer_tags_good:
  assumes "tag_blank (env_tag_init (te_env te))" and "mem_good m" and "vec_ok v" and "vec_list v = []"
    and "vec_len v + 3 \<le> vec_capacity v" and "owns m (tag_vec_ptrs v)" and "addrs_short te"
  shows "\<exists>v' m'. tracer_tags te v m = Some (v', m') \<and> vec_ok v' \<and> list_all2 string_tag (host_tags te) (vec_list v') \<and>
    distinct (tag_vec_ptrs v') \<and> mem_trans (set (tag_vec_ptrs v)) (set (tag_vec_ptrs v')) m m'"
proof -
  have m: "mem_ok m" "mem_plenty m" using assms(2) by (auto simp: mem_good_def)
  obtain q0 m0 where q0: "strdup JAEGERTRACINGC_CLIENT_VERSION m = (Some q0, m0)" "snd q0 = JAEGERTRACINGC_CLIENT_VERSION" "fresh_list [fst q0] m m0"
    by (rule strdup_plenty [OF m])
  obtain v1 t1 m1 where a1: "append_tag (te_env te) v JAEGERTRACINGC_CLIENT_VERSION_TAG_KEY (Some q0) m0 = Some (True, v1, m1)" "vec_ok v1"
    "vec_capacity v1 = vec_capacity v" "vec_len v1 = vec_len v + 1" "vec_list v1 = vec_list v @ [t1]"
    "string_tag (JAEGERTRACINGC_CLIENT_VERSION_TAG_KEY, snd q0) t1" "mem_good m1" "owns m1 (tag_vec_ptrs v1)"
    "mem_trans (set (tag_vec_ptrs v)) (set (tag_vec_ptrs v1)) m m1"
    by (rule append_fresh_tag [OF assms(1,2,3) _ assms(6) q0(3)]) (use assms(5) in auto)
  have g1: "mem_ok m1" "mem_plenty m1" using a1(7) by (auto simp: mem_good_def)
  have d1: "distinct (tag_vec_ptrs v1)" using a1(8) by (simp add: owns_def)
  show ?thesis
  proof (cases "te_gethost te")
    case None
    with q0 a1 assms(4) d1 show ?thesis by (simp add: tracer_tags_def hostname_def append_tag_def [of _ _ _ None] host_tags_def)
  next
    case host: (Some h)
    obtain q1 m2 where q1: "jaeger_strdup (Some h) m1 = Some (Some q1, m2)" "snd q1 = h" "fresh_list [fst q1] m1 m2"
      by (rule strdup_good [OF g1])
    obtain v2 t2 m3 where a2: "append_tag (te_env te) v1 JAEGERTRACINGC_TRACER_HOSTNAME_TAG_KEY (Some q1) m2 = Some (True, v2, m3)" "vec_ok v2"
      "vec_capacity v2 = vec_capacity v1" "vec_len v2 = vec_len v1 + 1" "vec_list v2 = vec_list v1 @ [t2]"
      "string_tag (JAEGERTRACINGC_TRACER_HOSTNAME_TAG_KEY, snd q1) t2" "mem_good m3" "owns m3 (tag_vec_ptrs v2)"
      "mem_trans (set (tag_vec_ptrs v1)) (set (tag_vec_ptrs v2)) m1 m3"
      by (rule append_fresh_tag [OF assms(1) a1(7,2) _ a1(8) q1(3)]) (use assms(5) a1(3,4) in auto)
    have g3: "mem_ok m3" "mem_plenty m3" using a2(7) by (auto simp: mem_good_def)
    have d2: "distinct (tag_vec_ptrs v2)" using a2(8) by (simp add: owns_def)
    note tr2 = mem_trans_trans [OF a1(9) a2(9) m(1)]
    have run: "tracer_tags te v m = (let (ip, m) = local_ip_str (te_addrs te) m3 in do {
        (ok, tags, m) \<leftarrow> append_tag (te_env te) v2 JAEGERTRACINGC_TRACER_IP_TAG_KEY ip m; Some (tags, m) })"
      using host q0(1) a1(1) q1(1) a2(1) by (simp add: tracer_tags_def hostname_def)
    show ?thesis
    proof (cases "te_addrs te \<bind> best_ip")
      case None
      then have "local_ip_str (te_addrs te) m3 = (None, m3)"
        using local_ip_spec assms(7) by (cases "te_addrs te") (auto simp: local_ip_str_def addrs_short_def)
      with run host None q0 q1 a1 a2 d2 tr2 assms(4) show ?thesis by (simp add: append_tag_def [of _ _ _ None] host_tags_def)
    next
      case (Some ip)
      then have ip: "local_ip_str (te_addrs te) m3 = strdup ip m3"
        using local_ip_spec assms(7) by (cases "te_addrs te") (auto simp: addrs_short_def)
      obtain q2 m4 where q2: "strdup ip m3 = (Some q2, m4)" "snd q2 = ip" "fresh_list [fst q2] m3 m4" by (rule strdup_plenty [OF g3])
      obtain v3 t3 m5 where a3: "append_tag (te_env te) v2 JAEGERTRACINGC_TRACER_IP_TAG_KEY (Some q2) m4 = Some (True, v3, m5)" "vec_ok v3"
        "vec_list v3 = vec_list v2 @ [t3]" "string_tag (JAEGERTRACINGC_TRACER_IP_TAG_KEY, snd q2) t3" "owns m5 (tag_vec_ptrs v3)"
        "mem_trans (set (tag_vec_ptrs v2)) (set (tag_vec_ptrs v3)) m3 m5"
        by (rule append_fresh_tag [OF assms(1) a2(7,2) _ a2(8) q2(3)]) (use assms(5) a1(3,4) a2(3,4) in auto)
      have d3: "distinct (tag_vec_ptrs v3)" using a3(5) by (simp add: owns_def)
      from run ip host Some q0 q1 q2 a1 a2 a3 d3 mem_trans_trans [OF tr2 a3(6) m(1)] assms(4) show ?thesis
        by (simp add: host_tags_def)
    qed
  qed
qed

section \<open>Properties\<close>

text \<open>
  The tracer reports its host under the best local address.  \<open>local_ip_str\<close> returns a copy of the text and
  port of the first address with the greatest score; if some interface that is up and not a loopback has
  an IPv4 address, the chosen one is such an address.  Texts of up to 64 characters fit into the buffer
  with the port.
\<close>

theorem local_ip_is_best:
  assumes "\<forall>a\<in>set addrs. \<forall>s t. ifa_addr a = Some s \<longrightarrow> sa_text s = Some t \<longrightarrow> length t \<le> HOST_NAME_MAX"
    and "\<exists>a\<in>set addrs. reachable_ipv4 a"
  shows "\<exists>a s. first_best score_addr 0 addrs a \<and> reachable_ipv4 a \<and> ifa_addr a = Some s \<and>
    local_ip_str (Some addrs) m =
      (case sa_text s of None \<Rightarrow> (None, m) | Some t \<Rightarrow> strdup (t @ '':'' @ fmt_d (uint (htons (sa_port s)))) m)"
proof -
  from assms(2) obtain b where "b \<in> set addrs" "score_addr b = 500" using score_bounds(3) by blast
  with best_addr_loop_spec [of addrs 0 None] obtain a where
    a: "best_addr_loop addrs 0 None = Some a" "first_best score_addr 0 addrs a" by fastforce
  note r = first_best_reachable [OF a(2) assms(2)]
  from r obtain s where s: "ifa_addr a = Some s" by (auto simp: reachable_ipv4_def)
  have "best_ip addrs = addr_port s" using a(1) s by (simp add: best_ip_def)
  with local_ip_spec [OF assms(1), of m] a(2) r s show ?thesis
    by (intro exI [of _ a] exI [of _ s]) (auto simp: addr_port_def split: option.split)
qed

definition loopback_one :: ifaddrs where
  "loopback_one = \<lparr>ifa_flags = 9, ifa_addr = Some \<lparr>sa_family = AF_INET, sa_port = 0, sa_s_addr = 0x0100007f, sa_text = Some ''127.0.0.1''\<rparr>\<rparr>"

definition ethernet_one :: ifaddrs where
  "ethernet_one = \<lparr>ifa_flags = 1, ifa_addr = Some \<lparr>sa_family = AF_INET, sa_port = 0, sa_s_addr = 0x0500000a, sa_text = Some ''10.0.0.5''\<rparr>\<rparr>"

lemma score_examples: "score_addr loopback_one = 300" "score_addr ethernet_one = 500"
  by (simp_all add: score_addr_def loopback_one_def ethernet_one_def IFF_LOOPBACK_def IFF_UP_def INADDR_LOOPBACK_net_def)

theorem local_ip_is_best_witness:
  "local_ip_str (Some [loopback_one, ethernet_one]) mem_one = strdup ''10.0.0.5:0'' mem_one"
proof -
  have d: "dec_of_nat 0 = ''0''" by code_simp
  have r: "\<exists>a\<in>set [loopback_one, ethernet_one]. reachable_ipv4 a" using score_bounds(3) [of ethernet_one] score_examples by simp
  have "\<forall>a\<in>set [loopback_one, ethernet_one]. \<forall>s t. ifa_addr a = Some s \<longrightarrow> sa_text s = Some t \<longrightarrow> length t \<le> HOST_NAME_MAX"
    by (simp add: loopback_one_def ethernet_one_def HOST_NAME_MAX_def)
  from local_ip_is_best [OF this r, of mem_one] obtain a s where
    a: "first_best score_addr 0 [loopback_one, ethernet_one] a" "ifa_addr a = Some s"
    "local_ip_str (Some [loopback_one, ethernet_one]) mem_one =
      (case sa_text s of None \<Rightarrow> (None, mem_one) | Some t \<Rightarrow> strdup (t @ '':'' @ fmt_d (uint (htons (sa_port s)))) mem_one)" by blast
  from a(1) have "a = ethernet_one" using score_examples by (auto simp: first_best_def Cons_eq_append_conv)
  with a(2,3) show ?thesis by (auto simp: ethernet_one_def htons_def fmt_d_def d)
qed

text \<open>
  C34: \<open>jaeger_tracer_init\<close> with a sampler, a reporter and metrics of the caller.  With memory available it
  succeeds: the tracer has a copy of the service name, the three components marked as not allocated, the
  caller's options and headers or the defaults, and tags for the client version, the host name and the
  address; it owns exactly the new blocks.  If the first allocation fails, the cleanup calls the method
  of a reporter that is not set yet, and there is no result instead of a failure.
\<close>

theorem tracer_init_or_crash:
  assumes "tag_blank (env_tag_init (te_env te))" and "mem_ok m" and "addrs_short te"
  shows "(mem_plenty m \<longrightarrow> (\<exists>name tags m'.
      jaeger_tracer_init te JAEGERTRACINGC_TRACER_INIT (Some service) (Some s) (Some r) (Some mt) options headers w m =
        Some (True, \<lparr>tc_service_name = Some name, tc_metrics = Some mt, tc_sampler = Some s, tc_reporter = Some r,
          tc_options = (case options of None \<Rightarrow> \<lparr>gen_128_bit = False\<rparr> | Some opts \<Rightarrow> opts),
          tc_headers = (case headers of None \<Rightarrow> JAEGERTRACINGC_HEADERS_CONFIG_INIT | Some hs \<Rightarrow> hs),
          tc_tags = tags, tc_allocated_metrics = False, tc_allocated_sampler = False, tc_allocated_reporter = False\<rparr>, w, m') \<and>
      snd name = service \<and> vec_ok tags \<and> list_all2 string_tag (host_tags te) (vec_list tags) \<and>
      fresh_list (fst name # tag_vec_ptrs tags) m m')) \<and>
    (\<not> mem_oracle m (mem_next m) \<longrightarrow>
      jaeger_tracer_init te JAEGERTRACINGC_TRACER_INIT (Some service) (Some s) (Some r) (Some mt) options headers w m = None)"
proof (intro conjI impI)
  assume p: "mem_plenty m"
  obtain name m1 where n: "jaeger_strdup (Some service) m = Some (Some name, m1)" "snd name = service" "fresh_list [fst name] m m1"
    by (rule strdup_good [OF assms(2) p])
  have g: "mem_good m1" using fresh_listD [OF n(3)] p by (simp add: mem_good_def)
  have sz: "0 < SIZEOF_TAG" "SIZEOF_TAG * 10 \<le> INT_MAX" by (simp_all add: SIZEOF_TAG_def INT_MAX_def)
  obtain v m2 where v: "jaeger_vector_init TAG_ZERO SIZEOF_TAG JAEGERTRACINGC_VECTOR_INIT m1 = Some (True, v, m2)" "vec_ok v" "vec_len v = 0"
    "vec_free v = replicate 10 TAG_ZERO" "fresh_list (vec_ptrs v) m1 m2" by (rule vec_init_good [OF g sz])
  have e: "vec_list v = []" "vec_len v + 3 \<le> vec_capacity v"
  proof -
    from v(2) obtain q slots where d: "vec_data v = Some (q, slots)" "length slots = nat (vec_capacity v)" by (rule vec_okE)
    have "length slots = 10" using v(3,4) d(1) by (simp add: vec_free_def)
    with d(2) v(3) show "vec_len v + 3 \<le> vec_capacity v" by simp
    show "vec_list v = []" using length_vec_list [OF v(2)] v(3) by simp
  qed
  have tp: "tag_vec_ptrs v = vec_ptrs v" using e(1) by (simp add: tag_vec_ptrs_def)
  have g2: "mem_good m2" using mem_good_trans [OF g fresh_listD(4) [OF v(5)]] .
  have o: "owns m2 (tag_vec_ptrs v)" using fresh_listD(2) [OF v(5)] tp by simp
  from tracer_tags_good [OF assms(1) g2 v(2) e o assms(3)] obtain tags m3 where
    t: "tracer_tags te v m2 = Some (tags, m3)" "vec_ok tags" "list_all2 string_tag (host_tags te) (vec_list tags)"
    "distinct (tag_vec_ptrs tags)" "mem_trans (set (tag_vec_ptrs v)) (set (tag_vec_ptrs tags)) m2 m3" by blast
  have f: "fresh_list ([fst name] @ tag_vec_ptrs v) m m2" using fresh_list_append [OF n(3) v(5) assms(2)] tp by simp
  from fresh_list_replace [OF f t(5,4) assms(2)] n v(1) t(1-3)
  show "\<exists>name tags m'. jaeger_tracer_init te JAEGERTRACINGC_TRACER_INIT (Some service) (Some s) (Some r) (Some mt) options headers w m =
        Some (True, \<lparr>tc_service_name = Some name, tc_metrics = Some mt, tc_sampler = Some s, tc_reporter = Some r,
          tc_options = (case options of None \<Rightarrow> \<lparr>gen_128_bit = False\<rparr> | Some opts \<Rightarrow> opts),
          tc_headers = (case headers of None \<Rightarrow> JAEGERTRACINGC_HEADERS_CONFIG_INIT | Some hs \<Rightarrow> hs),
          tc_tags = tags, tc_allocated_metrics = False, tc_allocated_sampler = False, tc_allocated_reporter = False\<rparr>, w, m') \<and>
      snd name = service \<and> vec_ok tags \<and> list_all2 string_tag (host_tags te) (vec_list tags) \<and>
      fresh_list (fst name # tag_vec_ptrs tags) m m'"
    by (intro exI [of _ name] exI [of _ tags] exI [of _ m3])
      (cases options; cases headers; simp add: jaeger_tracer_init_def JAEGERTRACINGC_TRACER_INIT_def)
next
  assume "\<not> mem_oracle m (mem_next m)"
  then have "\<exists>m1. jaeger_strdup (Some service) m = Some (None, m1)"
    using assms(2) by (simp add: jaeger_strdup_def jaeger_malloc_def built_in_malloc_def jaeger_get_allocator_def mem_ok_def)
  then show "jaeger_tracer_init te JAEGERTRACINGC_TRACER_INIT (Some service) (Some s) (Some r) (Some mt) options headers w m = None"
    by (auto simp: jaeger_tracer_init_def tracer_init_cleanup_def jaeger_tracer_destroy_def jaeger_tracer_close_def jaeger_tracer_flush_def
        JAEGERTRACINGC_TRACER_INIT_def)
qed

text \<open>
  C12: \<open>jaeger_tracer_start_span_with_options\<close> never returns a span, whatever the tracer, the options, the
  memory and the random numbers are: counting the new span locks the span's mutex twice.
\<close>

theorem start_span_gives_no_span:
  "jaeger_tracer_start_span_with_options te tp steady sys tracer operation_name options g m \<noteq> Some (Some (p, sp), tracer', g', m')"
proof -
  have "update_metrics_for_new_span metrics s b = None" for metrics s b
    by (cases "metrics_inc spans_started 1 metrics"; cases "sp_locked s")
      (simp_all add: update_metrics_for_new_span_def jaeger_span_is_sampled_def span_lock_both_def span_lock_def)
  then have "start_span_body te tp steady sys tracer name opts g m \<noteq> Some (Some (p, sp), tracer', g', m')" for name opts
    by (auto simp: start_span_body_def start_span_cleanup_def bind_eq_Some_conv Let_def split: option.splits if_splits prod.splits)
  then show ?thesis by (cases operation_name) (simp_all add: jaeger_tracer_start_span_with_options_def)
qed

section \<open>Joining a trace\<close>

definition kept_refs :: "span_reference list \<Rightarrow> span_reference list" where
  "kept_refs refs = filter (\<lambda>r. case snd r of None \<Rightarrow> False | Some ctx \<Rightarrow> reference_kept ctx) refs"

text \<open>The contexts are there and unlocked, and reading a kept reference as a \<open>jaeger_span_ref\<close> gives one that can be copied.\<close>

definition refs_readable :: "('s, 'r, 'w) tracer_env \<Rightarrow> span_reference list \<Rightarrow> bool" where
  "refs_readable te refs \<longleftrightarrow> (\<forall>r\<in>set refs. \<exists>ctx. snd r = Some ctx \<and> \<not> ctx_locked ctx \<and>
     (reference_kept ctx \<longrightarrow> (\<exists>src. te_as_span_ref te r = Some src \<and> ref_src_ok (te_env te) src)))"

definition ref_copied :: "('s, 'r, 'w) tracer_env \<Rightarrow> span_reference \<Rightarrow> jaeger_span_ref \<Rightarrow> bool" where
  "ref_copied te r c \<longleftrightarrow> (\<exists>src. te_as_span_ref te r = Some src \<and> ref_same src c)"

lemma copy_refs_good:
  assumes "mem_good m" and "vec_ok (sp_refs sp)" and "vec_len (sp_refs sp) + int (length refs) \<le> vec_capacity (sp_refs sp)"
    and "refs_readable te refs"
  shows "\<exists>v copies m'. copy_refs te refs parent hp sp m =
      Some (True, (if parent = None \<and> kept_refs refs \<noteq> [] then snd (hd (kept_refs refs)) else parent),
        (if parent = None \<and> kept_refs refs \<noteq> [] then fst (hd (kept_refs refs)) = Child_of else hp), sp\<lparr>sp_refs := v\<rparr>, m') \<and>
    vec_ok v \<and> vec_ptrs v = vec_ptrs (sp_refs sp) \<and> vec_list v = vec_list (sp_refs sp) @ copies \<and>
    list_all2 (ref_copied te) (kept_refs refs) copies \<and> fresh_list (concat (map ref_ptrs copies)) m m'"
  using assms
proof (induction refs arbitrary: parent hp sp m)
  case Nil
  then show ?case
    by (intro exI [of _ "sp_refs sp"] exI [of _ "[]"] exI [of _ m]) (auto simp: kept_refs_def fresh_list_def mem_good_def)
next
  case (Cons r refs)
  obtain ty ctx where r: "r = (ty, Some ctx)" "\<not> ctx_locked ctx" using Cons.prems(4) by (cases r) (auto simp: refs_readable_def)
  have rest: "refs_readable te refs" using Cons.prems(4) by (simp add: refs_readable_def)
  have m: "mem_ok m" using Cons.prems(1) by (simp add: mem_good_def)
  show ?case
  proof (cases "reference_kept ctx")
    case False
    then have k: "kept_refs (r # refs) = kept_refs refs" by (simp add: kept_refs_def r)
    have "vec_len (sp_refs sp) + int (length refs) \<le> vec_capacity (sp_refs sp)" using Cons.prems(3) by simp
    note ih = Cons.IH [OF Cons.prems(1,2) this rest, of parent hp]
    have run: "copy_refs te (r # refs) parent hp sp m = copy_refs te refs parent hp sp m" using False r by simp
    show ?thesis unfolding k run by (rule ih)
  next
    case True
    then have k: "kept_refs (r # refs) = r # kept_refs refs" by (simp add: kept_refs_def r)
    from Cons.prems(4) True r obtain src where s: "te_as_span_ref te r = Some src" "ref_src_ok (te_env te) src" by (auto simp: refs_readable_def)
    let ?v = "sp_refs sp"
    have room: "vec_len ?v < vec_capacity ?v" using Cons.prems(3) by simp
    note a = vec_append_room [OF Cons.prems(2) room, of REF_ZERO m]
    let ?v1 = "?v\<lparr>vec_len := vec_len ?v + 1\<rparr>" and ?i = "nat (vec_len ?v)"
    note as = vec_append_spec [OF a Cons.prems(2) m]
    have "?i < length (vec_list ?v1)" using length_vec_list [of ?v1] as(2) Cons.prems(2) by (auto simp: vec_ok_def)
    from vec_read_at [OF _ this] as(2) obtain old where old: "vec_read ?v1 (Some ?i) = Some old" by auto
    from ref_copy_spec [OF s(2) Cons.prems(1), of old] obtain c m1 where
      c: "jaeger_span_ref_copy (te_env te) old src m = Some (True, c, m1)" "ref_same src c" "distinct (ref_ptrs c)" "mem_trans {} (set (ref_ptrs c)) m m1" by blast
    from as(3) [of c] obtain w where
      w: "vec_write ?v1 (Some ?i) c = Some w" "vec_ok w" "vec_ptrs w = vec_ptrs ?v" "vec_len w = vec_len ?v + 1" "vec_capacity w = vec_capacity ?v"
      "vec_list w = vec_list ?v @ [c]" by (auto simp: vec_ptrs_def)
    let ?sp = "sp\<lparr>sp_refs := w\<rparr>"
    have len: "vec_len (sp_refs ?sp) + int (length refs) \<le> vec_capacity (sp_refs ?sp)" using w(4,5) Cons.prems(3) by simp
    define parent1 where "parent1 = (if parent = None then Some ctx else parent)"
    define hp1 where "hp1 = (if parent = None then ty = Child_of else hp)"
    have wo: "vec_ok (sp_refs ?sp)" using w(2) by simp
    from Cons.IH [OF mem_good_trans [OF Cons.prems(1) c(4)] wo len rest, of parent1 hp1] obtain v copies m' where
      ih: "copy_refs te refs parent1 hp1 ?sp m1 = Some (True, parent1, hp1, sp\<lparr>sp_refs := v\<rparr>, m')"
      "vec_ok v" "vec_ptrs v = vec_ptrs ?v" "vec_list v = vec_list ?v @ [c] @ copies" "list_all2 (ref_copied te) (kept_refs refs) copies"
      "fresh_list (concat (map ref_ptrs copies)) m1 m'" using w(3,6) by (auto simp: parent1_def split: if_splits)
    have run: "copy_refs te (r # refs) parent hp sp m = copy_refs te refs parent1 hp1 ?sp m1"
      using r True a old s(1) c(1) w(1) by (cases parent) (simp_all add: parent1_def hp1_def)
    have "fresh_list (ref_ptrs c) m m1" using c(3,4) by (simp add: fresh_list_def)
    from fresh_list_append [OF this ih(6) m] have fr: "fresh_list (concat (map ref_ptrs (c # copies))) m m'" by simp
    have rc: "ref_copied te r c" using s(1) c(2) by (auto simp: ref_copied_def)
    have eq: "(if parent = None \<and> r # kept_refs refs \<noteq> [] then snd (hd (r # kept_refs refs)) else parent) = parent1"
      "(if parent = None \<and> r # kept_refs refs \<noteq> [] then fst (hd (r # kept_refs refs)) = Child_of else hp) = hp1"
      using r(1) by (simp_all add: parent1_def hp1_def)
    show ?thesis unfolding k run eq
      using ih fr rc by (intro exI [of _ v] exI [of _ "c # copies"] exI [of _ m']) simp
  qed
qed


text \<open>A tracer environment with a sampler that takes everything; references are read as they are meant.\<close>

definition te_one :: "(unit, unit, unit) tracer_env" where
  "te_one = \<lparr>te_env = env_one, te_is_sampled = (\<lambda>s trace_id name tags g m. Some (True, s, tags, g, m)),
     te_sampler_destroy = (\<lambda>s m. Some (s, m)), te_report = (\<lambda>t r sp w m. Some (r, w, m)), te_flush = (\<lambda>r w m. Some (True, r, w, m)),
     te_reporter_destroy = (\<lambda>r w m. Some (r, w, m)), te_remote_sampler_init = (\<lambda>name mt m. Some (True, (), m)),
     te_remote_reporter_init = (\<lambda>mt m. Some (True, (), m)), te_gethost = Some ''host'', te_addrs = Some [loopback_one, ethernet_one],
     te_random = random_env_one, te_garbage = 0,
     te_as_span_ref = (\<lambda>r. map_option (\<lambda>c. \<lparr>ref_context = c, ref_type = fst r\<rparr>) (snd r)), te_zero_value = OTV_null,
     te_sizeof_metrics = 168, te_sizeof_sampler = 8, te_sizeof_reporter = 8, te_sizeof_span = 400\<rparr>"

definition parent_one :: jaeger_span_context where
  "parent_one = ctx_one\<lparr>ctx_trace_id := \<lparr>tid_high = 0, tid_low = 5\<rparr>\<rparr>"

lemma parent_one_simps: "ctx_src_ok env_one parent_one" "jaeger_span_context_is_valid parent_one" "reference_kept parent_one" "\<not> ctx_locked parent_one"
  using ctx_one_simps(2,7) by (simp_all add: parent_one_def ctx_src_ok_def ctx_ok_def jaeger_span_context_is_valid_def reference_kept_def)

lemma rng_init_ok: "rng_ok RNG_GLOBALS_INIT" "rng_ptrs RNG_GLOBALS_INIT = []" "rn_key_create random_env_one = 0"
  by (simp_all add: rng_ok_def RNG_GLOBALS_INIT_def JAEGERTRACINGC_ONCE_INIT_def rng_ptrs_def random_env_one_def)


theorem tracer_init_or_crash_witness:
  "\<exists>tracer m'. jaeger_tracer_init te_one JAEGERTRACINGC_TRACER_INIT (Some ''service'') (Some (0, ())) (Some (0, ())) (Some (0, jaeger_null_metrics))
      None None () mem_one = Some (True, tracer, (), m') \<and> map_option snd (tc_service_name tracer) = Some ''service'' \<and>
    length (vec_list (tc_tags tracer)) = 3"
proof -
  have b: "best_ip [loopback_one, ethernet_one] = addr_port \<lparr>sa_family = AF_INET, sa_port = 0, sa_s_addr = 0x0500000a, sa_text = Some ''10.0.0.5''\<rparr>"
    by (simp add: best_ip_def score_examples) (simp add: ethernet_one_def)
  have h: "length (host_tags te_one) = 3" by (simp add: host_tags_def te_one_def b addr_port_def)
  have "tag_blank (env_tag_init (te_env te_one))" "addrs_short te_one" "mem_plenty mem_one"
    by (simp_all add: te_one_def tag_blank_def TAG_ZERO_def addrs_short_def loopback_one_def ethernet_one_def HOST_NAME_MAX_def mem_plenty_def)
  with tracer_init_or_crash [of te_one mem_one "''service''" "(0, ())" "(0, ())" "(0, jaeger_null_metrics)" None None "()"] show ?thesis
    by (fastforce dest: list_all2_lengthD simp: h)
qed

end
