(* ===== verification/Delivery.thy ===== *)
theory Delivery
  imports Tracer
begin

text \<open>
  From finished spans to packets: the composition of \<open>span.c\<close>, \<open>tracer.c\<close> and \<open>reporter.c\<close>.

  \<open>jaeger_span_finish\<close> calls \<open>jaeger_tracer_report_span\<close>, which calls the report method of the tracer's
  reporter.  The locale \<open>queueing_reporter\<close> is what the tracer relies on: a reported span is put at the
  end of what the reporter holds.  The remote reporter is an instance.
\<close>

section \<open>Finishing spans\<close>

definition tracer_report ::
  "('s, 'r, 'w) tracer_env \<Rightarrow> jaeger_span \<Rightarrow> ('s, 'r) jaeger_tracer \<times> 'w \<Rightarrow> mem \<Rightarrow>
   (jaeger_span \<times> (('s, 'r) jaeger_tracer \<times> 'w) \<times> mem) option" where
  "tracer_report te sp tw m =
     map_option (\<lambda>(sp, tracer, w, m). (sp, (tracer, w), m)) (jaeger_tracer_report_span te (fst tw) sp (snd tw) m)"

text \<open>Spans finished one after the other, each with the reading of the steady clock at that moment.\<close>

fun finish_spans ::
  "('s, 'r, 'w) tracer_env \<Rightarrow> opentracing_time_value \<Rightarrow> (opentracing_time_value \<times> jaeger_span) list \<Rightarrow>
   ('s, 'r) jaeger_tracer \<times> 'w \<Rightarrow> mem \<Rightarrow> ((('s, 'r) jaeger_tracer \<times> 'w) \<times> mem) option" where
  "finish_spans te now [] tw m = Some (tw, m)"
| "finish_spans te now ((steady, sp) # rest) tw m = do {
     (_, tw, m) \<leftarrow> jaeger_span_finish (tracer_report te) (te_env te) now steady sp tw m;
     finish_spans te now rest tw m
   }"

text \<open>The clock has not gone back since the span was started; times are normalised and the span knows its tracer.\<close>

definition finishable :: "opentracing_time_value \<Rightarrow> jaeger_span \<Rightarrow> bool" where
  "finishable steady sp \<longleftrightarrow> time_norm steady \<and> time_norm (sp_start_time_steady sp) \<and> sec_ok steady \<and>
     sec_ok (sp_start_time_steady sp) \<and> time_ns (sp_start_time_steady sp) \<le> time_ns steady \<and> sp_tracer sp \<noteq> None"

definition sampled_of :: "(opentracing_time_value \<times> jaeger_span) list \<Rightarrow> (opentracing_time_value \<times> jaeger_span) list" where
  "sampled_of spans = filter (jaeger_span_is_sampled_no_locking \<circ> snd) spans"

lemma finish_hands_over:
  assumes "\<not> sp_locked sp" and "finishable steady sp"
  obtains d where "time_ns d = time_ns steady - time_ns (sp_start_time_steady sp)"
    and "jaeger_span_finish report env now steady sp w m =
      report (if jaeger_span_is_sampled_no_locking sp then sp\<lparr>sp_duration := d\<rparr> else sp) w m"
proof -
  have "time_norm steady" "time_norm (sp_start_time_steady sp)" "sec_ok steady" "sec_ok (sp_start_time_steady sp)"
    using assms(2) by (auto simp: finishable_def)
  from time_subtract_norm [OF this] obtain d where
    d: "jaeger_time_subtract steady (sp_start_time_steady sp) = Some (time_ns (sp_start_time_steady sp) \<le> time_ns steady, d)"
    "time_ns d = time_ns steady - time_ns (sp_start_time_steady sp)" by blast
  have "jaeger_span_finish report env now steady sp w m =
      report (if jaeger_span_is_sampled_no_locking sp then sp\<lparr>sp_duration := d\<rparr> else sp) w m"
    using assms d(1)
    by (auto simp: jaeger_span_finish_def jaeger_span_finish_with_options_def finish_sampled_def finishable_def
        JAEGERTRACINGC_FINISH_SPAN_OPTIONS_INIT_def TIME_ZERO_def jaeger_span_is_sampled_no_locking_def Let_def)
  with d(2) that show ?thesis by blast
qed

lemma is_sampled_unlocked:
  "unlocked sp \<Longrightarrow> jaeger_span_is_sampled sp = Some (jaeger_span_is_sampled_no_locking sp, sp)"
  by (simp add: jaeger_span_is_sampled_def span_lock_both_def span_unlock_both_def unlocked_def span_lock_def span_unlock_def
      ctx_lock_def ctx_unlock_def jaeger_span_is_sampled_no_locking_def)

lemma metrics_inc_full:
  assumes "metrics_full (Some mt)"
  obtains mt' where "metrics_inc name d mt = Some mt'" "metrics_full (Some mt')"
  using reporter_inc_spec [OF assms, of name d] by (auto simp: reporter_inc_def)

text \<open>
  What the tracer relies on of a reporter that queues: \<open>ready t n r\<close> if \<open>n\<close> more spans of the tracer \<open>t\<close>
  can be reported, \<open>pending\<close> what has been reported, \<open>same\<close> that an entry tells what the span told.
\<close>

locale queueing_reporter =
  fixes report :: "tracer_process option \<Rightarrow> 'r \<Rightarrow> jaeger_span \<Rightarrow> 'w \<Rightarrow> mem \<Rightarrow> ('r \<times> 'w \<times> mem) option"
    and ready :: "tracer_process \<Rightarrow> nat \<Rightarrow> 'r \<Rightarrow> bool"
    and ptrs :: "'r \<Rightarrow> ptr list"
    and pending :: "'r \<Rightarrow> 'q list"
    and sendable :: "jaeger_span \<Rightarrow> bool"
    and same :: "jaeger_span \<Rightarrow> 'q \<Rightarrow> bool"
  assumes sendable_unlocked: "sendable sp \<Longrightarrow> unlocked sp"
    and sendable_duration: "sendable sp \<Longrightarrow> sendable (sp\<lparr>sp_duration := d\<rparr>)"
    and ready_less: "ready t (Suc n) r \<Longrightarrow> ready t n r"
    and report_law: "\<lbrakk>mem_good m; sendable sp; ready t (Suc n) r; owns m (ptrs r)\<rbrakk> \<Longrightarrow>
      \<exists>x r' m'. report (Some t) r sp w m = Some (r', w, m') \<and> ready t n r' \<and> pending r' = pending r @ [x] \<and> same sp x \<and>
        distinct (ptrs r') \<and> mem_trans (set (ptrs r)) (set (ptrs r')) m m'"
begin

text \<open>An entry for a finished span tells of the span with its duration.\<close>

definition entry_for :: "opentracing_time_value \<times> jaeger_span \<Rightarrow> 'q \<Rightarrow> bool" where
  "entry_for s x \<longleftrightarrow> (\<exists>d. time_ns d = time_ns (fst s) - time_ns (sp_start_time_steady (snd s)) \<and> same ((snd s)\<lparr>sp_duration := d\<rparr>) x)"

lemma finish_queues_one:
  assumes "te_report te = report" and "tc_reporter tracer = Some (p, r)" and "tc_metrics tracer = Some (mp, mt)" and "metrics_full (Some mt)"
    and "sendable sp" and "finishable steady sp" and "ready (process_of tracer) (Suc n) r" and "mem_good m" and "owns m (ptrs r)"
  shows "\<exists>sp' tracer' r' mt' xs m'. jaeger_span_finish (tracer_report te) env now steady sp (tracer, w) m = Some (sp', (tracer', w), m') \<and>
    tracer' = tracer\<lparr>tc_metrics := Some (mp, mt'), tc_reporter := Some (p, r')\<rparr> \<and> metrics_full (Some mt') \<and>
    ready (process_of tracer) n r' \<and> pending r' = pending r @ xs \<and> list_all2 entry_for (sampled_of [(steady, sp)]) xs \<and>
    distinct (ptrs r') \<and> mem_trans (set (ptrs r)) (set (ptrs r')) m m'"
proof -
  have u: "unlocked sp" "\<not> sp_locked sp" using sendable_unlocked [OF assms(5)] by (auto simp: unlocked_def)
  obtain d where
    d: "time_ns d = time_ns steady - time_ns (sp_start_time_steady sp)"
    "jaeger_span_finish (tracer_report te) env now steady sp (tracer, w) m =
      tracer_report te (if jaeger_span_is_sampled_no_locking sp then sp\<lparr>sp_duration := d\<rparr> else sp) (tracer, w) m"
    by (rule finish_hands_over [OF u(2) assms(6)])
  from metrics_inc_full [OF assms(4)] obtain mt' where mt': "metrics_inc spans_finished 1 mt = Some mt'" "metrics_full (Some mt')" .
  have pt: "process_of (tracer\<lparr>tc_metrics := x\<rparr>) = process_of tracer" for x by (simp add: process_of_def)
  show ?thesis
  proof (cases "jaeger_span_is_sampled_no_locking sp")
    case False
    have "tracer_report te sp (tracer, w) m = Some (sp, (tracer\<lparr>tc_metrics := Some (mp, mt')\<rparr>, w), m)"
      using assms(3) mt'(1) is_sampled_unlocked [OF u(1)] False by (simp add: tracer_report_def jaeger_tracer_report_span_def)
    moreover have "tracer\<lparr>tc_metrics := Some (mp, mt')\<rparr> = tracer\<lparr>tc_metrics := Some (mp, mt'), tc_reporter := Some (p, r)\<rparr>"
      using assms(2) by simp
    moreover have "distinct (ptrs r)" "mem_trans (set (ptrs r)) (set (ptrs r)) m m"
      using assms(8,9) by (auto simp: owns_def mem_good_def intro: mem_trans_keep)
    ultimately show ?thesis using False d(2) mt'(2) ready_less [OF assms(7)]
      by (intro exI [of _ sp] exI [of _ "tracer\<lparr>tc_metrics := Some (mp, mt'), tc_reporter := Some (p, r)\<rparr>"] exI [of _ r] exI [of _ mt'] exI [of _ "[]"] exI [of _ m])
        (simp add: sampled_of_def)
  next
    case True
    let ?sp = "sp\<lparr>sp_duration := d\<rparr>"
    have s: "jaeger_span_is_sampled_no_locking ?sp" "unlocked ?sp" "sp_tracer ?sp = sp_tracer sp" "sp_tracer sp \<noteq> None"
      using True u(1) assms(6) by (simp_all add: jaeger_span_is_sampled_no_locking_def unlocked_def finishable_def)
    from report_law [OF assms(8) sendable_duration [OF assms(5)] assms(7,9)] obtain x r' m' where
      r: "report (Some (process_of tracer)) r ?sp w m = Some (r', w, m')" "ready (process_of tracer) n r'" "pending r' = pending r @ [x]"
      "same ?sp x" "distinct (ptrs r')" "mem_trans (set (ptrs r)) (set (ptrs r')) m m'" by blast
    have "tracer_report te ?sp (tracer, w) m = Some (?sp, (tracer\<lparr>tc_metrics := Some (mp, mt'), tc_reporter := Some (p, r')\<rparr>, w), m')"
      using assms(1,2,3) mt'(1) is_sampled_unlocked [OF s(2)] s(1,3,4) r(1)
      by (auto simp: tracer_report_def jaeger_tracer_report_span_def pt)
    with True d mt'(2) r(2-6) show ?thesis
      by (intro exI [of _ ?sp] exI [of _ "tracer\<lparr>tc_metrics := Some (mp, mt'), tc_reporter := Some (p, r')\<rparr>"] exI [of _ r'] exI [of _ mt'] exI [of _ "[x]"] exI [of _ m'])
        (auto simp: sampled_of_def entry_for_def)
  qed
qed

lemma finish_queues_all:
  assumes "te_report te = report" and "tc_reporter tracer = Some (p, r)" and "tc_metrics tracer = Some (mp, mt)" and "metrics_full (Some mt)"
    and "\<forall>s\<in>set spans. sendable (snd s) \<and> finishable (fst s) (snd s)" and "ready (process_of tracer) (length spans + n) r"
    and "mem_good m" and "owns m (ptrs r)"
  shows "\<exists>tracer' r' xs m'. finish_spans te now spans (tracer, w) m = Some ((tracer', w), m') \<and> tc_reporter tracer' = Some (p, r') \<and>
    ready (process_of tracer) n r' \<and> pending r' = pending r @ xs \<and> list_all2 entry_for (sampled_of spans) xs \<and>
    distinct (ptrs r') \<and> mem_trans (set (ptrs r)) (set (ptrs r')) m m'"
  using assms
proof (induction spans arbitrary: tracer r mt m)
  case Nil
  then show ?case by (auto simp: sampled_of_def owns_def mem_good_def intro: mem_trans_keep)
next
  case (Cons s spans)
  obtain steady sp where s: "s = (steady, sp)" by fastforce
  have one: "sendable sp" "finishable steady sp" "ready (process_of tracer) (Suc (length spans + n)) r" using Cons.prems(5,6) s by auto
  from finish_queues_one [OF Cons.prems(1-4) one Cons.prems(7,8), of "te_env te" now w] obtain sp' tracer1 r1 mt1 xs m1 where
    f: "jaeger_span_finish (tracer_report te) (te_env te) now steady sp (tracer, w) m = Some (sp', (tracer1, w), m1)"
    "tracer1 = tracer\<lparr>tc_metrics := Some (mp, mt1), tc_reporter := Some (p, r1)\<rparr>" "metrics_full (Some mt1)"
    "ready (process_of tracer) (length spans + n) r1" "pending r1 = pending r @ xs" "list_all2 entry_for (sampled_of [(steady, sp)]) xs"
    "distinct (ptrs r1)" "mem_trans (set (ptrs r)) (set (ptrs r1)) m m1" by blast
  have t1: "tc_reporter tracer1 = Some (p, r1)" "tc_metrics tracer1 = Some (mp, mt1)" "process_of tracer1 = process_of tracer"
    using f(2) by (simp_all add: process_of_def)
  have g: "mem_good m1" "owns m1 (ptrs r1)" using mem_good_trans [OF Cons.prems(7) f(8)] owns_trans [OF f(8,7)] by auto
  have rest: "\<forall>s\<in>set spans. sendable (snd s) \<and> finishable (fst s) (snd s)" using Cons.prems(5) by simp
  from Cons.IH [OF Cons.prems(1) t1(1,2) f(3) rest _ g] f(4) t1(3) obtain tracer' r' ys m' where
    ih: "finish_spans te now spans (tracer1, w) m1 = Some ((tracer', w), m')" "tc_reporter tracer' = Some (p, r')"
    "ready (process_of tracer) n r'" "pending r' = pending r1 @ ys" "list_all2 entry_for (sampled_of spans) ys" "distinct (ptrs r')"
    "mem_trans (set (ptrs r1)) (set (ptrs r')) m1 m'" by auto
  have sp: "sampled_of (s # spans) = sampled_of [(steady, sp)] @ sampled_of spans" by (simp add: sampled_of_def s)
  have "mem_trans (set (ptrs r)) (set (ptrs r')) m m'"
    by (rule mem_trans_trans [OF f(8) ih(7)]) (use Cons.prems(7) in \<open>simp add: mem_good_def\<close>)
  with f(1,5,6) ih show ?case unfolding sp
    by (intro exI [of _ tracer'] exI [of _ r'] exI [of _ "xs @ ys"] exI [of _ m']) (auto simp: s intro: list_all2_appendI)
qed

end


section \<open>The remote reporter\<close>

definition remote_report ::
  "report_env \<Rightarrow> tracer_process option \<Rightarrow> jaeger_remote_reporter \<Rightarrow> jaeger_span \<Rightarrow> 'w \<Rightarrow> mem \<Rightarrow> (jaeger_remote_reporter \<times> 'w \<times> mem) option" where
  "remote_report renv t r sp w m = map_option (\<lambda>(r, m). (r, w, m)) (remote_reporter_report renv r t (Some sp) m)"

text \<open>What a reporter that was \<open>r0\<close> says about the process of the tracer \<open>t\<close> once it has seen a span.\<close>

definition process_from :: "tracer_process \<Rightarrow> jaeger_remote_reporter \<Rightarrow> pb_process \<Rightarrow> bool" where
  "process_from t r0 pr \<longleftrightarrow> service_known pr \<and> (if service_known (rr_process r0) then pr = rr_process r0 else process_same t pr)"

definition remote_ready :: "report_env \<Rightarrow> jaeger_remote_reporter \<Rightarrow> tracer_process \<Rightarrow> nat \<Rightarrow> jaeger_remote_reporter \<Rightarrow> bool" where
  "remote_ready renv r0 t n r \<longleftrightarrow> tag_blank (env_tag_init (re_env renv)) \<and> queue_ok (rr_spans r) \<and> \<not> rr_locked r \<and> metrics_full (rr_metrics r) \<and>
     16 * (vec_len (rr_spans r) + int n) \<le> INT_MAX \<and>
     r = r0\<lparr>rr_spans := rr_spans r, rr_metrics := rr_metrics r, rr_process := rr_process r\<rparr> \<and>
     (process_from t r0 (rr_process r) \<or>
      rr_process r = rr_process r0 \<and> vec_list (rr_spans r) = vec_list (rr_spans r0) \<and> \<not> service_known (rr_process r0) \<and>
        tracer_ok t \<and> pp_tags (rr_process r0) = None \<and> pp_n_tags (rr_process r0) = 0)"

text \<open>The queue and, once it is there, the process message.\<close>

definition remote_ptrs :: "jaeger_remote_reporter \<Rightarrow> ptr list" where
  "remote_ptrs r = queue_ptrs (rr_spans r) @ (if service_known (rr_process r) then process_ptrs (rr_process r) else [])"

lemma remote_report_law:
  assumes "mem_good m" and "span_src_ok (re_env renv) sp" and "remote_ready renv r0 t (Suc n) r" and "owns m (remote_ptrs r)"
  shows "\<exists>x r' m'. remote_report renv (Some t) r sp w m = Some (r', w, m') \<and> remote_ready renv r0 t n r' \<and>
    messages (rr_spans r') = messages (rr_spans r) @ [x] \<and> pb_span_same sp x \<and>
    distinct (remote_ptrs r') \<and> mem_trans (set (remote_ptrs r)) (set (remote_ptrs r')) m m'"
proof -
  let ?P = "process_ptrs (rr_process r)"
  have rd: "tag_blank (env_tag_init (re_env renv))" "queue_ok (rr_spans r)" "\<not> rr_locked r" "metrics_full (rr_metrics r)"
    "16 * (vec_len (rr_spans r) + 1) \<le> INT_MAX" "16 * (vec_len (rr_spans r) + 1 + int n) \<le> INT_MAX"
    "r = r0\<lparr>rr_spans := rr_spans r, rr_metrics := rr_metrics r, rr_process := rr_process r\<rparr>"
    "process_from t r0 (rr_process r) \<or> rr_process r = rr_process r0 \<and> \<not> service_known (rr_process r0)"
    "service_known (rr_process r) \<or> tracer_ok t \<and> pp_tags (rr_process r) = None \<and> pp_n_tags (rr_process r) = 0"
    using assms(3) by (auto simp: remote_ready_def process_from_def)
  have m: "mem_ok m" "mem_plenty m" "owns m (queue_ptrs (rr_spans r))" using assms(1,4) by (auto simp: mem_good_def remote_ptrs_def owns_append)
  from remote_report_spec [OF rd(1) assms(2) rd(2-5) m rd(9)] obtain p d r' m' where
    s: "remote_reporter_report renv r (Some t) (Some sp) m = Some (r', m')" "pb_span_same sp d"
    "vec_list (rr_spans r') = vec_list (rr_spans r) @ [Some (p, d)]" "queue_ok (rr_spans r')" "\<not> rr_locked r'"
    "if service_known (rr_process r)
     then rr_process r' = rr_process r \<and> mem_trans (set (queue_ptrs (rr_spans r))) (set (queue_ptrs (rr_spans r'))) m m'
     else process_same t (rr_process r') \<and> service_known (rr_process r') \<and> distinct (queue_ptrs (rr_spans r') @ process_ptrs (rr_process r')) \<and>
       mem_trans (set (queue_ptrs (rr_spans r))) (set (queue_ptrs (rr_spans r') @ process_ptrs (rr_process r'))) m m'"
    "metrics_full (rr_metrics r')" "distinct (queue_ptrs (rr_spans r'))"
    "r' = r\<lparr>rr_spans := rr_spans r', rr_metrics := rr_metrics r', rr_process := rr_process r'\<rparr>" by blast
  have vo: "vec_ok (rr_spans r)" "vec_ok (rr_spans r')" using rd(2) s(4) by (simp_all add: queue_ok_def)
  have len: "vec_len (rr_spans r') = vec_len (rr_spans r) + 1" using length_vec_list [OF vo(1)] length_vec_list [OF vo(2)] s(3) by simp
  have sh: "r' = r0\<lparr>rr_spans := rr_spans r', rr_metrics := rr_metrics r', rr_process := rr_process r'\<rparr>"
  proof -
    have "r\<lparr>rr_spans := rr_spans r', rr_metrics := rr_metrics r', rr_process := rr_process r'\<rparr> =
      r0\<lparr>rr_spans := rr_spans r', rr_metrics := rr_metrics r', rr_process := rr_process r'\<rparr>" by (subst rd(7)) simp
    with s(9) show ?thesis by simp
  qed
  have pf: "process_from t r0 (rr_process r')" using rd(8) s(6) by (auto simp: process_from_def split: if_splits)
  have "remote_ready renv r0 t n r'" unfolding remote_ready_def using rd(1,6) s(4,5,7) len sh pf by simp
  moreover have "messages (rr_spans r') = messages (rr_spans r) @ [d]" using s(3) by (simp add: messages_def)
  moreover have "distinct (remote_ptrs r') \<and> mem_trans (set (remote_ptrs r)) (set (remote_ptrs r')) m m'"
  proof (cases "service_known (rr_process r)")
    case True
    with s(6) have k: "rr_process r' = rr_process r" "mem_trans (set (queue_ptrs (rr_spans r))) (set (queue_ptrs (rr_spans r'))) m m'" by auto
    have o: "set ?P \<subseteq> dom (mem_blocks m)" "set ?P \<inter> set (queue_ptrs (rr_spans r)) = {}" "distinct ?P"
      using assms(4) True by (auto simp: remote_ptrs_def owns_def)
    have "set (queue_ptrs (rr_spans r')) \<inter> set ?P = {}" using mem_trans_disj [OF k(2)] o(1,2) by blast
    with mem_trans_frame [OF k(2) o(1,2)] True k(1) s(8) o(3) show ?thesis by (simp add: remote_ptrs_def)
  next
    case False
    with s(6) show ?thesis by (simp add: remote_ptrs_def)
  qed
  ultimately show ?thesis using s(1,2) by (auto simp: remote_report_def)
qed

interpretation remote: queueing_reporter "remote_report renv" "remote_ready renv start" remote_ptrs "\<lambda>r. messages (rr_spans r)"
  "span_src_ok (re_env renv)" pb_span_same for renv start
proof (unfold_locales, goal_cases)
  case (1 sp)
  then show ?case by (simp add: span_src_ok_def)
next
  case (2 sp d)
  then show ?case by (simp add: span_src_ok_def unlocked_def)
next
  case (3 t n r)
  then show ?case by (auto simp: remote_ready_def)
next
  case (4 m sp t n r w)
  then show ?case by (rule remote_report_law)
qed




definition delivery_tracer :: "(unit, jaeger_remote_reporter) jaeger_tracer" where
  "delivery_tracer = JAEGERTRACINGC_TRACER_INIT\<lparr>tc_service_name := Some (0, ''svc''),
     tc_tags := \<lparr>vec_len = 0, vec_capacity = 1, vec_data = Some (0, [TAG_ZERO]), vec_type_size = SIZEOF_TAG\<rparr>,
     tc_metrics := Some (0, jaeger_null_metrics),
     tc_reporter := Some (0, reporter_two\<lparr>rr_process := \<lparr>pp_service_name = None, pp_tags = None, pp_n_tags = 0\<rparr>\<rparr>)\<rparr>"

definition delivery_env :: "(unit, jaeger_remote_reporter, net) tracer_env" where
  "delivery_env =
    \<lparr>te_env = env_one, te_is_sampled = (\<lambda>s tid name tags g m. Some (True, s, tags, g, m)), te_sampler_destroy = (\<lambda>s m. Some (s, m)),
     te_report = remote_report report_env_one, te_flush = remote_reporter_flush report_env_one,
     te_reporter_destroy = (\<lambda>r w m. Some (r, w, m)), te_remote_sampler_init = (\<lambda>name mt m. Some (False, (), m)),
     te_remote_reporter_init = (\<lambda>mt m. Some (False, reporter_two, m)), te_gethost = None, te_addrs = None,
     te_random = random_env_one, te_garbage = 0, te_as_span_ref = (\<lambda>r. None), te_zero_value = OTV_null,
     te_sizeof_metrics = 168, te_sizeof_sampler = 8, te_sizeof_reporter = 8, te_sizeof_span = 400\<rparr>"

definition delivery_spans :: "(opentracing_time_value \<times> jaeger_span) list" where
  "delivery_spans = [(\<lparr>tv_sec = 5, tv_nsec = 0\<rparr>, span_one\<lparr>sp_tracer := Some 0\<rparr>)]"

abbreviation delivery_reporter :: jaeger_remote_reporter where
  "delivery_reporter \<equiv> reporter_two\<lparr>rr_process := \<lparr>pp_service_name = None, pp_tags = None, pp_n_tags = 0\<rparr>\<rparr>"

lemma delivery_env_ok: "re_env report_env_one = env_one" "tag_blank (env_tag_init env_one)"
  by (simp_all add: report_env_one_def env_one_def tag_blank_def TAG_ZERO_def)

lemma delivery_span_ok: "span_src_ok env_one (span_one\<lparr>sp_tracer := Some 0\<rparr>)"
  using span_one_ok(1) by (simp add: span_src_ok_def unlocked_def)

lemma delivery_ready:
  assumes "n \<le> 2"
  shows "remote_ready report_env_one delivery_reporter (process_of delivery_tracer) n delivery_reporter"
    and "owns mem_three (remote_ptrs delivery_reporter)"
proof -
  have t: "tracer_ok (process_of delivery_tracer)"
    by (simp add: tracer_ok_def process_of_def delivery_tracer_def vec_ok_def vec_list_def SIZEOF_TAG_def INT_MAX_def)
  show "remote_ready report_env_one delivery_reporter (process_of delivery_tracer) n delivery_reporter"
    using reporter_two_simps(2,8) t delivery_env_ok assms unfolding remote_ready_def
    by (simp add: service_known_def, simp add: reporter_two_def metrics_full_def INT_MAX_def)
  show "owns mem_three (remote_ptrs delivery_reporter)" using reporter_two_simps(4) by (simp add: remote_ptrs_def service_known_def)
qed


end
