(* ===== verification/Remote_Sampler.thy ===== *)
theory Remote_Sampler
  imports Tracer
begin

unbundle bit_operations_syntax

text \<open>
  The remotely controlled sampler: \<open>src/jaegertracingc/sampler.c\<close> from \<open>jaeger_http_sampling_manager_format_request\<close>
  on, \<open>sampler.h\<close>.

  The sampler asks a server over HTTP for a sampling strategy and replaces its inner sampler by one that
  follows the strategy.  \<open>http_parser\<close>, \<open>jansson\<close> and the socket calls are members of \<open>manager_env\<close>: \<open>'p\<close> is
  the state of an HTTP parser, \<open>'j\<close> a JSON value, \<open>'a\<close> an address.
\<close>

section \<open>What the sampler calls\<close>

text \<open>What the HTTP parser tells its callbacks while it consumes a chunk.\<close>

datatype parser_event = Body string | Message_complete

text \<open>
  \<open>http_parser_execute\<close> gets the callback for the end of the headers as a function of the status code and
  gives the new state, the later callbacks in order and the number of characters consumed; the other
  callbacks always return 0.  The members for \<open>json_unpack_ex\<close> take the keys of the format and give the
  converted values, \<open>None\<close> for an error; an absent optional member is an inner \<open>None\<close>.
\<close>

record ('p, 'j, 'a) manager_env =
  me_parse_url :: "string \<Rightarrow> http_parser_url \<Rightarrow> int \<times> http_parser_url"
  me_getaddrinfo :: "string \<Rightarrow> string \<Rightarrow> int \<Rightarrow> 'a list option"
  me_socket :: "nat \<Rightarrow> int"
  me_connect :: "int \<Rightarrow> 'a \<Rightarrow> int"
  me_parser_init :: 'p
  me_execute :: "(int \<Rightarrow> int) \<Rightarrow> 'p \<Rightarrow> string \<Rightarrow> 'p \<times> parser_event list \<times> int"
  me_loads :: "string \<Rightarrow> 'j option"
  me_unpack_sf :: "'j \<Rightarrow> string \<Rightarrow> real option"
  me_unpack_sf_sf_so :: "'j \<Rightarrow> string \<Rightarrow> string \<Rightarrow> string \<Rightarrow> (real \<times> real \<times> 'j option) option"
  me_unpack_ss_so :: "'j \<Rightarrow> string \<Rightarrow> string \<Rightarrow> (string \<times> 'j) option"
  me_unpack_so_so_so :: "'j \<Rightarrow> string \<Rightarrow> string \<Rightarrow> string \<Rightarrow> ('j option \<times> 'j option \<times> 'j option) option"
  me_array :: "'j \<Rightarrow> 'j list option"
  me_qsort :: "jaeger_operation_sampler list \<Rightarrow> jaeger_operation_sampler list"

section \<open>The sampling manager\<close>

text \<open>
  The manager; \<open>hm_ctx\<close> is the block behind \<open>parser.data\<close> and whether its state is \<open>http_parsing_state_read\<close>,
  \<open>hm_request\<close> the first \<open>request_length\<close> bytes of the request buffer.
\<close>

record 'p jaeger_http_sampling_manager =
  hm_service_name :: "cstring option"
  hm_url :: jaeger_url
  hm_fd :: int
  hm_parser :: 'p
  hm_ctx :: "(ptr \<times> bool) option"
  hm_request :: string
  hm_response :: "char jaeger_vector"

definition JAEGERTRACINGC_HTTP_SAMPLING_MANAGER_REQUEST_MAX_LEN :: nat where
  "JAEGERTRACINGC_HTTP_SAMPLING_MANAGER_REQUEST_MAX_LEN = 256"

definition JAEGERTRACINGC_HTTP_SAMPLING_MANAGER_INIT :: "'p \<Rightarrow> 'p jaeger_http_sampling_manager" where
  "JAEGERTRACINGC_HTTP_SAMPLING_MANAGER_INIT parser =
     \<lparr>hm_service_name = None, hm_url = JAEGERTRACINGC_URL_INIT, hm_fd = - 1, hm_parser = parser, hm_ctx = None,
      hm_request = [], hm_response = JAEGERTRACINGC_VECTOR_INIT\<rparr>"

text \<open>\<open>UF_PATH\<close>, and \<open>_PC_PATH_MAX\<close>, which is not a length but the name of a limit for \<open>pathconf\<close>: 4 in glibc.\<close>

definition UF_PATH :: nat where
  "UF_PATH = 3"

definition PC_PATH_MAX :: nat where
  "PC_PATH_MAX = 4"

definition CRLF :: string where
  "CRLF = [CHR 0x0D, CHR 0x0A]"

definition request_text :: "string \<Rightarrow> string \<Rightarrow> string \<Rightarrow> string" where
  "request_text path service host_port =
     ''GET /'' @ path @ ''?service='' @ service @ CRLF @ ''Host: '' @ host_port @ CRLF @
     ''User-Agent: jaegertracing/'' @ JAEGERTRACINGC_CLIENT_VERSION @ CRLF @ CRLF"

text \<open>
  The test for a path uses \<open>UF_PATH\<close> itself as the mask, so it looks at the bits of the scheme and the host.
  A text that is longer than the buffer by one is not noticed and is sent with its last character cut off.
\<close>

definition jaeger_http_sampling_manager_format_request ::
  "'p jaeger_http_sampling_manager \<Rightarrow> jaeger_host_port \<Rightarrow> (bool \<times> 'p jaeger_http_sampling_manager) option" where
  "jaeger_http_sampling_manager_format_request manager host_port = do {
     let parts = url_parts (hm_url manager);
     str \<leftarrow> url_str (hm_url manager);
     let (off, len) = (if field_set parts AND word_of_nat UF_PATH \<noteq> 0
                       then (field_off parts UF_PATH, field_len parts UF_PATH) else (0, 0));
     if len > PC_PATH_MAX then Some (False, manager)
     else do {
       c_assert (len = 0 \<or> off + len \<le> length (snd str));
       let path = take len (drop off (snd str));
       let size = HOST_NAME_MAX + JAEGERTRACINGC_MAX_PORT_STR_LEN + 1;
       (n, buffer) \<leftarrow> jaeger_host_port_format host_port size;
       host \<leftarrow> buffer;
       if n > size then Some (False, manager)
       else do {
         service \<leftarrow> hm_service_name manager;
         let text = request_text path (snd service) host;
         let max_len = JAEGERTRACINGC_HTTP_SAMPLING_MANAGER_REQUEST_MAX_LEN;
         if length text > max_len then Some (False, manager)
         else Some (True, manager\<lparr>hm_request :=
           (if length text = max_len then take (max_len - 1) text @ [CHR 0x00] else text)\<rparr>)
       }
     }
   }"

definition HTTP_OK :: int where
  "HTTP_OK = 200"

definition jaeger_http_sampling_manager_parser_on_headers_complete :: "int \<Rightarrow> int" where
  "jaeger_http_sampling_manager_parser_on_headers_complete status_code = (if status_code \<noteq> HTTP_OK then 1 else 0)"

text \<open>\<open>memcpy\<close> to the slots from a pointer on.\<close>

fun vec_store :: "'a jaeger_vector \<Rightarrow> nat option \<Rightarrow> 'a list \<Rightarrow> 'a jaeger_vector option" where
  "vec_store vec p [] = Some vec"
| "vec_store vec p (x # xs) = do {
     vec \<leftarrow> vec_write vec p x;
     vec_store vec (map_option Suc p) xs
   }"

text \<open>The pointer is used without a test, so a failed allocation is not survived.\<close>

definition jaeger_http_sampling_manager_parser_on_body ::
  "string \<Rightarrow> 'p jaeger_http_sampling_manager \<Rightarrow> mem \<Rightarrow> ('p jaeger_http_sampling_manager \<times> mem) option" where
  "jaeger_http_sampling_manager_parser_on_body data manager m = do {
     (slot, vec, m) \<leftarrow> jaeger_vector_extend CHR 0x00 (hm_response manager) (jaeger_vector_length (hm_response manager)) (int (length data)) m;
     vec \<leftarrow> vec_store vec slot data;
     Some (manager\<lparr>hm_response := vec\<rparr>, m)
   }"

definition jaeger_http_sampling_manager_parser_on_message_complete ::
  "'p jaeger_http_sampling_manager \<Rightarrow> 'p jaeger_http_sampling_manager option" where
  "jaeger_http_sampling_manager_parser_on_message_complete manager = do {
     (p, _) \<leftarrow> hm_ctx manager;
     Some (manager\<lparr>hm_ctx := Some (p, False)\<rparr>)
   }"

fun parser_callbacks :: "parser_event list \<Rightarrow> 'p jaeger_http_sampling_manager \<Rightarrow> mem \<Rightarrow> ('p jaeger_http_sampling_manager \<times> mem) option" where
  "parser_callbacks [] manager m = Some (manager, m)"
| "parser_callbacks (Body data # events) manager m = do {
     (manager, m) \<leftarrow> jaeger_http_sampling_manager_parser_on_body data manager m;
     parser_callbacks events manager m
   }"
| "parser_callbacks (Message_complete # events) manager m = do {
     manager \<leftarrow> jaeger_http_sampling_manager_parser_on_message_complete manager;
     parser_callbacks events manager m
   }"

text \<open>The addresses are tried in turn; \<open>me_socket i\<close> is the descriptor of the attempt \<open>i\<close>.\<close>

fun connect_loop :: "('p, 'j, 'a) manager_env \<Rightarrow> nat \<Rightarrow> 'a list \<Rightarrow> int option" where
  "connect_loop me i [] = None"
| "connect_loop me i (addr # rest) =
     (let fd = me_socket me i
      in if fd < 0 then connect_loop me (Suc i) rest
         else if me_connect me fd addr = 0 then Some fd
         else connect_loop me (Suc i) rest)"

definition SOCK_STREAM :: int where
  "SOCK_STREAM = 1"

definition jaeger_http_sampling_manager_connect ::
  "('p, 'j, 'a) manager_env \<Rightarrow> 'p jaeger_http_sampling_manager \<Rightarrow> jaeger_host_port \<Rightarrow> (bool \<times> 'p jaeger_http_sampling_manager) option" where
  "jaeger_http_sampling_manager_connect me manager host_port = do {
     addrs \<leftarrow> jaeger_host_port_resolve (me_getaddrinfo me) host_port SOCK_STREAM;
     Some (case addrs of
         None \<Rightarrow> (False, manager)
       | Some as \<Rightarrow> (case connect_loop me 0 as of
             None \<Rightarrow> (False, manager)
           | Some fd \<Rightarrow> (True, manager\<lparr>hm_fd := fd\<rparr>)))
   }"

definition jaeger_http_sampling_manager_destroy ::
  "'p jaeger_http_sampling_manager \<Rightarrow> mem \<Rightarrow> ('p jaeger_http_sampling_manager \<times> mem) option" where
  "jaeger_http_sampling_manager_destroy manager m = do {
     (url, m) \<leftarrow> jaeger_url_destroy (hm_url manager) m;
     m \<leftarrow> jaeger_free (map_option fst (hm_service_name manager)) m;
     m \<leftarrow> jaeger_free (map_option fst (hm_ctx manager)) m;
     (vec, m) \<leftarrow> jaeger_vector_destroy (hm_response manager) m;
     Some (manager\<lparr>hm_url := url, hm_service_name := None, hm_ctx := None, hm_response := vec\<rparr>, m)
   }"

definition DEFAULT_SAMPLING_SERVER_URL :: string where
  "DEFAULT_SAMPLING_SERVER_URL = ''http://localhost:5778/sampling''"

definition SIZEOF_PARSING_CONTEXT :: nat where
  "SIZEOF_PARSING_CONTEXT = 16"

text \<open>The labels \<open>cleanup_host_port\<close> and \<open>cleanup_manager\<close>.\<close>

definition manager_init_cleanup ::
  "'p jaeger_http_sampling_manager \<Rightarrow> jaeger_host_port \<Rightarrow> mem \<Rightarrow> (bool \<times> 'p jaeger_http_sampling_manager \<times> mem) option" where
  "manager_init_cleanup manager host_port m = do {
     (_, m) \<leftarrow> jaeger_host_port_destroy host_port m;
     (manager, m) \<leftarrow> jaeger_http_sampling_manager_destroy manager m;
     Some (False, manager, m)
   }"

text \<open>
  From \<open>http_parser_init\<close> on.  The labels \<open>cleanup_vec\<close> and \<open>cleanup_ctx\<close> free the parsing context, which stays
  in \<open>parser.data\<close> and is freed again by the manager's destructor.
\<close>

definition manager_init_parser ::
  "('p, 'j, 'a) manager_env \<Rightarrow> 'p jaeger_http_sampling_manager \<Rightarrow> jaeger_host_port \<Rightarrow> mem \<Rightarrow> (bool \<times> 'p jaeger_http_sampling_manager \<times> mem) option" where
  "manager_init_parser me manager host_port m =
     (let manager = manager\<lparr>hm_parser := me_parser_init me\<rparr>
      in case jaeger_malloc SIZEOF_PARSING_CONTEXT m of
        (None, m) \<Rightarrow> manager_init_cleanup manager host_port m
      | (Some ctx, m) \<Rightarrow> do {
          let manager = manager\<lparr>hm_ctx := Some (ctx, False)\<rparr>;
          (ok, vec, m) \<leftarrow> jaeger_vector_init CHR 0x00 1 (hm_response manager) m;
          let manager = manager\<lparr>hm_response := vec\<rparr>;
          if \<not> ok then do {
            m \<leftarrow> jaeger_free (Some ctx) m;
            manager_init_cleanup manager host_port m
          }
          else do {
            (ok, vec, m) \<leftarrow> jaeger_vector_reserve CHR 0x00 vec (int JAEGERTRACINGC_HTTP_SAMPLING_MANAGER_REQUEST_MAX_LEN) m;
            let manager = manager\<lparr>hm_response := vec\<rparr>;
            if \<not> ok then do {
              (vec, m) \<leftarrow> jaeger_vector_destroy vec m;
              m \<leftarrow> jaeger_free (Some ctx) m;
              manager_init_cleanup (manager\<lparr>hm_response := vec\<rparr>) host_port m
            }
            else do {
              (decision, manager) \<leftarrow> jaeger_http_sampling_manager_format_request manager host_port;
              (_, m) \<leftarrow> jaeger_host_port_destroy host_port m;
              Some (decision, manager, m)
            }
          }
        })"

definition jaeger_http_sampling_manager_init ::
  "('p, 'j, 'a) manager_env \<Rightarrow> 'p jaeger_http_sampling_manager \<Rightarrow> string option \<Rightarrow> string option \<Rightarrow> mem \<Rightarrow>
   (bool \<times> 'p jaeger_http_sampling_manager \<times> mem) option" where
  "jaeger_http_sampling_manager_init me manager sampling_server_url service_name m = do {
     c_assert (service_name \<noteq> None \<and> service_name \<noteq> Some []);
     (service, m) \<leftarrow> jaeger_strdup service_name m;
     let manager = manager\<lparr>hm_service_name := service\<rparr>;
     if service = None then Some (False, manager, m)
     else do {
       let url = (case sampling_server_url of None \<Rightarrow> DEFAULT_SAMPLING_SERVER_URL
                  | Some u \<Rightarrow> if u = [] then DEFAULT_SAMPLING_SERVER_URL else u);
       (ok, u, m) \<leftarrow> jaeger_url_init (me_parse_url me) (hm_url manager) (Some url) m;
       let manager = manager\<lparr>hm_url := u\<rparr>;
       (ok, host_port, m) \<leftarrow> (if ok then jaeger_host_port_from_url JAEGERTRACINGC_HOST_PORT_INIT u m
                              else Some (False, JAEGERTRACINGC_HOST_PORT_INIT, m));
       if \<not> ok then do {
         (manager, m) \<leftarrow> jaeger_http_sampling_manager_destroy manager m;
         Some (False, manager, m)
       }
       else do {
         (ok, manager) \<leftarrow> jaeger_http_sampling_manager_connect me manager host_port;
         if \<not> ok then manager_init_cleanup manager host_port m
         else manager_init_parser me manager host_port m
       }
     }
   }"

section \<open>Strategies from JSON\<close>

definition parse_probabilistic_sampling_json :: "('p, 'j, 'a) manager_env \<Rightarrow> 'j \<Rightarrow> real option" where
  "parse_probabilistic_sampling_json me json = me_unpack_sf me json ''samplingRate''"

definition parse_rate_limiting_sampling_json :: "('p, 'j, 'a) manager_env \<Rightarrow> 'j \<Rightarrow> real option" where
  "parse_rate_limiting_sampling_json me json = me_unpack_sf me json ''maxTracesPerSecond''"

text \<open>
  The loop over \<open>perOperationStrategies\<close>: success, the strategies written so far and how many of the
  allocated ones still have an \<open>operation\<close> that was never assigned.
\<close>

fun parse_operations_loop ::
  "('p, 'j, 'a) manager_env \<Rightarrow> 'j list \<Rightarrow> jaeger_operation_strategy list \<Rightarrow> mem \<Rightarrow> (bool \<times> jaeger_operation_strategy list \<times> nat \<times> mem) option" where
  "parse_operations_loop me [] done_ops m = Some (True, done_ops, 0, m)"
| "parse_operations_loop me (op_json # rest) done_ops m =
     (case me_unpack_ss_so me op_json ''operation'' ''probabilisticSampling'' of
        None \<Rightarrow> Some (False, done_ops, Suc (length rest), m)
      | Some (operation_name, probabilistic_json) \<Rightarrow> do {
          (operation, m) \<leftarrow> jaeger_strdup (Some operation_name) m;
          let op = \<lparr>os_operation = operation, os_sampling_rate = 0\<rparr>;
          if operation = None then Some (False, done_ops @ [op], length rest, m)
          else case parse_probabilistic_sampling_json me probabilistic_json of
            None \<Rightarrow> Some (False, done_ops @ [op], length rest, m)
          | Some rate \<Rightarrow> parse_operations_loop me rest (done_ops @ [op\<lparr>os_sampling_rate := rate\<rparr>]) m
        })"

definition SIZEOF_OPERATION_STRATEGY :: nat where
  "SIZEOF_OPERATION_STRATEGY = 16"

text \<open>
  The value read, \<open>None\<close> for failure.  After a failure in the loop the destructor frees the \<open>operation\<close> of all
  allocated strategies; there is no result if one of them was never assigned.
\<close>

definition parse_per_operation_sampling_json ::
  "('p, 'j, 'a) manager_env \<Rightarrow> 'j \<Rightarrow> mem \<Rightarrow> (jaeger_per_operation_strategy option \<times> mem) option" where
  "parse_per_operation_sampling_json me json m =
     (case me_unpack_sf_sf_so me json ''defaultSamplingProbability'' ''defaultLowerBoundTracesPerSecond'' ''perOperationStrategies'' of
        None \<Rightarrow> Some (None, m)
      | Some (probability, bound, array) \<Rightarrow>
          (let strategy = \<lparr>po_strategies = None, po_default_sampling_probability = probability, po_default_lower_bound = bound\<rparr>
           in case array of
             None \<Rightarrow> Some (Some strategy, m)
           | Some a \<Rightarrow>
               (case me_array me a of
                  None \<Rightarrow> Some (None, m)
                | Some ops \<Rightarrow>
                    (case jaeger_malloc (SIZEOF_OPERATION_STRATEGY * length ops) m of
                       (None, m) \<Rightarrow> Some (None, m)
                     | (Some p, m) \<Rightarrow> do {
                         (success, done_ops, unset, m) \<leftarrow> parse_operations_loop me ops [] m;
                         let strategy = strategy\<lparr>po_strategies := Some (p, done_ops)\<rparr>;
                         if success then Some (Some strategy, m)
                         else do {
                           c_assert (unset = 0);
                           (strategy, m) \<leftarrow> jaeger_per_operation_strategy_destroy strategy m;
                           Some (None, m)
                         }
                       }))))"

text \<open>A response with none of the three members runs into an assertion.\<close>

definition jaeger_http_sampling_manager_parse_response_json ::
  "('p, 'j, 'a) manager_env \<Rightarrow> 'p jaeger_http_sampling_manager \<Rightarrow> mem \<Rightarrow> (jaeger_strategy_response option \<times> mem) option" where
  "jaeger_http_sampling_manager_parse_response_json me manager m = do {
     slot \<leftarrow> jaeger_vector_get (hm_response manager) 0;
     c_assert (slot \<noteq> None);
     case me_loads me (takeWhile (\<lambda>c. c \<noteq> CHR 0x00) (vec_list (hm_response manager))) of
       None \<Rightarrow> Some (None, m)
     | Some response_json \<Rightarrow>
         (case me_unpack_so_so_so me response_json ''probabilisticSampling'' ''rateLimitingSampling'' ''operationSampling'' of
            None \<Rightarrow> Some (None, m)
          | Some (Some probabilistic_json, _, _) \<Rightarrow>
              Some (map_option Probabilistic_strategy (parse_probabilistic_sampling_json me probabilistic_json), m)
          | Some (None, Some rate_limiting_json, _) \<Rightarrow>
              Some (map_option Rate_limiting_strategy (parse_rate_limiting_sampling_json me rate_limiting_json), m)
          | Some (None, None, per_operation_json) \<Rightarrow> do {
              json \<leftarrow> per_operation_json;
              (st, m) \<leftarrow> parse_per_operation_sampling_json me json m;
              Some (map_option Per_operation_strategy st, m)
            })
   }"

text \<open>
  What the server does with one request: how many bytes \<open>write\<close> accepts, and what the calls of \<open>read\<close> give,
  none of them empty, until there is no more.
\<close>

record exchange =
  ex_write :: int
  ex_reads :: "string list"

fun read_loop ::
  "('p, 'j, 'a) manager_env \<Rightarrow> string list \<Rightarrow> 'p jaeger_http_sampling_manager \<Rightarrow> mem \<Rightarrow> (bool \<times> 'p jaeger_http_sampling_manager \<times> mem) option" where
  "read_loop me [] manager m = Some (True, manager, m)"
| "read_loop me (chunk # rest) manager m = do {
     let (parser, events, num_parsed) =
       me_execute me jaeger_http_sampling_manager_parser_on_headers_complete (hm_parser manager) chunk;
     (manager, m) \<leftarrow> parser_callbacks events (manager\<lparr>hm_parser := parser\<rparr>) m;
     if num_parsed \<noteq> int (length chunk) then Some (False, manager, m)
     else do {
       (_, reading) \<leftarrow> hm_ctx manager;
       if \<not> reading then Some (True, manager, m)
       else read_loop me rest manager m
     }
   }"

definition jaeger_http_sampling_manager_get_sampling_strategies ::
  "('p, 'j, 'a) manager_env \<Rightarrow> exchange \<Rightarrow> 'p jaeger_http_sampling_manager \<Rightarrow> mem \<Rightarrow>
   (jaeger_strategy_response option \<times> 'p jaeger_http_sampling_manager \<times> mem) option" where
  "jaeger_http_sampling_manager_get_sampling_strategies me ex manager m = do {
     (ctx, _) \<leftarrow> hm_ctx manager;
     let manager = manager\<lparr>hm_ctx := Some (ctx, False), hm_response := jaeger_vector_clear (hm_response manager)\<rparr>;
     if ex_write ex \<noteq> int (length (hm_request manager)) then Some (None, manager, m)
     else do {
       (ok, manager, m) \<leftarrow> read_loop me (ex_reads ex) (manager\<lparr>hm_ctx := Some (ctx, True)\<rparr>) m;
       if \<not> ok then Some (None, manager, m)
       else do {
         (slot, vec, m) \<leftarrow> jaeger_vector_append CHR 0x00 (hm_response manager) m;
         vec \<leftarrow> vec_write vec slot CHR 0x00;
         let manager = manager\<lparr>hm_response := vec\<rparr>;
         (response, m) \<leftarrow> jaeger_http_sampling_manager_parse_response_json me manager m;
         Some (response, manager, m)
       }
     }
   }"

section \<open>The sampler in use\<close>

text \<open>
  \<open>jaeger_sampler_choice\<close>, by its type.  \<open>Stale_adaptive_choice c\<close> is left by an initialisation of the adaptive
  sampler that failed: the type says adaptive, the methods are those of the sampler \<open>c\<close> that was there.
\<close>

datatype jaeger_sampler_choice =
    No_choice
  | Const_choice jaeger_const_sampler
  | Probabilistic_choice jaeger_probabilistic_sampler
  | Rate_limiting_choice jaeger_rate_limiting_sampler
  | Guaranteed_choice jaeger_guaranteed_throughput_probabilistic_sampler
  | Adaptive_choice jaeger_adaptive_sampler
  | Stale_adaptive_choice jaeger_sampler_choice

definition JAEGERTRACINGC_SAMPLER_CHOICE_INIT :: jaeger_sampler_choice where
  "JAEGERTRACINGC_SAMPLER_CHOICE_INIT = No_choice"

text \<open>
  The destructors of all samplers but the adaptive one do nothing.  The inherited destructor of a stale
  adaptive sampler does nothing either if it is one of these; \<open>None\<close> stands for the cases in which memory
  that was overwritten is read.
\<close>

fun jaeger_sampler_choice_destroy :: "jaeger_sampler_choice \<Rightarrow> mem \<Rightarrow> mem option" where
  "jaeger_sampler_choice_destroy (Adaptive_choice s) m = map_option snd (jaeger_adaptive_sampler_destroy s m)"
| "jaeger_sampler_choice_destroy (Stale_adaptive_choice c) m =
     (case c of Const_choice _ \<Rightarrow> Some m | Probabilistic_choice _ \<Rightarrow> Some m | Rate_limiting_choice _ \<Rightarrow> Some m | _ \<Rightarrow> None)"
| "jaeger_sampler_choice_destroy _ m = Some m"

text \<open>\<open>is_sampled\<close> of the sampler that \<open>jaeger_sampler_choice_get_sampler\<close> gives.\<close>

fun choice_is_sampled ::
  "sampler_env \<Rightarrow> draw \<Rightarrow> jaeger_sampler_choice \<Rightarrow> string option \<Rightarrow> tags \<Rightarrow> mem \<Rightarrow> (bool \<times> jaeger_sampler_choice \<times> tags \<times> mem) option" where
  "choice_is_sampled env dr (Const_choice s) name tags m =
     map_option (\<lambda>(b, s, tags, m). (b, Const_choice s, tags, m)) (jaeger_const_sampler_is_sampled env s tags m)"
| "choice_is_sampled env dr (Probabilistic_choice s) name tags m =
     map_option (\<lambda>(b, s, tags, m). (b, Probabilistic_choice s, tags, m)) (jaeger_probabilistic_sampler_is_sampled env dr s tags m)"
| "choice_is_sampled env dr (Rate_limiting_choice s) name tags m =
     map_option (\<lambda>(b, s, tags, m). (b, Rate_limiting_choice s, tags, m)) (jaeger_rate_limiting_sampler_is_sampled env dr s tags m)"
| "choice_is_sampled env dr (Guaranteed_choice s) name tags m =
     map_option (\<lambda>(b, s, tags, m). (b, Guaranteed_choice s, tags, m))
       (jaeger_guaranteed_throughput_probabilistic_sampler_is_sampled env dr s tags m)"
| "choice_is_sampled env dr (Adaptive_choice s) name tags m =
     map_option (\<lambda>(b, s, tags, m). (b, Adaptive_choice s, tags, m)) (jaeger_adaptive_sampler_is_sampled env dr s name tags m)"
| "choice_is_sampled env dr _ name tags m = None"

record 'p jaeger_remotely_controlled_sampler =
  rc_sampler :: jaeger_sampler_choice
  rc_max_operations :: int
  rc_metrics :: "jaeger_metrics option"
  rc_manager :: "'p jaeger_http_sampling_manager"
  rc_locked :: bool

definition rc_lock :: "'p jaeger_remotely_controlled_sampler \<Rightarrow> 'p jaeger_remotely_controlled_sampler option" where
  "rc_lock s = do { c_assert (\<not> rc_locked s); Some (s\<lparr>rc_locked := True\<rparr>) }"

definition rc_unlock :: "'p jaeger_remotely_controlled_sampler \<Rightarrow> 'p jaeger_remotely_controlled_sampler option" where
  "rc_unlock s = do { c_assert (rc_locked s); Some (s\<lparr>rc_locked := False\<rparr>) }"

definition jaeger_remotely_controlled_sampler_is_sampled ::
  "sampler_env \<Rightarrow> draw \<Rightarrow> 'p jaeger_remotely_controlled_sampler \<Rightarrow> string option \<Rightarrow> tags \<Rightarrow> mem \<Rightarrow>
   (bool \<times> 'p jaeger_remotely_controlled_sampler \<times> tags \<times> mem) option" where
  "jaeger_remotely_controlled_sampler_is_sampled env dr s operation_name tags m = do {
     s \<leftarrow> rc_lock s;
     (result, c, tags, m) \<leftarrow> choice_is_sampled env dr (rc_sampler s) operation_name tags m;
     s \<leftarrow> rc_unlock (s\<lparr>rc_sampler := c\<rparr>);
     Some (result, s, tags, m)
   }"

definition jaeger_remotely_controlled_sampler_destroy ::
  "'p jaeger_remotely_controlled_sampler \<Rightarrow> mem \<Rightarrow> ('p jaeger_remotely_controlled_sampler \<times> mem) option" where
  "jaeger_remotely_controlled_sampler_destroy s m = do {
     m \<leftarrow> jaeger_sampler_choice_destroy (rc_sampler s) m;
     (manager, m) \<leftarrow> jaeger_http_sampling_manager_destroy (rc_manager s) m;
     c_assert (\<not> rc_locked s);
     Some (s\<lparr>rc_manager := manager\<rparr>, m)
   }"

text \<open>\<open>old\<close> is what the bytes of the union are as an adaptive sampler, which \<open>jaeger_adaptive_sampler_init\<close> overwrites.\<close>

definition jaeger_remotely_controlled_sampler_update_adaptive_sampler ::
  "('p, 'j, 'a) manager_env \<Rightarrow> jaeger_adaptive_sampler \<Rightarrow> opentracing_time_value \<Rightarrow> 'p jaeger_remotely_controlled_sampler \<Rightarrow>
   jaeger_per_operation_strategy \<Rightarrow> mem \<Rightarrow> (bool \<times> 'p jaeger_remotely_controlled_sampler \<times> mem) option" where
  "jaeger_remotely_controlled_sampler_update_adaptive_sampler me old now s strategies m =
     (case rc_sampler s of
        Adaptive_choice a \<Rightarrow> do {
          (ok, a, m) \<leftarrow> jaeger_adaptive_sampler_update now a strategies m;
          Some (ok, s\<lparr>rc_sampler := Adaptive_choice a\<rparr>, m)
        }
      | Stale_adaptive_choice _ \<Rightarrow> None
      | c \<Rightarrow> do {
          m \<leftarrow> jaeger_sampler_choice_destroy c m;
          (ok, a, m) \<leftarrow> jaeger_adaptive_sampler_init (me_qsort me) now old strategies (rc_max_operations s) m;
          Some (ok, s\<lparr>rc_sampler := (if ok then Adaptive_choice a else Stale_adaptive_choice c)\<rparr>, m)
        })"

text \<open>The switch over the strategy of a response.\<close>

definition update_to_strategy ::
  "('p, 'j, 'a) manager_env \<Rightarrow> jaeger_adaptive_sampler \<Rightarrow> opentracing_time_value \<Rightarrow> 'p jaeger_remotely_controlled_sampler \<Rightarrow>
   jaeger_strategy_response \<Rightarrow> mem \<Rightarrow> (bool \<times> 'p jaeger_remotely_controlled_sampler \<times> mem) option" where
  "update_to_strategy me old now s response m =
     (case response of
        Per_operation_strategy st \<Rightarrow> jaeger_remotely_controlled_sampler_update_adaptive_sampler me old now s st m
      | Probabilistic_strategy rate \<Rightarrow> do {
          m \<leftarrow> jaeger_sampler_choice_destroy (rc_sampler s) m;
          Some (True, s\<lparr>rc_sampler := Probabilistic_choice (jaeger_probabilistic_sampler_init (JAEGERTRACINGC_CLAMP rate 0 1))\<rparr>, m)
        }
      | Rate_limiting_strategy max_traces \<Rightarrow> do {
          m \<leftarrow> jaeger_sampler_choice_destroy (rc_sampler s) m;
          Some (True, s\<lparr>rc_sampler := Rate_limiting_choice (jaeger_rate_limiting_sampler_init max_traces now)\<rparr>, m)
        }
      | Invalid_strategy \<Rightarrow> Some (False, s, m))"

definition jaeger_remotely_controlled_sampler_update ::
  "('p, 'j, 'a) manager_env \<Rightarrow> jaeger_adaptive_sampler \<Rightarrow> opentracing_time_value \<Rightarrow> exchange \<Rightarrow> 'p jaeger_remotely_controlled_sampler \<Rightarrow> mem \<Rightarrow>
   (bool \<times> 'p jaeger_remotely_controlled_sampler \<times> mem) option" where
  "jaeger_remotely_controlled_sampler_update me old now ex s m = do {
     (response, manager, m) \<leftarrow> jaeger_http_sampling_manager_get_sampling_strategies me ex (rc_manager s) m;
     let s = s\<lparr>rc_manager := manager\<rparr>;
     case response of
       None \<Rightarrow> do {
         metrics \<leftarrow> reporter_inc sampler_query_failure 1 (rc_metrics s);
         Some (False, s\<lparr>rc_metrics := metrics\<rparr>, m)
       }
     | Some strategy \<Rightarrow> do {
         s \<leftarrow> rc_lock s;
         metrics \<leftarrow> reporter_inc sampler_retrieved 1 (rc_metrics s);
         (success, s, m) \<leftarrow> update_to_strategy me old now (s\<lparr>rc_metrics := metrics\<rparr>) strategy m;
         metrics \<leftarrow> reporter_inc (if success then sampler_updated else sampler_update_failure) 1 (rc_metrics s);
         s \<leftarrow> rc_unlock (s\<lparr>rc_metrics := metrics\<rparr>);
         m \<leftarrow> jaeger_strategy_response_destroy strategy m;
         Some (success, s, m)
       }
   }"

definition DEFAULT_MAX_OPERATIONS :: int where
  "DEFAULT_MAX_OPERATIONS = 2000"

definition DEFAULT_SAMPLING_RATE :: real where
  "DEFAULT_SAMPLING_RATE = 1 / 1000"

definition jaeger_remotely_controlled_sampler_init ::
  "('p, 'j, 'a) manager_env \<Rightarrow> 'p \<Rightarrow> string option \<Rightarrow> string option \<Rightarrow> jaeger_sampler_choice option \<Rightarrow> int \<Rightarrow> jaeger_metrics option \<Rightarrow> mem \<Rightarrow>
   (bool \<times> 'p jaeger_remotely_controlled_sampler \<times> mem) option" where
  "jaeger_remotely_controlled_sampler_init me parser service_name url initial_sampler max_ops metrics m = do {
     c_assert (service_name \<noteq> None \<and> service_name \<noteq> Some []);
     let sampler = \<lparr>rc_sampler = (case initial_sampler of
                        None \<Rightarrow> Probabilistic_choice (jaeger_probabilistic_sampler_init DEFAULT_SAMPLING_RATE)
                      | Some c \<Rightarrow> c),
                    rc_max_operations = (if max_ops \<le> 0 then DEFAULT_MAX_OPERATIONS else max_ops), rc_metrics = metrics,
                    rc_manager = JAEGERTRACINGC_HTTP_SAMPLING_MANAGER_INIT parser, rc_locked = False\<rparr>;
     (ok, manager, m) \<leftarrow> jaeger_http_sampling_manager_init me (rc_manager sampler) url service_name m;
     Some (ok, sampler\<lparr>rc_manager := manager\<rparr>, m)
   }"

section \<open>The default address\<close>

text \<open>
  What \<open>http_parser_parse_url\<close> says about the default address: it has a host, and its path \<open>/sampling\<close> has
  nine characters.
\<close>

definition default_url_parsed :: "('p, 'j, 'a) manager_env \<Rightarrow> bool" where
  "default_url_parsed me \<longleftrightarrow> (\<forall>old. let parts = snd (me_parse_url me DEFAULT_SAMPLING_SERVER_URL old)
     in has_field parts UF_HOST \<and> field_len parts UF_PATH = length ''/sampling'')"

lemma mask_host: "bit w UF_HOST \<Longrightarrow> w AND word_of_nat UF_PATH \<noteq> (0 :: 16 word)"
proof
  assume b: "bit w UF_HOST" and z: "w AND word_of_nat UF_PATH = 0"
  have "bit (word_of_nat UF_PATH :: 16 word) UF_HOST" by (simp add: UF_PATH_def UF_HOST_def)
  with b have "bit (w AND word_of_nat UF_PATH) UF_HOST" by (simp add: bit_and_iff)
  with z show False by simp
qed

lemma format_default_url:
  assumes "has_field (url_parts (hm_url manager)) UF_HOST" and "field_len (url_parts (hm_url manager)) UF_PATH = length ''/sampling''"
  shows "jaeger_http_sampling_manager_format_request manager host_port \<in> {None, Some (False, manager)}"
  using mask_host [of "field_set (url_parts (hm_url manager))"] assms
  by (cases "url_str (hm_url manager)") (simp_all add: jaeger_http_sampling_manager_format_request_def has_field_def PC_PATH_MAX_def Let_def)

lemma manager_init_default:
  assumes "default_url_parsed me"
  shows "jaeger_http_sampling_manager_init me manager None service m \<noteq> Some (True, manager', m')"
proof
  assume run: "jaeger_http_sampling_manager_init me manager None service m = Some (True, manager', m')"
  have cl: "manager_init_cleanup mg hp m \<noteq> Some (True, manager', m')" for mg hp m
    by (auto simp: manager_init_cleanup_def bind_eq_Some_conv)
  have url: "url_parts u = snd (me_parse_url me DEFAULT_SAMPLING_SERVER_URL (url_parts u0))"
    if "jaeger_url_init (me_parse_url me) u0 (Some DEFAULT_SAMPLING_SERVER_URL) m = Some (ok, u, m1)" for u0 m ok u m1
    using that by (auto simp: jaeger_url_init_def bind_eq_Some_conv Let_def split: prod.splits if_splits)
  have conn: "hm_url mg' = hm_url mg" if "jaeger_http_sampling_manager_connect me mg hp = Some (ok, mg')" for mg hp ok mg'
  proof (cases "jaeger_host_port_resolve (me_getaddrinfo me) hp SOCK_STREAM")
    case (Some addrs)
    with that show ?thesis
      by (cases addrs; cases "connect_loop me 0 (the addrs)") (auto simp: jaeger_http_sampling_manager_connect_def)
  qed (use that in \<open>simp add: jaeger_http_sampling_manager_connect_def\<close>)
  from run obtain mg hp m1 u0 where
    p: "manager_init_parser me mg hp m1 = Some (True, manager', m')" "url_parts (hm_url mg) = snd (me_parse_url me DEFAULT_SAMPLING_SERVER_URL u0)"
    by (auto simp: jaeger_http_sampling_manager_init_def bind_eq_Some_conv Let_def cl
        split: if_splits dest!: url conn)
  from p(2) assms have f: "has_field (url_parts (hm_url mg)) UF_HOST" "field_len (url_parts (hm_url mg)) UF_PATH = length ''/sampling''"
    by (auto simp: default_url_parsed_def Let_def)
  have fmt: "jaeger_http_sampling_manager_format_request (mg\<lparr>hm_parser := p, hm_ctx := c, hm_response := v\<rparr>) hp \<noteq> Some (True, x)" for p c v x
    using format_default_url [of "mg\<lparr>hm_parser := p, hm_ctx := c, hm_response := v\<rparr>" hp] f by auto
  show False
  proof (cases "jaeger_malloc SIZEOF_PARSING_CONTEXT m1")
    case (Pair ctx m2)
    with p(1) cl fmt show ?thesis
      by (cases ctx) (auto simp: manager_init_parser_def Let_def bind_eq_Some_conv split: if_splits)
  qed
qed

text \<open>
  C35: a tracer without a sampler of the caller never starts.  The default sampler asks the default address,
  whose path \<open>/sampling\<close> is longer than the 4 characters that \<open>_PC_PATH_MAX\<close> leaves for a path, so its
  initialisation fails whatever the network and the memory do, and \<open>jaeger_tracer_init\<close> never succeeds.
\<close>

theorem default_sampler_never_starts:
  assumes "default_url_parsed me"
    and "te_remote_sampler_init te = (\<lambda>name metrics. jaeger_remotely_controlled_sampler_init me parser (Some name) None None 0 metrics)"
  shows "jaeger_tracer_init te tracer service None reporter metrics options headers w m \<noteq> Some (True, result)"
proof -
  have "jaeger_remotely_controlled_sampler_init me parser (Some name) None None 0 mt m \<noteq> Some (True, s, m')" for name mt m s m'
    using manager_init_default [OF assms(1)]
    by (auto simp: jaeger_remotely_controlled_sampler_init_def bind_eq_Some_conv Let_def)
  then have d: "default_sampler te name mt m = Some (Some x, m') \<Longrightarrow> False" for name mt m x m'
    by (auto simp: default_sampler_def assms(2) bind_eq_Some_conv split: option.splits prod.splits if_splits)
  have cl: "tracer_init_cleanup te tr w m \<noteq> Some (True, result)" for tr w m
    by (auto simp: tracer_init_cleanup_def bind_eq_Some_conv)
  show ?thesis
    using d cl by (auto simp: jaeger_tracer_init_def bind_eq_Some_conv Let_def split: option.splits if_splits prod.splits)
qed

text \<open>
  A server and libraries for the witnesses: every chunk is a whole message, the only JSON value known is 0
  for the text \<open>rate\<close>, with the member 1 for \<open>probabilisticSampling\<close>, whose rate is one quarter.
\<close>

definition manager_env_one :: "(unit, nat, unit) manager_env" where
  "manager_env_one =
     \<lparr>me_parse_url = (\<lambda>url old. (0, \<lparr>field_set = 15, field_off = (\<lambda>f. if f = UF_HOST then 7 else if f = UF_PORT then 17 else 21),
        field_len = (\<lambda>f. if f = UF_PORT then 4 else 9)\<rparr>)),
      me_getaddrinfo = (\<lambda>host port t. Some [()]), me_socket = (\<lambda>i. 3), me_connect = (\<lambda>fd a. 0), me_parser_init = (),
      me_execute = (\<lambda>cb p chunk. ((), [Body chunk, Message_complete], int (length chunk))),
      me_loads = (\<lambda>str. if str = ''rate'' then Some 0 else None),
      me_unpack_sf = (\<lambda>j key. if j = 1 \<and> key = ''samplingRate'' then Some (1 / 4) else None),
      me_unpack_sf_sf_so = (\<lambda>j a b c. None), me_unpack_ss_so = (\<lambda>j a b. None),
      me_unpack_so_so_so = (\<lambda>j a b c. if j = 0 then Some (Some 1, None, None) else None), me_array = (\<lambda>j. None),
      me_qsort = sort_key op_string\<rparr>"

definition te_default :: "(unit jaeger_remotely_controlled_sampler, unit, unit) tracer_env" where
  "te_default =
    \<lparr>te_env = env_one, te_is_sampled = (\<lambda>s tid name tags g m. Some (True, s, tags, g, m)), te_sampler_destroy = (\<lambda>s m. Some (s, m)),
     te_report = (\<lambda>t r sp w m. Some (r, w, m)), te_flush = (\<lambda>r w m. Some (True, r, w, m)),
     te_reporter_destroy = (\<lambda>r w m. Some (r, w, m)),
     te_remote_sampler_init = (\<lambda>name metrics. jaeger_remotely_controlled_sampler_init manager_env_one () (Some name) None None 0 metrics),
     te_remote_reporter_init = (\<lambda>mt m. Some (True, (), m)), te_gethost = None, te_addrs = None,
     te_random = random_env_one, te_garbage = 0, te_as_span_ref = (\<lambda>r. None), te_zero_value = OTV_null,
     te_sizeof_metrics = 168, te_sizeof_sampler = 8, te_sizeof_reporter = 8, te_sizeof_span = 400\<rparr>"

theorem default_sampler_never_starts_witness:
  "\<forall>result. jaeger_tracer_init te_default JAEGERTRACINGC_TRACER_INIT (Some ''svc'') None (Some (0, ())) None None None () mem_one \<noteq> Some (True, result)"
proof
  fix result
  have "default_url_parsed manager_env_one"
    by (simp add: default_url_parsed_def manager_env_one_def has_field_def UF_HOST_def UF_PATH_def UF_PORT_def)
  from default_sampler_never_starts [OF this, of te_default "()"] show
    "jaeger_tracer_init te_default JAEGERTRACINGC_TRACER_INIT (Some ''svc'') None (Some (0, ())) None None None () mem_one \<noteq> Some (True, result)"
    by (simp add: te_default_def)
qed

end
