(* ===== verification/Remote_Update.thy ===== *)
theory Remote_Update
  imports Remote_Sampler
begin

text \<open>
  An update of the remotely controlled sampler (\<open>Remote_Sampler\<close>) from the chunks of an HTTP answer to the new
  inner sampler: collecting the response, reading the strategy, making the samplers of operations,
  replacing the sampler.  \<open>plan_of\<close> is what a response text asks for.
\<close>

section \<open>Collecting the response\<close>

text \<open>The response buffer, with room for texts below \<open>2 ^ 27\<close> characters.\<close>

definition buffer_ok :: "char jaeger_vector \<Rightarrow> bool" where
  "buffer_ok v \<longleftrightarrow> vec_ok v \<and> vec_type_size v = 1 \<and> vec_capacity v \<le> 2 ^ 29"

lemma vec_store_run:
  "vec_data v = Some (p, slots) \<Longrightarrow> i + length xs \<le> length slots \<Longrightarrow>
   vec_store v (Some i) xs = Some (v\<lparr>vec_data := Some (p, take i slots @ xs @ drop (i + length xs) slots)\<rparr>)"
proof (induction xs arbitrary: v i slots)
  case Nil
  then show ?case by simp
next
  case (Cons x xs)
  have "take (Suc i) (slots[i := x]) = take i slots @ [x]"
    using Cons.prems(2) by (simp add: take_Suc_conv_app_nth)
  with Cons show ?case by (simp add: vec_write_def drop_update_cancel)
qed

lemma reserve_good:
  assumes "buffer_ok v" and "n < 2 ^ 28" and "vec_capacity v < n" and "mem_good m" and "set (vec_ptrs v) \<subseteq> dom (mem_blocks m)"
  shows "\<exists>v' m'. jaeger_vector_reserve z v n m = Some (True, v', m') \<and> buffer_ok v' \<and> vec_list v' = vec_list v \<and> vec_len v' = vec_len v \<and>
    n \<le> vec_capacity v' \<and> mem_trans (set (vec_ptrs v)) (set (vec_ptrs v')) m m'"
proof -
  have v: "vec_ok v" "vec_type_size v = 1" "0 < vec_capacity v" and m: "mem_ok m" "mem_plenty m"
    using assms(1,4) by (auto simp: buffer_ok_def vec_ok_def mem_good_def)
  have room: "vec_room v n" using v(2) assms(2) by (simp add: vec_room_def INT_MAX_def)
  from vec_reserve_total [OF v(1) m(1) assms(5) room] obtain ok v' m' where r: "jaeger_vector_reserve z v n m = Some (ok, v', m')" by blast
  have ok by (rule vec_reserve_plenty [OF r m])
  note rs = vec_reserve_spec [OF r v(1) m(1)]
  obtain a where a: "align_capacity (vec_capacity v) n = Some a" "a < 2 * n"
    using align_capacity_total [OF v(3), of n] assms(2,3) by (auto simp: INT_MAX_def)
  have "vec_capacity v' = a" using r a(1) assms(3) v(3) \<open>ok\<close> by (auto simp: jaeger_vector_reserve_def bind_eq_Some_conv Let_def split: option.splits)
  with r \<open>ok\<close> rs assms(2,5) a(2) v(2) show ?thesis by (auto simp: buffer_ok_def)
qed

lemma extend_good:
  assumes "buffer_ok v" and "vec_len v + int (length data) < 2 ^ 27" and "mem_good m" and "set (vec_ptrs v) \<subseteq> dom (mem_blocks m)"
  shows "\<exists>slot w v' m'. jaeger_vector_extend CHR 0x00 v (jaeger_vector_length v) (int (length data)) m = Some (slot, w, m') \<and>
    vec_store w slot data = Some v' \<and> buffer_ok v' \<and> vec_list v' = vec_list v @ data \<and> mem_trans (set (vec_ptrs v)) (set (vec_ptrs v')) m m'"
proof -
  let ?n = "int (length data)"
  have vo: "vec_ok v" "0 \<le> vec_len v" "vec_len v \<le> vec_capacity v" "vec_capacity v \<le> 2 ^ 29" using assms(1) by (auto simp: buffer_ok_def vec_ok_def)
  have i: "int_ok (vec_len v + ?n)" "int_ok (vec_capacity v + ?n)" using vo(2-4) assms(2) by (simp_all add: int_ok_def INT_MAX_def)
  obtain v1 m1 where r: "(if vec_len v + ?n > vec_capacity v then jaeger_vector_reserve CHR 0x00 v (vec_capacity v + ?n) m else Some (True, v, m)) = Some (True, v1, m1)"
    "buffer_ok v1" "vec_list v1 = vec_list v" "vec_len v1 = vec_len v" "vec_len v + ?n \<le> vec_capacity v1" "mem_trans (set (vec_ptrs v)) (set (vec_ptrs v1)) m m1"
  proof (cases "vec_len v + ?n > vec_capacity v")
    case True
    have g: "vec_capacity v < vec_capacity v + ?n" using True vo(3) by linarith
    have "vec_capacity v + ?n < 2 ^ 28" using True assms(2) vo(2) by simp
    from reserve_good [OF assms(1) this g assms(3,4), of "CHR 0x00"] True vo(3) that show ?thesis by fastforce
  next
    case False
    with that [of v m] assms(1,3,4) show ?thesis by (simp add: mem_good_def mem_trans_keep)
  qed
  have "vec_ok v1" using r(2) by (simp add: buffer_ok_def)
  then obtain p slots where d: "vec_data v1 = Some (p, slots)" "length slots = nat (vec_capacity v1)" by (rule vec_okE)
  let ?k = "nat (vec_len v)"
  have k: "?k + length data \<le> length slots" using r(5) d(2) vo(2) by linarith
  define v' where "v' = v1\<lparr>vec_len := vec_len v1 + ?n, vec_data := Some (p, take ?k slots @ data @ drop (?k + length data) slots)\<rparr>"
  have st: "vec_store (v1\<lparr>vec_len := vec_len v1 + ?n\<rparr>) (Some ?k) data = Some v'"
    using vec_store_run [of "v1\<lparr>vec_len := vec_len v1 + ?n\<rparr>" p slots ?k data] d(1) k by (simp add: v'_def)
  have ext: "jaeger_vector_extend CHR 0x00 v (vec_len v) ?n m = Some (Some ?k, v1\<lparr>vec_len := vec_len v1 + ?n\<rparr>, m1)"
  proof (cases "vec_len v + ?n > vec_capacity v")
    case True
    with r(1,4) i vo d(1) show ?thesis by (simp add: jaeger_vector_extend_def jaeger_vector_length_def jaeger_vector_offset_def)
  next
    case False
    with r(1,4) i vo d(1) show ?thesis by (simp add: jaeger_vector_extend_def jaeger_vector_length_def jaeger_vector_offset_def)
  qed
  have "vec_list v = take ?k slots" using r(3,4) d(1) by (simp add: vec_list_def)
  then have "vec_list v' = vec_list v @ data" using r(4) vo(2) k d(1) by (simp add: v'_def vec_list_def nat_add_distrib)
  moreover have "buffer_ok v'" using r(2,4,5) vo(2) d k by (simp add: v'_def buffer_ok_def vec_ok_def INT_MAX_def)
  moreover have "vec_ptrs v' = vec_ptrs v1" using d(1) by (simp add: v'_def vec_ptrs_def)
  ultimately show ?thesis using ext st r(6)
    by (intro exI [of _ "Some ?k"] exI [of _ "v1\<lparr>vec_len := vec_len v1 + ?n\<rparr>"] exI [of _ v'] exI [of _ m1]) (simp add: jaeger_vector_length_def)
qed

lemma on_body_good:
  assumes "buffer_ok (hm_response mg)" and "vec_len (hm_response mg) + int (length data) < 2 ^ 27"
    and "mem_good m" and "set (vec_ptrs (hm_response mg)) \<subseteq> dom (mem_blocks m)"
  shows "\<exists>v' m'. jaeger_http_sampling_manager_parser_on_body data mg m = Some (mg\<lparr>hm_response := v'\<rparr>, m') \<and> buffer_ok v' \<and>
    vec_list v' = vec_list (hm_response mg) @ data \<and> mem_trans (set (vec_ptrs (hm_response mg))) (set (vec_ptrs v')) m m'"
proof -
  from extend_good [OF assms] obtain slot w v' m' where
    "jaeger_vector_extend CHR 0x00 (hm_response mg) (jaeger_vector_length (hm_response mg)) (int (length data)) m = Some (slot, w, m')"
    "vec_store w slot data = Some v'" "buffer_ok v'" "vec_list v' = vec_list (hm_response mg) @ data"
    "mem_trans (set (vec_ptrs (hm_response mg))) (set (vec_ptrs v')) m m'" by blast
  then show ?thesis
    by (intro exI [of _ v'] exI [of _ m']) (simp add: jaeger_http_sampling_manager_parser_on_body_def)
qed

lemma append_nul_good:
  assumes "buffer_ok v" and "vec_len v + 1 < 2 ^ 27" and "mem_good m" and "set (vec_ptrs v) \<subseteq> dom (mem_blocks m)"
  obtains slot w v' m' where "jaeger_vector_append CHR 0x00 v m = Some (slot, w, m')" and "vec_write w slot x = Some v'" and "buffer_ok v'"
    and "vec_list v' = vec_list v @ [x]" and "mem_trans (set (vec_ptrs v)) (set (vec_ptrs v')) m m'"
proof -
  have "vec_len v + int (length [x]) < 2 ^ 27" using assms(2) by simp
  from extend_good [OF assms(1) this assms(3,4)] obtain slot w v' m' where
    "jaeger_vector_extend CHR 0x00 v (jaeger_vector_length v) 1 m = Some (slot, w, m')" "vec_store w slot [x] = Some v'" "buffer_ok v'"
    "vec_list v' = vec_list v @ [x]" "mem_trans (set (vec_ptrs v)) (set (vec_ptrs v')) m m'" by auto
  with that show thesis by (auto simp: jaeger_vector_append_def jaeger_vector_insert_def bind_eq_Some_conv)
qed

text \<open>The text that a list of callbacks appends, and the text and parser state after reading the chunks of an answer.\<close>

definition bodies :: "parser_event list \<Rightarrow> string" where
  "bodies events = concat (map (\<lambda>e. case e of Body data \<Rightarrow> data | Message_complete \<Rightarrow> []) events)"

fun answer :: "('p, 'j, 'a) manager_env \<Rightarrow> string list \<Rightarrow> 'p \<Rightarrow> (string \<times> 'p) option" where
  "answer me [] parser = Some ([], parser)"
| "answer me (chunk # rest) parser =
     (let (parser', events, num_parsed) = me_execute me jaeger_http_sampling_manager_parser_on_headers_complete parser chunk
      in if num_parsed \<noteq> int (length chunk) then None
         else if Message_complete \<in> set events then Some (bodies events, parser')
         else map_option (\<lambda>(text, p). (bodies events @ text, p)) (answer me rest parser'))"

lemma callbacks_good:
  assumes "buffer_ok (hm_response mg)" and "vec_len (hm_response mg) + int (length (bodies events)) < 2 ^ 27"
    and "mem_good m" and "set (vec_ptrs (hm_response mg)) \<subseteq> dom (mem_blocks m)" and "hm_ctx mg = Some (c, b)"
  shows "\<exists>v' m'. parser_callbacks events mg m =
      Some (mg\<lparr>hm_response := v', hm_ctx := Some (c, b \<and> Message_complete \<notin> set events)\<rparr>, m') \<and> buffer_ok v' \<and>
    vec_list v' = vec_list (hm_response mg) @ bodies events \<and> mem_trans (set (vec_ptrs (hm_response mg))) (set (vec_ptrs v')) m m'"
  using assms
proof (induction events arbitrary: mg m b)
  case Nil
  then show ?case
    by (intro exI [of _ "hm_response mg"] exI [of _ m]) (simp add: bodies_def mem_good_def mem_trans_keep)
next
  case (Cons e events)
  show ?case
  proof (cases e)
    case (Body data)
    have len: "vec_len (hm_response mg) + int (length data) + int (length (bodies events)) < 2 ^ 27"
      using Cons.prems(2) Body by (simp add: bodies_def)
    then have "vec_len (hm_response mg) + int (length data) < 2 ^ 27" by linarith
    from on_body_good [OF Cons.prems(1) this Cons.prems(3,4)] obtain v1 m1 where
      o: "jaeger_http_sampling_manager_parser_on_body data mg m = Some (mg\<lparr>hm_response := v1\<rparr>, m1)" "buffer_ok v1"
      "vec_list v1 = vec_list (hm_response mg) @ data" "mem_trans (set (vec_ptrs (hm_response mg))) (set (vec_ptrs v1)) m m1" by blast
    have l1: "vec_len v1 = vec_len (hm_response mg) + int (length data)"
      using length_vec_list [of v1] length_vec_list [of "hm_response mg"] o(2,3) Cons.prems(1) by (simp add: buffer_ok_def)
    have p1: "set (vec_ptrs v1) \<subseteq> dom (mem_blocks m1)" using mem_trans_dom [OF o(4)] by blast
    have g1: "mem_good m1" by (rule mem_good_trans [OF Cons.prems(3) o(4)])
    from Cons.IH [of "mg\<lparr>hm_response := v1\<rparr>" m1 b] o(2) l1 len p1 g1 Cons.prems(5) obtain v' m' where
      ih: "parser_callbacks events (mg\<lparr>hm_response := v1\<rparr>) m1 =
        Some (mg\<lparr>hm_response := v', hm_ctx := Some (c, b \<and> Message_complete \<notin> set events)\<rparr>, m')" "buffer_ok v'"
      "vec_list v' = vec_list v1 @ bodies events" "mem_trans (set (vec_ptrs v1)) (set (vec_ptrs v')) m1 m'" by auto
    have "mem_trans (set (vec_ptrs (hm_response mg))) (set (vec_ptrs v')) m m'"
      by (rule mem_trans_trans [OF o(4) ih(4)]) (use Cons.prems(3) in \<open>simp add: mem_good_def\<close>)
    with o(1,3) ih(1-3) Body show ?thesis by (intro exI [of _ v'] exI [of _ m']) (simp add: bodies_def)
  next
    case Message_complete
    let ?mg = "mg\<lparr>hm_ctx := Some (c, False)\<rparr>"
    have "vec_len (hm_response mg) + int (length (bodies events)) < 2 ^ 27" using Cons.prems(2) Message_complete by (simp add: bodies_def)
    with Cons.IH [of ?mg m False] Cons.prems(1,3,4) obtain v' m' where
      "parser_callbacks events ?mg m = Some (mg\<lparr>hm_response := v', hm_ctx := Some (c, False)\<rparr>, m')" "buffer_ok v'"
      "vec_list v' = vec_list (hm_response mg) @ bodies events" "mem_trans (set (vec_ptrs (hm_response mg))) (set (vec_ptrs v')) m m'" by auto
    with Message_complete Cons.prems(5) show ?thesis
      by (intro exI [of _ v'] exI [of _ m']) (simp add: bodies_def jaeger_http_sampling_manager_parser_on_message_complete_def)
  qed
qed

lemma read_loop_good:
  assumes "answer me chunks (hm_parser mg) = Some (str, parser)" and "hm_ctx mg = Some (c, True)" and "buffer_ok (hm_response mg)"
    and "vec_len (hm_response mg) + int (length str) < 2 ^ 27" and "mem_good m" and "set (vec_ptrs (hm_response mg)) \<subseteq> dom (mem_blocks m)"
  shows "\<exists>b v' m'. read_loop me chunks mg m = Some (True, mg\<lparr>hm_response := v', hm_ctx := Some (c, b), hm_parser := parser\<rparr>, m') \<and> buffer_ok v' \<and>
    vec_list v' = vec_list (hm_response mg) @ str \<and> mem_trans (set (vec_ptrs (hm_response mg))) (set (vec_ptrs v')) m m'"
  using assms
proof (induction chunks arbitrary: mg m str)
  case Nil
  then show ?case
    by (intro exI [of _ True] exI [of _ "hm_response mg"] exI [of _ m]) (simp add: mem_good_def mem_trans_keep)
next
  case (Cons chunk rest)
  obtain p1 events n where e: "me_execute me jaeger_http_sampling_manager_parser_on_headers_complete (hm_parser mg) chunk = (p1, events, n)"
    by (cases "me_execute me jaeger_http_sampling_manager_parser_on_headers_complete (hm_parser mg) chunk") auto
  have n: "n = int (length chunk)" using Cons.prems(1) e by (auto split: if_splits)
  obtain rest_str where t: "str = bodies events @ rest_str"
    "Message_complete \<in> set events \<and> rest_str = [] \<and> parser = p1 \<or> Message_complete \<notin> set events \<and> answer me rest p1 = Some (rest_str, parser)"
    using Cons.prems(1) e n by (auto split: if_splits)
  let ?mg = "mg\<lparr>hm_parser := p1\<rparr>"
  have "vec_len (hm_response mg) + int (length (bodies events)) < 2 ^ 27" using Cons.prems(4) t(1) by simp
  with callbacks_good [of ?mg events m c True] Cons.prems(2,3,5,6) obtain v1 m1 where
    cb: "parser_callbacks events ?mg m = Some (?mg\<lparr>hm_response := v1, hm_ctx := Some (c, Message_complete \<notin> set events)\<rparr>, m1)" "buffer_ok v1"
    "vec_list v1 = vec_list (hm_response mg) @ bodies events" "mem_trans (set (vec_ptrs (hm_response mg))) (set (vec_ptrs v1)) m m1" by auto
  let ?mg1 = "?mg\<lparr>hm_response := v1, hm_ctx := Some (c, Message_complete \<notin> set events)\<rparr>"
  show ?case
  proof (cases "Message_complete \<in> set events")
    case True
    with t have "str = bodies events" "parser = p1" by auto
    with cb e n True show ?thesis
      by (intro exI [of _ False] exI [of _ v1] exI [of _ m1]) simp
  next
    case False
    have l1: "vec_len v1 = vec_len (hm_response mg) + int (length (bodies events))"
      using length_vec_list [of v1] length_vec_list [of "hm_response mg"] cb(2,3) Cons.prems(3) by (simp add: buffer_ok_def)
    have p: "set (vec_ptrs v1) \<subseteq> dom (mem_blocks m1)" using mem_trans_dom [OF cb(4)] by blast
    have g1: "mem_good m1" by (rule mem_good_trans [OF Cons.prems(5) cb(4)])
    from Cons.IH [of ?mg1 rest_str m1] False t cb(2) l1 Cons.prems(4) p g1 obtain b v' m' where
      ih: "read_loop me rest ?mg1 m1 = Some (True, mg\<lparr>hm_response := v', hm_ctx := Some (c, b), hm_parser := parser\<rparr>, m')" "buffer_ok v'"
      "vec_list v' = vec_list v1 @ rest_str" "mem_trans (set (vec_ptrs v1)) (set (vec_ptrs v')) m1 m'" by auto
    have "mem_trans (set (vec_ptrs (hm_response mg))) (set (vec_ptrs v')) m m'"
      by (rule mem_trans_trans [OF cb(4) ih(4)]) (use Cons.prems(5) in \<open>simp add: mem_good_def\<close>)
    with cb(1,3) ih(1-3) e n False t(1) show ?thesis
      by (intro exI [of _ b] exI [of _ v'] exI [of _ m']) simp
  qed
qed

section \<open>What a response asks for\<close>

text \<open>The strategy that a response text describes: one rate, a limit per second, or a default, a lower bound and rates of operations.\<close>

datatype plan = Rate_plan real | Limit_plan real | Operations_plan real real "(string \<times> real) list"

definition operation_plan :: "('p, 'j, 'a) manager_env \<Rightarrow> 'j \<Rightarrow> (string \<times> real) option" where
  "operation_plan me json = do {
     (name, p) \<leftarrow> me_unpack_ss_so me json ''operation'' ''probabilisticSampling'';
     rate \<leftarrow> parse_probabilistic_sampling_json me p;
     Some (name, rate)
   }"

fun operation_plans :: "('p, 'j, 'a) manager_env \<Rightarrow> 'j list \<Rightarrow> (string \<times> real) list option" where
  "operation_plans me [] = Some []"
| "operation_plans me (j # js) = do { x \<leftarrow> operation_plan me j; xs \<leftarrow> operation_plans me js; Some (x # xs) }"

definition plan_of_operations :: "('p, 'j, 'a) manager_env \<Rightarrow> 'j \<Rightarrow> plan option" where
  "plan_of_operations me json = do {
     (p, b, arr) \<leftarrow> me_unpack_sf_sf_so me json ''defaultSamplingProbability'' ''defaultLowerBoundTracesPerSecond'' ''perOperationStrategies'';
     xs \<leftarrow> (case arr of None \<Rightarrow> Some [] | Some a \<Rightarrow> Option.bind (me_array me a) (operation_plans me));
     Some (Operations_plan p b xs)
   }"

definition plan_of :: "('p, 'j, 'a) manager_env \<Rightarrow> string \<Rightarrow> plan option" where
  "plan_of me str = do {
     json \<leftarrow> me_loads me str;
     (p, r, ops) \<leftarrow> me_unpack_so_so_so me json ''probabilisticSampling'' ''rateLimitingSampling'' ''operationSampling'';
     case p of
       Some j \<Rightarrow> map_option Rate_plan (parse_probabilistic_sampling_json me j)
     | None \<Rightarrow> (case r of
         Some j \<Rightarrow> map_option Limit_plan (parse_rate_limiting_sampling_json me j)
       | None \<Rightarrow> Option.bind ops (plan_of_operations me))
   }"

definition os_ptrs :: "jaeger_operation_strategy \<Rightarrow> ptr list" where
  "os_ptrs x = cs_ptrs (os_operation x)"

definition strategy_ptrs :: "jaeger_per_operation_strategy \<Rightarrow> ptr list" where
  "strategy_ptrs st = (case po_strategies st of None \<Rightarrow> [] | Some (p, xs) \<Rightarrow> p # concat (map os_ptrs xs))"

definition response_ptrs :: "jaeger_strategy_response \<Rightarrow> ptr list" where
  "response_ptrs r = (case r of Per_operation_strategy st \<Rightarrow> strategy_ptrs st | _ \<Rightarrow> [])"

definition op_planned :: "string \<times> real \<Rightarrow> jaeger_operation_strategy \<Rightarrow> bool" where
  "op_planned x s \<longleftrightarrow> (\<exists>p. s = \<lparr>os_operation = Some (p, fst x), os_sampling_rate = snd x\<rparr>)"

definition strategy_planned :: "real \<Rightarrow> real \<Rightarrow> (string \<times> real) list \<Rightarrow> jaeger_per_operation_strategy \<Rightarrow> bool" where
  "strategy_planned p b xs st \<longleftrightarrow> po_default_sampling_probability st = p \<and> po_default_lower_bound st = b \<and> list_all2 op_planned xs (strategy_list st)"

fun response_planned :: "plan \<Rightarrow> jaeger_strategy_response \<Rightarrow> bool" where
  "response_planned (Rate_plan r) resp \<longleftrightarrow> resp = Probabilistic_strategy r"
| "response_planned (Limit_plan x) resp \<longleftrightarrow> resp = Rate_limiting_strategy x"
| "response_planned (Operations_plan p b xs) resp \<longleftrightarrow> (\<exists>st. resp = Per_operation_strategy st \<and> strategy_planned p b xs st)"

lemma parse_loop_good:
  assumes "operation_plans me ops = Some xs" and "mem_good m"
  shows "\<exists>ys m'. parse_operations_loop me ops acc m = Some (True, acc @ ys, 0, m') \<and> list_all2 op_planned xs ys \<and>
    fresh_list (concat (map os_ptrs ys)) m m'"
  using assms
proof (induction ops arbitrary: xs acc m)
  case Nil
  then show ?case by (simp add: fresh_list_def mem_good_def)
next
  case (Cons op ops)
  from Cons.prems(1) obtain name pj rate xs' where
    u: "me_unpack_ss_so me op ''operation'' ''probabilisticSampling'' = Some (name, pj)"
    "parse_probabilistic_sampling_json me pj = Some rate" "operation_plans me ops = Some xs'" "xs = (name, rate) # xs'"
    by (auto simp: operation_plan_def bind_eq_Some_conv)
  have m: "mem_ok m" "mem_plenty m" using Cons.prems(2) by (auto simp: mem_good_def)
  from strdup_good [OF m, of name] obtain q m1 where q: "jaeger_strdup (Some name) m = Some (Some q, m1)" "snd q = name" "fresh_list [fst q] m m1" .
  let ?s = "\<lparr>os_operation = Some q, os_sampling_rate = rate\<rparr>"
  have g: "mem_good m1" using fresh_listD [OF q(3)] m by (simp add: mem_good_def)
  from Cons.IH [OF u(3) g, of "acc @ [?s]"] obtain ys m' where
    ih: "parse_operations_loop me ops (acc @ [?s]) m1 = Some (True, (acc @ [?s]) @ ys, 0, m')" "list_all2 op_planned xs' ys"
    "fresh_list (concat (map os_ptrs ys)) m1 m'" by blast
  have "op_planned (name, rate) ?s" using q(2) by (cases q) (auto simp: op_planned_def)
  moreover have "fresh_list (concat (map os_ptrs (?s # ys))) m m'" using fresh_list_append [OF q(3) ih(3) m(1)] by (simp add: os_ptrs_def)
  ultimately show ?case using u q(1) ih(1,2)
    by (intro exI [of _ "?s # ys"] exI [of _ m']) simp
qed

lemma parse_operations_good:
  assumes "plan_of_operations me json = Some plan" and "mem_good m"
  shows "\<exists>st m'. parse_per_operation_sampling_json me json m = Some (Some st, m') \<and> response_planned plan (Per_operation_strategy st) \<and>
    fresh_list (strategy_ptrs st) m m'"
proof -
  from assms(1) obtain p b arr xs where
    u: "me_unpack_sf_sf_so me json ''defaultSamplingProbability'' ''defaultLowerBoundTracesPerSecond'' ''perOperationStrategies'' = Some (p, b, arr)"
    "(case arr of None \<Rightarrow> Some [] | Some a \<Rightarrow> Option.bind (me_array me a) (operation_plans me)) = Some xs" "plan = Operations_plan p b xs"
    by (auto simp: plan_of_operations_def bind_eq_Some_conv)
  show ?thesis
  proof (cases arr)
    case None
    with u assms(2) show ?thesis
      by (simp add: parse_per_operation_sampling_json_def strategy_planned_def strategy_list_def strategy_ptrs_def fresh_list_def mem_good_def)
  next
    case (Some a)
    with u(2) obtain ops where o: "me_array me a = Some ops" "operation_plans me ops = Some xs" by (auto simp: bind_eq_Some_conv)
    have m: "mem_ok m" "mem_plenty m" using assms(2) by (auto simp: mem_good_def)
    obtain q m1 where q: "jaeger_malloc (SIZEOF_OPERATION_STRATEGY * length ops) m = (Some q, m1)" "fresh_list [q] m m1"
      by (rule malloc_good [OF m])
    have g: "mem_good m1" using fresh_listD [OF q(2)] assms(2) by (simp add: mem_good_def)
    from parse_loop_good [OF o(2) g, of "[]"] obtain ys m' where
      l: "parse_operations_loop me ops [] m1 = Some (True, ys, 0, m')" "list_all2 op_planned xs ys" "fresh_list (concat (map os_ptrs ys)) m1 m'" by auto
    have "fresh_list (q # concat (map os_ptrs ys)) m m'" using fresh_list_append [OF q(2) l(3)] assms(2) by (simp add: mem_good_def)
    with u(1,3) Some o(1) q(1) l(1,2) show ?thesis
      by (simp add: parse_per_operation_sampling_json_def strategy_planned_def strategy_list_def strategy_ptrs_def)
  qed
qed

lemma parse_response_good:
  assumes "plan_of me str = Some plan" and "buffer_ok (hm_response mg)" and "vec_list (hm_response mg) = str @ [CHR 0x00]"
    and "CHR 0x00 \<notin> set str" and "mem_good m"
  shows "\<exists>resp m'. jaeger_http_sampling_manager_parse_response_json me mg m = Some (Some resp, m') \<and> response_planned plan resp \<and>
    fresh_list (response_ptrs resp) m m'"
proof -
  have t: "takeWhile (\<lambda>c. c \<noteq> CHR 0x00) (vec_list (hm_response mg)) = str"
    unfolding assms(3) using assms(4) by (subst takeWhile_append2) auto
  have "vec_ok (hm_response mg)" using assms(2) by (simp add: buffer_ok_def)
  then obtain q slots where d: "vec_data (hm_response mg) = Some (q, slots)" by (rule vec_okE)
  have "0 < vec_len (hm_response mg)" using length_vec_list [OF \<open>vec_ok (hm_response mg)\<close>] assms(3) by simp
  then have s: "jaeger_vector_get (hm_response mg) 0 = Some (Some 0)"
    using d by (simp add: jaeger_vector_get_def jaeger_vector_length_def jaeger_vector_offset_def)
  from assms(1) obtain json p r ops where
    j: "me_loads me str = Some json" "me_unpack_so_so_so me json ''probabilisticSampling'' ''rateLimitingSampling'' ''operationSampling'' = Some (p, r, ops)"
    "(case p of Some j \<Rightarrow> map_option Rate_plan (parse_probabilistic_sampling_json me j)
      | None \<Rightarrow> (case r of Some j \<Rightarrow> map_option Limit_plan (parse_rate_limiting_sampling_json me j)
        | None \<Rightarrow> Option.bind ops (plan_of_operations me))) = Some plan"
    by (auto simp: plan_of_def bind_eq_Some_conv)
  have f: "fresh_list [] m m" using assms(5) by (simp add: fresh_list_def mem_good_def)
  show ?thesis
  proof (cases p)
    case (Some x)
    with j s t f show ?thesis by (auto simp: jaeger_http_sampling_manager_parse_response_json_def response_ptrs_def)
  next
    case None
    note p = this
    show ?thesis
    proof (cases r)
      case (Some x)
      with j s t f p show ?thesis by (auto simp: jaeger_http_sampling_manager_parse_response_json_def response_ptrs_def)
    next
      case None
      with j(3) p obtain x where x: "ops = Some x" "plan_of_operations me x = Some plan" by (auto simp: bind_eq_Some_conv)
      from parse_operations_good [OF x(2) assms(5)] obtain st m' where
        "parse_per_operation_sampling_json me x m = Some (Some st, m')" "response_planned plan (Per_operation_strategy st)"
        "fresh_list (strategy_ptrs st) m m'" by blast
      with j(1,2) s t p None x(1) show ?thesis by (simp add: jaeger_http_sampling_manager_parse_response_json_def response_ptrs_def)
    qed
  qed
qed


section \<open>Making the samplers of operations\<close>

text \<open>What the code relies on of \<open>qsort\<close>: the same samplers, ordered by name.\<close>

definition qsort_sorts :: "('p, 'j, 'a) manager_env \<Rightarrow> bool" where
  "qsort_sorts me \<longleftrightarrow> (\<forall>xs. mset (me_qsort me xs) = mset xs \<and> sorted_wrt (\<lambda>x y. op_name_cmp x y \<le> 0) (me_qsort me xs))"

definition op_made :: "real \<Rightarrow> opentracing_time_value \<Rightarrow> string \<times> real \<Rightarrow> jaeger_operation_sampler \<Rightarrow> bool" where
  "op_made bound now x s \<longleftrightarrow> (\<exists>p. s = \<lparr>op_name = Some (p, fst x), op_sampler = jaeger_guaranteed_throughput_probabilistic_sampler_init bound (snd x) now\<rparr>)"

lemma strategies_loop_good:
  assumes "list_all2 op_planned xs sts" and "vec_ok v" and "vec_len v + int (length xs) \<le> vec_capacity v" and "mem_good m"
  shows "\<exists>v' ys m'. strategies_loop bound now sts v i m = Some (True, v', i + int (length xs), m') \<and> vec_ok v' \<and> vec_ptrs v' = vec_ptrs v \<and>
    vec_list v' = vec_list v @ ys \<and> list_all2 (op_made bound now) xs ys \<and> fresh_list (concat (map op_ptrs ys)) m m'"
  using assms
proof (induction xs sts arbitrary: v i m rule: list_all2_induct)
  case Nil
  then show ?case by (simp add: fresh_list_def mem_good_def)
next
  case (Cons x xs st sts)
  from Cons.hyps(1) obtain p where st: "st = \<lparr>os_operation = Some (p, fst x), os_sampling_rate = snd x\<rparr>" by (auto simp: op_planned_def)
  have room: "vec_len v < vec_capacity v" using Cons.prems(2) by simp
  from vec_append_slot(1) [OF Cons.prems(1) room] obtain old where
    w: "vec_read (v\<lparr>vec_len := vec_len v + 1\<rparr>) (Some (nat (vec_len v))) = Some old" by blast
  have m: "mem_ok m" "mem_plenty m" using Cons.prems(3) by (auto simp: mem_good_def)
  from strdup_good [OF m, of "fst x"] obtain q m1 where
    q: "jaeger_strdup (Some (fst x)) m = Some (Some q, m1)" "snd q = fst x" "fresh_list [fst q] m m1" .
  let ?s = "\<lparr>op_name = Some q, op_sampler = jaeger_guaranteed_throughput_probabilistic_sampler_init bound (snd x) now\<rparr>"
  obtain v1 where v1: "vec_write (v\<lparr>vec_len := vec_len v + 1\<rparr>) (Some (nat (vec_len v))) ?s = Some v1" "vec_ok v1" "vec_ptrs v1 = vec_ptrs v"
    "vec_len v1 = vec_len v + 1" "vec_capacity v1 = vec_capacity v" "vec_list v1 = vec_list v @ [?s]" using vec_append_slot(2) [OF Cons.prems(1) room] by blast
  have g: "mem_good m1" using fresh_listD [OF q(3)] m by (simp add: mem_good_def)
  from Cons.IH [of v1 m1 "i + 1"] v1(2,4,5) Cons.prems(2) g obtain v' ys m' where
    ih: "strategies_loop bound now sts v1 (i + 1) m1 = Some (True, v', i + 1 + int (length xs), m')" "vec_ok v'" "vec_ptrs v' = vec_ptrs v1"
    "vec_list v' = vec_list v1 @ ys" "list_all2 (op_made bound now) xs ys" "fresh_list (concat (map op_ptrs ys)) m1 m'" by auto
  have "op_made bound now x ?s" using q(2) by (cases q) (auto simp: op_made_def)
  moreover have "fresh_list (concat (map op_ptrs (?s # ys))) m m'" using fresh_list_append [OF q(3) ih(6) m(1)] by (simp add: op_ptrs_def)
  moreover have "strategies_loop bound now (st # sts) v i m = Some (True, v', i + int (length (x # xs)), m')"
    using vec_append_room [OF Cons.prems(1) room, of OPERATION_SAMPLER_ZERO m] w q(1) v1(1) ih(1) st by (simp add: add.assoc)
  ultimately show ?case using ih(2-5) v1(3,6)
    by (intro exI [of _ v'] exI [of _ "?s # ys"] exI [of _ m']) simp
qed

text \<open>The adaptive sampler that a plan asks for.\<close>

definition adaptive_for :: "opentracing_time_value \<Rightarrow> int \<Rightarrow> real \<Rightarrow> real \<Rightarrow> (string \<times> real) list \<Rightarrow> jaeger_adaptive_sampler \<Rightarrow> bool" where
  "adaptive_for now max_ops p b xs a \<longleftrightarrow> Sampler.default_sampler a = jaeger_probabilistic_sampler_init p \<and> lower_bound a = b \<and> max_operations a = max_ops \<and>
     \<not> ad_locked a \<and> vec_ok (op_samplers a) \<and> sorted_wrt (\<lambda>x y. op_name_cmp x y \<le> 0) (vec_list (op_samplers a)) \<and>
     (\<exists>ys. mset (vec_list (op_samplers a)) = mset ys \<and> list_all2 (op_made b now) xs ys)"

lemma adaptive_init_good:
  assumes "strategy_planned p b xs st" and "qsort_sorts me" and "224 * int (length xs) \<le> INT_MAX" and "mem_good m"
  shows "\<exists>a m'. jaeger_adaptive_sampler_init (me_qsort me) now old st max_ops m = Some (True, a, m') \<and> adaptive_for now max_ops p b xs a \<and>
    fresh_list (ops_ptrs (op_samplers a)) m m'"
proof -
  have m: "mem_ok m" "mem_plenty m" using assms(4) by (auto simp: mem_good_def)
  have st: "po_default_sampling_probability st = p" "po_default_lower_bound st = b" "list_all2 op_planned xs (strategy_list st)"
    using assms(1) by (auto simp: strategy_planned_def)
  have len: "length (strategy_list st) = length xs" using st(3) by (simp add: list_all2_lengthD)
  have sz: "0 < SIZEOF_OPERATION_SAMPLER" "SIZEOF_OPERATION_SAMPLER * 10 \<le> INT_MAX" by (simp_all add: SIZEOF_OPERATION_SAMPLER_def INT_MAX_def)
  obtain v m1 where v: "jaeger_vector_init OPERATION_SAMPLER_ZERO SIZEOF_OPERATION_SAMPLER (op_samplers old) m = Some (True, v, m1)" "vec_ok v"
    "vec_len v = 0" "vec_type_size v = SIZEOF_OPERATION_SAMPLER" "fresh_list (vec_ptrs v) m m1" by (rule vec_init_good [OF assms(4) sz])
  have cl: "jaeger_vector_clear v = v" using v(3) by (simp add: jaeger_vector_clear_def)
  have m1: "mem_ok m1" "mem_plenty m1" "set (vec_ptrs v) \<subseteq> dom (mem_blocks m1)" using fresh_listD [OF v(5)] m by (auto simp: owns_def)
  have room: "vec_room v (int (length xs))" using v(4) assms(3) by (simp add: vec_room_def SIZEOF_OPERATION_SAMPLER_def)
  from vec_reserve_total [OF v(2) m1(1,3) room, of OPERATION_SAMPLER_ZERO] obtain ok v1 m2 where
    r: "jaeger_vector_reserve OPERATION_SAMPLER_ZERO v (int (length xs)) m1 = Some (ok, v1, m2)" by blast
  have ok: ok by (rule vec_reserve_plenty [OF r m1(1,2)])
  note rs = vec_reserve_spec [OF r v(2) m1(1)]
  have f1: "fresh_list (vec_ptrs v1) m m2" using fresh_list_replace [of "[]" "vec_ptrs v" m m1 "vec_ptrs v1" m2] v(5) rs(7) [OF m1(3)] m(1) by simp
  have g2: "mem_good m2" using fresh_listD [OF f1] m by (simp add: mem_good_def)
  have l0: "vec_list v1 = []" using rs(2) v(2,3) length_vec_list [of v] by simp
  from strategies_loop_good [OF st(3) rs(1) _ g2, of b now 0] rs(3,5) ok v(3) obtain v2 ys m3 where
    s: "strategies_loop b now (strategy_list st) v1 0 m2 = Some (True, v2, int (length xs), m3)" "vec_ok v2" "vec_ptrs v2 = vec_ptrs v1"
    "vec_list v2 = ys" "list_all2 (op_made b now) xs ys" "fresh_list (concat (map op_ptrs ys)) m2 m3" by (auto simp: l0)
  have names: "names_set v2"
    unfolding names_set_def
  proof
    fix y
    assume "y \<in> set (vec_list v2)"
    with list_all2_set2 [OF s(5)] s(4) obtain x where "op_made b now x y" by blast
    then show "op_name y \<noteq> None" by (auto simp: op_made_def)
  qed
  let ?v3 = "jaeger_vector_sort (me_qsort me) v2"
  have q: "mset (me_qsort me ys) = mset ys" "sorted_wrt (\<lambda>x y. op_name_cmp x y \<le> 0) (me_qsort me ys)" using assms(2) by (auto simp: qsort_sorts_def)
  have v3: "vec_ok ?v3" "vec_list ?v3 = me_qsort me ys" "vec_ptrs ?v3 = vec_ptrs v1"
    using vec_sort_spec [OF s(2), of "me_qsort me"] s(3,4) mset_eq_length [OF q(1)] by simp_all
  let ?a = "\<lparr>op_samplers = ?v3, default_sampler = jaeger_probabilistic_sampler_init p, lower_bound = b, max_operations = max_ops, ad_locked = False\<rparr>"
  have i: "int_ok (int (length xs))" using assms(3) by (simp add: int_ok_def INT_MAX_def)
  have run: "jaeger_adaptive_sampler_init (me_qsort me) now old st max_ops m = Some (True, ?a, m3)"
    using v(1) cl len i r ok s(1) names st(1,2) by (simp add: jaeger_adaptive_sampler_init_def samplers_from_strategies_def)
  have "fresh_list (vec_ptrs v1 @ concat (map op_ptrs ys)) m m3" by (rule fresh_list_append [OF f1 s(6) m(1)])
  moreover have "mset (vec_ptrs v1 @ concat (map op_ptrs ys)) = mset (ops_ptrs ?v3)"
  proof -
    have "mset (concat (map op_ptrs zs)) = sum_mset (image_mset (mset \<circ> op_ptrs) (mset zs))" for zs :: "jaeger_operation_sampler list"
      by (induction zs) auto
    then show ?thesis using q(1) v3(2,3) by (simp add: ops_ptrs_def)
  qed
  ultimately have "fresh_list (ops_ptrs ?v3) m m3" by (rule fresh_list_perm)
  moreover have "adaptive_for now max_ops p b xs ?a" using v3 q s(5) by (auto simp: adaptive_for_def)
  ultimately show ?thesis using run by (intro exI [of _ ?a] exI [of _ m3]) simp
qed

section \<open>Updating the sampler\<close>

interpretation opsam: element_destroy jaeger_operation_sampler_destroy op_ptrs "\<lambda>_. True"
proof (unfold_locales, goal_cases)
  case (1 m x)
  from free_owned [OF 1(1) 1(3) [unfolded op_ptrs_def]] obtain m' where
    "jaeger_free (map_option fst (op_name x)) m = Some m'" "mem_trans (set (cs_ptrs (op_name x))) {} m m'" .
  then show ?case by (simp add: jaeger_operation_sampler_destroy_def op_ptrs_def)
qed

interpretation opstr: element_destroy jaeger_operation_strategy_destroy os_ptrs "\<lambda>_. True"
proof (unfold_locales, goal_cases)
  case (1 m x)
  from free_owned [OF 1(1) 1(3) [unfolded os_ptrs_def]] obtain m' where
    "jaeger_free (map_option fst (os_operation x)) m = Some m'" "mem_trans (set (cs_ptrs (os_operation x))) {} m m'" .
  then show ?case by (simp add: jaeger_operation_strategy_destroy_def os_ptrs_def)
qed

definition choice_ptrs :: "jaeger_sampler_choice \<Rightarrow> ptr list" where
  "choice_ptrs c = (case c of Adaptive_choice a \<Rightarrow> ops_ptrs (op_samplers a) | _ \<Rightarrow> [])"

text \<open>A sampler that can be replaced; \<open>basic_choice\<close> if it is not an adaptive one.\<close>

definition basic_choice :: "jaeger_sampler_choice \<Rightarrow> bool" where
  "basic_choice c \<longleftrightarrow> (case c of Adaptive_choice _ \<Rightarrow> False | Stale_adaptive_choice _ \<Rightarrow> False | _ \<Rightarrow> True)"

definition choice_ok :: "jaeger_sampler_choice \<Rightarrow> bool" where
  "choice_ok c \<longleftrightarrow> basic_choice c \<or> (\<exists>a. c = Adaptive_choice a \<and> \<not> ad_locked a \<and> vec_ok (op_samplers a))"

lemma choice_destroy_good:
  assumes "choice_ok c" and "mem_ok m" and "owns m (choice_ptrs c)"
  shows "\<exists>m'. jaeger_sampler_choice_destroy c m = Some m' \<and> mem_trans (set (choice_ptrs c)) {} m m'"
proof (cases "basic_choice c")
  case True
  with assms(2) show ?thesis by (cases c) (auto simp: basic_choice_def choice_ptrs_def)
next
  case False
  with assms(1) obtain a where a: "c = Adaptive_choice a" "\<not> ad_locked a" "vec_ok (op_samplers a)" by (auto simp: choice_ok_def)
  have o: "owns m (vec_ptrs (op_samplers a) @ opsam.list_ptrs (vec_list (op_samplers a)))"
    using assms(3) a(1) by (simp add: choice_ptrs_def ops_ptrs_def opsam.list_ptrs_def)
  from opsam.destroy_vector_elements [OF assms(2) o] obtain m1 m2 where
    "vector_for_each_destroy jaeger_operation_sampler_destroy (vec_list (op_samplers a)) m = Some m1"
    "jaeger_vector_destroy (op_samplers a) m1 = Some (JAEGERTRACINGC_VECTOR_INIT, m2)"
    "mem_trans (set (vec_ptrs (op_samplers a) @ opsam.list_ptrs (vec_list (op_samplers a)))) {} m m2" by auto
  moreover have "vec_data (op_samplers a) \<noteq> None" using a(3) by (auto simp: vec_ok_def split: option.splits)
  ultimately show ?thesis using a by (simp add: jaeger_adaptive_sampler_destroy_def vec_for_each_destroy_def choice_ptrs_def ops_ptrs_def opsam.list_ptrs_def)
qed

lemma response_destroy_good:
  assumes "mem_ok m" and "owns m (response_ptrs r)"
  shows "\<exists>m'. jaeger_strategy_response_destroy r m = Some m' \<and> mem_trans (set (response_ptrs r)) {} m m'"
proof (cases "\<exists>st p xs. r = Per_operation_strategy st \<and> po_strategies st = Some (p, xs)")
  case False
  with assms(1) show ?thesis
    by (cases r) (auto simp: jaeger_strategy_response_destroy_def response_ptrs_def strategy_ptrs_def jaeger_per_operation_strategy_destroy_def split: option.splits)
next
  case True
  then obtain st p xs where st: "r = Per_operation_strategy st" "po_strategies st = Some (p, xs)" by blast
  have o: "owns m (opstr.list_ptrs xs)" "p \<in> dom (mem_blocks m)" "{p} \<inter> set (opstr.list_ptrs xs) = {}"
    using assms(2) st by (auto simp: response_ptrs_def strategy_ptrs_def opstr.list_ptrs_def owns_def)
  from opstr.for_each_destroy [OF assms(1) o(1)] obtain m1 where
    f: "vector_for_each_destroy jaeger_operation_strategy_destroy xs m = Some m1" "mem_trans (set (opstr.list_ptrs xs)) {} m m1" by blast
  have "{p} \<subseteq> dom (mem_blocks m)" using o(2) by simp
  note fr = mem_trans_frame [OF f(2) this o(3)]
  have "p \<in> dom (mem_blocks m1)" using mem_trans_dom [OF fr] by simp
  from jaeger_free_live [OF mem_trans_ok [OF f(2)] this] obtain m2 where d: "jaeger_free (Some p) m1 = Some m2" "mem_trans {p} {} m1 m2" .
  from fr have "mem_trans (set (opstr.list_ptrs xs) \<union> {p}) {p} m m1" by simp
  from mem_trans_trans [OF this d(2) assms(1)] f(1) d(1) st show ?thesis
    by (simp add: jaeger_strategy_response_destroy_def jaeger_per_operation_strategy_destroy_def response_ptrs_def strategy_ptrs_def opstr.list_ptrs_def)
qed


lemma get_strategies_good:
  assumes "answer me (ex_reads ex) (hm_parser mg) = Some (str, parser)" and "ex_write ex = int (length (hm_request mg))"
    and "hm_ctx mg = Some c" and "buffer_ok (hm_response mg)" and "int (length str) + 1 < 2 ^ 27" and "CHR 0x00 \<notin> set str"
    and "plan_of me str = Some plan" and "mem_good m" and "set (vec_ptrs (hm_response mg)) \<subseteq> dom (mem_blocks m)"
  shows "\<exists>resp mg' m'. jaeger_http_sampling_manager_get_sampling_strategies me ex mg m = Some (Some resp, mg', m') \<and> response_planned plan resp \<and>
    buffer_ok (hm_response mg') \<and> distinct (vec_ptrs (hm_response mg') @ response_ptrs resp) \<and>
    mem_trans (set (vec_ptrs (hm_response mg))) (set (vec_ptrs (hm_response mg') @ response_ptrs resp)) m m'"
proof -
  obtain q b where c: "c = (q, b)" by fastforce
  let ?mg = "mg\<lparr>hm_response := jaeger_vector_clear (hm_response mg), hm_ctx := Some (q, True)\<rparr>"
  have mo: "mem_ok m" using assms(8) by (simp add: mem_good_def)
  have b0: "buffer_ok (jaeger_vector_clear (hm_response mg))" using assms(4) by (simp add: buffer_ok_def vec_ok_clear) (simp add: jaeger_vector_clear_def)
  have l0: "vec_len (jaeger_vector_clear (hm_response mg)) = 0" by (simp add: jaeger_vector_clear_def)
  from read_loop_good [of me "ex_reads ex" ?mg str parser q m] assms(1,5,8,9) b0 l0 obtain b' v m1 where
    r: "read_loop me (ex_reads ex) ?mg m = Some (True, ?mg\<lparr>hm_response := v, hm_ctx := Some (q, b'), hm_parser := parser\<rparr>, m1)"
    "buffer_ok v" "vec_list v = str" "mem_trans (set (vec_ptrs (hm_response mg))) (set (vec_ptrs v)) m m1" by auto
  let ?mg1 = "?mg\<lparr>hm_response := v, hm_ctx := Some (q, b'), hm_parser := parser\<rparr>"
  have g1: "mem_good m1" by (rule mem_good_trans [OF assms(8) r(4)])
  have p1: "set (vec_ptrs v) \<subseteq> dom (mem_blocks m1)" using mem_trans_dom [OF r(4)] by blast
  have l1: "vec_len v = int (length str)" using length_vec_list [of v] r(2,3) by (simp add: buffer_ok_def)
  have l2: "vec_len v + 1 < 2 ^ 27" using l1 assms(5) by simp
  obtain slot v1 v2 m2 where
    a: "jaeger_vector_append CHR 0x00 v m1 = Some (slot, v1, m2)" "vec_write v1 slot CHR 0x00 = Some v2" "buffer_ok v2"
    "vec_list v2 = vec_list v @ [CHR 0x00]" "mem_trans (set (vec_ptrs v)) (set (vec_ptrs v2)) m1 m2" by (rule append_nul_good [OF r(2) l2 g1 p1])
  let ?mg2 = "?mg1\<lparr>hm_response := v2\<rparr>"
  have g2: "mem_good m2" by (rule mem_good_trans [OF g1 a(5)])
  from parse_response_good [of me str plan ?mg2 m2] assms(6,7) a(3,4) r(3) g2 obtain resp m3 where
    p: "jaeger_http_sampling_manager_parse_response_json me ?mg2 m2 = Some (Some resp, m3)" "response_planned plan resp"
    "fresh_list (response_ptrs resp) m2 m3" by auto
  have t2: "mem_trans (set (vec_ptrs (hm_response mg))) (set (vec_ptrs v2)) m m2" by (rule mem_trans_trans [OF r(4) a(5) mo])
  have sub: "set (vec_ptrs v2) \<subseteq> dom (mem_blocks m2)" using mem_trans_dom [OF t2] by blast
  have "mem_trans (set (vec_ptrs v2)) (set (vec_ptrs v2 @ response_ptrs resp)) m2 m3"
    using mem_trans_frame [OF fresh_listD(4) [OF p(3)] sub] by (simp add: Un_commute)
  from mem_trans_trans [OF t2 this mo] have t3: "mem_trans (set (vec_ptrs (hm_response mg))) (set (vec_ptrs v2 @ response_ptrs resp)) m m3" .
  have d: "distinct (vec_ptrs v2 @ response_ptrs resp)"
    using fresh_listD(5) [OF p(3)] mem_trans_disj [OF fresh_listD(4) [OF p(3)]] sub unfolding distinct_append by auto
  have "jaeger_http_sampling_manager_get_sampling_strategies me ex mg m = Some (Some resp, ?mg2, m3)"
    using assms(2,3) c r(1) a(1,2) p(1) by (simp add: jaeger_http_sampling_manager_get_sampling_strategies_def Let_def)
  with p(2) a(3) d t3 show ?thesis by (intro exI [of _ resp] exI [of _ ?mg2] exI [of _ m3]) simp
qed


text \<open>The inner sampler after an update to a plan.\<close>

fun follows :: "opentracing_time_value \<Rightarrow> int \<Rightarrow> plan \<Rightarrow> jaeger_sampler_choice \<Rightarrow> bool" where
  "follows now max_ops (Rate_plan r) c \<longleftrightarrow> c = Probabilistic_choice (jaeger_probabilistic_sampler_init r)"
| "follows now max_ops (Limit_plan x) c \<longleftrightarrow> c = Rate_limiting_choice (jaeger_rate_limiting_sampler_init x now)"
| "follows now max_ops (Operations_plan p b xs) c \<longleftrightarrow> (\<exists>a. c = Adaptive_choice a \<and> adaptive_for now max_ops p b xs a)"

definition plan_fits :: "plan \<Rightarrow> jaeger_sampler_choice \<Rightarrow> bool" where
  "plan_fits plan c \<longleftrightarrow> choice_ok c \<and>
     (\<forall>p b xs. plan = Operations_plan p b xs \<longrightarrow> basic_choice c \<and> 224 * int (length xs) \<le> INT_MAX)"

lemma init_clamped: "jaeger_probabilistic_sampler_init (JAEGERTRACINGC_CLAMP r 0 1) = jaeger_probabilistic_sampler_init r"
  by (simp add: jaeger_probabilistic_sampler_init_def clamp_unit)

lemma to_strategy_good:
  assumes "response_planned plan resp" and "plan_fits plan (rc_sampler s)" and "qsort_sorts me" and "mem_good m" and "owns m (choice_ptrs (rc_sampler s))"
  shows "\<exists>c m'. update_to_strategy me old now s resp m = Some (True, s\<lparr>rc_sampler := c\<rparr>, m') \<and> follows now (rc_max_operations s) plan c \<and>
    distinct (choice_ptrs c) \<and> mem_trans (set (choice_ptrs (rc_sampler s))) (set (choice_ptrs c)) m m'"
proof -
  have mo: "mem_ok m" using assms(4) by (simp add: mem_good_def)
  have ok: "choice_ok (rc_sampler s)" using assms(2) by (simp add: plan_fits_def)
  from choice_destroy_good [OF ok mo assms(5)] obtain m1 where
    d: "jaeger_sampler_choice_destroy (rc_sampler s) m = Some m1" "mem_trans (set (choice_ptrs (rc_sampler s))) {} m m1" by blast
  show ?thesis
  proof (cases plan)
    case (Rate_plan r)
    with assms(1) d show ?thesis
      by (intro exI [of _ "Probabilistic_choice (jaeger_probabilistic_sampler_init r)"] exI [of _ m1])
        (simp add: update_to_strategy_def init_clamped choice_ptrs_def)
  next
    case (Limit_plan x)
    with assms(1) d show ?thesis
      by (intro exI [of _ "Rate_limiting_choice (jaeger_rate_limiting_sampler_init x now)"] exI [of _ m1])
        (simp add: update_to_strategy_def choice_ptrs_def)
  next
    case (Operations_plan p b xs)
    with assms(1) obtain st where st: "resp = Per_operation_strategy st" "strategy_planned p b xs st" by auto
    have basic: "basic_choice (rc_sampler s)" "224 * int (length xs) \<le> INT_MAX" using assms(2) Operations_plan by (auto simp: plan_fits_def)
    have g1: "mem_good m1" by (rule mem_good_trans [OF assms(4) d(2)])
    from adaptive_init_good [OF st(2) assms(3) basic(2) g1, of now old "rc_max_operations s"] obtain a m2 where
      a: "jaeger_adaptive_sampler_init (me_qsort me) now old st (rc_max_operations s) m1 = Some (True, a, m2)"
      "adaptive_for now (rc_max_operations s) p b xs a" "fresh_list (ops_ptrs (op_samplers a)) m1 m2" by blast
    have "update_to_strategy me old now s resp m = Some (True, s\<lparr>rc_sampler := Adaptive_choice a\<rparr>, m2)"
      using basic(1) d(1) a(1)
      by (cases "rc_sampler s") (simp_all add: update_to_strategy_def jaeger_remotely_controlled_sampler_update_adaptive_sampler_def st(1) basic_choice_def)
    moreover have "mem_trans (set (choice_ptrs (rc_sampler s))) (set (ops_ptrs (op_samplers a))) m m2"
      by (rule mem_trans_trans [OF d(2) fresh_listD(4) [OF a(3)] mo])
    ultimately show ?thesis using a(2) fresh_listD(5) [OF a(3)] Operations_plan
      by (intro exI [of _ "Adaptive_choice a"] exI [of _ m2]) (simp add: choice_ptrs_def)
  qed
qed

definition remote_sampler_ptrs :: "'p jaeger_remotely_controlled_sampler \<Rightarrow> ptr list" where
  "remote_sampler_ptrs s = vec_ptrs (hm_response (rc_manager s)) @ choice_ptrs (rc_sampler s)"

text \<open>
  C8: the remotely controlled sampler follows its server.  If the server's answer, however it is cut into
  chunks, is a JSON text that describes a strategy, and memory is available, an update succeeds: the
  inner sampler is replaced by a probabilistic one with the clamped rate, by a rate limiting one, or, if
  it was not adaptive, by an adaptive one with the default rate, the lower bound and one sampler per operation of the
  strategy, ordered by name.  The old sampler and the strategy are released, so that the sampler owns
  exactly its response buffer and what the new inner sampler owns; it is not locked afterwards, and
  one retrieval and one update are counted.
\<close>

theorem remote_update_follows_plan:
  assumes "answer me (ex_reads ex) (hm_parser (rc_manager s)) = Some (str, parser)"
    and "ex_write ex = int (length (hm_request (rc_manager s)))" and "hm_ctx (rc_manager s) = Some ctx"
    and "buffer_ok (hm_response (rc_manager s))" and "int (length str) + 1 < 2 ^ 27" and "CHR 0x00 \<notin> set str"
    and "plan_of me str = Some plan" and "plan_fits plan (rc_sampler s)" and "qsort_sorts me" and "\<not> rc_locked s"
    and "metrics_full (rc_metrics s)" and "mem_ok m" and "mem_plenty m" and "owns m (remote_sampler_ptrs s)"
  shows "\<exists>s' m'. jaeger_remotely_controlled_sampler_update me old now ex s m = Some (True, s', m') \<and>
    follows now (rc_max_operations s) plan (rc_sampler s') \<and> \<not> rc_locked s' \<and> buffer_ok (hm_response (rc_manager s')) \<and>
    (\<forall>n. counted (rc_metrics s) sampler_retrieved n \<longrightarrow> counted (rc_metrics s') sampler_retrieved (wrap_int64 (n + 1))) \<and>
    (\<forall>n. counted (rc_metrics s) sampler_updated n \<longrightarrow> counted (rc_metrics s') sampler_updated (wrap_int64 (n + 1))) \<and>
    distinct (remote_sampler_ptrs s') \<and> mem_trans (set (remote_sampler_ptrs s)) (set (remote_sampler_ptrs s')) m m'"
proof -
  let ?V = "vec_ptrs (hm_response (rc_manager s))" and ?C = "choice_ptrs (rc_sampler s)"
  have good: "mem_good m" using assms(12,13) by (simp add: mem_good_def)
  have o: "set ?V \<subseteq> dom (mem_blocks m)" "owns m ?C" "set ?C \<inter> set ?V = {}" "set ?C \<subseteq> dom (mem_blocks m)"
    using assms(14) by (auto simp: remote_sampler_ptrs_def owns_def)
  from get_strategies_good [OF assms(1-7) good o(1)] obtain resp mg m1 where
    g: "jaeger_http_sampling_manager_get_sampling_strategies me ex (rc_manager s) m = Some (Some resp, mg, m1)" "response_planned plan resp"
    "buffer_ok (hm_response mg)" "distinct (vec_ptrs (hm_response mg) @ response_ptrs resp)"
    "mem_trans (set ?V) (set (vec_ptrs (hm_response mg) @ response_ptrs resp)) m m1" by blast
  let ?R = "response_ptrs resp" and ?W = "vec_ptrs (hm_response mg)"
  have oc: "owns m1 ?C" "set ?C \<inter> set (?W @ ?R) = {}" using owns_frame [OF g(5) o(2,3)] by auto
  have ow: "set (?W @ ?R) \<subseteq> dom (mem_blocks m1)" using mem_trans_dom [OF g(5)] by blast
  have g1: "mem_good m1" by (rule mem_good_trans [OF good g(5)])
  from reporter_inc_spec [OF assms(11), of sampler_retrieved 1] obtain mt1 where
    i1: "reporter_inc sampler_retrieved 1 (rc_metrics s) = Some mt1" "metrics_full mt1"
    "\<And>n t. counted (rc_metrics s) n t \<Longrightarrow> counted mt1 n (if n = sampler_retrieved then wrap_int64 (t + 1) else t)" by blast
  from reporter_inc_spec [OF i1(2), of sampler_updated 1] obtain mt2 where
    i2: "reporter_inc sampler_updated 1 mt1 = Some mt2"
    "\<And>n t. counted mt1 n t \<Longrightarrow> counted mt2 n (if n = sampler_updated then wrap_int64 (t + 1) else t)" by blast
  let ?s = "s\<lparr>rc_manager := mg, rc_locked := True, rc_metrics := mt1\<rparr>"
  from to_strategy_good [of plan resp ?s me m1 old now] g(2) assms(8,9) g1 oc(1) obtain c m2 where
    u: "update_to_strategy me old now ?s resp m1 = Some (True, ?s\<lparr>rc_sampler := c\<rparr>, m2)" "follows now (rc_max_operations s) plan c"
    "distinct (choice_ptrs c)" "mem_trans (set ?C) (set (choice_ptrs c)) m1 m2" by auto
  note t12 = mem_trans_frame [OF u(4) ow] 
  have dj: "set (?W @ ?R) \<inter> set ?C = {}" using oc(2) by blast
  have t2: "mem_trans (set ?C \<union> set (?W @ ?R)) (set (choice_ptrs c) \<union> set (?W @ ?R)) m1 m2" by (rule t12 [OF dj])
  have dc: "set (choice_ptrs c) \<inter> set (?W @ ?R) = {}" using mem_trans_disj [OF u(4)] ow dj by blast
  have dm2: "set (choice_ptrs c) \<union> set (?W @ ?R) \<subseteq> dom (mem_blocks m2)" using mem_trans_dom [OF t2] by blast
  have "owns m2 ?R" using g(4) dm2 by (auto simp: owns_def)
  from response_destroy_good [OF mem_trans_ok [OF u(4)] this] obtain m3 where
    d: "jaeger_strategy_response_destroy resp m2 = Some m3" "mem_trans (set ?R) {} m2 m3" by blast
  let ?s' = "?s\<lparr>rc_sampler := c, rc_metrics := mt2, rc_locked := False\<rparr>"
  have run: "jaeger_remotely_controlled_sampler_update me old now ex s m = Some (True, ?s', m3)"
    using g(1) assms(10) i1(1) u(1) i2(1) d(1) by (simp add: jaeger_remotely_controlled_sampler_update_def rc_lock_def rc_unlock_def)
  have k: "set (?W @ choice_ptrs c) \<inter> set ?R = {}" using dc g(4) by auto
  have "mem_trans (set ?R \<union> set (?W @ choice_ptrs c)) ({} \<union> set (?W @ choice_ptrs c)) m2 m3"
    by (rule mem_trans_frame [OF d(2)]) (use dm2 k in auto)
  then have t3: "mem_trans (set (choice_ptrs c) \<union> set (?W @ ?R)) (set (?W @ choice_ptrs c)) m2 m3" by (simp add: ac_simps)
  have t1: "mem_trans (set ?V \<union> set ?C) (set ?C \<union> set (?W @ ?R)) m m1" using mem_trans_frame [OF g(5) o(4,3)] by (simp add: ac_simps)
  have "mem_trans (set (remote_sampler_ptrs s)) (set (remote_sampler_ptrs ?s')) m m3"
    using mem_trans_trans [OF mem_trans_trans [OF t1 t2 assms(12)] t3 assms(12)] by (simp add: remote_sampler_ptrs_def)
  moreover have "distinct (remote_sampler_ptrs ?s')" using u(3) g(4) dc by (auto simp: remote_sampler_ptrs_def)
  moreover have "counted mt2 sampler_retrieved (wrap_int64 (n + 1))" if "counted (rc_metrics s) sampler_retrieved n" for n
    using i2(2) [OF i1(3) [OF that]] by simp
  moreover have "counted mt2 sampler_updated (wrap_int64 (n + 1))" if "counted (rc_metrics s) sampler_updated n" for n
    using i2(2) [OF i1(3) [OF that]] by simp
  ultimately show ?thesis using run u(2) g(3)
    by (intro exI [of _ ?s'] exI [of _ m3]) simp
qed

lemma qsort_one: "qsort_sorts manager_env_one"
proof -
  have "op_name_cmp x y \<le> 0 \<longleftrightarrow> op_string x \<le> op_string y" for x y by (auto simp: op_name_cmp_def)
  then have "sorted_wrt (\<lambda>x y. op_name_cmp x y \<le> 0) (sort_key op_string xs)" for xs
    using sorted_sort_key [of op_string xs] by (simp add: sorted_wrt_map)
  then show ?thesis by (simp add: qsort_sorts_def manager_env_one_def)
qed

definition remote_sampler_one :: "unit jaeger_remotely_controlled_sampler" where
  "remote_sampler_one = \<lparr>rc_sampler = Const_choice (jaeger_const_sampler_init True), rc_max_operations = 2000, rc_metrics = None,
     rc_manager = (JAEGERTRACINGC_HTTP_SAMPLING_MANAGER_INIT ())\<lparr>hm_ctx := Some (0, False),
       hm_response := \<lparr>vec_len = 0, vec_capacity = 10, vec_data = Some (0, replicate 10 CHR 0x00), vec_type_size = 1\<rparr>\<rparr>, rc_locked = False\<rparr>"

theorem remote_update_follows_plan_witness:
  "\<exists>s' m'. jaeger_remotely_controlled_sampler_update manager_env_one sample_ad TIME_ZERO \<lparr>ex_write = 0, ex_reads = [''rate'']\<rparr> remote_sampler_one mem_one =
      Some (True, s', m') \<and> rc_sampler s' = Probabilistic_choice (jaeger_probabilistic_sampler_init (1 / 4))"
proof -
  have plan: "plan_of manager_env_one ''rate'' = Some (Rate_plan (1 / 4))"
    by (simp add: plan_of_def manager_env_one_def parse_probabilistic_sampling_json_def)
  have ans: "answer manager_env_one (ex_reads \<lparr>ex_write = 0, ex_reads = [''rate'']\<rparr>) (hm_parser (rc_manager remote_sampler_one)) = Some (''rate'', ())"
    by (simp add: manager_env_one_def bodies_def)
  have b: "buffer_ok (hm_response (rc_manager remote_sampler_one))" "plan_fits (Rate_plan (1 / 4)) (rc_sampler remote_sampler_one)"
    "owns mem_one (remote_sampler_ptrs remote_sampler_one)" "metrics_full (rc_metrics remote_sampler_one)" "mem_plenty mem_one"
    by (simp_all add: buffer_ok_def remote_sampler_one_def vec_ok_def INT_MAX_def plan_fits_def choice_ok_def basic_choice_def
        remote_sampler_ptrs_def choice_ptrs_def vec_ptrs_def owns_def mem_one_def metrics_full_def mem_plenty_def)
  have s: "ex_write \<lparr>ex_write = 0, ex_reads = [''rate'']\<rparr> = int (length (hm_request (rc_manager remote_sampler_one)))"
    "hm_ctx (rc_manager remote_sampler_one) = Some (0, False)" "\<not> rc_locked remote_sampler_one"
    by (simp_all add: remote_sampler_one_def JAEGERTRACINGC_HTTP_SAMPLING_MANAGER_INIT_def)
  have t: "int (length ''rate'') + 1 < 2 ^ 27" "CHR 0x00 \<notin> set ''rate''" by simp_all
  from remote_update_follows_plan [OF ans s(1,2) b(1) t plan b(2) qsort_one s(3) b(4) mem_one_simps(1) b(5,3), of sample_ad TIME_ZERO] show ?thesis by auto
qed

end
