(* ===== verification/Logging.thy ===== *)
theory Logging
  imports Net Threading
begin

text \<open>
  Logging: \<open>src/jaegertracingc/logging.c\<close>, \<open>logging.h\<close>.

  A logger is three methods.  The standard logger writes to the two standard streams; the sequential
  model gives the text of a call, the step relation interleaves the calls of several threads, each of
  which writes with three calls of the C library and holds the mutex of the stream during two of them.
\<close>

section \<open>Formatting\<close>

text \<open>
  \<open>vfprintf\<close> with the conversions that the messages of the library use.  Other conversions, and arguments
  that do not fit the format, have no defined result.
\<close>

datatype printf_arg =
    Arg_int int
  | Arg_size nat
  | Arg_string string

fun vformat :: "string \<Rightarrow> printf_arg list \<Rightarrow> string option" where
  "vformat [] args = Some []"
| "vformat (c # cs) args =
     (if c \<noteq> CHR ''%'' then do { r \<leftarrow> vformat cs args; Some (c # r) }
      else case (cs, args) of
        (CHR ''%'' # cs, _) \<Rightarrow> do { r \<leftarrow> vformat cs args; Some (CHR ''%'' # r) }
      | (CHR ''d'' # cs, Arg_int i # args) \<Rightarrow> do { r \<leftarrow> vformat cs args; Some (fmt_d i @ r) }
      | (CHR ''s'' # cs, Arg_string s # args) \<Rightarrow> do { r \<leftarrow> vformat cs args; Some (s @ r) }
      | (CHR ''z'' # CHR ''u'' # cs, Arg_size n # args) \<Rightarrow> do { r \<leftarrow> vformat cs args; Some (fmt_d (int n) @ r) }
      | (CHR ''l'' # CHR ''u'' # cs, Arg_size n # args) \<Rightarrow> do { r \<leftarrow> vformat cs args; Some (fmt_d (int n) @ r) }
      | _ \<Rightarrow> None)"

section \<open>The loggers\<close>

record log_io =
  io_stdout :: string
  io_stderr :: string
  stdout_mutex :: jaeger_mutex
  stderr_mutex :: jaeger_mutex

type_synonym 'a log_fn = "string \<Rightarrow> printf_arg list \<Rightarrow> 'a log_io_scheme \<Rightarrow> 'a log_io_scheme option"

record 'a jaeger_logger =
  lg_error :: "'a log_fn"
  lg_warn :: "'a log_fn"
  lg_info :: "'a log_fn"

definition null_log :: "'a log_fn" where
  "null_log format args io = Some io"

definition std_log_error :: "'a log_fn" where
  "std_log_error format args io = do {
     let io = io\<lparr>io_stderr := io_stderr io @ ''error'' @ '': ''\<rparr>;
     (_, mutex) \<leftarrow> jaeger_mutex_lock (stderr_mutex io);
     let io = io\<lparr>stderr_mutex := mutex\<rparr>;
     s \<leftarrow> vformat format args;
     let io = io\<lparr>io_stderr := io_stderr io @ s\<rparr>;
     let io = io\<lparr>io_stderr := io_stderr io @ [CHR 0x0A]\<rparr>;
     (_, mutex) \<leftarrow> jaeger_mutex_unlock (stderr_mutex io);
     Some (io\<lparr>stderr_mutex := mutex\<rparr>)
   }"

definition std_log_warn :: "'a log_fn" where
  "std_log_warn format args io = do {
     let io = io\<lparr>io_stderr := io_stderr io @ ''warn'' @ '': ''\<rparr>;
     (_, mutex) \<leftarrow> jaeger_mutex_lock (stderr_mutex io);
     let io = io\<lparr>stderr_mutex := mutex\<rparr>;
     s \<leftarrow> vformat format args;
     let io = io\<lparr>io_stderr := io_stderr io @ s\<rparr>;
     let io = io\<lparr>io_stderr := io_stderr io @ [CHR 0x0A]\<rparr>;
     (_, mutex) \<leftarrow> jaeger_mutex_unlock (stderr_mutex io);
     Some (io\<lparr>stderr_mutex := mutex\<rparr>)
   }"

definition std_log_info :: "'a log_fn" where
  "std_log_info format args io = do {
     let io = io\<lparr>io_stdout := io_stdout io @ ''info'' @ '': ''\<rparr>;
     (_, mutex) \<leftarrow> jaeger_mutex_lock (stdout_mutex io);
     let io = io\<lparr>stdout_mutex := mutex\<rparr>;
     s \<leftarrow> vformat format args;
     let io = io\<lparr>io_stdout := io_stdout io @ s\<rparr>;
     let io = io\<lparr>io_stdout := io_stdout io @ [CHR 0x0A]\<rparr>;
     (_, mutex) \<leftarrow> jaeger_mutex_unlock (stdout_mutex io);
     Some (io\<lparr>stdout_mutex := mutex\<rparr>)
   }"

definition jaeger_null_logger :: "'a jaeger_logger" where
  "jaeger_null_logger = \<lparr>lg_error = null_log, lg_warn = null_log, lg_info = null_log\<rparr>"

definition STD_LOGGER_INIT :: "'a jaeger_logger" where
  "STD_LOGGER_INIT = \<lparr>lg_error = std_log_error, lg_warn = std_log_warn, lg_info = std_log_info\<rparr>"

text \<open>The argument is a pointer that may be NULL; the result is what it points to afterwards.\<close>

definition jaeger_std_logger_init :: "'a jaeger_logger option \<Rightarrow> 'a jaeger_logger option" where
  "jaeger_std_logger_init logger = do {
     c_assert (logger \<noteq> None);
     let logger = STD_LOGGER_INIT;
     Some (logger\<lparr>lg_error := std_log_error, lg_warn := std_log_warn, lg_info := std_log_info\<rparr>)
   }"

text \<open>
  The static variable of \<open>jaeger_get_logger\<close> is the shared logger.  It starts as the standard logger;
  \<open>jaeger_set_logger\<close> copies the three methods into it.
\<close>

definition shared_logger :: "'a jaeger_logger" where
  "shared_logger = STD_LOGGER_INIT"

definition jaeger_set_logger :: "'a jaeger_logger option \<Rightarrow> 'a jaeger_logger \<Rightarrow> 'a jaeger_logger option" where
  "jaeger_set_logger logger shared = do {
     c_assert (logger \<noteq> None);
     logger
   }"

definition jaeger_log_error :: "'a jaeger_logger \<Rightarrow> 'a log_fn" where
  "jaeger_log_error shared format args io = lg_error shared format args io"

definition jaeger_log_warn :: "'a jaeger_logger \<Rightarrow> 'a log_fn" where
  "jaeger_log_warn shared format args io = lg_warn shared format args io"

definition jaeger_log_info :: "'a jaeger_logger \<Rightarrow> 'a log_fn" where
  "jaeger_log_info shared format args io = lg_info shared format args io"

section \<open>Threads that log\<close>

datatype log_level = Log_error | Log_warn | Log_info

datatype std_stream = Std_err | Std_out

fun level_name :: "log_level \<Rightarrow> string" where
  "level_name Log_error = ''error''"
| "level_name Log_warn = ''warn''"
| "level_name Log_info = ''info''"

fun stream_of :: "log_level \<Rightarrow> std_stream" where
  "stream_of Log_info = Std_out"
| "stream_of _ = Std_err"

fun mutex_of :: "std_stream \<Rightarrow> mutex_id" where
  "mutex_of Std_err = 0"
| "mutex_of Std_out = 1"

text \<open>
  A thread makes a list of calls of the standard logger, each a level and a formatted message.  \<open>log_pc\<close> is
  where it is in the first of them: before \<open>fprintf\<close>, before \<open>jaeger_mutex_lock\<close>, before \<open>vfprintf\<close>, before
  \<open>fputc\<close>, before \<open>jaeger_mutex_unlock\<close>.  A call of the C library writes its output at once: a stream is
  locked during such a call.  The state keeps who wrote which piece.
\<close>

datatype log_pc = At_prefix | At_lock | At_body | At_newline | At_unlock

datatype piece = Prefix log_level | Body string | Newline

type_synonym log_call = "log_level \<times> string"

record log_state =
  log_owner :: owners
  log_out :: "std_stream \<Rightarrow> (tid \<times> piece) list"
  log_threads :: "tid \<Rightarrow> log_pc \<times> log_call list"

definition write_piece :: "tid \<Rightarrow> std_stream \<Rightarrow> piece \<Rightarrow> log_state \<Rightarrow> log_state" where
  "write_piece t st p s = s\<lparr>log_out := (log_out s)(st := log_out s st @ [(t, p)])\<rparr>"

definition goto_pc :: "tid \<Rightarrow> log_pc \<times> log_call list \<Rightarrow> log_state \<Rightarrow> log_state" where
  "goto_pc t pc s = s\<lparr>log_threads := (log_threads s)(t := pc)\<rparr>"

inductive log_step :: "tid \<Rightarrow> log_state \<Rightarrow> log_state \<Rightarrow> bool" where
  log_prefix: "log_threads s t = (At_prefix, (l, msg) # cs) \<Longrightarrow>
    log_step t s (goto_pc t (At_lock, (l, msg) # cs) (write_piece t (stream_of l) (Prefix l) s))"
| log_lock: "log_threads s t = (At_lock, (l, msg) # cs) \<Longrightarrow> mt_mutex_lock t (mutex_of (stream_of l)) (log_owner s) = Some own \<Longrightarrow>
    log_step t s (goto_pc t (At_body, (l, msg) # cs) (s\<lparr>log_owner := own\<rparr>))"
| log_body: "log_threads s t = (At_body, (l, msg) # cs) \<Longrightarrow>
    log_step t s (goto_pc t (At_newline, (l, msg) # cs) (write_piece t (stream_of l) (Body msg) s))"
| log_newline: "log_threads s t = (At_newline, (l, msg) # cs) \<Longrightarrow>
    log_step t s (goto_pc t (At_unlock, (l, msg) # cs) (write_piece t (stream_of l) Newline s))"
| log_unlock: "log_threads s t = (At_unlock, (l, msg) # cs) \<Longrightarrow> mt_mutex_unlock t (mutex_of (stream_of l)) (log_owner s) = Some own \<Longrightarrow>
    log_step t s (goto_pc t (At_prefix, cs) (s\<lparr>log_owner := own\<rparr>))"

inductive log_steps :: "log_state \<Rightarrow> log_state \<Rightarrow> bool" where
  log_refl: "log_steps s s"
| log_next: "log_steps s s' \<Longrightarrow> log_step t s' s'' \<Longrightarrow> log_steps s s''"

text \<open>The same steps as a function, and the run of a schedule.\<close>

fun log_exec :: "tid \<Rightarrow> log_state \<Rightarrow> log_state option" where
  "log_exec t s = (case log_threads s t of
      (At_prefix, (l, msg) # cs) \<Rightarrow> Some (goto_pc t (At_lock, (l, msg) # cs) (write_piece t (stream_of l) (Prefix l) s))
    | (At_lock, (l, msg) # cs) \<Rightarrow> do {
        own \<leftarrow> mt_mutex_lock t (mutex_of (stream_of l)) (log_owner s);
        Some (goto_pc t (At_body, (l, msg) # cs) (s\<lparr>log_owner := own\<rparr>))
      }
    | (At_body, (l, msg) # cs) \<Rightarrow> Some (goto_pc t (At_newline, (l, msg) # cs) (write_piece t (stream_of l) (Body msg) s))
    | (At_newline, (l, msg) # cs) \<Rightarrow> Some (goto_pc t (At_unlock, (l, msg) # cs) (write_piece t (stream_of l) Newline s))
    | (At_unlock, (l, msg) # cs) \<Rightarrow> do {
        own \<leftarrow> mt_mutex_unlock t (mutex_of (stream_of l)) (log_owner s);
        Some (goto_pc t (At_prefix, cs) (s\<lparr>log_owner := own\<rparr>))
      }
    | _ \<Rightarrow> None)"

fun log_run :: "tid list \<Rightarrow> log_state \<Rightarrow> log_state option" where
  "log_run [] s = Some s"
| "log_run (t # ts) s = do { s \<leftarrow> log_exec t s; log_run ts s }"

definition log_start :: "(tid \<Rightarrow> log_call list) \<Rightarrow> log_state" where
  "log_start calls = \<lparr>log_owner = (\<lambda>_. None), log_out = (\<lambda>_. []), log_threads = (\<lambda>t. (At_prefix, calls t))\<rparr>"

fun piece_text :: "piece \<Rightarrow> string" where
  "piece_text (Prefix l) = level_name l @ '': ''"
| "piece_text (Body msg) = msg"
| "piece_text Newline = [CHR 0x0A]"

definition stream_text :: "log_state \<Rightarrow> std_stream \<Rightarrow> string" where
  "stream_text s st = concat (map (piece_text \<circ> snd) (log_out s st))"

lemma log_exec_step: "log_exec t s = Some s' \<longleftrightarrow> log_step t s s'"
proof
  show "log_exec t s = Some s' \<Longrightarrow> log_step t s s'"
    by (auto split: prod.splits log_pc.splits list.splits bind_splits intro: log_step.intros)
  show "log_step t s s' \<Longrightarrow> log_exec t s = Some s'" by (induction rule: log_step.induct) simp_all
qed

lemma log_run_steps: "log_run ts s' = Some s'' \<Longrightarrow> log_steps s s' \<Longrightarrow> log_steps s s''"
  by (induction ts arbitrary: s') (auto simp: log_exec_step simp del: log_exec.simps split: bind_splits intro: log_next)

section \<open>What the threads write\<close>

text \<open>The pieces of a call, the pieces a thread has written so far, and the pieces other than prefixes.\<close>

definition call_pieces :: "log_call \<Rightarrow> piece list" where
  "call_pieces c = [Prefix (fst c), Body (snd c), Newline]"

fun pieces_done :: "log_pc \<Rightarrow> nat" where
  "pieces_done At_prefix = 0"
| "pieces_done At_lock = 1"
| "pieces_done At_body = 1"
| "pieces_done At_newline = 2"
| "pieces_done At_unlock = 3"

fun in_progress :: "std_stream \<Rightarrow> log_pc \<times> log_call list \<Rightarrow> piece list" where
  "in_progress st (pc, []) = []"
| "in_progress st (pc, c # cs) = (if stream_of (fst c) = st then take (pieces_done pc) (call_pieces c) else [])"

definition written_by :: "tid \<Rightarrow> (tid \<times> piece) list \<Rightarrow> piece list" where
  "written_by t ws = map snd (filter (\<lambda>w. fst w = t) ws)"

fun is_prefix_piece :: "piece \<Rightarrow> bool" where
  "is_prefix_piece (Prefix l) = True"
| "is_prefix_piece _ = False"

definition line_pieces :: "(tid \<times> piece) list \<Rightarrow> (tid \<times> piece) list" where
  "line_pieces ws = filter (\<lambda>w. \<not> is_prefix_piece (snd w)) ws"

text \<open>Messages, each directly followed by the newline that its own thread writes.\<close>

fun whole_lines :: "(tid \<times> piece) list \<Rightarrow> bool" where
  "whole_lines [] = True"
| "whole_lines ((t, Body msg) # (u, Newline) # ws) = (t = u \<and> whole_lines ws)"
| "whole_lines _ = False"

fun holds_stream :: "log_pc \<times> log_call list \<Rightarrow> std_stream \<Rightarrow> bool" where
  "holds_stream (pc, []) st = False"
| "holds_stream (pc, c # cs) st = (pc \<in> {At_body, At_newline, At_unlock} \<and> stream_of (fst c) = st)"

text \<open>A thread has written what its calls so far require, in order, and what is left are its last calls.\<close>

definition thread_ok :: "(tid \<Rightarrow> log_call list) \<Rightarrow> log_state \<Rightarrow> tid \<Rightarrow> bool" where
  "thread_ok calls s t \<longleftrightarrow> (\<exists>made. calls t = made @ snd (log_threads s t) \<and>
     (\<forall>st. written_by t (log_out s st) =
       concat (map call_pieces (filter (\<lambda>c. stream_of (fst c) = st) made)) @ in_progress st (log_threads s t)))"

definition owner_ok :: "log_state \<Rightarrow> bool" where
  "owner_ok s \<longleftrightarrow> (\<forall>t st. log_owner s (mutex_of st) = Some t \<longleftrightarrow> holds_stream (log_threads s t) st) \<and>
     (\<forall>t. snd (log_threads s t) = [] \<longrightarrow> fst (log_threads s t) = At_prefix)"

text \<open>The last line of a stream is open exactly when the owner of its mutex is before \<open>fputc\<close>.\<close>

definition open_line :: "log_state \<Rightarrow> std_stream \<Rightarrow> (tid \<times> piece) list" where
  "open_line s st = (case log_owner s (mutex_of st) of None \<Rightarrow> []
     | Some t \<Rightarrow> (case log_threads s t of (At_newline, c # cs) \<Rightarrow> [(t, Body (snd c))] | _ \<Rightarrow> []))"

definition lines_ok :: "log_state \<Rightarrow> std_stream \<Rightarrow> bool" where
  "lines_ok s st \<longleftrightarrow> (\<exists>ws. whole_lines ws \<and> line_pieces (log_out s st) = ws @ open_line s st)"

lemma whole_lines_append: "whole_lines ws \<Longrightarrow> whole_lines vs \<Longrightarrow> whole_lines (ws @ vs)"
  by (induction ws rule: whole_lines.induct) auto

lemma mutex_of_inj [simp]: "mutex_of a = mutex_of b \<longleftrightarrow> a = b"
  by (cases a; cases b) simp_all

lemma goto_simps [simp]:
  "log_owner (goto_pc t pc s) = log_owner s" "log_out (goto_pc t pc s) = log_out s"
  "log_threads (goto_pc t pc s) = (log_threads s)(t := pc)"
  "log_owner (write_piece t st p s) = log_owner s" "log_threads (write_piece t st p s) = log_threads s"
  "log_out (write_piece t st p s) = (log_out s)(st := log_out s st @ [(t, p)])"
  by (simp_all add: goto_pc_def write_piece_def)

lemma pieces_append [simp]:
  "written_by t (ws @ [(u, p)]) = written_by t ws @ (if u = t then [p] else [])"
  "line_pieces (ws @ [(u, p)]) = line_pieces ws @ (if is_prefix_piece p then [] else [(u, p)])"
  by (simp_all add: written_by_def line_pieces_def)

lemma at_prefix_simps [simp]: "in_progress st (At_prefix, cs) = []" "\<not> holds_stream (At_prefix, cs) st"
  by (cases cs; simp)+

lemma owner_okD:
  assumes "owner_ok s" and "log_threads s t = (pc, c # cs)" and "pc \<in> {At_body, At_newline, At_unlock}"
  shows "log_owner s (mutex_of st) = Some t \<longleftrightarrow> stream_of (fst c) = st"
  using assms by (simp add: owner_ok_def)

lemma owner_step:
  assumes "log_step t s s'" and "owner_ok s"
  shows "owner_ok s'"
  using assms
proof (cases rule: log_step.cases)
  case (log_lock l msg cs own)
  with assms(2) show ?thesis
    by (auto simp: owner_ok_def mt_mutex_defs split: if_splits) (metis option.distinct(1))+
next
  case (log_unlock l msg cs own)
  have "holds_stream (log_threads s u) (stream_of l) \<Longrightarrow> u = t" for u
    using assms(2) owner_okD [OF assms(2) log_unlock(2), of "stream_of l"] by (simp add: owner_ok_def) (metis option.inject)
  with log_unlock assms(2) show ?thesis by (auto simp: owner_ok_def mt_mutex_defs split: if_splits)
qed (auto simp: owner_ok_def)

lemma thread_step:
  assumes "log_step t s s'" and "thread_ok calls s u"
  shows "thread_ok calls s' u"
  using assms
proof (cases rule: log_step.cases)
  case (log_unlock l msg cs own)
  show ?thesis
  proof (cases "u = t")
    case True
    from assms(2) obtain made where "calls t = made @ (l, msg) # cs" "\<forall>st. written_by t (log_out s st) =
       concat (map call_pieces (filter (\<lambda>c. stream_of (fst c) = st) made)) @ in_progress st (log_threads s t)"
      unfolding thread_ok_def using log_unlock True by auto
    with log_unlock True show ?thesis unfolding thread_ok_def by (intro exI [of _ "made @ [(l, msg)]"]) (simp add: call_pieces_def)
  qed (use log_unlock assms(2) in \<open>simp add: thread_ok_def\<close>)
qed (auto simp: thread_ok_def call_pieces_def split: if_splits)

lemma lines_step:
  assumes "log_step t s s'" and "owner_ok s" and "lines_ok s st"
  shows "lines_ok s' st"
  using assms(1)
proof (cases rule: log_step.cases)
  case (log_prefix l msg cs)
  then have "open_line s' st = open_line s st" "line_pieces (log_out s' st) = line_pieces (log_out s st)"
    by (auto simp: open_line_def split: option.split)
  with assms(3) show ?thesis by (simp add: lines_ok_def)
next
  case (log_lock l msg cs own)
  then have "open_line s' st = open_line s st" "line_pieces (log_out s' st) = line_pieces (log_out s st)"
    by (auto simp: open_line_def mt_mutex_defs split: option.split if_splits)
  with assms(3) show ?thesis by (simp add: lines_ok_def)
next
  case (log_body l msg cs)
  from owner_okD [OF assms(2) log_body(2), of st]
  have "if stream_of l = st then open_line s st = [] \<and> open_line s' st = [(t, Body msg)] else open_line s' st = open_line s st"
    using log_body by (auto simp: open_line_def split: option.split)
  with assms(3) log_body show ?thesis by (auto simp: lines_ok_def split: if_splits)
next
  case (log_newline l msg cs)
  from owner_okD [OF assms(2) log_newline(2), of st]
  have "if stream_of l = st then open_line s st = [(t, Body msg)] \<and> open_line s' st = [] else open_line s' st = open_line s st"
    using log_newline by (auto simp: open_line_def split: option.split)
  with assms(3) log_newline show ?thesis
    by (auto simp: lines_ok_def intro: whole_lines_append split: if_splits)
next
  case (log_unlock l msg cs own)
  then have "open_line s' st = open_line s st" "line_pieces (log_out s' st) = line_pieces (log_out s st)"
    by (auto simp: open_line_def mt_mutex_defs split: option.split if_splits)
  with assms(3) show ?thesis by (simp add: lines_ok_def)
qed

lemma log_steps_ok:
  assumes "log_steps (log_start calls) s"
  shows "owner_ok s" and "thread_ok calls s t" and "lines_ok s st"
proof -
  have "owner_ok s \<and> (\<forall>t. thread_ok calls s t) \<and> (\<forall>st. lines_ok s st)" using assms
  proof (induction "log_start calls" s rule: log_steps.induct)
    case log_refl
    show ?case
      by (auto simp: log_start_def owner_ok_def thread_ok_def lines_ok_def open_line_def written_by_def line_pieces_def)
  next
    case (log_next s' t s'')
    then show ?case by (blast intro: owner_step thread_step lines_step)
  qed
  then show "owner_ok s" "thread_ok calls s t" "lines_ok s st" by auto
qed

text \<open>A thread that holds a mutex can go on, and a thread that waits for one waits for a thread that can.\<close>

lemma log_can_step:
  assumes "owner_ok s" and "snd (log_threads s t) \<noteq> []"
  shows "\<exists>u s'. log_step u s s'"
proof -
  obtain pc l msg cs where t: "log_threads s t = (pc, (l, msg) # cs)" using assms(2)
    by (metis list.exhaust prod.collapse)
  have hold: "\<exists>s'. log_step u s s'" if u: "log_threads s u = (pc, (l, msg) # cs)" and "pc \<noteq> At_lock" for u pc l msg cs
  proof (cases pc)
    case At_unlock
    with u owner_okD [OF assms(1) u, of "stream_of l"] have "mt_mutex_unlock u (mutex_of (stream_of l)) (log_owner s) \<noteq> None"
      by (simp add: mt_mutex_defs)
    with u At_unlock show ?thesis by (blast intro: log_unlock)
  qed (use u that(2) in \<open>blast intro: log_prefix log_body log_newline\<close>)+
  show ?thesis
  proof (cases "pc = At_lock")
    case False
    with hold [OF t] show ?thesis by blast
  next
    case True
    show ?thesis
    proof (cases "log_owner s (mutex_of (stream_of l))")
      case None
      then have "mt_mutex_lock t (mutex_of (stream_of l)) (log_owner s) \<noteq> None" by (simp add: mt_mutex_defs)
      with t True show ?thesis by (blast intro: log_lock)
    next
      case (Some u)
      with assms(1) have "holds_stream (log_threads s u) (stream_of l)" by (simp add: owner_ok_def)
      then obtain pc' c' cs' where "log_threads s u = (pc', c' # cs')" "pc' \<noteq> At_lock"
        by (cases "(log_threads s u, stream_of l)" rule: holds_stream.cases) auto
      with hold [of u pc' "fst c'" "snd c'" cs'] show ?thesis by auto
    qed
  qed
qed

section \<open>One call\<close>

text \<open>A call of the standard logger writes the pieces of the call to the stream of its level.\<close>

fun std_log :: "log_level \<Rightarrow> 'a log_fn" where
  "std_log Log_error = jaeger_log_error STD_LOGGER_INIT"
| "std_log Log_warn = jaeger_log_warn STD_LOGGER_INIT"
| "std_log Log_info = jaeger_log_info STD_LOGGER_INIT"

fun io_text :: "std_stream \<Rightarrow> 'a log_io_scheme \<Rightarrow> string" where
  "io_text Std_err io = io_stderr io"
| "io_text Std_out io = io_stdout io"

lemma all_streams: "(\<forall>st. P st) \<longleftrightarrow> P Std_err \<and> P Std_out"
  by (metis std_stream.exhaust)

lemma std_log_writes_call:
  assumes "\<not> locked (stdout_mutex io)" and "\<not> locked (stderr_mutex io)" and "vformat format args = Some msg"
  shows "\<exists>io'. std_log l format args io = Some io' \<and> stdout_mutex io' = stdout_mutex io \<and> stderr_mutex io' = stderr_mutex io \<and>
    (\<forall>st. io_text st io' = io_text st io @
       (if st = stream_of l then concat (map piece_text (call_pieces (l, msg))) else []))"
proof -
  have [simp]: "m\<lparr>locked := False\<rparr> = m" if "\<not> locked m" for m :: jaeger_mutex using that by simp
  show ?thesis using assms
    by (cases l) (auto simp: jaeger_log_error_def jaeger_log_warn_def jaeger_log_info_def STD_LOGGER_INIT_def std_log_error_def
        std_log_warn_def std_log_info_def jaeger_mutex_lock_def jaeger_mutex_unlock_def c_assert_def call_pieces_def all_streams)
qed

section \<open>Properties\<close>

text \<open>
  C36: Several threads that log at once.  Whatever their interleaving, some thread can go on until all
  calls are made; then no mutex is held, every thread has written to each stream the prefix, the message
  and the newline of each of its calls, in the order of its calls, and, the prefixes apart, a stream is
  a sequence of messages each directly followed by its own newline: two messages are never on a line.
\<close>

theorem messages_on_their_own_lines:
  assumes "log_steps (log_start calls) s"
  shows "((\<exists>t. snd (log_threads s t) \<noteq> []) \<longrightarrow> (\<exists>u s'. log_step u s s')) \<and>
    ((\<forall>t. snd (log_threads s t) = []) \<longrightarrow> (\<forall>st. log_owner s (mutex_of st) = None \<and> whole_lines (line_pieces (log_out s st)) \<and>
       (\<forall>t. written_by t (log_out s st) = concat (map call_pieces (filter (\<lambda>c. stream_of (fst c) = st) (calls t))))))"
proof -
  note ok = log_steps_ok [OF assms]
  { fix st t assume fin: "\<forall>t. snd (log_threads s t) = []"
    then have p: "log_threads s t = (At_prefix, [])" for t using ok(1) by (simp add: owner_ok_def prod_eq_iff)
    have w: "log_owner s (mutex_of st) = None" using ok(1) p by (cases "log_owner s (mutex_of st)") (auto simp: owner_ok_def)
    have l: "whole_lines (line_pieces (log_out s st))" using ok(3) [of st] w by (auto simp: lines_ok_def open_line_def)
    have "written_by t (log_out s st) = concat (map call_pieces (filter (\<lambda>c. stream_of (fst c) = st) (calls t)))"
      using ok(2) [of t] p by (auto simp: thread_ok_def)
    note w l this }
  with log_can_step [OF ok(1)] show ?thesis by blast
qed

definition two_loggers :: "tid \<Rightarrow> log_call list" where
  "two_loggers = (\<lambda>_. [])(0 := [(Log_error, ''a'')], 1 := [(Log_warn, ''b'')])"

theorem messages_on_their_own_lines_witness:
  "\<exists>u s'. log_step u (log_start two_loggers) s'"
proof -
  have "snd (log_threads (log_start two_loggers) 0) \<noteq> []" by (simp add: log_start_def two_loggers_def)
  with messages_on_their_own_lines [OF log_refl, of two_loggers] show ?thesis by blast
qed

text \<open>
  The lock does not keep the lines of two threads apart: the prefix is written before the mutex is
  taken.  Two threads that log an error and a warning at the same time can print both prefixes on
  one line, and a line without a prefix after it.
\<close>

theorem prefixes_interleave:
  "\<exists>s. log_steps (log_start two_loggers) s \<and> (\<forall>t. snd (log_threads s t) = []) \<and>
     stream_text s Std_err = ''error: warn: a'' @ [CHR 0x0A] @ ''b'' @ [CHR 0x0A]"
proof -
  let ?run = "log_run [0, 1, 0, 0, 0, 0, 1, 1, 1, 1] (log_start two_loggers)"
  have "\<exists>s. ?run = Some s \<and> log_threads s = (\<lambda>_. (At_prefix, [])) \<and>
      stream_text s Std_err = ''error: warn: a'' @ [CHR 0x0A] @ ''b'' @ [CHR 0x0A]"
    by (auto simp: two_loggers_def log_start_def goto_pc_def write_piece_def mt_mutex_defs stream_text_def)
  then show ?thesis using log_run_steps [OF _ log_refl] by (metis snd_conv)
qed

end
