(* ===== verification/Hash_Seed.thy ===== *)
theory Hash_Seed
  imports Hashtable Threading
begin

text \<open>
  The seed of the hash tables: \<open>hash_seed\<close> of \<open>hashtable.c\<close> and the portable sources of random bytes of \<open>random.h\<close>.
  \<open>Hashtable\<close> takes the seed as an argument; here it is the global array that the first use fills, whatever
  the system delivers, and the tables rely on its not changing after that.
\<close>

section \<open>Random bytes\<close>

text \<open>
  \<open>source\<close> is what can be read from the device, \<open>None\<close> if it cannot be opened.  The bytes that are not read keep their
  value, and the caller is not told.
\<close>

definition read_random_seed :: "u8 list option \<Rightarrow> u8 list \<Rightarrow> u8 list" where
  "read_random_seed source seed =
     (case source of
        None \<Rightarrow> seed
      | Some data \<Rightarrow> (let got = take (length seed) data in got @ drop (length got) seed))"

text \<open>The variants of the build: \<open>getrandom\<close> may fill a part of the array only, \<open>arc4random_buf\<close> fills it.\<close>

datatype seed_source =
    Getrandom "u8 list"
  | Arc4random "nat \<Rightarrow> u8"
  | Dev_random "u8 list option"

fun random_seed_bytes :: "seed_source \<Rightarrow> u8 list \<Rightarrow> u8 list" where
  "random_seed_bytes (Getrandom data) seed = take (length seed) data @ drop (length data) seed"
| "random_seed_bytes (Arc4random f) seed = map f [0..<length seed]"
| "random_seed_bytes (Dev_random source) seed = read_random_seed source seed"

section \<open>The seed\<close>

record hash_globals =
  hg_seed :: "u8 list"
  hg_once :: jaeger_once

definition HASH_GLOBALS_INIT :: hash_globals where
  "HASH_GLOBALS_INIT = \<lparr>hg_seed = replicate 16 0, hg_once = JAEGERTRACINGC_ONCE_INIT\<rparr>"

definition fill_seed :: "seed_source \<Rightarrow> u8 list \<Rightarrow> u8 list option" where
  "fill_seed source seed = Some (random_seed_bytes source seed)"

definition hash_seed :: "seed_source \<Rightarrow> hash_globals \<Rightarrow> (u8 list \<times> hash_globals) option" where
  "hash_seed source g = do {
     (_, once, seed) \<leftarrow> jaeger_do_once (hg_once g) (fill_seed source) (hg_seed g);
     Some (seed, \<lparr>hg_seed = seed, hg_once = once\<rparr>)
   }"

text \<open>The operations of a table as the program calls them: each asks for the seed first.\<close>

definition seeded_put ::
  "seed_source \<Rightarrow> hash_globals \<Rightarrow> jaeger_hashtable \<Rightarrow> string \<Rightarrow> string \<Rightarrow> mem \<Rightarrow> (bool \<times> jaeger_hashtable \<times> hash_globals \<times> mem) option" where
  "seeded_put source g ht k v m = do {
     (seed, g) \<leftarrow> hash_seed source g;
     (ok, ht, m) \<leftarrow> jaeger_hashtable_put seed ht k v m;
     Some (ok, ht, g, m)
   }"

definition seeded_find :: "seed_source \<Rightarrow> hash_globals \<Rightarrow> jaeger_hashtable \<Rightarrow> string \<Rightarrow> (string option \<times> hash_globals) option" where
  "seeded_find source g ht k = do {
     (seed, g) \<leftarrow> hash_seed source g;
     r \<leftarrow> ht_find_string seed ht k;
     Some (r, g)
   }"

section \<open>It does not change\<close>

lemma random_seed_length: "length (random_seed_bytes source seed) = length seed"
  by (cases source) (auto simp: read_random_seed_def Let_def split: option.split)

lemma hash_seed_once:
  assumes "hash_seed source g = Some (seed, g')"
  shows "hash_seed source' g' = Some (seed, g')" and "length seed = length (hg_seed g)"
  using assms by (auto simp: hash_seed_def jaeger_do_once_def fill_seed_def random_seed_length split: if_splits bind_splits)

lemma hash_seed_returns: "\<exists>seed g'. hash_seed source g = Some (seed, g')"
  by (simp add: hash_seed_def jaeger_do_once_def fill_seed_def)

lemma first_hash_seed: "\<exists>g. hash_seed source HASH_GLOBALS_INIT = Some (random_seed_bytes source (replicate 16 0), g)"
  by (simp add: HASH_GLOBALS_INIT_def hash_seed_def jaeger_do_once_def fill_seed_def JAEGERTRACINGC_ONCE_INIT_def)

text \<open>
  What was put into a table is found, although every operation asks for the seed again: the first
  use of any table fixes it, even if the system has given no random bytes.
\<close>

theorem seeded_put_found:
  assumes "hash_seed source g = Some (seed, g')" and "ht_ok seed ht" and "mem_ok m" and "owns m (ht_ptrs ht)" and "ht_size ht < 2 ^ 30"
  shows "\<exists>ok ht' m'. seeded_put source g ht k v m = Some (ok, ht', g', m') \<and>
    (\<forall>source' j. seeded_find source' g' ht' j = (if ok \<and> j = k then Some (Some v, g') else seeded_find source' g' ht j))"
proof -
  from htm.put_law [OF assms(2-5), of k v] obtain ok ht' m' where
    p: "jaeger_hashtable_put seed ht k v m = Some (ok, ht', m')" "ht_ok seed ht'" "ht_map ht' = (if ok then (ht_map ht)(k \<mapsto> v) else ht_map ht)" by blast
  have "seeded_put source g ht k v m = Some (ok, ht', g', m')" using p(1) assms(1) by (simp add: seeded_put_def)
  moreover have "seeded_find source' g' ht' j = (if ok \<and> j = k then Some (Some v, g') else seeded_find source' g' ht j)" for source' j
    using hash_seed_once(1) [OF assms(1)] htm.find_law [OF p(2)] htm.find_law [OF assms(2)] p(3) by (simp add: seeded_find_def)
  ultimately show ?thesis by blast
qed

end
