(* ===== verification/Critical_Section.thy ===== *)
theory Critical_Section
  imports Threading
begin

text \<open>
  Operations under a mutex.  The counters, the reporters and the samplers of the library that keep state
  lock the object's mutex, work on the object and unlock the mutex.  The theories of these components model the work
  as one function.  Here several threads call such operations: a thread takes the mutex, reads the object,
  writes the new object back and releases the mutex, and the steps of the threads interleave.  The result
  is that every run does what the calls do one after the other, in an order in which each thread's calls keep
  their order, so the sequential theorems apply to threads as well.
\<close>

section \<open>Threads that call operations of an object\<close>

text \<open>\<open>None\<close> as the result of an operation means that it has no normal continuation.\<close>

type_synonym ('o, 's, 'r) operation = "'o \<Rightarrow> 's \<Rightarrow> ('r \<times> 's) option"

datatype 's cs_pc =
    Cs_outside
  | Cs_entered
  | Cs_working 's
  | Cs_leaving

record ('s, 'o, 'r) cs_state =
  cs_owner :: owners
  cs_object :: 's
  cs_pcs :: "tid \<Rightarrow> 's cs_pc"
  cs_todo :: "tid \<Rightarrow> 'o list"
  cs_log :: "(tid \<times> 'o \<times> 'r) list"

definition cs_mutex :: mutex_id where
  "cs_mutex = 0"

inductive cs_step :: "('o, 's, 'r) operation \<Rightarrow> tid \<Rightarrow> ('s, 'o, 'r) cs_state \<Rightarrow> ('s, 'o, 'r) cs_state \<Rightarrow> bool" for exec where
  cs_acquire: "cs_pcs s t = Cs_outside \<Longrightarrow> cs_todo s t \<noteq> [] \<Longrightarrow> mt_mutex_lock t cs_mutex (cs_owner s) = Some own \<Longrightarrow>
    cs_step exec t s (s\<lparr>cs_owner := own, cs_pcs := (cs_pcs s)(t := Cs_entered)\<rparr>)"
| cs_read: "cs_pcs s t = Cs_entered \<Longrightarrow>
    cs_step exec t s (s\<lparr>cs_pcs := (cs_pcs s)(t := Cs_working (cs_object s))\<rparr>)"
| cs_write: "cs_pcs s t = Cs_working x \<Longrightarrow> cs_todo s t = c # cs \<Longrightarrow> exec c x = Some (r, y) \<Longrightarrow>
    cs_step exec t s (s\<lparr>cs_object := y, cs_pcs := (cs_pcs s)(t := Cs_leaving), cs_todo := (cs_todo s)(t := cs),
      cs_log := cs_log s @ [(t, c, r)]\<rparr>)"
| cs_release: "cs_pcs s t = Cs_leaving \<Longrightarrow> mt_mutex_unlock t cs_mutex (cs_owner s) = Some own \<Longrightarrow>
    cs_step exec t s (s\<lparr>cs_owner := own, cs_pcs := (cs_pcs s)(t := Cs_outside)\<rparr>)"

inductive cs_steps :: "('o, 's, 'r) operation \<Rightarrow> ('s, 'o, 'r) cs_state \<Rightarrow> ('s, 'o, 'r) cs_state \<Rightarrow> bool" for exec where
  cs_refl: "cs_steps exec s s"
| cs_next: "cs_steps exec s s' \<Longrightarrow> cs_step exec t s' s'' \<Longrightarrow> cs_steps exec s s''"

definition cs_start :: "'s \<Rightarrow> (tid \<Rightarrow> 'o list) \<Rightarrow> ('s, 'o, 'r) cs_state" where
  "cs_start x calls = \<lparr>cs_owner = (\<lambda>_. None), cs_object = x, cs_pcs = (\<lambda>_. Cs_outside), cs_todo = calls, cs_log = []\<rparr>"

definition cs_finished :: "('s, 'o, 'r) cs_state \<Rightarrow> bool" where
  "cs_finished s \<longleftrightarrow> (\<forall>t. cs_todo s t = [] \<and> cs_pcs s t = Cs_outside)"

section \<open>Without a mutex\<close>

text \<open>The same threads on an object that no mutex protects: only the reads and the writes are steps.\<close>

inductive race_step :: "('o, 's, 'r) operation \<Rightarrow> tid \<Rightarrow> ('s, 'o, 'r) cs_state \<Rightarrow> ('s, 'o, 'r) cs_state \<Rightarrow> bool" for exec where
  race_read: "cs_pcs s t = Cs_outside \<Longrightarrow> cs_todo s t \<noteq> [] \<Longrightarrow>
    race_step exec t s (s\<lparr>cs_pcs := (cs_pcs s)(t := Cs_working (cs_object s))\<rparr>)"
| race_write: "cs_pcs s t = Cs_working x \<Longrightarrow> cs_todo s t = c # cs \<Longrightarrow> exec c x = Some (r, y) \<Longrightarrow>
    race_step exec t s (s\<lparr>cs_object := y, cs_pcs := (cs_pcs s)(t := Cs_outside), cs_todo := (cs_todo s)(t := cs),
      cs_log := cs_log s @ [(t, c, r)]\<rparr>)"

inductive race_steps :: "('o, 's, 'r) operation \<Rightarrow> ('s, 'o, 'r) cs_state \<Rightarrow> ('s, 'o, 'r) cs_state \<Rightarrow> bool" for exec where
  race_refl: "race_steps exec s s"
| race_next: "race_steps exec s s' \<Longrightarrow> race_step exec t s' s'' \<Longrightarrow> race_steps exec s s''"

section \<open>One call after the other\<close>

fun run_calls :: "('o, 's, 'r) operation \<Rightarrow> 'o list \<Rightarrow> 's \<Rightarrow> ('r list \<times> 's) option" where
  "run_calls exec [] x = Some ([], x)"
| "run_calls exec (c # cs) x = do {
     (r, x) \<leftarrow> exec c x;
     (rs, x) \<leftarrow> run_calls exec cs x;
     Some (r # rs, x)
   }"

lemma run_calls_snoc:
  "run_calls exec (cs @ [c]) x = do { (rs, x) \<leftarrow> run_calls exec cs x; (r, x) \<leftarrow> exec c x; Some (rs @ [r], x) }"
  by (induction cs arbitrary: x) (auto split: bind_splits)

definition calls_in_log :: "(tid \<times> 'o \<times> 'r) list \<Rightarrow> 'o list" where
  "calls_in_log log = map (fst \<circ> snd) log"

definition results_in_log :: "(tid \<times> 'o \<times> 'r) list \<Rightarrow> 'r list" where
  "results_in_log log = map (snd \<circ> snd) log"

definition calls_of :: "tid \<Rightarrow> (tid \<times> 'o \<times> 'r) list \<Rightarrow> 'o list" where
  "calls_of t log = map (fst \<circ> snd) (filter (\<lambda>e. fst e = t) log)"

text \<open>
  The log is a sequential run from the start to the present object, a thread is inside exactly if it has
  the mutex, what it has read is the present object, and its calls are those of the log and those to come.
\<close>

definition cs_inv :: "('o, 's, 'r) operation \<Rightarrow> 's \<Rightarrow> (tid \<Rightarrow> 'o list) \<Rightarrow> ('s, 'o, 'r) cs_state \<Rightarrow> bool" where
  "cs_inv exec x calls s \<longleftrightarrow> run_calls exec (calls_in_log (cs_log s)) x = Some (results_in_log (cs_log s), cs_object s) \<and>
     (\<forall>t. calls t = calls_of t (cs_log s) @ cs_todo s t) \<and>
     (\<forall>t. cs_owner s cs_mutex = Some t \<longleftrightarrow> cs_pcs s t \<noteq> Cs_outside) \<and>
     (\<forall>t y. cs_pcs s t = Cs_working y \<longrightarrow> y = cs_object s) \<and>
     (\<forall>t. cs_pcs s t \<notin> {Cs_outside, Cs_leaving} \<longrightarrow> cs_todo s t \<noteq> [])"

lemma cs_start_inv: "cs_inv exec x calls (cs_start x calls)"
  by (simp add: cs_inv_def cs_start_def calls_in_log_def results_in_log_def calls_of_def)

lemma only_owner_inside:
  assumes "cs_inv exec x calls s" and "cs_pcs s t \<noteq> Cs_outside" and "u \<noteq> t"
  shows "cs_pcs s u = Cs_outside"
  using assms unfolding cs_inv_def by (metis option.inject)

lemma cs_step_inv:
  assumes "cs_step exec t s s'" and "cs_inv exec x calls s"
  shows "cs_inv exec x calls s'"
  using assms(1)
proof (cases rule: cs_step.cases)
  case (cs_acquire own)
  then have "\<forall>u. cs_pcs s u = Cs_outside" "own = (cs_owner s)(cs_mutex \<mapsto> t)"
    using assms(2) by (auto simp: cs_inv_def mt_mutex_defs split: if_splits)
  with cs_acquire assms(2) show ?thesis by (auto simp: cs_inv_def)
next
  case cs_read
  with assms(2) show ?thesis by (auto simp: cs_inv_def)
next
  case (cs_write y c cs r z)
  have o: "u \<noteq> t \<Longrightarrow> cs_pcs s u = Cs_outside" for u using only_owner_inside [OF assms(2), of t u] cs_write by simp
  have y: "y = cs_object s" using assms(2) cs_write by (simp add: cs_inv_def)
  have run: "run_calls exec (calls_in_log (cs_log s)) x = Some (results_in_log (cs_log s), cs_object s)"
    and todo: "calls u = calls_of u (cs_log s) @ cs_todo s u" and own: "cs_owner s cs_mutex = Some u \<longleftrightarrow> cs_pcs s u \<noteq> Cs_outside" for u
    using assms(2) by (simp_all add: cs_inv_def)
  have "run_calls exec (calls_in_log (cs_log s')) x = Some (results_in_log (cs_log s'), cs_object s')"
    using cs_write run y by (simp add: calls_in_log_def results_in_log_def run_calls_snoc)
  moreover have "calls u = calls_of u (cs_log s') @ cs_todo s' u" for u
    using todo [of u] cs_write by (simp add: calls_of_def)
  moreover have "cs_owner s' cs_mutex = Some u \<longleftrightarrow> cs_pcs s' u \<noteq> Cs_outside" for u using own [of u] own [of t] cs_write by simp
  moreover have "cs_pcs s' u \<in> {Cs_outside, Cs_leaving}" for u using o [of u] cs_write by (cases "u = t") simp_all
  ultimately show ?thesis unfolding cs_inv_def by (metis cs_pc.distinct(3,9,11) insertE singletonD)
next
  case (cs_release own)
  have o: "u \<noteq> t \<Longrightarrow> cs_pcs s u = Cs_outside" for u using only_owner_inside [OF assms(2), of t u] cs_release by simp
  from cs_release have "own = (cs_owner s)(cs_mutex := None)" by (auto simp: mt_mutex_defs split: if_splits)
  with cs_release assms(2) o show ?thesis by (auto simp: cs_inv_def)
qed

lemma cs_steps_inv:
  assumes "cs_steps exec (cs_start x calls) s"
  shows "cs_inv exec x calls s"
proof -
  have "cs_steps exec a b \<Longrightarrow> cs_inv exec x calls a \<Longrightarrow> cs_inv exec x calls b" for a b
    by (induction rule: cs_steps.induct) (auto intro: cs_step_inv)
  from this [OF assms cs_start_inv] show ?thesis .
qed

text \<open>The log has as many entries as calls were made.\<close>

lemma sum_over_log:
  fixes f :: "'o \<Rightarrow> 'a::comm_monoid_add"
  assumes "finite T" and "fst ` set log \<subseteq> T"
  shows "(\<Sum>t\<in>T. sum_list (map f (calls_of t log))) = sum_list (map f (calls_in_log log))"
  using assms(2)
proof (induction log)
  case (Cons e log)
  have "sum_list (map f (calls_of t (e # log))) = (if t = fst e then f (fst (snd e)) else 0) + sum_list (map f (calls_of t log))" for t
    by (simp add: calls_of_def)
  with Cons assms(1) show ?case by (simp add: sum.distrib calls_in_log_def)
qed (simp add: calls_of_def calls_in_log_def)

lemma length_log: "finite T \<Longrightarrow> fst ` set log \<subseteq> T \<Longrightarrow> (\<Sum>t\<in>T. length (calls_of t log)) = length log"
  using sum_over_log [of T log "\<lambda>_. 1 :: nat"] by (simp add: sum_list_triv calls_in_log_def comp_def)

lemma log_entry: "e \<in> set log \<Longrightarrow> fst (snd e) \<in> set (calls_of (fst e) log)"
  by (force simp: calls_of_def)

text \<open>Every finished run is a sequential run of an interleaving of the threads' calls.\<close>

lemma cs_linearizable:
  assumes "cs_steps exec (cs_start x calls) s" and "cs_finished s"
  shows "run_calls exec (calls_in_log (cs_log s)) x = Some (results_in_log (cs_log s), cs_object s)" and "calls_of t (cs_log s) = calls t"
  using cs_steps_inv [OF assms(1)] assms(2) by (simp_all add: cs_inv_def cs_finished_def)

section \<open>Objects whose operations return\<close>

text \<open>
  The contract of an object: as long as at most \<open>n\<close> admissible calls are made on it, each returns, and the
  object says what has become of it.
\<close>

locale guarded_object =
  fixes exec :: "('o, 's, 'r) operation"
    and room :: "nat \<Rightarrow> 's \<Rightarrow> bool"
    and admissible :: "'o \<Rightarrow> bool"
  assumes exec_law: "room (Suc n) x \<Longrightarrow> admissible c \<Longrightarrow> \<exists>r y. exec c x = Some (r, y) \<and> room n y"
begin

lemma run_calls_returns:
  assumes "room (length cs + n) x" and "\<forall>c\<in>set cs. admissible c"
  shows "\<exists>rs y. run_calls exec cs x = Some (rs, y) \<and> room n y"
  using assms
proof (induction cs arbitrary: x)
  case (Cons c cs)
  then obtain r y where "exec c x = Some (r, y)" "room (length cs + n) y" using exec_law [of "length cs + n" x c] by auto
  with Cons.IH [of y] Cons.prems show ?case by auto
qed simp

text \<open>The next call of a thread returns, as the calls made so far have left room for it.\<close>

lemma next_call_returns:
  assumes "cs_inv exec x calls s" and "cs_todo s t = c # cs" and "finite {t. calls t \<noteq> []}"
    and "room (\<Sum>t | calls t \<noteq> []. length (calls t)) x" and "\<forall>t. \<forall>c\<in>set (calls t). admissible c"
  shows "\<exists>r y. exec c (cs_object s) = Some (r, y)"
proof -
  let ?T = "{t. calls t \<noteq> []}" and ?log = "cs_log s"
  have c: "calls u = calls_of u ?log @ cs_todo s u" for u using assms(1) by (simp add: cs_inv_def)
  have e: "fst (snd e) \<in> set (calls (fst e))" if "e \<in> set ?log" for e using log_entry [OF that] c [of "fst e"] by simp
  then have sub: "fst ` set ?log \<subseteq> ?T" by force
  have t: "t \<in> ?T" "c \<in> set (calls t)" using c [of t] assms(2) by auto
  have l: "length (calls u) = length (calls_of u ?log) + length (cs_todo s u)" for u using c [of u] by simp
  have "(\<Sum>u\<in>?T. length (calls u)) = length ?log + (\<Sum>u\<in>?T. length (cs_todo s u))"
    using length_log [OF assms(3) sub] by (simp only: l sum.distrib)
  moreover have "length (cs_todo s t) \<le> (\<Sum>u\<in>?T. length (cs_todo s u))" using assms(3) t(1) by (intro member_le_sum) auto
  ultimately obtain n where "(\<Sum>u\<in>?T. length (calls u)) = length (calls_in_log ?log) + Suc n"
    using assms(2) by (auto simp: calls_in_log_def dest!: le_Suc_ex)
  moreover have adm: "\<forall>c\<in>set (calls_in_log ?log). admissible c" using e assms(5) by (force simp: calls_in_log_def)
  ultimately obtain rs y where "run_calls exec (calls_in_log ?log) x = Some (rs, y)" "room (Suc n) y"
    using run_calls_returns [OF _ adm, of "Suc n" x] assms(4) by auto
  moreover have "run_calls exec (calls_in_log ?log) x = Some (results_in_log ?log, cs_object s)" using assms(1) by (simp add: cs_inv_def)
  ultimately show ?thesis using exec_law [of n y c] t(2) assms(5) by auto
qed

lemma never_stuck:
  assumes "cs_steps exec (cs_start x calls) s" and "\<not> cs_finished s" and "finite {t. calls t \<noteq> []}"
    and "room (\<Sum>t | calls t \<noteq> []. length (calls t)) x" and "\<forall>t. \<forall>c\<in>set (calls t). admissible c"
  shows "\<exists>t s'. cs_step exec t s s'"
proof -
  note inv = cs_steps_inv [OF assms(1)]
  show ?thesis
  proof (cases "cs_owner s cs_mutex")
    case None
    with inv have out: "cs_pcs s t = Cs_outside" for t by (auto simp: cs_inv_def)
    with assms(2) obtain t where "cs_todo s t \<noteq> []" by (auto simp: cs_finished_def)
    with out None show ?thesis using cs_acquire [of s t "(cs_owner s)(cs_mutex \<mapsto> t)"] by (auto simp: mt_mutex_defs)
  next
    case (Some t)
    then have i: "cs_pcs s t \<noteq> Cs_outside" using inv unfolding cs_inv_def by blast
    show ?thesis
    proof (cases "cs_pcs s t")
      case Cs_entered
      then show ?thesis by (blast intro: cs_read)
    next
      case (Cs_working y)
      then have y: "y = cs_object s" "cs_todo s t \<noteq> []" using inv by (auto simp: cs_inv_def)
      then obtain c cs where c: "cs_todo s t = c # cs" by (cases "cs_todo s t") auto
      have "\<exists>r z. exec c (cs_object s) = Some (r, z)" by (rule next_call_returns [OF inv c assms(3-5)])
      with Cs_working c y(1) show ?thesis by (blast intro: cs_write)
    next
      case Cs_leaving
      with Some show ?thesis using cs_release [of s t "(cs_owner s)(cs_mutex := None)"] by (auto simp: mt_mutex_defs)
    qed (use i in simp)
  qed
qed

end

text \<open>An object that holds an entry for every call, in the order of the calls.\<close>

locale collecting_object = guarded_object exec room admissible
  for exec :: "('o, 's, 'r) operation" and room and admissible +
  fixes held :: "'s \<Rightarrow> 'q list"
    and tells :: "'o \<Rightarrow> 'q \<Rightarrow> bool"
  assumes held_law: "room (Suc n) x \<Longrightarrow> admissible c \<Longrightarrow> exec c x = Some (r, y) \<Longrightarrow> \<exists>q. held y = held x @ [q] \<and> tells c q"
begin

lemma run_calls_collects:
  assumes "room (length cs + n) x" and "\<forall>c\<in>set cs. admissible c"
  shows "\<exists>rs y qs. run_calls exec cs x = Some (rs, y) \<and> room n y \<and> held y = held x @ qs \<and> list_all2 tells cs qs"
  using assms
proof (induction cs arbitrary: x)
  case (Cons c cs)
  have a: "room (Suc (length cs + n)) x" "admissible c" using Cons.prems by auto
  from exec_law [OF a] obtain r y where y: "exec c x = Some (r, y)" "room (length cs + n) y" by blast
  from held_law [OF a y(1)] obtain q where "held y = held x @ [q]" "tells c q" by blast
  with Cons.IH [OF y(2)] Cons.prems(2) y(1) show ?case by force
qed simp

lemma finished_collects:
  assumes "cs_steps exec (cs_start x calls) s" and "cs_finished s" and "finite {t. calls t \<noteq> []}"
    and "room (\<Sum>t | calls t \<noteq> []. length (calls t)) x" and "\<forall>t. \<forall>c\<in>set (calls t). admissible c"
  shows "room 0 (cs_object s) \<and> (\<forall>t. calls_of t (cs_log s) = calls t) \<and>
    (\<exists>qs. held (cs_object s) = held x @ qs \<and> list_all2 tells (calls_in_log (cs_log s)) qs)"
proof -
  let ?log = "cs_log s"
  note l = cs_linearizable [OF assms(1,2)]
  have e: "fst (snd e) \<in> set (calls (fst e))" if "e \<in> set ?log" for e using log_entry [OF that] l(2) by simp
  then have sub: "fst ` set ?log \<subseteq> {t. calls t \<noteq> []}" by force
  have "(\<Sum>t | calls t \<noteq> []. length (calls t)) = length (calls_in_log ?log) + 0"
    using length_log [OF assms(3) sub] l(2) by (simp add: calls_in_log_def)
  moreover have adm: "\<forall>c\<in>set (calls_in_log ?log). admissible c" using e assms(5) by (force simp: calls_in_log_def)
  ultimately obtain rs y qs where "run_calls exec (calls_in_log ?log) x = Some (rs, y)" "room 0 y" "held y = held x @ qs"
    "list_all2 tells (calls_in_log ?log) qs" using run_calls_collects [OF _ adm, of 0 x] assms(4) by auto
  with l show ?thesis by auto
qed

end

end
