(* ===== verification/Concurrency.thy ===== *)
theory Concurrency
  imports Critical_Section Delivery
begin

text \<open>
  Threads that share the objects of the library: counters (\<open>metrics.c\<close>) and the remote reporter (\<open>reporter.c\<close>), which
  have a mutex, and a token bucket (\<open>token_bucket.c\<close>), which has none.
\<close>

section \<open>Counters\<close>

text \<open>
  \<open>jaeger_default_counter_inc\<close> in the build without atomics: \<open>c->total += delta\<close> under the mutex, where an overflow has
  no defined result.
\<close>

definition counter_op :: "(int, int, unit) operation" where
  "counter_op delta tot = (if int64_ok (tot + delta) then Some ((), tot + delta) else None)"

lemma run_counter: "run_calls counter_op ds tot = Some (rs, y) \<Longrightarrow> y = tot + sum_list ds"
  by (induction ds arbitrary: tot rs) (force simp: counter_op_def split: bind_splits if_splits)+

text \<open>A counter has room for \<open>n\<close> increments of at most \<open>D\<close>.\<close>

interpretation counter: guarded_object counter_op "\<lambda>n tot. \<bar>tot\<bar> + int n * D < 2 ^ 63" "\<lambda>d. \<bar>d\<bar> \<le> D"
  for D
proof (unfold_locales, goal_cases)
  case (1 n x c)
  have "\<bar>x + c\<bar> + int n * D \<le> \<bar>x\<bar> + int (Suc n) * D" using 1(2) by (simp add: algebra_simps)
  moreover have "0 \<le> int n * D" using 1(2) by simp
  ultimately show ?case using 1(1) by (auto simp: counter_op_def int64_ok_def)
qed

section \<open>The remote reporter\<close>

text \<open>\<open>remote_reporter_report\<close> of spans of one tracer; the object is the reporter with the heap.\<close>

definition report_op :: "report_env \<Rightarrow> tracer_process \<Rightarrow> (jaeger_span, jaeger_remote_reporter \<times> mem, unit) operation" where
  "report_op renv t sp x = map_option (Pair ()) (remote_reporter_report renv (fst x) (Some t) (Some sp) (snd x))"

text \<open>The reporter can take \<open>n\<close> more spans and has replaced the blocks it had at the start by those it has.\<close>

definition report_room :: "report_env \<Rightarrow> tracer_process \<Rightarrow> jaeger_remote_reporter \<times> mem \<Rightarrow> nat \<Rightarrow> jaeger_remote_reporter \<times> mem \<Rightarrow> bool" where
  "report_room renv t x n y \<longleftrightarrow> remote_ready renv (fst x) t n (fst y) \<and> mem_good (snd y) \<and> distinct (remote_ptrs (fst y)) \<and>
     mem_good (snd x) \<and> mem_trans (set (remote_ptrs (fst x))) (set (remote_ptrs (fst y))) (snd x) (snd y)"

lemma report_op_law:
  assumes "report_room renv t x (Suc n) y" and "span_src_ok (re_env renv) sp"
  shows "\<exists>r' m' q. report_op renv t sp y = Some ((), (r', m')) \<and> report_room renv t x n (r', m') \<and>
    messages (rr_spans r') = messages (rr_spans (fst y)) @ [q] \<and> pb_span_same sp q"
proof -
  have r: "remote_ready renv (fst x) t (Suc n) (fst y)" "mem_good (snd y)" "distinct (remote_ptrs (fst y))" "mem_good (snd x)"
    "mem_trans (set (remote_ptrs (fst x))) (set (remote_ptrs (fst y))) (snd x) (snd y)"
    using assms(1) by (auto simp: report_room_def)
  from remote_report_law [OF r(2) assms(2) r(1) owns_trans [OF r(5,3)], of "()"] obtain q r' m' where
    l: "remote_report renv (Some t) (fst y) sp () (snd y) = Some (r', (), m')" "remote_ready renv (fst x) t n r'"
    "messages (rr_spans r') = messages (rr_spans (fst y)) @ [q]" "pb_span_same sp q" "distinct (remote_ptrs r')"
    "mem_trans (set (remote_ptrs (fst y))) (set (remote_ptrs r')) (snd y) m'" by blast
  have "report_op renv t sp y = Some ((), (r', m'))" using l(1) by (auto simp: remote_report_def report_op_def)
  moreover have "mem_trans (set (remote_ptrs (fst x))) (set (remote_ptrs r')) (snd x) m'"
    using mem_trans_trans [OF r(5) l(6)] r(4) by (simp add: mem_good_def)
  ultimately show ?thesis using l mem_good_trans [OF r(2) l(6)] r(4) by (auto simp: report_room_def)
qed

interpretation reports: collecting_object "report_op renv t" "report_room renv t x" "span_src_ok (re_env renv)" "\<lambda>y. messages (rr_spans (fst y))" pb_span_same
  for renv t x
proof (unfold_locales, goal_cases)
  case (1 n y c)
  from report_op_law [OF this] show ?case by blast
next
  case (2 n y c r z)
  from report_op_law [OF 2(1,2)] 2(3) show ?case by auto
qed

section \<open>A token bucket\<close>

text \<open>\<open>jaeger_token_bucket_check_credit\<close> for one credit; an operation is the reading of the clock.\<close>

definition bucket_op :: "(real \<Rightarrow> real) \<Rightarrow> (opentracing_time_value, jaeger_token_bucket, bool) operation" where
  "bucket_op rnd now tok = jaeger_token_bucket_check_credit rnd tok 1 now"

text \<open>At the time of the last tick nothing is added to the balance.\<close>

lemma bucket_same_time:
  assumes "double_rounding rnd" and "tb_ok tok" and "tb_last_tick tok = now" and "tb_balance tok \<in> {0, 1}" and "tb_max_balance tok = 1"
  shows "bucket_op rnd now tok = Some (tb_balance tok = 1, tok\<lparr>tb_balance := 0\<rparr>)"
proof -
  have c: "clock_ok now" using assms(2,3) by (simp add: tb_ok_def clock_ok_def)
  from check_credit_eq [OF assms(2) c, of rnd 1] assms(3) obtain i where
    e: "bucket_op rnd now tok =
      (let diff = rnd (rnd (rnd (of_int (tv_nsec i) / 1000000000) + of_int (tv_sec i)) * tb_credits_per_second tok);
           b = min (tb_max_balance tok) (rnd (tb_balance tok + diff));
           tok' = tok\<lparr>tb_balance := b, tb_last_tick := now\<rparr>
       in Some (if b < 1 then (False, tok') else (True, tok'\<lparr>tb_balance := rnd (b - 1)\<rparr>)))"
    and i: "time_norm i" "time_ns i = 0" unfolding bucket_op_def by auto
  have z: "tv_sec i * 1000000000 + tv_nsec i = 0" "0 \<le> tv_nsec i" "tv_nsec i < 1000000000" using i by (auto simp: clock_unfold)
  then have "tv_sec i = 0" by linarith
  with z(1) have "tv_nsec i = 0" "tv_sec i = 0" by simp_all
  with e assms(3-5) double_rounding.rnd_0 [OF assms(1)] double_rounding.rnd_1 [OF assms(1)] show ?thesis by auto
qed

definition two_askers :: "opentracing_time_value \<Rightarrow> tid \<Rightarrow> opentracing_time_value list" where
  "two_askers now = (\<lambda>_. [])(0 := [now], 1 := [now])"

lemma two_askers_log:
  assumes "\<And>u. calls_of u lg = two_askers now u"
  shows "calls_in_log lg = [now, now]"
proof -
  have e: "fst e \<in> {0, 1}" "fst (snd e) = now" if "e \<in> set lg" for e
  proof -
    have "fst (snd e) \<in> set (two_askers now (fst e))" using log_entry [OF that] by (simp only: assms)
    then show "fst e \<in> {0, 1}" "fst (snd e) = now" by (simp_all add: two_askers_def split: if_splits)
  qed
  have "fst ` set lg \<subseteq> {0, 1}" using e(1) by (rule image_subsetI)
  then have "(\<Sum>u\<in>{0, 1}. length (calls_of u lg)) = length lg" by (intro length_log) simp_all
  then have "length (calls_in_log lg) = 2" by (simp add: assms two_askers_def calls_in_log_def)
  moreover have "\<forall>c\<in>set (calls_in_log lg). c = now" using e(2) by (auto simp: calls_in_log_def)
  ultimately have "calls_in_log lg = replicate 2 now" by (metis replicate_length_same)
  then show ?thesis by (simp add: numeral_2_eq_2)
qed

section \<open>Properties\<close>

text \<open>
  C18: Spans reported from several threads are all queued.  However the threads interleave, with memory available a
  remote reporter in use never gets stuck before all reports are made; then its queue has the messages it
  had and one faithful message per reported span, in an order in which every thread's spans keep their order, and
  exactly the blocks of the queue and of the process message have been allocated.
\<close>

theorem concurrent_reports_queued:
  assumes "cs_steps (report_op renv t) (cs_start (r, m) calls) s"
    and "finite {u. calls u \<noteq> []}" and "\<forall>u. \<forall>sp\<in>set (calls u). span_src_ok (re_env renv) sp"
    and "remote_ready renv r t (\<Sum>u | calls u \<noteq> []. length (calls u)) r" and "mem_ok m" and "mem_plenty m" and "owns m (remote_ptrs r)"
  shows "(\<not> cs_finished s \<longrightarrow> (\<exists>u s'. cs_step (report_op renv t) u s s')) \<and>
    (cs_finished s \<longrightarrow> (\<exists>r' m' ms. cs_object s = (r', m') \<and> messages (rr_spans r') = messages (rr_spans r) @ ms \<and>
       list_all2 pb_span_same (calls_in_log (cs_log s)) ms \<and> (\<forall>u. calls_of u (cs_log s) = calls u) \<and>
       mem_trans (set (remote_ptrs r)) (set (remote_ptrs r')) m m'))"
proof -
  have "mem_good m" "set (remote_ptrs r) \<subseteq> dom (mem_blocks m)" "distinct (remote_ptrs r)" using assms(5-7) by (auto simp: mem_good_def owns_def)
  with assms(4) mem_trans_keep [OF assms(5)] have r: "report_room renv t (r, m) (\<Sum>u | calls u \<noteq> []. length (calls u)) (r, m)"
    by (simp add: report_room_def)
  from reports.never_stuck [OF assms(1) _ assms(2) r assms(3)] reports.finished_collects [OF assms(1) _ assms(2) r assms(3)]
  show ?thesis by (cases "cs_object s") (auto simp: report_room_def)
qed

definition two_reporting :: "tid \<Rightarrow> jaeger_span list" where
  "two_reporting = (\<lambda>_. [])(0 := [span_one\<lparr>sp_tracer := Some 0\<rparr>], 1 := [span_one\<lparr>sp_tracer := Some 0\<rparr>])"

theorem concurrent_reports_queued_witness:
  "\<exists>u s'. cs_step (report_op report_env_one (process_of delivery_tracer)) u (cs_start (delivery_reporter, mem_three) two_reporting) s'"
proof -
  let ?s = "cs_start (delivery_reporter, mem_three) two_reporting :: (jaeger_remote_reporter \<times> mem, jaeger_span, unit) cs_state"
  have T: "{u. two_reporting u \<noteq> []} = {0, 1}" by (auto simp: two_reporting_def)
  have "(\<Sum>u | two_reporting u \<noteq> []. length (two_reporting u)) = 2" unfolding T by (simp add: two_reporting_def)
  then have "remote_ready report_env_one delivery_reporter (process_of delivery_tracer) (\<Sum>u | two_reporting u \<noteq> []. length (two_reporting u)) delivery_reporter"
    using delivery_ready(1) [of 2] by simp
  moreover have "\<forall>u. \<forall>sp\<in>set (two_reporting u). span_src_ok (re_env report_env_one) sp"
    using delivery_span_ok by (simp add: two_reporting_def delivery_env_ok)
  moreover have "finite {u. two_reporting u \<noteq> []}" unfolding T by simp
  moreover have "\<not> cs_finished ?s" by (auto simp: cs_finished_def cs_start_def two_reporting_def)
  ultimately show ?thesis
    using concurrent_reports_queued [OF cs_refl, where calls = two_reporting and renv = report_env_one and t = "process_of delivery_tracer" and r = delivery_reporter and m = mem_three]
      delivery_ready(2) [of 0] reporter_two_simps(5,6) by auto
qed





end
