(* ===== verification/Crossdock.thy ===== *)
theory Crossdock
  imports Tracer
begin

text \<open>
  The crossdock service: \<open>crossdock/messages.h\<close> (requests read from JSON) and \<open>crossdock/main.c\<close> (serving a
  connection).

  The service uses \<open>malloc\<close>, \<open>strdup\<close> and \<open>free\<close> of the C library, which are the built-in allocator of
  \<open>Alloc\<close>.  The JSON library, the table of HTTP status lines and the global tracer are members of
  \<open>crossdock_env\<close>.  The contents of arrays that the code does not initialise are arguments.
\<close>

section \<open>Messages\<close>

definition HTTP_STATUS_OK :: nat where
  "HTTP_STATUS_OK = 200"

definition HTTP_STATUS_BAD_REQUEST :: nat where
  "HTTP_STATUS_BAD_REQUEST = 400"

definition HTTP_STATUS_NOT_FOUND :: nat where
  "HTTP_STATUS_NOT_FOUND = 404"

definition HTTP_STATUS_INTERNAL_SERVER_ERROR :: nat where
  "HTTP_STATUS_INTERNAL_SERVER_ERROR = 500"

datatype transport_type = Transport_http | Transport_tchannel | Transport_dummy

text \<open>
  The JSON string of the transport is unpacked into the member of enumeration type, so the member holds
  the low half of the address of the string.
\<close>

datatype downstream_message =
  Downstream_message
    (dm_service_name: "cstring option")
    (dm_server_role: "cstring option")
    (dm_host: "cstring option")
    (dm_port: "cstring option")
    (dm_transport: u32)
    (dm_downstream: "(ptr \<times> downstream_message) option")

record start_trace_request =
  req_server_role :: "cstring option"
  req_sampled :: bool
  req_baggage :: "cstring option"
  req_downstream :: downstream_message

record observed_span =
  os_trace_id :: "(ptr \<times> string option) option"
  os_sampled :: bool
  os_baggage :: "cstring option"

text \<open>
  The members for \<open>json_unpack_ex\<close> take the keys of the format.  The fifth string of the first comes with
  the low half of its address; the last key is optional.  \<open>ce_status_line\<close> is the table
  \<open>HTTP_STATUS_MAP\<close>.
\<close>

record ('j, 't, 'sp, 'w) crossdock_env =
  ce_loads :: "string \<Rightarrow> 'j option"
  ce_unpack_downstream :: "'j \<Rightarrow> string \<Rightarrow> string \<Rightarrow> string \<Rightarrow> string \<Rightarrow> string \<Rightarrow> string \<Rightarrow>
    (string \<times> string \<times> string \<times> string \<times> (string \<times> u32) \<times> 'j option) option"
  ce_unpack_request :: "'j \<Rightarrow> string \<Rightarrow> string \<Rightarrow> string \<Rightarrow> string \<Rightarrow> (string \<times> bool \<times> string \<times> 'j) option"
  ce_status_line :: "nat \<Rightarrow> string option"
  ce_global_tracer :: "'t option"
  ce_start_span :: "'t \<Rightarrow> string \<Rightarrow> 'w \<Rightarrow> ('sp option \<times> 'w) option"
  ce_set_tag :: "'sp \<Rightarrow> string \<Rightarrow> opentracing_value \<Rightarrow> 'w \<Rightarrow> 'w option"
  ce_set_baggage_item :: "'sp \<Rightarrow> string \<Rightarrow> string \<Rightarrow> 'w \<Rightarrow> 'w option"

text \<open>Outside the table the code fails an assertion.\<close>

definition http_status_line :: "('j, 't, 'sp, 'w) crossdock_env \<Rightarrow> nat \<Rightarrow> string option" where
  "http_status_line ce status = ce_status_line ce status"

text \<open>The arguments are pointers; the result is the status and what is assigned.\<close>

definition parse_transport_type :: "string option \<Rightarrow> transport_type option \<Rightarrow> nat \<times> transport_type option" where
  "parse_transport_type transport_type_name result =
     (case (transport_type_name, result) of
        (Some name, Some _) \<Rightarrow>
          (if length name = 0 then (HTTP_STATUS_BAD_REQUEST, result)
           else if name ! 0 = CHR ''D'' then
             (if name = ''DUMMY'' then (HTTP_STATUS_OK, Some Transport_dummy) else (HTTP_STATUS_BAD_REQUEST, result))
           else if name ! 0 = CHR ''H'' then
             (if name = ''HTTP'' then (HTTP_STATUS_OK, Some Transport_http) else (HTTP_STATUS_BAD_REQUEST, result))
           else if name ! 0 = CHR ''T'' then
             (if name = ''TCHANNEL'' then (HTTP_STATUS_OK, Some Transport_tchannel) else (HTTP_STATUS_BAD_REQUEST, result))
           else (HTTP_STATUS_BAD_REQUEST, result))
      | _ \<Rightarrow> (HTTP_STATUS_BAD_REQUEST, result))"

definition c_strdup :: "string \<Rightarrow> mem \<Rightarrow> cstring option \<times> mem" where
  "c_strdup s m = (case built_in_malloc (length s + 1) m of (p, m) \<Rightarrow> (map_option (\<lambda>p. (p, s)) p, m))"

definition dm_zero :: downstream_message where
  "dm_zero = Downstream_message None None None None 0 None"

definition downstream_message_destroy :: "downstream_message \<Rightarrow> mem \<Rightarrow> (downstream_message \<times> mem) option" where
  "downstream_message_destroy downstream m = do {
     m \<leftarrow> built_in_free (map_option fst (dm_service_name downstream)) m;
     m \<leftarrow> built_in_free (map_option fst (dm_server_role downstream)) m;
     m \<leftarrow> built_in_free (map_option fst (dm_host downstream)) m;
     m \<leftarrow> built_in_free (map_option fst (dm_port downstream)) m;
     m \<leftarrow> built_in_free (map_option fst (dm_downstream downstream)) m;
     Some (dm_zero, m)
   }"

text \<open>
  \<open>downstream\<close> is a pointer that may be NULL.  The recursive call passes the pointer that has just been set to
  NULL.
\<close>

function parse_downstream_message ::
  "('j, 't, 'sp, 'w) crossdock_env \<Rightarrow> downstream_message option \<Rightarrow> 'j option \<Rightarrow> mem \<Rightarrow> (nat \<times> downstream_message option \<times> mem) option" where
  "parse_downstream_message ce None json m = Some (HTTP_STATUS_BAD_REQUEST, None, m)"
| "parse_downstream_message ce (Some downstream) None m = Some (HTTP_STATUS_BAD_REQUEST, Some downstream, m)"
| "parse_downstream_message ce (Some downstream) (Some json) m =
     (case ce_unpack_downstream ce json ''serviceName'' ''serverRole'' ''host'' ''port'' ''transport'' ''downstream'' of
        None \<Rightarrow> Some (HTTP_STATUS_BAD_REQUEST, Some downstream, m)
      | Some (tmp_service_name, tmp_server_role, tmp_host, tmp_port, (_, tmp_transport), downstream_child) \<Rightarrow>
          (let (service_name, m) = c_strdup tmp_service_name m;
               (server_role, m) = c_strdup tmp_server_role m;
               (host, m) = c_strdup tmp_host m;
               (port, m) = c_strdup tmp_port m;
               downstream = Downstream_message service_name server_role host port tmp_transport None
           in do {
             (code, m) \<leftarrow>
               (if downstream_child \<noteq> None then do {
                  (code, _, m) \<leftarrow> parse_downstream_message ce (map_option snd (dm_downstream downstream)) downstream_child m;
                  Some (code, m)
                } else Some (HTTP_STATUS_OK, m));
             if code \<noteq> HTTP_STATUS_OK then do {
               (downstream, m) \<leftarrow> downstream_message_destroy downstream m;
               Some (code, Some downstream, m)
             }
             else if dm_service_name downstream = None \<or> dm_server_role downstream = None \<or>
               dm_host downstream = None \<or> dm_port downstream = None then do {
               (downstream, m) \<leftarrow> downstream_message_destroy downstream m;
               Some (HTTP_STATUS_INTERNAL_SERVER_ERROR, Some downstream, m)
             }
             else Some (code, Some downstream, m)
           }))"
  by pat_completeness auto
termination
  by (relation "measure (\<lambda>(_, downstream, _). if downstream = None then 0 else 1)") auto

definition start_trace_request_destroy :: "start_trace_request \<Rightarrow> mem \<Rightarrow> (start_trace_request \<times> mem) option" where
  "start_trace_request_destroy req m = do {
     m \<leftarrow> built_in_free (map_option fst (req_server_role req)) m;
     m \<leftarrow> built_in_free (map_option fst (req_baggage req)) m;
     (downstream, m) \<leftarrow> downstream_message_destroy (req_downstream req) m;
     Some (\<lparr>req_server_role = None, req_sampled = False, req_baggage = None, req_downstream = dm_zero\<rparr>, m)
   }"

text \<open>The callers pass pointers that are not NULL; \<open>req\<close> is not initialised before.\<close>

definition parse_start_trace_request ::
  "('j, 't, 'sp, 'w) crossdock_env \<Rightarrow> start_trace_request \<Rightarrow> 'j \<Rightarrow> mem \<Rightarrow> (nat \<times> start_trace_request \<times> mem) option" where
  "parse_start_trace_request ce req json m =
     (case ce_unpack_request ce json ''serverRole'' ''sampled'' ''baggage'' ''downstream'' of
        None \<Rightarrow> Some (HTTP_STATUS_BAD_REQUEST, req, m)
      | Some (server_role, sampled, baggage, downstream) \<Rightarrow>
          (let (role_copy, m) = c_strdup server_role m;
               (baggage_copy, m) = c_strdup baggage m;
               req = \<lparr>req_server_role = role_copy, req_sampled = sampled, req_baggage = baggage_copy, req_downstream = dm_zero\<rparr>
           in if req_server_role req = None \<or> req_baggage req = None then do {
                (req, m) \<leftarrow> start_trace_request_destroy req m;
                Some (HTTP_STATUS_INTERNAL_SERVER_ERROR, req, m)
              }
              else do {
                (code, d, m) \<leftarrow> parse_downstream_message ce (Some (req_downstream req)) (Some downstream) m;
                d \<leftarrow> d;
                let req = req\<lparr>req_downstream := d\<rparr>;
                if code \<noteq> HTTP_STATUS_OK then do {
                  (req, m) \<leftarrow> start_trace_request_destroy req m;
                  Some (code, req, m)
                }
                else Some (code, req, m)
              }))"

section \<open>Serving a connection\<close>

text \<open>\<open>strstr\<close> gives the rest of the text from the first occurrence on; \<open>strncpy\<close> writes exactly \<open>n\<close> bytes.\<close>

fun strstr :: "string \<Rightarrow> string \<Rightarrow> string option" where
  "strstr haystack needle =
     (if take (length needle) haystack = needle then Some haystack
      else case haystack of [] \<Rightarrow> None | _ # rest \<Rightarrow> strstr rest needle)"

declare strstr.simps [simp del]

definition strncpy :: "nat \<Rightarrow> string \<Rightarrow> string" where
  "strncpy n s = take n (s @ replicate n (CHR 0x00))"

definition crlf :: string where
  "crlf = [CHR 0x0D, CHR 0x0A]"

definition baggage_key :: string where
  "baggage_key = ''crossdock-baggage-key''"

text \<open>
  A span context has the type descriptor that its tracer gave it; \<open>context\<close> is what the cast gives, \<open>None\<close> if
  the object is not a context of this library.
\<close>

definition make_observed_span ::
  "u8 list \<Rightarrow> observed_span \<Rightarrow> string \<Rightarrow> jaeger_span_context option \<Rightarrow> mem \<Rightarrow>
   (bool \<times> observed_span \<times> jaeger_span_context option \<times> mem) option" where
  "make_observed_span seed sp type_descriptor context m =
     (if length type_descriptor \<noteq> length jaeger_span_context_type_descriptor \<or>
         c_str type_descriptor = c_str jaeger_span_context_type_descriptor
      then Some (False, sp, context, m)
      else do {
        ctx \<leftarrow> context;
        let trace_id_len = JAEGERTRACINGC_TRACE_ID_MAX_STR_LEN + 1;
        case built_in_malloc trace_id_len m of
          (None, m) \<Rightarrow> Some (False, sp\<lparr>os_trace_id := None\<rparr>, context, m)
        | (Some p, m) \<Rightarrow> do {
            ctx \<leftarrow> ctx_lock ctx;
            let (_, text) = jaeger_trace_id_format (ctx_trace_id ctx) trace_id_len;
            let sp = sp\<lparr>os_trace_id := Some (p, text), os_sampled := (ctx_flags ctx AND jaeger_sampling_flag_sampled \<noteq> 0)\<rparr>;
            kv \<leftarrow> jaeger_hashtable_find seed (ctx_baggage ctx) baggage_key;
            c_assert (kv \<noteq> None);
            kv \<leftarrow> kv;
            val \<leftarrow> kv_value kv;
            let (baggage, m) = c_strdup (snd val) m;
            ctx \<leftarrow> ctx_unlock ctx;
            Some (True, sp\<lparr>os_baggage := baggage\<rparr>, Some ctx, m)
          }
      })"

text \<open>The bytes written to the client and how often its descriptor has been closed.\<close>

record connection =
  cn_out :: string
  cn_closes :: nat

definition close_connection :: "connection \<Rightarrow> connection" where
  "close_connection cn = cn\<lparr>cn_closes := Suc (cn_closes cn)\<rparr>"

text \<open>
  The status line is formatted into a buffer; the number of bytes written is the length of the whole text,
  which must not exceed the buffer.
\<close>

definition respond :: "('j, 't, 'sp, 'w) crossdock_env \<Rightarrow> nat \<Rightarrow> nat \<Rightarrow> connection \<Rightarrow> connection option" where
  "respond ce buffer_size status cn = do {
     line \<leftarrow> http_status_line ce status;
     let response = ''HTTP/1.1 '' @ fmt_d (int status) @ '' '' @ line @ crlf @ crlf;
     c_assert (length response < buffer_size);
     Some (close_connection (cn\<lparr>cn_out := cn_out cn @ response\<rparr>))
   }"

text \<open>\<open>prepare_response\<close> does nothing; the request is not released.\<close>

definition service_start_trace ::
  "('j, 't, 'sp, 'w) crossdock_env \<Rightarrow> start_trace_request \<Rightarrow> 'j \<Rightarrow> connection \<Rightarrow> 'w \<Rightarrow> mem \<Rightarrow> (connection \<times> 'w \<times> mem) option" where
  "service_start_trace ce uninit json cn w m = do {
     (status, req, m) \<leftarrow> parse_start_trace_request ce uninit json m;
     if status \<noteq> HTTP_STATUS_OK then do {
       cn \<leftarrow> respond ce 511 status cn;
       Some (cn, w, m)
     }
     else case ce_global_tracer ce of
       None \<Rightarrow> do {
         cn \<leftarrow> respond ce 511 HTTP_STATUS_INTERNAL_SERVER_ERROR cn;
         Some (cn, w, m)
       }
     | Some tracer \<Rightarrow> do {
         server_role \<leftarrow> req_server_role req;
         (sp, w) \<leftarrow> ce_start_span ce tracer (snd server_role) w;
         sp \<leftarrow> sp;
         w \<leftarrow> (if req_sampled req then ce_set_tag ce sp ''sampling.priority'' (OTV_uint64 1) w else Some w);
         baggage \<leftarrow> req_baggage req;
         w \<leftarrow> ce_set_baggage_item ce sp baggage_key (snd baggage) w;
         Some (cn, w, m)
       }
   }"

text \<open>A number that does not fit \<open>int\<close> is undefined for \<open>sscanf\<close>.\<close>

definition parse_content_length :: "string \<Rightarrow> int option" where
  "parse_content_length request =
     (case strstr request ''Content-Length: '' of
        None \<Rightarrow> Some 0
      | Some line \<Rightarrow>
          (let v = fst (strtol_dec (drop (length ''Content-Length: '') line))
           in do { c_assert (int_ok v); Some v }))"

text \<open>
  The word that \<open>%64s\<close> reads and the rest.  The arrays for the method and the path have 64 bytes, so a word of
  64 characters and its NUL do not fit.  The path is not assigned if the request has fewer than two words.
\<close>

definition SHORT_SIZE :: nat where
  "SHORT_SIZE = 64"

definition scan_word :: "string \<Rightarrow> string \<times> string" where
  "scan_word s =
     (let s = dropWhile isspace s;
          word = take SHORT_SIZE (takeWhile (\<lambda>c. \<not> isspace c) s)
      in (word, drop (length word) s))"

definition scan_path :: "string \<Rightarrow> string option option" where
  "scan_path request =
     (let (method, rest) = scan_word request
      in if method = [] then Some None
         else do {
           c_assert (length method < SHORT_SIZE);
           let (path, rest) = scan_word rest;
           if path = [] then Some None
           else do {
             c_assert (length path < SHORT_SIZE);
             Some (Some path)
           }
         })"

definition body_size :: nat where
  "body_size = 512"

text \<open>
  The text in the array \<open>body\<close>, if there is one, and whether the request is too large.  \<open>garbage\<close> is what the
  array holds before.
\<close>

definition request_body :: "(nat \<Rightarrow> char) \<Rightarrow> string \<Rightarrow> (bool \<times> string option) option" where
  "request_body garbage request =
     (case strstr request (crlf @ crlf) of
        None \<Rightarrow> Some (False, None)
      | Some head \<Rightarrow> do {
          let body_pos = drop (length (crlf @ crlf)) head;
          content_length \<leftarrow> parse_content_length request;
          if content_length = 0 then
            Some (False, Some (c_str (strncpy (body_size - 2) body_pos @ [garbage (body_size - 2), CHR 0x00])))
          else if content_length < 0 \<or> int (body_size - 1) < content_length then Some (True, None)
          else do {
            c_assert (content_length + 1 < int body_size);
            let n = nat content_length;
            Some (False, Some (c_str (strncpy n body_pos @ [garbage n, CHR 0x00])))
          }
        })"

definition handle_request ::
  "('j, 't, 'sp, 'w) crossdock_env \<Rightarrow> (nat \<Rightarrow> char) \<Rightarrow> start_trace_request \<Rightarrow> string \<Rightarrow> connection \<Rightarrow> 'w \<Rightarrow> mem \<Rightarrow> (connection \<times> 'w \<times> mem) option" where
  "handle_request ce garbage uninit request cn w m = do {
     path \<leftarrow> scan_path request;
     (too_large, body) \<leftarrow> request_body garbage request;
     if too_large then do { cn \<leftarrow> respond ce 64 HTTP_STATUS_INTERNAL_SERVER_ERROR cn; Some (cn, w, m) }
     else do {
       path \<leftarrow> path;
       if path = ''/start_trace'' \<or> path = ''/join_trace'' then
         (case body of
            None \<Rightarrow> do { cn \<leftarrow> respond ce 64 HTTP_STATUS_BAD_REQUEST cn; Some (cn, w, m) }
          | Some body \<Rightarrow>
              (case ce_loads ce body of
                 None \<Rightarrow> do { cn \<leftarrow> respond ce 64 HTTP_STATUS_BAD_REQUEST cn; Some (cn, w, m) }
               | Some json_body \<Rightarrow> do {
                   (cn, w, m) \<leftarrow>
                     (if path = ''/start_trace'' then service_start_trace ce uninit json_body cn w m
                      else Some (cn, w, m));
                   Some (close_connection cn, w, m)
                 }))
       else do {
         cn \<leftarrow> respond ce 64 (if path \<noteq> ''/'' then HTTP_STATUS_NOT_FOUND else HTTP_STATUS_OK) cn;
         Some (cn, w, m)
       }
     }
   }"

text \<open>
  \<open>received\<close> is what \<open>read\<close> delivers, \<open>None\<close> on an error.  The byte after the received ones is not set; the
  NUL is written one place further.
\<close>

definition serve ::
  "('j, 't, 'sp, 'w) crossdock_env \<Rightarrow> (nat \<Rightarrow> char) \<Rightarrow> (nat \<Rightarrow> char) \<Rightarrow> start_trace_request \<Rightarrow> string option \<Rightarrow> connection \<Rightarrow> 'w \<Rightarrow> mem \<Rightarrow>
   (connection \<times> 'w \<times> mem) option" where
  "serve ce buffer_garbage garbage uninit received cn w m = do {
     let num_read = (case received of None \<Rightarrow> - 1 | Some data \<Rightarrow> int (length data));
     cn \<leftarrow> (if num_read + 1 \<ge> 1024 then respond ce 1024 HTTP_STATUS_INTERNAL_SERVER_ERROR cn else Some cn);
     c_assert (num_read + 1 < 1024);
     let request = (case received of None \<Rightarrow> [] | Some data \<Rightarrow> c_str (data @ [buffer_garbage (length data), CHR 0x00]));
     handle_request ce garbage uninit request cn w m
   }"

section \<open>Memory of the messages\<close>

lemma c_strdup_fresh:
  assumes "c_strdup s m = (r, m')" and "mem_ok m"
  shows "fresh_list (cs_ptrs r) m m'" and "r \<noteq> None \<longrightarrow> map_option snd r = Some s" and "mem_plenty m \<longrightarrow> r \<noteq> None"
proof -
  have e: "jaeger_strdup (Some s) m = Some (r, m')" using assms
    by (auto simp: c_strdup_def jaeger_strdup_def jaeger_malloc_def jaeger_get_allocator_def mem_ok_def split: prod.splits option.split)
  show "fresh_list (cs_ptrs r) m m'"
    using e assms(2) jaeger_strdup_NoneD [of s m m'] jaeger_strdup_SomeD [of s m _ m'] by (cases r) (auto simp: fresh_list_def)
  show "r \<noteq> None \<longrightarrow> map_option snd r = Some s" using e assms(2) jaeger_strdup_SomeD(1) [of s m _ m'] by (cases r) auto
  show "mem_plenty m \<longrightarrow> r \<noteq> None" using e assms(2) jaeger_strdup_plenty [of m s m'] by auto
qed

lemma built_in_free_eq: "mem_ok m \<Longrightarrow> built_in_free p m = jaeger_free p m"
  by (simp add: jaeger_free_def jaeger_get_allocator_def mem_ok_def)

text \<open>Releasing the blocks of several pointers, one after the other.\<close>

fun free_all :: "ptr option list \<Rightarrow> mem \<Rightarrow> mem option" where
  "free_all [] m = Some m"
| "free_all (p # ps) m = do { m \<leftarrow> built_in_free p m; free_all ps m }"

definition live_ptrs :: "ptr option list \<Rightarrow> ptr list" where
  "live_ptrs ps = concat (map (\<lambda>p. cs_ptrs (map_option (\<lambda>p. (p, ())) p)) ps)"

lemma live_ptrs_simps [simp]: "live_ptrs [] = []" "live_ptrs (map_option fst s # ps) = cs_ptrs s @ live_ptrs ps"
  by (cases s; simp add: live_ptrs_def)+

lemma free_all_owned:
  assumes "mem_ok m" and "owns m (live_ptrs ps)"
  shows "\<exists>m'. free_all ps m = Some m' \<and> mem_trans (set (live_ptrs ps)) {} m m'"
  using assms
proof (induction ps arbitrary: m)
  case (Cons p ps)
  let ?q = "map_option (\<lambda>p. (p, ())) p"
  have p: "p = map_option fst ?q" by (cases p) simp_all
  have o: "owns m (cs_ptrs ?q @ live_ptrs ps)" using Cons.prems(2) by (simp add: live_ptrs_def)
  from free_owned [OF Cons.prems(1) owns_head [OF o]] obtain m1 where
    m1: "built_in_free p m = Some m1" "mem_trans (set (cs_ptrs ?q)) {} m m1" using p Cons.prems(1) by (metis built_in_free_eq)
  from Cons.IH [OF release_rest(2,1) [OF m1(2) o]] obtain m' where
    m': "free_all ps m1 = Some m'" "mem_trans (set (live_ptrs ps)) {} m1 m'" by blast
  from release_append [OF m1(2) m'(2) o Cons.prems(1)] m1(1) m'(1) show ?case by (simp add: live_ptrs_def)
qed simp

definition dm_ptrs :: "downstream_message \<Rightarrow> ptr list" where
  "dm_ptrs d = cs_ptrs (dm_service_name d) @ cs_ptrs (dm_server_role d) @ cs_ptrs (dm_host d) @ cs_ptrs (dm_port d) @ cs_ptrs (dm_downstream d)"

definition req_ptrs :: "start_trace_request \<Rightarrow> ptr list" where
  "req_ptrs req = cs_ptrs (req_server_role req) @ cs_ptrs (req_baggage req) @ dm_ptrs (req_downstream req)"

lemma dm_zero_ptrs [simp]: "dm_ptrs dm_zero = []"
  by (simp add: dm_ptrs_def dm_zero_def)

lemma dm_destroy_owned:
  assumes "mem_ok m" and "owns m (dm_ptrs d)"
  shows "\<exists>m'. downstream_message_destroy d m = Some (dm_zero, m') \<and> mem_trans (set (dm_ptrs d)) {} m m'"
proof -
  let ?ps = "[map_option fst (dm_service_name d), map_option fst (dm_server_role d), map_option fst (dm_host d),
    map_option fst (dm_port d), map_option fst (dm_downstream d)]"
  have "downstream_message_destroy d m = map_option (Pair dm_zero) (free_all ?ps m)"
    by (simp add: downstream_message_destroy_def map_conv_bind_option)
  with free_all_owned [of m ?ps] assms show ?thesis by (auto simp: dm_ptrs_def)
qed

lemma req_destroy_owned:
  assumes "mem_ok m" and "owns m (req_ptrs req)"
  shows "\<exists>req' m'. start_trace_request_destroy req m = Some (req', m') \<and> req_ptrs req' = [] \<and> mem_trans (set (req_ptrs req)) {} m m'"
proof -
  let ?ps = "[map_option fst (req_server_role req), map_option fst (req_baggage req)]"
  have o: "owns m (live_ptrs ?ps @ dm_ptrs (req_downstream req))" using assms(2) by (simp add: req_ptrs_def)
  from free_all_owned [OF assms(1) owns_head [OF o]] obtain m1 where m1: "free_all ?ps m = Some m1" "mem_trans (set (live_ptrs ?ps)) {} m m1" by blast
  from dm_destroy_owned [OF release_rest(2,1) [OF m1(2) o]] obtain m2 where
    m2: "downstream_message_destroy (req_downstream req) m1 = Some (dm_zero, m2)" "mem_trans (set (dm_ptrs (req_downstream req))) {} m1 m2" by blast
  have "start_trace_request_destroy req m =
      Some (\<lparr>req_server_role = None, req_sampled = False, req_baggage = None, req_downstream = dm_zero\<rparr>, m2)"
    using m1(1) m2(1) by (auto simp: start_trace_request_destroy_def split: bind_splits)
  with release_append [OF m1(2) m2(2) o assms(1)] show ?thesis by (simp add: req_ptrs_def)
qed

text \<open>A message that holds copies of the strings of the JSON object, which has no further object inside.\<close>

fun downstream_from :: "(string \<times> string \<times> string \<times> string \<times> (string \<times> u32) \<times> 'j option) option \<Rightarrow> downstream_message \<Rightarrow> bool" where
  "downstream_from (Some (service_name, server_role, host, port, transport, child)) d \<longleftrightarrow> child = None \<and>
     map_option snd (dm_service_name d) = Some service_name \<and> map_option snd (dm_server_role d) = Some server_role \<and>
     map_option snd (dm_host d) = Some host \<and> map_option snd (dm_port d) = Some port \<and>
     dm_transport d = snd transport \<and> dm_downstream d = None"
| "downstream_from None d \<longleftrightarrow> False"

definition unpack_downstream :: "('j, 't, 'sp, 'w) crossdock_env \<Rightarrow> 'j \<Rightarrow>
    (string \<times> string \<times> string \<times> string \<times> (string \<times> u32) \<times> 'j option) option" where
  "unpack_downstream ce json = ce_unpack_downstream ce json ''serviceName'' ''serverRole'' ''host'' ''port'' ''transport'' ''downstream''"

lemma strdup_four:
  assumes "mem_ok m"
  obtains a m1 b m2 c m3 d m4 where "c_strdup s1 m = (a, m1)" and "c_strdup s2 m1 = (b, m2)" and "c_strdup s3 m2 = (c, m3)"
    and "c_strdup s4 m3 = (d, m4)" and "fresh_list (cs_ptrs a @ cs_ptrs b @ cs_ptrs c @ cs_ptrs d) m m4"
    and "a \<noteq> None \<longrightarrow> map_option snd a = Some s1" and "b \<noteq> None \<longrightarrow> map_option snd b = Some s2"
    and "c \<noteq> None \<longrightarrow> map_option snd c = Some s3" and "d \<noteq> None \<longrightarrow> map_option snd d = Some s4"
    and "mem_plenty m \<longrightarrow> a \<noteq> None \<and> b \<noteq> None \<and> c \<noteq> None \<and> d \<noteq> None"
proof -
  obtain a m1 where a: "c_strdup s1 m = (a, m1)" by fastforce
  note fa = c_strdup_fresh [OF a assms]
  obtain b m2 where b: "c_strdup s2 m1 = (b, m2)" by fastforce
  note fb = c_strdup_fresh [OF b fresh_listD(1) [OF fa(1)]]
  obtain c m3 where c: "c_strdup s3 m2 = (c, m3)" by fastforce
  note fc = c_strdup_fresh [OF c fresh_listD(1) [OF fb(1)]]
  obtain d m4 where d: "c_strdup s4 m3 = (d, m4)" by fastforce
  note fd = c_strdup_fresh [OF d fresh_listD(1) [OF fc(1)]]
  have "fresh_list (((cs_ptrs a @ cs_ptrs b) @ cs_ptrs c) @ cs_ptrs d) m m4"
    using fresh_list_append [OF fresh_list_append [OF fresh_list_append [OF fa(1) fb(1) assms] fc(1) assms] fd(1) assms] .
  with that [OF a b c d] fa fb fc fd fresh_listD(3) [OF fa(1)] fresh_listD(3) [OF fb(1)] fresh_listD(3) [OF fc(1)] show thesis by simp
qed

lemma parse_downstream_spec:
  assumes "mem_ok m"
  shows "\<exists>code d' m'. parse_downstream_message ce (Some d) (Some json) m = Some (code, Some d', m') \<and>
    (if code = HTTP_STATUS_OK then downstream_from (unpack_downstream ce json) d' \<and> fresh_list (dm_ptrs d') m m'
     else code \<in> {HTTP_STATUS_BAD_REQUEST, HTTP_STATUS_INTERNAL_SERVER_ERROR} \<and> d' \<in> {d, dm_zero} \<and> mem_trans {} {} m m') \<and>
    (mem_plenty m \<longrightarrow> code = (if \<exists>d. downstream_from (unpack_downstream ce json) d then HTTP_STATUS_OK else HTTP_STATUS_BAD_REQUEST))"
proof (cases "unpack_downstream ce json")
  case None
  with assms show ?thesis by (simp add: unpack_downstream_def HTTP_STATUS_OK_def HTTP_STATUS_BAD_REQUEST_def)
next
  case (Some u)
  obtain n r h p t x child where u: "u = (n, r, h, p, (t, x), child)" by (cases u) auto
  obtain a m1 b m2 c m3 e m4 where s: "c_strdup n m = (a, m1)" "c_strdup r m1 = (b, m2)" "c_strdup h m2 = (c, m3)"
    "c_strdup p m3 = (e, m4)" and f: "fresh_list (cs_ptrs a @ cs_ptrs b @ cs_ptrs c @ cs_ptrs e) m m4"
    and v: "a \<noteq> None \<longrightarrow> map_option snd a = Some n" "b \<noteq> None \<longrightarrow> map_option snd b = Some r"
      "c \<noteq> None \<longrightarrow> map_option snd c = Some h" "e \<noteq> None \<longrightarrow> map_option snd e = Some p"
      "mem_plenty m \<longrightarrow> a \<noteq> None \<and> b \<noteq> None \<and> c \<noteq> None \<and> e \<noteq> None"
    by (rule strdup_four [OF assms, of n r h p])
  let ?d = "Downstream_message a b c e x None"
  have f: "fresh_list (dm_ptrs ?d) m m4" using f by (simp add: dm_ptrs_def)
  from dm_destroy_owned [OF fresh_listD(1,2) [OF f]] obtain m5 where
    m5: "downstream_message_destroy ?d m4 = Some (dm_zero, m5)" "mem_trans (set (dm_ptrs ?d)) {} m4 m5" by blast
  have gone: "mem_trans {} {} m m5" using mem_trans_trans [OF fresh_listD(4) [OF f] m5(2) assms] .
  have eq: "ce_unpack_downstream ce json ''serviceName'' ''serverRole'' ''host'' ''port'' ''transport'' ''downstream'' = Some (n, r, h, p, (t, x), child)"
    using Some u by (simp add: unpack_downstream_def)
  show ?thesis
  proof (cases child)
    case (Some j)
    with eq s m5(1) have "parse_downstream_message ce (Some d) (Some json) m = Some (HTTP_STATUS_BAD_REQUEST, Some dm_zero, m5)"
      by (simp add: HTTP_STATUS_OK_def HTTP_STATUS_BAD_REQUEST_def)
    with \<open>unpack_downstream ce json = Some u\<close> u Some gone show ?thesis by (simp add: HTTP_STATUS_OK_def HTTP_STATUS_BAD_REQUEST_def)
  next
    case None
    have ex: "\<exists>d. downstream_from (Some u) d" unfolding u using None
      by (intro exI [of _ "Downstream_message (Some (0, n)) (Some (0, r)) (Some (0, h)) (Some (0, p)) x None"]) simp
    show ?thesis
    proof (cases "a = None \<or> b = None \<or> c = None \<or> e = None")
      case True
      with eq s m5(1) None have "parse_downstream_message ce (Some d) (Some json) m = Some (HTTP_STATUS_INTERNAL_SERVER_ERROR, Some dm_zero, m5)"
        by (auto simp: HTTP_STATUS_OK_def)
      with True v(5) gone show ?thesis by (auto simp: HTTP_STATUS_OK_def HTTP_STATUS_INTERNAL_SERVER_ERROR_def)
    next
      case False
      with eq s None have "parse_downstream_message ce (Some d) (Some json) m = Some (HTTP_STATUS_OK, Some ?d, m4)" by (auto simp: Let_def)
      moreover have "downstream_from (unpack_downstream ce json) ?d" using Some u None v(1-4) False by simp
      ultimately show ?thesis using f ex Some by auto
    qed
  qed
qed

fun request_from :: "('j, 't, 'sp, 'w) crossdock_env \<Rightarrow> (string \<times> bool \<times> string \<times> 'j) option \<Rightarrow> start_trace_request \<Rightarrow> bool" where
  "request_from ce (Some (server_role, sampled, baggage, downstream)) req \<longleftrightarrow>
     map_option snd (req_server_role req) = Some server_role \<and> req_sampled req = sampled \<and>
     map_option snd (req_baggage req) = Some baggage \<and> downstream_from (unpack_downstream ce downstream) (req_downstream req)"
| "request_from ce None req \<longleftrightarrow> False"

definition unpack_request :: "('j, 't, 'sp, 'w) crossdock_env \<Rightarrow> 'j \<Rightarrow> (string \<times> bool \<times> string \<times> 'j) option" where
  "unpack_request ce json = ce_unpack_request ce json ''serverRole'' ''sampled'' ''baggage'' ''downstream''"

lemmas http_status_defs = HTTP_STATUS_OK_def HTTP_STATUS_BAD_REQUEST_def HTTP_STATUS_INTERNAL_SERVER_ERROR_def HTTP_STATUS_NOT_FOUND_def

text \<open>What the parser of requests promises for any pattern of allocation failures.\<close>

definition request_parsed :: "('j, 't, 'sp, 'w) crossdock_env \<Rightarrow> start_trace_request \<Rightarrow> 'j \<Rightarrow> mem \<Rightarrow> nat \<Rightarrow> start_trace_request \<Rightarrow> mem \<Rightarrow> bool" where
  "request_parsed ce req json m status req' m' \<longleftrightarrow>
    (if status = HTTP_STATUS_OK then request_from ce (unpack_request ce json) req' \<and> fresh_list (req_ptrs req') m m'
     else status \<in> {HTTP_STATUS_BAD_REQUEST, HTTP_STATUS_INTERNAL_SERVER_ERROR} \<and> (req' = req \<or> req_ptrs req' = []) \<and> mem_trans {} {} m m') \<and>
    (mem_plenty m \<longrightarrow> status = (if \<exists>r. request_from ce (unpack_request ce json) r then HTTP_STATUS_OK else HTTP_STATUS_BAD_REQUEST))"

lemma request_undone:
  assumes "mem_ok m" and "fresh_list (cs_ptrs a @ cs_ptrs b) m m2" and "mem_trans {} {} m2 m3"
  shows "\<exists>req' m'. start_trace_request_destroy \<lparr>req_server_role = a, req_sampled = sampled, req_baggage = b, req_downstream = dm_zero\<rparr> m3 =
      Some (req', m') \<and> req_ptrs req' = [] \<and> mem_trans {} {} m m'"
proof -
  let ?req = "\<lparr>req_server_role = a, req_sampled = sampled, req_baggage = b, req_downstream = dm_zero\<rparr>"
  have f: "fresh_list (req_ptrs ?req) m m3"
    using fresh_list_append [OF assms(2) _ assms(1), of "[]" m3] assms(3) by (simp add: req_ptrs_def fresh_list_def)
  from req_destroy_owned [OF fresh_listD(1,2) [OF f]] mem_trans_trans [OF fresh_listD(4) [OF f] _ assms(1)] show ?thesis by blast
qed

lemma request_exists:
  "(\<exists>r. request_from ce (Some (role, sampled, baggage, dj)) r) \<longleftrightarrow> (\<exists>d. downstream_from (unpack_downstream ce dj) d)"
  by (auto intro: exI [of _ "\<lparr>req_server_role = Some (0, role), req_sampled = sampled, req_baggage = Some (0, baggage), req_downstream = _\<rparr>"])

lemma parse_request_spec:
  assumes m: "mem_ok m"
  shows "\<exists>code req' m'. parse_start_trace_request ce req json m = Some (code, req', m') \<and> request_parsed ce req json m code req' m'"
proof (cases "unpack_request ce json")
  case None
  with m show ?thesis by (simp add: parse_start_trace_request_def unpack_request_def request_parsed_def http_status_defs)
next
  case (Some u)
  obtain role sampled baggage dj where u: "u = (role, sampled, baggage, dj)" by (cases u) auto
  obtain a m1 where a: "c_strdup role m = (a, m1)" by fastforce
  note fa = c_strdup_fresh [OF a m]
  obtain b m2 where b: "c_strdup baggage m1 = (b, m2)" by fastforce
  note fb = c_strdup_fresh [OF b fresh_listD(1) [OF fa(1)]]
  note f2 = fresh_list_append [OF fa(1) fb(1) m]
  let ?req = "\<lparr>req_server_role = a, req_sampled = sampled, req_baggage = b, req_downstream = dm_zero\<rparr>"
  note gone = request_undone [OF m f2]
  have eq: "ce_unpack_request ce json ''serverRole'' ''sampled'' ''baggage'' ''downstream'' = Some (role, sampled, baggage, dj)"
    using Some u by (simp add: unpack_request_def)
  have m2: "mem_ok m2" "mem_plenty m2 = mem_plenty m" using fresh_listD(1,3) [OF f2] .
  show ?thesis
  proof (cases "a = None \<or> b = None")
    case True
    from gone [OF mem_trans_refl [OF m2(1)]] obtain req' m' where
      g: "start_trace_request_destroy ?req m2 = Some (req', m')" "req_ptrs req' = []" "mem_trans {} {} m m'" by blast
    have "\<not> mem_plenty m" using True fa(3) fb(3) fresh_listD(3) [OF fa(1)] by blast
    with True eq a b g show ?thesis
      by (auto simp: parse_start_trace_request_def request_parsed_def http_status_defs Let_def)
  next
    case False
    from parse_downstream_spec [OF m2(1), of ce dm_zero dj] obtain code d m3 where
      d: "parse_downstream_message ce (Some dm_zero) (Some dj) m2 = Some (code, Some d, m3)"
      "if code = HTTP_STATUS_OK then downstream_from (unpack_downstream ce dj) d \<and> fresh_list (dm_ptrs d) m2 m3
       else code \<in> {HTTP_STATUS_BAD_REQUEST, HTTP_STATUS_INTERNAL_SERVER_ERROR} \<and> d \<in> {dm_zero, dm_zero} \<and> mem_trans {} {} m2 m3"
      "mem_plenty m2 \<longrightarrow> code = (if \<exists>d. downstream_from (unpack_downstream ce dj) d then HTTP_STATUS_OK else HTTP_STATUS_BAD_REQUEST)" by blast
    note ex = request_exists [of ce role sampled baggage dj, folded u]
    show ?thesis
    proof (cases "code = HTTP_STATUS_OK")
      case True
      have "fresh_list (req_ptrs (?req\<lparr>req_downstream := d\<rparr>)) m m3"
        using fresh_list_append [OF f2 _ m] d(2) True by (simp add: req_ptrs_def)
      moreover have "parse_start_trace_request ce req json m = Some (code, ?req\<lparr>req_downstream := d\<rparr>, m3)"
        using eq a b d(1) True False by (auto simp: parse_start_trace_request_def Let_def)
      ultimately show ?thesis using True d(2,3) m2 ex Some u fa(2) fb(2) False by (auto simp: request_parsed_def)
    next
      case no: False
      with d(2) gone [of m3 sampled] obtain req' m' where g: "d = dm_zero" "start_trace_request_destroy ?req m3 = Some (req', m')"
        "req_ptrs req' = []" "mem_trans {} {} m m'" by auto
      with eq a b d(1) no False have "parse_start_trace_request ce req json m = Some (code, req', m')"
        by (auto simp: parse_start_trace_request_def Let_def)
      with no d(2,3) m2 ex Some g show ?thesis by (auto simp: request_parsed_def)
    qed
  qed
qed

section \<open>Requests\<close>

lemma content_length_read:
  assumes "strstr request ''Content-Length: '' = Some (''Content-Length: '' @ dec_of_nat n @ rest)"
    and "rest = [] \<or> \<not> isdigit (hd rest)" and "int n \<le> INT_MAX"
  shows "parse_content_length request = Some (int n)"
  using assms strtol_dec_prefix [OF assms(2), of n]
  by (simp add: parse_content_length_def int_ok_def INT_MAX_def LONG_MAX_def c_assert_def min_def)

lemma c_str_body: "nul_free body \<Longrightarrow> c_str (body @ [g, CHR 0x00]) = body @ c_str [g]"
  by (auto simp: c_str_def nul_free_def takeWhile_append)

text \<open>
  A request whose header announces the length of its body: the parser of JSON gets the body and, unless it
  happens to be NUL, the byte that the array held after it.
\<close>

lemma announced_body:
  assumes "strstr request (crlf @ crlf) = Some (crlf @ crlf @ body)"
    and "strstr request ''Content-Length: '' = Some (''Content-Length: '' @ dec_of_nat n @ rest)"
    and "rest = [] \<or> \<not> isdigit (hd rest)" and "n = length body" and "nul_free body" and "body \<noteq> []" and "int n \<le> INT_MAX"
  shows "request_body garbage request = (if n < 511 then Some (False, Some (body @ c_str [garbage n]))
    else if n = 511 then None else Some (True, None))"
proof -
  have "strncpy n body = body" using assms(4) by (simp add: strncpy_def)
  with assms content_length_read [OF assms(2,3,7)] c_str_body [OF assms(5), of "garbage n"] show ?thesis
    by (auto simp: request_body_def body_size_def crlf_def c_assert_def)
qed

section \<open>Properties\<close>

text \<open>
  A request to start a trace is read from JSON without a leak or a double free, whatever allocations
  fail.  With success the request owns its blocks and has copies of the strings of the JSON object; any
  failure releases everything.  With memory available it succeeds exactly if the object has all keys
  and the message in it names no further message.
\<close>

theorem start_request_parsed:
  assumes "mem_ok m"
  shows "\<exists>status req' m'. parse_start_trace_request ce req json m = Some (status, req', m') \<and> request_parsed ce req json m status req' m'"
  using parse_request_spec [OF assms] .


definition crossdock_sample :: "(nat, unit, unit, unit) crossdock_env" where
  "crossdock_sample = \<lparr>ce_loads = (\<lambda>_. Some 0),
     ce_unpack_downstream = (\<lambda>j _ _ _ _ _ _. Some (''go'', ''S2'', ''host'', ''8080'', (''HTTP'', 7), if j = 1 then Some 2 else None)),
     ce_unpack_request = (\<lambda>j _ _ _ _. Some (''S1'', True, ''bag'', 1)),
     ce_status_line = (\<lambda>n. if n = 400 then Some ''Bad Request'' else None),
     ce_global_tracer = None, ce_start_span = (\<lambda>_ _ w. Some (None, w)),
     ce_set_tag = (\<lambda>_ _ _ w. Some w), ce_set_baggage_item = (\<lambda>_ _ _ w. Some w)\<rparr>"

definition blank_request :: start_trace_request where
  "blank_request = \<lparr>req_server_role = None, req_sampled = False, req_baggage = None, req_downstream = dm_zero\<rparr>"

definition sample_request :: string where
  "sample_request = ''POST /start_trace HTTP/1.1'' @ crlf @ ''Content-Length: 2'' @ crlf @ crlf @ ''{}''"

theorem start_request_parsed_witness:
  "\<exists>status req' m'. parse_start_trace_request crossdock_sample blank_request 0 mem_one = Some (status, req', m') \<and> status = 400"
proof -
  have pl: "mem_plenty mem_one" by (simp add: mem_plenty_def)
  have no: "\<not> (\<exists>r. request_from crossdock_sample (unpack_request crossdock_sample 0) r)"
    by (simp add: unpack_request_def unpack_downstream_def crossdock_sample_def)
  obtain status req' m' where p: "parse_start_trace_request crossdock_sample blank_request 0 mem_one = Some (status, req', m')"
    "request_parsed crossdock_sample blank_request 0 mem_one status req' m'"
    using start_request_parsed [OF mem_one_simps(1), of crossdock_sample blank_request 0] by (elim exE conjE)
  have "status = 400" using p(2) unfolding request_parsed_def HTTP_STATUS_BAD_REQUEST_def by (simp only: no pl if_False simp_thms)
  with p(1) show ?thesis by blast
qed


end
