(* ===== verification/Crossdock_Server.thy ===== *)
theory Crossdock_Server
  imports Crossdock
begin

text \<open>
  \<open>main\<close> of the crossdock service: it opens a socket, accepts connections and starts a thread for each, in four
  slots; the thread of a slot is joined before the slot is used again.  A thread gets the address of the variable
  \<open>client_fd\<close> of the loop body, which every round of the loop stores to, and reads it when it starts to run.
\<close>

section \<open>The threads of the service\<close>

definition num_threads :: nat where
  "num_threads = 4"

lemma num_threads_pos: "0 < num_threads"
  by (simp add: num_threads_def)

datatype main_pc = At_accept | At_join nat | At_create | Main_exited

datatype thread_state = Thread_absent | Thread_new | Thread_serving int | Thread_done

text \<open>
  \<open>sv_backlog\<close> has the results of the coming calls of \<open>accept\<close>; \<open>sv_client_fd\<close> is the variable; threads are numbered in
  the order in which they are created; \<open>sv_served\<close> records which thread has served which connection.
\<close>

record 'x server =
  sv_backlog :: "int list"
  sv_client_fd :: int
  sv_threads :: "nat \<Rightarrow> nat option"
  sv_index :: nat
  sv_pc :: main_pc
  sv_states :: "nat \<Rightarrow> thread_state"
  sv_created :: nat
  sv_served :: "(nat \<times> int) list"
  sv_world :: 'x

text \<open>Up to the loop: a system call that fails ends the process.\<close>

definition main_start :: "int \<Rightarrow> int \<Rightarrow> int \<Rightarrow> int \<Rightarrow> int \<Rightarrow> int list \<Rightarrow> 'x \<Rightarrow> 'x server option" where
  "main_start uninit server_fd bind_code setsockopt_code listen_code backlog x = do {
     c_assert (server_fd \<ge> 0);
     c_assert (bind_code = 0);
     c_assert (setsockopt_code = 0);
     c_assert (listen_code = 0);
     Some \<lparr>sv_backlog = backlog, sv_client_fd = uninit, sv_threads = (\<lambda>_. None), sv_index = 0, sv_pc = At_accept,
       sv_states = (\<lambda>_. Thread_absent), sv_created = 0, sv_served = [], sv_world = x\<rparr>
   }"

text \<open>\<open>exec fd\<close> is what serving the connection \<open>fd\<close> does to the rest of the system.\<close>

inductive server_step :: "(int \<Rightarrow> 'x \<Rightarrow> 'x option) \<Rightarrow> 'x server \<Rightarrow> 'x server \<Rightarrow> bool" for exec where
  sv_accept: "sv_pc s = At_accept \<Longrightarrow> sv_backlog s = fd # fds \<Longrightarrow> fd \<ge> 0 \<Longrightarrow>
    server_step exec s (s\<lparr>sv_backlog := fds, sv_client_fd := fd,
      sv_pc := (case sv_threads s (sv_index s) of None \<Rightarrow> At_create | Some t \<Rightarrow> At_join t)\<rparr>)"
| sv_accept_failed: "sv_pc s = At_accept \<Longrightarrow> sv_backlog s = fd # fds \<Longrightarrow> fd < 0 \<Longrightarrow>
    server_step exec s (s\<lparr>sv_backlog := fds, sv_pc := Main_exited\<rparr>)"
| sv_join: "sv_pc s = At_join t \<Longrightarrow> sv_states s t = Thread_done \<Longrightarrow> server_step exec s (s\<lparr>sv_pc := At_create\<rparr>)"
| sv_create: "sv_pc s = At_create \<Longrightarrow> t = sv_created s \<Longrightarrow>
    server_step exec s (s\<lparr>sv_threads := (sv_threads s)(sv_index s \<mapsto> t), sv_states := (sv_states s)(t := Thread_new),
      sv_created := Suc t, sv_index := (sv_index s + 1) mod num_threads, sv_pc := At_accept\<rparr>)"
| sv_create_failed: "sv_pc s = At_create \<Longrightarrow> server_step exec s (s\<lparr>sv_pc := Main_exited\<rparr>)"
| sv_thread_starts: "sv_pc s \<noteq> Main_exited \<Longrightarrow> sv_states s t = Thread_new \<Longrightarrow>
    server_step exec s (s\<lparr>sv_states := (sv_states s)(t := Thread_serving (sv_client_fd s))\<rparr>)"
| sv_thread_serves: "sv_pc s \<noteq> Main_exited \<Longrightarrow> sv_states s t = Thread_serving fd \<Longrightarrow> exec fd (sv_world s) = Some x \<Longrightarrow>
    server_step exec s (s\<lparr>sv_states := (sv_states s)(t := Thread_done), sv_served := sv_served s @ [(t, fd)], sv_world := x\<rparr>)"

inductive server_steps :: "(int \<Rightarrow> 'x \<Rightarrow> 'x option) \<Rightarrow> 'x server \<Rightarrow> 'x server \<Rightarrow> bool" for exec where
  sv_refl: "server_steps exec s s"
| sv_next: "server_steps exec s s' \<Longrightarrow> server_step exec s' s'' \<Longrightarrow> server_steps exec s s''"

text \<open>The service itself: a connection is served by \<open>serve\<close>.\<close>

definition serve_fd ::
  "('j, 't, 'sp, 'w) crossdock_env \<Rightarrow> (nat \<Rightarrow> char) \<Rightarrow> (nat \<Rightarrow> char) \<Rightarrow> start_trace_request \<Rightarrow> (int \<Rightarrow> string option) \<Rightarrow>
   int \<Rightarrow> (int \<Rightarrow> connection) \<times> 'w \<times> mem \<Rightarrow> ((int \<Rightarrow> connection) \<times> 'w \<times> mem) option" where
  "serve_fd ce buffer_garbage garbage uninit received fd x = (case x of (conns, w, m) \<Rightarrow> do {
     (cn, w, m) \<leftarrow> serve ce buffer_garbage garbage uninit (received fd) (conns fd) w m;
     Some (conns(fd := cn), w, m)
   })"

section \<open>The invariant\<close>

definition is_running :: "thread_state \<Rightarrow> bool" where
  "is_running st \<longleftrightarrow> st \<noteq> Thread_absent \<and> st \<noteq> Thread_done"

definition running :: "'x server \<Rightarrow> nat set" where
  "running s = {t. is_running (sv_states s t)}"

text \<open>
  Slot \<open>t mod 4\<close> has thread \<open>t\<close> as long as \<open>t\<close> is one of the last four; the threads before these are done, and so is the
  oldest of these when the next thread is about to be created.
\<close>

definition server_inv :: "'x server \<Rightarrow> bool" where
  "server_inv s \<longleftrightarrow> sv_index s = sv_created s mod num_threads \<and>
     (\<forall>i. sv_threads s i = None \<longleftrightarrow> num_threads \<le> i \<or> sv_created s \<le> i) \<and>
     (\<forall>t. t < sv_created s \<and> sv_created s \<le> t + num_threads \<longrightarrow> sv_threads s (t mod num_threads) = Some t) \<and>
     (\<forall>t. sv_created s \<le> t \<longrightarrow> sv_states s t = Thread_absent) \<and>
     (\<forall>t. t < sv_created s \<longrightarrow> sv_states s t \<noteq> Thread_absent) \<and>
     (\<forall>t. t + num_threads < sv_created s \<longrightarrow> sv_states s t = Thread_done) \<and>
     (sv_pc s = At_create \<longrightarrow> (\<forall>t. t + num_threads = sv_created s \<longrightarrow> sv_states s t = Thread_done)) \<and>
     (\<forall>t. sv_pc s = At_join t \<longrightarrow> t + num_threads = sv_created s)"

lemma slot_in_use:
  assumes "server_inv s" and "sv_threads s (sv_index s) = Some t"
  shows "t + num_threads = sv_created s"
proof -
  let ?n = "sv_created s" and ?u = "sv_created s - num_threads"
  have i: "sv_index s = ?n mod num_threads" using assms(1) by (simp add: server_inv_def)
  have "num_threads \<le> ?n"
  proof (rule ccontr)
    assume "\<not> num_threads \<le> ?n"
    with i assms show False by (auto simp: server_inv_def)
  qed
  then have u: "?u + num_threads = ?n" "?u < ?n" by (simp_all add: num_threads_def)
  then have "?u mod num_threads = ?n mod num_threads" by (metis mod_add_self2)
  with i u assms show ?thesis by (auto simp: server_inv_def)
qed

lemma slot_free:
  assumes "server_inv s" and "sv_threads s (sv_index s) = None"
  shows "sv_created s < num_threads"
proof (rule ccontr)
  assume "\<not> sv_created s < num_threads"
  then have "sv_index s < sv_created s" "sv_index s < num_threads" using assms(1) by (auto simp: server_inv_def num_threads_def intro: less_le_trans)
  with assms show False by (simp add: server_inv_def)
qed

lemma slots_after_create:
  assumes "server_inv s"
  shows "\<forall>i. ((sv_threads s)(sv_index s \<mapsto> sv_created s)) i = None \<longleftrightarrow> num_threads \<le> i \<or> Suc (sv_created s) \<le> i"
    and "\<forall>t. t < Suc (sv_created s) \<and> Suc (sv_created s) \<le> t + num_threads \<longrightarrow>
      ((sv_threads s)(sv_index s \<mapsto> sv_created s)) (t mod num_threads) = Some t"
proof -
  let ?n = "sv_created s"
  have i: "sv_index s = ?n mod num_threads" and f: "sv_threads s j = None \<longleftrightarrow> num_threads \<le> j \<or> ?n \<le> j" for j
    using assms by (simp_all add: server_inv_def)
  have "sv_index s < num_threads" "sv_index s \<le> ?n" "?n < num_threads \<Longrightarrow> sv_index s = ?n" using i by (simp_all add: num_threads_def)
  then show "\<forall>j. ((sv_threads s)(sv_index s \<mapsto> ?n)) j = None \<longleftrightarrow> num_threads \<le> j \<or> Suc ?n \<le> j"
    using f by (cases "?n < num_threads") (auto simp: le_Suc_eq not_less_eq_eq)
  have "t mod num_threads \<noteq> ?n mod num_threads" if "t < ?n" "?n < t + num_threads" for t
  proof -
    have "(?n - t) mod num_threads \<noteq> 0" using that by (simp add: num_threads_def)
    with that(1) show ?thesis by (metis mod_eq_dvd_iff_nat less_imp_le_nat mod_0_imp_dvd dvd_imp_mod_0)
  qed
  with assms i show "\<forall>t. t < Suc ?n \<and> Suc ?n \<le> t + num_threads \<longrightarrow> ((sv_threads s)(sv_index s \<mapsto> ?n)) (t mod num_threads) = Some t"
    by (auto simp: server_inv_def less_Suc_eq Suc_le_eq)
qed

lemma server_step_inv:
  assumes "server_step exec s s'" and "server_inv s"
  shows "server_inv s'"
  using assms(1)
proof (cases rule: server_step.cases)
  case (sv_accept fd fds)
  show ?thesis
  proof (cases "sv_threads s (sv_index s)")
    case None
    with sv_accept assms(2) slot_free [OF assms(2) None] show ?thesis by (simp add: server_inv_def)
  next
    case (Some t)
    with sv_accept assms(2) slot_in_use [OF assms(2) Some] show ?thesis by (simp add: server_inv_def)
  qed
next
  case (sv_join t)
  then have "sv_states s u = Thread_done" if "u + num_threads = sv_created s" for u
    using that assms(2) by (simp add: server_inv_def) (metis add_right_cancel)
  with sv_join assms(2) show ?thesis by (auto simp: server_inv_def)
next
  case (sv_create t)
  with assms(2) slots_after_create [OF assms(2)] num_threads_pos show ?thesis by (auto simp: server_inv_def mod_Suc_eq less_Suc_eq)
qed (use assms(2) in \<open>auto simp: server_inv_def\<close>)

lemma server_start_inv: "main_start uninit server_fd b so l backlog x = Some s \<Longrightarrow> server_inv s"
  by (auto simp: main_start_def c_assert_def server_inv_def num_threads_def split: if_splits)

lemma server_steps_inv: "server_steps exec s s' \<Longrightarrow> server_inv s \<Longrightarrow> server_inv s'"
  by (induction rule: server_steps.induct) (iprover intro: server_step_inv)+

lemma running_window:
  assumes "server_inv s"
  shows "running s \<subseteq> {sv_created s - num_threads..<sv_created s}" and "finite (running s)" and "card (running s) \<le> num_threads"
proof -
  have "t < sv_created s \<and> sv_created s \<le> t + num_threads" if "t \<in> running s" for t
  proof -
    have "sv_states s t \<noteq> Thread_absent" "sv_states s t \<noteq> Thread_done" using that by (auto simp: running_def is_running_def)
    moreover have "sv_created s \<le> t \<Longrightarrow> sv_states s t = Thread_absent" "t + num_threads < sv_created s \<Longrightarrow> sv_states s t = Thread_done"
      using assms by (simp_all add: server_inv_def)
    ultimately show ?thesis by (meson not_le)
  qed
  then show w: "running s \<subseteq> {sv_created s - num_threads..<sv_created s}" by force
  then show "finite (running s)" by (rule finite_subset) simp
  have "card (running s) \<le> card {sv_created s - num_threads..<sv_created s}" by (rule card_mono) (use w in simp_all)
  then show "card (running s) \<le> num_threads" by simp
qed

text \<open>What a thread reads or has served came from \<open>accept\<close>.\<close>

definition fds_from :: "int list \<Rightarrow> 'x server \<Rightarrow> bool" where
  "fds_from backlog s \<longleftrightarrow> set (sv_backlog s) \<subseteq> set backlog \<and> (sv_pc s \<notin> {At_accept, Main_exited} \<or> sv_created s \<noteq> 0 \<longrightarrow> sv_client_fd s \<in> set backlog) \<and>
     (\<forall>t fd. sv_states s t = Thread_serving fd \<longrightarrow> fd \<in> set backlog) \<and> (\<forall>t. sv_states s t = Thread_new \<longrightarrow> sv_created s \<noteq> 0) \<and>
     (\<forall>e\<in>set (sv_served s). snd e \<in> set backlog)"

lemma server_step_fds:
  assumes "server_step exec s s'" and "fds_from backlog s"
  shows "fds_from backlog s'"
  using assms(1)
proof (cases rule: server_step.cases)
  case (sv_accept fd fds)
  with assms(2) show ?thesis by (auto simp: fds_from_def)
next
  case (sv_thread_starts t)
  then have "sv_client_fd s \<in> set backlog" using assms(2) unfolding fds_from_def by blast
  with sv_thread_starts assms(2) show ?thesis by (auto simp: fds_from_def)
qed (use assms(2) in \<open>auto simp: fds_from_def split: if_splits\<close>)

lemma server_steps_fds: "server_steps exec s s' \<Longrightarrow> fds_from backlog s \<Longrightarrow> fds_from backlog s'"
  by (induction rule: server_steps.induct) (iprover intro: server_step_fds)+

text \<open>The service waits only for a connection, unless serving a connection has no result.\<close>

lemma server_progress:
  assumes "server_inv s" and "sv_pc s \<noteq> Main_exited" and "\<forall>t fd. sv_states s t = Thread_serving fd \<longrightarrow> exec fd (sv_world s) \<noteq> None"
    and "sv_backlog s \<noteq> [] \<or> running s \<noteq> {}"
  shows "\<exists>s'. server_step exec s s'"
proof (cases "running s = {}")
  case False
  then obtain t where "sv_states s t = Thread_new \<or> (\<exists>fd. sv_states s t = Thread_serving fd)"
    unfolding running_def is_running_def using thread_state.exhaust by blast
  with assms(2,3) show ?thesis by (blast intro: sv_thread_starts sv_thread_serves)
next
  case True
  show ?thesis
  proof (cases "sv_pc s")
    case At_accept
    from True assms(4) obtain fd fds where "sv_backlog s = fd # fds" by (cases "sv_backlog s") auto
    with At_accept show ?thesis using sv_accept [of s fd fds exec] sv_accept_failed [of s fd fds exec] by (cases "fd \<ge> 0") auto
  next
    case (At_join t)
    with assms(1) have "sv_states s t \<noteq> Thread_absent" by (auto simp: server_inv_def num_threads_def)
    moreover have "\<not> is_running (sv_states s t)" using True by (auto simp: running_def)
    ultimately show ?thesis using sv_join [OF At_join] by (auto simp: is_running_def)
  next
    case At_create
    then show ?thesis by (blast intro: sv_create)
  qed (use assms(2) in simp)
qed

section \<open>Properties\<close>



text \<open>
  C40: A connection can be lost.  Two connections are accepted; the first thread starts to run only after
  the second was accepted and reads its descriptor from the shared variable.  Then both threads serve the
  second connection, the first is never served, and the service waits for the next one.
\<close>

theorem connection_can_be_lost:
  assumes "main_start uninit server_fd b so l [fd1, fd2] x = Some s0" and "fd1 \<ge> 0" and "fd2 \<ge> 0"
    and "exec fd2 x = Some y" and "exec fd2 y = Some z"
  shows "\<exists>s. server_steps exec s0 s \<and> sv_served s = [(0, fd2), (1, fd2)] \<and> sv_backlog s = [] \<and> running s = {} \<and> sv_world s = z \<and> sv_pc s = At_accept"
proof -
  have s0: "s0 = \<lparr>sv_backlog = [fd1, fd2], sv_client_fd = uninit, sv_threads = (\<lambda>_. None), sv_index = 0, sv_pc = At_accept,
      sv_states = (\<lambda>_. Thread_absent), sv_created = 0, sv_served = [], sv_world = x\<rparr>"
    using assms(1) by (auto simp: main_start_def c_assert_def split: if_splits)
  define s1 where "s1 = s0\<lparr>sv_backlog := [fd2], sv_client_fd := fd1, sv_pc := At_create\<rparr>"
  define s2 where "s2 = s1\<lparr>sv_threads := (sv_threads s1)(0 \<mapsto> 0), sv_states := (sv_states s1)(0 := Thread_new), sv_created := 1, sv_index := 1, sv_pc := At_accept\<rparr>"
  define s3 where "s3 = s2\<lparr>sv_backlog := [], sv_client_fd := fd2, sv_pc := At_create\<rparr>"
  define s4 where "s4 = s3\<lparr>sv_states := (sv_states s3)(0 := Thread_serving fd2)\<rparr>"
  define s5 where "s5 = s4\<lparr>sv_threads := (sv_threads s4)(1 \<mapsto> 1), sv_states := (sv_states s4)(1 := Thread_new), sv_created := 2, sv_index := 2, sv_pc := At_accept\<rparr>"
  define s6 where "s6 = s5\<lparr>sv_states := (sv_states s5)(1 := Thread_serving fd2)\<rparr>"
  define s7 where "s7 = s6\<lparr>sv_states := (sv_states s6)(0 := Thread_done), sv_served := [(0, fd2)], sv_world := y\<rparr>"
  define s8 where "s8 = s7\<lparr>sv_states := (sv_states s7)(1 := Thread_done), sv_served := [(0, fd2), (1, fd2)], sv_world := z\<rparr>"
  note d = s0 s1_def s2_def s3_def s4_def s5_def s6_def s7_def s8_def num_threads_def
  have "server_step exec s0 s1" using sv_accept [of s0 fd1 "[fd2]" exec] assms(2) by (simp add: d)
  note r = sv_next [OF sv_refl this]
  have "server_step exec s1 s2" using sv_create [of s1 0 exec] by (simp add: d)
  note r = sv_next [OF r this]
  have "server_step exec s2 s3" using sv_accept [of s2 fd2 "[]" exec] assms(3) by (simp add: d)
  note r = sv_next [OF r this]
  have "server_step exec s3 s4" using sv_thread_starts [of s3 0 exec] by (simp add: d)
  note r = sv_next [OF r this]
  have "server_step exec s4 s5" using sv_create [of s4 1 exec] by (simp add: d numeral_2_eq_2)
  note r = sv_next [OF r this]
  have "server_step exec s5 s6" using sv_thread_starts [of s5 1 exec] by (simp add: d)
  note r = sv_next [OF r this]
  have "server_step exec s6 s7" using sv_thread_serves [of s6 0 fd2 exec y] assms(4) by (simp add: d)
  note r = sv_next [OF r this]
  have "server_step exec s7 s8" using sv_thread_serves [of s7 1 fd2 exec z] assms(5) by (simp add: d)
  note r = sv_next [OF r this]
  moreover have "running s8 = {}" by (auto simp: d running_def is_running_def)
  ultimately show ?thesis by (intro exI [of _ s8]) (simp add: d)
qed

lemma serve_sample:
  "serve_fd crossdock_sample (\<lambda>_. CHR 0x00) (\<lambda>_. CHR 0x00) blank_request (\<lambda>_. Some ''GET /start_trace '') fd (conns, w, m) =
     Some (conns(fd := \<lparr>cn_out = cn_out (conns fd) @ ''HTTP/1.1 400 Bad Request'' @ crlf @ crlf, cn_closes = Suc (cn_closes (conns fd))\<rparr>), w, m)"
proof -
  have r: "c_str (''GET /start_trace '' @ [CHR 0x00, CHR 0x00]) = ''GET /start_trace ''" by code_simp
  have p: "scan_path ''GET /start_trace '' = Some (Some ''/start_trace'')" by code_simp
  have b: "strstr ''GET /start_trace '' (crlf @ crlf) = None" by code_simp
  have f: "fmt_d 400 = ''400''" by code_simp
  have "respond crossdock_sample 64 400 cn = Some \<lparr>cn_out = cn_out cn @ ''HTTP/1.1 400 Bad Request'' @ crlf @ crlf, cn_closes = Suc (cn_closes cn)\<rparr>" for cn :: connection
    using f by (cases cn) (simp add: respond_def http_status_line_def crossdock_sample_def close_connection_def c_assert_def crlf_def)
  with r p b show ?thesis by (simp add: serve_fd_def serve_def handle_request_def request_body_def c_assert_def HTTP_STATUS_BAD_REQUEST_def)
qed

theorem connection_can_be_lost_witness:
  "\<exists>s0 s. main_start 0 3 0 0 0 [7, 8] ((\<lambda>_. \<lparr>cn_out = [], cn_closes = 0\<rparr>), (), mem_one) = Some s0 \<and>
     server_steps (serve_fd crossdock_sample (\<lambda>_. CHR 0x00) (\<lambda>_. CHR 0x00) blank_request (\<lambda>_. Some ''GET /start_trace '')) s0 s \<and>
     sv_served s = [(0, 8), (1, 8)] \<and> fst (sv_world s) 7 = \<lparr>cn_out = [], cn_closes = 0\<rparr>"
proof -
  let ?x = "((\<lambda>_. \<lparr>cn_out = [], cn_closes = 0\<rparr>), (), mem_one) :: (int \<Rightarrow> connection) \<times> unit \<times> mem"
  let ?exec = "serve_fd crossdock_sample (\<lambda>_. CHR 0x00) (\<lambda>_. CHR 0x00) blank_request (\<lambda>_. Some ''GET /start_trace '')"
  obtain s0 where s0: "main_start 0 3 0 0 0 [7, 8] ?x = Some s0" by (simp add: main_start_def c_assert_def)
  obtain y where y: "?exec 8 ?x = Some y" "fst y 7 = \<lparr>cn_out = [], cn_closes = 0\<rparr>" by (simp add: serve_sample)
  obtain z where z: "?exec 8 y = Some z" "fst z 7 = fst y 7" by (cases y) (simp add: serve_sample)
  from connection_can_be_lost [of 0 3 0 0 0 7 8 ?x s0 ?exec y z, OF s0 _ _ y(1) z(1)] s0 y(2) z(2) show ?thesis by auto
qed

end
