(* ===== verification/Mock_Agent.thy ===== *)
theory Mock_Agent
  imports Remote_Sampler
begin

text \<open>
  The mock agent of the tests: \<open>src/jaegertracingc/mock_agent.h\<close>.

  A server that answers requests for sampling strategies with responses set beforehand.  Its assertions are
  those of the test framework, which ends the test; they are modelled like \<open>assert\<close>.  The HTTP parser, the
  parser of URLs and the formatting of the test's JSON are members of \<open>mock_env\<close>.
\<close>

section \<open>The server\<close>

definition MOCK_HTTP_MAX_URL :: nat where
  "MOCK_HTTP_MAX_URL = 256"

record mock_http_response =
  mr_service_name :: "cstring option"
  mr_json_format :: "cstring option"
  mr_arg_value :: real

record mock_http_server =
  ms_server_fd :: int
  ms_client_fd :: int
  ms_thread :: bool
  ms_mutex :: jaeger_mutex
  ms_url :: string
  ms_responses :: "mock_http_response jaeger_vector"
  ms_running :: bool

text \<open>
  \<open>ma_execute\<close>: how much of the request the parser consumes and the pieces with which it calls \<open>on_url\<close>.
  \<open>ma_query\<close>: \<open>None\<close> if the URL is malformed, \<open>Some None\<close> if it has no query.  \<open>ma_format\<close>: the format of the
  response applied to its argument.
\<close>

record mock_env =
  ma_execute :: "string \<Rightarrow> nat \<times> string list"
  ma_query :: "string \<Rightarrow> string option option"
  ma_format :: "string \<Rightarrow> real \<Rightarrow> string"

definition mock_http_server_on_url :: "mock_http_server \<Rightarrow> string \<Rightarrow> mock_http_server option" where
  "mock_http_server_on_url server piece = do {
     c_assert (length (ms_url server) + length piece \<le> MOCK_HTTP_MAX_URL);
     Some (server\<lparr>ms_url := ms_url server @ piece\<rparr>)
   }"

fun url_callbacks :: "mock_http_server \<Rightarrow> string list \<Rightarrow> mock_http_server option" where
  "url_callbacks server [] = Some server"
| "url_callbacks server (piece # pieces) = do {
     server \<leftarrow> mock_http_server_on_url server piece;
     url_callbacks server pieces
   }"

text \<open>
  The argument lists what the calls of \<open>read\<close> deliver, \<open>None\<close> for an error; at the end of the list the read
  waits.  Every read goes to the start of the buffer.
\<close>

fun read_client_request :: "string option list \<Rightarrow> string \<Rightarrow> nat \<Rightarrow> (bool \<times> string \<times> nat \<times> string option list) option" where
  "read_client_request [] buffer buffer_len = None"
| "read_client_request (None # reads) buffer buffer_len = Some (False, buffer, buffer_len, reads)"
| "read_client_request (Some data # reads) buffer buffer_len =
     (if data = [] then Some (True, buffer, buffer_len, reads)
      else do {
        c_assert (buffer_len \<le> JAEGERTRACINGC_HTTP_SAMPLING_MANAGER_REQUEST_MAX_LEN);
        c_assert (buffer_len + length data \<le> JAEGERTRACINGC_HTTP_SAMPLING_MANAGER_REQUEST_MAX_LEN);
        let buffer = data @ drop (length data) buffer;
        let buffer_len = buffer_len + length data;
        if buffer_len \<ge> 4 \<and> take 4 (drop (buffer_len - 4) buffer) = CRLF @ CRLF
        then Some (True, buffer, buffer_len, reads)
        else read_client_request reads buffer buffer_len
      })"

text \<open>The loop over the responses: the first whose service is the one of the query.\<close>

fun find_response :: "mock_http_response list \<Rightarrow> string \<Rightarrow> mock_http_response option option" where
  "find_response [] query = Some None"
| "find_response (existing # rest) query = do {
     service_name \<leftarrow> mr_service_name existing;
     if ''service='' @ snd service_name = query then Some (Some existing)
     else find_response rest query
   }"

definition http_response_text :: "string \<Rightarrow> string" where
  "http_response_text body = ''HTTP/1.1 200 OK'' @ CRLF @ ''Content-Type: application/json'' @ CRLF @
     ''Content-Length: '' @ dec_of_nat (length body) @ CRLF @ CRLF @ body"

text \<open>The length of the format, in which \<open>%zu\<close> and \<open>%s\<close> stand for the number and the body.\<close>

definition http_response_format_len :: nat where
  "http_response_format_len = length (''HTTP/1.1 200 OK'' @ CRLF @ ''Content-Type: application/json'' @ CRLF @
     ''Content-Length: %zu'' @ CRLF @ CRLF @ ''%s'')"

text \<open>One round of the loop: whether the loop goes on, the server, what is written, the reads to come.\<close>

definition mock_http_server_answer ::
  "mock_env \<Rightarrow> mock_http_server \<Rightarrow> string option list \<Rightarrow> (bool \<times> mock_http_server \<times> string \<times> string option list) option" where
  "mock_http_server_answer env server reads = do {
     let server = server\<lparr>ms_url := []\<rparr>;
     (ok, buffer, buffer_len, reads) \<leftarrow>
       read_client_request reads (replicate JAEGERTRACINGC_HTTP_SAMPLING_MANAGER_REQUEST_MAX_LEN (CHR 0x00)) 0;
     if \<not> ok \<or> buffer_len = 0 then Some (False, server, [], reads)
     else do {
       let (parsed_len, pieces) = ma_execute env (take buffer_len buffer);
       server \<leftarrow> url_callbacks server pieces;
       c_assert (buffer_len = parsed_len);
       query \<leftarrow> ma_query env (ms_url server);
       query \<leftarrow> query;
       (_, mutex) \<leftarrow> jaeger_mutex_lock (ms_mutex server);
       response \<leftarrow> find_response (vec_list (ms_responses server)) query;
       c_assert (response \<noteq> None);
       response \<leftarrow> response;
       json_format \<leftarrow> mr_json_format response;
       let strategy_response = ma_format env (snd json_format) (mr_arg_value response);
       c_assert (length strategy_response < length (snd json_format) + 10);
       let http_response = http_response_text strategy_response;
       c_assert (length http_response \<le> length strategy_response + http_response_format_len + 10);
       (_, mutex) \<leftarrow> jaeger_mutex_unlock mutex;
       Some (True, server\<lparr>ms_mutex := mutex\<rparr>, http_response, reads)
     }
   }"

lemma read_client_request_shorter: "read_client_request reads buffer n = Some (ok, buffer', n', reads') \<Longrightarrow> length reads' < length reads"
  by (induction reads buffer n rule: read_client_request.induct) (auto simp: Let_def split: if_splits bind_splits intro: less_SucI)

lemma answer_shorter: "mock_http_server_answer env server reads = Some (go, server', out, reads') \<Longrightarrow> length reads' < length reads"
  by (auto simp: mock_http_server_answer_def Let_def bind_eq_Some_conv split: if_splits prod.splits dest: read_client_request_shorter)

text \<open>The thread: it accepts one connection, then answers until a read fails or the client has closed.\<close>

function answer_loop :: "mock_env \<Rightarrow> mock_http_server \<Rightarrow> string option list \<Rightarrow> string \<Rightarrow> (mock_http_server \<times> string) option" where
  "answer_loop env server reads out = do {
     (go, server, response, reads) \<leftarrow> mock_http_server_answer env server reads;
     if go then answer_loop env server reads (out @ response) else Some (server, out)
   }"
  by pat_completeness auto
termination
  by (relation "measure (\<lambda>(_, _, reads, _). length reads)") (auto dest: answer_shorter)

definition mock_http_server_run_loop ::
  "mock_env \<Rightarrow> int \<Rightarrow> mock_http_server \<Rightarrow> string option list \<Rightarrow> (mock_http_server \<times> string) option" where
  "mock_http_server_run_loop env client_fd server reads = do {
     let server = server\<lparr>ms_client_fd := - 1\<rparr>;
     (_, mutex) \<leftarrow> jaeger_mutex_lock (ms_mutex server);
     let server = server\<lparr>ms_running := True\<rparr>;
     (_, mutex) \<leftarrow> jaeger_mutex_unlock mutex;
     c_assert (0 \<le> client_fd);
     (_, mutex) \<leftarrow> jaeger_mutex_lock mutex;
     let server = server\<lparr>ms_client_fd := client_fd\<rparr>;
     (_, mutex) \<leftarrow> jaeger_mutex_unlock mutex;
     answer_loop env (server\<lparr>ms_mutex := mutex\<rparr>) reads []
   }"

section \<open>The responses\<close>

definition mock_http_response_destroy :: "mock_http_response \<Rightarrow> mem \<Rightarrow> (mock_http_response \<times> mem) option" where
  "mock_http_response_destroy response m = do {
     c_assert (mr_service_name response \<noteq> None);
     c_assert (mr_json_format response \<noteq> None);
     m \<leftarrow> jaeger_free (map_option fst (mr_service_name response)) m;
     let response = response\<lparr>mr_service_name := None\<rparr>;
     m \<leftarrow> jaeger_free (map_option fst (mr_json_format response)) m;
     Some (response\<lparr>mr_json_format := None, mr_arg_value := 0\<rparr>, m)
   }"

definition mock_http_response_copy :: "mock_http_response \<Rightarrow> mem \<Rightarrow> (mock_http_response \<times> mem) option" where
  "mock_http_response_copy src m = do {
     (service_name, m) \<leftarrow> jaeger_strdup (map_option snd (mr_service_name src)) m;
     c_assert (service_name \<noteq> None);
     (json_format, m) \<leftarrow> jaeger_strdup (map_option snd (mr_json_format src)) m;
     c_assert (json_format \<noteq> None);
     Some (\<lparr>mr_service_name = service_name, mr_json_format = json_format, mr_arg_value = mr_arg_value src\<rparr>, m)
   }"

text \<open>
  The loop of \<open>mock_http_server_set_response\<close> over the \<open>n\<close> elements from \<open>i\<close> on; \<open>found\<close> is \<open>response_copy\<close>.  It
  goes on after an element was found.
\<close>

fun destroy_matching ::
  "string \<Rightarrow> nat \<Rightarrow> nat \<Rightarrow> mock_http_response jaeger_vector \<Rightarrow> nat option \<Rightarrow> mem \<Rightarrow>
   (mock_http_response jaeger_vector \<times> nat option \<times> mem) option" where
  "destroy_matching service_name i 0 responses found m = Some (responses, found, m)"
| "destroy_matching service_name i (Suc n) responses found m = do {
     p \<leftarrow> jaeger_vector_offset responses (int i);
     existing \<leftarrow> vec_read responses p;
     existing_name \<leftarrow> mr_service_name existing;
     if snd existing_name = service_name then do {
       (existing, m) \<leftarrow> mock_http_response_destroy existing m;
       responses \<leftarrow> vec_write responses p existing;
       destroy_matching service_name (Suc i) n responses p m
     }
     else destroy_matching service_name (Suc i) n responses found m
   }"

definition mock_http_server_set_response ::
  "mock_http_response \<Rightarrow> mock_http_server \<Rightarrow> mock_http_response \<Rightarrow> mem \<Rightarrow> (mock_http_server \<times> mem) option" where
  "mock_http_server_set_response z server response m = do {
     service_name \<leftarrow> mr_service_name response;
     c_assert (mr_json_format response \<noteq> None);
     (_, mutex) \<leftarrow> jaeger_mutex_lock (ms_mutex server);
     let responses = ms_responses server;
     (responses, found, m) \<leftarrow> destroy_matching (snd service_name) 0 (nat (jaeger_vector_length responses)) responses None m;
     (slot, responses, m) \<leftarrow>
       (case found of None \<Rightarrow> jaeger_vector_append z responses m | Some i \<Rightarrow> Some (Some i, responses, m));
     c_assert (slot \<noteq> None);
     (copy, m) \<leftarrow> mock_http_response_copy response m;
     responses \<leftarrow> vec_write responses slot copy;
     (_, mutex) \<leftarrow> jaeger_mutex_unlock mutex;
     Some (server\<lparr>ms_responses := responses, ms_mutex := mutex\<rparr>, m)
   }"

definition SIZEOF_MOCK_HTTP_RESPONSE :: int where
  "SIZEOF_MOCK_HTTP_RESPONSE = 24"

text \<open>
  Starting and destroying the server.  \<open>server_fd\<close> is what \<open>socket\<close> returns; binding, listening and starting the
  thread are assumed to succeed, which the code asserts.
\<close>

definition mock_http_server_start ::
  "mock_http_response \<Rightarrow> int \<Rightarrow> mock_http_server \<Rightarrow> mem \<Rightarrow> (mock_http_server \<times> mem) option" where
  "mock_http_server_start z server_fd server m = do {
     (ok, responses, m) \<leftarrow> jaeger_vector_init z SIZEOF_MOCK_HTTP_RESPONSE (ms_responses server) m;
     c_assert ok;
     c_assert (0 \<le> server_fd);
     Some (server\<lparr>ms_responses := responses, ms_server_fd := server_fd, ms_thread := True, ms_running := True\<rparr>, m)
   }"

definition mock_http_server_destroy :: "mock_http_server \<Rightarrow> mem \<Rightarrow> (mock_http_server \<times> mem) option" where
  "mock_http_server_destroy server m = do {
     (_, mutex) \<leftarrow> jaeger_mutex_lock (ms_mutex server);
     let server = (if ms_client_fd server > - 1 then server\<lparr>ms_client_fd := - 1\<rparr> else server);
     let server = (if ms_server_fd server > - 1 then server\<lparr>ms_server_fd := - 1\<rparr> else server);
     let server = (if ms_thread server then server\<lparr>ms_running := False, ms_thread := False\<rparr> else server);
     (_, mutex) \<leftarrow> jaeger_mutex_unlock mutex;
     let (_, mutex) = jaeger_mutex_destroy mutex;
     m \<leftarrow> vector_for_each_destroy mock_http_response_destroy (vec_list (ms_responses server)) m;
     (responses, m) \<leftarrow> jaeger_vector_destroy (ms_responses server) m;
     Some (server\<lparr>ms_responses := responses, ms_mutex := mutex\<rparr>, m)
   }"

section \<open>The responses as a map\<close>

definition resp_key :: "mock_http_response \<Rightarrow> string" where
  "resp_key r = snd (the (mr_service_name r))"

definition resp_entry :: "mock_http_response \<Rightarrow> string \<times> real" where
  "resp_entry r = (snd (the (mr_json_format r)), mr_arg_value r)"

definition resp_complete :: "mock_http_response \<Rightarrow> bool" where
  "resp_complete r \<longleftrightarrow> mr_service_name r \<noteq> None \<and> mr_json_format r \<noteq> None"

definition resp_ptrs :: "mock_http_response \<Rightarrow> ptr list" where
  "resp_ptrs r = cs_ptrs (mr_service_name r) @ cs_ptrs (mr_json_format r)"

definition resp_map :: "mock_http_response list \<Rightarrow> string \<rightharpoonup> string \<times> real" where
  "resp_map rs = map_of (map (\<lambda>r. (resp_key r, resp_entry r)) rs)"

definition responses_ok :: "mock_http_response list \<Rightarrow> bool" where
  "responses_ok rs \<longleftrightarrow> (\<forall>r\<in>set rs. resp_complete r) \<and> distinct (map resp_key rs)"

definition mock_ptrs :: "mock_http_server \<Rightarrow> ptr list" where
  "mock_ptrs server = vec_ptrs (ms_responses server) @ concat (map resp_ptrs (vec_list (ms_responses server)))"

text \<open>The server between calls: its responses are complete, one per service, and its mutex is free.\<close>

definition mock_ok :: "mock_http_server \<Rightarrow> bool" where
  "mock_ok server \<longleftrightarrow> vec_ok (ms_responses server) \<and> responses_ok (vec_list (ms_responses server)) \<and> \<not> locked (ms_mutex server)"

lemma response_destroy:
  assumes "mem_ok m" and "resp_complete r" and "owns m (resp_ptrs r)"
  shows "\<exists>r' m'. mock_http_response_destroy r m = Some (r', m') \<and> mem_trans (set (resp_ptrs r)) {} m m'"
proof -
  obtain a b where r: "mr_service_name r = Some a" "mr_json_format r = Some b" using assms(2) by (auto simp: resp_complete_def)
  with assms(3) have "owns m [fst a, fst b]" by (simp add: resp_ptrs_def)
  from free_two [OF assms(1) this] obtain m1 m2 where
    "jaeger_free (Some (fst a)) m = Some m1" "jaeger_free (Some (fst b)) m1 = Some m2" "mem_trans (set [fst a, fst b]) {} m m2" by blast
  with r show ?thesis by (simp add: mock_http_response_destroy_def resp_ptrs_def c_assert_def)
qed

interpretation mock_response: element_destroy mock_http_response_destroy resp_ptrs resp_complete
  by unfold_locales (rule response_destroy)

lemma response_copy:
  assumes "mem_ok m" and "mem_plenty m" and "resp_complete src"
  shows "\<exists>r m'. mock_http_response_copy src m = Some (r, m') \<and> resp_complete r \<and> resp_key r = resp_key src \<and> resp_entry r = resp_entry src \<and>
    fresh_list (resp_ptrs r) m m'"
proof -
  obtain a b where r: "mr_service_name src = Some a" "mr_json_format src = Some b" using assms(3) by (auto simp: resp_complete_def)
  obtain p m1 where p: "jaeger_strdup (Some (snd a)) m = Some (Some p, m1)" "snd p = snd a" "fresh_list [fst p] m m1"
    by (rule strdup_good [OF assms(1,2)])
  obtain q m2 where q: "jaeger_strdup (Some (snd b)) m1 = Some (Some q, m2)" "snd q = snd b" "fresh_list [fst q] m1 m2"
    by (rule strdup_good [of m1]) (use fresh_listD(1,3) [OF p(3)] assms(2) in auto)
  from fresh_list_append [OF p(3) q(3) assms(1)] p q r show ?thesis
    by (simp add: mock_http_response_copy_def resp_complete_def resp_key_def resp_entry_def resp_ptrs_def c_assert_def)
qed

text \<open>The loop: nothing happens at elements with other names, and the element with the name is destroyed.\<close>

lemma offset_at: "vec_ok v \<Longrightarrow> jaeger_vector_offset v (int i) = Some (Some i)"
  by (auto simp: jaeger_vector_offset_def elim!: vec_okE)

lemma no_match:
  assumes "vec_ok v" and "i + n = length (vec_list v)" and "\<forall>k. i \<le> k \<and> k < i + n \<longrightarrow> resp_complete (vec_list v ! k) \<and> resp_key (vec_list v ! k) \<noteq> name"
  shows "destroy_matching name i n v found m = Some (v, found, m)"
  using assms(2,3)
proof (induction n arbitrary: i)
  case (Suc n)
  have i: "i < length (vec_list v)" "resp_complete (vec_list v ! i)" "resp_key (vec_list v ! i) \<noteq> name" using Suc.prems by auto
  moreover have "destroy_matching name (Suc i) n v found m = Some (v, found, m)" using Suc.prems by (intro Suc.IH) auto
  ultimately show ?case using offset_at [OF assms(1)] vec_read_at [OF assms(1) i(1)] by (auto simp: resp_complete_def resp_key_def)
qed simp

lemma one_match:
  assumes "vec_ok v" and "i + n = length (vec_list v)" and "i \<le> j" and "j < i + n" and "resp_key (vec_list v ! j) = name"
    and "responses_ok (vec_list v)" and "mem_ok m" and "owns m (resp_ptrs (vec_list v ! j))"
  shows "\<exists>v' r m'. destroy_matching name i n v found m = Some (v', Some j, m') \<and> vec_ok v' \<and> vec_list v' = (vec_list v)[j := r] \<and>
    vec_ptrs v' = vec_ptrs v \<and> mem_trans (set (resp_ptrs (vec_list v ! j))) {} m m'"
  using assms(2-4)
proof (induction n arbitrary: i found)
  case (Suc n)
  have i: "i < length (vec_list v)" using Suc.prems by simp
  have c: "k < length (vec_list v) \<Longrightarrow> resp_complete (vec_list v ! k)" for k using assms(6) by (simp add: responses_ok_def)
  have inj: "k < length (vec_list v) \<Longrightarrow> resp_key (vec_list v ! k) = name \<Longrightarrow> k = j" for k
    using assms(5,6) Suc.prems nth_eq_iff_index_eq [of "map resp_key (vec_list v)" k j] by (auto simp: responses_ok_def)
  obtain e where e: "mr_service_name (vec_list v ! i) = Some e" using c [OF i] by (auto simp: resp_complete_def)
  show ?case
  proof (cases "i = j")
    case True
    from response_destroy [OF assms(7) c [OF i] assms(8) [folded True]] obtain r m' where
      d: "mock_http_response_destroy (vec_list v ! i) m = Some (r, m')" "mem_trans (set (resp_ptrs (vec_list v ! i))) {} m m'" by blast
    from vec_write_at [OF assms(1) i, of r] obtain w where
      w: "vec_write v (Some i) r = Some w" "vec_ok w" "vec_ptrs w = vec_ptrs v" "vec_list w = (vec_list v)[i := r]" by blast
    have "destroy_matching name (Suc i) n w (Some i) m' = Some (w, Some i, m')"
    proof (rule no_match [OF w(2)])
      show "Suc i + n = length (vec_list w)" using Suc.prems w(4) by simp
      show "\<forall>k. Suc i \<le> k \<and> k < Suc i + n \<longrightarrow> resp_complete (vec_list w ! k) \<and> resp_key (vec_list w ! k) \<noteq> name"
        using Suc.prems w(4) c inj True by auto
    qed
    with True e d w offset_at [OF assms(1)] vec_read_at [OF assms(1) i] assms(5) show ?thesis by (auto simp: resp_key_def)
  next
    case False
    with e offset_at [OF assms(1)] vec_read_at [OF assms(1) i] inj [OF i] Suc.IH [of "Suc i" found] Suc.prems show ?thesis
      by (auto simp: resp_key_def)
  qed
qed simp

lemma map_of_replace:
  assumes "distinct (map fst ps)" and "j < length ps" and "fst (ps ! j) = k"
  shows "map_of (ps[j := (k, e)]) = (map_of ps)(k \<mapsto> e)"
proof -
  have d: "ps = take j ps @ (k, snd (ps ! j)) # drop (Suc j) ps" using id_take_nth_drop [OF assms(2)] assms(3) by (metis prod.collapse)
  have "distinct (map fst (take j ps @ (k, snd (ps ! j)) # drop (Suc j) ps))" using assms(1) d by simp
  then have "map_of (take j ps) k = None" by (auto simp: map_of_eq_None_iff)
  moreover have "ps[j := (k, e)] = take j ps @ (k, e) # drop (Suc j) ps" using assms(2) by (rule upd_conv_take_nth_drop)
  moreover have "map_of ps = map_of (take j ps @ (k, snd (ps ! j)) # drop (Suc j) ps)" using d by simp
  ultimately show ?thesis by (auto simp: fun_eq_iff map_add_def split: option.split)
qed

lemma resp_map_replace:
  assumes "responses_ok rs" and "j < length rs" and "resp_key (rs ! j) = resp_key r" and "resp_complete r"
  shows "resp_map (rs[j := r]) = (resp_map rs)(resp_key r \<mapsto> resp_entry r)" and "responses_ok (rs[j := r])"
proof -
  let ?p = "\<lambda>r. (resp_key r, resp_entry r)"
  have "distinct (map fst (map ?p rs))" using assms(1) by (simp add: responses_ok_def comp_def)
  from map_of_replace [OF this, of j "resp_key r" "resp_entry r"] assms(2,3)
  show "resp_map (rs[j := r]) = (resp_map rs)(resp_key r \<mapsto> resp_entry r)" by (simp add: resp_map_def map_update)
  have "map resp_key (rs[j := r]) = map resp_key rs" using assms(2,3) by (simp add: map_update list_update_same_conv)
  with assms(1,4) show "responses_ok (rs[j := r])" by (auto simp: responses_ok_def dest: set_update_subset_insert [THEN subsetD])
qed

lemma resp_map_append:
  assumes "responses_ok rs" and "resp_key r \<notin> resp_key ` set rs" and "resp_complete r"
  shows "resp_map (rs @ [r]) = (resp_map rs)(resp_key r \<mapsto> resp_entry r)" and "responses_ok (rs @ [r])"
proof -
  have "resp_map rs (resp_key r) = None" using assms(2) by (auto simp: resp_map_def map_of_eq_None_iff)
  then show "resp_map (rs @ [r]) = (resp_map rs)(resp_key r \<mapsto> resp_entry r)"
    by (auto simp: resp_map_def fun_eq_iff map_add_def split: option.split)
  show "responses_ok (rs @ [r])" using assms by (auto simp: responses_ok_def)
qed

text \<open>One element's blocks are replaced by the blocks of its successor.\<close>

lemma replace_blocks:
  assumes "mem_ok m" and "owns m (vs @ concat (map resp_ptrs rs))" and "j < length rs"
    and "mem_trans (set (resp_ptrs (rs ! j))) {} m m1" and "fresh_list (resp_ptrs r) m1 m2"
  shows "mem_trans (set (vs @ concat (map resp_ptrs rs))) (set (vs @ concat (map resp_ptrs (rs[j := r])))) m m2"
proof -
  let ?R = "set vs \<union> set (concat (map resp_ptrs (take j rs))) \<union> set (concat (map resp_ptrs (drop (Suc j) rs)))"
  have d: "concat (map resp_ptrs rs) = concat (map resp_ptrs (take j rs)) @ resp_ptrs (rs ! j) @ concat (map resp_ptrs (drop (Suc j) rs))"
    by (subst id_take_nth_drop [OF assms(3)]) simp
  have R: "?R \<subseteq> dom (mem_blocks m)" "?R \<inter> set (resp_ptrs (rs ! j)) = {}" using assms(2) unfolding d by (auto simp: owns_def)
  have "mem_trans (set (resp_ptrs (rs ! j)) \<union> ?R) ?R m m1" using mem_trans_frame [OF assms(4) R] by simp
  moreover have "?R \<subseteq> dom (mem_blocks m1)" using R mem_trans_dom [OF assms(4)] by auto
  then have "mem_trans ?R (set (resp_ptrs r) \<union> ?R) m1 m2" using mem_trans_frame [OF fresh_listD(4) [OF assms(5)], of ?R] by simp
  ultimately have "mem_trans (set (resp_ptrs (rs ! j)) \<union> ?R) (set (resp_ptrs r) \<union> ?R) m m2" using mem_trans_trans assms(1) by blast
  moreover have "set (vs @ concat (map resp_ptrs rs)) = set (resp_ptrs (rs ! j)) \<union> ?R" unfolding d by auto
  moreover have "set (vs @ concat (map resp_ptrs (rs[j := r]))) = set (resp_ptrs r) \<union> ?R" using assms(3) by (auto simp: upd_conv_take_nth_drop)
  ultimately show ?thesis by simp
qed

text \<open>The vector grows by an element whose blocks are new.\<close>

lemma append_blocks:
  assumes "mem_ok m" and "owns m (vs @ ps)" and "mem_trans (set vs) (set ws) m m1" and "fresh_list qs m1 m2"
  shows "mem_trans (set (vs @ ps)) (set (ws @ ps @ qs)) m m2"
proof -
  have R: "set ps \<subseteq> dom (mem_blocks m)" "set ps \<inter> set vs = {}" using assms(2) by (auto simp: owns_def)
  have 1: "mem_trans (set vs \<union> set ps) (set ws \<union> set ps) m m1" by (rule mem_trans_frame [OF assms(3) R])
  have "set ws \<union> set ps \<subseteq> dom (mem_blocks m1)" using mem_trans_dom [OF 1] by auto
  then have "mem_trans (set ws \<union> set ps) (set qs \<union> (set ws \<union> set ps)) m1 m2"
    using mem_trans_frame [OF fresh_listD(4) [OF assms(4)], of "set ws \<union> set ps"] by simp
  from mem_trans_trans [OF 1 this assms(1)] show ?thesis by (simp add: ac_simps)
qed

text \<open>
  After the loop and the choice of the slot: writing a complete response of the service with new blocks to the
  slot gives the updated map.
\<close>

definition slot_ready ::
  "string \<Rightarrow> mock_http_response jaeger_vector \<Rightarrow> mem \<Rightarrow> nat \<Rightarrow> mock_http_response jaeger_vector \<Rightarrow> mem \<Rightarrow> bool" where
  "slot_ready name v m slot v' m1 \<longleftrightarrow> mem_ok m1 \<and> mem_plenty m1 \<and>
     (\<forall>c m2. resp_complete c \<longrightarrow> resp_key c = name \<longrightarrow> fresh_list (resp_ptrs c) m1 m2 \<longrightarrow>
       (\<exists>w. vec_write v' (Some slot) c = Some w \<and> vec_ok w \<and> responses_ok (vec_list w) \<and>
          resp_map (vec_list w) = (resp_map (vec_list v))(name \<mapsto> resp_entry c) \<and>
          mem_trans (set (vec_ptrs v @ concat (map resp_ptrs (vec_list v)))) (set (vec_ptrs w @ concat (map resp_ptrs (vec_list w)))) m m2))"

lemma owns_element: "owns m (concat (map f xs)) \<Longrightarrow> x \<in> set xs \<Longrightarrow> owns m (f x)"
  by (auto simp: owns_def dest!: split_list)

lemma slot_existing:
  assumes "vec_ok v" and "responses_ok (vec_list v)" and "mem_ok m" and "mem_plenty m" and "owns m (vec_ptrs v @ concat (map resp_ptrs (vec_list v)))"
    and "name \<in> resp_key ` set (vec_list v)"
  shows "\<exists>j v' m1. destroy_matching name 0 (length (vec_list v)) v None m = Some (v', Some j, m1) \<and> slot_ready name v m j v' m1"
proof -
  let ?rs = "vec_list v"
  from assms(6) obtain j where j: "j < length ?rs" "resp_key (?rs ! j) = name" by (auto simp: in_set_conv_nth)
  have "owns m (resp_ptrs (?rs ! j))" using owns_element [OF _ nth_mem [OF j(1)]] assms(5) by (auto simp: owns_append)
  from one_match [OF assms(1) _ _ _ j(2) assms(2,3) this, of 0 "length ?rs" None] j(1) obtain v' r m1 where
    d: "destroy_matching name 0 (length ?rs) v None m = Some (v', Some j, m1)"
    "vec_ok v'" "vec_list v' = ?rs[j := r]" "vec_ptrs v' = vec_ptrs v" "mem_trans (set (resp_ptrs (?rs ! j))) {} m m1" by auto
  have "\<exists>w. vec_write v' (Some j) c = Some w \<and> vec_ok w \<and> responses_ok (vec_list w) \<and>
      resp_map (vec_list w) = (resp_map ?rs)(name \<mapsto> resp_entry c) \<and>
      mem_trans (set (vec_ptrs v @ concat (map resp_ptrs ?rs))) (set (vec_ptrs w @ concat (map resp_ptrs (vec_list w)))) m m2"
    if c: "resp_complete c" "resp_key c = name" "fresh_list (resp_ptrs c) m1 m2" for c m2
  proof -
    from vec_write_at [OF d(2), of j c] d(3) j(1) obtain w where
      w: "vec_write v' (Some j) c = Some w" "vec_ok w" "vec_ptrs w = vec_ptrs v'" "vec_list w = ?rs[j := c]" by auto
    with resp_map_replace [OF assms(2) j(1), of c] replace_blocks [OF assms(3,5) j(1) d(5) c(3)] j(2) c d(4) show ?thesis by simp
  qed
  with d(1) mem_trans_ok [OF d(5)] mem_plenty_trans [OF d(5)] assms(4) show ?thesis unfolding slot_ready_def by blast
qed

lemma slot_new:
  assumes "vec_ok v" and "responses_ok (vec_list v)" and "mem_ok m" and "mem_plenty m" and "owns m (vec_ptrs v @ concat (map resp_ptrs (vec_list v)))"
    and "name \<notin> resp_key ` set (vec_list v)" and "vec_room v (vec_capacity v + 1)"
  shows "\<exists>j v' m1. destroy_matching name 0 (length (vec_list v)) v None m = Some (v, None, m) \<and>
    jaeger_vector_append z v m = Some (Some j, v', m1) \<and> slot_ready name v m j v' m1"
proof -
  let ?rs = "vec_list v"
  have n: "destroy_matching name 0 (length ?rs) v None m = Some (v, None, m)"
    by (rule no_match [OF assms(1)]) (use assms(2,6) in \<open>auto simp: responses_ok_def\<close>)
  have b: "set (vec_ptrs v) \<subseteq> dom (mem_blocks m)" using assms(5) by (simp add: owns_def)
  from vec_append_total [OF assms(1,3) b assms(7)] obtain r v' m1 where a: "jaeger_vector_append z v m = Some (r, v', m1)" by blast
  obtain j where j: "r = Some j" using vec_append_plenty [OF a assms(1,3,4)] by blast
  note ap = vec_append_spec [OF a assms(1,3)] and mt = vec_append_spec(4) [OF a assms(1,3) b]
  have "\<exists>w. vec_write v' (Some j) c = Some w \<and> vec_ok w \<and> responses_ok (vec_list w) \<and>
      resp_map (vec_list w) = (resp_map ?rs)(name \<mapsto> resp_entry c) \<and>
      mem_trans (set (vec_ptrs v @ concat (map resp_ptrs ?rs))) (set (vec_ptrs w @ concat (map resp_ptrs (vec_list w)))) m m2"
    if c: "resp_complete c" "resp_key c = name" "fresh_list (resp_ptrs c) m1 m2" for c m2
  proof -
    from ap(3) [of c] j obtain w where w: "vec_write v' (Some j) c = Some w" "vec_ok w" "vec_ptrs w = vec_ptrs v'" "vec_list w = ?rs @ [c]" by blast
    with resp_map_append [OF assms(2), of c] append_blocks [OF assms(3,5) mt c(3)] assms(6) c show ?thesis by (simp add: Un_ac)
  qed
  with n a j mem_trans_ok [OF mt] mem_plenty_trans [OF mt] assms(4) show ?thesis unfolding slot_ready_def by blast
qed

text \<open>Looking up the response of a service, and reading a request that arrives in one piece.\<close>

lemma find_response_map:
  assumes "\<forall>r\<in>set rs. resp_complete r" and "resp_map rs service = Some e"
  shows "\<exists>r f. find_response rs (''service='' @ service) = Some (Some r) \<and> mr_json_format r = Some f \<and> e = (snd f, mr_arg_value r)"
  using assms by (induction rs) (auto simp: resp_map_def resp_complete_def resp_key_def resp_entry_def split: if_splits)

lemma read_whole:
  assumes "length text \<le> JAEGERTRACINGC_HTTP_SAMPLING_MANAGER_REQUEST_MAX_LEN" and "text = front @ CRLF @ CRLF"
  shows "read_client_request (Some text # reads) buffer 0 = Some (True, text @ drop (length text) buffer, length text, reads)"
  using assms by (simp add: CRLF_def c_assert_def)

lemma response_text_fits:
  assumes "length body < 10 ^ 15"
  shows "length (http_response_text body) \<le> length body + http_response_format_len + 10"
  using length_dec_of_nat [OF assms] by (simp add: http_response_text_def http_response_format_len_def CRLF_def)

lemma mock_destroy_releases:
  assumes "mock_ok server" and "mem_ok m" and "owns m (mock_ptrs server)"
  shows "\<exists>server' m'. mock_http_server_destroy server m = Some (server', m') \<and> ms_responses server' = JAEGERTRACINGC_VECTOR_INIT \<and>
    ms_client_fd server' \<le> - 1 \<and> ms_server_fd server' \<le> - 1 \<and> mem_trans (set (mock_ptrs server)) {} m m'"
proof -
  let ?v = "ms_responses server"
  have p: "vec_ptrs ?v @ mock_response.list_ptrs (vec_list ?v) = mock_ptrs server" by (simp add: mock_ptrs_def mock_response.list_ptrs_def)
  have v: "\<forall>r\<in>set (vec_list ?v). resp_complete r" "\<not> locked (ms_mutex server)" using assms(1) by (auto simp: mock_ok_def responses_ok_def)
  from mock_response.destroy_vector_elements [OF assms(2) _ v(1)] assms(3) obtain m1 m2 where
    "vector_for_each_destroy mock_http_response_destroy (vec_list ?v) m = Some m1"
    "jaeger_vector_destroy ?v m1 = Some (JAEGERTRACINGC_VECTOR_INIT, m2)" "mem_trans (set (mock_ptrs server)) {} m m2"
    unfolding p by blast
  with v(2) show ?thesis
    by (auto simp: mock_http_server_destroy_def jaeger_mutex_lock_def jaeger_mutex_unlock_def jaeger_mutex_destroy_def c_assert_def Let_def)
qed

section \<open>Setting a response and answering\<close>

text \<open>
  Setting a response updates the map from services to responses.  With memory available the response of
  the service is replaced or added, the responses of the other services stay, the old response's
  blocks are released, and the server is consistent and unlocked again.
\<close>

lemma set_response_refines_update:
  assumes "mock_ok server" and "resp_complete response" and "mem_ok m" and "mem_plenty m" and "owns m (mock_ptrs server)"
    and "vec_room (ms_responses server) (vec_capacity (ms_responses server) + 1)"
  shows "\<exists>server' m'. mock_http_server_set_response z server response m = Some (server', m') \<and> mock_ok server' \<and>
    resp_map (vec_list (ms_responses server')) =
      (resp_map (vec_list (ms_responses server)))(resp_key response \<mapsto> resp_entry response) \<and>
    mem_trans (set (mock_ptrs server)) (set (mock_ptrs server')) m m'"
proof -
  let ?v = "ms_responses server" and ?mx = "ms_mutex server"
  have v: "vec_ok ?v" "responses_ok (vec_list ?v)" "\<not> locked ?mx" using assms(1) by (auto simp: mock_ok_def)
  note o = assms(5) [unfolded mock_ptrs_def]
  obtain n where n: "mr_service_name response = Some n" "mr_json_format response \<noteq> None" "resp_key response = snd n"
    using assms(2) by (auto simp: resp_complete_def resp_key_def)
  have len: "nat (jaeger_vector_length ?v) = length (vec_list ?v)" using length_vec_list [OF v(1)] by (simp add: jaeger_vector_length_def)
  have mx: "jaeger_mutex_lock ?mx = Some (0, ?mx\<lparr>locked := True\<rparr>)" "jaeger_mutex_unlock (?mx\<lparr>locked := True\<rparr>) = Some (0, ?mx)"
    using v(3) by (simp_all add: jaeger_mutex_lock_def jaeger_mutex_unlock_def c_assert_def)
  obtain j v0 found m0 v' m1 where
    s: "destroy_matching (snd n) 0 (length (vec_list ?v)) ?v None m = Some (v0, found, m0)"
    "(case found of None \<Rightarrow> jaeger_vector_append z v0 m0 | Some i \<Rightarrow> Some (Some i, v0, m0)) = Some (Some j, v', m1)"
    "slot_ready (snd n) ?v m j v' m1"
    using slot_existing [OF v(1,2) assms(3,4) o, of "snd n"] slot_new [OF v(1,2) assms(3,4) o _ assms(6), of "snd n" z] by fastforce
  from s(3) have "mem_ok m1" "mem_plenty m1" by (auto simp: slot_ready_def)
  from response_copy [OF this assms(2)] obtain c m2 where
    c: "mock_http_response_copy response m1 = Some (c, m2)" "resp_complete c" "resp_key c = snd n" "resp_entry c = resp_entry response"
      "fresh_list (resp_ptrs c) m1 m2" using n(3) by auto
  with s(3) obtain w where w: "vec_write v' (Some j) c = Some w" "vec_ok w" "responses_ok (vec_list w)"
      "resp_map (vec_list w) = (resp_map (vec_list ?v))(snd n \<mapsto> resp_entry c)"
      "mem_trans (set (vec_ptrs ?v @ concat (map resp_ptrs (vec_list ?v)))) (set (vec_ptrs w @ concat (map resp_ptrs (vec_list w)))) m m2"
    unfolding slot_ready_def by blast
  have "mock_http_server_set_response z server response m = Some (server\<lparr>ms_responses := w, ms_mutex := ?mx\<rparr>, m2)"
    using n(1,2) mx s(1,2) c(1) w(1) by (simp add: mock_http_server_set_response_def c_assert_def len)
  with w v(3) n(3) c(4) show ?thesis by (simp add: mock_ok_def mock_ptrs_def)
qed

text \<open>
  The agent answers the request that the sampling manager of the client sends.  If a response is set for
  the service and the request arrives in one read, the agent writes the HTTP response with the formatted
  JSON and its length, keeps its responses and is unlocked.
\<close>

lemma client_request_answered:
  fixes path service host_port :: string
  defines "request \<equiv> request_text path service host_port" and "url \<equiv> ''/'' @ path @ ''?service='' @ service"
  assumes "mock_ok server" and "resp_map (vec_list (ms_responses server)) service = Some (json_format, arg)"
    and "length request \<le> JAEGERTRACINGC_HTTP_SAMPLING_MANAGER_REQUEST_MAX_LEN"
    and "ma_execute env request = (length request, [url])" and "ma_query env url = Some (Some (''service='' @ service))"
    and "length (ma_format env json_format arg) < length json_format + 10" and "length json_format < 10 ^ 14"
  shows "mock_http_server_answer env server (Some request # reads) =
    Some (True, server\<lparr>ms_url := url\<rparr>, http_response_text (ma_format env json_format arg), reads)"
proof -
  have rt: "request = (''GET /'' @ path @ ''?service='' @ service @ CRLF @ ''Host: '' @ host_port @ CRLF @
     ''User-Agent: jaegertracing/'' @ JAEGERTRACINGC_CLIENT_VERSION) @ CRLF @ CRLF" by (simp add: request_def request_text_def)
  have ul: "length url \<le> MOCK_HTTP_MAX_URL" "request \<noteq> []"
    using assms(5) by (simp_all add: rt url_def MOCK_HTTP_MAX_URL_def JAEGERTRACINGC_HTTP_SAMPLING_MANAGER_REQUEST_MAX_LEN_def)
  have "\<forall>r\<in>set (vec_list (ms_responses server)). resp_complete r" "\<not> locked (ms_mutex server)"
    using assms(3) by (auto simp: mock_ok_def responses_ok_def)
  moreover from find_response_map [OF this(1) assms(4)] obtain r f where
    r: "find_response (vec_list (ms_responses server)) (''service='' @ service) = Some (Some r)" "mr_json_format r = Some f"
    "json_format = snd f" "arg = mr_arg_value r" by auto
  moreover have "length (http_response_text (ma_format env json_format arg)) \<le> length (ma_format env json_format arg) + http_response_format_len + 10"
    using assms(8,9) by (intro response_text_fits) simp
  ultimately show ?thesis using read_whole [OF assms(5) rt] assms(6-8) ul
    by (simp add: mock_http_server_answer_def mock_http_server_on_url_def jaeger_mutex_lock_def jaeger_mutex_unlock_def c_assert_def Let_def
        del: read_client_request.simps)
qed

section \<open>Properties\<close>

text \<open>
  C38: A response set for a service is what the agent answers.  With memory available, setting a response updates
  the map from services to responses: it replaces or adds the response of this service, keeps the others, releases
  the blocks of the old one and leaves the server consistent and unlocked.  If then the request that the client's
  sampling manager sends for the service arrives in one read, the agent writes the HTTP response with the
  formatted JSON and its length.
\<close>

theorem set_response_is_answered:
  assumes "mock_ok server" and "resp_complete response" and "mem_ok m" and "mem_plenty m" and "owns m (mock_ptrs server)"
    and "vec_room (ms_responses server) (vec_capacity (ms_responses server) + 1)"
    and "length (request_text path (resp_key response) host_port) \<le> JAEGERTRACINGC_HTTP_SAMPLING_MANAGER_REQUEST_MAX_LEN"
    and "ma_execute env (request_text path (resp_key response) host_port) =
      (length (request_text path (resp_key response) host_port), [''/'' @ path @ ''?service='' @ resp_key response])"
    and "ma_query env (''/'' @ path @ ''?service='' @ resp_key response) = Some (Some (''service='' @ resp_key response))"
    and "length (case_prod (ma_format env) (resp_entry response)) < length (fst (resp_entry response)) + 10"
    and "length (fst (resp_entry response)) < 10 ^ 14"
  shows "\<exists>server' m'. mock_http_server_set_response z server response m = Some (server', m') \<and> mock_ok server' \<and>
    resp_map (vec_list (ms_responses server')) =
      (resp_map (vec_list (ms_responses server)))(resp_key response \<mapsto> resp_entry response) \<and>
    mem_trans (set (mock_ptrs server)) (set (mock_ptrs server')) m m' \<and>
    mock_http_server_answer env server' (Some (request_text path (resp_key response) host_port) # reads) =
      Some (True, server'\<lparr>ms_url := ''/'' @ path @ ''?service='' @ resp_key response\<rparr>,
        http_response_text (case_prod (ma_format env) (resp_entry response)), reads)"
proof -
  obtain f a where e: "resp_entry response = (f, a)" by fastforce
  from set_response_refines_update [OF assms(1-6)] obtain server' m' where
    s: "mock_http_server_set_response z server response m = Some (server', m')" "mock_ok server'"
    "resp_map (vec_list (ms_responses server')) = (resp_map (vec_list (ms_responses server)))(resp_key response \<mapsto> resp_entry response)"
    "mem_trans (set (mock_ptrs server)) (set (mock_ptrs server')) m m'" by blast
  with client_request_answered [OF s(2) _ assms(7-9), of f a] assms(10,11) e show ?thesis by simp
qed

definition mock_sample :: mock_http_server where
  "mock_sample = \<lparr>ms_server_fd = 3, ms_client_fd = 4, ms_thread = True, ms_mutex = \<lparr>locked = False\<rparr>, ms_url = [],
     ms_responses = \<lparr>vec_len = 1, vec_capacity = 2, vec_data = Some (0, [\<lparr>mr_service_name = Some (1, ''svc''), mr_json_format = Some (2, ''{}''), mr_arg_value = 1\<rparr>,
        \<lparr>mr_service_name = None, mr_json_format = None, mr_arg_value = 0\<rparr>]), vec_type_size = 24\<rparr>, ms_running = True\<rparr>"

definition mock_mem :: mem where
  "mock_mem = \<lparr>mem_oracle = (\<lambda>_. True), mem_next = 3, mem_blocks = [0 \<mapsto> 48, 1 \<mapsto> 4, 2 \<mapsto> 3], mem_allocator = Built_in_allocator\<rparr>"

lemma mock_sample_ok: "mock_ok mock_sample" "mem_ok mock_mem" "mem_plenty mock_mem" "owns mock_mem (mock_ptrs mock_sample)"
  "resp_map (vec_list (ms_responses mock_sample)) = [''svc'' \<mapsto> (''{}'', 1)]"
  "vec_room (ms_responses mock_sample) (vec_capacity (ms_responses mock_sample) + 1)"
  by (auto simp: mock_ok_def mock_sample_def vec_ok_def vec_list_def responses_ok_def resp_complete_def INT_MAX_def mem_ok_def mock_mem_def
      mem_plenty_def owns_def mock_ptrs_def vec_ptrs_def resp_ptrs_def resp_map_def resp_key_def resp_entry_def vec_room_def split: if_splits)

definition mock_env_sample :: mock_env where
  "mock_env_sample = \<lparr>ma_execute = (\<lambda>t. (length t, [''/sampling?service=svc''])),
     ma_query = (\<lambda>_. Some (Some ''service=svc'')), ma_format = (\<lambda>f _. f)\<rparr>"

theorem set_response_is_answered_witness:
  "\<exists>server' m'. mock_http_server_set_response \<lparr>mr_service_name = None, mr_json_format = None, mr_arg_value = 0\<rparr> mock_sample
      \<lparr>mr_service_name = Some (0, ''svc''), mr_json_format = Some (0, ''[]''), mr_arg_value = 2\<rparr> mock_mem = Some (server', m') \<and>
    mock_http_server_answer mock_env_sample server' [Some (request_text ''sampling'' ''svc'' ''h:1'')] =
      Some (True, server'\<lparr>ms_url := ''/sampling?service=svc''\<rparr>, http_response_text ''[]'', [])"
proof -
  let ?r = "\<lparr>mr_service_name = Some (0, ''svc''), mr_json_format = Some (0, ''[]''), mr_arg_value = 2\<rparr>"
  have r: "resp_complete ?r" "resp_key ?r = ''svc''" "resp_entry ?r = (''[]'', 2)" by (simp_all add: resp_complete_def resp_key_def resp_entry_def)
  have e: "length (request_text ''sampling'' ''svc'' ''h:1'') \<le> JAEGERTRACINGC_HTTP_SAMPLING_MANAGER_REQUEST_MAX_LEN"
    by (simp add: request_text_def CRLF_def JAEGERTRACINGC_CLIENT_VERSION_def JAEGERTRACINGC_HTTP_SAMPLING_MANAGER_REQUEST_MAX_LEN_def)
  from set_response_is_answered [OF mock_sample_ok(1) r(1) mock_sample_ok(2,3,4,6), of "''sampling''" "''h:1''" mock_env_sample
    "\<lparr>mr_service_name = None, mr_json_format = None, mr_arg_value = 0\<rparr>" "[]"] e
  show ?thesis unfolding r(2,3) by (simp add: mock_env_sample_def) blast
qed

end
