(* ===== verification/Spec2Isabelle.thy ===== *)
theory Spec2Isabelle
  imports Intrusive_List Token_Bucket Span Carriers Threading Sampler Reporter Rng Baggage Tracer Delivery Remote_Update Logging Hash_Seed Concurrency Crossdock_Server Mock_Agent
begin

text \<open>
  Verification of the Jaeger tracing client in C, \<open>src/src/jaegertracingc\<close>.

  \<^bold>\<open>The program.\<close>  An application asks a tracer for spans, annotates them with tags, logs and baggage and
  finishes them.  The tracer asks a sampler whether a new trace is recorded; a finished span that is
  sampled goes to a reporter, which converts it to a protobuf message, queues it and sends batches of
  messages in UDP packets to an agent.  Span contexts travel between processes in carriers (text maps,
  HTTP headers, bytes).  All of this rests on hand-written containers, string helpers and an allocator
  that may fail at every request.

  \<^bold>\<open>Conventions.\<close>  An operation is a function in the option monad: \<open>None\<close> means that the C code has no normal
  continuation there (a failed assertion, a NULL dereference, freeing a block that is not live, a
  signed overflow, locking a mutex that the thread holds).  Failures the code reports are ordinary
  results.  The heap is \<open>mem\<close> of \<open>Alloc\<close>: numbered blocks and an oracle that says which requests are
  served, so a theorem without an assumption on the oracle holds for every pattern of allocation
  failures; \<open>mem_plenty\<close> says that every request is served.  A structure that owns blocks has a function
  that lists them, and \<open>mem_trans A B m m'\<close> says that an operation consumes the blocks \<open>A\<close>, makes the
  blocks \<open>B\<close> and touches no other: no leak, no double free.  Integers keep their width: \<open>u8\<close> to \<open>u64\<close> are
  words, \<open>int\<close> and \<open>int64_t\<close> are integers whose overflow is checked.  A \<open>double\<close> is a real number and
  every operation on it is followed by a rounding (\<open>Double\<close>).  A mutex is the flag that it is held.

  \<^bold>\<open>The theories and the code.\<close>
  \<^item> \<open>Prelude\<close>, \<open>C_Library\<close>, \<open>Double\<close>, \<open>Ownership\<close>: shared types and lemmas; the C library functions the
    code calls; floating-point rounding; laws on building and releasing structures block by block.
  \<^item> \<open>Alloc\<close> (\<open>alloc.c\<close>), \<open>Clock\<close> (\<open>clock.c\<close>), \<open>Siphash\<close> (\<open>siphash.c\<close>), \<open>Intrusive_List\<close> (\<open>list.c\<close>), \<open>Vector\<close>
    (\<open>vector.c\<close>), \<open>Hashtable\<close> (\<open>key_value.c\<close>, \<open>hashtable.c\<close>): the base.  The list refines sequences, the
    vector lists, the table finite maps, the hash is SipHash-2-4.  The interfaces are the locales
    \<open>element_copy\<close>, \<open>element_destroy\<close>, \<open>element_ptr_copy\<close> (what a vector of owned elements needs of them)
    and the map interface of the hash table.  \<open>Hash_Seed\<close> (\<open>hashtable.c\<close>, \<open>random.h\<close>): the seed all tables share.
  \<^item> \<open>Trace_Id\<close> (\<open>trace_id.c\<close>), \<open>Strings\<close> (\<open>strings.h\<close>), \<open>Tag\<close> (\<open>tag.c\<close>, \<open>log_record.c\<close>), \<open>Span_Context\<close> and \<open>Span\<close>
    (\<open>span.c\<close>): the data of a trace, its text forms, faithful copies and conversion to messages.
  \<^item> \<open>Propagation\<close> and \<open>Carriers\<close> (\<open>propagation.c\<close>, \<open>options.h\<close>): the carriers and their round trips, over the
    locale \<open>text_codec\<close>.
  \<^item> \<open>Threading\<close> (\<open>threading.c\<close>): the single-threaded build, thread-local values, and \<open>jaeger_lock\<close> as an
    interleaving step relation with mutual exclusion and freedom from deadlock.
  \<^item> \<open>Token_Bucket\<close> (\<open>token_bucket.c\<close>), \<open>Rng\<close> (\<open>random.c\<close>), \<open>Sampler\<close> (\<open>sampler.c\<close>, \<open>sampling_strategy.h\<close>): the
    samplers' decisions, over the locale \<open>sampler_contract\<close>.
  \<^item> \<open>Metrics\<close> (\<open>metrics.c\<close>), \<open>Net\<close> (\<open>net.c\<close>), \<open>Reporter\<close> (\<open>reporter.c\<close>): counters, addresses, and the reporters,
    with the delivery of the remote reporter and the locale \<open>child_reporter\<close> for composites.
  \<^item> \<open>Baggage\<close> (\<open>baggage.c\<close>), \<open>Tracer\<close> (\<open>tracer.c\<close>, \<open>tracer.h\<close>): restrictions on baggage; the tracer with its
    defaults, new and joined traces, reporting, injection and extraction.
  \<^item> \<open>Remote_Sampler\<close> (\<open>sampler.c\<close> from the sampling manager on): the HTTP request, the callbacks of the parser,
    strategies from JSON and the remotely controlled sampler; \<open>Remote_Update\<close>: an update of this sampler
    implements the strategy that the server's answer describes.
  \<^item> \<open>Delivery\<close>: the composition of \<open>span.c\<close>, \<open>tracer.c\<close> and \<open>reporter.c\<close>, from finished spans to packets,
    over the locale \<open>queueing_reporter\<close>.
  \<^item> \<open>Logging\<close> (\<open>logging.c\<close>): the loggers, and several threads that log at once as a step relation.
  \<^item> \<open>Critical_Section\<close>: threads that call operations of an object under its mutex, as a step relation; every run
    is a sequential run of the calls (locales \<open>guarded_object\<close>, \<open>collecting_object\<close>).  \<open>Concurrency\<close>: the remote
    reporter and the counters are such objects; the token bucket has no mutex and can be overspent.
  \<^item> \<open>Crossdock\<close> (\<open>crossdock/messages.h\<close>, \<open>crossdock/main.c\<close>): the test service's requests and a connection;
    \<open>Crossdock_Server\<close>: its \<open>main\<close>, the threads that serve connections, as a step relation.
  \<^item> \<open>Mock_Agent\<close> (\<open>mock_agent.h\<close>): the agent of the tests, which answers the client's sampling manager.
  \<^item> This theory has the properties that span components.

  \<^bold>\<open>Parameters.\<close>  Code outside \<open>src/\<close> is an argument: the carriers of the client, \<open>qsort\<close>, the resolver and
  \<open>sendto\<close>, \<open>http_parser\<close>, \<open>jansson\<close>, the generated protobuf functions (packed size and bytes of a batch, the
  initialiser of a tag), \<open>rand_r\<close>, the clocks.  The sizes of generated structures are those of a 64-bit
  platform; they reach the allocator only.  Virtual methods are arguments of the code that calls them.

  \<^bold>\<open>Loops and fuel.\<close>  Loops are structural recursions or have a termination measure.  Those that may run
  for ever (\<open>jaeger_lock\<close>, flushing the remote reporter) are partial functions with value \<open>None\<close> then, and
  the theorems about them show that they return.

  \<^bold>\<open>Not modelled.\<close>  The messages that the build generates from the IDL, which are not in the sources.  The calls that log a message are left out where they have no other effect.
\<close>

section \<open>Sampling a new trace\<close>

text \<open>The method of a sampler that first draws a random number, as the tracer calls it.\<close>

definition with_random ::
  "random_env \<Rightarrow> u32 \<Rightarrow> opentracing_time_value \<Rightarrow> (draw \<Rightarrow> 's \<Rightarrow> tags \<Rightarrow> mem \<Rightarrow> (bool \<times> 's \<times> tags \<times> mem) option) \<Rightarrow>
   's \<Rightarrow> jaeger_trace_id \<Rightarrow> string option \<Rightarrow> jaeger_tag jaeger_vector \<Rightarrow> rng_globals \<Rightarrow> mem \<Rightarrow>
   (bool \<times> 's \<times> jaeger_tag jaeger_vector \<times> rng_globals \<times> mem) option" where
  "with_random renv garbage now ask s trace_id operation_name tags g m = do {
     (n, g, m) \<leftarrow> jaeger_random64 renv garbage g m;
     (sampled, s, tags, m) \<leftarrow> ask \<lparr>dr_random = n, dr_created = now, dr_now = now\<rparr> s (Some tags) m;
     tags \<leftarrow> tags;
     Some (sampled, s, tags, g, m)
   }"

definition rng_ready :: "random_env \<Rightarrow> rng_globals \<Rightarrow> jaeger_tag jaeger_vector \<Rightarrow> mem \<Rightarrow> bool" where
  "rng_ready renv g tags m \<longleftrightarrow> rand_r_documented renv \<and> rng_ok g \<and> (has_run (rg_once g) \<or> rn_key_create renv = 0) \<and> mem_ok m \<and>
     owns m (rng_ptrs g @ tags_ptrs tags)"

lemma draw_step:
  assumes "rng_ready renv g tags m"
  obtains r g' m' where "jaeger_random64 renv garbage g m = Some (r, g', m')" and "unat r < 2 ^ 63" and "rng_ready renv g' tags m'"
    and "mem_trans (set (rng_ptrs g @ tags_ptrs tags)) (set (rng_ptrs g' @ tags_ptrs tags)) m m'"
proof -
  have a: "rand_r_documented renv" "rng_ok g" "\<not> has_run (rg_once g) \<longrightarrow> rn_key_create renv = 0" "mem_ok m"
    "owns m (rng_ptrs g)" "owns m (tags_ptrs tags)" "set (tags_ptrs tags) \<inter> set (rng_ptrs g) = {}" "set (tags_ptrs tags) \<subseteq> dom (mem_blocks m)"
    using assms by (auto simp: rng_ready_def owns_def)
  from random64_spec [OF a(1-5), of garbage] obtain r g' m' where
    r: "jaeger_random64 renv garbage g m = Some (r, g', m')" "unat r < 2 ^ 63" "rng_ok g'" "has_run (rg_once g')"
    "mem_trans (set (rng_ptrs g)) (set (rng_ptrs g')) m m'" by blast
  have "distinct (rng_ptrs g')" by (auto simp: rng_ptrs_def cs_ptrs_def split: option.split)
  then have "owns m' (rng_ptrs g' @ tags_ptrs tags)"
    using owns_trans [OF r(5)] owns_frame [OF r(5) a(6,7)] by (auto simp: owns_append)
  with r a(1) mem_trans_ok [OF r(5)] have "rng_ready renv g' tags m'" by (simp add: rng_ready_def)
  with that [OF r(1,2) this] mem_trans_frame [OF r(5) a(8,7)] show thesis by simp
qed

lemma no_parent_kept:
  assumes "kept_refs refs = []" and "\<forall>r\<in>set refs. \<exists>ctx. snd r = Some ctx \<and> \<not> ctx_locked ctx"
  shows "copy_refs te refs None False sp m = Some (True, None, False, sp, m)"
  using assms
proof (induction refs)
  case (Cons r refs)
  then obtain ctx where c: "snd r = Some ctx" "\<not> ctx_locked ctx" "\<not> reference_kept ctx" "kept_refs refs = []"
    by (auto simp: kept_refs_def split: if_splits)
  have "ctx_lock ctx \<bind> ctx_unlock = Some ctx" using c(2) by (simp add: ctx_lock_def ctx_unlock_def)
  with Cons c show ?case by (auto simp: ctx_lock_def ctx_unlock_def)
qed simp


text \<open>The trace ID of a new trace: one random number, or two.\<close>

lemma trace_id_drawn:
  assumes "rng_ready renv g tags m"
  obtains low g1 m1 id' g2 m2 where "jaeger_random64 renv garbage g m = Some (low, g1, m1)"
    and "(if wide then do { (high, g, m) \<leftarrow> jaeger_random64 renv garbage g1 m1; Some (tid\<lparr>tid_low := low, tid_high := high\<rparr>, g, m) }
          else Some (tid\<lparr>tid_low := low\<rparr>, g1, m1)) = Some (id', g2, m2)"
    and "tid_low id' = low" and "unat low < 2 ^ 63" and "if wide then unat (tid_high id') < 2 ^ 63 else tid_high id' = tid_high tid"
    and "rng_ready renv g2 tags m2" and "mem_trans (set (rng_ptrs g @ tags_ptrs tags)) (set (rng_ptrs g2 @ tags_ptrs tags)) m m2"
proof -
  obtain low g1 m1 where l: "jaeger_random64 renv garbage g m = Some (low, g1, m1)" "unat low < 2 ^ 63" "rng_ready renv g1 tags m1"
    "mem_trans (set (rng_ptrs g @ tags_ptrs tags)) (set (rng_ptrs g1 @ tags_ptrs tags)) m m1" by (rule draw_step [OF assms])
  show thesis
  proof (cases wide)
    case False
    with that [of low g1 m1 "tid\<lparr>tid_low := low\<rparr>" g1 m1] l show thesis by simp
  next
    case True
    obtain high g2 m2 where h: "jaeger_random64 renv garbage g1 m1 = Some (high, g2, m2)" "unat high < 2 ^ 63" "rng_ready renv g2 tags m2"
      "mem_trans (set (rng_ptrs g1 @ tags_ptrs tags)) (set (rng_ptrs g2 @ tags_ptrs tags)) m1 m2" by (rule draw_step [OF l(3)])
    have mo: "mem_ok m" using assms by (simp add: rng_ready_def)
    from that [of low g1 m1 "tid\<lparr>tid_low := low, tid_high := high\<rparr>" g2 m2] True l h mem_trans_trans [OF l(4) h(4) mo] show thesis by simp
  qed
qed

lemma ask_drawn:
  assumes "rng_ready renv g tags m" and "vec_ok tags" and "vec_room tags (vec_len tags + 2)" and "tag_blank (se_tag_init env)" and "binary_rounding (se_rnd_long env)"
  shows "\<exists>n tags' g' m'. with_random renv garbage now (jaeger_probabilistic_sampler_is_sampled env) s tid name tags g m =
      Some (random_value env \<lparr>dr_random = n, dr_created = now, dr_now = now\<rparr> \<le> sampling_rate s, s, tags', g', m') \<and>
    (1 / 2 \<le> sampling_rate s \<longrightarrow> random_value env \<lparr>dr_random = n, dr_created = now, dr_now = now\<rparr> \<le> sampling_rate s) \<and>
    (\<exists>added. vec_list tags' = vec_list tags @ added \<and> length added \<le> 2) \<and>
    mem_trans (set (rng_ptrs g @ tags_ptrs tags)) (set (rng_ptrs g' @ tags_ptrs tags')) m m'"
proof -
  obtain n g1 m1 where n: "jaeger_random64 renv garbage g m = Some (n, g1, m1)" "unat n < 2 ^ 63" "rng_ready renv g1 tags m1"
    "mem_trans (set (rng_ptrs g @ tags_ptrs tags)) (set (rng_ptrs g1 @ tags_ptrs tags)) m m1" by (rule draw_step [OF assms(1)])
  let ?dr = "\<lparr>dr_random = n, dr_created = now, dr_now = now\<rparr>"
  have o: "mem_ok m" "mem_ok m1" "owns m1 (tags_ptrs tags)" "set (rng_ptrs g1) \<inter> set (tags_ptrs tags) = {}" "set (rng_ptrs g1) \<subseteq> dom (mem_blocks m1)"
    using assms(1) n(3) by (auto simp: rng_ready_def owns_def)
  have tok: "tags_ok (Some tags) m1" using assms(2,3) o(3) by (simp add: tags_ok_def)
  from prob_s.ask_law [OF assms(4) tok o(2), of ?dr s] obtain tg m2 where
    a: "jaeger_probabilistic_sampler_is_sampled env ?dr s (Some tags) m1 = Some (random_value env ?dr \<le> sampling_rate s, s, tg, m2)"
    "tags_added env (JAEGERTRACINGC_SAMPLER_TYPE_PROBABILISTIC, float_param (sampling_rate s)) (Some tags) m1 tg m2" by auto
  from a(2) obtain tags' added where t: "tg = Some tags'" "vec_list tags' = vec_list tags @ added" "length added \<le> 2"
    "mem_trans (set (tags_ptrs tags)) (set (tags_ptrs tags')) m1 m2"
    by (cases tg) (auto simp: tags_added_def tags_list_def tags_own_def)
  have "mem_trans (set (rng_ptrs g1 @ tags_ptrs tags)) (set (rng_ptrs g1 @ tags_ptrs tags')) m1 m2"
    using mem_trans_frame [OF t(4) o(5,4)] by (simp add: Un_commute)
  from mem_trans_trans [OF n(4) this o(1)] random_value_le_half [OF assms(5), of ?dr] n(1,2) a(1) t(1-3) show ?thesis
    by (intro exI [of _ n] exI [of _ tags'] exI [of _ g1] exI [of _ m2]) (auto simp: with_random_def)
qed



definition te_prob :: "(jaeger_probabilistic_sampler, unit, unit) tracer_env" where
  "te_prob =
    \<lparr>te_env = env_one, te_is_sampled = with_random random_env_one 0 TIME_ZERO (jaeger_probabilistic_sampler_is_sampled sample_env),
     te_sampler_destroy = (\<lambda>s m. Some (s, m)), te_report = (\<lambda>t r sp w m. Some (r, w, m)), te_flush = (\<lambda>r w m. Some (True, r, w, m)),
     te_reporter_destroy = (\<lambda>r w m. Some (r, w, m)), te_remote_sampler_init = (\<lambda>name mt m. None),
     te_remote_reporter_init = (\<lambda>mt m. Some (True, (), m)), te_gethost = None, te_addrs = None,
     te_random = random_env_one, te_garbage = 0, te_as_span_ref = (\<lambda>r. None), te_zero_value = OTV_null,
     te_sizeof_metrics = 168, te_sizeof_sampler = 8, te_sizeof_reporter = 8, te_sizeof_span = 400\<rparr>"



definition adaptive_one :: jaeger_adaptive_sampler where
  "adaptive_one = \<lparr>op_samplers = \<lparr>vec_len = 0, vec_capacity = 1, vec_data = Some (0, [OPERATION_SAMPLER_ZERO]), vec_type_size = 112\<rparr>,
     default_sampler = jaeger_probabilistic_sampler_init 1, lower_bound = 1, max_operations = 10, ad_locked = False\<rparr>"

definition te_remote :: "(unit jaeger_remotely_controlled_sampler, unit, unit) tracer_env" where
  "te_remote = te_default\<lparr>te_is_sampled := (\<lambda>s tid name tags g m. map_option (\<lambda>(b, s, tags, m). (b, s, the tags, g, m))
     (jaeger_remotely_controlled_sampler_is_sampled sample_env sample_draw s name (Some tags) m))\<rparr>"


end
